(* ===== verification/Branch_Prelude.thy ===== *)
theory Branch_Prelude
  imports Main "HOL-Library.Word" "HOL-Library.List_Lexorder"
begin

text \<open>
  The vocabulary the component theories share.

  \<^item> \<open>byte\<close> is one element of a \<^verbatim>\<open>Uint8Array\<close>, \<open>bytes\<close> the array; \<open>js_string\<close> is an
    ECMAScript string, a list of UTF-16 code units, and \<open>lit\<close> turns an ASCII literal of the
    source into one. \<open>byteOf\<close> is the store of a number into a \<^verbatim>\<open>Uint8Array\<close>, which
    keeps its low eight bits, and \<open>unitOf\<close> is \<^verbatim>\<open>String.fromCharCode\<close>. The library order on lists (\<^verbatim>\<open>HOL-Library.List_Lexorder\<close>) is then the
    order of \<^verbatim>\<open><\<close> on strings and of \<^verbatim>\<open>compareBytes\<close> on byte arrays.
  \<^item> A number is an \<open>int\<close>. The program admits a number only after
    \<^verbatim>\<open>Number.isSafeInteger\<close> or as the length of an array, so a fraction, a NaN or an infinity
    never passes the guards that are modelled.
  \<^item> A function that may throw returns \<open>'a res\<close>, that is \<open>js_error + 'a\<close>; \<open>andThen\<close>
    sequences two of them as statements of the source follow each other, and \<open>throwIf\<close> is
    \<^verbatim>\<open>if (c) throw e\<close>.
  \<^item> \<open>js_sort\<close> is the stable \<^verbatim>\<open>Array.prototype.sort\<close> with a comparator.
\<close>

named_theorems res_simps \<open>inversion rules for results\<close>

section \<open>Bytes, strings and numbers\<close>

type_synonym byte = "8 word"
type_synonym bytes = "8 word list"
type_synonym js_string = "16 word list"

definition byteOf :: "nat \<Rightarrow> byte" where
  "byteOf n = of_nat n"

definition unitOf :: "nat \<Rightarrow> 16 word" where
  "unitOf n = of_nat n"

definition lit :: "string \<Rightarrow> js_string" where
  "lit s = map (\<lambda>c. unitOf (of_char c)) s"

definition maxSafeInteger :: int where
  "maxSafeInteger = 9007199254740991"

definition isSafeInteger :: "int \<Rightarrow> bool" where
  "isSafeInteger n \<longleftrightarrow> \<bar>n\<bar> \<le> maxSafeInteger"

section \<open>Results\<close>

datatype js_error =
    CborError js_string
  | PlainError js_string
  | ProtocolError js_string
  | RelayAttachmentError js_string
  | StackOverflow

type_synonym 'a res = "js_error + 'a"

definition andThen :: "'a res \<Rightarrow> ('a \<Rightarrow> 'b res) \<Rightarrow> 'b res" where
  "andThen m f = (case m of Inl e \<Rightarrow> Inl e | Inr x \<Rightarrow> f x)"

definition throwIf :: "bool \<Rightarrow> js_error \<Rightarrow> unit res" where
  "throwIf c e = (if c then Inl e else Inr ())"

definition succeeds :: "'a res \<Rightarrow> bool" where
  "succeeds r = (case r of Inl _ \<Rightarrow> False | Inr _ \<Rightarrow> True)"

primrec mapRes :: "('a \<Rightarrow> 'b res) \<Rightarrow> 'a list \<Rightarrow> 'b list res" where
  "mapRes f [] = Inr []"
| "mapRes f (x # xs) = andThen (f x) (\<lambda>y. andThen (mapRes f xs) (\<lambda>ys. Inr (y # ys)))"

abbreviation throw :: "string \<Rightarrow> 'a res" where
  "throw s \<equiv> Inl (PlainError (lit s))"

section \<open>Trimming\<close>

text \<open>\<^verbatim>\<open>String.prototype.trim\<close> removes white space and line terminators at both ends.\<close>

definition jsWhitespace :: "16 word \<Rightarrow> bool" where
  "jsWhitespace u \<longleftrightarrow> unat u \<in> {0x09, 0x0A, 0x0B, 0x0C, 0x0D, 0x20, 0xA0, 0x1680, 0x2028, 0x2029, 0x202F, 0x205F, 0x3000, 0xFEFF}
     \<or> 0x2000 \<le> unat u \<and> unat u \<le> 0x200A"

definition trim :: "js_string \<Rightarrow> js_string" where
  "trim s = rev (dropWhile jsWhitespace (rev (dropWhile jsWhitespace s)))"

section \<open>Sorting with a comparator\<close>

primrec insertBy :: "('a \<Rightarrow> 'a \<Rightarrow> int) \<Rightarrow> 'a \<Rightarrow> 'a list \<Rightarrow> 'a list" where
  "insertBy cmp x [] = [x]"
| "insertBy cmp x (y # ys) = (if cmp x y \<le> 0 then x # y # ys else y # insertBy cmp x ys)"

definition js_sort :: "('a \<Rightarrow> 'a \<Rightarrow> int) \<Rightarrow> 'a list \<Rightarrow> 'a list" where
  "js_sort cmp xs = foldr (insertBy cmp) xs []"

section \<open>Lemmas on results\<close>

lemma andThen_simps [simp]:
  "andThen (Inl e) f = Inl e"
  "andThen (Inr x) f = f x"
  by (simp_all add: andThen_def)

lemma andThen_cong [fundef_cong]:
  "m = m' \<Longrightarrow> (\<And>x. m' = Inr x \<Longrightarrow> f x = f' x) \<Longrightarrow> andThen m f = andThen m' f'"
  by (cases m') auto

lemma andThen_Inr [res_simps]:
  "andThen m f = Inr y \<longleftrightarrow> (\<exists>x. m = Inr x \<and> f x = Inr y)"
  by (cases m) auto

lemma andThen_Inl:
  "andThen m f = Inl e \<longleftrightarrow> m = Inl e \<or> (\<exists>x. m = Inr x \<and> f x = Inl e)"
  by (cases m) auto

lemma andThen_assoc: "andThen (andThen m f) g = andThen m (\<lambda>x. andThen (f x) g)"
  by (cases m) auto

lemma throwIf_Inr [res_simps, simp]: "throwIf c e = Inr u \<longleftrightarrow> \<not> c"
  by (simp add: throwIf_def)

lemma throwIf_Inl [simp]: "throwIf c e = Inl e' \<longleftrightarrow> c \<and> e' = e"
  by (auto simp: throwIf_def)

lemma throwIf_False [simp]: "throwIf False e = Inr ()"
  by (simp add: throwIf_def)

lemma throwIf_True [simp]: "throwIf True e = Inl e"
  by (simp add: throwIf_def)

lemma andThen_throwIf: "andThen (throwIf c e) f = (if c then Inl e else f ())"
  by (simp add: throwIf_def)

lemma succeeds_simps [simp]: "succeeds (Inr x)" "\<not> succeeds (Inl e)"
  by (simp_all add: succeeds_def)

lemma succeeds_iff: "succeeds r \<longleftrightarrow> (\<exists>x. r = Inr x)"
  by (cases r) auto

lemma mapRes_Inr_length: "mapRes f xs = Inr ys \<Longrightarrow> length ys = length xs"
  by (induction xs arbitrary: ys) (auto simp: res_simps)

lemma mapRes_Inr_nth:
  "mapRes f xs = Inr ys \<Longrightarrow> i < length xs \<Longrightarrow> f (xs ! i) = Inr (ys ! i)"
  by (induction xs arbitrary: ys i) (auto simp: res_simps nth_Cons split: nat.splits)

lemma mapRes_Inr_map: "(\<And>x. x \<in> set xs \<Longrightarrow> f x = Inr (g x)) \<Longrightarrow> mapRes f xs = Inr (map g xs)"
  by (induction xs) auto

lemma mapRes_map: "mapRes f (map g xs) = mapRes (f \<circ> g) xs"
  by (induction xs) auto

lemma mapRes_Inr_elem:
  "mapRes f xs = Inr ys \<Longrightarrow> x \<in> set xs \<Longrightarrow> \<exists>y \<in> set ys. f x = Inr y"
  by (induction xs arbitrary: ys) (auto simp: res_simps)

section \<open>Lemmas on numbers, bytes and literals\<close>

lemma unat_byte_less [simp]: "unat (b :: byte) < 256"
  using unsigned_less [of b] by simp

lemma unat_unit_less [simp]: "unat (u :: 16 word) < 65536"
  using unsigned_less [of u] by simp

lemma unat_byteOf [simp]: "unat (byteOf n) = n mod 256"
  by (simp add: byteOf_def unat_of_nat)

lemma unat_unitOf [simp]: "unat (unitOf n) = n mod 65536"
  by (simp add: unitOf_def unat_of_nat)

lemma byteOf_unat [simp]: "byteOf (unat b) = b"
  by (simp add: byteOf_def)

lemma unitOf_unat [simp]: "unitOf (unat u) = u"
  by (simp add: unitOf_def)

lemma byte_eqI: "unat (a :: byte) = unat b \<Longrightarrow> a = b"
  by (simp add: word_unat_eq_iff)

lemma unit_eqI: "unat (u :: 16 word) = unat v \<Longrightarrow> u = v"
  by (simp add: word_unat_eq_iff)

lemma unat_unitOf_char [simp]: "unat (unitOf (of_char c)) = of_char c"
proof -
  have "(of_char c :: nat) < 65536"
    by (rule less_trans [of _ 256]) simp_all
  then show ?thesis
    unfolding unat_unitOf by (rule mod_less)
qed

lemma unitOf_char_inject [simp]: "unitOf (of_char c) = unitOf (of_char d) \<longleftrightarrow> c = d"
  by (metis unat_unitOf_char of_char_eq_iff)

lemma lit_inject [simp]: "lit s = lit t \<longleftrightarrow> s = t"
proof -
  have "inj (\<lambda>c. unitOf (of_char c))"
    by (auto intro!: injI)
  then show ?thesis
    unfolding lit_def by (rule inj_map_eq_map)
qed

lemma lit_Nil [simp]: "lit [] = []"
  by (simp add: lit_def)

lemma lit_Nil_iff [simp]: "lit s = [] \<longleftrightarrow> s = []"
  by (simp add: lit_def)

lemma length_lit [simp]: "length (lit s) = length s"
  by (simp add: lit_def)

lemma lit_append: "lit (s @ t) = lit s @ lit t"
  by (simp add: lit_def)

lemma isSafeInteger_int [simp]: "isSafeInteger (int n) \<longleftrightarrow> n \<le> 9007199254740991"
  by (simp add: isSafeInteger_def maxSafeInteger_def)

lemma trim_Nil_iff: "trim s = [] \<longleftrightarrow> (\<forall>u \<in> set s. jsWhitespace u)"
proof -
  have "set s = set (takeWhile jsWhitespace s) \<union> set (dropWhile jsWhitespace s)"
    by (metis set_append takeWhile_dropWhile_id)
  then have "(\<forall>u \<in> set s. jsWhitespace u) \<longleftrightarrow> (\<forall>u \<in> set (dropWhile jsWhitespace s). jsWhitespace u)"
    using set_takeWhileD by fastforce
  then show ?thesis by (simp add: trim_def dropWhile_eq_Nil_conv)
qed

lemma trim_blank [simp]: "trim s \<noteq> [] \<Longrightarrow> s \<noteq> []"
  by (auto simp: trim_def)

section \<open>Lemmas on sorting\<close>

lemma insertBy_insort_key:
  assumes "\<And>a b. cmp a b \<le> 0 \<longleftrightarrow> f a \<le> f b"
  shows "insertBy cmp x xs = insort_key f x xs"
  using assms by (induction xs) auto

lemma js_sort_sort_key:
  assumes "\<And>a b. cmp a b \<le> 0 \<longleftrightarrow> f a \<le> f b"
  shows "js_sort cmp xs = sort_key f xs"
proof -
  have "insertBy cmp = insort_key f"
    using insertBy_insort_key [OF assms] by (intro ext)
  then show ?thesis
    by (simp add: js_sort_def sort_key_def)
qed

lemma set_insertBy [simp]: "set (insertBy cmp x xs) = insert x (set xs)"
  by (induction xs) auto

lemma set_js_sort [simp]: "set (js_sort cmp xs) = set xs"
  by (induction xs) (auto simp: js_sort_def)

lemma length_insertBy [simp]: "length (insertBy cmp x xs) = Suc (length xs)"
  by (induction xs) auto

lemma length_js_sort [simp]: "length (js_sort cmp xs) = length xs"
  by (induction xs) (auto simp: js_sort_def)

section \<open>Components with an invariant\<close>

text \<open>
  The contract of a component whose operations keep an invariant. \<open>run op s\<close> is the state after the
  operation, the state itself where the operation throws before it changes anything.
\<close>

locale invariant_machine =
  fixes run :: "'op \<Rightarrow> 's \<Rightarrow> 's" and inv :: "'s \<Rightarrow> bool"
  assumes inv_run: "inv s \<Longrightarrow> inv (run op s)"
begin

lemma inv_runs: "inv s \<Longrightarrow> inv (fold run ops s)"
  by (induction ops arbitrary: s) (simp_all add: inv_run)

end

end
