(* ===== verification/Utf8.thy ===== *)
theory Utf8
  imports Branch_Prelude
begin

text \<open>
  The text codecs of the platform that the program calls: \<^verbatim>\<open>new TextEncoder().encode\<close> and
  \<^verbatim>\<open>new TextDecoder("utf-8", { fatal: true }).decode\<close>, as the Encoding Standard defines them.
  The encoder reads a string as scalar values, an unpaired surrogate becoming U+FFFD. The decoder
  accepts well-formed UTF-8 only (\<open>None\<close> is its \<^verbatim>\<open>TypeError\<close>) and, since the program never
  sets \<^verbatim>\<open>ignoreBOM\<close>, drops a leading byte order mark.

  The theory proves that decoding inverts encoding exactly on the strings with no unpaired
  surrogate and no leading U+FEFF, and that a decoded text encodes to the bytes it came from
  unless they started with a byte order mark.
\<close>

section \<open>Scalar values\<close>

definition highSurrogate :: "16 word \<Rightarrow> bool" where
  "highSurrogate u \<longleftrightarrow> 0xD800 \<le> unat u \<and> unat u \<le> 0xDBFF"

definition lowSurrogate :: "16 word \<Rightarrow> bool" where
  "lowSurrogate u \<longleftrightarrow> 0xDC00 \<le> unat u \<and> unat u \<le> 0xDFFF"

definition pairScalar :: "16 word \<Rightarrow> 16 word \<Rightarrow> nat" where
  "pairScalar u v = 0x10000 + (unat u - 0xD800) * 0x400 + (unat v - 0xDC00)"

definition unitScalar :: "16 word \<Rightarrow> nat" where
  "unitScalar u = (if highSurrogate u \<or> lowSurrogate u then 0xFFFD else unat u)"

fun scalars :: "js_string \<Rightarrow> nat list" where
  "scalars [] = []"
| "scalars [u] = [unitScalar u]"
| "scalars (u # v # us) =
     (if highSurrogate u \<and> lowSurrogate v then pairScalar u v # scalars us
      else unitScalar u # scalars (v # us))"

definition scalarUnits :: "nat \<Rightarrow> js_string" where
  "scalarUnits c =
     (if c < 0x10000 then [unitOf c]
      else [unitOf (0xD800 + (c - 0x10000) div 0x400), unitOf (0xDC00 + (c - 0x10000) mod 0x400)])"

definition isScalar :: "nat \<Rightarrow> bool" where
  "isScalar c \<longleftrightarrow> c < 0xD800 \<or> (0xE000 \<le> c \<and> c < 0x110000)"

fun wellFormed :: "js_string \<Rightarrow> bool" where
  "wellFormed [] = True"
| "wellFormed [u] = (\<not> highSurrogate u \<and> \<not> lowSurrogate u)"
| "wellFormed (u # v # us) =
     (if highSurrogate u then lowSurrogate v \<and> wellFormed us
      else \<not> lowSurrogate u \<and> wellFormed (v # us))"

section \<open>The encoder\<close>

definition utf8Scalar :: "nat \<Rightarrow> bytes" where
  "utf8Scalar c =
     (if c < 0x80 then [byteOf c]
      else if c < 0x800 then [byteOf (0xC0 + c div 0x40), byteOf (0x80 + c mod 0x40)]
      else if c < 0x10000 then
        [byteOf (0xE0 + c div 0x1000), byteOf (0x80 + c div 0x40 mod 0x40), byteOf (0x80 + c mod 0x40)]
      else
        [byteOf (0xF0 + c div 0x40000), byteOf (0x80 + c div 0x1000 mod 0x40),
         byteOf (0x80 + c div 0x40 mod 0x40), byteOf (0x80 + c mod 0x40)])"

definition textEncode :: "js_string \<Rightarrow> bytes" where
  "textEncode s = concat (map utf8Scalar (scalars s))"

section \<open>The decoder\<close>

definition continuation :: "nat \<Rightarrow> nat \<Rightarrow> byte \<Rightarrow> bool" where
  "continuation lower upper b \<longleftrightarrow> lower \<le> unat b \<and> unat b \<le> upper"

definition contBits :: "byte \<Rightarrow> nat" where
  "contBits b = unat b - 0x80"

fun utf8Scan :: "bytes \<Rightarrow> nat list option" where
  "utf8Scan [] = Some []"
| "utf8Scan (b # bs) =
     (let n = unat b in
      if n < 0x80 then map_option (Cons n) (utf8Scan bs)
      else if 0xC2 \<le> n \<and> n \<le> 0xDF then
        (case bs of
           b1 # rest \<Rightarrow>
             if continuation 0x80 0xBF b1
             then map_option (Cons ((n - 0xC0) * 0x40 + contBits b1)) (utf8Scan rest)
             else None
         | _ \<Rightarrow> None)
      else if 0xE0 \<le> n \<and> n \<le> 0xEF then
        (case bs of
           b1 # b2 # rest \<Rightarrow>
             if continuation (if n = 0xE0 then 0xA0 else 0x80) (if n = 0xED then 0x9F else 0xBF) b1
                \<and> continuation 0x80 0xBF b2
             then map_option (Cons ((n - 0xE0) * 0x1000 + contBits b1 * 0x40 + contBits b2))
                    (utf8Scan rest)
             else None
         | _ \<Rightarrow> None)
      else if 0xF0 \<le> n \<and> n \<le> 0xF4 then
        (case bs of
           b1 # b2 # b3 # rest \<Rightarrow>
             if continuation (if n = 0xF0 then 0x90 else 0x80) (if n = 0xF4 then 0x8F else 0xBF) b1
                \<and> continuation 0x80 0xBF b2 \<and> continuation 0x80 0xBF b3
             then map_option
                    (Cons ((n - 0xF0) * 0x40000 + contBits b1 * 0x1000 + contBits b2 * 0x40 + contBits b3))
                    (utf8Scan rest)
             else None
         | _ \<Rightarrow> None)
      else None)"

definition byteOrderMark :: bytes where
  "byteOrderMark = [0xEF, 0xBB, 0xBF]"

definition stripBOM :: "bytes \<Rightarrow> bytes" where
  "stripBOM bs = (if take 3 bs = byteOrderMark then drop 3 bs else bs)"

definition textDecode :: "bytes \<Rightarrow> js_string option" where
  "textDecode bs = map_option (\<lambda>cs. concat (map scalarUnits cs)) (utf8Scan (stripBOM bs))"

definition startsWithBOM :: "js_string \<Rightarrow> bool" where
  "startsWithBOM s \<longleftrightarrow> (case s of [] \<Rightarrow> False | u # _ \<Rightarrow> u = 0xFEFF)"

declare utf8Scan.simps(2) [simp del]

section \<open>One scalar value\<close>

lemma mod_64_le [simp]: "(n :: nat) mod 64 \<le> 63"
  using mod_less_divisor [of 64 n] by linarith

lemma digit64 [simp]:
  "(r :: nat) < 64 \<Longrightarrow> (q * 64 + r) div 64 = q"
  "(r :: nat) < 64 \<Longrightarrow> (q * 64 + r) mod 64 = r"
  by simp_all

lemma utf8Scan_scalar:
  assumes "isScalar c"
  shows "utf8Scan (utf8Scalar c @ bs) = map_option (Cons c) (utf8Scan bs)"
proof -
  consider "c < 0x80" | "0x80 \<le> c" "c < 0x800" | "0x800 \<le> c" "c < 0x10000"
    | "0x10000 \<le> c" "c < 0x110000"
    using assms by (fastforce simp: isScalar_def)
  then show ?thesis
  proof cases
    case 1
    then show ?thesis
      by (simp add: utf8Scalar_def utf8Scan.simps(2))
  next
    case 2
    then have "c div 64 < 32" "2 \<le> c div 64" by auto
    with 2 show ?thesis
      by (simp add: utf8Scalar_def utf8Scan.simps(2) continuation_def contBits_def Let_def)
  next
    case 3
    have e: "c div 64 div 64 = c div 4096"
      by (simp add: div_mult2_eq [symmetric])
    have lo: "32 \<le> c div 64 mod 64" if "c div 4096 = 0"
      using that 3 by simp
    have hi: "c div 64 mod 64 \<le> 31" if "c div 4096 = 13"
    proof -
      have "c < 57344"
        using that div_le_mono [of 57344 c 4096] by (cases "c < 57344") simp_all
      with assms have "c < 55296"
        by (simp add: isScalar_def)
      then have "c div 64 < 864"
        by simp
      moreover have "c div 64 = 13 * 64 + c div 64 mod 64"
        using e that by (metis div_mult_mod_eq)
      ultimately show ?thesis by linarith
    qed
    have "c div 64 = c div 4096 * 64 + c div 64 mod 64" "c = c div 64 * 64 + c mod 64"
      using e by (metis div_mult_mod_eq)+
    then have s: "c div 4096 * 4096 + c div 64 mod 64 * 64 + c mod 64 = c"
      by linarith
    from 3 have top: "c div 4096 < 16" by simp
    with 3 lo hi s show ?thesis
      by (auto simp: utf8Scalar_def utf8Scan.simps(2) continuation_def contBits_def Let_def)
  next
    case 4
    have e: "c div 64 div 64 = c div 4096" "c div 4096 div 64 = c div 262144"
      by (simp_all add: div_mult2_eq [symmetric])
    have lo: "16 \<le> c div 4096 mod 64" if "c div 262144 = 0"
      using that 4 by simp
    have hi: "c div 4096 mod 64 \<le> 15" if "c div 262144 = 4"
    proof -
      from that 4 have "c div 4096 < 272"
        by simp
      moreover have "c div 4096 = 4 * 64 + c div 4096 mod 64"
        using e that by (metis div_mult_mod_eq)
      ultimately show ?thesis by linarith
    qed
    have "c div 4096 = c div 262144 * 64 + c div 4096 mod 64"
      "c div 64 = c div 4096 * 64 + c div 64 mod 64" "c = c div 64 * 64 + c mod 64"
      using e by (metis div_mult_mod_eq)+
    then have s: "c div 262144 * 262144 + c div 4096 mod 64 * 4096 + c div 64 mod 64 * 64 + c mod 64 = c"
      by linarith
    from 4 have top: "c div 262144 < 5" by simp
    with 4 lo hi s show ?thesis
      by (auto simp: utf8Scalar_def utf8Scan.simps(2) continuation_def contBits_def Let_def)
  qed
qed

lemma utf8Scan_Some_cases:
  assumes "utf8Scan (b # bs) = Some cs"
  obtains c ds rest where "cs = c # ds" "isScalar c" "b # bs = utf8Scalar c @ rest"
    "utf8Scan rest = Some ds" "length rest \<le> length bs"
proof -
  let ?n = "unat b"
  have "?n < 0x80 \<or> (0xC2 \<le> ?n \<and> ?n \<le> 0xDF) \<or> (0xE0 \<le> ?n \<and> ?n \<le> 0xEF) \<or> (0xF0 \<le> ?n \<and> ?n \<le> 0xF4)"
    using assms by (auto simp: utf8Scan.simps(2) Let_def split: if_splits)
  then consider "?n < 0x80" | "0xC2 \<le> ?n" "?n \<le> 0xDF" | "0xE0 \<le> ?n" "?n \<le> 0xEF"
    | "0xF0 \<le> ?n" "?n \<le> 0xF4" by blast
  then show thesis
  proof cases
    case 1
    with assms obtain ds where "cs = ?n # ds" "utf8Scan bs = Some ds"
      by (auto simp: utf8Scan.simps(2))
    with 1 show thesis
      by (intro that [of ?n ds bs]) (auto simp: isScalar_def utf8Scalar_def)
  next
    case 2
    with assms obtain b1 rest ds where *: "bs = b1 # rest" "continuation 0x80 0xBF b1"
      "utf8Scan rest = Some ds" "cs = ((?n - 0xC0) * 0x40 + contBits b1) # ds"
      by (auto simp: utf8Scan.simps(2) Let_def split: list.splits if_splits)
    define c where "c = (?n - 0xC0) * 0x40 + contBits b1"
    have m: "contBits b1 < 64" "unat b1 = 0x80 + contBits b1"
      using * by (auto simp: continuation_def contBits_def)
    then have "c div 64 = ?n - 0xC0" "c mod 64 = contBits b1"
      by (simp_all add: c_def)
    moreover have "0x80 \<le> c" "c < 0x800"
      using 2 m by (auto simp: c_def)
    ultimately show thesis using 2 m *
      by (intro that [of c ds rest]) (auto simp: isScalar_def utf8Scalar_def c_def intro!: byte_eqI)
  next
    case 3
    with assms obtain b1 b2 rest ds where *: "bs = b1 # b2 # rest"
      "continuation (if ?n = 0xE0 then 0xA0 else 0x80) (if ?n = 0xED then 0x9F else 0xBF) b1"
      "continuation 0x80 0xBF b2" "utf8Scan rest = Some ds"
      "cs = ((?n - 0xE0) * 0x1000 + contBits b1 * 0x40 + contBits b2) # ds"
      by (auto simp: utf8Scan.simps(2) Let_def split: list.splits if_splits)
    define c where "c = (?n - 0xE0) * 0x1000 + contBits b1 * 0x40 + contBits b2"
    have m: "contBits b1 < 64" "unat b1 = 0x80 + contBits b1" "contBits b2 < 64" "unat b2 = 0x80 + contBits b2"
      "?n = 0xE0 \<Longrightarrow> 0x20 \<le> contBits b1" "?n = 0xED \<Longrightarrow> contBits b1 < 0x20"
      using * by (auto simp: continuation_def contBits_def split: if_splits)
    have "c = ((?n - 0xE0) * 64 + contBits b1) * 64 + contBits b2"
      by (simp add: c_def)
    with m have d: "c div 64 = (?n - 0xE0) * 64 + contBits b1" "c mod 64 = contBits b2"
      by (metis digit64)+
    with m have "c div 4096 = ?n - 0xE0" "c div 64 mod 64 = contBits b1" "c mod 64 = contBits b2"
      by (simp_all add: div_mult2_eq [of c 64 64, simplified])
    moreover have "0x800 \<le> c" "c < 0x10000"
      using 3 m by (cases "?n = 0xE0"; simp add: c_def; linarith)+
    moreover have "isScalar c"
      using 3 m by (cases "?n < 0xED"; cases "?n = 0xED"; simp add: c_def isScalar_def; linarith)
    ultimately have "utf8Scalar c = map byteOf [unat b, unat b1, unat b2]" "isScalar c"
      using 3 m by (simp_all add: utf8Scalar_def)
    with * show thesis
      by (intro that [of c ds rest]) (simp_all add: c_def [symmetric])
  next
    case 4
    with assms obtain b1 b2 b3 rest ds where *: "bs = b1 # b2 # b3 # rest"
      "continuation (if ?n = 0xF0 then 0x90 else 0x80) (if ?n = 0xF4 then 0x8F else 0xBF) b1"
      "continuation 0x80 0xBF b2" "continuation 0x80 0xBF b3" "utf8Scan rest = Some ds"
      "cs = ((?n - 0xF0) * 0x40000 + contBits b1 * 0x1000 + contBits b2 * 0x40 + contBits b3) # ds"
      by (auto simp: utf8Scan.simps(2) Let_def split: list.splits if_splits)
    define c where "c = (?n - 0xF0) * 0x40000 + contBits b1 * 0x1000 + contBits b2 * 0x40 + contBits b3"
    have m: "contBits b1 < 64" "unat b1 = 0x80 + contBits b1" "contBits b2 < 64" "unat b2 = 0x80 + contBits b2"
      "contBits b3 < 64" "unat b3 = 0x80 + contBits b3"
      "?n = 0xF0 \<Longrightarrow> 0x10 \<le> contBits b1" "?n = 0xF4 \<Longrightarrow> contBits b1 < 0x10"
      using * by (auto simp: continuation_def contBits_def split: if_splits)
    have "c = (((?n - 0xF0) * 64 + contBits b1) * 64 + contBits b2) * 64 + contBits b3"
      by (simp add: c_def)
    with m have d: "c div 64 = ((?n - 0xF0) * 64 + contBits b1) * 64 + contBits b2" "c mod 64 = contBits b3"
      by (metis digit64)+
    with m have d2: "c div 4096 = (?n - 0xF0) * 64 + contBits b1" "c div 64 mod 64 = contBits b2"
      by (simp_all add: div_mult2_eq [of c 64 64, simplified] del: distrib_right_numeral)
    with m d have "c div 262144 = ?n - 0xF0" "c div 4096 mod 64 = contBits b1" "c div 64 mod 64 = contBits b2"
        "c mod 64 = contBits b3"
      by (simp_all add: div_mult2_eq [of c 4096 64, simplified])
    moreover have "0x10000 \<le> c" "c < 0x110000"
      using 4 m by (cases "?n = 0xF0"; cases "?n = 0xF4"; simp add: c_def; linarith)+
    ultimately have "utf8Scalar c = map byteOf [unat b, unat b1, unat b2, unat b3]" "isScalar c"
      using 4 m by (simp_all add: utf8Scalar_def isScalar_def)
    with * show thesis
      by (intro that [of c ds rest]) (simp_all add: c_def [symmetric])
  qed
qed

section \<open>Sequences of scalar values\<close>

lemma utf8Scan_concat:
  "\<forall>c \<in> set cs. isScalar c \<Longrightarrow> utf8Scan (concat (map utf8Scalar cs)) = Some cs"
  by (induction cs) (auto simp: utf8Scan_scalar)

lemma utf8Scan_inverse:
  "utf8Scan bs = Some cs \<Longrightarrow> concat (map utf8Scalar cs) = bs \<and> (\<forall>c \<in> set cs. isScalar c)"
proof (induction "length bs" arbitrary: bs cs rule: less_induct)
  case less
  show ?case
  proof (cases bs)
    case Nil
    with less.prems show ?thesis by simp
  next
    case (Cons b bs')
    with less.prems obtain c ds rest where *: "cs = c # ds" "isScalar c" "bs = utf8Scalar c @ rest"
      "utf8Scan rest = Some ds" "length rest \<le> length bs'"
      using utf8Scan_Some_cases by metis
    have "length rest < length bs"
      using *(5) Cons by simp
    then have "concat (map utf8Scalar ds) = rest \<and> (\<forall>c \<in> set ds. isScalar c)"
      using less.hyps *(4) by blast
    with * show ?thesis by auto
  qed
qed


lemma pairScalar_bounds:
  "highSurrogate u \<Longrightarrow> lowSurrogate v \<Longrightarrow> 0x10000 \<le> pairScalar u v \<and> pairScalar u v < 0x110000"
  by (auto simp: highSurrogate_def lowSurrogate_def pairScalar_def)

lemma isScalar_unitScalar: "isScalar (unitScalar u)"
proof (cases "highSurrogate u \<or> lowSurrogate u")
  case True
  then show ?thesis by (simp add: isScalar_def unitScalar_def)
next
  case False
  have "unat u < 1114112"
    by (rule less_trans [of _ 65536]) simp_all
  with False show ?thesis
    unfolding isScalar_def unitScalar_def highSurrogate_def lowSurrogate_def by auto
qed

lemma scalars_isScalar: "\<forall>c \<in> set (scalars s). isScalar c"
  by (induction s rule: scalars.induct)
    (auto simp: isScalar_unitScalar, auto simp: isScalar_def dest: pairScalar_bounds)

lemma scalarUnits_pair:
  assumes "highSurrogate u" "lowSurrogate v"
  shows "scalarUnits (pairScalar u v) = [u, v]"
proof -
  have b: "0xD800 \<le> unat u" "unat u \<le> 0xDBFF" "0xDC00 \<le> unat v" "unat v \<le> 0xDFFF"
    using assms by (auto simp: highSurrogate_def lowSurrogate_def)
  then have "pairScalar u v - 0x10000 = (unat u - 0xD800) * 1024 + (unat v - 0xDC00)"
    by (simp add: pairScalar_def)
  moreover have "unat v - 0xDC00 < 1024"
    using b by simp
  ultimately have "(pairScalar u v - 0x10000) div 1024 = unat u - 0xD800"
    "(pairScalar u v - 0x10000) mod 1024 = unat v - 0xDC00"
    by simp_all
  with b pairScalar_bounds [OF assms] show ?thesis
    by (simp add: scalarUnits_def)
qed

lemma scalarUnits_unit:
  "\<not> highSurrogate u \<Longrightarrow> \<not> lowSurrogate u \<Longrightarrow> scalarUnits (unitScalar u) = [u]"
  by (simp add: scalarUnits_def unitScalar_def)

definition toWellFormed :: "js_string \<Rightarrow> js_string" where
  "toWellFormed s = concat (map scalarUnits (scalars s))"

lemma toWellFormed_id: "wellFormed s \<Longrightarrow> toWellFormed s = s"
  unfolding toWellFormed_def
  by (induction s rule: wellFormed.induct)
    (auto simp: scalarUnits_unit scalarUnits_pair split: if_splits)

lemma scalars_Cons: "\<not> highSurrogate u \<Longrightarrow> scalars (u # s) = unitScalar u # scalars s"
  by (cases s) auto

lemma wellFormed_Cons: "\<not> highSurrogate u \<Longrightarrow> \<not> lowSurrogate u \<Longrightarrow> wellFormed (u # s) = wellFormed s"
  by (cases s) auto

lemma scalarUnits_cases:
  assumes "isScalar c"
  obtains u where "scalarUnits c = [u]" "\<not> highSurrogate u" "\<not> lowSurrogate u" "unitScalar u = c" "c < 0x10000"
  | u v where "scalarUnits c = [u, v]" "highSurrogate u" "lowSurrogate v" "pairScalar u v = c" "0x10000 \<le> c"
proof (cases "c < 0x10000")
  case True
  let ?u = "unitOf c"
  have "unat ?u = c" using True by simp
  with assms True show thesis
    by (intro that(1) [of ?u])
      (auto simp: scalarUnits_def isScalar_def highSurrogate_def lowSurrogate_def unitScalar_def)
next
  case False
  let ?d = "c - 0x10000"
  let ?u = "unitOf (0xD800 + ?d div 1024)" and ?v = "unitOf (0xDC00 + ?d mod 1024)"
  have d: "?d < 1024 * 1024"
    using assms False by (auto simp: isScalar_def)
  then have "?d div 1024 < 1024"
    by simp
  moreover have "?d mod 1024 < 1024"
    by simp
  ultimately have uv: "unat ?u = 0xD800 + ?d div 1024" "unat ?v = 0xDC00 + ?d mod 1024"
    and lt: "?d div 1024 < 1024" "?d mod 1024 < 1024"
    by (simp_all del: mod_less_divisor)
  have "?d div 1024 * 1024 + ?d mod 1024 = ?d"
    by simp
  with False uv lt show thesis
    by (intro that(2) [of ?u ?v])
      (auto simp: scalarUnits_def highSurrogate_def lowSurrogate_def pairScalar_def
            simp del: unat_unitOf intro: less_Suc_eq_le [THEN iffD1])
qed

lemma scalars_units:
  assumes "\<forall>c \<in> set cs. isScalar c"
  shows "scalars (concat (map scalarUnits cs)) = cs \<and> wellFormed (concat (map scalarUnits cs))"
  using assms
proof (induction cs)
  case (Cons c cs)
  then have "isScalar c" by simp
  then show ?case
  proof (cases rule: scalarUnits_cases)
    case (1 u)
    with Cons show ?thesis by (simp add: scalars_Cons wellFormed_Cons)
  next
    case (2 u v)
    with Cons show ?thesis by simp
  qed
qed simp

lemma wellFormed_toWellFormed: "wellFormed (toWellFormed s)"
  unfolding toWellFormed_def using scalars_units scalars_isScalar by blast


section \<open>Decoding and encoding\<close>

lemma length_scalarUnits_unit: "length (scalarUnits (unitScalar u)) = 1"
  using unat_unit_less [of u] by (simp add: scalarUnits_def unitScalar_def)

lemma length_toWellFormed: "length (toWellFormed s) = length s"
  unfolding toWellFormed_def
  by (induction s rule: scalars.induct)
    (auto simp: length_scalarUnits_unit [simplified] scalarUnits_pair)

lemma utf8Scan_textEncode: "utf8Scan (textEncode s) = Some (scalars s)"
  unfolding textEncode_def by (intro utf8Scan_concat scalars_isScalar)

lemma byteOrderMark_scalar: "utf8Scalar 0xFEFF = byteOrderMark"
  by (simp add: utf8Scalar_def byteOrderMark_def byteOf_def)

lemma textEncode_BOM: "take 3 (textEncode s) = byteOrderMark \<longleftrightarrow> startsWithBOM s"
proof
  assume bom: "take 3 (textEncode s) = byteOrderMark"
  then have "textEncode s = utf8Scalar 0xFEFF @ drop 3 (textEncode s)"
    by (metis append_take_drop_id byteOrderMark_scalar)
  then have "utf8Scan (textEncode s) = map_option (Cons 0xFEFF) (utf8Scan (drop 3 (textEncode s)))"
    using utf8Scan_scalar [of "0xFEFF" "drop 3 (textEncode s)"] by (simp add: isScalar_def)
  then obtain cs where cs: "scalars s = 0xFEFF # cs"
    unfolding utf8Scan_textEncode by (cases "utf8Scan (drop 3 (textEncode s))") auto
  then show "startsWithBOM s"
  proof (cases s rule: scalars.cases)
    case (2 u)
    with cs have "unat u = 0xFEFF" by (auto simp: unitScalar_def split: if_splits)
    then have "u = 0xFEFF" by (intro unit_eqI) simp
    with 2 show ?thesis by (simp add: startsWithBOM_def)
  next
    case (3 u v us)
    with cs have "unat u = 0xFEFF"
      by (auto simp: unitScalar_def pairScalar_def split: if_splits)
    then have "u = 0xFEFF" by (intro unit_eqI) simp
    with 3 show ?thesis by (simp add: startsWithBOM_def)
  qed simp
next
  assume "startsWithBOM s"
  then obtain us where s: "s = 0xFEFF # us"
    by (auto simp: startsWithBOM_def split: list.splits)
  then have "scalars s = 0xFEFF # scalars us"
    by (simp add: scalars_Cons highSurrogate_def unitScalar_def lowSurrogate_def)
  then have "textEncode s = byteOrderMark @ textEncode us"
    by (simp add: textEncode_def byteOrderMark_scalar)
  then show "take 3 (textEncode s) = byteOrderMark"
    by (simp add: byteOrderMark_def)
qed

lemma textDecode_textEncode:
  assumes "\<not> startsWithBOM s"
  shows "textDecode (textEncode s) = Some (toWellFormed s)"
  using assms by (simp add: textDecode_def stripBOM_def textEncode_BOM utf8Scan_textEncode toWellFormed_def)

lemma textEncode_Cons_BOM: "textEncode (0xFEFF # us) = byteOrderMark @ textEncode us"
  by (simp add: textEncode_def byteOrderMark_scalar scalars_Cons highSurrogate_def unitScalar_def
      lowSurrogate_def)

theorem textDecode_textEncode_iff:
  "textDecode (textEncode s) = Some s \<longleftrightarrow> wellFormed s \<and> \<not> startsWithBOM s"
proof (cases "startsWithBOM s")
  case True
  then obtain us where s: "s = 0xFEFF # us"
    by (auto simp: startsWithBOM_def split: list.splits)
  then have "textDecode (textEncode s) = Some (toWellFormed us)"
    by (simp add: textDecode_def stripBOM_def textEncode_Cons_BOM byteOrderMark_def
        utf8Scan_textEncode toWellFormed_def)
  moreover have "length (toWellFormed us) \<noteq> length s"
    by (simp add: s length_toWellFormed)
  ultimately show ?thesis using True by auto
next
  case False
  then show ?thesis
    using textDecode_textEncode toWellFormed_id wellFormed_toWellFormed by (metis option.inject)
qed

lemma textDecode_inverse:
  assumes "textDecode bs = Some s"
  shows "wellFormed s \<and> textEncode s = stripBOM bs"
proof -
  from assms obtain cs where cs: "utf8Scan (stripBOM bs) = Some cs" "s = concat (map scalarUnits cs)"
    by (auto simp: textDecode_def)
  then have "concat (map utf8Scalar cs) = stripBOM bs" "\<forall>c \<in> set cs. isScalar c"
    using utf8Scan_inverse by blast+
  with cs show ?thesis
    using scalars_units [of cs] by (simp add: textEncode_def)
qed

section \<open>ASCII literals\<close>

definition asciiString :: "string \<Rightarrow> bool" where
  "asciiString s \<longleftrightarrow> (\<forall>c \<in> set s. (of_char c :: nat) < 128)"

lemma scalars_ascii:
  "\<forall>u \<in> set us. unat u < 128 \<Longrightarrow> scalars us = map unat us"
proof (induction us)
  case (Cons u us)
  then show ?case
    by (simp add: scalars_Cons highSurrogate_def unitScalar_def lowSurrogate_def)
qed simp

lemma textEncode_ascii:
  assumes "\<forall>u \<in> set us. unat u < 128"
  shows "textEncode us = map (\<lambda>u. byteOf (unat u)) us"
proof -
  have "concat (map utf8Scalar (map unat us)) = map (\<lambda>u. byteOf (unat u)) us"
    using assms by (induction us) (auto simp: utf8Scalar_def)
  then show ?thesis
    using scalars_ascii [OF assms] by (simp add: textEncode_def)
qed

lemma wellFormed_ascii: "\<forall>u \<in> set us. unat u < 128 \<Longrightarrow> wellFormed us"
  by (induction us) (auto simp: wellFormed_Cons highSurrogate_def lowSurrogate_def)

lemma lit_ascii: "asciiString s \<Longrightarrow> \<forall>u \<in> set (lit s). unat u < 128"
  by (auto simp: lit_def asciiString_def)

lemma textEncode_lit: "asciiString s \<Longrightarrow> textEncode (lit s) = map (\<lambda>c. byteOf (of_char c)) s"
  using textEncode_ascii [OF lit_ascii]
  by (simp add: lit_def asciiString_def del: unat_unitOf)

lemma wellFormed_lit: "asciiString s \<Longrightarrow> wellFormed (lit s)"
  by (rule wellFormed_ascii [OF lit_ascii])

lemma startsWithBOM_lit: "asciiString s \<Longrightarrow> \<not> startsWithBOM (lit s)"
proof -
  assume s: "asciiString s"
  have "u \<noteq> 0xFEFF" if "unat u < 128" for u :: "16 word"
    using that by auto
  then show ?thesis
    using lit_ascii [OF s] by (cases "lit s") (auto simp: startsWithBOM_def)
qed

lemma textEncode_Nil [simp]: "textEncode [] = []"
  by (simp add: textEncode_def)

lemma utf8Scalar_nonempty [simp]: "utf8Scalar c \<noteq> []"
  by (simp add: utf8Scalar_def)

lemma textEncode_empty_iff [simp]: "textEncode s = [] \<longleftrightarrow> s = []"
  by (cases s rule: scalars.cases) (auto simp: textEncode_def)

end
