(* ===== verification/Base64Url.thy ===== *)
theory Base64Url
  imports Utf8
begin

text \<open>
  \<^verbatim>\<open>protocol/v0/base64url.ts\<close>, over models of the platform's \<^verbatim>\<open>btoa\<close> and
  \<^verbatim>\<open>atob\<close> (the forgiving base64 decoder of the Infra Standard: it drops ASCII white space and
  up to two padding signs, and ignores the spare bits of the last character).

  The theory proves that \<^verbatim>\<open>decodeBase64URL\<close> inverts \<^verbatim>\<open>encodeBase64URL\<close> on every non-empty
  byte array, gives the size of a decoded array, and characterises the accepted texts that are
  not the encoding of what they decode to: those whose spare bits are not zero.
\<close>

section \<open>The platform's btoa and atob\<close>

definition base64Code :: "nat \<Rightarrow> nat" where
  "base64Code i =
     (if i < 26 then 65 + i else if i < 52 then 71 + i else if i < 62 then i - 4
      else if i = 62 then 43 else 47)"

definition base64Index :: "nat \<Rightarrow> nat option" where
  "base64Index c =
     (if 65 \<le> c \<and> c \<le> 90 then Some (c - 65) else if 97 \<le> c \<and> c \<le> 122 then Some (c - 71)
      else if 48 \<le> c \<and> c \<le> 57 then Some (c + 4) else if c = 43 then Some 62
      else if c = 47 then Some 63 else None)"

definition base64Unit :: "nat \<Rightarrow> 16 word" where
  "base64Unit i = unitOf (base64Code i)"

abbreviation padUnit :: "16 word" where
  "padUnit \<equiv> unitOf 61"

fun btoa :: "bytes \<Rightarrow> js_string" where
  "btoa [] = []"
| "btoa [a] = [base64Unit (unat a div 4), base64Unit (unat a mod 4 * 16), padUnit, padUnit]"
| "btoa [a, b] =
     [base64Unit (unat a div 4), base64Unit (unat a mod 4 * 16 + unat b div 16),
      base64Unit (unat b mod 16 * 4), padUnit]"
| "btoa (a # b # c # bs) =
     base64Unit (unat a div 4) # base64Unit (unat a mod 4 * 16 + unat b div 16)
     # base64Unit (unat b mod 16 * 4 + unat c div 64) # base64Unit (unat c mod 64) # btoa bs"

definition asciiWhitespace :: "16 word \<Rightarrow> bool" where
  "asciiWhitespace u \<longleftrightarrow> unat u \<in> {9, 10, 12, 13, 32}"

definition removePadding :: "js_string \<Rightarrow> js_string" where
  "removePadding s =
     (if length s mod 4 = 0 \<and> s \<noteq> [] \<and> last s = padUnit
      then (let t = butlast s in if t \<noteq> [] \<and> last t = padUnit then butlast t else t)
      else s)"

fun sextetBytes :: "nat list \<Rightarrow> bytes" where
  "sextetBytes [] = []"
| "sextetBytes [a] = []"
| "sextetBytes [a, b] = [byteOf (a * 4 + b div 16)]"
| "sextetBytes [a, b, c] = [byteOf (a * 4 + b div 16), byteOf (b mod 16 * 16 + c div 4)]"
| "sextetBytes (a # b # c # d # ns) =
     byteOf (a * 4 + b div 16) # byteOf (b mod 16 * 16 + c div 4) # byteOf (c mod 4 * 64 + d)
     # sextetBytes ns"

definition atob :: "js_string \<Rightarrow> bytes option" where
  "atob s =
     (let t = removePadding (filter (\<lambda>u. \<not> asciiWhitespace u) s) in
      if length t mod 4 = 1 \<or> (\<exists>u \<in> set t. base64Index (unat u) = None) then None
      else Some (sextetBytes (map (\<lambda>u. the (base64Index (unat u))) t)))"

section \<open>base64url.ts\<close>

definition replaceUnit :: "nat \<Rightarrow> nat \<Rightarrow> js_string \<Rightarrow> js_string" where
  "replaceUnit from to s = map (\<lambda>u. if unat u = from then unitOf to else u) s"

definition stripTrailing :: "nat \<Rightarrow> js_string \<Rightarrow> js_string" where
  "stripTrailing c s = rev (dropWhile (\<lambda>u. unat u = c) (rev s))"

definition base64URLPattern :: "js_string \<Rightarrow> bool" where
  "base64URLPattern s \<longleftrightarrow>
     s \<noteq> [] \<and> (\<forall>u \<in> set s. let c = unat u in
       65 \<le> c \<and> c \<le> 90 \<or> 97 \<le> c \<and> c \<le> 122 \<or> 48 \<le> c \<and> c \<le> 57 \<or> c = 95 \<or> c = 45)"

definition encodeBase64URL :: "bytes \<Rightarrow> js_string" where
  "encodeBase64URL bs = stripTrailing 61 (replaceUnit 47 95 (replaceUnit 43 45 (btoa bs)))"

definition validBase64URL :: "js_string \<Rightarrow> bool" where
  "validBase64URL value \<longleftrightarrow> length value > 0 \<and> length value mod 4 \<noteq> 1 \<and> base64URLPattern value"

definition padEnd :: "js_string \<Rightarrow> nat \<Rightarrow> 16 word \<Rightarrow> js_string" where
  "padEnd s n u = s @ replicate (n - length s) u"

definition decodeBase64URL :: "js_string \<Rightarrow> bytes res" where
  "decodeBase64URL value =
     (if \<not> validBase64URL value then throw ''invalid base64url''
      else
        let padded = padEnd (replaceUnit 95 47 (replaceUnit 45 43 value))
                       ((length value + 3) div 4 * 4) padUnit
        in (case atob padded of
              None \<Rightarrow> throw ''InvalidCharacterError''
            | Some bs \<Rightarrow> Inr bs))"

section \<open>Six-bit groups\<close>

fun sextets :: "bytes \<Rightarrow> nat list" where
  "sextets [] = []"
| "sextets [a] = [unat a div 4, unat a mod 4 * 16]"
| "sextets [a, b] = [unat a div 4, unat a mod 4 * 16 + unat b div 16, unat b mod 16 * 4]"
| "sextets (a # b # c # bs) =
     unat a div 4 # (unat a mod 4 * 16 + unat b div 16)
     # (unat b mod 16 * 4 + unat c div 64) # unat c mod 64 # sextets bs"

fun spareBitsZero :: "nat list \<Rightarrow> bool" where
  "spareBitsZero [a, b] \<longleftrightarrow> b mod 16 = 0"
| "spareBitsZero [a, b, c] \<longleftrightarrow> c mod 4 = 0"
| "spareBitsZero (a # b # c # d # ns) \<longleftrightarrow> spareBitsZero ns"
| "spareBitsZero _ \<longleftrightarrow> True"

definition urlCode :: "nat \<Rightarrow> nat" where
  "urlCode i = (if i = 62 then 45 else if i = 63 then 95 else base64Code i)"

definition urlIndex :: "16 word \<Rightarrow> nat" where
  "urlIndex u =
     (let c = unat u in the (base64Index (if c = 45 then 43 else if c = 95 then 47 else c)))"

definition canonicalBase64URL :: "js_string \<Rightarrow> bool" where
  "canonicalBase64URL s \<longleftrightarrow> validBase64URL s \<and> spareBitsZero (map urlIndex s)"

lemma sextets_bound: "\<forall>i \<in> set (sextets bs). i < 64"
proof (induction bs rule: sextets.induct)
  case (2 a)
  have "unat a div 4 < 64"
    using unat_byte_less [of a] by (simp add: less_mult_imp_div_less)
  then show ?case by auto
next
  case (3 a b)
  have "unat a div 4 < 64" "unat b div 16 < 16"
    using unat_byte_less [of a] unat_byte_less [of b] by (simp_all add: less_mult_imp_div_less)
  then show ?case by auto
next
  case (4 a b c bs)
  have "unat a div 4 < 64" "unat b div 16 < 16" "unat c div 64 < 4"
    using unat_byte_less [of a] unat_byte_less [of b] unat_byte_less [of c]
    by (simp_all add: less_mult_imp_div_less)
  moreover have "unat a mod 4 \<le> 3" "unat b mod 16 \<le> 15" "unat c mod 64 < 64"
    by simp_all
  ultimately show ?case using 4 by auto
qed simp

lemma sextetBytes_sextets: "sextetBytes (sextets bs) = bs"
proof (induction bs rule: sextets.induct)
  case (2 a)
  have "unat a div 4 * 4 + unat a mod 4 * 16 div 16 = unat a" by simp
  then show ?case by simp
next
  case (3 a b)
  have "unat b div 16 < 16" using unat_byte_less [of b] by (simp add: less_mult_imp_div_less)
  then show ?case by simp
next
  case (4 a b c bs)
  have "unat b div 16 < 16" "unat c div 64 < 4"
    using unat_byte_less [of b] unat_byte_less [of c] by (simp_all add: less_mult_imp_div_less)
  with 4 show ?case by simp
qed simp

lemma length_sextets: "length (sextets bs) = (length bs * 4 + 2) div 3"
  by (induction bs rule: sextets.induct) auto

lemma div_times_self_iff: "(n :: nat) div k * k = n \<longleftrightarrow> n mod k = 0"
  by (metis add.right_neutral add_left_imp_eq div_mult_mod_eq)

lemma sextets_sextetBytes:
  assumes "\<forall>i \<in> set ns. i < 64" "length ns mod 4 \<noteq> 1"
  shows "sextets (sextetBytes ns) = ns \<longleftrightarrow> spareBitsZero ns"
  using assms
proof (induction ns rule: sextetBytes.induct)
  case (3 a b)
  then have q: "b div 16 < 4" "a * 4 + b div 16 < 256" by auto
  then have "(a * 4 + b div 16) mod 256 = a * 4 + b div 16"
    "(a * 4 + b div 16) div 4 = a" "(a * 4 + b div 16) mod 4 = b div 16"
    by simp_all
  moreover have "b div 16 * 16 = b \<longleftrightarrow> b mod 16 = 0"
    by (rule div_times_self_iff)
  ultimately show ?case by simp
next
  case (4 a b c)
  then have q: "b div 16 < 4" "c div 4 < 16" "a * 4 + b div 16 < 256" "b mod 16 * 16 + c div 4 < 256"
    by auto
  then have "(a * 4 + b div 16) mod 256 = a * 4 + b div 16"
    "(a * 4 + b div 16) div 4 = a" "(a * 4 + b div 16) mod 4 = b div 16"
    "(b mod 16 * 16 + c div 4) mod 256 = b mod 16 * 16 + c div 4"
    "(b mod 16 * 16 + c div 4) div 16 = b mod 16" "(b mod 16 * 16 + c div 4) mod 16 = c div 4"
    by simp_all
  moreover have "c div 4 * 4 = c \<longleftrightarrow> c mod 4 = 0"
    by (rule div_times_self_iff)
  ultimately show ?case by simp
next
  case (5 a b c d ns)
  then have q: "b div 16 < 4" "c div 4 < 16" "d < 64"
    "a * 4 + b div 16 < 256" "b mod 16 * 16 + c div 4 < 256" "c mod 4 * 64 + d < 256"
    by auto
  then have "(a * 4 + b div 16) mod 256 = a * 4 + b div 16"
    "(a * 4 + b div 16) div 4 = a" "(a * 4 + b div 16) mod 4 = b div 16"
    "(b mod 16 * 16 + c div 4) mod 256 = b mod 16 * 16 + c div 4"
    "(b mod 16 * 16 + c div 4) div 16 = b mod 16" "(b mod 16 * 16 + c div 4) mod 16 = c div 4"
    "(c mod 4 * 64 + d) mod 256 = c mod 4 * 64 + d"
    "(c mod 4 * 64 + d) div 64 = c mod 4" "(c mod 4 * 64 + d) mod 64 = d"
    by simp_all
  with 5 show ?case by simp
qed simp_all

lemma length_sextetBytes:
  "length ns mod 4 \<noteq> 1 \<Longrightarrow> length (sextetBytes ns) = length ns * 3 div 4"
  by (induction ns rule: sextetBytes.induct) auto

section \<open>The two functions over six-bit groups\<close>

lemma urlCode_facts:
  assumes "i < 64"
  shows "urlCode i < 128" "urlCode i \<noteq> 61"
    and "65 \<le> urlCode i \<and> urlCode i \<le> 90 \<or> 97 \<le> urlCode i \<and> urlCode i \<le> 122
      \<or> 48 \<le> urlCode i \<and> urlCode i \<le> 57 \<or> urlCode i = 95 \<or> urlCode i = 45"
    and "urlIndex (unitOf (urlCode i)) = i"
proof -
  consider "i < 26" | "26 \<le> i" "i < 52" | "52 \<le> i" "i < 62" | "i = 62" | "i = 63"
    using assms by linarith
  then have "urlCode i < 128 \<and> urlCode i \<noteq> 61 \<and> (65 \<le> urlCode i \<and> urlCode i \<le> 90
      \<or> 97 \<le> urlCode i \<and> urlCode i \<le> 122 \<or> 48 \<le> urlCode i \<and> urlCode i \<le> 57
      \<or> urlCode i = 95 \<or> urlCode i = 45) \<and> urlIndex (unitOf (urlCode i)) = i"
    by cases (auto simp: urlCode_def base64Code_def urlIndex_def base64Index_def Let_def)
  then show "urlCode i < 128" "urlCode i \<noteq> 61"
    and "65 \<le> urlCode i \<and> urlCode i \<le> 90 \<or> 97 \<le> urlCode i \<and> urlCode i \<le> 122
      \<or> 48 \<le> urlCode i \<and> urlCode i \<le> 57 \<or> urlCode i = 95 \<or> urlCode i = 45"
    and "urlIndex (unitOf (urlCode i)) = i" by blast+
qed

lemma replaced_unit:
  "i < 64 \<Longrightarrow> replaceUnit 47 95 (replaceUnit 43 45 (base64Unit i # s)) =
     unitOf (urlCode i) # replaceUnit 47 95 (replaceUnit 43 45 s)"
  by (auto simp: replaceUnit_def base64Unit_def urlCode_def base64Code_def)

lemma replaced_pad: "replaceUnit 47 95 (replaceUnit 43 45 (padUnit # s)) =
    padUnit # replaceUnit 47 95 (replaceUnit 43 45 s)"
  by (simp add: replaceUnit_def)

lemma btoa_sextets:
  "\<exists>n. replaceUnit 47 95 (replaceUnit 43 45 (btoa bs)) =
      map (\<lambda>i. unitOf (urlCode i)) (sextets bs) @ replicate n padUnit"
proof (induction bs rule: btoa.induct)
  case 1
  show ?case by (intro exI [of _ 0]) (simp add: replaceUnit_def)
next
  case (2 a)
  have "replaceUnit 47 95 (replaceUnit 43 45 []) = []" by (simp add: replaceUnit_def)
  with sextets_bound [of "[a]"] show ?case
    by (intro exI [of _ 2]) (simp add: replaced_unit replaced_pad numeral_2_eq_2)
next
  case (3 a b)
  have "replaceUnit 47 95 (replaceUnit 43 45 []) = []" by (simp add: replaceUnit_def)
  with sextets_bound [of "[a, b]"] show ?case
    by (intro exI [of _ 1]) (simp add: replaced_unit replaced_pad)
next
  case (4 a b c bs)
  then show ?case
    using sextets_bound [of "a # b # c # bs"] by (auto simp: replaced_unit)
qed

lemma stripTrailing_pad:
  assumes "\<forall>u \<in> set s. unat u \<noteq> 61"
  shows "stripTrailing 61 (s @ replicate n padUnit) = s"
proof -
  have "dropWhile (\<lambda>u. unat u = 61) (replicate n padUnit @ rev s) = dropWhile (\<lambda>u. unat u = 61) (rev s)"
    by (induction n) auto
  also have "\<dots> = rev s"
    using assms by (cases "rev s") (auto simp: dropWhile_eq_self_iff)
  finally show ?thesis
    by (simp add: stripTrailing_def)
qed

lemma encodeBase64URL_sextets: "encodeBase64URL bs = map (\<lambda>i. unitOf (urlCode i)) (sextets bs)"
proof -
  have "\<forall>u \<in> set (map (\<lambda>i. unitOf (urlCode i)) (sextets bs)). unat u \<noteq> 61"
    using sextets_bound [of bs] urlCode_facts(1,2) by fastforce
  then show ?thesis
    using btoa_sextets [of bs] stripTrailing_pad unfolding encodeBase64URL_def by metis
qed

lemma url_unit_index:
  assumes "base64URLPattern s" "u \<in> set s"
  shows "urlIndex u < 64"
    and "base64Index (unat (if unat u = 45 then unitOf 43 else if unat u = 95 then unitOf 47 else u))
           = Some (urlIndex u)"
  using assms unfolding base64URLPattern_def urlIndex_def base64Index_def Let_def
  by (auto split: if_splits)

lemma atob_padded:
  assumes "base64URLPattern s" "length s mod 4 \<noteq> 1"
  shows "atob (padEnd (replaceUnit 95 47 (replaceUnit 45 43 s)) ((length s + 3) div 4 * 4) padUnit)
           = Some (sextetBytes (map urlIndex s))"
proof -
  let ?r = "\<lambda>u :: 16 word. if unat u = 45 then unitOf 43 else if unat u = 95 then unitOf 47 else u"
  define t where "t = map ?r s"
  define n where "n = (length s + 3) div 4 * 4 - length s"
  have rep: "replaceUnit 95 47 (replaceUnit 45 43 s) = t"
    by (auto simp: replaceUnit_def t_def)
  have len: "length t = length s"
    by (simp add: t_def)
  have idx: "base64Index (unat u) \<noteq> None" if "u \<in> set t" for u
  proof -
    from that obtain x where x: "x \<in> set s" "u = ?r x" by (auto simp: t_def)
    show ?thesis
      unfolding x(2) url_unit_index(2) [OF assms(1) x(1)] by simp
  qed
  have indices: "map (\<lambda>u. the (base64Index (unat u))) t = map urlIndex s"
    unfolding t_def map_map o_def by (rule map_cong) (simp_all only: url_unit_index(2) [OF assms(1)] option.sel)
  have plain: "unat u \<noteq> 61" "\<not> asciiWhitespace u" if "u \<in> set t" for u
    using idx [OF that] by (auto simp: base64Index_def asciiWhitespace_def)
  have filt: "filter (\<lambda>u. \<not> asciiWhitespace u) (t @ replicate n padUnit) = t @ replicate n padUnit"
    using plain(2) by (auto simp: filter_id_conv asciiWhitespace_def)
  have ne: "t \<noteq> []"
    using assms(1) by (simp add: base64URLPattern_def t_def)
  then have last: "last t \<noteq> padUnit"
    using plain(1) [OF last_in_set [OF ne]] by auto
  consider "length s mod 4 = 0" | "length s mod 4 = 2" | "length s mod 4 = 3"
    using assms(2) by linarith
  then have "removePadding (t @ replicate n padUnit) = t"
  proof cases
    case 1
    then have "n = 0" unfolding n_def by presburger
    with last show ?thesis by (simp add: removePadding_def)
  next
    case 2
    then have "n = 2" "(length s + 2) mod 4 = 0" unfolding n_def by presburger+
    with last ne len show ?thesis
      by (simp add: removePadding_def numeral_2_eq_2 butlast_append)
  next
    case 3
    then have "n = 1" "(length s + 1) mod 4 = 0" unfolding n_def by presburger+
    with last ne len show ?thesis
      by (simp add: removePadding_def butlast_append)
  qed
  moreover have "\<not> (length t mod 4 = 1 \<or> (\<exists>u \<in> set t. base64Index (unat u) = None))"
    using idx assms(2) len by auto
  ultimately show ?thesis
    unfolding atob_def padEnd_def rep len n_def [symmetric] filt Let_def by (simp add: indices len)
qed

lemma decodeBase64URL_sextets:
  "decodeBase64URL s =
     (if validBase64URL s then Inr (sextetBytes (map urlIndex s)) else throw ''invalid base64url'')"
  by (simp add: decodeBase64URL_def validBase64URL_def atob_padded)

section \<open>Round trips\<close>

lemma validBase64URL_encode: "bs \<noteq> [] \<Longrightarrow> validBase64URL (encodeBase64URL bs)"
proof -
  assume ne: "bs \<noteq> []"
  then have len: "length (sextets bs) > 0" "length (sextets bs) mod 4 \<noteq> 1"
    by (induction bs rule: sextets.induct) (auto simp: length_sextets, presburger)
  have pat: "let c = unat (unitOf (urlCode i)) in 65 \<le> c \<and> c \<le> 90 \<or> 97 \<le> c \<and> c \<le> 122
      \<or> 48 \<le> c \<and> c \<le> 57 \<or> c = 95 \<or> c = 45" if "i \<in> set (sextets bs)" for i
    using that sextets_bound [of bs] urlCode_facts(1,3) [of i] by (auto simp: Let_def)
  show ?thesis
    using len pat by (auto simp: validBase64URL_def base64URLPattern_def encodeBase64URL_sextets)
qed

lemma map_urlIndex_encode: "map urlIndex (encodeBase64URL bs) = sextets bs"
  using sextets_bound [of bs] urlCode_facts(4) by (auto simp: encodeBase64URL_sextets intro: map_idI)

lemma decode_encodeBase64URL: "bs \<noteq> [] \<Longrightarrow> decodeBase64URL (encodeBase64URL bs) = Inr bs"
  by (simp add: decodeBase64URL_sextets validBase64URL_encode map_urlIndex_encode sextetBytes_sextets)

lemma decodeBase64URL_Inr:
  "decodeBase64URL s = Inr bs \<longleftrightarrow> validBase64URL s \<and> bs = sextetBytes (map urlIndex s)"
  by (auto simp: decodeBase64URL_sextets)

lemma decodeBase64URL_length: "decodeBase64URL s = Inr bs \<Longrightarrow> length bs = length s * 3 div 4"
  by (auto simp: decodeBase64URL_Inr validBase64URL_def length_sextetBytes)

lemma decodeBase64URL_nonempty: "decodeBase64URL s = Inr bs \<Longrightarrow> bs \<noteq> []"
proof -
  assume d: "decodeBase64URL s = Inr bs"
  then have "length s \<noteq> 0" "length s mod 4 \<noteq> 1" by (auto simp: decodeBase64URL_Inr validBase64URL_def)
  then have "length s \<noteq> 0" "length s \<noteq> 1" by auto
  then have "length s \<ge> 2" by linarith
  with decodeBase64URL_length [OF d] show ?thesis by auto
qed

lemma unitOf_urlCode_index:
  assumes "base64URLPattern s" "u \<in> set s"
  shows "unitOf (urlCode (urlIndex u)) = u"
proof -
  define c where "c = unat u"
  from assms have "65 \<le> c \<and> c \<le> 90 \<or> 97 \<le> c \<and> c \<le> 122 \<or> 48 \<le> c \<and> c \<le> 57 \<or> c = 95 \<or> c = 45"
    by (auto simp: base64URLPattern_def c_def Let_def)
  then consider "65 \<le> c" "c \<le> 90" | "97 \<le> c" "c \<le> 122" | "48 \<le> c" "c \<le> 57" | "c = 95" | "c = 45"
    by blast
  then have "urlCode (urlIndex u) = c"
    by cases (simp_all add: urlIndex_def c_def [symmetric] base64Index_def urlCode_def base64Code_def;
      linarith)+
  then show ?thesis
    by (simp add: c_def)
qed

lemma encode_decodeBase64URL:
  assumes "decodeBase64URL s = Inr bs"
  shows "encodeBase64URL bs = s \<longleftrightarrow> canonicalBase64URL s"
proof -
  from assms have v: "validBase64URL s" "bs = sextetBytes (map urlIndex s)"
    by (auto simp: decodeBase64URL_Inr)
  then have p: "base64URLPattern s" "length (map urlIndex s) mod 4 \<noteq> 1"
    by (auto simp: validBase64URL_def)
  have b: "\<forall>i \<in> set (map urlIndex s). i < 64"
    using url_unit_index(1) [OF p(1)] by auto
  have inv: "map (\<lambda>i. unitOf (urlCode i)) (map urlIndex s) = s"
    using unitOf_urlCode_index [OF p(1)] by (auto intro: map_idI)
  have "encodeBase64URL bs = s \<longleftrightarrow> sextets bs = map urlIndex s"
    using inv map_urlIndex_encode [of bs] encodeBase64URL_sextets [of bs] by metis
  also have "\<dots> \<longleftrightarrow> spareBitsZero (map urlIndex s)"
    using sextets_sextetBytes [OF b p(2)] v by simp
  finally show ?thesis
    using v by (simp add: canonicalBase64URL_def)
qed

lemma encodeBase64URL_inject [simp]: "encodeBase64URL a = encodeBase64URL b \<longleftrightarrow> a = b"
  by (metis map_urlIndex_encode sextetBytes_sextets)

lemma length_encodeBase64URL: "length (encodeBase64URL bs) = (length bs * 4 + 2) div 3"
  by (simp add: encodeBase64URL_sextets length_sextets)

lemma encodeBase64URL_ascii: "\<forall>u \<in> set (encodeBase64URL bs). unat u < 128"
  using sextets_bound [of bs] urlCode_facts(1) by (fastforce simp: encodeBase64URL_sextets)

lemma canonicalBase64URL_encode: "bs \<noteq> [] \<Longrightarrow> canonicalBase64URL (encodeBase64URL bs)"
  using decode_encodeBase64URL encode_decodeBase64URL by blast

section \<open>Properties\<close>

text \<open>
  C16. Base64url is a bijection between non-empty byte strings and canonical strings: encoding then
  decoding gives the bytes back, and a string the decoder accepts is what the encoder writes for its
  bytes exactly when it is canonical (its spare bits are zero).
\<close>

theorem base64url_roundtrip:
  "(bs \<noteq> [] \<longrightarrow> decodeBase64URL (encodeBase64URL bs) = Inr bs) \<and>
   (decodeBase64URL s = Inr ds \<longrightarrow> (encodeBase64URL ds = s \<longleftrightarrow> canonicalBase64URL s))"
  using decode_encodeBase64URL encode_decodeBase64URL by blast

theorem base64url_roundtrip_witness:
  "decodeBase64URL (encodeBase64URL [1, 2, 3, 255]) = Inr [1, 2, 3, 255] \<and>
   (encodeBase64URL [0] = lit ''AA'' \<longleftrightarrow> canonicalBase64URL (lit ''AA''))"
proof -
  have "decodeBase64URL (lit ''AA'') = Inr [0]"
    by code_simp
  then show ?thesis
    using base64url_roundtrip [of "[1, 2, 3, 255]" "lit ''AA''" "[0]"] by simp
qed

end
