(* ===== verification/Cbor.thy ===== *)
theory Cbor
  imports Base64Url
begin

text \<open>
  \<^verbatim>\<open>protocol/v0/cbor.ts\<close>: the deterministic CBOR subset every signed or sealed body of the
  protocol is made of.

  A \<open>cbor\<close> is the source's \<^verbatim>\<open>CborValue\<close>; a map keeps its entries in the order the program
  built them, and the encoder sorts them by their encoded keys. The decoder of the source is an
  object with a private \<^verbatim>\<open>offset\<close>; here every reading function takes the offset and returns the
  new one. Nesting is bounded by the call stack alone, so \<open>readValue\<close> has a stack depth
  argument, running out of it being \<open>StackOverflow\<close>; \<open>decodeDeterministicCbor\<close> gives it
  one more frame than there are bytes, which theory \<open>Cbor_Roundtrip\<close> proves is always enough.
\<close>

section \<open>Values\<close>

datatype cbor =
    CBool bool
  | CNum int
  | CText js_string
  | CBytes bytes
  | CArray "cbor list"
  | CMap "(js_string \<times> cbor) list"

type_synonym cborMap = "(js_string \<times> cbor) list"

definition maxCborCollectionEntries :: nat where
  "maxCborCollectionEntries = 64"

definition maxCborTextBytes :: nat where
  "maxCborTextBytes = 1024"

definition maxCborBytes :: nat where
  "maxCborBytes = 48 * 1024"

abbreviation cborError :: "string \<Rightarrow> 'a res" where
  "cborError s \<equiv> Inl (CborError (lit s))"

section \<open>The encoder\<close>

definition encodeHeader :: "nat \<Rightarrow> nat \<Rightarrow> bytes" where
  "encodeHeader major value =
     (if value < 24 then [byteOf (major * 32 + value)]
      else if value \<le> 0xff then [byteOf (major * 32 + 24), byteOf value]
      else if value \<le> 0xffff then
        [byteOf (major * 32 + 25), byteOf (value div 0x100), byteOf (value mod 0x100)]
      else if value \<le> 0xffffffff then
        [byteOf (major * 32 + 26), byteOf (value div 0x1000000), byteOf (value div 0x10000 mod 0x100),
         byteOf (value div 0x100 mod 0x100), byteOf (value mod 0x100)]
      else byteOf (major * 32 + 27) # map (\<lambda>i. byteOf (value div 0x100 ^ i mod 0x100)) [7, 6, 5, 4, 3, 2, 1, 0])"

definition encodeBytes :: "nat \<Rightarrow> bytes \<Rightarrow> bytes" where
  "encodeBytes major bs = encodeHeader major (length bs) @ bs"

definition encodeUnsigned :: "int \<Rightarrow> bytes res" where
  "encodeUnsigned value =
     (if \<not> isSafeInteger value \<or> value < 0 then cborError ''invalid_unsigned''
      else Inr (encodeHeader 0 (nat value)))"

fun compareBytes :: "bytes \<Rightarrow> bytes \<Rightarrow> int" where
  "compareBytes (l # ls) (r # rs) =
     (let difference = int (unat l) - int (unat r) in
      if difference \<noteq> 0 then difference else compareBytes ls rs)"
| "compareBytes left right = int (length left) - int (length right)"

definition sortEncoded :: "(bytes \<times> bytes) list \<Rightarrow> (bytes \<times> bytes) list" where
  "sortEncoded encoded = js_sort (\<lambda>left right. compareBytes (fst left) (fst right)) encoded"

fun encodeDeterministicCbor :: "cbor \<Rightarrow> bytes res"
  and encodeItems :: "cbor list \<Rightarrow> bytes list res"
  and encodeEntries :: "js_string list \<Rightarrow> (js_string \<times> cbor) list \<Rightarrow> (bytes \<times> bytes) list res"
where
  "encodeDeterministicCbor (CBool b) = Inr [if b then 0xf5 else 0xf4]"
| "encodeDeterministicCbor (CNum n) = encodeUnsigned n"
| "encodeDeterministicCbor (CText s) = Inr (encodeBytes 3 (textEncode s))"
| "encodeDeterministicCbor (CBytes bs) = Inr (encodeBytes 2 bs)"
| "encodeDeterministicCbor (CArray vs) =
     andThen (encodeItems vs) (\<lambda>chunks. Inr (concat (encodeHeader 4 (length vs) # chunks)))"
| "encodeDeterministicCbor (CMap es) =
     (if length es > maxCborCollectionEntries then cborError ''too_many_map_entries''
      else andThen (encodeEntries [] es) (\<lambda>encoded.
        Inr (concat (encodeHeader 5 (length encoded)
               # concat (map (\<lambda>(k, v). [k, v]) (sortEncoded encoded))))))"
| "encodeItems [] = Inr []"
| "encodeItems (v # vs) =
     andThen (encodeDeterministicCbor v) (\<lambda>c. andThen (encodeItems vs) (\<lambda>cs. Inr (c # cs)))"
| "encodeEntries seen [] = Inr []"
| "encodeEntries seen ((k, v) # es) =
     (if k \<in> set seen then Inl (CborError (lit ''duplicate_'' @ k))
      else andThen (encodeDeterministicCbor v) (\<lambda>c.
        andThen (encodeEntries (k # seen) es) (\<lambda>cs. Inr ((encodeBytes 3 (textEncode k), c) # cs))))"

section \<open>The decoder\<close>

definition readByte :: "bytes \<Rightarrow> nat \<Rightarrow> (byte \<times> nat) res" where
  "readByte bs off = (if off < length bs then Inr (bs ! off, off + 1) else cborError ''truncated_cbor'')"

primrec readBigEndian :: "nat \<Rightarrow> bytes \<Rightarrow> nat \<Rightarrow> nat \<Rightarrow> (nat \<times> nat) res" where
  "readBigEndian 0 bs value off = Inr (value, off)"
| "readBigEndian (Suc k) bs value off =
     andThen (readByte bs off) (\<lambda>(b, off'). readBigEndian k bs (value * 0x100 + unat b) off')"

definition readArgument :: "bytes \<Rightarrow> nat \<Rightarrow> nat \<Rightarrow> (nat \<times> nat) res" where
  "readArgument bs additional off =
     (if additional < 24 then Inr (additional, off)
      else if additional = 24 then
        andThen (readBigEndian 1 bs 0 off) (\<lambda>(value, off').
          if value < 24 then cborError ''non_canonical_cbor'' else Inr (value, off'))
      else if additional = 25 then
        andThen (readBigEndian 2 bs 0 off) (\<lambda>(value, off').
          if value \<le> 0xff then cborError ''non_canonical_cbor'' else Inr (value, off'))
      else if additional = 26 then
        andThen (readBigEndian 4 bs 0 off) (\<lambda>(value, off').
          if value \<le> 0xffff then cborError ''non_canonical_cbor'' else Inr (value, off'))
      else if additional = 27 then
        andThen (readBigEndian 8 bs 0 off) (\<lambda>(value, off').
          if value \<le> 0xffffffff \<or> int value > maxSafeInteger
          then cborError ''non_canonical_cbor'' else Inr (value, off'))
      else cborError ''unsupported_cbor_argument'')"

definition sliceBytes :: "bytes \<Rightarrow> nat \<Rightarrow> nat \<Rightarrow> bytes" where
  "sliceBytes bs from to = drop from (take to bs)"

definition readByteString :: "bytes \<Rightarrow> nat \<Rightarrow> nat \<Rightarrow> (bytes \<times> nat) res" where
  "readByteString bs len off =
     (if len > maxCborBytes \<or> off + len > length bs then cborError ''invalid_cbor_bytes''
      else Inr (sliceBytes bs off (off + len), off + len))"

definition readTextString :: "bytes \<Rightarrow> nat \<Rightarrow> nat \<Rightarrow> (js_string \<times> nat) res" where
  "readTextString bs len off =
     (if len > maxCborTextBytes \<or> off + len > length bs then cborError ''invalid_cbor_text''
      else (case textDecode (sliceBytes bs off (off + len)) of
              Some s \<Rightarrow> Inr (s, off + len)
            | None \<Rightarrow> cborError ''invalid_cbor_text''))"

primrec readItems :: "(nat \<Rightarrow> (cbor \<times> nat) res) \<Rightarrow> nat \<Rightarrow> nat \<Rightarrow> (cbor list \<times> nat) res" where
  "readItems rd 0 off = Inr ([], off)"
| "readItems rd (Suc k) off =
     andThen (rd off) (\<lambda>(v, off').
       andThen (readItems rd k off') (\<lambda>(vs, off''). Inr (v # vs, off'')))"

definition readArray :: "(nat \<Rightarrow> (cbor \<times> nat) res) \<Rightarrow> nat \<Rightarrow> nat \<Rightarrow> (cbor list \<times> nat) res" where
  "readArray rd len off =
     (if len > maxCborCollectionEntries then cborError ''too_many_array_entries''
      else readItems rd len off)"

primrec readEntries ::
  "(nat \<Rightarrow> (cbor \<times> nat) res) \<Rightarrow> bytes \<Rightarrow> nat \<Rightarrow> js_string list \<Rightarrow> bytes option \<Rightarrow> nat
     \<Rightarrow> (cborMap \<times> nat) res" where
  "readEntries rd bs 0 seen previousKey off = Inr ([], off)"
| "readEntries rd bs (Suc k) seen previousKey off =
     andThen (rd off) (\<lambda>(key, off').
       case key of
         CText s \<Rightarrow>
           (let encodedKey = sliceBytes bs off off' in
            if (case previousKey of None \<Rightarrow> False | Some p \<Rightarrow> compareBytes p encodedKey \<ge> 0)
            then cborError ''non_canonical_cbor''
            else if s \<in> set seen then Inl (CborError (lit ''duplicate_'' @ s))
            else andThen (rd off') (\<lambda>(v, off'').
              andThen (readEntries rd bs k (s # seen) (Some encodedKey) off'') (\<lambda>(es, off3).
                Inr ((s, v) # es, off3))))
       | _ \<Rightarrow> cborError ''non_text_map_key'')"

definition readMap :: "(nat \<Rightarrow> (cbor \<times> nat) res) \<Rightarrow> bytes \<Rightarrow> nat \<Rightarrow> nat \<Rightarrow> (cborMap \<times> nat) res" where
  "readMap rd bs len off =
     (if len > maxCborCollectionEntries then cborError ''too_many_map_entries''
      else readEntries rd bs len [] None off)"

definition readContent ::
  "(nat \<Rightarrow> (cbor \<times> nat) res) \<Rightarrow> bytes \<Rightarrow> nat \<Rightarrow> nat \<Rightarrow> nat \<Rightarrow> (cbor \<times> nat) res" where
  "readContent rd bs major argument off =
     (if major = 0 then Inr (CNum (int argument), off)
      else if major = 2 then
        andThen (readByteString bs argument off) (\<lambda>(b, off'). Inr (CBytes b, off'))
      else if major = 3 then
        andThen (readTextString bs argument off) (\<lambda>(s, off'). Inr (CText s, off'))
      else if major = 4 then
        andThen (readArray rd argument off) (\<lambda>(vs, off'). Inr (CArray vs, off'))
      else if major = 5 then
        andThen (readMap rd bs argument off) (\<lambda>(es, off'). Inr (CMap es, off'))
      else cborError ''unsupported_cbor_type'')"

primrec readValue :: "nat \<Rightarrow> bytes \<Rightarrow> nat \<Rightarrow> (cbor \<times> nat) res" where
  "readValue 0 bs off = Inl StackOverflow"
| "readValue (Suc depth) bs off =
     andThen (readByte bs off) (\<lambda>(initial, off1).
       let major = unat initial div 32; additional = unat initial mod 32 in
       if major = 7 then
         (if additional = 20 then Inr (CBool False, off1)
          else if additional = 21 then Inr (CBool True, off1)
          else cborError ''unsupported_cbor_type'')
       else andThen (readArgument bs additional off1) (\<lambda>(argument, off2).
         readContent (readValue depth bs) bs major argument off2))"

definition sameBytes :: "bytes \<Rightarrow> bytes \<Rightarrow> bool" where
  "sameBytes left right \<longleftrightarrow>
     length left = length right \<and> (\<forall>i < length left. left ! i = right ! i)"

definition decodeDeterministicCbor :: "bytes \<Rightarrow> nat \<Rightarrow> cbor res" where
  "decodeDeterministicCbor bs maxBytes =
     (if length bs = 0 \<or> length bs > maxBytes then cborError ''invalid_cbor_size''
      else andThen (readValue (Suc (length bs)) bs 0) (\<lambda>(value, off).
        if off \<noteq> length bs then cborError ''trailing_cbor''
        else andThen (encodeDeterministicCbor value) (\<lambda>encoded.
          if \<not> sameBytes encoded bs then cborError ''non_canonical_cbor'' else Inr value)))"

section \<open>Readers\<close>

definition readCborMap :: "cbor \<Rightarrow> js_string \<Rightarrow> cborMap res" where
  "readCborMap value label =
     (case value of CMap es \<Rightarrow> Inr es | _ \<Rightarrow> Inl (CborError (lit ''missing_'' @ label)))"

definition getRequiredEntry :: "cborMap \<Rightarrow> js_string \<Rightarrow> cbor res" where
  "getRequiredEntry m key =
     (case map_of m key of None \<Rightarrow> Inl (CborError (lit ''missing_'' @ key)) | Some v \<Rightarrow> Inr v)"

definition hasEntry :: "cborMap \<Rightarrow> js_string \<Rightarrow> bool" where
  "hasEntry m key \<longleftrightarrow> (\<exists>e \<in> set m. fst e = key)"

fun rejectUnknownEntries :: "cborMap \<Rightarrow> js_string list \<Rightarrow> unit res" where
  "rejectUnknownEntries [] keys = Inr ()"
| "rejectUnknownEntries ((k, v) # es) keys =
     (if k \<notin> set keys then Inl (CborError (lit ''unknown_'' @ k)) else rejectUnknownEntries es keys)"

definition invalidEntry :: "js_string \<Rightarrow> 'a res" where
  "invalidEntry key = Inl (CborError (lit ''invalid_'' @ key))"

definition readText :: "cbor \<Rightarrow> js_string \<Rightarrow> js_string res" where
  "readText value key =
     (case value of
        CText s \<Rightarrow> if length s = 0 \<or> length (textEncode s) > maxCborTextBytes then invalidEntry key else Inr s
      | _ \<Rightarrow> invalidEntry key)"

definition readUint :: "cbor \<Rightarrow> js_string \<Rightarrow> int res" where
  "readUint value key =
     (case value of
        CNum n \<Rightarrow> if \<not> isSafeInteger n \<or> n < 0 then invalidEntry key else Inr n
      | _ \<Rightarrow> invalidEntry key)"

definition readBoolean :: "cbor \<Rightarrow> js_string \<Rightarrow> bool res" where
  "readBoolean value key = (case value of CBool b \<Rightarrow> Inr b | _ \<Rightarrow> invalidEntry key)"

definition readBytes :: "cbor \<Rightarrow> js_string \<Rightarrow> nat option \<Rightarrow> bytes res" where
  "readBytes value key sz =
     (case value of
        CBytes bs \<Rightarrow>
          (if length bs = 0 \<or> length bs > maxCborBytes then invalidEntry key
           else (case sz of
                   None \<Rightarrow> Inr bs
                 | Some n \<Rightarrow> if length bs \<noteq> n then invalidEntry key else Inr bs))
      | _ \<Rightarrow> invalidEntry key)"

definition readTextArray :: "cbor \<Rightarrow> js_string \<Rightarrow> nat \<Rightarrow> js_string list res" where
  "readTextArray value key maxItems =
     (case value of
        CArray vs \<Rightarrow>
          (if length vs = 0 \<or> length vs > maxItems then invalidEntry key
           else mapRes (\<lambda>entry. readText entry key) vs)
      | _ \<Rightarrow> invalidEntry key)"

definition isCborArray :: "cbor \<Rightarrow> bool" where
  "isCborArray value = (case value of CArray _ \<Rightarrow> True | _ \<Rightarrow> False)"

definition isCborMap :: "cbor \<Rightarrow> bool" where
  "isCborMap value = (case value of CMap _ \<Rightarrow> True | _ \<Rightarrow> False)"

section \<open>First facts\<close>

lemma sameBytes_iff [simp]: "sameBytes left right \<longleftrightarrow> left = right"
  by (auto simp: sameBytes_def intro: nth_equalityI)

lemma compareBytes_lexicographic:
  "(compareBytes left right < 0 \<longleftrightarrow> left < right) \<and> (compareBytes left right = 0 \<longleftrightarrow> left = right)"
proof (induction left arbitrary: right)
  case Nil
  show ?case by (cases right) auto
next
  case (Cons l ls)
  have byte: "int (unat l) - int (unat r) \<noteq> 0 \<longleftrightarrow> l \<noteq> r" "int (unat l) - int (unat r) < 0 \<longleftrightarrow> l < r" for r
    by (simp_all add: word_less_def word_uint_eq_iff)
  show ?case
  proof (cases right)
    case (Cons r rs)
    with Cons.IH [of rs] byte [of r] show ?thesis by (auto simp: Let_def)
  qed simp
qed

lemma compareBytes_le: "compareBytes left right \<le> 0 \<longleftrightarrow> left \<le> right"
  using compareBytes_lexicographic [of left right] by (auto simp: order.order_iff_strict)

lemma compareBytes_ge: "compareBytes left right \<ge> 0 \<longleftrightarrow> right \<le> left"
  using compareBytes_lexicographic [of left right] by (auto simp: not_less [symmetric])

lemma sortEncoded_sort_key: "sortEncoded = sort_key fst"
  unfolding sortEncoded_def
  by (intro ext js_sort_sort_key) (simp add: compareBytes_le)

end
