(* ===== verification/Cbor_Roundtrip.thy ===== *)
theory Cbor_Roundtrip
  imports Cbor
begin

text \<open>
  The correctness of the deterministic CBOR codec: the decoder's stack bound, that decoding
  inverts encoding up to the order of map entries, and that an accepted byte string is the one
  encoding of the value it stands for.
\<close>

section \<open>Headers\<close>

definition bigEndian :: "nat \<Rightarrow> nat \<Rightarrow> bytes" where
  "bigEndian k v = map (\<lambda>i. byteOf (v div 0x100 ^ i mod 0x100)) (rev [0..<k])"

lemma length_bigEndian [simp]: "length (bigEndian k v) = k"
  by (simp add: bigEndian_def)

lemma readByte_append: "readByte (pre @ b # suf) (length pre) = Inr (b, Suc (length pre))"
  by (simp add: readByte_def)

lemma readBigEndian_append:
  "readBigEndian (length xs) (pre @ xs @ suf) acc (length pre) =
     Inr (foldl (\<lambda>a b. a * 0x100 + unat b) acc xs, length pre + length xs)"
proof (induction xs arbitrary: pre acc)
  case (Cons x xs)
  have "readByte (pre @ (x # xs) @ suf) (length pre) = Inr (x, length (pre @ [x]))"
    using readByte_append [of pre x "xs @ suf"] by simp
  moreover have "readBigEndian (length xs) ((pre @ [x]) @ xs @ suf) (acc * 0x100 + unat x) (length (pre @ [x]))
      = Inr (foldl (\<lambda>a b. a * 0x100 + unat b) (acc * 0x100 + unat x) xs, length (pre @ [x]) + length xs)"
    by (rule Cons)
  ultimately show ?case by simp
qed simp

lemma foldl_bigEndian:
  "foldl (\<lambda>a b. a * 0x100 + unat b) acc (bigEndian k v) = acc * 0x100 ^ k + v mod 0x100 ^ k"
proof (induction k arbitrary: acc)
  case 0
  show ?case by (simp add: bigEndian_def)
next
  case (Suc k)
  have "bigEndian (Suc k) v = byteOf (v div 0x100 ^ k mod 0x100) # bigEndian k v"
    by (simp add: bigEndian_def)
  then have "foldl (\<lambda>a b. a * 0x100 + unat b) acc (bigEndian (Suc k) v)
      = (acc * 0x100 + v div 0x100 ^ k mod 0x100) * 0x100 ^ k + v mod 0x100 ^ k"
    using Suc by simp
  also have "v mod 0x100 ^ Suc k = 0x100 ^ k * (v div 0x100 ^ k mod 0x100) + v mod 0x100 ^ k"
    using mod_mult2_eq [of v "0x100 ^ k" "0x100"] by (simp add: mult.commute)
  then have "(acc * 0x100 + v div 0x100 ^ k mod 0x100) * 0x100 ^ k + v mod 0x100 ^ k
      = acc * 0x100 ^ Suc k + v mod 0x100 ^ Suc k"
    by (simp add: algebra_simps)
  finally show ?case .
qed

lemma readBigEndian_bigEndian:
  assumes "v < 0x100 ^ k"
  shows "readBigEndian k (pre @ bigEndian k v @ suf) 0 (length pre) = Inr (v, length pre + k)"
  using readBigEndian_append [of "bigEndian k v" pre suf 0] foldl_bigEndian [of 0 k v] assms by simp

lemma encodeHeader_cases:
  obtains "value < 24" "encodeHeader major value = [byteOf (major * 32 + value)]"
  | "24 \<le> value" "value \<le> 0xff" "encodeHeader major value = byteOf (major * 32 + 24) # bigEndian 1 value"
  | "0xff < value" "value \<le> 0xffff" "encodeHeader major value = byteOf (major * 32 + 25) # bigEndian 2 value"
  | "0xffff < value" "value \<le> 0xffffffff"
    "encodeHeader major value = byteOf (major * 32 + 26) # bigEndian 4 value"
  | "0xffffffff < value" "encodeHeader major value = byteOf (major * 32 + 27) # bigEndian 8 value"
proof -
  have e: "rev [0..<1] = [0]" "rev [0..<2] = [1, 0]" "rev [0..<4] = [3, 2, 1, 0]"
    "rev [0..<8] = [7, 6, 5, 4, 3, 2, 1, 0 :: nat]"
    by (simp_all add: upt_rec numeral_eq_Suc)
  consider "value < 24" | "24 \<le> value" "value \<le> 0xff" | "0xff < value" "value \<le> 0xffff"
    | "0xffff < value" "value \<le> 0xffffffff" | "0xffffffff < value"
    by linarith
  then show thesis
  proof cases
    case 1
    then show thesis by (intro that(1)) (simp_all add: encodeHeader_def)
  next
    case 2
    then show thesis by (intro that(2)) (simp_all add: encodeHeader_def bigEndian_def)
  next
    case 3
    then have "value div 256 mod 256 = value div 256" by simp
    with 3 show thesis by (intro that(3)) (simp_all add: encodeHeader_def bigEndian_def e)
  next
    case 4
    then have "value div 16777216 mod 256 = value div 16777216" by simp
    with 4 show thesis by (intro that(4)) (simp_all add: encodeHeader_def bigEndian_def e)
  next
    case 5
    then show thesis by (intro that(5)) (simp_all add: encodeHeader_def bigEndian_def e)
  qed
qed

lemma byteOf_major: "major < 8 \<Longrightarrow> a < 32 \<Longrightarrow> unat (byteOf (major * 32 + a)) = major * 32 + a"
  by simp

lemma read_encodeHeader:
  assumes "major < 8" "int value \<le> maxSafeInteger"
  obtains initial where
    "readByte (pre @ encodeHeader major value @ suf) (length pre) = Inr (initial, Suc (length pre))"
    "unat initial div 32 = major"
    "readArgument (pre @ encodeHeader major value @ suf) (unat initial mod 32) (Suc (length pre))
       = Inr (value, length pre + length (encodeHeader major value))"
proof -
  note found = that
  have go: thesis if h: "encodeHeader major value = byteOf (major * 32 + a) # rest" and a: "a < 32"
    and arg: "\<And>q. readArgument (q @ rest @ suf) a (length q) = Inr (value, length q + length rest)"
    for a rest
  proof (rule found [of "byteOf (major * 32 + a)"])
    show "readByte (pre @ encodeHeader major value @ suf) (length pre)
        = Inr (byteOf (major * 32 + a), Suc (length pre))"
      using readByte_append [of pre] by (simp add: h)
    show "unat (byteOf (major * 32 + a)) div 32 = major"
      using a assms(1) by (simp add: byteOf_major del: unat_byteOf)
    have "unat (byteOf (major * 32 + a)) mod 32 = a"
      using a assms(1) by (simp add: byteOf_major del: unat_byteOf)
    with arg [of "pre @ [byteOf (major * 32 + a)]"] show "readArgument (pre @ encodeHeader major value @ suf)
        (unat (byteOf (major * 32 + a)) mod 32) (Suc (length pre))
        = Inr (value, length pre + length (encodeHeader major value))"
      by (simp add: h del: unat_byteOf)
  qed
  have big: "readBigEndian k (q @ bigEndian k value @ suf) 0 (length q) = Inr (value, length q + k)"
    if "value < 0x100 ^ k" for k q
    by (rule readBigEndian_bigEndian [OF that])
  show thesis
  proof (rule encodeHeader_cases [of "value" major], goal_cases)
    case 1
    then show thesis by (intro go [of "value" "[]"]) (simp_all add: readArgument_def del: readBigEndian.simps One_nat_def)
  next
    case 2
    with big [of 1] show thesis
      by (intro go [of 24 "bigEndian 1 value"]) (simp_all add: readArgument_def del: readBigEndian.simps One_nat_def)
  next
    case 3
    with big [of 2] show thesis
      by (intro go [of 25 "bigEndian 2 value"]) (simp_all add: readArgument_def del: readBigEndian.simps One_nat_def)
  next
    case 4
    with big [of 4] show thesis
      by (intro go [of 26 "bigEndian 4 value"]) (simp_all add: readArgument_def del: readBigEndian.simps One_nat_def)
  next
    case 5
    have "value < 0x100 ^ 8"
      using assms(2) by (simp add: maxSafeInteger_def)
    with 5 big [of 8] assms(2) show thesis
      by (intro go [of 27 "bigEndian 8 value"]) (simp_all add: readArgument_def del: readBigEndian.simps One_nat_def)
  qed
qed

lemma encodeHeader_nonempty: "encodeHeader major value \<noteq> []"
  by (simp add: encodeHeader_def)


section \<open>Progress and the stack bound\<close>

definition progressive :: "bytes \<Rightarrow> (nat \<Rightarrow> (cbor \<times> nat) res) \<Rightarrow> bool" where
  "progressive bs rd \<longleftrightarrow> (\<forall>off v off'. rd off = Inr (v, off') \<longrightarrow> off < off' \<and> off' \<le> length bs)"

lemma readByte_progress: "readByte bs off = Inr (b, off') \<Longrightarrow> off' = Suc off \<and> off' \<le> length bs"
  by (auto simp: readByte_def split: if_splits)

lemma readBigEndian_progress:
  "readBigEndian k bs v off = Inr (w, off') \<Longrightarrow> off' = off + k \<and> (k = 0 \<or> off' \<le> length bs)"
  by (induction k arbitrary: v off) (fastforce simp: res_simps dest: readByte_progress)+

lemma readArgument_progress:
  "readArgument bs a off = Inr (v, off') \<Longrightarrow> off \<le> off' \<and> (off' = off \<or> off' \<le> length bs)"
  unfolding readArgument_def
  by (auto simp: res_simps split: if_splits dest!: readBigEndian_progress simp del: readBigEndian.simps)

lemma readByteString_progress:
  "readByteString bs n off = Inr (v, off') \<Longrightarrow> off \<le> off' \<and> off' \<le> length bs"
  by (auto simp: readByteString_def split: if_splits)

lemma readTextString_progress:
  "readTextString bs n off = Inr (v, off') \<Longrightarrow> off \<le> off' \<and> off' \<le> length bs"
  by (auto simp: readTextString_def split: if_splits option.splits)

lemma readItems_progress:
  "progressive bs rd \<Longrightarrow> readItems rd k off = Inr (vs, off') \<Longrightarrow> off \<le> off' \<and> (off' = off \<or> off' \<le> length bs)"
proof (induction k arbitrary: off vs)
  case (Suc k)
  then obtain v o1 ws where r: "rd off = Inr (v, o1)" "readItems rd k o1 = Inr (ws, off')"
    by (auto simp: res_simps)
  from r(1) Suc.prems(1) have "off < o1 \<and> o1 \<le> length bs"
    by (auto simp: progressive_def)
  with Suc.IH [OF Suc.prems(1) r(2)] show ?case by auto
qed simp

lemma readEntries_Suc_Inr:
  "readEntries rd bs (Suc k) seen prev off = Inr (es, off') \<longleftrightarrow>
     (\<exists>s o1 v o2 es'. rd off = Inr (CText s, o1)
        \<and> (\<forall>p. prev = Some p \<longrightarrow> compareBytes p (sliceBytes bs off o1) < 0) \<and> s \<notin> set seen
        \<and> rd o1 = Inr (v, o2)
        \<and> readEntries rd bs k (s # seen) (Some (sliceBytes bs off o1)) o2 = Inr (es', off')
        \<and> es = (s, v) # es')"
proof (cases "rd off")
  case (Inr p)
  then show ?thesis
  proof (cases p)
    case (Pair key o1)
    with Inr show ?thesis
      by (cases key) (auto simp: Let_def res_simps not_le split: option.splits)
  qed
qed simp

lemma readEntries_progress:
  "progressive bs rd \<Longrightarrow> readEntries rd bs k seen prev off = Inr (es, off')
     \<Longrightarrow> off \<le> off' \<and> (off' = off \<or> off' \<le> length bs)"
proof (induction k arbitrary: off es seen prev)
  case (Suc k)
  then obtain key o1 v o2 es' s where r: "rd off = Inr (key, o1)" "rd o1 = Inr (v, o2)"
    "readEntries rd bs k (s # seen) (Some (sliceBytes bs off o1)) o2 = Inr (es', off')"
    unfolding readEntries_Suc_Inr by blast
  from r(1,2) Suc.prems(1) have "off < o1 \<and> o1 < o2 \<and> o2 \<le> length bs"
    by (auto simp: progressive_def)
  with Suc.IH [OF Suc.prems(1) r(3)] show ?case by auto
qed simp

lemma readContent_progress:
  assumes "progressive bs rd"
  shows "readContent rd bs major n off = Inr (v, off') \<Longrightarrow> off \<le> off' \<and> (off' = off \<or> off' \<le> length bs)"
  unfolding readContent_def
  by (auto simp: res_simps readArray_def readMap_def split: if_splits
      dest!: readByteString_progress readTextString_progress readItems_progress [OF assms]
        readEntries_progress [OF assms])

lemma readValue_progressive: "progressive bs (readValue f bs)"
proof (induction f)
  case 0
  show ?case by (simp add: progressive_def)
next
  case (Suc f)
  show ?case
    unfolding progressive_def
  proof (intro allI impI)
    fix off v off'
    assume "readValue (Suc f) bs off = Inr (v, off')"
    then obtain b o1 where o1: "readByte bs off = Inr (b, o1)"
      and rest: "off' = o1 \<or> (\<exists>n o2. readArgument bs (unat b mod 32) o1 = Inr (n, o2)
        \<and> readContent (readValue f bs) bs (unat b div 32) n o2 = Inr (v, off'))"
      by (auto simp: res_simps Let_def split: if_splits)
    from o1 have "o1 = Suc off" "o1 \<le> length bs"
      by (auto dest: readByte_progress)
    with rest show "off < off' \<and> off' \<le> length bs"
      by (auto dest!: readArgument_progress readContent_progress [OF Suc])
  qed
qed

definition agreeFrom :: "nat \<Rightarrow> (nat \<Rightarrow> 'a res) \<Rightarrow> (nat \<Rightarrow> 'a res) \<Rightarrow> bool" where
  "agreeFrom off rd rd' \<longleftrightarrow> (\<forall>o' \<ge> off. rd o' = rd' o' \<and> rd o' \<noteq> Inl StackOverflow)"

lemma agreeFrom_mono: "agreeFrom off rd rd' \<Longrightarrow> off \<le> off' \<Longrightarrow> agreeFrom off' rd rd'"
  unfolding agreeFrom_def by (meson order_trans)

lemma readItems_agree:
  assumes "progressive bs rd"
  shows "agreeFrom off rd rd' \<Longrightarrow>
    readItems rd k off = readItems rd' k off \<and> readItems rd k off \<noteq> Inl StackOverflow"
proof (induction k arbitrary: off)
  case (Suc k)
  then have e: "rd off = rd' off" "rd off \<noteq> Inl StackOverflow"
    by (auto simp: agreeFrom_def)
  show ?case
  proof (cases "rd off")
    case (Inr p)
    obtain v o1 where p: "p = (v, o1)" by (cases p)
    then have "off \<le> o1"
      using assms Inr by (auto simp: progressive_def dest: less_imp_le)
    with Suc.prems have "agreeFrom o1 rd rd'" by (rule agreeFrom_mono)
    then have IH: "readItems rd' k o1 = readItems rd k o1" "readItems rd k o1 \<noteq> Inl StackOverflow"
      using Suc.IH by metis+
    have "rd off = Inr (v, o1)" "rd' off = Inr (v, o1)"
      using e Inr p by simp_all
    with IH show ?thesis
      by (auto simp: andThen_Inl)
  qed (use e in \<open>auto simp: agreeFrom_def\<close>)
qed simp

lemma readEntries_agree:
  assumes "progressive bs rd"
  shows "agreeFrom off rd rd' \<Longrightarrow>
    readEntries rd bs k seen prev off = readEntries rd' bs k seen prev off
      \<and> readEntries rd bs k seen prev off \<noteq> Inl StackOverflow"
proof (induction k arbitrary: off seen prev)
  case (Suc k)
  then have e: "rd off = rd' off" "rd off \<noteq> Inl StackOverflow"
    by (auto simp: agreeFrom_def)
  show ?case
  proof (cases "rd off")
    case (Inr p)
    obtain key o1 where p: "p = (key, o1)" by (cases p)
    then have o1: "off \<le> o1"
      using assms Inr by (auto simp: progressive_def dest: less_imp_le)
    with Suc.prems have e1: "rd o1 = rd' o1" "rd o1 \<noteq> Inl StackOverflow"
      by (auto simp: agreeFrom_def)
    have r: "rd off = Inr (key, o1)" "rd' off = Inr (key, o1)"
      using e Inr p by simp_all
    show ?thesis
    proof (cases "rd o1")
      case (Inl err)
      with e1 have "rd o1 = Inl err" "rd' o1 = Inl err" "err \<noteq> StackOverflow"
        by auto
      with r show ?thesis
        by (auto simp: Let_def split: cbor.splits)
    next
      case (Inr q)
      obtain v o2 where q: "q = (v, o2)" by (cases q)
      then have "o1 \<le> o2"
        using assms Inr by (auto simp: progressive_def dest: less_imp_le)
      with o1 Suc.prems have "agreeFrom o2 rd rd'" by (auto intro: agreeFrom_mono)
      then have IH: "readEntries rd' bs k sn pr o2 = readEntries rd bs k sn pr o2"
          "readEntries rd bs k sn pr o2 \<noteq> Inl StackOverflow" for sn pr
        using Suc.IH by metis+
      have "rd o1 = Inr (v, o2)" "rd' o1 = Inr (v, o2)"
        using e1 Inr q by simp_all
      with r IH show ?thesis
        by (auto simp: Let_def andThen_Inl split: cbor.splits)
    qed
  qed (use e in auto)
qed simp

lemma leaf_not_overflow:
  "readByte bs off \<noteq> Inl StackOverflow"
  "readArgument bs a off \<noteq> Inl StackOverflow"
  "readByteString bs n off \<noteq> Inl StackOverflow"
  "readTextString bs n off \<noteq> Inl StackOverflow"
proof -
  have big: "readBigEndian k bs v off \<noteq> Inl StackOverflow" for k v off
    by (induction k arbitrary: v off) (auto simp: andThen_Inl readByte_def)
  show "readByte bs off \<noteq> Inl StackOverflow" by (simp add: readByte_def)
  show "readArgument bs a off \<noteq> Inl StackOverflow"
    using big by (auto simp: readArgument_def andThen_Inl simp del: readBigEndian.simps)
  show "readByteString bs n off \<noteq> Inl StackOverflow" by (simp add: readByteString_def)
  show "readTextString bs n off \<noteq> Inl StackOverflow"
    by (simp add: readTextString_def split: option.splits)
qed

lemma readContent_agree:
  assumes "progressive bs rd" "agreeFrom off rd rd'"
  shows "readContent rd bs major n off = readContent rd' bs major n off
    \<and> readContent rd bs major n off \<noteq> Inl StackOverflow"
proof -
  have items: "readItems rd' n off = readItems rd n off" "readItems rd n off \<noteq> Inl StackOverflow"
    using readItems_agree [OF assms] by metis+
  have entries: "readEntries rd' bs n [] None off = readEntries rd bs n [] None off"
    "readEntries rd bs n [] None off \<noteq> Inl StackOverflow"
    using readEntries_agree [OF assms] by metis+
  show ?thesis
    using leaf_not_overflow(3,4) [of bs n off] items entries
    by (simp add: readContent_def readArray_def readMap_def andThen_Inl)
qed

lemma readValue_depth:
  "length bs - off < f \<Longrightarrow> length bs - off < g \<Longrightarrow>
     readValue f bs off = readValue g bs off \<and> readValue f bs off \<noteq> Inl StackOverflow"
proof (induction f arbitrary: g off)
  case (Suc f)
  from Suc.prems obtain g' where g: "g = Suc g'" by (cases g) auto
  show ?case
  proof (cases "readByte bs off")
    case (Inl e)
    then show ?thesis using leaf_not_overflow(1) [of bs off] by (auto simp: g)
  next
    case (Inr p)
    obtain b o1 where b: "readByte bs off = Inr (b, o1)" using Inr by (cases p) auto
    then have o1: "o1 = Suc off" "o1 \<le> length bs" by (auto dest: readByte_progress)
    show ?thesis
    proof (cases "readArgument bs (unat b mod 32) o1")
      case (Inl e)
      then show ?thesis
        using leaf_not_overflow(2) [of bs "unat b mod 32" o1] by (auto simp: b g Let_def)
    next
      case (Inr q)
      obtain n o2 where n: "readArgument bs (unat b mod 32) o1 = Inr (n, o2)" using Inr by (cases q) auto
      then have "o1 \<le> o2" by (auto dest: readArgument_progress)
      with o1 Suc.prems g have "length bs - o' < f \<and> length bs - o' < g'" if "o2 \<le> o'" for o'
        using that by auto
      then have "agreeFrom o2 (readValue f bs) (readValue g' bs)"
        unfolding agreeFrom_def using Suc.IH by blast
      from readContent_agree [OF readValue_progressive this]
      have "readContent (readValue g' bs) bs m n o2 = readContent (readValue f bs) bs m n o2"
        "readContent (readValue f bs) bs m n o2 \<noteq> Inl StackOverflow" for m
        by metis+
      then show ?thesis by (simp add: b g n Let_def)
    qed
  qed
qed simp


section \<open>Decoding an encoded value\<close>

text \<open>
  \<open>wfCbor\<close> is the set of values the decoder can return: its size limits, texts with no unpaired
  surrogate and no leading byte order mark, and distinct keys. \<open>canonical\<close> sorts the entries of
  every map by their encoded keys, which is the order the encoder writes.
\<close>

definition decodableText :: "js_string \<Rightarrow> bool" where
  "decodableText s \<longleftrightarrow> wellFormed s \<and> \<not> startsWithBOM s \<and> length (textEncode s) \<le> maxCborTextBytes"

definition encodedKey :: "js_string \<Rightarrow> bytes" where
  "encodedKey k = encodeBytes 3 (textEncode k)"

fun wfCbor :: "cbor \<Rightarrow> bool" where
  "wfCbor (CBool b) = True"
| "wfCbor (CNum n) = (0 \<le> n \<and> n \<le> maxSafeInteger)"
| "wfCbor (CText s) = decodableText s"
| "wfCbor (CBytes bs) = (length bs \<le> maxCborBytes)"
| "wfCbor (CArray vs) = (length vs \<le> maxCborCollectionEntries \<and> (\<forall>v \<in> set vs. wfCbor v))"
| "wfCbor (CMap es) =
     (length es \<le> maxCborCollectionEntries \<and> distinct (map fst es)
      \<and> (\<forall>(k, v) \<in> set es. decodableText k \<and> wfCbor v))"

fun canonical :: "cbor \<Rightarrow> cbor" where
  "canonical (CArray vs) = CArray (map canonical vs)"
| "canonical (CMap es) = CMap (sort_key (\<lambda>(k, v). encodedKey k) (map (\<lambda>(k, v). (k, canonical v)) es))"
| "canonical v = v"

definition reads :: "bytes \<Rightarrow> cbor \<Rightarrow> bool" where
  "reads e v \<longleftrightarrow> e \<noteq> [] \<and> (\<forall>pre suf f. length e + length suf < f
     \<longrightarrow> readValue f (pre @ e @ suf) (length pre) = Inr (v, length pre + length e))"

lemma readsD:
  "reads e v \<Longrightarrow> bs = pre @ e @ suf \<Longrightarrow> off = length pre \<Longrightarrow> length e + length suf < f
     \<Longrightarrow> readValue f bs off = Inr (v, off + length e)"
  by (simp add: reads_def)

lemma reads_header:
  assumes "major < 7" "int n \<le> maxSafeInteger"
    and content: "\<And>pre suf f. length body + length suf < f \<Longrightarrow>
      readContent (readValue f (pre @ body @ suf)) (pre @ body @ suf) major n (length pre)
        = Inr (v, length pre + length body)"
  shows "reads (encodeHeader major n @ body) v"
  unfolding reads_def
proof (intro conjI allI impI)
  show "encodeHeader major n @ body \<noteq> []" by (simp add: encodeHeader_nonempty)
next
  fix pre suf :: bytes and f
  assume f: "length (encodeHeader major n @ body) + length suf < f"
  let ?h = "encodeHeader major n"
  let ?bs = "pre @ ?h @ body @ suf"
  obtain d where d: "f = Suc d" using f by (cases f) auto
  obtain i where i: "readByte ?bs (length pre) = Inr (i, Suc (length pre))" "unat i div 32 = major"
    "readArgument ?bs (unat i mod 32) (Suc (length pre)) = Inr (n, length pre + length ?h)"
    using read_encodeHeader [of major n pre "body @ suf"] assms(1,2) by auto
  have "length ?h > 0" by (simp add: encodeHeader_nonempty)
  with f d have "length body + length suf < d"
    unfolding length_append by linarith
  from content [OF this, of "pre @ ?h"]
  have "readContent (readValue d ?bs) ?bs major n (length pre + length ?h)
      = Inr (v, length pre + length ?h + length body)" by simp
  with i assms(1) d
  show "readValue f (pre @ (?h @ body) @ suf) (length pre) = Inr (v, length pre + length (?h @ body))"
    by (simp add: Let_def)
qed

lemma slice_middle: "sliceBytes (pre @ b @ suf) (length pre) (length pre + length b) = b"
  by (simp add: sliceBytes_def)

lemma reads_bool: "reads [if b then 0xf5 else 0xf4] (CBool b)"
  unfolding reads_def
proof (intro conjI allI impI)
  fix pre suf :: bytes and f
  assume "length [if b then 0xf5 else 0xf4 :: byte] + length suf < f"
  then obtain d where d: "f = Suc d" by (cases f) auto
  show "readValue f (pre @ [if b then 0xf5 else 0xf4] @ suf) (length pre)
      = Inr (CBool b, length pre + length [if b then 0xf5 else 0xf4 :: byte])"
    using readByte_append [of pre "if b then 0xf5 else 0xf4" suf] by (auto simp: d Let_def)
qed simp

lemma reads_num:
  assumes "0 \<le> n" "n \<le> maxSafeInteger"
  shows "reads (encodeHeader 0 (nat n)) (CNum n)"
  using reads_header [of 0 "nat n" "[]" "CNum n"] assms by (simp add: readContent_def)

lemma reads_bytes:
  assumes "length b \<le> maxCborBytes"
  shows "reads (encodeBytes 2 b) (CBytes b)"
  unfolding encodeBytes_def using assms
  by (intro reads_header)
    (auto simp: readContent_def readByteString_def slice_middle maxCborBytes_def maxSafeInteger_def)

lemma reads_text:
  assumes "decodableText s"
  shows "reads (encodedKey s) (CText s)"
proof -
  have "textDecode (textEncode s) = Some s" "length (textEncode s) \<le> maxCborTextBytes"
    using assms by (simp_all add: decodableText_def textDecode_textEncode_iff)
  then show ?thesis
    unfolding encodedKey_def encodeBytes_def
    by (intro reads_header)
      (auto simp: readContent_def readTextString_def slice_middle maxCborTextBytes_def maxSafeInteger_def)
qed

lemma encodedKey_inject:
  assumes "decodableText s" "decodableText t" "encodedKey s = encodedKey t"
  shows "s = t"
proof -
  let ?f = "Suc (length (encodedKey s))"
  have "readValue ?f (encodedKey s) 0 = Inr (CText s, length (encodedKey s))"
    using readsD [OF reads_text [OF assms(1)], of "encodedKey s" "[]" "[]"]
    by (simp del: readValue.simps)
  moreover have "readValue ?f (encodedKey s) 0 = Inr (CText t, length (encodedKey t))"
    using readsD [OF reads_text [OF assms(2)], of "encodedKey s" "[]" "[]"] assms(3)
    by (simp del: readValue.simps)
  ultimately show ?thesis by simp
qed

lemma readItems_reads:
  assumes "list_all2 reads es vs"
  shows "length (concat es) + length suf < f \<Longrightarrow> bs = pre @ concat es @ suf \<Longrightarrow>
    readItems (readValue f bs) (length es) (length pre) = Inr (vs, length pre + length (concat es))"
  using assms
proof (induction arbitrary: pre rule: list_all2_induct)
  case (Cons e es v vs)
  have "readValue f bs (length pre) = Inr (v, length (pre @ e))"
    using readsD [OF Cons(1), of bs pre "concat es @ suf" "length pre" f] Cons.prems by simp
  moreover have "readItems (readValue f bs) (length es) (length (pre @ e))
      = Inr (vs, length (pre @ e) + length (concat es))"
    using Cons.IH [of "pre @ e"] Cons.prems by simp
  ultimately show ?case by simp
qed simp

definition entryBytes :: "(js_string \<times> bytes) list \<Rightarrow> bytes" where
  "entryBytes es = concat (map (\<lambda>(k, e). encodedKey k @ e) es)"

lemma readEntries_reads:
  assumes "\<forall>(k, e) \<in> set es. decodableText k" "list_all2 (\<lambda>(k, e) (k', v). k' = k \<and> reads e v) es vs"
    and "sorted_wrt (<) (map (encodedKey \<circ> fst) es)"
  shows "length (entryBytes es) + length suf < f \<Longrightarrow> bs = pre @ entryBytes es @ suf \<Longrightarrow>
    (\<forall>p. prev = Some p \<longrightarrow> (\<forall>(k, e) \<in> set es. p < encodedKey k)) \<Longrightarrow> set seen \<inter> fst ` set es = {} \<Longrightarrow>
    readEntries (readValue f bs) bs (length es) seen prev (length pre)
      = Inr (vs, length pre + length (entryBytes es))"
  using assms(2,1,3)
proof (induction arbitrary: pre prev seen rule: list_all2_induct)
  case Nil
  then show ?case by (simp add: entryBytes_def)
next
  case (Cons x es y vs)
  obtain k e where x: "x = (k, e)" by (cases x)
  obtain v where y: "y = (k, v)" and rv: "reads e v"
    using Cons(1) x by (cases y) auto
  have dk: "decodableText k" using Cons.prems x by simp
  have split: "bs = pre @ encodedKey k @ e @ entryBytes es @ suf"
    using Cons.prems x by (simp add: entryBytes_def)
  have len: "length (encodedKey k) + length (e @ entryBytes es @ suf) < f"
    using Cons.prems x by (simp add: entryBytes_def)
  have key: "readValue f bs (length pre) = Inr (CText k, length (pre @ encodedKey k))"
    using readsD [OF reads_text [OF dk] split] len by simp
  have val: "readValue f bs (length (pre @ encodedKey k)) = Inr (v, length (pre @ encodedKey k @ e))"
    using readsD [OF rv, of bs "pre @ encodedKey k" "entryBytes es @ suf"] split len by simp
  have slice: "sliceBytes bs (length pre) (length (pre @ encodedKey k)) = encodedKey k"
    unfolding split using slice_middle [of pre "encodedKey k"] by simp
  have "readEntries (readValue f bs) bs (length es) (k # seen) (Some (encodedKey k)) (length (pre @ encodedKey k @ e))
      = Inr (vs, length (pre @ encodedKey k @ e) + length (entryBytes es))"
  proof (rule Cons.IH)
    show "length (entryBytes es) + length suf < f" using len by simp
    show "bs = (pre @ encodedKey k @ e) @ entryBytes es @ suf" using split by simp
    show "\<forall>p. Some (encodedKey k) = Some p \<longrightarrow> (\<forall>(k, e) \<in> set es. p < encodedKey k)"
      using Cons.prems(6) x by auto
    have "k \<notin> fst ` set es"
      using Cons.prems(6) x by force
    then show "set (k # seen) \<inter> fst ` set es = {}"
      using Cons.prems(4) x by auto
    show "\<forall>(k, e) \<in> set es. decodableText k" using Cons.prems by simp
    show "sorted_wrt (<) (map (encodedKey \<circ> fst) es)" using Cons.prems(6) by (simp add: o_def)
  qed
  moreover have "\<forall>p. prev = Some p \<longrightarrow> compareBytes p (encodedKey k) < 0"
    using Cons.prems(3) x compareBytes_lexicographic by auto
  moreover have "k \<notin> set seen" using Cons.prems(4) x by auto
  ultimately show ?case
    using key val slice by (simp add: readEntries_Suc_Inr x y entryBytes_def del: readEntries.simps)
qed

section \<open>The round trip\<close>

lemma sort_key_map: "sort_key f (map g xs) = map g (sort_key (f \<circ> g) xs)"
proof -
  have "insort_key f (g x) (map g ys) = map g (insort_key (f \<circ> g) x ys)" for x ys
    by (induction ys) auto
  then show ?thesis by (induction xs) auto
qed

lemma sort_key_sorted: "sorted (map f xs) \<Longrightarrow> sort_key f xs = xs"
  by (induction xs) (auto simp: insort_is_Cons)

lemma canonical_CMap:
  "canonical (CMap es) = CMap (map (\<lambda>(k, v). (k, canonical v)) (sort_key (encodedKey \<circ> fst) es))"
  by (simp add: sort_key_map o_def case_prod_beta)

definition encodes :: "cbor \<Rightarrow> bytes \<Rightarrow> bool" where
  "encodes v e \<longleftrightarrow> encodeDeterministicCbor v = Inr e \<and> reads e (canonical v)"

lemma encodeItems_encodes: "list_all2 encodes vs es \<Longrightarrow> encodeItems vs = Inr es"
  by (induction rule: list_all2_induct) (auto simp: encodes_def)

lemma encodeEntries_encodes:
  assumes "\<forall>(k, v) \<in> set es. encodes v (E v)"
    and "distinct (map fst es)" "set seen \<inter> fst ` set es = {}"
  shows "encodeEntries seen es = Inr (map (\<lambda>(k, v). (encodedKey k, E v)) es)"
  using assms by (induction es arbitrary: seen) (auto simp: encodes_def encodedKey_def)

lemma encodes_array:
  assumes "list_all2 encodes vs es" "length vs \<le> maxCborCollectionEntries"
  shows "encodes (CArray vs) (encodeHeader 4 (length vs) @ concat es)"
proof -
  have len: "length es = length vs" using assms(1) by (simp add: list_all2_lengthD)
  have rd: "list_all2 reads es (map canonical vs)"
    using assms(1) by (auto simp: list_all2_conv_all_nth encodes_def)
  have "reads (encodeHeader 4 (length vs) @ concat es) (CArray (map canonical vs))"
  proof (rule reads_header)
    show "int (length vs) \<le> maxSafeInteger"
      using assms(2) by (simp add: maxCborCollectionEntries_def maxSafeInteger_def)
  next
    fix pre suf :: bytes and f
    assume "length (concat es) + length suf < f"
    from readItems_reads [OF rd this refl, of pre]
    show "readContent (readValue f (pre @ concat es @ suf)) (pre @ concat es @ suf) 4 (length vs) (length pre)
        = Inr (CArray (map canonical vs), length pre + length (concat es))"
      using assms(2) by (simp add: readContent_def readArray_def len)
  qed simp
  then show ?thesis
    using encodeItems_encodes [OF assms(1)] by (simp add: encodes_def)
qed

lemma sorted_encodedKeys:
  assumes "distinct (map fst es)" "\<forall>k \<in> fst ` set es. decodableText k"
  shows "sorted_wrt (<) (map (encodedKey \<circ> fst) (sort_key (encodedKey \<circ> fst) es))"
proof -
  have "inj_on encodedKey (fst ` set es)"
    using assms(2) encodedKey_inject by (intro inj_onI) blast
  then have "distinct (map encodedKey (map fst es))"
    using assms(1) by (simp add: distinct_map comp_inj_on o_assoc del: map_map)
  then have "distinct (map (encodedKey \<circ> fst) (sort_key (encodedKey \<circ> fst) es))"
    by (simp add: distinct_map distinct_map_filter)
  then show ?thesis
    by (simp add: strict_sorted_iff)
qed

lemma encodes_map:
  assumes enc: "\<forall>(k, v) \<in> set es. decodableText k \<and> encodes v (E v)"
    and dist: "distinct (map fst es)" and len: "length es \<le> maxCborCollectionEntries"
  defines "xs \<equiv> map (\<lambda>(k, v). (k, E v)) (sort_key (encodedKey \<circ> fst) es)"
  shows "encodes (CMap es) (encodeHeader 5 (length es) @ entryBytes xs)"
proof -
  let ?vs = "map (\<lambda>(k, v). (k, canonical v)) (sort_key (encodedKey \<circ> fst) es)"
  have entries: "encodeEntries [] es = Inr (map (\<lambda>(k, v). (encodedKey k, E v)) es)"
    using enc dist by (intro encodeEntries_encodes) auto
  have sorted: "sortEncoded (map (\<lambda>(k, v). (encodedKey k, E v)) es)
      = map (\<lambda>(k, v). (encodedKey k, E v)) (sort_key (encodedKey \<circ> fst) es)"
    by (simp add: sortEncoded_sort_key sort_key_map o_def case_prod_beta)
  have "concat (concat (map (\<lambda>(k, v). [k, v]) (map (\<lambda>(k, v). (encodedKey k, E v)) ys)))
      = entryBytes (map (\<lambda>(k, v). (k, E v)) ys)" for ys
    by (induction ys) (auto simp: entryBytes_def)
  with entries sorted len
  have e: "encodeDeterministicCbor (CMap es) = Inr (encodeHeader 5 (length es) @ entryBytes xs)"
    by (simp add: xs_def)
  have "reads (encodeHeader 5 (length es) @ entryBytes xs) (CMap ?vs)"
  proof (rule reads_header)
    show "int (length es) \<le> maxSafeInteger"
      using len by (simp add: maxCborCollectionEntries_def maxSafeInteger_def)
  next
    fix pre suf :: bytes and f
    assume f: "length (entryBytes xs) + length suf < f"
    have "readEntries (readValue f (pre @ entryBytes xs @ suf)) (pre @ entryBytes xs @ suf) (length xs) [] None
        (length pre) = Inr (?vs, length pre + length (entryBytes xs))"
    proof (rule readEntries_reads [OF _ _ _ f refl])
      show "\<forall>(k, e) \<in> set xs. decodableText k" using enc by (auto simp: xs_def)
      show "list_all2 (\<lambda>(k, e) (k', v). k' = k \<and> reads e v) xs ?vs"
        using enc by (auto simp: xs_def list_all2_map1 list_all2_map2 encodes_def intro!: list.rel_refl_strong)
      have "map (encodedKey \<circ> fst) xs = map (encodedKey \<circ> fst) (sort_key (encodedKey \<circ> fst) es)"
        by (auto simp: xs_def)
      then show "sorted_wrt (<) (map (encodedKey \<circ> fst) xs)"
        using sorted_encodedKeys [OF dist] enc by fastforce
    qed simp_all
    then show "readContent (readValue f (pre @ entryBytes xs @ suf)) (pre @ entryBytes xs @ suf) 5 (length es)
        (length pre) = Inr (CMap ?vs, length pre + length (entryBytes xs))"
      using len by (simp add: readContent_def readMap_def xs_def)
  qed simp
  with e show ?thesis by (simp only: encodes_def canonical_CMap)
qed

lemma wfCbor_canonical: "wfCbor v \<Longrightarrow> wfCbor (canonical v)"
proof (induction v)
  case (CMap es)
  have "map fst (map (\<lambda>(k, v). (k, canonical v)) es) = map fst es"
    by (simp add: o_def case_prod_beta)
  with CMap show ?case
    by (fastforce simp: canonical_CMap o_def case_prod_beta distinct_map simp del: canonical.simps(2))
qed auto

abbreviation encoded :: "cbor \<Rightarrow> bytes" where
  "encoded v \<equiv> projr (encodeDeterministicCbor v)"

text \<open>
  A value and its canonical form have one encoding, and reading it gives the canonical form. Both
  are carried through one induction because the entries of a map are sorted at every level.
\<close>

lemma encodes_wf: "wfCbor v \<Longrightarrow> encodes v (encoded v) \<and> encodes (canonical v) (encoded v)"
proof (induction v)
  case (CBool b)
  show ?case using reads_bool [of b] by (auto simp: encodes_def)
next
  case (CNum n)
  then show ?case using reads_num [of n]
    by (auto simp: encodes_def encodeUnsigned_def isSafeInteger_def)
next
  case (CText s)
  then show ?case using reads_text [of s] by (auto simp: encodes_def encodedKey_def)
next
  case (CBytes b)
  then show ?case using reads_bytes [of b] by (auto simp: encodes_def)
next
  case (CArray vs)
  then have "list_all2 encodes vs (map encoded vs)" "list_all2 encodes (map canonical vs) (map encoded vs)"
    by (auto simp: list_all2_map2 list_all2_map1 intro!: list.rel_refl_strong)
  from this [THEN encodes_array] CArray.prems show ?case
    by (simp add: encodes_def)
next
  case (CMap es)
  let ?sorted = "sort_key (encodedKey \<circ> fst) es"
  let ?cs = "map (\<lambda>(k, v). (k, canonical v)) ?sorted"
  have each: "\<forall>(k, v) \<in> set es. decodableText k \<and> encodes v (encoded v) \<and> encodes (canonical v) (encoded v)"
    using CMap by fastforce
  have same: "encoded (canonical v) = encoded v" if "(k, v) \<in> set es" for k v
    using each that by (auto simp: encodes_def)
  let ?e = "encodeHeader 5 (length es) @ entryBytes (map (\<lambda>(k, v). (k, encoded v)) ?sorted)"
  have one: "encodes (CMap es) ?e"
    using encodes_map [of es encoded] CMap.prems each by auto
  define cs where "cs = ?cs"
  have sorted: "sort_key (encodedKey \<circ> fst) cs = cs"
    unfolding cs_def by (rule sort_key_sorted) (simp add: o_def case_prod_beta)
  have bytes: "map (\<lambda>(k, v). (k, encoded v)) cs = map (\<lambda>(k, v). (k, encoded v)) ?sorted"
    using same by (auto simp: cs_def)
  have "\<forall>(k, v) \<in> set cs. decodableText k \<and> encodes v (encoded v)"
    using each same by (fastforce simp: cs_def)
  moreover have "wfCbor (CMap cs)"
    using wfCbor_canonical [OF CMap.prems] by (simp only: canonical_CMap cs_def)
  ultimately have "encodes (CMap cs) (encodeHeader 5 (length cs) @ entryBytes (map (\<lambda>(k, v). (k, encoded v)) cs))"
    using encodes_map [of cs encoded] by (simp add: sorted)
  then have "encodes (CMap ?cs) ?e"
    unfolding bytes by (simp add: cs_def)
  with one show ?case
    by (simp add: canonical_CMap encodes_def del: canonical.simps(2))
qed

lemma reads_decode:
  assumes "reads e v" "encodeDeterministicCbor v = Inr e" "length e \<le> maxBytes"
  shows "decodeDeterministicCbor e maxBytes = Inr v"
  using assms readsD [OF assms(1), of e "[]" "[]" 0 "Suc (length e)"]
  by (simp add: decodeDeterministicCbor_def reads_def del: readValue.simps)

lemma decode_encode_canonical:
  assumes "wfCbor v" "encodeDeterministicCbor v = Inr e" "length e \<le> maxBytes"
  shows "decodeDeterministicCbor e maxBytes = Inr (canonical v)"
  using encodes_wf [OF assms(1)] assms(2,3) by (intro reads_decode) (simp_all add: encodes_def)

lemma encode_wf_Inr: "wfCbor v \<Longrightarrow> encodeDeterministicCbor v = Inr (encoded v)"
  using encodes_wf by (simp add: encodes_def)

lemma encode_inject_canonical:
  assumes "wfCbor v" "wfCbor w"
  shows "encodeDeterministicCbor v = encodeDeterministicCbor w \<longleftrightarrow> canonical v = canonical w"
proof
  assume "encodeDeterministicCbor v = encodeDeterministicCbor w"
  with assms show "canonical v = canonical w"
    using decode_encode_canonical [OF assms(1), of "encoded v" "length (encoded v)"]
      decode_encode_canonical [OF assms(2), of "encoded v" "length (encoded v)"] encode_wf_Inr
    by simp
next
  assume "canonical v = canonical w"
  moreover have "encodeDeterministicCbor (canonical u) = encodeDeterministicCbor u" if "wfCbor u" for u
    using encodes_wf [OF that] by (simp add: encodes_def)
  ultimately show "encodeDeterministicCbor v = encodeDeterministicCbor w"
    using assms by metis
qed

lemma decode_reencodes: "decodeDeterministicCbor bs n = Inr v \<Longrightarrow> encodeDeterministicCbor v = Inr bs"
  by (auto simp: decodeDeterministicCbor_def res_simps simp del: readValue.simps split: if_splits)

lemma decode_size: "decodeDeterministicCbor bs n = Inr v \<Longrightarrow> 0 < length bs \<and> length bs \<le> n"
  by (auto simp: decodeDeterministicCbor_def split: if_splits)

section \<open>Reading the entries of a decoded map\<close>

definition canonicalEntries :: "cborMap \<Rightarrow> cborMap" where
  "canonicalEntries es = map (\<lambda>(k, v). (k, canonical v)) (sort_key (encodedKey \<circ> fst) es)"

lemma map_of_canonicalEntries [simp]:
  assumes "distinct (map fst es)"
  shows "map_of (canonicalEntries es) k = map_option canonical (map_of es k)"
proof -
  have "map_of (sort_key (encodedKey \<circ> fst) es) = map_of es"
    using assms by (intro map_of_inject_set [THEN iffD2]) (simp_all add: distinct_map)
  then show ?thesis
    by (simp add: canonicalEntries_def map_of_map)
qed

lemma getRequiredEntry_canonicalEntries:
  assumes "distinct (map fst es)"
  shows "getRequiredEntry (canonicalEntries es) k
    = (case map_of es k of None \<Rightarrow> Inl (CborError (lit ''missing_'' @ k)) | Some v \<Rightarrow> Inr (canonical v))"
  using assms by (simp add: getRequiredEntry_def split: option.splits)

lemma hasEntry_map_of: "hasEntry m k \<longleftrightarrow> map_of m k \<noteq> None"
  by (auto simp: hasEntry_def map_of_eq_None_iff)

lemma rejectUnknownEntries_Inr [res_simps]:
  "rejectUnknownEntries m keys = Inr u \<longleftrightarrow> fst ` set m \<subseteq> set keys"
  by (induction m keys rule: rejectUnknownEntries.induct) auto

lemma fst_canonicalEntries [simp]: "fst ` set (canonicalEntries es) = fst ` set es"
  by (force simp: canonicalEntries_def)

lemma decode_encode_map:
  assumes "wfCbor (CMap es)" "encodeDeterministicCbor (CMap es) = Inr e" "length e \<le> n"
  shows "decodeDeterministicCbor e n = Inr (CMap (canonicalEntries es))"
  using decode_encode_canonical [OF assms]
  by (simp add: canonical_CMap canonicalEntries_def del: canonical.simps(2))

end
