(* ===== verification/Cbor_Fields.thy ===== *)
theory Cbor_Fields
  imports Cbor_Roundtrip
begin

text \<open>
  What the message codecs share. Every message of the application layer is one CBOR map with a
  fixed set of text keys and scalar values; the lemmas here turn the round trip of whole CBOR
  values into facts about such maps: what a decoder finds under a key, that a map is determined by
  what it holds under its keys, and how long its encoding is. The locale \<open>codec\<close> is the
  contract of a message codec; every codec of the development is an interpretation of it.
\<close>

section \<open>Flat maps\<close>

fun scalar :: "cbor \<Rightarrow> bool" where
  "scalar (CArray vs) = (\<forall>v \<in> set vs. case v of CArray _ \<Rightarrow> False | CMap _ \<Rightarrow> False | _ \<Rightarrow> True)"
| "scalar (CMap es) = False"
| "scalar v = True"

lemma canonical_scalar [simp]: "scalar v \<Longrightarrow> canonical v = v"
proof (cases v)
  case (CArray vs)
  moreover assume "scalar v"
  moreover have "canonical w = w" if "case w of CArray _ \<Rightarrow> False | CMap _ \<Rightarrow> False | _ \<Rightarrow> True" for w
    using that by (cases w) auto
  ultimately show ?thesis by (auto intro!: map_idI)
qed auto

lemma map_of_flat:
  assumes "distinct (map fst es)" "\<forall>v \<in> snd ` set es. scalar v"
  shows "map_of (canonicalEntries es) = map_of es"
proof
  fix k
  have "map_option canonical (map_of es k) = map_of es k"
    using assms(2) by (cases "map_of es k") (force dest: map_of_SomeD)+
  then show "map_of (canonicalEntries es) k = map_of es k"
    using assms(1) by simp
qed

lemma getRequiredEntry_Inr [res_simps]: "getRequiredEntry m k = Inr v \<longleftrightarrow> map_of m k = Some v"
  by (auto simp: getRequiredEntry_def split: option.splits)

lemma getRequiredEntry_Some: "map_of m k = Some v \<Longrightarrow> getRequiredEntry m k = Inr v"
  by (simp add: getRequiredEntry_def)

lemma readCborMap_Inr [res_simps]: "readCborMap v l = Inr m \<longleftrightarrow> v = CMap m"
  by (auto simp: readCborMap_def split: cbor.splits)

lemma readText_Inr [res_simps]:
  "readText v k = Inr s \<longleftrightarrow> v = CText s \<and> s \<noteq> [] \<and> length (textEncode s) \<le> maxCborTextBytes"
  by (auto simp: readText_def invalidEntry_def split: cbor.splits)

lemma readUint_Inr [res_simps]: "readUint v k = Inr n \<longleftrightarrow> v = CNum n \<and> 0 \<le> n \<and> n \<le> maxSafeInteger"
  by (auto simp: readUint_def invalidEntry_def isSafeInteger_def split: cbor.splits)

lemma readBoolean_Inr [res_simps]: "readBoolean v k = Inr b \<longleftrightarrow> v = CBool b"
  by (auto simp: readBoolean_def invalidEntry_def split: cbor.splits)

lemma readBytes_Inr [res_simps]:
  "readBytes v k sz = Inr b \<longleftrightarrow>
     v = CBytes b \<and> b \<noteq> [] \<and> length b \<le> maxCborBytes \<and> (case sz of None \<Rightarrow> True | Some n \<Rightarrow> length b = n)"
  by (auto simp: readBytes_def invalidEntry_def split: cbor.splits option.splits)

section \<open>A map is determined by its entries\<close>

lemma encodeEntries_Inr:
  "encodeEntries seen es = Inr xs \<longleftrightarrow>
     distinct (map fst es) \<and> set seen \<inter> fst ` set es = {} \<and>
     (\<forall>(k, v) \<in> set es. succeeds (encodeDeterministicCbor v)) \<and>
     xs = map (\<lambda>(k, v). (encodedKey k, encoded v)) es"
proof (induction es arbitrary: seen xs)
  case (Cons x es)
  obtain k v where x: "x = (k, v)" by (cases x)
  show ?case
    by (cases "encodeDeterministicCbor v") (auto simp: x res_simps Cons encodedKey_def)
qed auto

lemma encode_CMap_Inr:
  "encodeDeterministicCbor (CMap es) = Inr e \<longleftrightarrow>
     length es \<le> maxCborCollectionEntries \<and> distinct (map fst es) \<and>
     (\<forall>(k, v) \<in> set es. succeeds (encodeDeterministicCbor v)) \<and>
     e = encodeHeader 5 (length es)
           @ entryBytes (map (\<lambda>(k, v). (k, encoded v)) (sort_key (encodedKey \<circ> fst) es))"
proof -
  have sorted: "sortEncoded (map (\<lambda>(k, v). (encodedKey k, encoded v)) es)
      = map (\<lambda>(k, v). (encodedKey k, encoded v)) (sort_key (encodedKey \<circ> fst) es)"
    by (simp add: sortEncoded_sort_key sort_key_map o_def case_prod_beta)
  have "concat (concat (map (\<lambda>(k, v). [k, v]) (map (\<lambda>(k, v). (encodedKey k, encoded v)) ys)))
      = entryBytes (map (\<lambda>(k, v). (k, encoded v)) ys)" for ys
    by (induction ys) (auto simp: entryBytes_def)
  with sorted show ?thesis
    by (auto simp: res_simps encodeEntries_Inr)
qed

lemma sort_key_unique:
  assumes "set xs = set ys" "distinct xs" "distinct ys" "inj_on f (set xs)"
  shows "sort_key f xs = sort_key f ys"
proof -
  have "map f (sort_key f xs) = map f (sort_key f ys)"
    using assms by (intro sorted_distinct_set_unique) (auto simp: distinct_map)
  then show ?thesis
    using assms by (auto intro: map_inj_on)
qed

lemma encode_CMap_entries:
  assumes "encodeDeterministicCbor (CMap es) = Inr e" "set es = set es'" "distinct (map fst es')"
    and "\<forall>k \<in> fst ` set es. decodableText k"
  shows "encodeDeterministicCbor (CMap es') = Inr e"
proof -
  have d: "distinct (map fst es)" "distinct es" "distinct es'"
    using assms(1,3) encode_CMap_Inr [of es e] by (auto simp: distinct_map)
  have "inj_on (encodedKey \<circ> fst) (set es)"
    using assms(4) d(1) encodedKey_inject
    by (intro comp_inj_on) (auto simp: distinct_map intro!: inj_onI)
  then have "sort_key (encodedKey \<circ> fst) es = sort_key (encodedKey \<circ> fst) es'"
    using d assms(2) by (intro sort_key_unique) simp_all
  moreover have "length es = length es'"
    using d assms(2) by (metis distinct_card)
  ultimately show ?thesis
    using assms(1,2,3) unfolding encode_CMap_Inr by simp
qed

lemma decode_CMap_entries:
  assumes "decodeDeterministicCbor e n = Inr (CMap m)"
    and "distinct (map fst es)" "\<forall>k \<in> fst ` set m. decodableText k"
    and "\<forall>k \<in> fst ` set m \<union> fst ` set es. map_of m k = map_of es k"
  shows "encodeDeterministicCbor (CMap es) = Inr e"
proof (rule encode_CMap_entries)
  show enc: "encodeDeterministicCbor (CMap m) = Inr e"
    using assms(1) by (rule decode_reencodes)
  then have d: "distinct (map fst m)" unfolding encode_CMap_Inr by simp
  have "map_of m k = map_of es k" for k
    using assms(4) by (cases "k \<in> fst ` set m \<union> fst ` set es") (auto simp: map_of_eq_None_iff [THEN iffD2])
  then show "set m = set es"
    using map_of_inject_set [OF d assms(2)] by blast
qed (use assms in auto)

section \<open>The length of an encoding\<close>

fun cborBound :: "cbor \<Rightarrow> nat" where
  "cborBound (CBool b) = 1"
| "cborBound (CNum n) = 9"
| "cborBound (CText s) = 9 + length (textEncode s)"
| "cborBound (CBytes b) = 9 + length b"
| "cborBound (CArray vs) = 9 + sum_list (map cborBound vs)"
| "cborBound (CMap es) = 9 + sum_list (map (\<lambda>(k, v). 9 + length (textEncode k) + cborBound v) es)"

lemma length_encodeHeader: "length (encodeHeader major n) \<le> 9"
  by (simp add: encodeHeader_def)

lemma length_encodeHeader_mono: "m \<le> n \<Longrightarrow> length (encodeHeader major m) \<le> length (encodeHeader major n)"
  by (simp add: encodeHeader_def)

lemma length_encodedKey: "length (encodedKey k) \<le> 9 + length (textEncode k)"
  using length_encodeHeader by (simp add: encodedKey_def encodeBytes_def)

lemma encodeItems_Inr:
  "encodeItems vs = Inr es \<longleftrightarrow> (\<forall>v \<in> set vs. succeeds (encodeDeterministicCbor v)) \<and> es = map encoded vs"
proof (induction vs arbitrary: es)
  case (Cons v vs)
  show ?case by (cases "encodeDeterministicCbor v") (auto simp: res_simps Cons)
qed auto

lemma sum_list_sort_key: "sum_list (map g (sort_key f xs)) = (sum_list (map g xs) :: nat)"
proof -
  have "sum_list (map g (insort_key f x ys)) = g x + sum_list (map g ys)" for x ys
    by (induction ys) auto
  then show ?thesis by (induction xs) auto
qed

lemma length_encode: "encodeDeterministicCbor v = Inr e \<Longrightarrow> length e \<le> cborBound v"
proof (induction v arbitrary: e)
  case (CNum n)
  then show ?case using length_encodeHeader by (auto simp: encodeUnsigned_def split: if_splits)
next
  case (CText s)
  then show ?case using length_encodeHeader by (auto simp: encodeBytes_def)
next
  case (CBytes b)
  then show ?case using length_encodeHeader by (auto simp: encodeBytes_def)
next
  case (CArray vs)
  have "sum_list (map (\<lambda>v. length (encoded v)) vs) \<le> sum_list (map cborBound vs)"
    using CArray by (intro sum_list_mono) (auto simp: res_simps encodeItems_Inr succeeds_iff)
  with CArray.prems length_encodeHeader [of 4 "length vs"] show ?case
    by (auto simp: res_simps encodeItems_Inr length_concat o_def)
next
  case (CMap es)
  have "sum_list (map (\<lambda>(k, v). length (encodedKey k) + length (encoded v)) es)
      \<le> sum_list (map (\<lambda>(k, v). 9 + length (textEncode k) + cborBound v) es)"
  proof (intro sum_list_mono)
    fix x assume x: "x \<in> set es"
    obtain k v where kv: "x = (k, v)" by (cases x)
    have "succeeds (encodeDeterministicCbor v)"
      using CMap.prems x kv unfolding encode_CMap_Inr by auto
    then have "length (encoded v) \<le> cborBound v"
      using CMap.IH [of x v] x kv by (auto simp: succeeds_iff)
    then show "(case x of (k, v) \<Rightarrow> length (encodedKey k) + length (encoded v))
        \<le> (case x of (k, v) \<Rightarrow> 9 + length (textEncode k) + cborBound v)"
      using length_encodedKey [of k] kv by simp
  qed
  moreover have "length (entryBytes (map (\<lambda>(k, v). (k, encoded v)) (sort_key (encodedKey \<circ> fst) es)))
      = sum_list (map (\<lambda>(k, v). length (encodedKey k) + length (encoded v)) es)"
    by (simp add: entryBytes_def length_concat o_def case_prod_unfold sum_list_sort_key)
  ultimately show ?case
    using CMap.prems length_encodeHeader [of 5 "length es"] unfolding encode_CMap_Inr by auto
qed simp

section \<open>Every decoded value is well formed\<close>

text \<open>
  The encoder never writes more bytes than the decoder consumed for a value, and writes as many
  only if no text lost a byte order mark. The decoder compares the two, so what it returns
  satisfies \<open>wfCbor\<close> and has its maps in canonical order.
\<close>

definition tight :: "nat \<Rightarrow> nat \<Rightarrow> cbor \<Rightarrow> bool" where
  "tight off off' v \<longleftrightarrow> succeeds (encodeDeterministicCbor v) \<and> off + length (encoded v) \<le> off'
     \<and> (off + length (encoded v) = off' \<longrightarrow> wfCbor v)"

lemma readBigEndian_bound:
  "readBigEndian k bs v off = Inr (w, off') \<Longrightarrow> w < (v + 1) * 256 ^ k"
proof (induction k arbitrary: v off)
  case (Suc k)
  from Suc.prems obtain b :: byte and o1 where "readBigEndian k bs (v * 256 + unat b) o1 = Inr (w, off')"
    by (auto simp: res_simps)
  then have "w < (v * 256 + unat b + 1) * 256 ^ k" by (rule Suc.IH)
  also have "\<dots> \<le> ((v + 1) * 256) * 256 ^ k"
    using unat_byte_less [of b] by (intro mult_right_mono) (simp_all del: unat_byte_less)
  finally show ?case by (simp add: algebra_simps)
qed simp

lemma readBigEndian_Inr:
  "readBigEndian k bs v off = Inr (w, off') \<Longrightarrow> off' = off + k \<and> w < (v + 1) * 256 ^ k"
  using readBigEndian_bound readBigEndian_progress by blast

lemma readArgument_header:
  assumes "readArgument bs a off = Inr (n, off')"
  shows "off + length (encodeHeader major n) \<le> Suc off' \<and> int n \<le> maxSafeInteger"
  using assms
  by (auto simp: readArgument_def encodeHeader_def res_simps maxSafeInteger_def
      simp del: readBigEndian.simps split: if_splits
      dest!: readBigEndian_Inr)

lemma textDecode_tight:
  assumes "textDecode bs = Some s"
  shows "length (textEncode s) \<le> length bs \<and>
    (length (textEncode s) = length bs \<longrightarrow> wellFormed s \<and> \<not> startsWithBOM s)"
proof -
  have s: "wellFormed s" "textEncode s = stripBOM bs"
    using textDecode_inverse [OF assms] by auto
  then have "textDecode (textEncode s) = Some s" if "length (textEncode s) = length bs"
    using that assms by (auto simp: stripBOM_def byteOrderMark_def split: if_splits)
  with s show ?thesis
    by (auto simp: textDecode_textEncode_iff stripBOM_def byteOrderMark_def)
qed

lemma readItems_tight:
  assumes "\<And>off v off'. rd off = Inr (v, off') \<Longrightarrow> tight off off' v"
  shows "readItems rd k off = Inr (vs, off') \<Longrightarrow>
    length vs = k \<and> (\<forall>v \<in> set vs. succeeds (encodeDeterministicCbor v)) \<and>
    off + sum_list (map (length \<circ> encoded) vs) \<le> off' \<and>
    (off + sum_list (map (length \<circ> encoded) vs) = off' \<longrightarrow> (\<forall>v \<in> set vs. wfCbor v))"
proof (induction k arbitrary: off vs)
  case (Suc k)
  then obtain v o1 ws where r: "rd off = Inr (v, o1)" "readItems rd k o1 = Inr (ws, off')" "vs = v # ws"
    by (auto simp: res_simps)
  from assms [OF r(1)] Suc.IH [OF r(2)] r(3) show ?case
    by (auto simp: tight_def)
qed simp

lemma readEntries_tight:
  assumes "\<And>off v off'. rd off = Inr (v, off') \<Longrightarrow> tight off off' v"
  shows "readEntries rd bs k seen prev off = Inr (es, off') \<Longrightarrow>
    length es = k \<and> distinct (map fst es) \<and> set seen \<inter> fst ` set es = {} \<and>
    (\<forall>(k, v) \<in> set es. succeeds (encodeDeterministicCbor v)) \<and>
    off + sum_list (map (\<lambda>(k, v). length (encodedKey k) + length (encoded v)) es) \<le> off' \<and>
    (off + sum_list (map (\<lambda>(k, v). length (encodedKey k) + length (encoded v)) es) = off'
      \<longrightarrow> (\<forall>(k, v) \<in> set es. decodableText k \<and> wfCbor v))"
proof (induction k arbitrary: off es seen prev)
  case (Suc k)
  then obtain s o1 v o2 es' where r: "rd off = Inr (CText s, o1)" "s \<notin> set seen" "rd o1 = Inr (v, o2)"
    "readEntries rd bs k (s # seen) (Some (sliceBytes bs off o1)) o2 = Inr (es', off')" "es = (s, v) # es'"
    unfolding readEntries_Suc_Inr by blast
  from assms [OF r(1)] assms [OF r(3)] Suc.IH [OF r(4)] r(2,5) show ?case
    by (auto simp: tight_def encodedKey_def)
qed simp

lemma length_encoded_map:
  assumes "succeeds (encodeDeterministicCbor (CMap es))"
  shows "length (encoded (CMap es)) = length (encodeHeader 5 (length es))
       + sum_list (map (\<lambda>(k, v). length (encodedKey k) + length (encoded v)) es)"
proof -
  obtain e where "encodeDeterministicCbor (CMap es) = Inr e" using assms by (auto simp: succeeds_iff)
  moreover from this have "e = encodeHeader 5 (length es)
      @ entryBytes (map (\<lambda>(k, v). (k, encoded v)) (sort_key (encodedKey \<circ> fst) es))"
    unfolding encode_CMap_Inr by simp
  ultimately show ?thesis
    by (simp add: entryBytes_def length_concat o_def case_prod_unfold sum_list_sort_key)
qed

lemma length_encoded_array:
  assumes "\<forall>v \<in> set vs. succeeds (encodeDeterministicCbor v)"
  shows "length (encoded (CArray vs)) = length (encodeHeader 4 (length vs)) + sum_list (map (length \<circ> encoded) vs)"
proof -
  have "encodeItems vs = Inr (map encoded vs)" using assms by (simp add: encodeItems_Inr)
  then show ?thesis by (simp add: length_concat)
qed

lemma readContent_tight:
  assumes "\<And>off v off'. rd off = Inr (v, off') \<Longrightarrow> tight off off' v" "int n \<le> maxSafeInteger"
    and rd: "readContent rd bs major n off = Inr (v, off')" and h: "off0 + length (encodeHeader major n) \<le> off"
  shows "tight off0 off' v"
proof -
  consider (Num) "major = 0" "v = CNum (int n)" "off' = off"
    | (Bytes) b where "major = 2" "readByteString bs n off = Inr (b, off')" "v = CBytes b"
    | (Text) s where "major = 3" "readTextString bs n off = Inr (s, off')" "v = CText s"
    | (Array) vs where "major = 4" "readArray rd n off = Inr (vs, off')" "v = CArray vs"
    | (Map) es where "major = 5" "readMap rd bs n off = Inr (es, off')" "v = CMap es"
    using rd by (auto simp: readContent_def res_simps split: if_splits)
  then show ?thesis
  proof cases
    case Num
    with assms(2) h show ?thesis
      by (simp add: tight_def encodeUnsigned_def isSafeInteger_def)
  next
    case Bytes
    with h show ?thesis
      by (auto simp: tight_def readByteString_def sliceBytes_def encodeBytes_def split: if_splits)
  next
    case Text
    then have s: "textDecode (sliceBytes bs off (off + n)) = Some s" "off' = off + n" "off + n \<le> length bs"
      "n \<le> maxCborTextBytes"
      by (auto simp: readTextString_def split: if_splits option.splits)
    then have len: "length (sliceBytes bs off (off + n)) = n" by (simp add: sliceBytes_def)
    from textDecode_tight [OF s(1)]
    have t: "length (textEncode s) \<le> n" "length (textEncode s) = n \<longrightarrow> wellFormed s \<and> \<not> startsWithBOM s"
      unfolding len by auto
    from Text h s(2-) t length_encodeHeader_mono [OF t(1), of 3] show ?thesis
      by (simp add: tight_def encodeBytes_def decodableText_def)
  next
    case Array
    from Array have r: "n \<le> maxCborCollectionEntries" "readItems rd n off = Inr (vs, off')"
      by (auto simp: readArray_def split: if_splits)
    note t = readItems_tight [OF assms(1) r(2)]
    then have each: "\<forall>v \<in> set vs. succeeds (encodeDeterministicCbor v)" by simp
    then have ok: "succeeds (encodeDeterministicCbor (CArray vs))"
      using encodeItems_Inr by (simp add: succeeds_iff res_simps)
    show ?thesis
      using t h length_encoded_array [OF each] ok r(1) Array(1,3) by (simp add: tight_def del: encodeDeterministicCbor.simps)
  next
    case Map
    from Map have r: "n \<le> maxCborCollectionEntries" "readEntries rd bs n [] None off = Inr (es, off')"
      by (auto simp: readMap_def split: if_splits)
    note t = readEntries_tight [OF assms(1) r(2)]
    then have ok: "succeeds (encodeDeterministicCbor (CMap es))"
      using r(1) unfolding succeeds_iff encode_CMap_Inr by auto
    show ?thesis
      using t h length_encoded_map [OF ok] ok r(1) Map(1,3) by (simp add: tight_def del: encodeDeterministicCbor.simps)
  qed
qed

lemma readValue_tight: "readValue f bs off = Inr (v, off') \<Longrightarrow> tight off off' v"
proof (induction f arbitrary: off v off')
  case (Suc f)
  from Suc.prems obtain b o1 where b: "readByte bs off = Inr (b, o1)"
    and rest: "(\<exists>c. v = CBool c \<and> off' = o1) \<or> (\<exists>n o2. readArgument bs (unat b mod 32) o1 = Inr (n, o2)
        \<and> readContent (readValue f bs) bs (unat b div 32) n o2 = Inr (v, off'))"
    by (auto simp: res_simps Let_def split: if_splits)
  from b have o1: "o1 = Suc off" by (auto dest: readByte_progress)
  from rest show ?case
  proof (elim disjE exE conjE)
    fix n o2
    assume arg: "readArgument bs (unat b mod 32) o1 = Inr (n, o2)"
      and "readContent (readValue f bs) bs (unat b div 32) n o2 = Inr (v, off')"
    moreover have "int n \<le> maxSafeInteger" "off + length (encodeHeader (unat b div 32) n) \<le> o2"
      using readArgument_header [OF arg, of "unat b div 32"] o1 by simp_all
    ultimately show ?case
      using readContent_tight [OF Suc.IH] by blast
  qed (simp add: o1 tight_def)
qed simp

lemma decode_wf:
  assumes "decodeDeterministicCbor bs n = Inr v"
  shows "wfCbor v \<and> canonical v = v"
proof -
  have enc: "encodeDeterministicCbor v = Inr bs" using assms by (rule decode_reencodes)
  from assms have "readValue (Suc (length bs)) bs 0 = Inr (v, length bs)"
    by (auto simp: decodeDeterministicCbor_def res_simps simp del: readValue.simps split: if_splits)
  from readValue_tight [OF this] enc have wf: "wfCbor v"
    by (simp add: tight_def)
  from decode_encode_canonical [OF wf enc, of n] decode_size [OF assms] assms wf show ?thesis
    by simp
qed

section \<open>Tokens, texts and times\<close>

text \<open>Identifiers are fixed-size byte strings written in base64url; \<open>goodToken\<close> is the canonical spelling.\<close>

definition goodToken :: "js_string \<Rightarrow> nat \<Rightarrow> bool" where
  "goodToken s n \<longleftrightarrow>
     canonicalBase64URL s \<and> (case decodeBase64URL s of Inl _ \<Rightarrow> False | Inr bs \<Rightarrow> length bs = n)"

definition goodText :: "js_string \<Rightarrow> nat \<Rightarrow> bool" where
  "goodText s n \<longleftrightarrow> s \<noteq> [] \<and> wellFormed s \<and> \<not> startsWithBOM s \<and> length (textEncode s) \<le> n"

definition goodTime :: "int \<Rightarrow> bool" where
  "goodTime n \<longleftrightarrow> 0 \<le> n \<and> n \<le> maxSafeInteger"

lemma goodTokenE:
  assumes "goodToken s n"
  obtains bs where "s = encodeBase64URL bs" "decodeBase64URL s = Inr bs" "length bs = n" "bs \<noteq> []"
proof -
  from assms obtain bs where bs: "decodeBase64URL s = Inr bs" "length bs = n" "canonicalBase64URL s"
    by (auto simp: goodToken_def split: sum.splits)
  with that [of bs] decodeBase64URL_nonempty encode_decodeBase64URL show thesis by metis
qed

lemma goodToken_encode [simp]: "goodToken (encodeBase64URL bs) n \<longleftrightarrow> bs \<noteq> [] \<and> length bs = n"
proof (cases "bs = []")
  case True
  then have "encodeBase64URL bs = []" using length_encodeBase64URL [of bs] by simp
  then show ?thesis using True by (simp add: goodToken_def canonicalBase64URL_def validBase64URL_def)
next
  case False
  then show ?thesis
    by (simp add: goodToken_def decode_encodeBase64URL canonicalBase64URL_encode)
qed

definition tokenBytes :: "js_string \<Rightarrow> bytes" where
  "tokenBytes s = (case decodeBase64URL s of Inl _ \<Rightarrow> [] | Inr bs \<Rightarrow> bs)"

lemma tokenBytes_encode [simp]: "tokenBytes (encodeBase64URL bs) = bs"
proof (cases "bs = []")
  case True
  then have "encodeBase64URL bs = []" using length_encodeBase64URL [of bs] by simp
  then show ?thesis using True by (simp add: tokenBytes_def decodeBase64URL_def validBase64URL_def)
qed (simp add: tokenBytes_def decode_encodeBase64URL)

lemma goodToken_facts:
  assumes "goodToken s n"
  shows "decodeBase64URL s = Inr (tokenBytes s)" "encodeBase64URL (tokenBytes s) = s"
    "length (tokenBytes s) = n" "tokenBytes s \<noteq> []"
  using goodTokenE [OF assms] by (metis tokenBytes_encode)+

lemma goodToken_inject: "goodToken s n \<Longrightarrow> goodToken t n \<Longrightarrow> tokenBytes s = tokenBytes t \<longleftrightarrow> s = t"
  by (metis goodToken_facts(2))

lemma decodableText_lit [simp]: "asciiString s \<Longrightarrow> length s \<le> 1024 \<Longrightarrow> decodableText (lit s)"
  by (simp add: decodableText_def wellFormed_lit startsWithBOM_lit textEncode_lit maxCborTextBytes_def)

lemma length_textEncode_lit [simp]: "asciiString s \<Longrightarrow> length (textEncode (lit s)) = length s"
  by (simp add: textEncode_lit)

lemma goodText_lit: "asciiString s \<Longrightarrow> s \<noteq> [] \<Longrightarrow> length s \<le> n \<Longrightarrow> goodText (lit s) n"
  by (simp add: goodText_def wellFormed_lit startsWithBOM_lit)

lemma goodText_decodable: "goodText s n \<Longrightarrow> n \<le> 1024 \<Longrightarrow> decodableText s"
  by (simp add: goodText_def decodableText_def maxCborTextBytes_def)

lemma decodable_goodText: "decodableText s \<Longrightarrow> s \<noteq> [] \<Longrightarrow> length (textEncode s) \<le> n \<Longrightarrow> goodText s n"
  by (simp add: goodText_def decodableText_def)

lemma length_encoded_bound: "wfCbor v \<Longrightarrow> cborBound v \<le> n \<Longrightarrow> length (encoded v) \<le> n"
  using length_encode [OF encode_wf_Inr, of v] by simp

lemma flat_roundtrip:
  assumes "wfCbor (CMap es)" "\<forall>v \<in> snd ` set es. scalar v" "length (encoded (CMap es)) \<le> n"
  obtains e m where "encodeDeterministicCbor (CMap es) = Inr e" "e \<noteq> []" "length e \<le> n"
    "decodeDeterministicCbor e n = Inr (CMap m)" "map_of m = map_of es" "fst ` set m = fst ` set es"
proof -
  let ?e = "encoded (CMap es)"
  have e: "encodeDeterministicCbor (CMap es) = Inr ?e" using encode_wf_Inr [OF assms(1)] .
  note le = assms(3)
  have d: "decodeDeterministicCbor ?e n = Inr (CMap (canonicalEntries es))"
    by (rule decode_encode_map [OF assms(1) e le])
  have "distinct (map fst es)" using assms(1) by simp
  from that [OF e _ le d map_of_flat [OF this assms(2)]] decode_size [OF d] show thesis by auto
qed

lemma decoded_entry:
  assumes "decodeDeterministicCbor e n = Inr (CMap m)" "map_of m k = Some v"
  shows "wfCbor v \<and> decodableText k"
  using decode_wf [OF assms(1)] map_of_SomeD [OF assms(2)] by auto

lemma decoded_keys:
  "decodeDeterministicCbor e n = Inr (CMap m) \<Longrightarrow> \<forall>k \<in> fst ` set m. decodableText k"
  using decode_wf [of e n "CMap m"] by force

section \<open>The contract of a codec\<close>

text \<open>
  \<open>valid\<close> is the set of messages a codec accepts in canonical form. The first law is that
  such a message encodes and its encoding decodes to it; the second that what the decoder accepts
  is the encoding of a valid message.
\<close>

locale codec =
  fixes encode :: "'m \<Rightarrow> bytes res" and decode :: "bytes \<Rightarrow> 'm res" and valid :: "'m \<Rightarrow> bool"
  assumes decode_encode: "valid m \<Longrightarrow> \<exists>e. encode m = Inr e \<and> decode e = Inr m"
    and encode_decode: "decode e = Inr m \<Longrightarrow> valid m \<and> encode m = Inr e"
begin

lemma decode_iff: "decode e = Inr m \<longleftrightarrow> valid m \<and> encode m = Inr e"
  using decode_encode encode_decode by fastforce

lemma encode_inject: "valid m \<Longrightarrow> valid m' \<Longrightarrow> encode m = encode m' \<Longrightarrow> m = m'"
  by (metis decode_encode sum.inject(2))

lemma decode_inject: "decode e = Inr m \<Longrightarrow> decode e' = Inr m \<Longrightarrow> e = e'"
  by (metis encode_decode sum.inject(2))

lemma valid_iff: "valid m \<longleftrightarrow> (\<exists>e. decode e = Inr m)"
  using decode_encode encode_decode by blast

end

text \<open>
  The codecs of flat maps. \<open>entries\<close> is the map a message is written as, \<open>names\<close> the keys
  the decoder knows and \<open>limit\<close> the size it accepts; the laws speak of one message and one
  decoded map each, and give the contract of \<open>codec\<close>.
\<close>

locale flat_codec =
  fixes encode :: "'m \<Rightarrow> bytes res" and decode :: "bytes \<Rightarrow> 'm res" and valid :: "'m \<Rightarrow> bool"
    and entries :: "'m \<Rightarrow> cborMap" and names :: "js_string list" and limit :: nat
  assumes encode_valid: "valid m \<Longrightarrow> encode m = encodeDeterministicCbor (CMap (entries m))"
    and entries_wf: "valid m \<Longrightarrow> wfCbor (CMap (entries m)) \<and> (\<forall>v \<in> snd ` set (entries m). scalar v)"
    and entries_size: "valid m \<Longrightarrow> length (encoded (CMap (entries m))) \<le> limit"
    and entries_names: "valid m \<Longrightarrow> fst ` set (entries m) \<subseteq> set names"
    and decode_valid: "valid m \<Longrightarrow> decodeDeterministicCbor e limit = Inr (CMap k) \<Longrightarrow>
      fst ` set k \<subseteq> set names \<Longrightarrow> map_of k = map_of (entries m) \<Longrightarrow> decode e = Inr m"
    and decode_sound: "decode e = Inr m \<Longrightarrow> valid m \<and> (\<exists>k. decodeDeterministicCbor e limit = Inr (CMap k)
      \<and> fst ` set k \<subseteq> set names \<and> (\<forall>key \<in> set names. map_of k key = map_of (entries m) key))"
begin

lemma flat_decode_encode: "valid m \<Longrightarrow> \<exists>e. encode m = Inr e \<and> decode e = Inr m"
proof -
  assume v: "valid m"
  obtain e k where "encodeDeterministicCbor (CMap (entries m)) = Inr e" "e \<noteq> []" "length e \<le> limit"
    "decodeDeterministicCbor e limit = Inr (CMap k)" "map_of k = map_of (entries m)"
    "fst ` set k = fst ` set (entries m)"
    using entries_wf [OF v] entries_size [OF v] by (blast intro: flat_roundtrip)
  with v show ?thesis
    using encode_valid decode_valid entries_names by (metis (no_types, lifting))
qed

lemma flat_encode_decode: "decode e = Inr m \<Longrightarrow> valid m \<and> encode m = Inr e"
proof -
  assume d: "decode e = Inr m"
  then obtain k where v: "valid m" and k: "decodeDeterministicCbor e limit = Inr (CMap k)"
    "fst ` set k \<subseteq> set names" "\<forall>key \<in> set names. map_of k key = map_of (entries m) key"
    using decode_sound by blast
  have "encodeDeterministicCbor (CMap (entries m)) = Inr e"
    using k entries_wf [OF v] entries_names [OF v]
    by (intro decode_CMap_entries [OF k(1) _ decoded_keys [OF k(1)]]) auto
  with v show ?thesis using encode_valid by simp
qed

end

sublocale flat_codec \<subseteq> codec
  by unfold_locales (use flat_decode_encode flat_encode_decode in blast)+

text \<open>Two flat maps with one encoding hold the same values under the same keys.\<close>

lemma encode_flat_inject:
  assumes "wfCbor (CMap es)" "\<forall>v \<in> snd ` set es. scalar v"
    and "wfCbor (CMap es')" "\<forall>v \<in> snd ` set es'. scalar v"
    and "encodeDeterministicCbor (CMap es) = encodeDeterministicCbor (CMap es')"
  shows "map_of es = map_of es'"
proof -
  have "canonical (CMap es) = canonical (CMap es')"
    using encode_inject_canonical [OF assms(1,3)] assms(5) by blast
  then have "canonicalEntries es = canonicalEntries es'"
    by (simp add: canonical_CMap canonicalEntries_def del: canonical.simps(2))
  then show ?thesis
    using map_of_flat [of es] map_of_flat [of es'] assms by simp
qed

interpretation deterministic_cbor: codec
  encodeDeterministicCbor "\<lambda>e. decodeDeterministicCbor e (length e)"
  "\<lambda>v. wfCbor v \<and> canonical v = v"
proof
  fix v assume "wfCbor v \<and> canonical v = v"
  then show "\<exists>e. encodeDeterministicCbor v = Inr e \<and> decodeDeterministicCbor e (length e) = Inr v"
    using encode_wf_Inr decode_encode_canonical by (metis order_refl)
next
  fix e v assume "decodeDeterministicCbor e (length e) = Inr v"
  then show "(wfCbor v \<and> canonical v = v) \<and> encodeDeterministicCbor v = Inr e"
    using decode_wf decode_reencodes by blast
qed

section \<open>Properties\<close>

lemma encodeDeterministicCbor_not_overflow:
  "encodeDeterministicCbor v \<noteq> Inl StackOverflow"
  "encodeItems vs \<noteq> Inl StackOverflow"
  "encodeEntries seen es \<noteq> Inl StackOverflow"
  by (induction v and vs and seen es rule: encodeDeterministicCbor_encodeItems_encodeEntries.induct)
    (auto simp: encodeUnsigned_def andThen_Inl split: if_splits)

lemma readValue_not_overflow: "length bs < f \<Longrightarrow> readValue f bs 0 \<noteq> Inl StackOverflow"
  using readValue_depth [of bs 0 f f] by simp





lemma readValue_text:
  assumes "length b \<le> maxCborTextBytes"
  shows "readValue (Suc d) (encodeBytes 3 b) 0
    = (case textDecode b of None \<Rightarrow> cborError ''invalid_cbor_text'' | Some s \<Rightarrow> Inr (CText s, length (encodeBytes 3 b)))"
proof -
  have "int (length b) \<le> maxSafeInteger" using assms by (simp add: maxCborTextBytes_def maxSafeInteger_def)
  then obtain i where "readByte (encodeBytes 3 b) 0 = Inr (i, Suc 0)" "unat i div 32 = 3"
    "readArgument (encodeBytes 3 b) (unat i mod 32) (Suc 0) = Inr (length b, length (encodeHeader 3 (length b)))"
    using read_encodeHeader [of 3 "length b" "[]" b] by (auto simp: encodeBytes_def)
  moreover have "sliceBytes (encodeBytes 3 b) (length (encodeHeader 3 (length b)))
      (length (encodeHeader 3 (length b)) + length b) = b"
    using slice_middle [of "encodeHeader 3 (length b)" b "[]"] by (simp add: encodeBytes_def)
  ultimately show ?thesis
    using assms by (simp add: readContent_def readTextString_def encodeBytes_def Let_def split: option.splits)
qed

text \<open>
  C18. A text within the size limit that starts with a byte order mark is encoded without complaint, but
  its encoding is refused under every limit: the platform's UTF-8 decoder drops the mark, so the
  decoder's own re-encoding check fails.
\<close>

theorem cbor_byte_order_mark_rejected:
  assumes "startsWithBOM s" "length (textEncode s) \<le> maxCborTextBytes"
  shows "\<exists>e. encodeDeterministicCbor (CText s) = Inr e \<and> (\<forall>n. \<not> succeeds (decodeDeterministicCbor e n))"
proof -
  define e where "e = encodeBytes 3 (textEncode s)"
  have "\<not> succeeds (decodeDeterministicCbor e n)" for n
  proof
    assume "succeeds (decodeDeterministicCbor e n)"
    then obtain v where v: "decodeDeterministicCbor e n = Inr v" by (auto simp: succeeds_iff)
    then obtain off where "readValue (Suc (length e)) e 0 = Inr (v, off)"
      by (auto simp: decodeDeterministicCbor_def res_simps simp del: readValue.simps split: if_splits)
    then obtain t where t: "v = CText t" "textDecode (textEncode s) = Some t"
      unfolding e_def readValue_text [OF assms(2)] by (auto split: option.splits)
    have "length (textEncode t) < length (textEncode s)"
      using textDecode_inverse [OF t(2)] textEncode_BOM [of s] assms(1)
      by (cases "textEncode s") (auto simp: stripBOM_def byteOrderMark_def)
    moreover from this have "length (encodeHeader 3 (length (textEncode t))) \<le> length (encodeHeader 3 (length (textEncode s)))"
      by (intro length_encodeHeader_mono) simp
    moreover have "encodeBytes 3 (textEncode t) = e" using decode_reencodes [OF v] t(1) by simp
    ultimately show False by (auto simp: e_def encodeBytes_def dest: arg_cong [where f = length])
  qed
  then show ?thesis by (simp add: e_def)
qed

theorem cbor_byte_order_mark_rejected_witness:
  "\<exists>e. encodeDeterministicCbor (CText [0xFEFF]) = Inr e \<and> (\<forall>n. \<not> succeeds (decodeDeterministicCbor e n))"
proof (rule cbor_byte_order_mark_rejected)
  show "startsWithBOM [0xFEFF]" by (simp add: startsWithBOM_def)
  show "length (textEncode [0xFEFF]) \<le> maxCborTextBytes"
    by (simp add: textEncode_Cons_BOM byteOrderMark_def maxCborTextBytes_def)
qed

end
