(* ===== verification/Attachment.thy ===== *)
theory Attachment
  imports Cbor_Fields
begin

text \<open>
  \<^verbatim>\<open>application-payload/attachment.ts\<close>: the manifest that offers a file, the decision that
  answers it and the chunks that carry it, with their validators, codecs and signing bytes.

  A JavaScript \<^verbatim>\<open>number\<close> field is an \<open>int\<close>: a fractional or infinite number never
  reaches the wire, because \<open>encodeUnsigned\<close> refuses it. \<^verbatim>\<open>sha256Base64URL\<close> calls the
  platform's SHA-256, which is the parameter \<open>digest\<close>. A version is a string because the
  validators test it at run time; the kind of a decision is the enumeration the source declares.
\<close>

section \<open>Data\<close>

definition attachmentVersion :: js_string where
  "attachmentVersion = lit ''branch.attachment/0.draft''"

definition attachmentSignatureDomain :: js_string where
  "attachmentSignatureDomain = lit ''branch.attachment.signature/0.draft''"

definition maxAttachmentChunkBytes :: nat where
  "maxAttachmentChunkBytes = 3072"

definition maxRelayAttachmentBytes :: int where
  "maxRelayAttachmentBytes = 4 * 1024 * 1024"

definition maxDirectAttachmentBytes :: int where
  "maxDirectAttachmentBytes = 16 * 1024 * 1024"

definition maxAttachmentTTLms :: int where
  "maxAttachmentTTLms = 15 * 60 * 1000"

definition maxAttachmentChunks :: int where
  "maxAttachmentChunks = 8192"

record AttachmentManifest =
  manifest_version :: js_string
  manifest_transferId :: js_string
  manifest_manifestId :: js_string
  manifest_issuedAt :: int
  manifest_expiresAt :: int
  manifest_fileName :: js_string
  manifest_mediaType :: js_string
  manifest_byteCount :: int
  manifest_chunkBytes :: int
  manifest_chunkCount :: int
  manifest_sha256 :: js_string
  manifest_signature :: bytes

record AttachmentChunk =
  chunk_version :: js_string
  chunk_transferId :: js_string
  chunk_manifestId :: js_string
  chunk_index :: int
  chunk_bytes :: bytes

datatype AttachmentDecisionKind = Accept | Reject | Cancel

record AttachmentDecision =
  decision_version :: js_string
  decision_kind :: AttachmentDecisionKind
  decision_transferId :: js_string
  decision_manifestId :: js_string
  decision_issuedAt :: int
  decision_expiresAt :: int
  decision_signature :: bytes

fun decisionKindText :: "AttachmentDecisionKind \<Rightarrow> js_string" where
  "decisionKindText Accept = lit ''accept''"
| "decisionKindText Reject = lit ''reject''"
| "decisionKindText Cancel = lit ''cancel''"

section \<open>Validators\<close>

definition ceilDiv :: "int \<Rightarrow> int \<Rightarrow> int" where
  "ceilDiv a b = - ((- a) div b)"

definition validToken :: "js_string \<Rightarrow> nat \<Rightarrow> bool" where
  "validToken value sz = (case decodeBase64URL value of Inl _ \<Rightarrow> False | Inr bs \<Rightarrow> length bs = sz)"

definition validateManifest :: "AttachmentManifest \<Rightarrow> unit res" where
  "validateManifest m = throwIf
     (manifest_version m \<noteq> attachmentVersion
      \<or> \<not> validToken (manifest_transferId m) 16
      \<or> \<not> validToken (manifest_manifestId m) 32
      \<or> \<not> validToken (manifest_sha256 m) 32
      \<or> length (manifest_signature m) \<noteq> 64
      \<or> manifest_expiresAt m \<le> manifest_issuedAt m
      \<or> manifest_expiresAt m - manifest_issuedAt m > maxAttachmentTTLms
      \<or> manifest_byteCount m < 1
      \<or> manifest_byteCount m > maxDirectAttachmentBytes
      \<or> manifest_chunkBytes m < 256
      \<or> manifest_chunkBytes m > int maxAttachmentChunkBytes
      \<or> manifest_chunkCount m < 1
      \<or> manifest_chunkCount m > maxAttachmentChunks
      \<or> manifest_chunkCount m \<noteq> ceilDiv (manifest_byteCount m) (manifest_chunkBytes m)
      \<or> length (textEncode (manifest_fileName m)) = 0
      \<or> length (textEncode (manifest_fileName m)) > 160
      \<or> length (textEncode (manifest_mediaType m)) = 0
      \<or> length (textEncode (manifest_mediaType m)) > 128)
     (PlainError (lit ''invalid attachment manifest''))"

definition validateDecision :: "AttachmentDecision \<Rightarrow> unit res" where
  "validateDecision d = throwIf
     (decision_version d \<noteq> attachmentVersion
      \<or> decisionKindText (decision_kind d) \<notin> set [lit ''accept'', lit ''reject'', lit ''cancel'']
      \<or> \<not> validToken (decision_transferId d) 16
      \<or> \<not> validToken (decision_manifestId d) 32
      \<or> length (decision_signature d) \<noteq> 64
      \<or> decision_expiresAt d \<le> decision_issuedAt d
      \<or> decision_expiresAt d - decision_issuedAt d > maxAttachmentTTLms)
     (PlainError (lit ''invalid attachment decision''))"

definition validateChunk :: "AttachmentChunk \<Rightarrow> unit res" where
  "validateChunk c = throwIf
     (chunk_version c \<noteq> attachmentVersion
      \<or> \<not> validToken (chunk_transferId c) 16
      \<or> \<not> validToken (chunk_manifestId c) 32
      \<or> \<not> isSafeInteger (chunk_index c)
      \<or> chunk_index c < 0
      \<or> length (chunk_bytes c) = 0
      \<or> length (chunk_bytes c) > maxAttachmentChunkBytes)
     (PlainError (lit ''invalid attachment chunk''))"

definition validateChunkForManifest :: "AttachmentChunk \<Rightarrow> AttachmentManifest \<Rightarrow> unit res" where
  "validateChunkForManifest c m =
     andThen (validateChunk c) (\<lambda>_. andThen (validateManifest m) (\<lambda>_. throwIf
       (chunk_transferId c \<noteq> manifest_transferId m
        \<or> chunk_manifestId c \<noteq> manifest_manifestId m
        \<or> chunk_index c \<ge> manifest_chunkCount m
        \<or> int (length (chunk_bytes c)) > manifest_chunkBytes m
        \<or> (chunk_index c + 1 < manifest_chunkCount m \<and> int (length (chunk_bytes c)) \<noteq> manifest_chunkBytes m))
       (PlainError (lit ''attachment chunk does not match manifest''))))"

definition sha256Base64URL :: "(bytes \<Rightarrow> bytes) \<Rightarrow> bytes \<Rightarrow> js_string" where
  "sha256Base64URL digest bs = encodeBase64URL (digest bs)"

section \<open>Encoders\<close>

definition base :: "AttachmentManifest \<Rightarrow> cborMap res" where
  "base m =
     andThen (decodeBase64URL (manifest_transferId m)) (\<lambda>transferId.
     andThen (decodeBase64URL (manifest_manifestId m)) (\<lambda>manifestId.
     andThen (decodeBase64URL (manifest_sha256 m)) (\<lambda>sha256.
       Inr [(lit ''version'', CText (manifest_version m)),
            (lit ''transfer_id'', CBytes transferId),
            (lit ''manifest_id'', CBytes manifestId),
            (lit ''issued_at'', CNum (manifest_issuedAt m)),
            (lit ''expires_at'', CNum (manifest_expiresAt m)),
            (lit ''file_name'', CText (manifest_fileName m)),
            (lit ''media_type'', CText (manifest_mediaType m)),
            (lit ''byte_count'', CNum (manifest_byteCount m)),
            (lit ''chunk_bytes'', CNum (manifest_chunkBytes m)),
            (lit ''chunk_count'', CNum (manifest_chunkCount m)),
            (lit ''sha256'', CBytes sha256)])))"

definition manifestMap :: "AttachmentManifest \<Rightarrow> bool \<Rightarrow> cbor res" where
  "manifestMap m signature =
     andThen (base m) (\<lambda>entries.
       Inr (CMap (if signature then entries @ [(lit ''signature'', CBytes (manifest_signature m))] else entries)))"

definition decisionMap :: "AttachmentDecision \<Rightarrow> bool \<Rightarrow> cbor res" where
  "decisionMap d signature =
     andThen (decodeBase64URL (decision_transferId d)) (\<lambda>transferId.
     andThen (decodeBase64URL (decision_manifestId d)) (\<lambda>manifestId.
       let entries =
         [(lit ''version'', CText (decision_version d)),
          (lit ''kind'', CText (decisionKindText (decision_kind d))),
          (lit ''transfer_id'', CBytes transferId),
          (lit ''manifest_id'', CBytes manifestId),
          (lit ''issued_at'', CNum (decision_issuedAt d)),
          (lit ''expires_at'', CNum (decision_expiresAt d))]
       in Inr (CMap (if signature then entries @ [(lit ''signature'', CBytes (decision_signature d))] else entries))))"

definition chunkMap :: "AttachmentChunk \<Rightarrow> cbor res" where
  "chunkMap c =
     andThen (decodeBase64URL (chunk_transferId c)) (\<lambda>transferId.
     andThen (decodeBase64URL (chunk_manifestId c)) (\<lambda>manifestId.
       Inr (CMap
         [(lit ''version'', CText (chunk_version c)),
          (lit ''transfer_id'', CBytes transferId),
          (lit ''manifest_id'', CBytes manifestId),
          (lit ''index'', CNum (chunk_index c)),
          (lit ''bytes'', CBytes (chunk_bytes c))])))"

definition signed :: "cbor \<Rightarrow> bytes res" where
  "signed v =
     (let prefix = textEncode (attachmentSignatureDomain @ [0]) in
      andThen (encodeDeterministicCbor v) (\<lambda>body. Inr (prefix @ body)))"

definition encodeAttachmentManifest :: "AttachmentManifest \<Rightarrow> bytes res" where
  "encodeAttachmentManifest m =
     andThen (validateManifest m) (\<lambda>_. andThen (manifestMap m True) encodeDeterministicCbor)"

definition attachmentManifestSigningBytes :: "AttachmentManifest \<Rightarrow> bytes res" where
  "attachmentManifestSigningBytes m =
     andThen (validateManifest m) (\<lambda>_. andThen (manifestMap m False) signed)"

definition encodeAttachmentDecision :: "AttachmentDecision \<Rightarrow> bytes res" where
  "encodeAttachmentDecision d =
     andThen (validateDecision d) (\<lambda>_. andThen (decisionMap d True) encodeDeterministicCbor)"

definition attachmentDecisionSigningBytes :: "AttachmentDecision \<Rightarrow> bytes res" where
  "attachmentDecisionSigningBytes d =
     andThen (validateDecision d) (\<lambda>_. andThen (decisionMap d False) signed)"

definition encodeAttachmentChunk :: "AttachmentChunk \<Rightarrow> bytes res" where
  "encodeAttachmentChunk c =
     andThen (validateChunk c) (\<lambda>_. andThen (chunkMap c) encodeDeterministicCbor)"

section \<open>Decoders\<close>

definition strictMap :: "bytes \<Rightarrow> js_string list \<Rightarrow> cborMap res" where
  "strictMap bs names =
     (if length bs = 0 \<or> length bs > 4096 then throw ''invalid attachment size''
      else andThen (decodeDeterministicCbor bs 4096) (\<lambda>v.
           andThen (readCborMap v (lit ''attachment'')) (\<lambda>m.
           andThen (rejectUnknownEntries m names) (\<lambda>_. Inr m))))"

definition readVersion :: "cborMap \<Rightarrow> js_string res" where
  "readVersion m =
     andThen (getRequiredEntry m (lit ''version'')) (\<lambda>v.
     andThen (readText v (lit ''version'')) (\<lambda>version.
       if version \<noteq> attachmentVersion then throw ''unsupported attachment version''
       else Inr attachmentVersion))"

definition token :: "cborMap \<Rightarrow> js_string \<Rightarrow> nat \<Rightarrow> js_string res" where
  "token m name sz =
     andThen (getRequiredEntry m name) (\<lambda>v.
     andThen (readBytes v name (Some sz)) (\<lambda>bs. Inr (encodeBase64URL bs)))"

definition number :: "cborMap \<Rightarrow> js_string \<Rightarrow> int res" where
  "number m name = andThen (getRequiredEntry m name) (\<lambda>v. readUint v name)"

definition boundedText :: "cborMap \<Rightarrow> js_string \<Rightarrow> nat \<Rightarrow> js_string res" where
  "boundedText m name maximum =
     andThen (getRequiredEntry m name) (\<lambda>v.
     andThen (readText v name) (\<lambda>s.
       if length (textEncode s) > maximum then Inl (PlainError (lit ''invalid '' @ name)) else Inr s))"

definition invalidDecisionKind :: "'a res" where
  "invalidDecisionKind = throw ''invalid attachment decision kind''"

definition decodeAttachmentManifest :: "bytes \<Rightarrow> AttachmentManifest res" where
  "decodeAttachmentManifest bs =
     andThen (strictMap bs [lit ''version'', lit ''transfer_id'', lit ''manifest_id'', lit ''issued_at'',
       lit ''expires_at'', lit ''file_name'', lit ''media_type'', lit ''byte_count'', lit ''chunk_bytes'',
       lit ''chunk_count'', lit ''sha256'', lit ''signature'']) (\<lambda>m.
     andThen (readVersion m) (\<lambda>version.
     andThen (token m (lit ''transfer_id'') 16) (\<lambda>transferId.
     andThen (token m (lit ''manifest_id'') 32) (\<lambda>manifestId.
     andThen (number m (lit ''issued_at'')) (\<lambda>issuedAt.
     andThen (number m (lit ''expires_at'')) (\<lambda>expiresAt.
     andThen (boundedText m (lit ''file_name'') 160) (\<lambda>fileName.
     andThen (boundedText m (lit ''media_type'') 128) (\<lambda>mediaType.
     andThen (number m (lit ''byte_count'')) (\<lambda>byteCount.
     andThen (number m (lit ''chunk_bytes'')) (\<lambda>chunkBytes.
     andThen (number m (lit ''chunk_count'')) (\<lambda>chunkCount.
     andThen (token m (lit ''sha256'') 32) (\<lambda>sha256.
     andThen (getRequiredEntry m (lit ''signature'')) (\<lambda>v.
     andThen (readBytes v (lit ''signature'') (Some 64)) (\<lambda>signature.
       let result = \<lparr>manifest_version = version, manifest_transferId = transferId,
         manifest_manifestId = manifestId, manifest_issuedAt = issuedAt, manifest_expiresAt = expiresAt,
         manifest_fileName = fileName, manifest_mediaType = mediaType, manifest_byteCount = byteCount,
         manifest_chunkBytes = chunkBytes, manifest_chunkCount = chunkCount, manifest_sha256 = sha256,
         manifest_signature = signature\<rparr>
       in andThen (validateManifest result) (\<lambda>_. Inr result)))))))))))))))"

definition decodeAttachmentDecision :: "bytes \<Rightarrow> AttachmentDecision res" where
  "decodeAttachmentDecision bs =
     andThen (strictMap bs [lit ''version'', lit ''kind'', lit ''transfer_id'', lit ''manifest_id'',
       lit ''issued_at'', lit ''expires_at'', lit ''signature'']) (\<lambda>m.
     andThen (getRequiredEntry m (lit ''kind'')) (\<lambda>k.
     andThen (readText k (lit ''kind'')) (\<lambda>kind.
     andThen (readVersion m) (\<lambda>version.
     andThen (if kind = lit ''accept'' then Inr Accept
              else if kind = lit ''reject'' then Inr Reject
              else if kind = lit ''cancel'' then Inr Cancel
              else invalidDecisionKind) (\<lambda>decisionKind.
     andThen (token m (lit ''transfer_id'') 16) (\<lambda>transferId.
     andThen (token m (lit ''manifest_id'') 32) (\<lambda>manifestId.
     andThen (number m (lit ''issued_at'')) (\<lambda>issuedAt.
     andThen (number m (lit ''expires_at'')) (\<lambda>expiresAt.
     andThen (getRequiredEntry m (lit ''signature'')) (\<lambda>v.
     andThen (readBytes v (lit ''signature'') (Some 64)) (\<lambda>signature.
       let result = \<lparr>decision_version = version, decision_kind = decisionKind,
         decision_transferId = transferId, decision_manifestId = manifestId,
         decision_issuedAt = issuedAt, decision_expiresAt = expiresAt, decision_signature = signature\<rparr>
       in andThen (validateDecision result) (\<lambda>_. Inr result))))))))))))"

definition decodeAttachmentChunk :: "bytes \<Rightarrow> AttachmentChunk res" where
  "decodeAttachmentChunk bs =
     andThen (strictMap bs [lit ''version'', lit ''transfer_id'', lit ''manifest_id'', lit ''index'', lit ''bytes'']) (\<lambda>m.
     andThen (readVersion m) (\<lambda>version.
     andThen (token m (lit ''transfer_id'') 16) (\<lambda>transferId.
     andThen (token m (lit ''manifest_id'') 32) (\<lambda>manifestId.
     andThen (number m (lit ''index'')) (\<lambda>idx.
     andThen (getRequiredEntry m (lit ''bytes'')) (\<lambda>v.
     andThen (readBytes v (lit ''bytes'') None) (\<lambda>payload.
       let result = \<lparr>chunk_version = version, chunk_transferId = transferId, chunk_manifestId = manifestId,
         chunk_index = idx, chunk_bytes = payload\<rparr>
       in andThen (validateChunk result) (\<lambda>_. Inr result))))))))"

lemma ceilDiv_bounds:
  assumes "0 < b"
  shows "(ceilDiv a b - 1) * b < a" "a \<le> ceilDiv a b * b"
proof -
  have m: "(- a) div b * b + (- a) mod b = - a" "0 \<le> (- a) mod b" "(- a) mod b < b"
    using assms by auto
  have e: "ceilDiv a b * b = a + (- a) mod b"
    unfolding ceilDiv_def minus_mult_left [symmetric] using m(1) by linarith
  show "a \<le> ceilDiv a b * b" using e m(2) by simp
  show "(ceilDiv a b - 1) * b < a" using e m(3) by (simp add: algebra_simps)
qed

section \<open>The canonical messages\<close>

definition goodManifest :: "AttachmentManifest \<Rightarrow> bool" where
  "goodManifest m \<longleftrightarrow> succeeds (validateManifest m)
     \<and> goodToken (manifest_transferId m) 16 \<and> goodToken (manifest_manifestId m) 32
     \<and> goodToken (manifest_sha256 m) 32
     \<and> goodTime (manifest_issuedAt m) \<and> goodTime (manifest_expiresAt m)
     \<and> goodText (manifest_fileName m) 160 \<and> goodText (manifest_mediaType m) 128"

definition goodDecision :: "AttachmentDecision \<Rightarrow> bool" where
  "goodDecision d \<longleftrightarrow> succeeds (validateDecision d)
     \<and> goodToken (decision_transferId d) 16 \<and> goodToken (decision_manifestId d) 32
     \<and> goodTime (decision_issuedAt d) \<and> goodTime (decision_expiresAt d)"

definition goodChunk :: "AttachmentChunk \<Rightarrow> bool" where
  "goodChunk c \<longleftrightarrow> succeeds (validateChunk c)
     \<and> goodToken (chunk_transferId c) 16 \<and> goodToken (chunk_manifestId c) 32"

section \<open>The codecs meet their contract\<close>

lemma strictMap_Inr [res_simps]:
  "strictMap bs names = Inr m \<longleftrightarrow>
     decodeDeterministicCbor bs 4096 = Inr (CMap m) \<and> fst ` set m \<subseteq> set names"
  using decode_size [of bs 4096] by (auto simp: strictMap_def res_simps)

lemma readVersion_Inr [res_simps]:
  "readVersion m = Inr s \<longleftrightarrow> s = attachmentVersion \<and> map_of m (lit ''version'') = Some (CText attachmentVersion)"
  by (auto simp: readVersion_def res_simps attachmentVersion_def maxCborTextBytes_def asciiString_def
      split: if_splits)

lemma token_Inr [res_simps]:
  "0 < n \<Longrightarrow> n \<le> maxCborBytes \<Longrightarrow>
   token m k n = Inr s \<longleftrightarrow> (\<exists>bs. map_of m k = Some (CBytes bs) \<and> length bs = n \<and> s = encodeBase64URL bs)"
  by (auto simp: token_def res_simps)

lemma number_Inr [res_simps]: "number m k = Inr n \<longleftrightarrow> map_of m k = Some (CNum n) \<and> goodTime n"
  by (auto simp: number_def res_simps goodTime_def)

lemma boundedText_Inr [res_simps]:
  "n \<le> maxCborTextBytes \<Longrightarrow>
   boundedText m k n = Inr s \<longleftrightarrow> map_of m k = Some (CText s) \<and> s \<noteq> [] \<and> length (textEncode s) \<le> n"
  by (cases "map_of m k")
    (auto simp: boundedText_def getRequiredEntry_def readText_def invalidEntry_def split: cbor.splits if_splits)

lemma attachmentVersion_facts [simp]:
  "decodableText attachmentVersion" "length (textEncode attachmentVersion) = 25"
  by (simp_all add: attachmentVersion_def asciiString_def)

lemma validToken_encode [simp]: "validToken (encodeBase64URL bs) n \<longleftrightarrow> bs \<noteq> [] \<and> length bs = n"
proof (cases "bs = []")
  case True
  then have "encodeBase64URL bs = []" using length_encodeBase64URL [of bs] by simp
  then show ?thesis using True by (simp add: validToken_def decodeBase64URL_def validBase64URL_def)
qed (simp add: validToken_def decode_encodeBase64URL)

lemma manifest_names_ascii [simp]:
  "asciiString ''version''" "asciiString ''transfer_id''" "asciiString ''manifest_id''"
  "asciiString ''issued_at''" "asciiString ''expires_at''" "asciiString ''file_name''"
  "asciiString ''media_type''" "asciiString ''byte_count''" "asciiString ''chunk_bytes''"
  "asciiString ''chunk_count''" "asciiString ''sha256''" "asciiString ''signature''"
  "asciiString ''kind''" "asciiString ''index''" "asciiString ''bytes''"
  by (simp_all add: asciiString_def)

abbreviation chunkNames :: "js_string list" where
  "chunkNames \<equiv> [lit ''version'', lit ''transfer_id'', lit ''manifest_id'', lit ''index'', lit ''bytes'']"

definition chunkEntries :: "AttachmentChunk \<Rightarrow> cborMap" where
  "chunkEntries c =
     [(lit ''version'', CText (chunk_version c)),
      (lit ''transfer_id'', CBytes (tokenBytes (chunk_transferId c))),
      (lit ''manifest_id'', CBytes (tokenBytes (chunk_manifestId c))),
      (lit ''index'', CNum (chunk_index c)),
      (lit ''bytes'', CBytes (chunk_bytes c))]"

lemma goodChunk_facts:
  assumes "goodChunk c"
  shows "validateChunk c = Inr ()" "chunk_version c = attachmentVersion" "goodTime (chunk_index c)"
    "chunk_bytes c \<noteq> []" "length (chunk_bytes c) \<le> 3072"
    "goodToken (chunk_transferId c) 16" "goodToken (chunk_manifestId c) 32"
  using assms
  by (auto simp: goodChunk_def succeeds_iff validateChunk_def maxAttachmentChunkBytes_def goodTime_def isSafeInteger_def)

interpretation attachment_chunk: flat_codec encodeAttachmentChunk decodeAttachmentChunk goodChunk chunkEntries
  chunkNames 4096
proof
  fix c assume c: "goodChunk c"
  note f = goodChunk_facts [OF c]
  note t = goodToken_facts [OF f(6)] goodToken_facts [OF f(7)]
  show "encodeAttachmentChunk c = encodeDeterministicCbor (CMap (chunkEntries c))"
    by (simp add: encodeAttachmentChunk_def chunkMap_def chunkEntries_def f t del: encodeDeterministicCbor.simps)
  show wf: "wfCbor (CMap (chunkEntries c)) \<and> (\<forall>v \<in> snd ` set (chunkEntries c). scalar v)"
    using f(3,5) by (simp add: chunkEntries_def t f(2) goodTime_def maxCborBytes_def maxCborCollectionEntries_def)
  have "cborBound (CMap (chunkEntries c)) \<le> 4096"
    using f(5) by (simp add: chunkEntries_def t f(2))
  with wf show "length (encoded (CMap (chunkEntries c))) \<le> 4096" by (blast intro: length_encoded_bound)
  show "fst ` set (chunkEntries c) \<subseteq> set chunkNames"
    by (simp add: chunkEntries_def)
next
  fix c e k assume c: "goodChunk c" "decodeDeterministicCbor e 4096 = Inr (CMap k)" "map_of k = map_of (chunkEntries c)"
    "fst ` set k \<subseteq> set chunkNames"
  note f = goodChunk_facts [OF c(1)]
  note t = goodToken_facts [OF f(6)] goodToken_facts [OF f(7)]
  show "decodeAttachmentChunk e = Inr c"
    using f(1-5) c(2-) t
    by (cases c) (simp add: decodeAttachmentChunk_def chunkEntries_def res_simps getRequiredEntry_def maxCborBytes_def Let_def)
next
  fix e c assume "decodeAttachmentChunk e = Inr c"
  then show "goodChunk c \<and> (\<exists>k. decodeDeterministicCbor e 4096 = Inr (CMap k)
    \<and> fst ` set k \<subseteq> set chunkNames
    \<and> (\<forall>key \<in> set chunkNames. map_of k key = map_of (chunkEntries c) key))"
    by (auto simp: decodeAttachmentChunk_def chunkEntries_def goodChunk_def res_simps maxCborBytes_def Let_def)
qed

abbreviation manifestNames :: "js_string list" where
  "manifestNames \<equiv> [lit ''version'', lit ''transfer_id'', lit ''manifest_id'', lit ''issued_at'',
     lit ''expires_at'', lit ''file_name'', lit ''media_type'', lit ''byte_count'', lit ''chunk_bytes'',
     lit ''chunk_count'', lit ''sha256'', lit ''signature'']"

definition manifestEntries :: "AttachmentManifest \<Rightarrow> cborMap" where
  "manifestEntries m =
     [(lit ''version'', CText (manifest_version m)),
      (lit ''transfer_id'', CBytes (tokenBytes (manifest_transferId m))),
      (lit ''manifest_id'', CBytes (tokenBytes (manifest_manifestId m))),
      (lit ''issued_at'', CNum (manifest_issuedAt m)),
      (lit ''expires_at'', CNum (manifest_expiresAt m)),
      (lit ''file_name'', CText (manifest_fileName m)),
      (lit ''media_type'', CText (manifest_mediaType m)),
      (lit ''byte_count'', CNum (manifest_byteCount m)),
      (lit ''chunk_bytes'', CNum (manifest_chunkBytes m)),
      (lit ''chunk_count'', CNum (manifest_chunkCount m)),
      (lit ''sha256'', CBytes (tokenBytes (manifest_sha256 m)))]"

lemma goodManifest_facts:
  assumes "goodManifest m"
  shows "validateManifest m = Inr ()" "manifest_version m = attachmentVersion"
    "length (manifest_signature m) = 64"
    "goodTime (manifest_issuedAt m)" "goodTime (manifest_expiresAt m)" "goodTime (manifest_byteCount m)"
    "goodTime (manifest_chunkBytes m)" "goodTime (manifest_chunkCount m)"
    "goodText (manifest_fileName m) 160" "goodText (manifest_mediaType m) 128"
    "goodToken (manifest_transferId m) 16" "goodToken (manifest_manifestId m) 32" "goodToken (manifest_sha256 m) 32"
  using assms
  by (auto simp: goodManifest_def succeeds_iff validateManifest_def goodTime_def maxSafeInteger_def
      maxDirectAttachmentBytes_def maxAttachmentChunkBytes_def maxAttachmentChunks_def)

lemmas manifest_tokens =
  goodManifest_facts(11) [THEN goodToken_facts(1)] goodManifest_facts(11) [THEN goodToken_facts(2)]
  goodManifest_facts(11) [THEN goodToken_facts(3)]
  goodManifest_facts(12) [THEN goodToken_facts(1)] goodManifest_facts(12) [THEN goodToken_facts(2)]
  goodManifest_facts(12) [THEN goodToken_facts(3)]
  goodManifest_facts(13) [THEN goodToken_facts(1)] goodManifest_facts(13) [THEN goodToken_facts(2)]
  goodManifest_facts(13) [THEN goodToken_facts(3)]

lemma manifestMap_entries:
  assumes "goodManifest m"
  shows "manifestMap m b =
    Inr (CMap (manifestEntries m @ (if b then [(lit ''signature'', CBytes (manifest_signature m))] else [])))"
  using manifest_tokens [OF assms]
  by (simp add: manifestMap_def base_def manifestEntries_def)

lemma manifestEntries_wf:
  assumes "goodManifest m"
  shows "wfCbor (CMap (manifestEntries m @ [(lit ''signature'', CBytes (manifest_signature m))]))"
    "wfCbor (CMap (manifestEntries m))"
  using goodManifest_facts(2-8) [OF assms] manifest_tokens [OF assms]
    goodManifest_facts(9,10) [OF assms, THEN goodText_decodable]
  by (simp_all add: manifestEntries_def goodTime_def maxCborBytes_def maxCborCollectionEntries_def)

interpretation attachment_manifest: flat_codec encodeAttachmentManifest decodeAttachmentManifest goodManifest
  "\<lambda>m. manifestEntries m @ [(lit ''signature'', CBytes (manifest_signature m))]" manifestNames 4096
proof
  fix m assume m: "goodManifest m"
  note f = goodManifest_facts [OF m]
  let ?es = "manifestEntries m @ [(lit ''signature'', CBytes (manifest_signature m))]"
  show "encodeAttachmentManifest m = encodeDeterministicCbor (CMap ?es)"
    by (simp add: encodeAttachmentManifest_def f(1) manifestMap_entries [OF m] del: encodeDeterministicCbor.simps)
  show wf: "wfCbor (CMap ?es) \<and> (\<forall>v \<in> snd ` set ?es. scalar v)"
    using manifestEntries_wf(1) [OF m] by (simp add: manifestEntries_def)
  have "cborBound (CMap ?es) \<le> 4096"
    using f(9,10) manifest_tokens [OF m] by (simp add: manifestEntries_def f(2,3) goodText_def)
  with wf show "length (encoded (CMap ?es)) \<le> 4096" by (blast intro: length_encoded_bound)
  show "fst ` set ?es \<subseteq> set manifestNames"
    by (simp add: manifestEntries_def)
next
  fix m e k assume m: "goodManifest m" "decodeDeterministicCbor e 4096 = Inr (CMap k)"
    "map_of k = map_of (manifestEntries m @ [(lit ''signature'', CBytes (manifest_signature m))])"
    "fst ` set k \<subseteq> set manifestNames"
  note f = goodManifest_facts [OF m(1)]
  have "manifest_signature m \<noteq> []" using f(3) by auto
  then show "decodeAttachmentManifest e = Inr m"
    using f(1-10) m(2-) manifest_tokens [OF m(1)]
    by (cases m) (simp add: decodeAttachmentManifest_def manifestEntries_def res_simps getRequiredEntry_def
        maxCborBytes_def maxCborTextBytes_def Let_def goodText_def)
next
  fix e m assume d: "decodeAttachmentManifest e = Inr m"
  then obtain k tid mid sha where k: "decodeDeterministicCbor e 4096 = Inr (CMap k)" "fst ` set k \<subseteq> set manifestNames"
    and fields: "map_of k (lit ''version'') = Some (CText (manifest_version m))"
    "map_of k (lit ''transfer_id'') = Some (CBytes tid)" "map_of k (lit ''manifest_id'') = Some (CBytes mid)"
    "map_of k (lit ''issued_at'') = Some (CNum (manifest_issuedAt m))"
    "map_of k (lit ''expires_at'') = Some (CNum (manifest_expiresAt m))"
    "map_of k (lit ''file_name'') = Some (CText (manifest_fileName m))"
    "map_of k (lit ''media_type'') = Some (CText (manifest_mediaType m))"
    "map_of k (lit ''byte_count'') = Some (CNum (manifest_byteCount m))"
    "map_of k (lit ''chunk_bytes'') = Some (CNum (manifest_chunkBytes m))"
    "map_of k (lit ''chunk_count'') = Some (CNum (manifest_chunkCount m))"
    "map_of k (lit ''sha256'') = Some (CBytes sha)"
    "map_of k (lit ''signature'') = Some (CBytes (manifest_signature m))"
    and tok: "manifest_transferId m = encodeBase64URL tid" "length tid = 16"
    "manifest_manifestId m = encodeBase64URL mid" "length mid = 32"
    "manifest_sha256 m = encodeBase64URL sha" "length sha = 32"
    and rest: "goodTime (manifest_issuedAt m)" "goodTime (manifest_expiresAt m)"
    "manifest_fileName m \<noteq> []" "length (textEncode (manifest_fileName m)) \<le> 160"
    "manifest_mediaType m \<noteq> []" "length (textEncode (manifest_mediaType m)) \<le> 128"
    "validateManifest m = Inr ()"
    unfolding decodeAttachmentManifest_def
    by (clarsimp simp: res_simps maxCborBytes_def maxCborTextBytes_def Let_def)
  have "goodManifest m"
    using tok rest decoded_entry [OF k(1) fields(6)] decoded_entry [OF k(1) fields(7)]
    by (auto simp: goodManifest_def decodable_goodText)
  then show "goodManifest m \<and> (\<exists>k. decodeDeterministicCbor e 4096 = Inr (CMap k)
    \<and> fst ` set k \<subseteq> set manifestNames \<and> (\<forall>key \<in> set manifestNames. map_of k key
      = map_of (manifestEntries m @ [(lit ''signature'', CBytes (manifest_signature m))]) key))"
    using k fields by (intro conjI exI [of _ k]) (simp_all add: manifestEntries_def tok)
qed

abbreviation decisionNames :: "js_string list" where
  "decisionNames \<equiv> [lit ''version'', lit ''kind'', lit ''transfer_id'', lit ''manifest_id'',
     lit ''issued_at'', lit ''expires_at'', lit ''signature'']"

definition decisionEntries :: "AttachmentDecision \<Rightarrow> cborMap" where
  "decisionEntries d =
     [(lit ''version'', CText (decision_version d)),
      (lit ''kind'', CText (decisionKindText (decision_kind d))),
      (lit ''transfer_id'', CBytes (tokenBytes (decision_transferId d))),
      (lit ''manifest_id'', CBytes (tokenBytes (decision_manifestId d))),
      (lit ''issued_at'', CNum (decision_issuedAt d)),
      (lit ''expires_at'', CNum (decision_expiresAt d))]"

lemma decisionKind_facts [simp]:
  "decodableText (decisionKindText k)" "length (textEncode (decisionKindText k)) = 6" "decisionKindText k \<noteq> []"
  by (cases k; simp add: asciiString_def)+

lemma decisionKindText_inject [simp]: "decisionKindText k = decisionKindText l \<longleftrightarrow> k = l"
  by (cases k; cases l) auto

lemma decodeDecisionKind:
  "(if kind = lit ''accept'' then Inr Accept else if kind = lit ''reject'' then Inr Reject
    else if kind = lit ''cancel'' then Inr Cancel else invalidDecisionKind) = Inr k \<longleftrightarrow> kind = decisionKindText k"
  by (cases k) (auto simp: invalidDecisionKind_def)

lemma goodDecision_facts:
  assumes "goodDecision d"
  shows "validateDecision d = Inr ()" "decision_version d = attachmentVersion"
    "length (decision_signature d) = 64"
    "goodTime (decision_issuedAt d)" "goodTime (decision_expiresAt d)"
    "goodToken (decision_transferId d) 16" "goodToken (decision_manifestId d) 32"
  using assms by (auto simp: goodDecision_def succeeds_iff validateDecision_def)

lemmas decision_tokens =
  goodDecision_facts(6) [THEN goodToken_facts(1)] goodDecision_facts(6) [THEN goodToken_facts(2)]
  goodDecision_facts(6) [THEN goodToken_facts(3)]
  goodDecision_facts(7) [THEN goodToken_facts(1)] goodDecision_facts(7) [THEN goodToken_facts(2)]
  goodDecision_facts(7) [THEN goodToken_facts(3)]

lemma decisionMap_entries:
  assumes "goodDecision d"
  shows "decisionMap d b =
    Inr (CMap (decisionEntries d @ (if b then [(lit ''signature'', CBytes (decision_signature d))] else [])))"
  using decision_tokens [OF assms] by (simp add: decisionMap_def decisionEntries_def)

lemma decisionEntries_wf:
  assumes "goodDecision d"
  shows "wfCbor (CMap (decisionEntries d @ [(lit ''signature'', CBytes (decision_signature d))]))"
    "wfCbor (CMap (decisionEntries d))"
  using goodDecision_facts(2-5) [OF assms] decision_tokens [OF assms]
  by (simp_all add: decisionEntries_def goodTime_def maxCborBytes_def maxCborCollectionEntries_def)

interpretation attachment_decision: flat_codec encodeAttachmentDecision decodeAttachmentDecision goodDecision
  "\<lambda>d. decisionEntries d @ [(lit ''signature'', CBytes (decision_signature d))]" decisionNames 4096
proof
  fix d assume d: "goodDecision d"
  note f = goodDecision_facts [OF d]
  let ?es = "decisionEntries d @ [(lit ''signature'', CBytes (decision_signature d))]"
  show "encodeAttachmentDecision d = encodeDeterministicCbor (CMap ?es)"
    by (simp add: encodeAttachmentDecision_def f(1) decisionMap_entries [OF d] del: encodeDeterministicCbor.simps)
  show wf: "wfCbor (CMap ?es) \<and> (\<forall>v \<in> snd ` set ?es. scalar v)"
    using decisionEntries_wf(1) [OF d] by (simp add: decisionEntries_def)
  have "cborBound (CMap ?es) \<le> 4096"
    using decision_tokens [OF d] by (simp add: decisionEntries_def f(2,3))
  with wf show "length (encoded (CMap ?es)) \<le> 4096" by (blast intro: length_encoded_bound)
  show "fst ` set ?es \<subseteq> set decisionNames"
    by (simp add: decisionEntries_def)
next
  fix d e k assume d: "goodDecision d" "decodeDeterministicCbor e 4096 = Inr (CMap k)"
    "map_of k = map_of (decisionEntries d @ [(lit ''signature'', CBytes (decision_signature d))])"
    "fst ` set k \<subseteq> set decisionNames"
  note f = goodDecision_facts [OF d(1)]
  have "decision_signature d \<noteq> []" using f(3) by auto
  then show "decodeAttachmentDecision e = Inr d"
    using f(1-5) d(2-) decision_tokens [OF d(1)]
    by (cases d) (simp add: decodeAttachmentDecision_def decisionEntries_def res_simps getRequiredEntry_def
        maxCborBytes_def maxCborTextBytes_def Let_def decodeDecisionKind)
next
  fix e d assume dec: "decodeAttachmentDecision e = Inr d"
  then obtain k tid mid where k: "decodeDeterministicCbor e 4096 = Inr (CMap k)" "fst ` set k \<subseteq> set decisionNames"
    and fields: "map_of k (lit ''version'') = Some (CText (decision_version d))"
    "map_of k (lit ''kind'') = Some (CText (decisionKindText (decision_kind d)))"
    "map_of k (lit ''transfer_id'') = Some (CBytes tid)" "map_of k (lit ''manifest_id'') = Some (CBytes mid)"
    "map_of k (lit ''issued_at'') = Some (CNum (decision_issuedAt d))"
    "map_of k (lit ''expires_at'') = Some (CNum (decision_expiresAt d))"
    "map_of k (lit ''signature'') = Some (CBytes (decision_signature d))"
    and tok: "decision_transferId d = encodeBase64URL tid" "length tid = 16"
    "decision_manifestId d = encodeBase64URL mid" "length mid = 32"
    and rest: "goodTime (decision_issuedAt d)" "goodTime (decision_expiresAt d)" "validateDecision d = Inr ()"
    unfolding decodeAttachmentDecision_def
    by (clarsimp simp: res_simps maxCborBytes_def maxCborTextBytes_def Let_def decodeDecisionKind)
  have "goodDecision d"
    using tok rest by (auto simp: goodDecision_def)
  then show "goodDecision d \<and> (\<exists>k. decodeDeterministicCbor e 4096 = Inr (CMap k)
    \<and> fst ` set k \<subseteq> set decisionNames \<and> (\<forall>key \<in> set decisionNames. map_of k key
      = map_of (decisionEntries d @ [(lit ''signature'', CBytes (decision_signature d))]) key))"
    using k fields by (intro conjI exI [of _ k]) (simp_all add: decisionEntries_def tok)
qed

section \<open>Signing bytes\<close>

lemma manifestSigningBytes_eq:
  assumes "goodManifest m"
  shows "attachmentManifestSigningBytes m = andThen (encodeDeterministicCbor (CMap (manifestEntries m)))
    (\<lambda>body. Inr (textEncode (attachmentSignatureDomain @ [0]) @ body))"
  using goodManifest_facts(1) [OF assms]
  by (simp add: attachmentManifestSigningBytes_def manifestMap_entries [OF assms] signed_def Let_def
      del: encodeDeterministicCbor.simps)

lemma decisionSigningBytes_eq:
  assumes "goodDecision d"
  shows "attachmentDecisionSigningBytes d = andThen (encodeDeterministicCbor (CMap (decisionEntries d)))
    (\<lambda>body. Inr (textEncode (attachmentSignatureDomain @ [0]) @ body))"
  using goodDecision_facts(1) [OF assms]
  by (simp add: attachmentDecisionSigningBytes_def decisionMap_entries [OF assms] signed_def Let_def
      del: encodeDeterministicCbor.simps)

lemma signed_inject:
  assumes "wfCbor v" "wfCbor w"
    and "andThen (encodeDeterministicCbor v) (\<lambda>body. Inr (prefix @ body))
      = andThen (encodeDeterministicCbor w) (\<lambda>body. Inr (prefix @ body))"
  shows "encodeDeterministicCbor v = encodeDeterministicCbor w"
proof -
  obtain e e' where "encodeDeterministicCbor v = Inr e" "encodeDeterministicCbor w = Inr e'"
    using encode_wf_Inr assms(1,2) by blast
  with assms(3) show ?thesis by simp
qed

lemma manifestSigningBytes_inject:
  assumes "goodManifest m" "goodManifest m'"
    and "attachmentManifestSigningBytes m = attachmentManifestSigningBytes m'"
  shows "m' = m\<lparr>manifest_signature := manifest_signature m'\<rparr>"
proof -
  have "map_of (manifestEntries m) = map_of (manifestEntries m')"
  proof (rule encode_flat_inject)
    show "encodeDeterministicCbor (CMap (manifestEntries m)) = encodeDeterministicCbor (CMap (manifestEntries m'))"
      using assms(3) manifestEntries_wf(2) assms(1,2)
      unfolding manifestSigningBytes_eq [OF assms(1)] manifestSigningBytes_eq [OF assms(2)]
      by (blast intro: signed_inject)
  qed (use manifestEntries_wf(2) assms(1,2) in \<open>auto simp: manifestEntries_def\<close>)
  then have eq: "map_of (manifestEntries m) k = map_of (manifestEntries m') k" for k by simp
  have "manifest_version m = manifest_version m'"
    using eq [of "lit ''version''"] by (simp add: manifestEntries_def)
  moreover have "manifest_issuedAt m = manifest_issuedAt m'"
    using eq [of "lit ''issued_at''"] by (simp add: manifestEntries_def)
  moreover have "manifest_expiresAt m = manifest_expiresAt m'"
    using eq [of "lit ''expires_at''"] by (simp add: manifestEntries_def)
  moreover have "manifest_fileName m = manifest_fileName m'"
    using eq [of "lit ''file_name''"] by (simp add: manifestEntries_def)
  moreover have "manifest_mediaType m = manifest_mediaType m'"
    using eq [of "lit ''media_type''"] by (simp add: manifestEntries_def)
  moreover have "manifest_byteCount m = manifest_byteCount m'"
    using eq [of "lit ''byte_count''"] by (simp add: manifestEntries_def)
  moreover have "manifest_chunkBytes m = manifest_chunkBytes m'"
    using eq [of "lit ''chunk_bytes''"] by (simp add: manifestEntries_def)
  moreover have "manifest_chunkCount m = manifest_chunkCount m'"
    using eq [of "lit ''chunk_count''"] by (simp add: manifestEntries_def)
  moreover have "manifest_transferId m = manifest_transferId m'"
    using eq [of "lit ''transfer_id''"] goodManifest_facts(11) [OF assms(1), THEN goodToken_inject, OF goodManifest_facts(11) [OF assms(2)]]
    by (simp add: manifestEntries_def)
  moreover have "manifest_manifestId m = manifest_manifestId m'"
    using eq [of "lit ''manifest_id''"] goodManifest_facts(12) [OF assms(1), THEN goodToken_inject, OF goodManifest_facts(12) [OF assms(2)]]
    by (simp add: manifestEntries_def)
  moreover have "manifest_sha256 m = manifest_sha256 m'"
    using eq [of "lit ''sha256''"] goodManifest_facts(13) [OF assms(1), THEN goodToken_inject, OF goodManifest_facts(13) [OF assms(2)]]
    by (simp add: manifestEntries_def)
  ultimately show ?thesis by simp
qed

lemma decisionSigningBytes_inject:
  assumes "goodDecision d" "goodDecision d'"
    and "attachmentDecisionSigningBytes d = attachmentDecisionSigningBytes d'"
  shows "d' = d\<lparr>decision_signature := decision_signature d'\<rparr>"
proof -
  have "map_of (decisionEntries d) = map_of (decisionEntries d')"
  proof (rule encode_flat_inject)
    show "encodeDeterministicCbor (CMap (decisionEntries d)) = encodeDeterministicCbor (CMap (decisionEntries d'))"
      using assms(3) decisionEntries_wf(2) assms(1,2)
      unfolding decisionSigningBytes_eq [OF assms(1)] decisionSigningBytes_eq [OF assms(2)]
      by (blast intro: signed_inject)
  qed (use decisionEntries_wf(2) assms(1,2) in \<open>auto simp: decisionEntries_def\<close>)
  then have eq: "map_of (decisionEntries d) k = map_of (decisionEntries d') k" for k by simp
  show ?thesis
    using eq [of "lit ''version''"] eq [of "lit ''kind''"] eq [of "lit ''transfer_id''"] eq [of "lit ''manifest_id''"]
      eq [of "lit ''issued_at''"] eq [of "lit ''expires_at''"]
    by (intro AttachmentDecision.equality)
      (simp_all add: decisionEntries_def
        goodDecision_facts(6) [OF assms(1), THEN goodToken_inject, OF goodDecision_facts(6) [OF assms(2)]]
        goodDecision_facts(7) [OF assms(1), THEN goodToken_inject, OF goodDecision_facts(7) [OF assms(2)]])
qed

lemma manifest_decision_signing_distinct:
  assumes "goodManifest m" "goodDecision d"
  shows "attachmentManifestSigningBytes m \<noteq> attachmentDecisionSigningBytes d"
proof
  assume eq: "attachmentManifestSigningBytes m = attachmentDecisionSigningBytes d"
  have "map_of (manifestEntries m) = map_of (decisionEntries d)"
  proof (rule encode_flat_inject)
    show "encodeDeterministicCbor (CMap (manifestEntries m)) = encodeDeterministicCbor (CMap (decisionEntries d))"
      using eq manifestEntries_wf(2) [OF assms(1)] decisionEntries_wf(2) [OF assms(2)]
      unfolding manifestSigningBytes_eq [OF assms(1)] decisionSigningBytes_eq [OF assms(2)]
      by (blast intro: signed_inject)
  qed (use manifestEntries_wf(2) decisionEntries_wf(2) assms in \<open>auto simp: manifestEntries_def decisionEntries_def\<close>)
  from fun_cong [OF this, of "lit ''kind''"] show False
    by (simp add: manifestEntries_def decisionEntries_def)
qed

section \<open>Properties\<close>

definition sampleManifest :: AttachmentManifest where
  "sampleManifest =
     \<lparr>manifest_version = attachmentVersion, manifest_transferId = encodeBase64URL (replicate 16 1),
      manifest_manifestId = encodeBase64URL (replicate 32 2), manifest_issuedAt = 1000,
      manifest_expiresAt = 61000, manifest_fileName = lit ''notes.txt'',
      manifest_mediaType = lit ''text/plain'', manifest_byteCount = 300, manifest_chunkBytes = 256,
      manifest_chunkCount = 2, manifest_sha256 = encodeBase64URL (replicate 32 3),
      manifest_signature = replicate 64 4\<rparr>"

definition sampleDecision :: "AttachmentDecisionKind \<Rightarrow> AttachmentDecision" where
  "sampleDecision kind =
     \<lparr>decision_version = attachmentVersion, decision_kind = kind,
      decision_transferId = encodeBase64URL (replicate 16 1),
      decision_manifestId = encodeBase64URL (replicate 32 2), decision_issuedAt = 2000,
      decision_expiresAt = 62000, decision_signature = replicate 64 5\<rparr>"

lemma replicate_neq_Nil [simp]: "replicate (numeral n) x \<noteq> []"
  by simp

lemma goodManifest_sample: "goodManifest sampleManifest"
  by (simp add: goodManifest_def sampleManifest_def succeeds_iff validateManifest_def maxAttachmentTTLms_def
      maxDirectAttachmentBytes_def maxAttachmentChunkBytes_def maxAttachmentChunks_def ceilDiv_def
      asciiString_def goodTime_def maxSafeInteger_def goodText_lit)

lemma goodDecision_sample: "goodDecision (sampleDecision kind)"
  by (cases kind) (simp_all add: goodDecision_def sampleDecision_def succeeds_iff validateDecision_def
      maxAttachmentTTLms_def goodTime_def maxSafeInteger_def)

text \<open>
  C9. The manifest, decision and chunk codecs are exact: a byte string decodes to a message if and only if
  the message is valid with canonical identifiers and decodable texts, and the byte string is its encoding.
\<close>

theorem attachment_codecs:
  "(decodeAttachmentManifest e = Inr m \<longleftrightarrow> goodManifest m \<and> encodeAttachmentManifest m = Inr e)
   \<and> (decodeAttachmentDecision e = Inr d \<longleftrightarrow> goodDecision d \<and> encodeAttachmentDecision d = Inr e)
   \<and> (decodeAttachmentChunk e = Inr c \<longleftrightarrow> goodChunk c \<and> encodeAttachmentChunk c = Inr e)"
  by (intro conjI attachment_manifest.decode_iff attachment_decision.decode_iff attachment_chunk.decode_iff)



end
