(* ===== verification/JsMap.thy ===== *)
theory JsMap
  imports Branch_Prelude
begin

text \<open>
  The JavaScript \<^verbatim>\<open>Map\<close> (and, with unit values, \<^verbatim>\<open>Set\<close>) the stateful components keep:
  keys in insertion order, an existing key keeping its place when it is set again. Iteration, eviction
  of the oldest key and expiry sweeps depend on that order, so the model is an association list with
  distinct keys. The eviction and expiry loops the registries share are here as well.
\<close>

type_synonym ('k, 'v) js_map = "('k \<times> 'v) list"

definition mapGet :: "('k, 'v) js_map \<Rightarrow> 'k \<Rightarrow> 'v option" where
  "mapGet m k = map_of m k"

definition mapHas :: "('k, 'v) js_map \<Rightarrow> 'k \<Rightarrow> bool" where
  "mapHas m k \<longleftrightarrow> k \<in> set (map fst m)"

fun mapSet :: "('k, 'v) js_map \<Rightarrow> 'k \<Rightarrow> 'v \<Rightarrow> ('k, 'v) js_map" where
  "mapSet [] k v = [(k, v)]"
| "mapSet ((k', v') # m) k v = (if k' = k then (k, v) # m else (k', v') # mapSet m k v)"

definition mapDelete :: "('k, 'v) js_map \<Rightarrow> 'k \<Rightarrow> ('k, 'v) js_map" where
  "mapDelete m k = filter (\<lambda>e. fst e \<noteq> k) m"

definition mapKeys :: "('k, 'v) js_map \<Rightarrow> 'k list" where
  "mapKeys m = map fst m"

definition wfMap :: "('k, 'v) js_map \<Rightarrow> bool" where
  "wfMap m \<longleftrightarrow> distinct (map fst m)"

text \<open>\<^verbatim>\<open>for (const [key, expiresAt] of closed) if (now >= expiresAt) closed.delete(key)\<close>\<close>

definition dropExpired :: "('k, int) js_map \<Rightarrow> int \<Rightarrow> ('k, int) js_map" where
  "dropExpired m now = fold (\<lambda>(k, expiresAt) acc. if now \<ge> expiresAt then mapDelete acc k else acc) m m"

text \<open>\<^verbatim>\<open>while (map.size > maximum) map.delete(map.keys().next().value)\<close>\<close>

function evictOldest :: "nat \<Rightarrow> ('k, 'v) js_map \<Rightarrow> ('k, 'v) js_map" where
  "evictOldest maximum [] = []"
| "evictOldest maximum ((k, v) # m) =
     (if length ((k, v) # m) > maximum then evictOldest maximum (mapDelete ((k, v) # m) k) else (k, v) # m)"
  by pat_completeness auto
termination
  by (relation "measure (\<lambda>(maximum, m). length m)") (auto simp: mapDelete_def le_imp_less_Suc)

section \<open>Laws\<close>

lemma mapDelete_simps [simp]:
  "mapDelete [] k = []"
  "mapDelete ((k', v) # m) k = (if k' = k then mapDelete m k else (k', v) # mapDelete m k)"
  by (simp_all add: mapDelete_def)

lemma mapHas_simps [simp]: "\<not> mapHas [] k" "mapHas ((k', v) # m) k \<longleftrightarrow> k' = k \<or> mapHas m k"
  by (auto simp: mapHas_def)

lemma wfMap_simps [simp]: "wfMap []" "wfMap ((k, v) # m) \<longleftrightarrow> \<not> mapHas m k \<and> wfMap m"
  by (auto simp: wfMap_def mapHas_def)

lemma wfMap_snoc [simp]: "wfMap (m @ [(k, v)]) \<longleftrightarrow> wfMap m \<and> \<not> mapHas m k"
  by (auto simp: wfMap_def mapHas_def)

lemma mapHas_mapGet: "mapHas m k \<longleftrightarrow> mapGet m k \<noteq> None"
  by (simp add: mapHas_def mapGet_def map_of_eq_None_iff)

lemma mapGet_mapSet [simp]: "mapGet (mapSet m k v) k' = (if k' = k then Some v else mapGet m k')"
  by (induction m k v rule: mapSet.induct) (auto simp: mapGet_def)

lemma mapHas_mapSet [simp]: "mapHas (mapSet m k v) k' \<longleftrightarrow> k' = k \<or> mapHas m k'"
  by (induction m k v rule: mapSet.induct) auto

lemma wfMap_mapSet [simp]: "wfMap m \<Longrightarrow> wfMap (mapSet m k v)"
  by (induction m k v rule: mapSet.induct) auto

lemma mapSet_new: "\<not> mapHas m k \<Longrightarrow> mapSet m k v = m @ [(k, v)]"
  by (induction m k v rule: mapSet.induct) auto

lemma length_mapSet: "wfMap m \<Longrightarrow> length (mapSet m k v) = (if mapHas m k then length m else Suc (length m))"
  by (induction m k v rule: mapSet.induct) auto

lemma mapHas_mapDelete [simp]: "mapHas (mapDelete m k) k' \<longleftrightarrow> k' \<noteq> k \<and> mapHas m k'"
  by (auto simp: mapHas_def mapDelete_def)

lemma mapGet_mapDelete [simp]: "mapGet (mapDelete m k) k' = (if k' = k then None else mapGet m k')"
  by (induction m) (auto simp: mapGet_def mapDelete_def)

lemma wfMap_mapDelete [simp]: "wfMap m \<Longrightarrow> wfMap (mapDelete m k)"
  by (auto simp: wfMap_def mapDelete_def distinct_map_filter)

lemma mapDelete_absent [simp]: "\<not> mapHas m k \<Longrightarrow> mapDelete m k = m"
  by (induction m) auto

lemma mapGet_mem: "wfMap m \<Longrightarrow> mapGet m k = Some v \<longleftrightarrow> (k, v) \<in> set m"
  by (simp add: wfMap_def mapGet_def)

lemma set_mapKeys: "k \<in> set (mapKeys m) \<longleftrightarrow> mapHas m k"
  by (simp add: mapKeys_def mapHas_def)

lemma dropExpired_filter:
  assumes "wfMap m"
  shows "dropExpired m now = filter (\<lambda>(k, expiresAt). now < expiresAt) m"
proof -
  let ?f = "\<lambda>(k, expiresAt) acc. if now \<ge> (expiresAt :: int) then mapDelete acc k else acc"
  have "fold ?f rest (kept @ rest) = kept @ filter (\<lambda>(k, expiresAt). now < expiresAt) rest"
    if "wfMap (kept @ rest)" for kept rest :: "('a, int) js_map"
    using that
  proof (induction rest arbitrary: kept)
    case (Cons x rest)
    obtain k e where x: "x = (k, e)" by (cases x)
    have "\<not> mapHas kept k" "\<not> mapHas rest k"
      using Cons.prems by (auto simp: x wfMap_def mapHas_def)
    then have del: "mapDelete (kept @ x # rest) k = kept @ rest"
      by (simp add: x mapDelete_def mapHas_def) (metis (mono_tags, lifting) filter_id_conv image_eqI)
    show ?case
    proof (cases "now \<ge> e")
      case True
      moreover have "wfMap (kept @ rest)" using Cons.prems by (auto simp: wfMap_def)
      ultimately show ?thesis using Cons.IH [of kept] del by (simp add: x)
    next
      case False
      then show ?thesis using Cons.IH [of "kept @ [x]"] Cons.prems by (simp add: x)
    qed
  qed simp
  from this [of "[]" m] assms show ?thesis by (simp add: dropExpired_def)
qed

lemma evictOldest_drop: "wfMap m \<Longrightarrow> evictOldest maximum m = drop (length m - maximum) m"
proof (induction maximum m rule: evictOldest.induct)
  case (2 maximum k v m)
  then show ?case by (auto simp: Suc_diff_le)
qed simp

lemma wfMap_dropExpired [simp]: "wfMap m \<Longrightarrow> wfMap (dropExpired m now)"
  by (simp add: dropExpired_filter) (simp add: wfMap_def distinct_map_filter)

lemma wfMap_evictOldest [simp]: "wfMap m \<Longrightarrow> wfMap (evictOldest maximum m)"
  by (simp add: evictOldest_drop) (simp add: wfMap_def drop_map [symmetric])

lemma length_evictOldest: "wfMap m \<Longrightarrow> length (evictOldest maximum m) \<le> maximum"
  by (simp add: evictOldest_drop)

lemma evictOldest_id: "wfMap m \<Longrightarrow> length m \<le> maximum \<Longrightarrow> evictOldest maximum m = m"
  by (simp add: evictOldest_drop)

lemma length_dropExpired: "wfMap m \<Longrightarrow> length (dropExpired m now) \<le> length m"
  by (simp add: dropExpired_filter)

lemma mapGet_evictOldest_mapSet:
  assumes "wfMap m" "1 \<le> maximum" "mapHas m k \<longrightarrow> length m \<le> maximum"
  shows "mapGet (evictOldest maximum (mapSet m k v)) k = Some v"
proof (cases "mapHas m k")
  case True
  with assms show ?thesis by (simp add: evictOldest_id length_mapSet)
next
  case False
  with assms have "evictOldest maximum (mapSet m k v) = drop (Suc (length m) - maximum) m @ [(k, v)]"
    by (simp add: evictOldest_drop mapSet_new)
  moreover have "k \<notin> fst ` set (drop n m)" for n
    using False by (auto simp: mapHas_def dest: in_set_dropD)
  ultimately show ?thesis by (simp add: mapGet_def map_add_dom_app_simps(3) map_of_eq_None_iff [symmetric] map_add_def)
qed

lemma mapHas_evictOldest_mapSet:
  "wfMap m \<Longrightarrow> 1 \<le> maximum \<Longrightarrow> (mapHas m k \<longrightarrow> length m \<le> maximum) \<Longrightarrow> mapHas (evictOldest maximum (mapSet m k v)) k"
  by (simp add: mapHas_mapGet mapGet_evictOldest_mapSet)

lemma filter_mapSet_only:
  assumes "wfMap m" "mapHas m k" "\<forall>(k', v') \<in> set m. \<not> Q v'" "Q v"
  shows "filter (\<lambda>(k, v). Q v) (mapSet m k v) = [(k, v)]"
  using assms by (induction m k v rule: mapSet.induct) (auto simp: filter_empty_conv)

lemma set_mapSet: "wfMap m \<Longrightarrow> set (mapSet m k v) = insert (k, v) {e \<in> set m. fst e \<noteq> k}"
  by (induction m k v rule: mapSet.induct) (auto simp: mapHas_def)

lemma mapGet_dropExpired:
  "wfMap m \<Longrightarrow> mapGet (dropExpired m now) k = (case mapGet m k of Some e \<Rightarrow> if now < e then Some e else None | None \<Rightarrow> None)"
  by (simp add: dropExpired_filter, induction m) (auto simp: mapHas_mapGet mapGet_def split: option.splits)

end
