(* ===== verification/ChunkStore.thy ===== *)
theory ChunkStore
  imports JsMap
begin

text \<open>
  The loops both transfer state machines (\<^verbatim>\<open>transfer-state.ts\<close>,
  \<^verbatim>\<open>image-transfer-state.ts\<close>) run over their map of received chunks: the search for the first
  missing index and the assembly of the file into a zeroed \<^verbatim>\<open>Uint8Array\<close>, with the
  \<^verbatim>\<open>RangeError\<close> that \<^verbatim>\<open>set\<close> throws when a chunk does not fit; and the
  constant-time comparison of byte strings.
\<close>

type_synonym chunks = "(int, bytes) js_map"

text \<open>\<^verbatim>\<open>while (this.#chunks.has(this.#nextMissingIndex)) this.#nextMissingIndex += 1\<close>\<close>

function advanceMissing :: "chunks \<Rightarrow> int \<Rightarrow> int" where
  "advanceMissing chunks next = (if mapHas chunks next then advanceMissing chunks (next + 1) else next)"
  by pat_completeness auto
termination
proof (relation "measure (\<lambda>(chunks, next). card {k \<in> fst ` set chunks. next \<le> k})", goal_cases)
  case (2 chunks "next")
  then have "next \<in> {k \<in> fst ` set chunks. next \<le> k} - {k \<in> fst ` set chunks. next + 1 \<le> k}"
    by (simp add: mapHas_def)
  then have "{k \<in> fst ` set chunks. next + 1 \<le> k} \<subset> {k \<in> fst ` set chunks. next \<le> k}"
    unfolding psubset_eq by (intro conjI notI) (simp add: subset_iff, simp only: Diff_cancel empty_iff)
  then show ?case by (simp add: psubset_card_mono)
qed simp

declare advanceMissing.simps [simp del]

text \<open>\<^verbatim>\<open>file.set(bytes, offset)\<close>\<close>

definition setBytes :: "bytes \<Rightarrow> bytes \<Rightarrow> nat \<Rightarrow> bytes res" where
  "setBytes buf bs offset =
     (if offset + length bs > length buf then throw ''RangeError''
      else Inr (take offset buf @ bs @ drop (offset + length bs) buf))"

text \<open>The assembly loop; \<^verbatim>\<open>None\<close> is the early return on a missing index.\<close>

primrec assembleFrom :: "chunks \<Rightarrow> nat \<Rightarrow> int \<Rightarrow> bytes \<Rightarrow> nat \<Rightarrow> bytes option res" where
  "assembleFrom chunks 0 idx buf offset = Inr (Some buf)"
| "assembleFrom chunks (Suc n) idx buf offset =
     (case mapGet chunks idx of
        None \<Rightarrow> Inr None
      | Some bs \<Rightarrow> andThen (setBytes buf bs offset) (\<lambda>buf'.
          assembleFrom chunks n (idx + 1) buf' (offset + length bs)))"

definition assembleFile :: "chunks \<Rightarrow> int \<Rightarrow> int \<Rightarrow> bytes option res" where
  "assembleFile chunks chunkCount byteCount =
     assembleFrom chunks (nat chunkCount) 0 (replicate (nat byteCount) 0) 0"

unbundle bit_operations_syntax

definition bytesEqual :: "bytes \<Rightarrow> bytes \<Rightarrow> bool" where
  "bytesEqual left right =
     (if length left \<noteq> length right then False
      else fold (\<lambda>(l, r) difference. difference OR (l XOR r)) (zip left right) 0 = 0)"

definition storedBytes :: "chunks \<Rightarrow> nat" where
  "storedBytes chunks = sum_list (map (length \<circ> snd) chunks)"

section \<open>Comparison\<close>

lemma bytesEqual_iff [simp]: "bytesEqual left right \<longleftrightarrow> left = right"
proof -
  have "fold (\<lambda>(l, r) d. d OR (l XOR r)) (zip left right) d = 0 \<longleftrightarrow> d = 0 \<and> left = right"
    if "length left = length right" for d :: byte
    using that by (induction left right arbitrary: d rule: list_induct2)
      (auto simp: or_eq_0_iff xor_self_eq bit_eq_iff bit_simps)
  then show ?thesis by (auto simp: bytesEqual_def)
qed

section \<open>The first missing index\<close>

lemma advanceMissing_spec:
  "next \<le> advanceMissing chunks next \<and> \<not> mapHas chunks (advanceMissing chunks next)
    \<and> (\<forall>i. next \<le> i \<longrightarrow> i < advanceMissing chunks next \<longrightarrow> mapHas chunks i)"
proof (induction chunks "next" rule: advanceMissing.induct)
  case (1 chunks "next")
  show ?case
  proof (cases "mapHas chunks next")
    case True
    then have eq: "advanceMissing chunks next = advanceMissing chunks (next + 1)"
      by (subst advanceMissing.simps) simp
    show ?thesis
      using 1 [OF True] True unfolding eq by (metis add1_zle_eq dual_order.strict_iff_order le_less_trans
        zless_add1_eq order.trans less_imp_le)
  next
    case False
    then have "advanceMissing chunks next = next" by (subst advanceMissing.simps) simp
    with False show ?thesis by simp
  qed
qed

lemma advanceMissing_unique:
  assumes "next \<le> n" "\<not> mapHas chunks n" "\<And>i. next \<le> i \<Longrightarrow> i < n \<Longrightarrow> mapHas chunks i"
  shows "advanceMissing chunks next = n"
proof -
  note s = advanceMissing_spec [of "next" chunks]
  show ?thesis
  proof (rule antisym)
    show "advanceMissing chunks next \<le> n" using s assms(1,2) by (meson not_le)
    show "n \<le> advanceMissing chunks next" using s assms(3) by (meson not_le)
  qed
qed

section \<open>Assembly\<close>

lemma assembleFrom_concat:
  assumes "\<forall>i. idx \<le> i \<and> i < idx + int n \<longrightarrow> mapHas chunks i"
    and "pre = take offset buf" "length pre = offset"
    and "offset + length (concat (map (\<lambda>i. the (mapGet chunks (idx + int i))) [0..<n])) = length buf"
  shows "assembleFrom chunks n idx buf offset
    = Inr (Some (pre @ concat (map (\<lambda>i. the (mapGet chunks (idx + int i))) [0..<n])))"
  using assms
proof (induction n arbitrary: idx buf offset pre)
  case (Suc n)
  obtain b where b: "mapGet chunks idx = Some b"
    using Suc.prems(1) by (auto simp: mapHas_mapGet)
  have shift: "map (\<lambda>i. the (mapGet chunks (idx + int i))) [0..<Suc n]
      = b # map (\<lambda>i. the (mapGet chunks (idx + 1 + int i))) [0..<n]"
    by (simp add: upt_conv_Cons map_Suc_upt [symmetric] b ac_simps del: upt_Suc)
  define rest where "rest = concat (map (\<lambda>i. the (mapGet chunks (idx + 1 + int i))) [0..<n])"
  have total: "concat (map (\<lambda>i. the (mapGet chunks (idx + int i))) [0..<Suc n]) = b @ rest"
    unfolding shift rest_def by simp
  have len: "offset + length b + length rest = length buf"
    using Suc.prems(4) unfolding total by simp
  define buf' where "buf' = take offset buf @ b @ drop (offset + length b) buf"
  have "assembleFrom chunks n (idx + 1) buf' (offset + length b) = Inr (Some ((pre @ b) @ rest))"
    unfolding rest_def
  proof (rule Suc.IH)
    show "\<forall>i. idx + 1 \<le> i \<and> i < idx + 1 + int n \<longrightarrow> mapHas chunks i" using Suc.prems(1) by auto
    show "pre @ b = take (offset + length b) buf'" "length (pre @ b) = offset + length b"
      using Suc.prems(2,3) len by (auto simp: buf'_def)
    show "offset + length b + length (concat (map (\<lambda>i. the (mapGet chunks (idx + 1 + int i))) [0..<n])) = length buf'"
      using len by (simp add: buf'_def rest_def [symmetric])
  qed
  then show ?case
    using len unfolding total by (simp add: b setBytes_def buf'_def)
qed simp

lemma storedBytes_indices:
  assumes "wfMap chunks" "fst ` set chunks = {0..<int n}"
  shows "length (concat (map (\<lambda>i. the (mapGet chunks (int i))) [0..<n])) = storedBytes chunks"
proof -
  have "storedBytes chunks = (\<Sum>e \<in> set chunks. length (snd e))"
    unfolding storedBytes_def o_def
    using assms(1) by (intro sum_list_distinct_conv_sum_set) (auto simp: wfMap_def distinct_map)
  also have "\<dots> = (\<Sum>k \<in> fst ` set chunks. length (the (mapGet chunks k)))"
    using assms(1) by (subst sum.reindex) (auto simp: wfMap_def distinct_map mapGet_def intro!: sum.cong)
  also have "fst ` set chunks = int ` {0..<n}"
    using assms(2) by (simp add: image_int_atLeastLessThan)
  also have "(\<Sum>k \<in> int ` {0..<n}. length (the (mapGet chunks k))) = (\<Sum>i \<in> {0..<n}. length (the (mapGet chunks (int i))))"
    by (subst sum.reindex) (auto simp: o_def)
  also have "\<dots> = length (concat (map (\<lambda>i. the (mapGet chunks (int i))) [0..<n]))"
    by (simp add: length_concat o_def interv_sum_list_conv_sum_set_nat)
  finally show ?thesis by simp
qed

lemma assembleFile_complete:
  assumes "wfMap chunks" "fst ` set chunks = {0..<chunkCount}" "int (storedBytes chunks) = byteCount" "0 \<le> chunkCount"
  shows "assembleFile chunks chunkCount byteCount
    = Inr (Some (concat (map (\<lambda>i. the (mapGet chunks (int i))) [0..<nat chunkCount])))"
proof -
  have "fst ` set chunks = {0..<int (nat chunkCount)}" using assms(2,4) by simp
  note len = storedBytes_indices [OF assms(1) this]
  show ?thesis
    unfolding assembleFile_def
    using assembleFrom_concat [of 0 "nat chunkCount" chunks "[]" 0 "replicate (nat byteCount) 0"] assms len
    by (auto simp: mapHas_def)
qed

section \<open>Cutting a file into chunks\<close>

definition chunkAt :: "bytes \<Rightarrow> nat \<Rightarrow> nat \<Rightarrow> bytes" where
  "chunkAt buf sz i = take sz (drop (i * sz) buf)"

lemma concat_chunkAt:
  "length buf \<le> n * sz \<Longrightarrow> concat (map (chunkAt buf sz) [0..<n]) = buf"
proof (induction n arbitrary: buf)
  case (Suc n)
  have "map (chunkAt buf sz) [0..<Suc n] = take sz buf # map (chunkAt (drop sz buf) sz) [0..<n]"
    by (simp add: upt_conv_Cons map_Suc_upt [symmetric] chunkAt_def ac_simps del: upt_Suc)
  moreover have "concat (map (chunkAt (drop sz buf) sz) [0..<n]) = drop sz buf"
    using Suc.prems by (intro Suc.IH) auto
  ultimately show ?case by simp
qed simp

lemma storedBytes_simps [simp]: "storedBytes [] = 0" "storedBytes (m @ [(k, b)]) = storedBytes m + length b"
  by (simp_all add: storedBytes_def)

lemma chunkAt_lengths:
  assumes "0 < c" "(n - 1) * c < int (length buf)" "int i < n"
  shows "chunkAt buf (nat c) i \<noteq> [] \<and> int (length (chunkAt buf (nat c) i)) \<le> c
    \<and> (int i + 1 < n \<longrightarrow> int (length (chunkAt buf (nat c) i)) = c)"
proof -
  obtain k where k: "c = int k" "0 < k" using assms(1) by (metis pos_int_cases)
  have "int i * c \<le> (n - 1) * c" using assms by (intro mult_right_mono) auto
  then have lt: "int i * c < int (length buf)" using assms(2) by linarith
  then have "i * k \<le> length buf" unfolding k of_nat_mult [symmetric] by linarith
  then have len: "int (length (chunkAt buf (nat c) i)) = min c (int (length buf) - int i * c)"
    by (simp add: k chunkAt_def of_nat_min of_nat_diff min.commute)
  have "int (length (chunkAt buf (nat c) i)) = c" if "int i + 1 < n"
  proof -
    have "(int i + 1) * c \<le> (n - 1) * c" using that assms(1) by (intro mult_right_mono) auto
    then have "(int i + 1) * c < int (length buf)" using assms(2) by linarith
    then show ?thesis using len by (simp add: algebra_simps)
  qed
  moreover have "0 < int (length (chunkAt buf (nat c) i))" using len lt assms(1) by simp
  ultimately show ?thesis using len by auto
qed

section \<open>A buffer of chunks\<close>

text \<open>
  \<open>firstMissing\<close> is what the search loop establishes. \<open>bufferOk\<close> is the invariant of the
  buffer: distinct indices below the chunk count, the sizes a chunk may have, the reorder window and
  the byte counter. \<open>windowOk w seen order\<close> says that a chunk comes only after every chunk that
  lies more than \<open>w\<close> before it.
\<close>

definition firstMissing :: "chunks \<Rightarrow> int \<Rightarrow> bool" where
  "firstMissing chunks n \<longleftrightarrow> 0 \<le> n \<and> \<not> mapHas chunks n \<and> (\<forall>k \<in> {0..<n}. mapHas chunks k)"

fun windowOk :: "nat \<Rightarrow> nat list \<Rightarrow> nat list \<Rightarrow> bool" where
  "windowOk w seen [] = True"
| "windowOk w seen (i # order) = ((\<forall>j \<in> {..<i - w}. j \<in> set seen) \<and> windowOk w (seen @ [i]) order)"

lemma firstMissing_advance:
  assumes "firstMissing chunks n"
  shows "firstMissing (mapSet chunks i b) (advanceMissing (mapSet chunks i b) n) \<and> n \<le> advanceMissing (mapSet chunks i b) n"
proof -
  note a = advanceMissing_spec [of n "mapSet chunks i b"]
  have "mapHas (mapSet chunks i b) k" if "0 \<le> k" "k < advanceMissing (mapSet chunks i b) n" for k
  proof (cases "k < n")
    case True
    with assms that show ?thesis by (simp add: firstMissing_def)
  next
    case False
    with a that show ?thesis by simp
  qed
  with a assms show ?thesis by (auto simp: firstMissing_def)
qed

definition chunkFits :: "int \<Rightarrow> int \<Rightarrow> int \<Rightarrow> bytes \<Rightarrow> bool" where
  "chunkFits count c i b \<longleftrightarrow> 0 \<le> i \<and> i < count \<and> b \<noteq> [] \<and> int (length b) \<le> c \<and> (i + 1 < count \<longrightarrow> int (length b) = c)"

definition bufferOk :: "int \<Rightarrow> int \<Rightarrow> int \<Rightarrow> chunks \<Rightarrow> int \<Rightarrow> int \<Rightarrow> bool" where
  "bufferOk count c window chunks received nxt \<longleftrightarrow> wfMap chunks
     \<and> (\<forall>(i, b) \<in> set chunks. chunkFits count c i b \<and> i - nxt \<le> window)
     \<and> received = int (storedBytes chunks) \<and> firstMissing chunks nxt"

lemma bufferOk_empty: "bufferOk count c window [] 0 0"
  by (simp add: bufferOk_def firstMissing_def)

lemma bufferOk_store:
  assumes "bufferOk count c window chunks received nxt" "mapGet chunks i = None"
    and "chunkFits count c i b" "i - nxt \<le> window"
  shows "bufferOk count c window (mapSet chunks i b) (received + int (length b)) (advanceMissing (mapSet chunks i b) nxt)"
proof -
  have "\<not> mapHas chunks i" using assms(2) by (simp add: mapHas_mapGet)
  with assms firstMissing_advance [of chunks nxt i b] show ?thesis
    by (auto simp: bufferOk_def mapSet_new)
qed

lemma bufferOk_full:
  assumes "bufferOk count c window chunks received nxt" "int (length chunks) = count"
  shows "fst ` set chunks = {0..<count}"
proof (rule card_subset_eq)
  show "fst ` set chunks \<subseteq> {0..<count}"
    using assms(1) by (auto simp: bufferOk_def chunkFits_def)
  have "card (set (map fst chunks)) = length chunks"
    using assms(1) unfolding bufferOk_def wfMap_def by (metis distinct_card length_map)
  then show "card (fst ` set chunks) = card {0..<count}" using assms(2) by simp
qed simp

definition joinChunks :: "chunks \<Rightarrow> int \<Rightarrow> bytes" where
  "joinChunks chunks count = concat (map (\<lambda>i. the (mapGet chunks (int i))) [0..<nat count])"

lemma bufferOk_assemble:
  assumes "bufferOk count c window chunks received nxt" "int (length chunks) = count" "received = byteCount"
  shows "assembleFile chunks count byteCount = Inr (Some (joinChunks chunks count))"
    "int (length (joinChunks chunks count)) = byteCount"
proof -
  have ok: "wfMap chunks" "received = int (storedBytes chunks)" "0 \<le> count" using assms(1,2) by (auto simp: bufferOk_def)
  note full = bufferOk_full [OF assms(1,2)]
  show "assembleFile chunks count byteCount = Inr (Some (joinChunks chunks count))"
    using assembleFile_complete [OF ok(1) full _ ok(3)] ok(2) assms(3) by (simp add: joinChunks_def)
  show "int (length (joinChunks chunks count)) = byteCount"
    using storedBytes_indices [OF ok(1), of "nat count"] full ok assms(3) by (simp add: joinChunks_def)
qed

definition arrivedChunks :: "bytes \<Rightarrow> int \<Rightarrow> nat list \<Rightarrow> chunks" where
  "arrivedChunks buf c arrived = map (\<lambda>i. (int i, chunkAt buf (nat c) i)) arrived"

lemma mapGet_arrivedChunks: "mapGet (arrivedChunks buf c arrived) (int i) = (if i \<in> set arrived then Some (chunkAt buf (nat c) i) else None)"
  by (induction arrived) (auto simp: arrivedChunks_def mapGet_def)

lemma joinChunks_arrived:
  assumes "set arrived = {..<nat count}" "0 \<le> c" "int (length buf) \<le> count * c"
  shows "joinChunks (arrivedChunks buf c arrived) count = buf"
proof -
  have "joinChunks (arrivedChunks buf c arrived) count = concat (map (chunkAt buf (nat c)) [0..<nat count])"
    unfolding joinChunks_def mapGet_arrivedChunks using assms(1) by (intro arg_cong [where f = concat] map_cong) auto
  also have "\<dots> = buf"
  proof (rule concat_chunkAt)
    have "count * c \<le> int (nat count) * c" using assms(2) by (intro mult_right_mono) auto
    then have "int (length buf) \<le> int (nat count * nat c)" using assms(2,3) by simp
    then show "length buf \<le> nat count * nat c" by linarith
  qed
  finally show ?thesis .
qed

lemma windowOk_first:
  assumes "bufferOk count c window (arrivedChunks buf c arrived) received nxt" "0 \<le> window"
    and "\<forall>j \<in> {..<i - nat window}. j \<in> set arrived"
  shows "int i - nxt \<le> window"
proof (rule ccontr)
  assume far: "\<not> int i - nxt \<le> window"
  have fm: "firstMissing (arrivedChunks buf c arrived) nxt" using assms(1) by (simp add: bufferOk_def)
  then obtain j where j: "nxt = int j" by (metis firstMissing_def nonneg_int_cases)
  with far assms(2) have "j \<in> {..<i - nat window}" by auto
  with assms(3) have "mapHas (arrivedChunks buf c arrived) nxt" by (auto simp: j mapHas_mapGet mapGet_arrivedChunks)
  with fm show False by (simp add: firstMissing_def)
qed

section \<open>The contract of a transfer state machine\<close>

text \<open>
  What both transfer machines promise of every operation: the invariant is kept, and an operation on
  a transfer that has ended leaves its phase alone. Both facts then hold of any sequence of operations.
\<close>

locale transfer_machine = invariant_machine run inv
  for run :: "'op \<Rightarrow> 's \<Rightarrow> 's" and inv :: "'s \<Rightarrow> bool" +
  fixes ended :: "'s \<Rightarrow> bool" and phase :: "'s \<Rightarrow> 'p"
  assumes ended_run: "inv s \<Longrightarrow> ended s \<Longrightarrow> ended (run op s) \<and> phase (run op s) = phase s"
begin

lemma ended_runs: "inv s \<Longrightarrow> ended s \<Longrightarrow> ended (fold run ops s) \<and> phase (fold run ops s) = phase s"
proof (induction ops arbitrary: s)
  case (Cons op ops)
  then show ?case using ended_run [of s op] inv_run [of s op] by simp
qed simp

lemma ended_once:
  "inv s \<Longrightarrow> ended (fold run ops s) \<Longrightarrow> phase (fold run (ops @ more) s) = phase (fold run ops s)"
  using inv_runs ended_runs by simp

end

end
