(* ===== verification/AttachmentTransfer.thy ===== *)
theory AttachmentTransfer
  imports Attachment ChunkStore
begin

text \<open>
  \<^verbatim>\<open>application-payload/transfer-state.ts\<close>: the state machine of one file transfer and the
  registry that owns it.

  A method of the source is a function from the state to its result and the state after it.
  \<^verbatim>\<open>receiveChunk\<close> awaits the digest port, and other methods may run before it resumes; its two
  halves are \<open>receiveChunkStart\<close>, up to the \<^verbatim>\<open>await\<close>, and
  \<open>receiveChunkFinish\<close>, after it, and \<open>receiveChunk\<close> is the call nothing interrupts. The
  digest port is a parameter, \<open>None\<close> being a rejected promise. \<open>transferStep\<close> is the
  relation of all the ways the methods can interleave.
\<close>

section \<open>Data\<close>

datatype AttachmentTransferDirection = Inbound | Outbound

datatype AttachmentTransferPhase =
    Offered | Accepted | Completed | Rejected | Cancelled | Expired | Aborted

datatype AttachmentTransferFailure =
    NotAccepted | FailExpired | FailRejected | FailCancelled | WrongDirection | WrongTransfer
  | InvalidDecision | InvalidChunk | ReorderLimit | ConflictingDuplicate | IntegrityFailed | DigestFailed

datatype okStatus = OkAccepted | OkDuplicate | OkChunkStored

datatype endStatus = EndRejected | EndCancelled | EndExpired | EndAborted

datatype AttachmentTransferResult =
    ResultOk okStatus AttachmentTransferPhase
  | ResultCompleted bytes
  | ResultEnded endStatus AttachmentTransferPhase AttachmentTransferFailure
  | ResultIgnored AttachmentTransferPhase AttachmentTransferFailure

record AttachmentTransferSnapshot =
  snap_direction :: AttachmentTransferDirection
  snap_phase :: AttachmentTransferPhase
  snap_transferId :: js_string
  snap_manifestId :: js_string
  snap_receivedChunks :: nat
  snap_receivedBytes :: int
  snap_nextMissingIndex :: int

record AttachmentTransferOptions =
  opt_maximumTransferBytes :: "int option"
  opt_maximumReorderChunks :: "int option"
  opt_maximumRememberedTransfers :: "int option"

record AttachmentTransferState =
  ts_direction :: AttachmentTransferDirection
  ts_manifest :: AttachmentManifest
  ts_maximumReorderChunks :: int
  ts_chunks :: chunks
  ts_phase :: AttachmentTransferPhase
  ts_receivedBytes :: int
  ts_nextMissingIndex :: int

type_synonym transferOutcome = "AttachmentTransferResult \<times> AttachmentTransferState"

definition terminalPhases :: "AttachmentTransferPhase set" where
  "terminalPhases = {Completed, Rejected, Cancelled, Expired, Aborted}"

definition terminal :: "AttachmentTransferState \<Rightarrow> bool" where
  "terminal s \<longleftrightarrow> ts_phase s \<in> terminalPhases"

definition snapshot :: "AttachmentTransferState \<Rightarrow> AttachmentTransferSnapshot" where
  "snapshot s =
     \<lparr>snap_direction = ts_direction s, snap_phase = ts_phase s,
      snap_transferId = manifest_transferId (ts_manifest s),
      snap_manifestId = manifest_manifestId (ts_manifest s),
      snap_receivedChunks = length (ts_chunks s), snap_receivedBytes = ts_receivedBytes s,
      snap_nextMissingIndex = ts_nextMissingIndex s\<rparr>"

section \<open>Opening\<close>

definition validateOpenOptions :: "AttachmentTransferOptions \<Rightarrow> unit res" where
  "validateOpenOptions options =
     (let maximumTransferBytes = case_option maxDirectAttachmentBytes id (opt_maximumTransferBytes options);
          maximumReorderChunks = case_option 64 id (opt_maximumReorderChunks options)
      in throwIf
        (\<not> isSafeInteger maximumTransferBytes \<or> maximumTransferBytes < 1
         \<or> maximumTransferBytes > maxDirectAttachmentBytes
         \<or> \<not> isSafeInteger maximumReorderChunks \<or> maximumReorderChunks < 0
         \<or> maximumReorderChunks \<ge> maxAttachmentChunks)
        (PlainError (lit ''invalid attachment transfer options'')))"

definition copyManifest :: "AttachmentManifest \<Rightarrow> AttachmentManifest" where
  "copyManifest m = m\<lparr>manifest_signature := manifest_signature m\<rparr>"

definition newTransferState ::
  "AttachmentTransferDirection \<Rightarrow> AttachmentManifest \<Rightarrow> int \<Rightarrow> AttachmentTransferState" where
  "newTransferState direction manifest maximumReorderChunks =
     \<lparr>ts_direction = direction, ts_manifest = copyManifest manifest,
      ts_maximumReorderChunks = maximumReorderChunks, ts_chunks = [], ts_phase = Offered,
      ts_receivedBytes = 0, ts_nextMissingIndex = 0\<rparr>"

definition openTransfer ::
  "AttachmentTransferDirection \<Rightarrow> AttachmentManifest \<Rightarrow> AttachmentTransferOptions \<Rightarrow> int
     \<Rightarrow> AttachmentTransferState res" where
  "openTransfer direction manifest options now =
     andThen (attachmentManifestSigningBytes manifest) (\<lambda>_.
     andThen (validateOpenOptions options) (\<lambda>_.
       if \<not> isSafeInteger now \<or> now \<ge> manifest_expiresAt manifest
       then throw ''attachment transfer is expired''
       else if manifest_byteCount manifest > case_option maxDirectAttachmentBytes id (opt_maximumTransferBytes options)
       then throw ''attachment transfer exceeds local limit''
       else Inr (newTransferState direction manifest (case_option 64 id (opt_maximumReorderChunks options)))))"

section \<open>Private methods\<close>

definition clearChunks :: "AttachmentTransferState \<Rightarrow> AttachmentTransferState" where
  "clearChunks s = s\<lparr>ts_chunks := [], ts_receivedBytes := 0\<rparr>"

definition okResult :: "AttachmentTransferState \<Rightarrow> okStatus \<Rightarrow> transferOutcome" where
  "okResult s status = (ResultOk status (ts_phase s), s)"

definition terminalResult :: "AttachmentTransferState \<Rightarrow> AttachmentTransferFailure \<Rightarrow> transferOutcome" where
  "terminalResult s reason =
     (let status = (if ts_phase s = Rejected then EndRejected
                    else if ts_phase s = Cancelled then EndCancelled
                    else if ts_phase s = Expired then EndExpired else EndAborted)
      in (ResultEnded status (ts_phase s) reason, s))"

definition ignoreResult :: "AttachmentTransferState \<Rightarrow> AttachmentTransferFailure \<Rightarrow> transferOutcome" where
  "ignoreResult s reason = (ResultIgnored (ts_phase s) reason, s)"

definition abortWith :: "AttachmentTransferState \<Rightarrow> AttachmentTransferFailure \<Rightarrow> transferOutcome" where
  "abortWith s reason =
     terminalResult (if \<not> terminal s then clearChunks (s\<lparr>ts_phase := Aborted\<rparr>) else s) reason"

definition conflict :: "AttachmentTransferState \<Rightarrow> transferOutcome" where
  "conflict s = abortWith s ConflictingDuplicate"

definition cancelNow :: "AttachmentTransferState \<Rightarrow> transferOutcome" where
  "cancelNow s =
     (if ts_phase s = Cancelled then okResult s OkDuplicate
      else if terminal s then conflict s
      else terminalResult (clearChunks (s\<lparr>ts_phase := Cancelled\<rparr>)) FailCancelled)"

definition checkExpired :: "AttachmentTransferState \<Rightarrow> int \<Rightarrow> bool \<times> AttachmentTransferState" where
  "checkExpired s now =
     (if \<not> isSafeInteger now then (True, s)
      else if \<not> terminal s \<and> now \<ge> manifest_expiresAt (ts_manifest s)
      then (True, clearChunks (s\<lparr>ts_phase := Expired\<rparr>))
      else (ts_phase s = Expired, s))"

definition matchesDecision ::
  "AttachmentTransferState \<Rightarrow> AttachmentDecision \<Rightarrow> AttachmentDecisionKind option \<Rightarrow> int \<Rightarrow> bool" where
  "matchesDecision s decision requiredKind now =
     (case attachmentDecisionSigningBytes decision of
        Inl _ \<Rightarrow> False
      | Inr _ \<Rightarrow> decision_transferId decision = manifest_transferId (ts_manifest s)
          \<and> decision_manifestId decision = manifest_manifestId (ts_manifest s)
          \<and> (requiredKind = None \<or> requiredKind = Some (decision_kind decision))
          \<and> isSafeInteger now
          \<and> now < decision_expiresAt decision
          \<and> now < manifest_expiresAt (ts_manifest s))"

text \<open>The guard \<^verbatim>\<open>if (this.#expire(now)) return this.#terminal("expired")\<close> every method opens with.\<close>

definition unlessExpired ::
  "AttachmentTransferState \<Rightarrow> int \<Rightarrow> (AttachmentTransferState \<Rightarrow> transferOutcome) \<Rightarrow> transferOutcome" where
  "unlessExpired s now continue =
     (case checkExpired s now of (expired, s') \<Rightarrow>
        if expired then terminalResult s' FailExpired else continue s')"

section \<open>Public methods\<close>

definition acceptTransfer :: "AttachmentTransferState \<Rightarrow> AttachmentDecision \<Rightarrow> int \<Rightarrow> transferOutcome" where
  "acceptTransfer s decision now =
     (if ts_direction s \<noteq> Inbound then ignoreResult s WrongDirection
      else unlessExpired s now (\<lambda>s.
        if \<not> matchesDecision s decision (Some Accept) now then abortWith s InvalidDecision
        else if ts_phase s = Accepted then okResult s OkDuplicate
        else if ts_phase s \<noteq> Offered then conflict s
        else okResult (s\<lparr>ts_phase := Accepted\<rparr>) OkAccepted))"

definition receiveDecision :: "AttachmentTransferState \<Rightarrow> AttachmentDecision \<Rightarrow> int \<Rightarrow> transferOutcome" where
  "receiveDecision s decision now =
     (if ts_direction s \<noteq> Outbound then ignoreResult s WrongDirection
      else unlessExpired s now (\<lambda>s.
        if \<not> matchesDecision s decision None now then abortWith s InvalidDecision
        else if decision_kind decision = Cancel then cancelNow s
        else if ts_phase s = Offered \<and> decision_kind decision = Accept
        then okResult (s\<lparr>ts_phase := Accepted\<rparr>) OkAccepted
        else if ts_phase s = Offered \<and> decision_kind decision = Reject
        then terminalResult (s\<lparr>ts_phase := Rejected\<rparr>) FailRejected
        else if ts_phase s = Accepted \<and> decision_kind decision = Accept then okResult s OkDuplicate
        else conflict s))"

definition cancelTransfer :: "AttachmentTransferState \<Rightarrow> AttachmentDecision \<Rightarrow> int \<Rightarrow> transferOutcome" where
  "cancelTransfer s decision now =
     unlessExpired s now (\<lambda>s.
       if \<not> matchesDecision s decision (Some Cancel) now then abortWith s InvalidDecision
       else cancelNow s)"

definition admitOutboundChunk :: "AttachmentTransferState \<Rightarrow> AttachmentChunk \<Rightarrow> int \<Rightarrow> transferOutcome" where
  "admitOutboundChunk s chunk now =
     (if ts_direction s \<noteq> Outbound then ignoreResult s WrongDirection
      else unlessExpired s now (\<lambda>s.
        if ts_phase s \<noteq> Accepted then ignoreResult s NotAccepted
        else if \<not> succeeds (validateChunkForManifest chunk (ts_manifest s)) then abortWith s InvalidChunk
        else okResult s OkChunkStored))"

datatype chunkProgress =
    Settled transferOutcome
  | AwaitDigest bytes AttachmentTransferState

definition storeChunk :: "AttachmentTransferState \<Rightarrow> int \<Rightarrow> bytes \<Rightarrow> AttachmentTransferState" where
  "storeChunk s idx copy =
     (let chunks = mapSet (ts_chunks s) idx copy
      in s\<lparr>ts_chunks := chunks,
           ts_receivedBytes := ts_receivedBytes s + int (length copy),
           ts_nextMissingIndex := advanceMissing chunks (ts_nextMissingIndex s)\<rparr>)"

definition assembleTransfer :: "AttachmentTransferState \<Rightarrow> chunkProgress res" where
  "assembleTransfer s =
     (if int (length (ts_chunks s)) \<noteq> manifest_chunkCount (ts_manifest s) then Inr (Settled (okResult s OkChunkStored))
      else if ts_receivedBytes s \<noteq> manifest_byteCount (ts_manifest s) then Inr (Settled (abortWith s InvalidChunk))
      else andThen (assembleFile (ts_chunks s) (manifest_chunkCount (ts_manifest s)) (manifest_byteCount (ts_manifest s)))
        (\<lambda>assembled. case assembled of
            None \<Rightarrow> Inr (Settled (abortWith s InvalidChunk))
          | Some file \<Rightarrow> Inr (AwaitDigest file s)))"

definition receiveChunkStart :: "AttachmentTransferState \<Rightarrow> AttachmentChunk \<Rightarrow> int \<Rightarrow> chunkProgress res" where
  "receiveChunkStart s chunk now =
     (if ts_direction s \<noteq> Inbound then Inr (Settled (ignoreResult s WrongDirection))
      else case checkExpired s now of (expired, s) \<Rightarrow>
        if expired then Inr (Settled (terminalResult s FailExpired))
        else if ts_phase s \<noteq> Accepted then Inr (Settled (ignoreResult s NotAccepted))
        else if \<not> succeeds (validateChunkForManifest chunk (ts_manifest s)) then Inr (Settled (abortWith s InvalidChunk))
        else case mapGet (ts_chunks s) (chunk_index chunk) of
            Some existing \<Rightarrow>
              Inr (Settled (if bytesEqual existing (chunk_bytes chunk) then okResult s OkDuplicate
                            else abortWith s ConflictingDuplicate))
          | None \<Rightarrow>
              if chunk_index chunk - ts_nextMissingIndex s > ts_maximumReorderChunks s
              then Inr (Settled (abortWith s ReorderLimit))
              else assembleTransfer (storeChunk s (chunk_index chunk) (chunk_bytes chunk)))"

definition receiveChunkFinish ::
  "AttachmentTransferState \<Rightarrow> bytes \<Rightarrow> js_string option \<Rightarrow> transferOutcome" where
  "receiveChunkFinish s file digested =
     (case digested of
        None \<Rightarrow> abortWith s DigestFailed
      | Some d \<Rightarrow>
          if d \<noteq> manifest_sha256 (ts_manifest s) then abortWith s IntegrityFailed
          else (ResultCompleted file, clearChunks (s\<lparr>ts_phase := Completed\<rparr>)))"

definition receiveChunk ::
  "(bytes \<Rightarrow> js_string option) \<Rightarrow> AttachmentTransferState \<Rightarrow> AttachmentChunk \<Rightarrow> int \<Rightarrow> transferOutcome res" where
  "receiveChunk digest s chunk now =
     andThen (receiveChunkStart s chunk now) (\<lambda>progress. case progress of
         Settled outcome \<Rightarrow> Inr outcome
       | AwaitDigest file s' \<Rightarrow> Inr (receiveChunkFinish s' file (digest file)))"

definition expireTransfer :: "AttachmentTransferState \<Rightarrow> int \<Rightarrow> transferOutcome" where
  "expireTransfer s now = unlessExpired s now (\<lambda>s. okResult s OkDuplicate)"

definition abortTransfer :: "AttachmentTransferState \<Rightarrow> transferOutcome" where
  "abortTransfer s = abortWith s ConflictingDuplicate"

section \<open>The registry\<close>

record AttachmentTransferRegistry =
  reg_direction :: AttachmentTransferDirection
  reg_options :: AttachmentTransferOptions
  reg_closed :: "(js_string, int) js_map"
  reg_active :: "AttachmentTransferState option"

datatype AttachmentTransferOpenResult = Opened | DuplicateOffer | Busy | Replayed | OpenAborted

definition rememberedTransfers :: "AttachmentTransferOptions \<Rightarrow> int" where
  "rememberedTransfers options = case_option 16 id (opt_maximumRememberedTransfers options)"

definition newRegistry ::
  "AttachmentTransferDirection \<Rightarrow> AttachmentTransferOptions \<Rightarrow> AttachmentTransferRegistry res" where
  "newRegistry direction options =
     andThen (validateOpenOptions options) (\<lambda>_.
       if \<not> isSafeInteger (rememberedTransfers options) \<or> rememberedTransfers options < 1
          \<or> rememberedTransfers options > 64
       then throw ''invalid attachment transfer registry options''
       else Inr \<lparr>reg_direction = direction, reg_options = options, reg_closed = [], reg_active = None\<rparr>)"

definition transferKey :: "AttachmentManifest \<Rightarrow> js_string" where
  "transferKey manifest = manifest_transferId manifest @ lit '':'' @ manifest_manifestId manifest"

definition sweep :: "AttachmentTransferRegistry \<Rightarrow> int \<Rightarrow> AttachmentTransferRegistry res" where
  "sweep r now =
     (if \<not> isSafeInteger now then throw ''invalid attachment transfer time''
      else
        let closed = dropExpired (reg_closed r) now;
            r' = (case reg_active r of
                    Some t \<Rightarrow> if terminal t
                      then r\<lparr>reg_closed := mapSet closed (transferKey (ts_manifest t)) (manifest_expiresAt (ts_manifest t)),
                             reg_active := None\<rparr>
                      else r\<lparr>reg_closed := closed\<rparr>
                  | None \<Rightarrow> r\<lparr>reg_closed := closed\<rparr>)
        in Inr (r'\<lparr>reg_closed := evictOldest (nat (rememberedTransfers (reg_options r))) (reg_closed r')\<rparr>))"

text \<open>
  \<^verbatim>\<open>open\<close> may throw after its first sweep, which then keeps its effect, so the model returns
  the registry with the error as well.
\<close>

definition openRegistry ::
  "AttachmentTransferRegistry \<Rightarrow> AttachmentManifest \<Rightarrow> int
     \<Rightarrow> AttachmentTransferOpenResult res \<times> AttachmentTransferRegistry" where
  "openRegistry r0 manifest now =
     (case sweep r0 now of
        Inl e \<Rightarrow> (Inl e, r0)
      | Inr r \<Rightarrow>
        let key = transferKey manifest in
        if mapHas (reg_closed r) key then (Inr Replayed, r)
        else case reg_active r of
            Some t \<Rightarrow>
              if transferKey (ts_manifest t) \<noteq> key then (Inr Busy, r)
              else (case attachmentManifestSigningBytes (ts_manifest t) of
                  Inl e \<Rightarrow> (Inl e, r)
                | Inr current \<Rightarrow> (case attachmentManifestSigningBytes manifest of
                    Inl e \<Rightarrow> (Inl e, r)
                  | Inr offered \<Rightarrow>
                    if bytesEqual current offered then (Inr DuplicateOffer, r)
                    else let aborted = r\<lparr>reg_active := Some (snd (abortTransfer t))\<rparr> in
                      (case sweep aborted now of
                         Inl e \<Rightarrow> (Inl e, aborted)
                       | Inr r' \<Rightarrow> (Inr OpenAborted, r'))))
          | None \<Rightarrow>
              (case openTransfer (reg_direction r) manifest (reg_options r) now of
                 Inl e \<Rightarrow> (Inl e, r)
               | Inr t \<Rightarrow> (Inr Opened, r\<lparr>reg_active := Some t\<rparr>)))"

definition expireRegistry :: "AttachmentTransferRegistry \<Rightarrow> int \<Rightarrow> AttachmentTransferRegistry res" where
  "expireRegistry r now =
     sweep (r\<lparr>reg_active := map_option (\<lambda>t. snd (expireTransfer t now)) (reg_active r)\<rparr>) now"

section \<open>The invariant\<close>

text \<open>
  The received chunks have distinct indices below the chunk count, the sizes the manifest allows and
  lie within the reorder window; the byte counter is their total; the first missing index is exact
  while the transfer is live; and only an accepted inbound transfer holds chunks at all.
\<close>

definition chunkOk :: "AttachmentTransferState \<Rightarrow> int \<Rightarrow> bytes \<Rightarrow> bool" where
  "chunkOk s i b \<longleftrightarrow> 0 \<le> i \<and> i < manifest_chunkCount (ts_manifest s) \<and> b \<noteq> []
     \<and> int (length b) \<le> manifest_chunkBytes (ts_manifest s)
     \<and> (i + 1 < manifest_chunkCount (ts_manifest s) \<longrightarrow> int (length b) = manifest_chunkBytes (ts_manifest s))
     \<and> i - ts_nextMissingIndex s \<le> ts_maximumReorderChunks s"

definition transferInv :: "AttachmentTransferState \<Rightarrow> bool" where
  "transferInv s \<longleftrightarrow> succeeds (validateManifest (ts_manifest s)) \<and> 0 \<le> ts_maximumReorderChunks s
     \<and> wfMap (ts_chunks s) \<and> (\<forall>(i, b) \<in> set (ts_chunks s). chunkOk s i b)
     \<and> ts_receivedBytes s = int (storedBytes (ts_chunks s))
     \<and> (\<not> terminal s \<longrightarrow> firstMissing (ts_chunks s) (ts_nextMissingIndex s))
     \<and> (ts_chunks s \<noteq> [] \<longrightarrow> ts_phase s = Accepted \<and> ts_direction s = Inbound)"

lemma terminal_phase_simps [simp]:
  "terminal (s\<lparr>ts_phase := p\<rparr>) \<longleftrightarrow> p \<in> terminalPhases"
  "terminal (clearChunks s) \<longleftrightarrow> terminal s"
  "ts_phase (clearChunks s) = ts_phase s"
  "ts_manifest (clearChunks s) = ts_manifest s"
  by (simp_all add: terminal_def clearChunks_def)

lemma transferInv_end:
  "transferInv s \<Longrightarrow> p \<in> terminalPhases \<Longrightarrow> transferInv (clearChunks (s\<lparr>ts_phase := p\<rparr>))"
  by (auto simp: transferInv_def clearChunks_def terminal_def)

lemma transferInv_abortWith [simp]: "transferInv s \<Longrightarrow> transferInv (snd (abortWith s reason))"
  by (auto simp: abortWith_def terminalResult_def Let_def terminalPhases_def intro!: transferInv_end)

lemma transferInv_results [simp]:
  "transferInv s \<Longrightarrow> transferInv (snd (okResult s st))"
  "transferInv s \<Longrightarrow> transferInv (snd (terminalResult s reason))"
  "transferInv s \<Longrightarrow> transferInv (snd (ignoreResult s reason))"
  "transferInv s \<Longrightarrow> transferInv (snd (conflict s))"
  by (simp_all add: okResult_def terminalResult_def ignoreResult_def conflict_def Let_def)

lemma transferInv_cancelNow [simp]: "transferInv s \<Longrightarrow> transferInv (snd (cancelNow s))"
  by (auto simp: cancelNow_def terminalPhases_def intro!: transferInv_end transferInv_results(2))

lemma transferInv_checkExpired: "transferInv s \<Longrightarrow> checkExpired s now = (b, s') \<Longrightarrow> transferInv s'"
  by (auto simp: checkExpired_def terminalPhases_def split: if_splits intro!: transferInv_end)

lemma transferInv_unlessExpired:
  "transferInv s \<Longrightarrow> (\<And>s'. transferInv s' \<Longrightarrow> transferInv (snd (f s'))) \<Longrightarrow> transferInv (snd (unlessExpired s now f))"
  by (auto simp: unlessExpired_def transferInv_checkExpired split: prod.splits)

lemma transferInv_offered:
  assumes "transferInv s" "ts_phase s = Offered"
  shows "transferInv (s\<lparr>ts_phase := Accepted\<rparr>)" "transferInv (s\<lparr>ts_phase := Rejected\<rparr>)"
  using assms by (auto simp: transferInv_def terminal_def terminalPhases_def)

lemma transferInv_accept: "transferInv s \<Longrightarrow> transferInv (snd (acceptTransfer s d now))"
  unfolding acceptTransfer_def
  by (auto intro!: transferInv_unlessExpired transferInv_results(1) transferInv_offered)

lemma transferInv_receiveDecision: "transferInv s \<Longrightarrow> transferInv (snd (receiveDecision s d now))"
  unfolding receiveDecision_def
  by (auto intro!: transferInv_unlessExpired transferInv_results(1,2) transferInv_offered)

lemma transferInv_cancel: "transferInv s \<Longrightarrow> transferInv (snd (cancelTransfer s d now))"
  unfolding cancelTransfer_def by (auto intro!: transferInv_unlessExpired)

lemma transferInv_admit: "transferInv s \<Longrightarrow> transferInv (snd (admitOutboundChunk s c now))"
  unfolding admitOutboundChunk_def by (auto intro!: transferInv_unlessExpired)

lemma transferInv_expire: "transferInv s \<Longrightarrow> transferInv (snd (expireTransfer s now))"
  unfolding expireTransfer_def by (auto intro!: transferInv_unlessExpired)

lemma transferInv_abort: "transferInv s \<Longrightarrow> transferInv (snd (abortTransfer s))"
  by (simp add: abortTransfer_def)

lemma transferInv_finish: "transferInv s \<Longrightarrow> transferInv (snd (receiveChunkFinish s file d))"
  by (auto simp: receiveChunkFinish_def terminalPhases_def split: option.splits intro!: transferInv_end)

section \<open>Receiving a chunk\<close>

lemma validateChunkForManifest_Inr:
  "validateChunkForManifest c m = Inr u \<longleftrightarrow>
     validateChunk c = Inr () \<and> validateManifest m = Inr ()
     \<and> chunk_transferId c = manifest_transferId m \<and> chunk_manifestId c = manifest_manifestId m
     \<and> 0 \<le> chunk_index c \<and> chunk_index c < manifest_chunkCount m \<and> chunk_bytes c \<noteq> []
     \<and> int (length (chunk_bytes c)) \<le> manifest_chunkBytes m
     \<and> (chunk_index c + 1 < manifest_chunkCount m \<longrightarrow> int (length (chunk_bytes c)) = manifest_chunkBytes m)"
  by (auto simp: validateChunkForManifest_def res_simps) (auto simp: validateChunk_def)

lemma storeChunk_simps [simp]:
  "ts_direction (storeChunk s i b) = ts_direction s" "ts_manifest (storeChunk s i b) = ts_manifest s"
  "ts_maximumReorderChunks (storeChunk s i b) = ts_maximumReorderChunks s"
  "ts_chunks (storeChunk s i b) = mapSet (ts_chunks s) i b" "ts_phase (storeChunk s i b) = ts_phase s"
  "ts_receivedBytes (storeChunk s i b) = ts_receivedBytes s + int (length b)"
  "ts_nextMissingIndex (storeChunk s i b) = advanceMissing (mapSet (ts_chunks s) i b) (ts_nextMissingIndex s)"
  by (simp_all add: storeChunk_def Let_def)

lemma transferInv_storeChunk:
  assumes inv: "transferInv s" and ph: "ts_phase s = Accepted" "ts_direction s = Inbound"
    and new: "mapGet (ts_chunks s) i = None" and ok: "chunkOk s i b"
  shows "transferInv (storeChunk s i b)"
proof -
  have fm: "firstMissing (ts_chunks s) (ts_nextMissingIndex s)"
    using inv ph by (auto simp: transferInv_def terminal_def terminalPhases_def)
  note adv = firstMissing_advance [OF fm, of i b]
  have absent: "\<not> mapHas (ts_chunks s) i" using new by (simp add: mapHas_mapGet)
  have mono: "chunkOk (storeChunk s i b) j c" if "chunkOk s j c" for j c
    using that adv by (auto simp: chunkOk_def)
  show ?thesis
    using inv ph adv absent ok mono by (auto simp: transferInv_def mapSet_new)
qed

lemma full_indices:
  assumes "transferInv s" "int (length (ts_chunks s)) = manifest_chunkCount (ts_manifest s)"
  shows "fst ` set (ts_chunks s) = {0..<manifest_chunkCount (ts_manifest s)}"
proof (rule card_subset_eq)
  show "fst ` set (ts_chunks s) \<subseteq> {0..<manifest_chunkCount (ts_manifest s)}"
    using assms(1) by (auto simp: transferInv_def chunkOk_def)
  have "card (set (map fst (ts_chunks s))) = length (ts_chunks s)"
    using assms(1) unfolding transferInv_def wfMap_def by (metis distinct_card length_map)
  then show "card (fst ` set (ts_chunks s)) = card {0..<manifest_chunkCount (ts_manifest s)}"
    using assms(2) by simp
qed simp

definition wholeFile :: "AttachmentTransferState \<Rightarrow> bytes" where
  "wholeFile s = concat (map (\<lambda>i. the (mapGet (ts_chunks s) (int i))) [0..<nat (manifest_chunkCount (ts_manifest s))])"

lemma assembleTransfer_full:
  assumes "transferInv s" "int (length (ts_chunks s)) = manifest_chunkCount (ts_manifest s)"
  shows "assembleTransfer s =
    (if ts_receivedBytes s = manifest_byteCount (ts_manifest s) then Inr (AwaitDigest (wholeFile s) s)
     else Inr (Settled (abortWith s InvalidChunk)))"
proof -
  have "0 \<le> manifest_chunkCount (ts_manifest s)" using assms(2) by linarith
  with assms full_indices [OF assms] show ?thesis
    by (auto simp: assembleTransfer_def assembleFile_complete transferInv_def wholeFile_def)
qed

text \<open>
  What the first half of \<^verbatim>\<open>receiveChunk\<close> does from a state that satisfies the invariant: it
  throws nothing, and either settles without completing or waits for the digest of the whole file.
\<close>

definition calm :: "transferOutcome \<Rightarrow> bool" where
  "calm p \<longleftrightarrow> transferInv (snd p) \<and> (\<forall>b. fst p \<noteq> ResultCompleted b)"

definition awaiting :: "AttachmentTransferState \<Rightarrow> bool" where
  "awaiting s \<longleftrightarrow> transferInv s \<and> ts_phase s = Accepted \<and> ts_direction s = Inbound
     \<and> int (length (ts_chunks s)) = manifest_chunkCount (ts_manifest s)
     \<and> ts_receivedBytes s = manifest_byteCount (ts_manifest s)"

definition startOk :: "AttachmentManifest \<Rightarrow> chunkProgress res \<Rightarrow> bool" where
  "startOk m p = (case p of Inl _ \<Rightarrow> False
     | Inr (Settled q) \<Rightarrow> calm q \<and> ts_manifest (snd q) = m
     | Inr (AwaitDigest file s) \<Rightarrow> awaiting s \<and> file = wholeFile s \<and> ts_manifest s = m)"

lemma startOk_simps [simp]:
  "startOk m (Inr (Settled q)) \<longleftrightarrow> calm q \<and> ts_manifest (snd q) = m"
  "startOk m (Inr (AwaitDigest file s)) \<longleftrightarrow> awaiting s \<and> file = wholeFile s \<and> ts_manifest s = m"
  by (simp_all add: startOk_def)

lemma calm_results [simp]:
  "transferInv s \<Longrightarrow> calm (abortWith s reason)" "transferInv s \<Longrightarrow> calm (okResult s st)"
  "transferInv s \<Longrightarrow> calm (ignoreResult s reason)" "transferInv s \<Longrightarrow> calm (terminalResult s reason)"
  by (simp_all add: calm_def)
    (simp_all add: abortWith_def okResult_def ignoreResult_def terminalResult_def Let_def)

lemma manifest_results [simp]:
  "ts_manifest (snd (abortWith s reason)) = ts_manifest s" "ts_manifest (snd (okResult s st)) = ts_manifest s"
  "ts_manifest (snd (ignoreResult s reason)) = ts_manifest s"
  "ts_manifest (snd (terminalResult s reason)) = ts_manifest s"
  by (simp_all add: abortWith_def okResult_def ignoreResult_def terminalResult_def Let_def)

lemma checkExpired_manifest: "checkExpired s now = (e, s') \<Longrightarrow> ts_manifest s' = ts_manifest s \<and> ts_direction s' = ts_direction s"
  by (auto simp: checkExpired_def clearChunks_def split: if_splits)

lemma startOk_assemble:
  assumes "transferInv s" "ts_phase s = Accepted" "ts_direction s = Inbound"
  shows "startOk (ts_manifest s) (assembleTransfer s)"
proof (cases "int (length (ts_chunks s)) = manifest_chunkCount (ts_manifest s)")
  case True
  with assms assembleTransfer_full [OF assms(1)] show ?thesis by (simp add: awaiting_def)
next
  case False
  with assms show ?thesis by (simp add: assembleTransfer_def)
qed

lemma startOk_receiveChunkStart:
  assumes "transferInv s"
  shows "startOk (ts_manifest s) (receiveChunkStart s c now)"
proof (cases "ts_direction s = Inbound")
  case False
  then show ?thesis using assms by (simp add: receiveChunkStart_def)
next
  case inb: True
  obtain e s1 where s1: "checkExpired s now = (e, s1)" by (cases "checkExpired s now")
  then have inv: "transferInv s1" "ts_manifest s1 = ts_manifest s" "ts_direction s1 = Inbound"
    using assms inb transferInv_checkExpired checkExpired_manifest by force+
  have "startOk (ts_manifest s1) (assembleTransfer (storeChunk s1 (chunk_index c) (chunk_bytes c)))"
    if "ts_phase s1 = Accepted" "mapGet (ts_chunks s1) (chunk_index c) = None"
      "succeeds (validateChunkForManifest c (ts_manifest s1))"
      "chunk_index c - ts_nextMissingIndex s1 \<le> ts_maximumReorderChunks s1"
  proof -
    have "chunkOk s1 (chunk_index c) (chunk_bytes c)"
      using that by (auto simp: succeeds_iff validateChunkForManifest_Inr chunkOk_def)
    with transferInv_storeChunk [OF inv(1) that(1) inv(3) that(2)] that(1) inv(3)
      startOk_assemble [of "storeChunk s1 (chunk_index c) (chunk_bytes c)"]
    show ?thesis by simp
  qed
  then show ?thesis
    using inb s1 inv by (auto simp: receiveChunkStart_def split: option.splits)
qed

lemma receiveChunk_total:
  assumes "transferInv s"
  obtains r s' where "receiveChunk digest s c now = Inr (r, s')" "transferInv s'" "ts_manifest s' = ts_manifest s"
    "\<forall>b. r = ResultCompleted b \<longrightarrow> (\<exists>t. awaiting t \<and> ts_manifest t = ts_manifest s \<and> b = wholeFile t
      \<and> digest b = Some (manifest_sha256 (ts_manifest s)))"
proof (cases "receiveChunkStart s c now")
  case (Inl e)
  then show thesis using startOk_receiveChunkStart [OF assms, of c now] by (simp add: startOk_def)
next
  case (Inr p)
  note ok = startOk_receiveChunkStart [OF assms, of c now, unfolded Inr]
  show thesis
  proof (cases p)
    case (Settled q)
    with ok Inr that [of "fst q" "snd q"] show thesis by (auto simp: receiveChunk_def calm_def)
  next
    case (AwaitDigest buf t)
    let ?q = "receiveChunkFinish t buf (digest buf)"
    have "transferInv (snd ?q)" "ts_manifest (snd ?q) = ts_manifest t"
      using ok AwaitDigest transferInv_finish
      by (auto simp: awaiting_def) (auto simp: receiveChunkFinish_def split: option.splits)
    moreover have "fst ?q = ResultCompleted b \<Longrightarrow> b = buf \<and> digest buf = Some (manifest_sha256 (ts_manifest t))" for b
      by (auto simp: receiveChunkFinish_def abortWith_def terminalResult_def Let_def split: option.splits if_splits)
    ultimately show thesis
      using ok Inr AwaitDigest that [of "fst ?q" "snd ?q"] by (auto simp: receiveChunk_def)
  qed
qed

section \<open>A file that arrives is delivered\<close>

text \<open>
  The chunks of a file, as the sender cuts them.
\<close>

definition fileChunk :: "AttachmentManifest \<Rightarrow> bytes \<Rightarrow> nat \<Rightarrow> AttachmentChunk" where
  "fileChunk m buf i =
     \<lparr>chunk_version = attachmentVersion, chunk_transferId = manifest_transferId m,
      chunk_manifestId = manifest_manifestId m, chunk_index = int i,
      chunk_bytes = chunkAt buf (nat (manifest_chunkBytes m)) i\<rparr>"

fun receiveAll ::
  "(bytes \<Rightarrow> js_string option) \<Rightarrow> AttachmentTransferState \<Rightarrow> AttachmentChunk list \<Rightarrow> int
     \<Rightarrow> (AttachmentTransferResult list \<times> AttachmentTransferState) res" where
  "receiveAll digest s [] now = Inr ([], s)"
| "receiveAll digest s (c # cs) now =
     andThen (receiveChunk digest s c now) (\<lambda>(r, s').
     andThen (receiveAll digest s' cs now) (\<lambda>(rs, s''). Inr (r # rs, s'')))"

lemma validateManifest_facts:
  assumes "validateManifest m = Inr ()"
  shows "validToken (manifest_transferId m) 16" "validToken (manifest_manifestId m) 32"
    "1 \<le> manifest_byteCount m" "256 \<le> manifest_chunkBytes m" "manifest_chunkBytes m \<le> 3072"
    "1 \<le> manifest_chunkCount m" "manifest_chunkCount m \<le> 8192"
    "(manifest_chunkCount m - 1) * manifest_chunkBytes m < manifest_byteCount m"
    "manifest_byteCount m \<le> manifest_chunkCount m * manifest_chunkBytes m"
    "manifest_byteCount m \<le> maxDirectAttachmentBytes"
  using assms ceilDiv_bounds [of "manifest_chunkBytes m" "manifest_byteCount m"]
  by (auto simp: validateManifest_def maxAttachmentChunkBytes_def maxAttachmentChunks_def)

lemma length_fileChunk:
  assumes "validateManifest m = Inr ()" "int (length buf) = manifest_byteCount m" "int i < manifest_chunkCount m"
  shows "chunkAt buf (nat (manifest_chunkBytes m)) i \<noteq> []"
    "int (length (chunkAt buf (nat (manifest_chunkBytes m)) i)) \<le> manifest_chunkBytes m"
    "int i + 1 < manifest_chunkCount m \<longrightarrow>
      int (length (chunkAt buf (nat (manifest_chunkBytes m)) i)) = manifest_chunkBytes m"
proof -
  note f = validateManifest_facts [OF assms(1)]
  have "0 < manifest_chunkBytes m" "(manifest_chunkCount m - 1) * manifest_chunkBytes m < int (length buf)"
    using f(4,8) assms(2) by simp_all
  from chunkAt_lengths [OF this assms(3)]
  show "chunkAt buf (nat (manifest_chunkBytes m)) i \<noteq> []"
    "int (length (chunkAt buf (nat (manifest_chunkBytes m)) i)) \<le> manifest_chunkBytes m"
    "int i + 1 < manifest_chunkCount m \<longrightarrow>
      int (length (chunkAt buf (nat (manifest_chunkBytes m)) i)) = manifest_chunkBytes m" by blast+
qed

lemma validate_fileChunk:
  assumes "validateManifest m = Inr ()" "int (length buf) = manifest_byteCount m" "int i < manifest_chunkCount m"
  shows "validateChunkForManifest (fileChunk m buf i) m = Inr ()"
proof -
  note l = length_fileChunk [OF assms] and f = validateManifest_facts [OF assms(1)]
  have "length (chunkAt buf (nat (manifest_chunkBytes m)) i) \<le> 3072"
    using l(2) f(5) by linarith
  with l f assms show ?thesis
    by (auto simp: validateChunkForManifest_Inr fileChunk_def validateChunk_def maxAttachmentChunkBytes_def)
qed

definition holding :: "AttachmentTransferState \<Rightarrow> AttachmentManifest \<Rightarrow> bytes \<Rightarrow> nat list \<Rightarrow> bool" where
  "holding s m buf arrived \<longleftrightarrow> transferInv s \<and> ts_phase s = Accepted \<and> ts_direction s = Inbound \<and> ts_manifest s = m
     \<and> ts_chunks s = map (\<lambda>i. (int i, chunkAt buf (nat (manifest_chunkBytes m)) i)) arrived"

lemma receiveChunkStart_fileChunk:
  assumes h: "holding s m buf arrived" and len: "int (length buf) = manifest_byteCount m"
    and i: "i \<notin> set arrived" "int i < manifest_chunkCount m"
    and win: "\<forall>j \<in> {..<i - nat (ts_maximumReorderChunks s)}. j \<in> set arrived"
    and now: "isSafeInteger now" "now < manifest_expiresAt m"
  defines "s' \<equiv> storeChunk s (int i) (chunkAt buf (nat (manifest_chunkBytes m)) i)"
  shows "receiveChunkStart s (fileChunk m buf i) now = assembleTransfer s'" "holding s' m buf (arrived @ [i])"
proof -
  have inv: "transferInv s" "ts_phase s = Accepted" "ts_direction s = Inbound" "ts_manifest s = m"
    using h by (auto simp: holding_def)
  then have "\<not> terminal s" by (simp add: terminal_def terminalPhases_def)
  then have fm: "firstMissing (ts_chunks s) (ts_nextMissingIndex s)" using inv by (simp add: transferInv_def)
  have has: "mapHas (ts_chunks s) (int j) \<longleftrightarrow> j \<in> set arrived" for j
    using h by (auto simp: holding_def mapHas_def image_image)
  have new: "mapGet (ts_chunks s) (int i) = None" using has [of i] i(1) by (simp add: mapHas_mapGet)
  have m: "validateManifest m = Inr ()" using inv by (auto simp: transferInv_def succeeds_iff)
  note v = validate_fileChunk [OF m len i(2)]
  have "0 \<le> ts_maximumReorderChunks s" using inv by (simp add: transferInv_def)
  have "int i - ts_nextMissingIndex s \<le> ts_maximumReorderChunks s"
  proof (rule ccontr)
    assume "\<not> int i - ts_nextMissingIndex s \<le> ts_maximumReorderChunks s"
    moreover obtain j where j: "ts_nextMissingIndex s = int j"
      using fm by (metis firstMissing_def nonneg_int_cases)
    ultimately have "j \<in> {..<i - nat (ts_maximumReorderChunks s)}"
      using \<open>0 \<le> ts_maximumReorderChunks s\<close> by auto
    with win have "mapHas (ts_chunks s) (ts_nextMissingIndex s)" by (simp add: j has)
    with fm show False by (simp add: firstMissing_def)
  qed
  then have ok: "chunkOk s (int i) (chunkAt buf (nat (manifest_chunkBytes m)) i)"
    and win': "\<not> chunk_index (fileChunk m buf i) - ts_nextMissingIndex s > ts_maximumReorderChunks s"
    using length_fileChunk [OF m len i(2)] i(2) inv(4) by (simp_all add: chunkOk_def fileChunk_def)
  have "checkExpired s now = (False, s)"
    using now inv \<open>\<not> terminal s\<close> by (simp add: checkExpired_def)
  then show "receiveChunkStart s (fileChunk m buf i) now = assembleTransfer s'"
    using inv v new win' by (simp add: receiveChunkStart_def s'_def fileChunk_def)
  show "holding s' m buf (arrived @ [i])"
    using transferInv_storeChunk [OF inv(1,2,3) new ok] h has [of i] i(1)
    by (simp add: holding_def s'_def mapSet_new)
qed

lemma holding_complete:
  assumes h: "holding s m buf arrived" and all: "distinct arrived" "set arrived = {..<nat (manifest_chunkCount m)}"
    and len: "int (length buf) = manifest_byteCount m"
  shows "assembleTransfer s = Inr (AwaitDigest buf s)"
proof -
  let ?c = "nat (manifest_chunkBytes m)" and ?n = "nat (manifest_chunkCount m)"
  have inv: "transferInv s" "ts_manifest s = m"
    and ch: "ts_chunks s = map (\<lambda>i. (int i, chunkAt buf ?c i)) arrived"
    using h by (auto simp: holding_def)
  have m: "validateManifest m = Inr ()" using inv by (auto simp: transferInv_def succeeds_iff)
  note f = validateManifest_facts [OF m]
  have card: "length arrived = ?n" using all by (metis card_lessThan distinct_card)
  have full: "int (length (ts_chunks s)) = manifest_chunkCount (ts_manifest s)"
    using card f(6) by (simp add: ch inv(2))
  have get: "mapGet (ts_chunks s) (int i) = Some (chunkAt buf ?c i)" if "i < ?n" for i
    using that all inv(1) by (subst mapGet_mem) (auto simp: ch transferInv_def)
  have "concat (map (\<lambda>i. the (mapGet (ts_chunks s) (int i))) [0..<?n]) = concat (map (chunkAt buf ?c) [0..<?n])"
    using get by (intro arg_cong [where f = concat] map_cong) auto
  also have "\<dots> = buf"
  proof (rule concat_chunkAt)
    have "int (length buf) \<le> int (?n * ?c)" using f(4,6,9) len by simp
    then show "length buf \<le> ?n * ?c" by linarith
  qed
  finally have whole: "wholeFile s = buf" by (simp add: wholeFile_def inv(2))
  have "fst ` set (ts_chunks s) = {0..<int ?n}"
    using full_indices [OF inv(1) full] f(6) inv(2) by simp
  from storedBytes_indices [OF _ this] whole inv f(6) len
  have "ts_receivedBytes s = manifest_byteCount (ts_manifest s)"
    by (simp add: transferInv_def wholeFile_def)
  with assembleTransfer_full [OF inv(1) full] whole show ?thesis by simp
qed

lemma receiveAll_delivers:
  assumes "holding s m buf arrived" "int (length buf) = manifest_byteCount m"
    and "digest buf = Some (manifest_sha256 m)" "isSafeInteger now" "now < manifest_expiresAt m"
    and "distinct (arrived @ order)" "set (arrived @ order) = {..<nat (manifest_chunkCount m)}" "order \<noteq> []"
    and "windowOk (nat (ts_maximumReorderChunks s)) arrived order"
  shows "\<exists>s'. receiveAll digest s (map (fileChunk m buf) order) now
      = Inr (replicate (length order - 1) (ResultOk OkChunkStored Accepted) @ [ResultCompleted buf], s')
    \<and> ts_phase s' = Completed"
  using assms
proof (induction order arbitrary: s arrived)
  case (Cons i order)
  define s' where "s' = storeChunk s (int i) (chunkAt buf (nat (manifest_chunkBytes m)) i)"
  have i: "i \<notin> set arrived" "int i < manifest_chunkCount m" using Cons.prems(6,7) by auto
  have win: "\<forall>j \<in> {..<i - nat (ts_maximumReorderChunks s)}. j \<in> set arrived" using Cons.prems(9) by simp
  note start = receiveChunkStart_fileChunk [OF Cons.prems(1,2) i win Cons.prems(4,5), folded s'_def]
  have same: "ts_maximumReorderChunks s' = ts_maximumReorderChunks s" by (simp add: s'_def)
  have s'm: "ts_manifest s' = m" using start(2) by (simp add: holding_def)
  show ?case
  proof (cases "order = []")
    case True
    have "assembleTransfer s' = Inr (AwaitDigest buf s')"
      using Cons.prems(6,7) True by (intro holding_complete [OF start(2) _ _ Cons.prems(2)]) auto
    then show ?thesis
      using start(1) Cons.prems(3) True s'm by (simp add: receiveChunk_def receiveChunkFinish_def)
  next
    case False
    have "length (arrived @ i # order) = nat (manifest_chunkCount m)"
      using Cons.prems(6,7) by (metis card_lessThan distinct_card)
    moreover have "length (ts_chunks s') = length (arrived @ [i])"
      using start(2) by (simp add: holding_def)
    ultimately have "int (length (ts_chunks s')) \<noteq> manifest_chunkCount (ts_manifest s')"
      using False s'm by (cases order) auto
    then have step: "receiveChunk digest s (fileChunk m buf i) now = Inr (ResultOk OkChunkStored Accepted, s')"
      using start by (simp add: receiveChunk_def assembleTransfer_def okResult_def holding_def)
    obtain s'' where "receiveAll digest s' (map (fileChunk m buf) order) now
      = Inr (replicate (length order - 1) (ResultOk OkChunkStored Accepted) @ [ResultCompleted buf], s'')"
      "ts_phase s'' = Completed"
      using Cons.IH [OF start(2)] Cons.prems False same by auto
    then show ?thesis
      using step False by (cases order) simp_all
  qed
qed simp

section \<open>Sequences of operations\<close>

datatype transferOp =
    DoAccept AttachmentDecision int
  | DoDecision AttachmentDecision int
  | DoCancel AttachmentDecision int
  | DoAdmit AttachmentChunk int
  | DoExpire int
  | DoAbort
  | DoChunk AttachmentChunk int

fun runSync :: "transferOp \<Rightarrow> AttachmentTransferState \<Rightarrow> transferOutcome option" where
  "runSync (DoAccept d now) s = Some (acceptTransfer s d now)"
| "runSync (DoDecision d now) s = Some (receiveDecision s d now)"
| "runSync (DoCancel d now) s = Some (cancelTransfer s d now)"
| "runSync (DoAdmit c now) s = Some (admitOutboundChunk s c now)"
| "runSync (DoExpire now) s = Some (expireTransfer s now)"
| "runSync DoAbort s = Some (abortTransfer s)"
| "runSync (DoChunk c now) s = None"

definition runTransfer ::
  "(bytes \<Rightarrow> js_string option) \<Rightarrow> transferOp \<Rightarrow> AttachmentTransferState \<Rightarrow> AttachmentTransferState" where
  "runTransfer digest op s =
     (case op of
        DoChunk c now \<Rightarrow> (case receiveChunk digest s c now of Inl _ \<Rightarrow> s | Inr p \<Rightarrow> snd p)
      | _ \<Rightarrow> (case runSync op s of None \<Rightarrow> s | Some p \<Rightarrow> snd p))"

lemma transferInv_runSync: "transferInv s \<Longrightarrow> runSync op s = Some p \<Longrightarrow> transferInv (snd p)"
  by (cases op) (auto simp: transferInv_accept transferInv_receiveDecision transferInv_cancel
      transferInv_admit transferInv_expire transferInv_abort)

lemma frozen_results [simp]:
  "terminal s \<Longrightarrow> snd (abortWith s reason) = s" "snd (okResult s st) = s"
  "snd (ignoreResult s reason) = s" "snd (terminalResult s reason) = s"
  "terminal s \<Longrightarrow> snd (conflict s) = s" "terminal s \<Longrightarrow> snd (cancelNow s) = s"
  by (simp_all add: abortWith_def okResult_def ignoreResult_def terminalResult_def conflict_def cancelNow_def Let_def)

lemma frozen_checkExpired: "terminal s \<Longrightarrow> checkExpired s now = (b, s') \<Longrightarrow> s' = s"
  by (auto simp: checkExpired_def split: if_splits)

lemma frozen_unlessExpired:
  "terminal s \<Longrightarrow> (terminal s \<Longrightarrow> snd (f s) = s) \<Longrightarrow> snd (unlessExpired s now f) = s"
  using frozen_checkExpired by (auto simp: unlessExpired_def split: prod.splits)

lemma terminal_not_live: "terminal s \<Longrightarrow> ts_phase s \<noteq> Offered \<and> ts_phase s \<noteq> Accepted"
  by (auto simp: terminal_def terminalPhases_def)

lemma frozen_runSync: "terminal s \<Longrightarrow> runSync op s = Some p \<Longrightarrow> snd p = s"
proof -
  assume t: "terminal s" and p: "runSync op s = Some p"
  note live = terminal_not_live [OF t]
  have "snd (acceptTransfer s d now) = s" "snd (receiveDecision s d now) = s" "snd (cancelTransfer s d now) = s" for d now
    using t live unfolding acceptTransfer_def receiveDecision_def cancelTransfer_def
    by (simp_all add: frozen_unlessExpired)
  moreover have "snd (admitOutboundChunk s c now) = s" "snd (expireTransfer s now) = s" "snd (abortTransfer s) = s" for c now
    using t live unfolding admitOutboundChunk_def expireTransfer_def abortTransfer_def
    by (simp_all add: frozen_unlessExpired)
  ultimately show ?thesis using p by (cases op) auto
qed

lemma frozen_receiveChunkStart:
  assumes "terminal s"
  shows "\<exists>r. receiveChunkStart s c now = Inr (Settled (r, s))"
proof -
  obtain e s1 where e: "checkExpired s now = (e, s1)" by (cases "checkExpired s now")
  have s1: "s1 = s" using frozen_checkExpired [OF assms e] .
  show ?thesis
    using e assms terminal_not_live [OF assms] unfolding s1
    by (auto simp: receiveChunkStart_def ignoreResult_def terminalResult_def Let_def)
qed

interpretation transfer: transfer_machine "runTransfer digest" transferInv terminal ts_phase for digest
proof
  fix s op assume inv: "transferInv s"
  show "transferInv (runTransfer digest op s)"
  proof (cases op)
    case (DoChunk c now)
    obtain r s' where "receiveChunk digest s c now = Inr (r, s')" "transferInv s'"
      by (rule receiveChunk_total [OF inv])
    with DoChunk show ?thesis by (simp add: runTransfer_def)
  qed (use transferInv_runSync [OF inv, of op] in \<open>auto simp: runTransfer_def split: option.splits\<close>)
  assume t: "terminal s"
  have "runTransfer digest op s = s"
  proof (cases op)
    case (DoChunk c now)
    then show ?thesis
      using frozen_receiveChunkStart [OF t, of c now] by (auto simp: runTransfer_def receiveChunk_def)
  qed (use frozen_runSync [OF t, of op] in \<open>auto simp: runTransfer_def split: option.splits\<close>)
  with t show "terminal (runTransfer digest op s) \<and> ts_phase (runTransfer digest op s) = ts_phase s"
    by simp
qed

section \<open>Bounds\<close>

lemma storedBytes_bound:
  assumes "transferInv s"
  shows "int (storedBytes (ts_chunks s)) \<le> int (length (ts_chunks s)) * manifest_chunkBytes (ts_manifest s)"
    "int (length (ts_chunks s)) \<le> manifest_chunkCount (ts_manifest s)"
proof -
  have "int (storedBytes xs) \<le> int (length xs) * c" if "\<forall>(i, b) \<in> set xs. int (length b) \<le> c" for xs :: chunks and c
    using that by (induction xs) (auto simp: storedBytes_def algebra_simps)
  moreover have "\<forall>(i, b) \<in> set (ts_chunks s). int (length b) \<le> manifest_chunkBytes (ts_manifest s)"
    using assms by (auto simp: transferInv_def chunkOk_def)
  ultimately show "int (storedBytes (ts_chunks s)) \<le> int (length (ts_chunks s)) * manifest_chunkBytes (ts_manifest s)"
    by blast
  have m: "validateManifest (ts_manifest s) = Inr ()" using assms by (auto simp: transferInv_def succeeds_iff)
  have "fst ` set (ts_chunks s) \<subseteq> {0..<manifest_chunkCount (ts_manifest s)}"
    using assms by (auto simp: transferInv_def chunkOk_def)
  then have "card (fst ` set (ts_chunks s)) \<le> card {0..<manifest_chunkCount (ts_manifest s)}"
    by (intro card_mono) auto
  moreover have "card (fst ` set (ts_chunks s)) = length (ts_chunks s)"
    using assms unfolding transferInv_def wfMap_def by (metis distinct_card length_map set_map)
  ultimately show "int (length (ts_chunks s)) \<le> manifest_chunkCount (ts_manifest s)"
    using validateManifest_facts(6) [OF m] by simp
qed

lemma transfer_memory_bound:
  assumes "transferInv s"
  shows "ts_receivedBytes s < manifest_byteCount (ts_manifest s) + manifest_chunkBytes (ts_manifest s)"
proof -
  let ?m = "ts_manifest s"
  have "validateManifest ?m = Inr ()" using assms by (auto simp: transferInv_def succeeds_iff)
  note f = validateManifest_facts [OF this]
  have "int (length (ts_chunks s)) * manifest_chunkBytes ?m \<le> manifest_chunkCount ?m * manifest_chunkBytes ?m"
    using storedBytes_bound(2) [OF assms] f(4) by (intro mult_right_mono) auto
  with storedBytes_bound(1) [OF assms] f(8) assms show ?thesis
    by (simp add: transferInv_def algebra_simps)
qed

section \<open>Interleaving\<close>

text \<open>
  A configuration is the state and the files whose digest is being awaited. Any method may run
  between the two halves of a \<^verbatim>\<open>receiveChunk\<close>.
\<close>

inductive transferStep ::
  "(bytes \<Rightarrow> js_string option) \<Rightarrow> AttachmentTransferState \<times> bytes list \<Rightarrow> AttachmentTransferState \<times> bytes list \<Rightarrow> bool"
  for digest :: "bytes \<Rightarrow> js_string option"
where
  sync: "runSync op s = Some (r, s') \<Longrightarrow> transferStep digest (s, pending) (s', pending)"
| settle: "receiveChunkStart s c now = Inr (Settled (r, s')) \<Longrightarrow> transferStep digest (s, pending) (s', pending)"
| await: "receiveChunkStart s c now = Inr (AwaitDigest buf s') \<Longrightarrow> transferStep digest (s, pending) (s', pending @ [buf])"
| finish: "receiveChunkFinish s buf (digest buf) = (r, s') \<Longrightarrow>
    transferStep digest (s, before @ buf # after) (s', before @ after)"

definition configInv :: "AttachmentTransferState \<times> bytes list \<Rightarrow> bool" where
  "configInv cfg \<longleftrightarrow> (case cfg of (s, pending) \<Rightarrow> transferInv s
     \<and> (pending = [] \<or> (\<exists>buf. pending = [buf] \<and> int (length buf) = manifest_byteCount (ts_manifest s)
          \<and> (terminal s \<or> awaiting s \<and> buf = wholeFile s))))"

lemma wholeFile_length:
  assumes "awaiting s"
  shows "int (length (wholeFile s)) = manifest_byteCount (ts_manifest s)"
proof -
  have inv: "transferInv s" "int (length (ts_chunks s)) = manifest_chunkCount (ts_manifest s)"
    "ts_receivedBytes s = manifest_byteCount (ts_manifest s)"
    using assms by (auto simp: awaiting_def)
  have "fst ` set (ts_chunks s) = {0..<int (nat (manifest_chunkCount (ts_manifest s)))}"
    using full_indices [OF inv(1,2)] inv(2) by simp
  from storedBytes_indices [OF _ this] inv show ?thesis
    by (simp add: wholeFile_def transferInv_def)
qed

text \<open>While every chunk is present, another chunk changes nothing or ends the transfer.\<close>

lemma awaiting_receiveChunkStart:
  assumes "awaiting s" "receiveChunkStart s c now = Inr p"
  shows "\<exists>r s'. p = Settled (r, s') \<and> (s' = s \<or> terminal s')"
proof -
  have a: "transferInv s" "ts_phase s = Accepted" "ts_direction s = Inbound"
    and full: "fst ` set (ts_chunks s) = {0..<manifest_chunkCount (ts_manifest s)}"
    using assms full_indices by (auto simp: awaiting_def)
  have get: "mapGet (ts_chunks s) (chunk_index c) \<noteq> None" if "succeeds (validateChunkForManifest c (ts_manifest s))"
  proof -
    have "chunk_index c \<in> fst ` set (ts_chunks s)"
      using that unfolding full by (auto simp: succeeds_iff validateChunkForManifest_Inr)
    then have "mapHas (ts_chunks s) (chunk_index c)" by (simp add: mapHas_def)
    then show ?thesis by (simp add: mapHas_mapGet)
  qed
  have ends: "terminal (snd (abortWith s reason))" for reason
    by (simp add: abortWith_def terminalResult_def Let_def terminalPhases_def)
  obtain e s1 where e: "checkExpired s now = (e, s1)" by (cases "checkExpired s now")
  have s1: "s1 = s \<or> terminal s1 \<and> e"
    using e a by (auto simp: checkExpired_def terminalPhases_def split: if_splits)
  have "\<exists>q. p = Settled q \<and> (snd q = s \<or> terminal (snd q))"
  proof (cases e)
    case True
    then show ?thesis using assms(2) e a s1 by (auto simp: receiveChunkStart_def terminalResult_def Let_def)
  next
    case False
    then show ?thesis
      using assms(2) e a s1 get ends
      by (cases "succeeds (validateChunkForManifest c (ts_manifest s))")
        (auto simp: receiveChunkStart_def okResult_def simp del: split_paired_Ex)
  qed
  then show ?thesis by (metis prod.collapse)
qed

lemma runSync_manifest: "runSync op s = Some p \<Longrightarrow> ts_manifest (snd p) = ts_manifest s"
proof -
  assume p: "runSync op s = Some p"
  have manifest: "ts_manifest (snd (unlessExpired s now f)) = ts_manifest s"
    if "\<And>s'. ts_manifest (snd (f s')) = ts_manifest s'" for now f
    using that checkExpired_manifest by (auto simp: unlessExpired_def split: prod.splits)
  have cancel: "ts_manifest (snd (cancelNow s')) = ts_manifest s'" for s'
    by (simp add: cancelNow_def conflict_def)
  show ?thesis
    using p by (cases op)
      (auto simp: acceptTransfer_def receiveDecision_def cancelTransfer_def admitOutboundChunk_def
        expireTransfer_def abortTransfer_def conflict_def cancel intro!: manifest)
qed

lemma runSync_awaiting:
  assumes "awaiting s" "runSync op s = Some p"
  shows "snd p = s \<or> terminal (snd p)"
proof -
  have a: "ts_phase s = Accepted" "ts_direction s = Inbound" using assms(1) by (auto simp: awaiting_def)
  have ends: "terminal (snd (abortWith t reason))" "terminal (snd (conflict t))" "terminal (snd (cancelNow t))" for t reason
    by (auto simp: abortWith_def conflict_def cancelNow_def terminalResult_def okResult_def terminalPhases_def Let_def
        terminal_def [of t])
  have expired: "checkExpired s now = (False, s) \<or> (\<exists>t. checkExpired s now = (True, t) \<and> (t = s \<or> terminal t))" for now
    using a by (auto simp: checkExpired_def terminalPhases_def)
  have guard: "snd (unlessExpired s now f) = s \<or> terminal (snd (unlessExpired s now f))"
    if "snd (f s) = s \<or> terminal (snd (f s))" for now f
    using expired [of now] that by (auto simp: unlessExpired_def)
  show ?thesis
    using assms(2) a ends by (cases op)
      (auto simp: acceptTransfer_def receiveDecision_def cancelTransfer_def admitOutboundChunk_def
        expireTransfer_def abortTransfer_def intro!: guard)
qed

lemma configInv_step: "transferStep digest cfg cfg' \<Longrightarrow> configInv cfg \<Longrightarrow> configInv cfg'"
proof (induction rule: transferStep.induct)
  case (sync op s r s' pending)
  have "transferInv s'" "ts_manifest s' = ts_manifest s"
    using sync transferInv_runSync runSync_manifest by (force simp: configInv_def)+
  moreover have "s' = s \<or> terminal s'" if "awaiting s \<or> terminal s"
    using that sync.hyps runSync_awaiting frozen_runSync by fastforce
  ultimately show ?case using sync.prems by (auto simp: configInv_def)
next
  case (settle s c now r s' pending)
  have inv: "transferInv s" using settle.prems by (simp add: configInv_def)
  have "transferInv s'" "ts_manifest s' = ts_manifest s"
    using startOk_receiveChunkStart [OF inv, of c now] settle.hyps by (auto simp: calm_def)
  moreover have "s' = s \<or> terminal s'" if "awaiting s \<or> terminal s"
    using that awaiting_receiveChunkStart [OF _ settle.hyps] frozen_receiveChunkStart [of s c now] settle.hyps by auto
  ultimately show ?case using settle.prems by (auto simp: configInv_def)
next
  case (await s c now buf s' pending)
  have inv: "transferInv s" using await.prems by (simp add: configInv_def)
  have ok: "awaiting s'" "buf = wholeFile s'" "ts_manifest s' = ts_manifest s"
    using startOk_receiveChunkStart [OF inv, of c now] await.hyps by auto
  have "\<not> (awaiting s \<or> terminal s)"
    using awaiting_receiveChunkStart [OF _ await.hyps] frozen_receiveChunkStart [of s c now] await.hyps by auto
  then have "pending = []" using await.prems by (auto simp: configInv_def)
  with ok wholeFile_length [OF ok(1)] show ?case by (auto simp: configInv_def awaiting_def)
next
  case (finish s buf r s' before after)
  then have "transferInv s" "before = []" "after = []" by (auto simp: configInv_def Cons_eq_append_conv append_eq_Cons_conv)
  with finish.hyps transferInv_finish [of s buf "digest buf"] show ?case by (auto simp: configInv_def)
qed

lemma configInv_steps: "(transferStep digest)\<^sup>*\<^sup>* cfg cfg' \<Longrightarrow> configInv cfg \<Longrightarrow> configInv cfg'"
  by (induction rule: rtranclp_induct) (auto intro: configInv_step)

text \<open>Under interleaving an ended transfer keeps its phase, except that a digest still awaited may complete it.\<close>

lemma terminal_step:
  assumes "transferStep digest (s, pending) (s', pending')" "terminal s"
  shows "s' = s \<or> ts_phase s' = Completed \<and> (\<exists>buf \<in> set pending. digest buf = Some (manifest_sha256 (ts_manifest s)))"
  using assms(1)
proof (cases rule: transferStep.cases)
  case (sync op r)
  then show ?thesis using frozen_runSync [OF assms(2)] by force
next
  case (settle c now r)
  then show ?thesis using frozen_receiveChunkStart [OF assms(2), of c now] by simp
next
  case (await c now buf)
  then show ?thesis using frozen_receiveChunkStart [OF assms(2), of c now] by simp
next
  case (finish buf r before after)
  with assms(2) show ?thesis
    by (cases "digest buf") (auto simp: receiveChunkFinish_def abortWith_def terminalResult_def Let_def split: if_splits)
qed

section \<open>The registry\<close>

definition registryInv :: "AttachmentTransferRegistry \<Rightarrow> bool" where
  "registryInv r \<longleftrightarrow> wfMap (reg_closed r)
     \<and> 1 \<le> rememberedTransfers (reg_options r) \<and> rememberedTransfers (reg_options r) \<le> 64
     \<and> int (length (reg_closed r)) \<le> rememberedTransfers (reg_options r)
     \<and> succeeds (validateOpenOptions (reg_options r))
     \<and> (case reg_active r of None \<Rightarrow> True
        | Some t \<Rightarrow> transferInv t \<and> ts_direction t = reg_direction r)"

lemma abortTransfer_direction [simp]: "ts_direction (snd (abortTransfer t)) = ts_direction t"
  by (simp add: abortTransfer_def abortWith_def terminalResult_def clearChunks_def Let_def)

lemma expireTransfer_direction [simp]: "ts_direction (snd (expireTransfer t now)) = ts_direction t"
  by (auto simp: expireTransfer_def unlessExpired_def checkExpired_def clearChunks_def okResult_def terminalResult_def Let_def)

lemma sweep_simps:
  "sweep r now = Inr r' \<Longrightarrow> reg_options r' = reg_options r \<and> reg_direction r' = reg_direction r
     \<and> reg_active r' = (case reg_active r of Some t \<Rightarrow> if terminal t then None else Some t | None \<Rightarrow> None)"
  by (auto simp: sweep_def Let_def split: if_splits option.splits)

lemma registryInv_sweep:
  assumes "registryInv r" "sweep r now = Inr r'"
  shows "registryInv r'"
proof -
  let ?max = "rememberedTransfers (reg_options r)"
  have r: "wfMap (reg_closed r)" "1 \<le> ?max" using assms(1) by (auto simp: registryInv_def)
  obtain c where c: "reg_closed r' = evictOldest (nat ?max) c" "wfMap c"
    using assms(2) r(1) by (auto simp: sweep_def Let_def split: if_splits option.splits)
  then have "wfMap (reg_closed r')" "int (length (reg_closed r')) \<le> ?max"
    using length_evictOldest [of c "nat ?max"] r(2) by auto
  with assms sweep_simps [OF assms(2)] show ?thesis
    by (auto simp: registryInv_def split: option.splits)
qed

lemma transferInv_new:
  assumes "openTransfer direction m options now = Inr t"
  shows "transferInv t \<and> ts_direction t = direction \<and> ts_manifest t = m \<and> ts_phase t = Offered
    \<and> now < manifest_expiresAt m"
proof -
  from assms have v: "validateManifest m = Inr ()" and "succeeds (validateOpenOptions options)"
    and t: "t = newTransferState direction m (case_option 64 id (opt_maximumReorderChunks options))"
    and n: "now < manifest_expiresAt m"
    by (auto simp: openTransfer_def attachmentManifestSigningBytes_def res_simps split: if_splits)
  then have "0 \<le> ts_maximumReorderChunks t"
    by (auto simp: newTransferState_def validateOpenOptions_def Let_def succeeds_iff)
  with v t n show ?thesis
    by (auto simp: newTransferState_def transferInv_def copyManifest_def firstMissing_def terminal_def terminalPhases_def)
qed

lemma registryInv_open:
  assumes "registryInv r" "openRegistry r m now = (res, r')"
  shows "registryInv r'"
proof (cases "sweep r now")
  case (Inl e)
  with assms show ?thesis by (simp add: openRegistry_def)
next
  case (Inr r1)
  have r1: "registryInv r1" by (rule registryInv_sweep [OF assms(1) Inr])
  have aborted: "registryInv (r1\<lparr>reg_active := Some (snd (abortTransfer t))\<rparr>)" if "reg_active r1 = Some t" for t
    using r1 that transferInv_abort by (auto simp: registryInv_def)
  have opened: "registryInv (r1\<lparr>reg_active := Some t\<rparr>)"
    if "openTransfer (reg_direction r1) m (reg_options r1) now = Inr t" for t
    using r1 transferInv_new [OF that] by (auto simp: registryInv_def)
  show ?thesis
    using assms(2) Inr r1 aborted opened registryInv_sweep [OF aborted]
    by (auto simp: openRegistry_def Let_def split: if_splits option.splits sum.splits)
qed

lemma registryInv_expire: "registryInv r \<Longrightarrow> expireRegistry r now = Inr r' \<Longrightarrow> registryInv r'"
  unfolding expireRegistry_def
  by (erule registryInv_sweep [rotated]) (auto simp: registryInv_def transferInv_expire split: option.splits)

text \<open>A swept registry remembers the transfer it closed until the manifest expires.\<close>

lemma closed_transfer_replayed:
  assumes "registryInv r" "reg_active r = Some t" "terminal t" "isSafeInteger now"
    and "transferKey m = transferKey (ts_manifest t)" "\<not> mapHas (reg_closed r) (transferKey m)"
  shows "fst (openRegistry r m now) = Inr Replayed"
proof -
  let ?k = "transferKey (ts_manifest t)" and ?max = "nat (rememberedTransfers (reg_options r))"
  have r: "wfMap (reg_closed r)" "1 \<le> ?max" using assms(1) by (auto simp: registryInv_def)
  have "mapHas (evictOldest ?max (mapSet (dropExpired (reg_closed r) now) ?k (manifest_expiresAt (ts_manifest t)))) ?k"
    using r assms(5,6) by (intro mapHas_evictOldest_mapSet) (auto simp: mapHas_mapGet mapGet_dropExpired)
  then show ?thesis
    using assms(2-5) by (simp add: openRegistry_def sweep_def Let_def)
qed

text \<open>An offer never displaces a live transfer: it is refused, or ends the transfer it contradicts.\<close>

lemma openRegistry_live:
  assumes "reg_active r = Some t" "\<not> terminal t" "openRegistry r m now = (res, r')"
  shows "reg_active r' = Some t \<and> res \<noteq> Inr Opened
    \<or> reg_active r' = None \<and> res = Inr OpenAborted \<and> transferKey m = transferKey (ts_manifest t)
      \<and> attachmentManifestSigningBytes m \<noteq> attachmentManifestSigningBytes (ts_manifest t)"
proof (cases "sweep r now")
  case (Inl e)
  with assms show ?thesis by (auto simp: openRegistry_def)
next
  case (Inr r1)
  have act: "reg_active r1 = Some t" using sweep_simps [OF Inr] assms(1,2) by simp
  have gone: "reg_active r2 = None" if "sweep (r1\<lparr>reg_active := Some (snd (abortTransfer t))\<rparr>) now = Inr r2" for r2
    using sweep_simps [OF that] assms(2)
    by (simp add: abortTransfer_def abortWith_def terminalResult_def Let_def terminalPhases_def)
  have "\<exists>r2. sweep (r1\<lparr>reg_active := Some (snd (abortTransfer t))\<rparr>) now = Inr r2"
    using Inr by (auto simp: sweep_def Let_def split: if_splits)
  then obtain r2 where r2: "sweep (r1\<lparr>reg_active := Some (snd (abortTransfer t))\<rparr>) now = Inr r2" by blast
  show ?thesis
    using assms(3) Inr act r2 gone [OF r2]
    by (auto simp: openRegistry_def Let_def split: if_splits sum.splits)
qed

section \<open>Properties\<close>

definition sampleTransfer :: "AttachmentTransferPhase \<Rightarrow> AttachmentTransferState" where
  "sampleTransfer ph = (newTransferState Inbound sampleManifest 64)\<lparr>ts_phase := ph\<rparr>"

definition sampleOptions :: AttachmentTransferOptions where
  "sampleOptions =
     \<lparr>opt_maximumTransferBytes = None, opt_maximumReorderChunks = None, opt_maximumRememberedTransfers = None\<rparr>"

definition sampleRegistry :: "AttachmentTransferPhase \<Rightarrow> AttachmentTransferRegistry" where
  "sampleRegistry ph =
     \<lparr>reg_direction = Inbound, reg_options = sampleOptions, reg_closed = [], reg_active = Some (sampleTransfer ph)\<rparr>"

lemma sampleManifest_simps [simp]:
  "manifest_expiresAt sampleManifest = 61000" "manifest_byteCount sampleManifest = 300"
  "manifest_chunkCount sampleManifest = 2" "manifest_chunkBytes sampleManifest = 256"
  by (simp_all add: sampleManifest_def)

lemma sampleTransfer_simps [simp]:
  "ts_phase (sampleTransfer ph) = ph" "ts_direction (sampleTransfer ph) = Inbound"
  "ts_chunks (sampleTransfer ph) = []" "ts_manifest (sampleTransfer ph) = sampleManifest"
  "ts_maximumReorderChunks (sampleTransfer ph) = 64"
  by (simp_all add: sampleTransfer_def newTransferState_def copyManifest_def)

lemma transferInv_sample: "transferInv (sampleTransfer ph)"
  using goodManifest_facts(1) [OF goodManifest_sample]
  by (simp add: transferInv_def firstMissing_def) (simp add: sampleTransfer_def newTransferState_def)

lemma openTransfer_sample: "openTransfer Inbound sampleManifest sampleOptions 2000 = Inr (sampleTransfer Offered)"
proof -
  obtain b where "attachmentManifestSigningBytes sampleManifest = Inr b"
    using manifestSigningBytes_eq [OF goodManifest_sample] encode_wf_Inr [OF manifestEntries_wf(2) [OF goodManifest_sample]]
    by (metis andThen_simps(2))
  then show ?thesis
    by (simp add: openTransfer_def validateOpenOptions_def sampleOptions_def maxDirectAttachmentBytes_def
        maxAttachmentChunks_def isSafeInteger_def maxSafeInteger_def sampleTransfer_def newTransferState_def Let_def)
qed

text \<open>
  C3. A file arrives: from an accepted inbound transfer that holds nothing yet, receiving each chunk of
  the file once, before expiry and in any order that stays within the reorder window, stores all but the
  last and completes with the last, returning exactly the file, provided its digest is the manifest's.
\<close>

theorem transfer_delivers:
  assumes "transferInv s" "ts_phase s = Accepted" "ts_direction s = Inbound" "ts_chunks s = []"
    and "int (length buf) = manifest_byteCount (ts_manifest s)"
    and "digest buf = Some (manifest_sha256 (ts_manifest s))"
    and "isSafeInteger now" "now < manifest_expiresAt (ts_manifest s)"
    and "distinct order" "set order = {..<nat (manifest_chunkCount (ts_manifest s))}"
    and "windowOk (nat (ts_maximumReorderChunks s)) [] order"
  shows "\<exists>s'. receiveAll digest s (map (fileChunk (ts_manifest s) buf) order) now
      = Inr (replicate (length order - 1) (ResultOk OkChunkStored Accepted) @ [ResultCompleted buf], s')
    \<and> ts_phase s' = Completed"
proof (rule receiveAll_delivers)
  show "holding s (ts_manifest s) buf []" using assms by (simp add: holding_def)
  have "validateManifest (ts_manifest s) = Inr ()" using assms(1) by (auto simp: transferInv_def succeeds_iff)
  from validateManifest_facts(6) [OF this] have "0 \<in> set order" unfolding assms(10) by simp
  then show "order \<noteq> []" by auto
qed (use assms in simp_all)

theorem transfer_delivers_witness:
  "\<exists>s'. receiveAll (\<lambda>_. Some (manifest_sha256 sampleManifest)) (sampleTransfer Accepted)
      (map (fileChunk sampleManifest (replicate 300 9)) [1, 0]) 2000
      = Inr ([ResultOk OkChunkStored Accepted, ResultCompleted (replicate 300 9)], s') \<and> ts_phase s' = Completed"
  using transfer_delivers [of "sampleTransfer Accepted" "replicate 300 9" "\<lambda>_. Some (manifest_sha256 sampleManifest)" 2000 "[1, 0]"]
  by (simp add: transferInv_sample isSafeInteger_def maxSafeInteger_def lessThan_nat_numeral lessThan_Suc insert_commute)

text \<open>
  C4. Receiving a chunk always returns (no \<^verbatim>\<open>RangeError\<close> escapes the assembly), keeps the invariant,
  and reports completion only with a file of the manifest's length whose digest is the manifest's, the
  transfer then being completed with its buffer cleared.
\<close>

theorem transfer_integrity:
  assumes "transferInv s"
  shows "\<exists>r s'. receiveChunk digest s c now = Inr (r, s') \<and> transferInv s' \<and>
    (\<forall>buf. r = ResultCompleted buf \<longrightarrow> digest buf = Some (manifest_sha256 (ts_manifest s))
      \<and> int (length buf) = manifest_byteCount (ts_manifest s))"
proof -
  obtain r s' where r: "receiveChunk digest s c now = Inr (r, s')" "transferInv s'"
    "\<forall>b. r = ResultCompleted b \<longrightarrow> (\<exists>t. awaiting t \<and> ts_manifest t = ts_manifest s \<and> b = wholeFile t
      \<and> digest b = Some (manifest_sha256 (ts_manifest s)))"
    by (rule receiveChunk_total [OF assms])
  from r(3) wholeFile_length have "\<forall>b. r = ResultCompleted b \<longrightarrow> digest b = Some (manifest_sha256 (ts_manifest s))
      \<and> int (length b) = manifest_byteCount (ts_manifest s)"
    by metis
  with r show ?thesis by blast
qed

theorem transfer_integrity_witness:
  "\<exists>r s'. receiveChunk (\<lambda>_. None) (sampleTransfer Accepted) (fileChunk sampleManifest (replicate 300 9) 0) 2000 = Inr (r, s')
    \<and> transferInv s'"
  using transfer_integrity [OF transferInv_sample] by blast

text \<open>
  C12. Whatever operations follow the opening of a transfer, the invariant holds, so the buffer never
  holds a whole chunk more than the manifest's byte count and no chunk beyond the reorder window.
\<close>

theorem transfer_bounded:
  assumes "openTransfer direction m options now = Inr s0"
  shows "let s = fold (runTransfer digest) ops s0 in transferInv s
    \<and> ts_receivedBytes s < manifest_byteCount (ts_manifest s) + manifest_chunkBytes (ts_manifest s)
    \<and> (\<forall>(i, b) \<in> set (ts_chunks s). i \<le> ts_nextMissingIndex s + ts_maximumReorderChunks s)"
proof -
  have "transferInv s0" using transferInv_new [OF assms] by blast
  then have inv: "transferInv (fold (runTransfer digest) ops s0)" by (rule transfer.inv_runs)
  then show ?thesis
    using transfer_memory_bound [OF inv] by (fastforce simp: Let_def transferInv_def chunkOk_def)
qed

theorem transfer_bounded_witness:
  "transferInv (fold (runTransfer (\<lambda>_. None)) [DoExpire 3000, DoAbort] (sampleTransfer Offered))"
  using transfer_bounded [OF openTransfer_sample, of "\<lambda>_. None" "[DoExpire 3000, DoAbort]"] by (simp add: Let_def)



text \<open>
  C17. A cancellation can be undone: if a matching cancel decision arrives while the last digest is
  awaited, the transfer is reported cancelled, and when the digest then matches, the same transfer is
  reported completed and ends in the completed phase.
\<close>

theorem transfer_completes_after_cancel:
  assumes "awaiting s" "matchesDecision s d (Some Cancel) now"
    and "digest (wholeFile s) = Some (manifest_sha256 (ts_manifest s))"
  shows "\<exists>s1 s2. cancelTransfer s d now = (ResultEnded EndCancelled Cancelled FailCancelled, s1)
    \<and> ts_phase s1 = Cancelled
    \<and> receiveChunkFinish s1 (wholeFile s) (digest (wholeFile s)) = (ResultCompleted (wholeFile s), s2)
    \<and> ts_phase s2 = Completed"
proof -
  have a: "ts_phase s = Accepted" using assms(1) by (simp add: awaiting_def)
  have now: "isSafeInteger now" "now < manifest_expiresAt (ts_manifest s)"
    using assms(2) by (auto simp: matchesDecision_def split: sum.splits)
  then have "checkExpired s now = (False, s)" using a by (simp add: checkExpired_def)
  then have "cancelTransfer s d now
      = (ResultEnded EndCancelled Cancelled FailCancelled, clearChunks (s\<lparr>ts_phase := Cancelled\<rparr>))"
    using a assms(2) by (simp add: cancelTransfer_def unlessExpired_def cancelNow_def terminalResult_def Let_def
        terminal_def terminalPhases_def)
  then show ?thesis
    using assms(3) by (simp add: receiveChunkFinish_def)
qed

definition sampleAwaiting :: AttachmentTransferState where
  "sampleAwaiting = storeChunk (storeChunk (sampleTransfer Accepted) 0 (replicate 256 9)) 1 (replicate 44 9)"

lemma awaiting_sample: "awaiting sampleAwaiting"
proof -
  let ?s1 = "storeChunk (sampleTransfer Accepted) 0 (replicate 256 9)"
  have next0: "ts_nextMissingIndex (sampleTransfer Accepted) = 0" "ts_receivedBytes (sampleTransfer Accepted) = 0"
    by (simp_all add: sampleTransfer_def newTransferState_def)
  have i1: "transferInv ?s1"
    using transferInv_sample by (rule transferInv_storeChunk) (simp_all add: chunkOk_def next0 mapGet_def)
  have "ts_nextMissingIndex ?s1 = 1"
    using advanceMissing_unique [of 0 1 "[(0, replicate 256 9)]"] by (simp add: next0)
  then have "transferInv sampleAwaiting"
    unfolding sampleAwaiting_def by (intro transferInv_storeChunk [OF i1]) (simp_all add: chunkOk_def mapGet_def)
  then show ?thesis by (simp add: awaiting_def) (simp add: sampleAwaiting_def next0)
qed

lemma matchesDecision_sample: "matchesDecision sampleAwaiting (sampleDecision Cancel) (Some Cancel) 3000"
proof -
  obtain b where "attachmentDecisionSigningBytes (sampleDecision Cancel) = Inr b"
    using decisionSigningBytes_eq [OF goodDecision_sample] encode_wf_Inr [OF decisionEntries_wf(2) [OF goodDecision_sample]]
    by (metis andThen_simps(2))
  then show ?thesis
    by (simp add: matchesDecision_def sampleAwaiting_def isSafeInteger_def maxSafeInteger_def)
      (simp add: sampleManifest_def sampleDecision_def)
qed

theorem transfer_completes_after_cancel_witness:
  "\<exists>s1 s2. cancelTransfer sampleAwaiting (sampleDecision Cancel) 3000
      = (ResultEnded EndCancelled Cancelled FailCancelled, s1) \<and> ts_phase s1 = Cancelled
    \<and> receiveChunkFinish s1 (wholeFile sampleAwaiting) (Some (manifest_sha256 (ts_manifest sampleAwaiting)))
      = (ResultCompleted (wholeFile sampleAwaiting), s2) \<and> ts_phase s2 = Completed"
  using transfer_completes_after_cancel [OF awaiting_sample matchesDecision_sample,
    of "\<lambda>_. Some (manifest_sha256 (ts_manifest sampleAwaiting))"] by simp

text \<open>
  The registry's replay memory stays bounded by its option (at most 64 transfers) and its active
  transfer well formed through every offer and every expiry sweep.
\<close>

theorem registry_bounded:
  assumes "registryInv r"
  shows "registryInv (snd (openRegistry r m now)) \<and> (\<forall>r'. expireRegistry r now = Inr r' \<longrightarrow> registryInv r')
    \<and> length (reg_closed (snd (openRegistry r m now))) \<le> 64"
proof -
  have "registryInv (snd (openRegistry r m now))"
    using registryInv_open [OF assms, of m now] by (cases "openRegistry r m now") simp
  then show ?thesis using registryInv_expire [OF assms] by (auto simp: registryInv_def)
qed

lemma registryInv_sample: "registryInv (sampleRegistry ph)"
  using transferInv_sample
  by (simp add: registryInv_def sampleRegistry_def rememberedTransfers_def sampleOptions_def validateOpenOptions_def
      maxDirectAttachmentBytes_def maxAttachmentChunks_def isSafeInteger_def maxSafeInteger_def succeeds_iff Let_def)

theorem registry_bounded_witness: "registryInv (snd (openRegistry (sampleRegistry Aborted) sampleManifest 3000))"
  using registry_bounded [OF registryInv_sample] by blast

text \<open>
  A transfer that has ended is not opened again while it is remembered: the next offer with its
  identifiers is answered as a replay, whatever else the offer says.
\<close>

theorem registry_rejects_replay:
  assumes "registryInv r" "reg_active r = Some t" "terminal t" "isSafeInteger now"
    and "transferKey m = transferKey (ts_manifest t)" "\<not> mapHas (reg_closed r) (transferKey m)"
  shows "fst (openRegistry r m now) = Inr Replayed"
  using assms by (rule closed_transfer_replayed)

theorem registry_rejects_replay_witness:
  "fst (openRegistry (sampleRegistry Aborted) sampleManifest 3000) = Inr Replayed"
  by (rule registry_rejects_replay [OF registryInv_sample, of _ "sampleTransfer Aborted"])
    (simp_all add: sampleRegistry_def terminal_def terminalPhases_def isSafeInteger_def maxSafeInteger_def)

end
