(* ===== verification/Codec_Tools.thy ===== *)
theory Codec_Tools
  imports Attachment JsMap
begin

text \<open>
  Rules the later message codecs share: the common opening of a decoder (a size check, the CBOR decoder,
  a map with known keys only) as one inversion rule, and the literals of the source as decodable texts.
\<close>

declare asciiString_def [simp]

lemmas tokenFacts = goodToken_facts(2,3,4)

lemma sizedMap_Inr [res_simps]:
  "(if bs = [] \<or> n < length bs then Inl err
    else andThen (decodeDeterministicCbor bs n) (\<lambda>v. andThen (readCborMap v label) (\<lambda>m.
      andThen (rejectUnknownEntries m names) (\<lambda>u. f m)))) = Inr y
   \<longleftrightarrow> (\<exists>m. decodeDeterministicCbor bs n = Inr (CMap m) \<and> fst ` set m \<subseteq> set names \<and> f m = Inr y)"
  using decode_size [of bs n] by (auto simp: res_simps)

lemma goodToken_size: "goodToken s n \<Longrightarrow> n \<le> 1024 \<Longrightarrow> length (tokenBytes s) \<le> maxCborBytes"
  by (simp add: goodToken_facts(3) maxCborBytes_def)

lemma validToken_iff: "validToken s n \<longleftrightarrow> (\<exists>bs. decodeBase64URL s = Inr bs \<and> length bs = n)"
  by (auto simp: validToken_def split: sum.splits)

lemma goodToken_validToken: "goodToken s n \<Longrightarrow> validToken s n"
  by (auto simp: validToken_iff elim: goodTokenE)

lemma bounded_encoding:
  assumes "wfCbor v" "length (encoded v) \<le> n"
  shows "andThen (encodeDeterministicCbor v) (\<lambda>bs. if n < length bs then Inl err else Inr bs) = encodeDeterministicCbor v"
  using encode_wf_Inr [OF assms(1)] assms(2) by (cases "encodeDeterministicCbor v") auto

end
