(* ===== verification/ApplicationPayload.thy ===== *)
theory ApplicationPayload
  imports Codec_Tools
begin

text \<open>
  \<^verbatim>\<open>application-payload/runtime.ts\<close> and \<^verbatim>\<open>application-payload/capabilities.ts\<close>: the envelope
  every application message travels in, the registry that classifies it by kind, and the record of what a
  peer's application can receive.
\<close>

section \<open>The envelope\<close>

definition applicationPayloadVersion :: js_string where
  "applicationPayloadVersion = lit ''branch.application-payload/0.draft''"

definition chatTextKind :: js_string where
  "chatTextKind = lit ''branch.chat.text/0.draft''"

definition inlineBinaryKind :: js_string where
  "inlineBinaryKind = lit ''branch.binary.inline/0.draft''"

definition maxApplicationPayloadBytes :: nat where "maxApplicationPayloadBytes = 4096"
definition maxApplicationPayloadKindBytes :: nat where "maxApplicationPayloadKindBytes = 96"
definition maxInlineBinaryBytes :: nat where "maxInlineBinaryBytes = 3000"

record ApplicationPayloadEnvelope =
  payload_version :: js_string
  payload_kind :: js_string
  payload_messageId :: js_string
  payload_body :: bytes

record ApplicationPayloadDescriptor =
  descriptor_kind :: js_string
  descriptor_maximumBodyBytes :: int
  descriptor_requiredCapability :: js_string

datatype RegisteredApplicationPayload =
    PayloadAccepted ApplicationPayloadEnvelope ApplicationPayloadDescriptor
  | PayloadUnknownKind ApplicationPayloadEnvelope

type_synonym payloadRegistry = "(js_string, ApplicationPayloadDescriptor) js_map"

definition isToken :: "js_string \<Rightarrow> nat \<Rightarrow> bool" where
  "isToken value sz = (case decodeBase64URL value of Inl _ \<Rightarrow> False | Inr bs \<Rightarrow> length bs = sz)"

definition validatePayloadDescriptor :: "ApplicationPayloadDescriptor \<Rightarrow> unit res" where
  "validatePayloadDescriptor d = throwIf
     (length (textEncode (descriptor_kind d)) = 0
      \<or> length (textEncode (descriptor_kind d)) > maxApplicationPayloadKindBytes
      \<or> \<not> isSafeInteger (descriptor_maximumBodyBytes d)
      \<or> descriptor_maximumBodyBytes d < 1
      \<or> descriptor_maximumBodyBytes d > int maxApplicationPayloadBytes
      \<or> length (textEncode (descriptor_requiredCapability d)) = 0
      \<or> length (textEncode (descriptor_requiredCapability d)) > maxApplicationPayloadKindBytes)
     (PlainError (lit ''invalid application payload descriptor''))"

definition validatePayloadEnvelope :: "ApplicationPayloadEnvelope \<Rightarrow> unit res" where
  "validatePayloadEnvelope e = throwIf
     (payload_version e \<noteq> applicationPayloadVersion
      \<or> length (textEncode (payload_kind e)) = 0
      \<or> length (textEncode (payload_kind e)) > maxApplicationPayloadKindBytes
      \<or> length (payload_body e) = 0
      \<or> length (payload_body e) > maxApplicationPayloadBytes
      \<or> \<not> isToken (payload_messageId e) 16)
     (PlainError (lit ''invalid application payload envelope''))"

fun registerPayloads :: "payloadRegistry \<Rightarrow> ApplicationPayloadDescriptor list \<Rightarrow> payloadRegistry res" where
  "registerPayloads registry [] = Inr registry"
| "registerPayloads registry (descriptor # descriptors) =
     andThen (validatePayloadDescriptor descriptor) (\<lambda>_.
       if mapHas registry (descriptor_kind descriptor) then throw ''duplicate application payload descriptor''
       else registerPayloads (mapSet registry (descriptor_kind descriptor) descriptor) descriptors)"

definition createApplicationPayloadRegistry :: "ApplicationPayloadDescriptor list \<Rightarrow> payloadRegistry res" where
  "createApplicationPayloadRegistry descriptors = registerPayloads [] descriptors"

definition payloadMap :: "ApplicationPayloadEnvelope \<Rightarrow> cbor res" where
  "payloadMap e =
     andThen (decodeBase64URL (payload_messageId e)) (\<lambda>messageId.
       Inr (CMap
         [(lit ''version'', CText (payload_version e)),
          (lit ''kind'', CText (payload_kind e)),
          (lit ''message_id'', CBytes messageId),
          (lit ''body'', CBytes (payload_body e))]))"

definition encodeApplicationPayload :: "ApplicationPayloadEnvelope \<Rightarrow> bytes res" where
  "encodeApplicationPayload e =
     andThen (validatePayloadEnvelope e) (\<lambda>_. andThen (payloadMap e) encodeDeterministicCbor)"

definition readPayloadKind :: "cborMap \<Rightarrow> js_string res" where
  "readPayloadKind m =
     andThen (getRequiredEntry m (lit ''kind'')) (\<lambda>v.
     andThen (readText v (lit ''kind'')) (\<lambda>kind.
       if length (textEncode kind) > maxApplicationPayloadKindBytes then throw ''invalid application payload kind''
       else Inr kind))"

definition decodeApplicationPayload :: "bytes \<Rightarrow> ApplicationPayloadEnvelope res" where
  "decodeApplicationPayload bs =
     (if length bs = 0 \<or> length bs > maxApplicationPayloadBytes then throw ''invalid application payload size''
      else
        andThen (decodeDeterministicCbor bs maxApplicationPayloadBytes) (\<lambda>value.
        andThen (readCborMap value (lit ''application_payload'')) (\<lambda>m.
        andThen (rejectUnknownEntries m [lit ''version'', lit ''kind'', lit ''message_id'', lit ''body'']) (\<lambda>_.
        andThen (andThen (getRequiredEntry m (lit ''version'')) (\<lambda>v. readText v (lit ''version''))) (\<lambda>version.
          if version \<noteq> applicationPayloadVersion then throw ''unsupported application payload version''
          else
            andThen (readPayloadKind m) (\<lambda>kind.
            andThen (token m (lit ''message_id'') 16) (\<lambda>messageId.
            andThen (andThen (getRequiredEntry m (lit ''body'')) (\<lambda>v. readBytes v (lit ''body'') None)) (\<lambda>body.
              let envelope = \<lparr>payload_version = version, payload_kind = kind, payload_messageId = messageId,
                payload_body = body\<rparr>
              in andThen (validatePayloadEnvelope envelope) (\<lambda>_. Inr envelope)))))))))"

definition classifyApplicationPayload :: "bytes \<Rightarrow> payloadRegistry \<Rightarrow> RegisteredApplicationPayload res" where
  "classifyApplicationPayload bs registry =
     andThen (decodeApplicationPayload bs) (\<lambda>envelope.
       case mapGet registry (payload_kind envelope) of
         None \<Rightarrow> Inr (PayloadUnknownKind envelope)
       | Some descriptor \<Rightarrow>
           if int (length (payload_body envelope)) > descriptor_maximumBodyBytes descriptor
           then throw ''application payload body too large''
           else Inr (PayloadAccepted envelope descriptor))"

section \<open>Capabilities\<close>

definition applicationCapabilitiesControlKind :: js_string where
  "applicationCapabilitiesControlKind = lit ''branch.application.capabilities/0.draft''"

definition maxApplicationCapabilitiesBytes :: nat where "maxApplicationCapabilitiesBytes = 2048"
definition maxApplicationCapabilityIdentifiers :: nat where "maxApplicationCapabilityIdentifiers = 16"
definition maxApplicationCapabilityIdentifierBytes :: nat where "maxApplicationCapabilityIdentifierBytes = 96"
definition maxApplicationCapabilityInlineBytes :: int where "maxApplicationCapabilityInlineBytes = 3000"
definition maxApplicationCapabilityRelayAttachmentBytes :: int where
  "maxApplicationCapabilityRelayAttachmentBytes = 4 * 1024 * 1024"
definition maxApplicationCapabilityDirectAttachmentBytes :: int where
  "maxApplicationCapabilityDirectAttachmentBytes = 16 * 1024 * 1024"

datatype AttachmentMode = ModeNone | ModeReceiverAccept

fun attachmentModeText :: "AttachmentMode \<Rightarrow> js_string" where
  "attachmentModeText ModeNone = lit ''none''"
| "attachmentModeText ModeReceiverAccept = lit ''receiver-accept''"

record ApplicationCapabilities =
  cap_applicationVersions :: "js_string list"
  cap_kinds :: "js_string list"
  cap_maxInlineBytes :: int
  cap_attachmentMode :: AttachmentMode
  cap_maxRelayAttachmentBytes :: int
  cap_maxDirectAttachmentBytes :: int

definition isASCIIIdentifier :: "js_string \<Rightarrow> bool" where
  "isASCIIIdentifier value =
     (let bs = textEncode value in
      length bs > 0 \<and> length bs \<le> maxApplicationCapabilityIdentifierBytes
      \<and> (\<forall>b \<in> set bs. unat b \<ge> 0x21 \<and> unat b \<le> 0x7e))"

fun orderedIdentifiersAfter :: "js_string option \<Rightarrow> js_string list \<Rightarrow> js_string \<Rightarrow> unit res" where
  "orderedIdentifiersAfter previous [] label = Inr ()"
| "orderedIdentifiersAfter previous (value # values) label =
     (if \<not> isASCIIIdentifier value \<or> (case previous of None \<Rightarrow> False | Some p \<Rightarrow> value \<le> p)
      then Inl (PlainError (lit ''invalid '' @ label))
      else orderedIdentifiersAfter (Some value) values label)"

definition validateOrderedIdentifiers :: "js_string list \<Rightarrow> js_string \<Rightarrow> unit res" where
  "validateOrderedIdentifiers values label =
     (if length values > maxApplicationCapabilityIdentifiers then Inl (PlainError (lit ''invalid '' @ label))
      else orderedIdentifiersAfter None values label)"

definition validateApplicationCapabilities :: "ApplicationCapabilities \<Rightarrow> unit res" where
  "validateApplicationCapabilities value =
     andThen (validateOrderedIdentifiers (cap_applicationVersions value) (lit ''application versions'')) (\<lambda>_.
     andThen (validateOrderedIdentifiers (cap_kinds value) (lit ''application kinds'')) (\<lambda>_. throwIf
       (\<not> isSafeInteger (cap_maxInlineBytes value) \<or> cap_maxInlineBytes value < 0
        \<or> cap_maxInlineBytes value > maxApplicationCapabilityInlineBytes
        \<or> \<not> isSafeInteger (cap_maxRelayAttachmentBytes value) \<or> cap_maxRelayAttachmentBytes value < 0
        \<or> cap_maxRelayAttachmentBytes value > maxApplicationCapabilityRelayAttachmentBytes
        \<or> \<not> isSafeInteger (cap_maxDirectAttachmentBytes value) \<or> cap_maxDirectAttachmentBytes value < 0
        \<or> cap_maxDirectAttachmentBytes value > maxApplicationCapabilityDirectAttachmentBytes
        \<or> (cap_attachmentMode value \<noteq> ModeNone \<and> cap_attachmentMode value \<noteq> ModeReceiverAccept))
       (PlainError (lit ''invalid application capabilities''))))"

definition capabilitiesMap :: "ApplicationCapabilities \<Rightarrow> cbor" where
  "capabilitiesMap value = CMap
     [(lit ''application_versions'', CArray (map CText (cap_applicationVersions value))),
      (lit ''kinds'', CArray (map CText (cap_kinds value))),
      (lit ''max_inline_bytes'', CNum (cap_maxInlineBytes value)),
      (lit ''attachment_mode'', CText (attachmentModeText (cap_attachmentMode value))),
      (lit ''max_relay_attachment_bytes'', CNum (cap_maxRelayAttachmentBytes value)),
      (lit ''max_direct_attachment_bytes'', CNum (cap_maxDirectAttachmentBytes value))]"

definition encodeApplicationCapabilities :: "ApplicationCapabilities \<Rightarrow> bytes res" where
  "encodeApplicationCapabilities value =
     andThen (validateApplicationCapabilities value) (\<lambda>_.
     andThen (encodeDeterministicCbor (capabilitiesMap value)) (\<lambda>bs.
       if length bs > maxApplicationCapabilitiesBytes then throw ''application capabilities body too large'' else Inr bs))"

definition readOrderedIdentifiers :: "cbor \<Rightarrow> js_string \<Rightarrow> js_string list res" where
  "readOrderedIdentifiers value label = (case value of
      CArray items \<Rightarrow>
        if length items > maxApplicationCapabilityIdentifiers then Inl (PlainError (lit ''invalid '' @ label))
        else andThen (mapRes (\<lambda>item. readText item label) items) (\<lambda>identifiers.
             andThen (validateOrderedIdentifiers identifiers label) (\<lambda>_. Inr identifiers))
    | _ \<Rightarrow> Inl (PlainError (lit ''invalid '' @ label)))"

definition invalidAttachmentMode :: "'a res" where
  "invalidAttachmentMode = throw ''invalid attachment mode''"

definition decodeApplicationCapabilities :: "bytes \<Rightarrow> ApplicationCapabilities res" where
  "decodeApplicationCapabilities bs =
     (if length bs = 0 \<or> length bs > maxApplicationCapabilitiesBytes then throw ''invalid application capabilities body size''
      else
        andThen (decodeDeterministicCbor bs maxApplicationCapabilitiesBytes) (\<lambda>v.
        andThen (readCborMap v (lit ''application_capabilities'')) (\<lambda>m.
        andThen (rejectUnknownEntries m [lit ''application_versions'', lit ''kinds'', lit ''max_inline_bytes'',
          lit ''attachment_mode'', lit ''max_relay_attachment_bytes'', lit ''max_direct_attachment_bytes'']) (\<lambda>_.
        andThen (andThen (getRequiredEntry m (lit ''attachment_mode'')) (\<lambda>a. readText a (lit ''attachment_mode''))) (\<lambda>attachmentMode.
        andThen (andThen (getRequiredEntry m (lit ''application_versions'')) (\<lambda>a. readOrderedIdentifiers a (lit ''application_versions''))) (\<lambda>versions.
        andThen (andThen (getRequiredEntry m (lit ''kinds'')) (\<lambda>a. readOrderedIdentifiers a (lit ''kinds''))) (\<lambda>kinds.
        andThen (number m (lit ''max_inline_bytes'')) (\<lambda>maxInlineBytes.
        andThen (if attachmentMode = lit ''none'' then Inr ModeNone
                 else if attachmentMode = lit ''receiver-accept'' then Inr ModeReceiverAccept
                 else invalidAttachmentMode) (\<lambda>mode.
        andThen (number m (lit ''max_relay_attachment_bytes'')) (\<lambda>maxRelay.
        andThen (number m (lit ''max_direct_attachment_bytes'')) (\<lambda>maxDirect.
          let value = \<lparr>cap_applicationVersions = versions, cap_kinds = kinds, cap_maxInlineBytes = maxInlineBytes,
            cap_attachmentMode = mode, cap_maxRelayAttachmentBytes = maxRelay, cap_maxDirectAttachmentBytes = maxDirect\<rparr>
          in andThen (validateApplicationCapabilities value) (\<lambda>_. Inr value))))))))))))"

section \<open>The envelope codec meets its contract\<close>

definition payloadEntries :: "ApplicationPayloadEnvelope \<Rightarrow> cborMap" where
  "payloadEntries e =
     [(lit ''version'', CText (payload_version e)),
      (lit ''kind'', CText (payload_kind e)),
      (lit ''message_id'', CBytes (tokenBytes (payload_messageId e))),
      (lit ''body'', CBytes (payload_body e))]"

text \<open>The encoder has no bound on what it writes, so the canonical envelopes carry one.\<close>

definition goodPayload :: "ApplicationPayloadEnvelope \<Rightarrow> bool" where
  "goodPayload e \<longleftrightarrow> validatePayloadEnvelope e = Inr () \<and> goodToken (payload_messageId e) 16 \<and> goodText (payload_kind e) 96
     \<and> length (encoded (CMap (payloadEntries e))) \<le> 4096"

abbreviation payloadNames :: "js_string list" where
  "payloadNames \<equiv> [lit ''version'', lit ''kind'', lit ''message_id'', lit ''body'']"

lemma isToken_validToken [simp]: "isToken = validToken"
  by (intro ext) (simp add: isToken_def validToken_def)

lemma validatePayloadEnvelope_Inr [res_simps]:
  "validatePayloadEnvelope e = Inr u \<longleftrightarrow> payload_version e = applicationPayloadVersion
     \<and> payload_kind e \<noteq> [] \<and> length (textEncode (payload_kind e)) \<le> 96 \<and> payload_body e \<noteq> []
     \<and> length (payload_body e) \<le> 4096 \<and> validToken (payload_messageId e) 16"
  by (auto simp: validatePayloadEnvelope_def maxApplicationPayloadKindBytes_def maxApplicationPayloadBytes_def)

lemma readPayloadKind_Inr [res_simps]:
  "readPayloadKind m = Inr k \<longleftrightarrow> map_of m (lit ''kind'') = Some (CText k) \<and> k \<noteq> [] \<and> length (textEncode k) \<le> 96"
  by (cases "map_of m (lit ''kind'')")
    (auto simp: readPayloadKind_def getRequiredEntry_def readText_def invalidEntry_def maxApplicationPayloadKindBytes_def
      maxCborTextBytes_def split: cbor.splits if_splits)

lemma payloadEntries_wf:
  assumes "payload_version e = applicationPayloadVersion" "goodText (payload_kind e) 96" "goodToken (payload_messageId e) 16"
    and "length (payload_body e) \<le> 4096"
  shows "wfCbor (CMap (payloadEntries e))"
  using assms goodText_decodable [OF assms(2)]
  by (simp add: payloadEntries_def applicationPayloadVersion_def maxCborCollectionEntries_def goodToken_size) (simp add: maxCborBytes_def)

lemma goodPayload_facts:
  assumes "goodPayload e"
  shows "validatePayloadEnvelope e = Inr ()" "goodToken (payload_messageId e) 16" "goodText (payload_kind e) 96"
    "payload_version e = applicationPayloadVersion" "payload_body e \<noteq> []" "length (payload_body e) \<le> 4096"
    "length (encoded (CMap (payloadEntries e))) \<le> 4096"
  using assms by (simp_all add: goodPayload_def res_simps)

lemma encodeApplicationPayload_entries:
  "validatePayloadEnvelope e = Inr () \<Longrightarrow> goodToken (payload_messageId e) 16 \<Longrightarrow>
    encodeApplicationPayload e = encodeDeterministicCbor (CMap (payloadEntries e))"
  by (simp add: encodeApplicationPayload_def payloadMap_def payloadEntries_def goodToken_facts(1) del: encodeDeterministicCbor.simps)

interpretation application_payload: flat_codec encodeApplicationPayload decodeApplicationPayload goodPayload payloadEntries payloadNames 4096
proof
  fix e assume e: "goodPayload e"
  note f = goodPayload_facts [OF e]
  show "encodeApplicationPayload e = encodeDeterministicCbor (CMap (payloadEntries e))"
    using f by (simp add: encodeApplicationPayload_entries del: encodeDeterministicCbor.simps)
  show "wfCbor (CMap (payloadEntries e)) \<and> (\<forall>v \<in> snd ` set (payloadEntries e). scalar v)"
    using payloadEntries_wf f by (simp add: payloadEntries_def)
  show "length (encoded (CMap (payloadEntries e))) \<le> 4096" by (rule f(7))
  show "fst ` set (payloadEntries e) \<subseteq> set payloadNames" by (simp add: payloadEntries_def)
next
  fix c e k assume c: "goodPayload c" "decodeDeterministicCbor e 4096 = Inr (CMap k)" "map_of k = map_of (payloadEntries c)"
    "fst ` set k \<subseteq> set payloadNames"
  note f = goodPayload_facts [OF c(1)]
  show "decodeApplicationPayload e = Inr c"
    using f(1-6) c(2-) decode_size [OF c(2)] tokenFacts [OF f(2)]
    by (cases c) (simp add: decodeApplicationPayload_def payloadEntries_def res_simps applicationPayloadVersion_def
        maxCborBytes_def maxCborTextBytes_def maxApplicationPayloadBytes_def Let_def goodText_def)
next
  fix e c assume "decodeApplicationPayload e = Inr c"
  then obtain k mid where k: "decodeDeterministicCbor e 4096 = Inr (CMap k)" "fst ` set k \<subseteq> set payloadNames"
    and fields: "map_of k (lit ''version'') = Some (CText (payload_version c))"
    "map_of k (lit ''kind'') = Some (CText (payload_kind c))" "map_of k (lit ''message_id'') = Some (CBytes mid)"
    "map_of k (lit ''body'') = Some (CBytes (payload_body c))"
    and rest: "payload_messageId c = encodeBase64URL mid" "length mid = 16" "validatePayloadEnvelope c = Inr ()"
      "payload_kind c \<noteq> []" "length (textEncode (payload_kind c)) \<le> 96"
    unfolding decodeApplicationPayload_def maxApplicationPayloadBytes_def
    by (clarsimp simp: res_simps maxCborBytes_def maxCborTextBytes_def Let_def split: if_splits)
  have same: "\<forall>key \<in> set payloadNames. map_of k key = map_of (payloadEntries c) key"
    using fields rest by (simp add: payloadEntries_def)
  have "encodeDeterministicCbor (CMap (payloadEntries c)) = Inr e"
    using k same by (intro decode_CMap_entries [OF k(1) _ decoded_keys [OF k(1)]]) (auto simp: payloadEntries_def)
  then have "length (encoded (CMap (payloadEntries c))) \<le> 4096" using decode_size [OF k(1)] by simp
  then have "goodPayload c"
    using rest decoded_entry [OF k(1) fields(2)] by (auto simp: goodPayload_def decodable_goodText)
  with k same show "goodPayload c \<and> (\<exists>k. decodeDeterministicCbor e 4096 = Inr (CMap k)
    \<and> fst ` set k \<subseteq> set payloadNames \<and> (\<forall>key \<in> set payloadNames. map_of k key = map_of (payloadEntries c) key))"
    by blast
qed

section \<open>The capabilities codec meets its contract\<close>

lemma scalars_small: "\<forall>c \<in> set (scalars s). c < 128 \<Longrightarrow> \<forall>u \<in> set s. unat u < 128"
  by (induction s rule: scalars.induct) (auto simp: unitScalar_def pairScalar_def split: if_splits)

lemma utf8Scalar_large: "isScalar c \<Longrightarrow> 128 \<le> c \<Longrightarrow> \<exists>b \<in> set (utf8Scalar c). 128 \<le> unat b"
  by (auto simp: utf8Scalar_def isScalar_def intro!: bexI [of _ "byteOf _"])

lemma textEncode_small:
  assumes "\<forall>b \<in> set (textEncode s). unat b < 128"
  shows "\<forall>u \<in> set s. unat u < 128"
proof (rule scalars_small, rule ballI, rule ccontr)
  fix c assume c: "c \<in> set (scalars s)" "\<not> c < 128"
  then obtain b where "b \<in> set (utf8Scalar c)" "128 \<le> unat b"
    using utf8Scalar_large scalars_isScalar [of s] by (meson not_less)
  then show False using assms c(1) unfolding textEncode_def by fastforce
qed

lemma isASCIIIdentifier_goodText:
  assumes "isASCIIIdentifier s"
  shows "goodText s 96"
proof -
  have b: "\<forall>b \<in> set (textEncode s). unat b < 128" "s \<noteq> []" "length (textEncode s) \<le> 96"
    using assms by (auto simp: isASCIIIdentifier_def Let_def maxApplicationCapabilityIdentifierBytes_def)
  have u: "\<forall>u \<in> set s. unat u < 128" by (rule textEncode_small [OF b(1)])
  then have "\<not> startsWithBOM s" by (cases s) (auto simp: startsWithBOM_def)
  with u b wellFormed_ascii show ?thesis by (simp add: goodText_def)
qed

lemma orderedIdentifiersAfter_Inr:
  "orderedIdentifiersAfter previous values label = Inr u \<longleftrightarrow>
     (\<forall>v \<in> set values. isASCIIIdentifier v) \<and> sorted_wrt (<) (case_option [] (\<lambda>p. [p]) previous @ values)"
proof (induction previous "values" label rule: orderedIdentifiersAfter.induct)
  case (2 previous v vs label)
  have trans: "(\<forall>x \<in> set vs. v < x) \<longrightarrow> p < v \<longrightarrow> (\<forall>x \<in> set vs. p < x)" for p
    by (meson less_trans)
  show ?case
    using 2 trans by (cases previous) (auto simp: not_le)
qed (auto split: option.splits)

lemma validateOrderedIdentifiers_Inr [res_simps]:
  "validateOrderedIdentifiers values label = Inr u \<longleftrightarrow>
     length values \<le> 16 \<and> (\<forall>v \<in> set values. isASCIIIdentifier v) \<and> sorted_wrt (<) values"
  by (auto simp: validateOrderedIdentifiers_def orderedIdentifiersAfter_Inr maxApplicationCapabilityIdentifiers_def)

lemma mapRes_readText:
  "mapRes (\<lambda>item. readText item label) items = Inr ids \<longleftrightarrow>
     items = map CText ids \<and> (\<forall>s \<in> set ids. s \<noteq> [] \<and> length (textEncode s) \<le> 1024)"
  by (induction items arbitrary: ids) (auto simp: res_simps maxCborTextBytes_def)

lemma readOrderedIdentifiers_Inr [res_simps]:
  "readOrderedIdentifiers v label = Inr ids \<longleftrightarrow> v = CArray (map CText ids) \<and> validateOrderedIdentifiers ids label = Inr ()"
proof -
  have "s \<noteq> [] \<and> length (textEncode s) \<le> 1024" if "isASCIIIdentifier s" for s
    using isASCIIIdentifier_goodText [OF that] by (simp add: goodText_def)
  then show ?thesis
    by (cases v) (auto simp: readOrderedIdentifiers_def res_simps mapRes_readText maxApplicationCapabilityIdentifiers_def)
qed

definition goodCapabilities :: "ApplicationCapabilities \<Rightarrow> bool" where
  "goodCapabilities p \<longleftrightarrow> validateApplicationCapabilities p = Inr () \<and> length (encoded (capabilitiesMap p)) \<le> 2048"

abbreviation applicationCapabilityNames :: "js_string list" where
  "applicationCapabilityNames \<equiv> [lit ''application_versions'', lit ''kinds'', lit ''max_inline_bytes'',
     lit ''attachment_mode'', lit ''max_relay_attachment_bytes'', lit ''max_direct_attachment_bytes'']"

definition applicationCapabilityEntries :: "ApplicationCapabilities \<Rightarrow> cborMap" where
  "applicationCapabilityEntries p =
     [(lit ''application_versions'', CArray (map CText (cap_applicationVersions p))),
      (lit ''kinds'', CArray (map CText (cap_kinds p))),
      (lit ''max_inline_bytes'', CNum (cap_maxInlineBytes p)),
      (lit ''attachment_mode'', CText (attachmentModeText (cap_attachmentMode p))),
      (lit ''max_relay_attachment_bytes'', CNum (cap_maxRelayAttachmentBytes p)),
      (lit ''max_direct_attachment_bytes'', CNum (cap_maxDirectAttachmentBytes p))]"

lemma capabilitiesMap_entries: "capabilitiesMap p = CMap (applicationCapabilityEntries p)"
  by (simp add: capabilitiesMap_def applicationCapabilityEntries_def)

lemma validateApplicationCapabilities_facts:
  assumes "validateApplicationCapabilities p = Inr ()"
  shows "\<And>l. validateOrderedIdentifiers (cap_applicationVersions p) l = Inr ()" "\<And>l. validateOrderedIdentifiers (cap_kinds p) l = Inr ()"
    "goodTime (cap_maxInlineBytes p)" "goodTime (cap_maxRelayAttachmentBytes p)" "goodTime (cap_maxDirectAttachmentBytes p)"
  using assms by (simp_all add: validateApplicationCapabilities_def res_simps goodTime_def isSafeInteger_def abs_le_iff)

lemma applicationCapabilityEntries_wf:
  assumes "validateApplicationCapabilities p = Inr ()"
  shows "wfCbor (CMap (applicationCapabilityEntries p))"
proof -
  note f = validateApplicationCapabilities_facts [OF assms]
  have "decodableText s" if "isASCIIIdentifier s" for s
    using goodText_decodable [OF isASCIIIdentifier_goodText [OF that]] by simp
  with f show ?thesis
    by (cases "cap_attachmentMode p")
      (auto simp: applicationCapabilityEntries_def goodTime_def maxCborCollectionEntries_def res_simps)
qed

lemma attachmentMode_read:
  "(if t = lit ''none'' then Inr ModeNone else if t = lit ''receiver-accept'' then Inr ModeReceiverAccept else invalidAttachmentMode)
     = Inr a \<longleftrightarrow> t = attachmentModeText a"
  by (cases a) (auto simp: invalidAttachmentMode_def)

interpretation application_capabilities: flat_codec encodeApplicationCapabilities decodeApplicationCapabilities goodCapabilities
  applicationCapabilityEntries applicationCapabilityNames 2048
proof
  fix p assume p: "goodCapabilities p"
  then have v: "validateApplicationCapabilities p = Inr ()" and len: "length (encoded (CMap (applicationCapabilityEntries p))) \<le> 2048"
    by (simp_all add: goodCapabilities_def capabilitiesMap_entries)
  note wf = applicationCapabilityEntries_wf [OF v]
  show "encodeApplicationCapabilities p = encodeDeterministicCbor (CMap (applicationCapabilityEntries p))"
    using v bounded_encoding [OF wf len]
    by (simp add: encodeApplicationCapabilities_def capabilitiesMap_entries maxApplicationCapabilitiesBytes_def del: encodeDeterministicCbor.simps)
  show "wfCbor (CMap (applicationCapabilityEntries p)) \<and> (\<forall>v \<in> snd ` set (applicationCapabilityEntries p). scalar v)"
    using wf by (auto simp: applicationCapabilityEntries_def)
  show "length (encoded (CMap (applicationCapabilityEntries p))) \<le> 2048" by (rule len)
  show "fst ` set (applicationCapabilityEntries p) \<subseteq> set applicationCapabilityNames" by (simp add: applicationCapabilityEntries_def)
next
  fix p e k assume p: "goodCapabilities p" "decodeDeterministicCbor e 2048 = Inr (CMap k)"
    "map_of k = map_of (applicationCapabilityEntries p)" "fst ` set k \<subseteq> set applicationCapabilityNames"
  then have v: "validateApplicationCapabilities p = Inr ()" by (simp add: goodCapabilities_def)
  have mode: "readText (CText (attachmentModeText a)) l = Inr (attachmentModeText a)" for a l
    by (cases a) (simp_all add: res_simps maxCborTextBytes_def)
  show "decodeApplicationCapabilities e = Inr p"
    using validateApplicationCapabilities_facts [OF v] v p(2-) decode_size [OF p(2)] mode
    by (cases p) (simp add: decodeApplicationCapabilities_def applicationCapabilityEntries_def andThen_Inr getRequiredEntry_Inr number_Inr
        readCborMap_Inr rejectUnknownEntries_Inr readOrderedIdentifiers_Inr attachmentMode_read maxApplicationCapabilitiesBytes_def Let_def)
next
  fix e p assume "decodeApplicationCapabilities e = Inr p"
  then obtain k where k: "decodeDeterministicCbor e 2048 = Inr (CMap k)" "fst ` set k \<subseteq> set applicationCapabilityNames"
    and fields: "map_of k (lit ''application_versions'') = Some (CArray (map CText (cap_applicationVersions p)))"
    "map_of k (lit ''kinds'') = Some (CArray (map CText (cap_kinds p)))"
    "map_of k (lit ''max_inline_bytes'') = Some (CNum (cap_maxInlineBytes p))"
    "map_of k (lit ''attachment_mode'') = Some (CText (attachmentModeText (cap_attachmentMode p)))"
    "map_of k (lit ''max_relay_attachment_bytes'') = Some (CNum (cap_maxRelayAttachmentBytes p))"
    "map_of k (lit ''max_direct_attachment_bytes'') = Some (CNum (cap_maxDirectAttachmentBytes p))"
    and valid: "validateApplicationCapabilities p = Inr ()"
    unfolding decodeApplicationCapabilities_def maxApplicationCapabilitiesBytes_def
    by (clarsimp simp: sizedMap_Inr andThen_Inr getRequiredEntry_Inr number_Inr readText_Inr readOrderedIdentifiers_Inr
        attachmentMode_read Let_def)
  have same: "\<forall>key \<in> set applicationCapabilityNames. map_of k key = map_of (applicationCapabilityEntries p) key"
    using fields by (simp add: applicationCapabilityEntries_def)
  have "encodeDeterministicCbor (CMap (applicationCapabilityEntries p)) = Inr e"
    using k same by (intro decode_CMap_entries [OF k(1) _ decoded_keys [OF k(1)]]) (auto simp: applicationCapabilityEntries_def)
  then have "goodCapabilities p"
    using valid decode_size [OF k(1)] by (simp add: goodCapabilities_def capabilitiesMap_entries)
  with k same show "goodCapabilities p \<and> (\<exists>k. decodeDeterministicCbor e 2048 = Inr (CMap k)
    \<and> fst ` set k \<subseteq> set applicationCapabilityNames \<and> (\<forall>key \<in> set applicationCapabilityNames. map_of k key = map_of (applicationCapabilityEntries p) key))"
    by blast
qed

end
