(* ===== verification/Image.thy ===== *)
theory Image
  imports ApplicationPayload
begin

text \<open>
  \<^verbatim>\<open>application-payload/image.ts\<close>: inline images, image transfer manifests and chunks, and the
  image capabilities an endpoint announces, with their validators, codecs, signing bytes and admission
  predicates. An optional field of the source is an \<open>option\<close>. Helper functions the file repeats
  from \<^verbatim>\<open>attachment.ts\<close> carry the prefix \<open>image\<close>.
\<close>

section \<open>Data\<close>

definition imageMessageVersion :: js_string where
  "imageMessageVersion = lit ''branch.image-message/0.draft''"

definition imageTransferVersion :: js_string where
  "imageTransferVersion = lit ''branch.image-transfer/0.draft''"

definition imageTransferSignatureDomain :: js_string where
  "imageTransferSignatureDomain = lit ''branch.image-transfer.signature/0.draft''"

definition imageCapabilitiesControlKind :: js_string where
  "imageCapabilitiesControlKind = lit ''branch.image.capabilities/0.draft''"

definition imageInlineKind :: js_string where
  "imageInlineKind = lit ''branch.image.inline/0.draft''"

definition imageTransferManifestKind :: js_string where
  "imageTransferManifestKind = lit ''branch.image.transfer.manifest/0.draft''"

definition imageTransferChunkKind :: js_string where
  "imageTransferChunkKind = lit ''branch.image.transfer.chunk/0.draft''"

definition maxInlineImageBytes :: nat where "maxInlineImageBytes = 2800"
definition maxInlineImageBodyBytes :: nat where "maxInlineImageBodyBytes = 3000"
definition maxImageTransferChunkBytes :: nat where "maxImageTransferChunkBytes = 3072"
definition maxImageTransferChunkBodyBytes :: nat where "maxImageTransferChunkBodyBytes = 4096"
definition maxImageTransferManifestBodyBytes :: nat where "maxImageTransferManifestBodyBytes = 2048"
definition maxImageTransferChunks :: int where "maxImageTransferChunks = 8192"
definition maxImageRelayBytes :: int where "maxImageRelayBytes = 4 * 1024 * 1024"
definition maxImageDirectBytes :: int where "maxImageDirectBytes = 16 * 1024 * 1024"
definition maxImageTransferTTLms :: int where "maxImageTransferTTLms = 15 * 60 * 1000"
definition maxImageWidth :: int where "maxImageWidth = 4096"
definition maxImageHeight :: int where "maxImageHeight = 4096"
definition maxImagePixels :: int where "maxImagePixels = 16 * 1024 * 1024"
definition maxImageCapabilitiesBytes :: nat where "maxImageCapabilitiesBytes = 512"
definition maxImageCaptionBytes :: nat where "maxImageCaptionBytes = 1024"

datatype RasterImageMediaType = ImageJpeg | ImagePng | ImageWebp

fun mediaTypeText :: "RasterImageMediaType \<Rightarrow> js_string" where
  "mediaTypeText ImageJpeg = lit ''image/jpeg''"
| "mediaTypeText ImagePng = lit ''image/png''"
| "mediaTypeText ImageWebp = lit ''image/webp''"

datatype ImageRoute = RouteRelay | RouteDirect

record InlineImage =
  inline_version :: js_string
  inline_mediaType :: RasterImageMediaType
  inline_width :: int
  inline_height :: int
  inline_bytes :: bytes
  inline_caption :: "js_string option"
  inline_replyToMessageId :: "js_string option"

record ImageTransferManifest =
  im_version :: js_string
  im_transferId :: js_string
  im_manifestId :: js_string
  im_messageId :: js_string
  im_issuedAt :: int
  im_expiresAt :: int
  im_mediaType :: RasterImageMediaType
  im_width :: int
  im_height :: int
  im_byteCount :: int
  im_chunkBytes :: int
  im_chunkCount :: int
  im_sha256 :: js_string
  im_signature :: bytes
  im_caption :: "js_string option"
  im_replyToMessageId :: "js_string option"

record ImageTransferChunk =
  ic_version :: js_string
  ic_transferId :: js_string
  ic_manifestId :: js_string
  ic_index :: int
  ic_bytes :: bytes

record ImageCapabilities =
  cap_version :: js_string
  cap_maxInlineBytes :: int
  cap_maxRelayBytes :: int
  cap_maxDirectBytes :: int
  cap_maxWidth :: int
  cap_maxHeight :: int
  cap_maxPixels :: int

definition imageApplicationPayloadDescriptors :: "ApplicationPayloadDescriptor list" where
  "imageApplicationPayloadDescriptors =
     [\<lparr>descriptor_kind = imageInlineKind, descriptor_maximumBodyBytes = int maxInlineImageBodyBytes,
       descriptor_requiredCapability = imageCapabilitiesControlKind\<rparr>,
      \<lparr>descriptor_kind = imageTransferManifestKind, descriptor_maximumBodyBytes = int maxImageTransferManifestBodyBytes,
       descriptor_requiredCapability = imageCapabilitiesControlKind\<rparr>,
      \<lparr>descriptor_kind = imageTransferChunkKind, descriptor_maximumBodyBytes = int maxImageTransferChunkBodyBytes,
       descriptor_requiredCapability = imageCapabilitiesControlKind\<rparr>]"

section \<open>Validators\<close>

definition isBoundedInteger :: "int \<Rightarrow> int \<Rightarrow> int \<Rightarrow> bool" where
  "isBoundedInteger n minimum maximum \<longleftrightarrow> isSafeInteger n \<and> n \<ge> minimum \<and> n \<le> maximum"

definition isSafeTime :: "int \<Rightarrow> bool" where
  "isSafeTime n \<longleftrightarrow> isSafeInteger n \<and> n \<ge> 0"

definition tokenIs :: "js_string \<Rightarrow> nat \<Rightarrow> bool" where
  "tokenIs value sz = (case decodeBase64URL value of Inl _ \<Rightarrow> False | Inr bs \<Rightarrow> length bs = sz)"

definition isRasterImageMediaType :: "js_string \<Rightarrow> bool" where
  "isRasterImageMediaType value \<longleftrightarrow>
     value = lit ''image/jpeg'' \<or> value = lit ''image/png'' \<or> value = lit ''image/webp''"

definition validateCaption :: "js_string option \<Rightarrow> unit res" where
  "validateCaption caption = throwIf
     (case caption of None \<Rightarrow> False
      | Some c \<Rightarrow> length (textEncode c) > maxImageCaptionBytes \<or> trim c = [])
     (PlainError (lit ''invalid image caption''))"

definition validateImageShape :: "RasterImageMediaType \<Rightarrow> int \<Rightarrow> int \<Rightarrow> unit res" where
  "validateImageShape mediaType width height = throwIf
     (\<not> isRasterImageMediaType (mediaTypeText mediaType)
      \<or> \<not> isBoundedInteger width 1 maxImageWidth
      \<or> \<not> isBoundedInteger height 1 maxImageHeight
      \<or> width * height > maxImagePixels)
     (PlainError (lit ''invalid image shape''))"

definition hasRasterImageMagic :: "RasterImageMediaType \<Rightarrow> bytes \<Rightarrow> bool" where
  "hasRasterImageMagic mediaType bs =
     (case mediaType of
        ImageJpeg \<Rightarrow> length bs \<ge> 3 \<and> bs ! 0 = 0xff \<and> bs ! 1 = 0xd8 \<and> bs ! 2 = 0xff
      | ImagePng \<Rightarrow> length bs \<ge> 8 \<and> bs ! 0 = 0x89 \<and> bs ! 1 = 0x50 \<and> bs ! 2 = 0x4e \<and> bs ! 3 = 0x47
          \<and> bs ! 4 = 0x0d \<and> bs ! 5 = 0x0a \<and> bs ! 6 = 0x1a \<and> bs ! 7 = 0x0a
      | ImageWebp \<Rightarrow> length bs \<ge> 12 \<and> bs ! 0 = 0x52 \<and> bs ! 1 = 0x49 \<and> bs ! 2 = 0x46 \<and> bs ! 3 = 0x46
          \<and> bs ! 8 = 0x57 \<and> bs ! 9 = 0x45 \<and> bs ! 10 = 0x42 \<and> bs ! 11 = 0x50)"

definition validateInlineImage :: "InlineImage \<Rightarrow> unit res" where
  "validateInlineImage img =
     andThen (validateImageShape (inline_mediaType img) (inline_width img) (inline_height img)) (\<lambda>_.
     andThen (throwIf
       (inline_version img \<noteq> imageMessageVersion
        \<or> length (inline_bytes img) = 0
        \<or> length (inline_bytes img) > maxInlineImageBytes
        \<or> \<not> hasRasterImageMagic (inline_mediaType img) (inline_bytes img))
       (PlainError (lit ''invalid inline image''))) (\<lambda>_.
     andThen (validateCaption (inline_caption img)) (\<lambda>_.
       throwIf (case inline_replyToMessageId img of None \<Rightarrow> False | Some r \<Rightarrow> \<not> tokenIs r 16)
         (PlainError (lit ''invalid inline image reply target'')))))"

definition validateImageTransferManifest :: "ImageTransferManifest \<Rightarrow> unit res" where
  "validateImageTransferManifest m =
     andThen (validateImageShape (im_mediaType m) (im_width m) (im_height m)) (\<lambda>_.
     andThen (validateCaption (im_caption m)) (\<lambda>_. throwIf
       (im_version m \<noteq> imageTransferVersion
        \<or> \<not> tokenIs (im_transferId m) 16
        \<or> \<not> tokenIs (im_manifestId m) 32
        \<or> \<not> tokenIs (im_messageId m) 16
        \<or> \<not> tokenIs (im_sha256 m) 32
        \<or> (case im_replyToMessageId m of None \<Rightarrow> False | Some r \<Rightarrow> \<not> tokenIs r 16)
        \<or> length (im_signature m) \<noteq> 64
        \<or> \<not> isSafeTime (im_issuedAt m)
        \<or> \<not> isSafeTime (im_expiresAt m)
        \<or> im_expiresAt m \<le> im_issuedAt m
        \<or> im_expiresAt m - im_issuedAt m > maxImageTransferTTLms
        \<or> \<not> isSafeInteger (im_byteCount m) \<or> im_byteCount m < 1 \<or> im_byteCount m > maxImageDirectBytes
        \<or> \<not> isSafeInteger (im_chunkBytes m) \<or> im_chunkBytes m < 256
        \<or> im_chunkBytes m > int maxImageTransferChunkBytes
        \<or> \<not> isSafeInteger (im_chunkCount m) \<or> im_chunkCount m < 1 \<or> im_chunkCount m > maxImageTransferChunks
        \<or> im_chunkCount m \<noteq> ceilDiv (im_byteCount m) (im_chunkBytes m))
       (PlainError (lit ''invalid image transfer manifest''))))"

definition validateImageTransferChunk :: "ImageTransferChunk \<Rightarrow> unit res" where
  "validateImageTransferChunk c = throwIf
     (ic_version c \<noteq> imageTransferVersion
      \<or> \<not> tokenIs (ic_transferId c) 16
      \<or> \<not> tokenIs (ic_manifestId c) 32
      \<or> \<not> isSafeInteger (ic_index c)
      \<or> ic_index c < 0
      \<or> length (ic_bytes c) = 0
      \<or> length (ic_bytes c) > maxImageTransferChunkBytes)
     (PlainError (lit ''invalid image transfer chunk''))"

definition validateImageTransferChunkForManifest :: "ImageTransferChunk \<Rightarrow> ImageTransferManifest \<Rightarrow> unit res" where
  "validateImageTransferChunkForManifest c m =
     andThen (validateImageTransferChunk c) (\<lambda>_. andThen (validateImageTransferManifest m) (\<lambda>_. throwIf
       (ic_transferId c \<noteq> im_transferId m
        \<or> ic_manifestId c \<noteq> im_manifestId m
        \<or> ic_index c \<ge> im_chunkCount m
        \<or> int (length (ic_bytes c)) > im_chunkBytes m
        \<or> (ic_index c + 1 < im_chunkCount m \<and> int (length (ic_bytes c)) \<noteq> im_chunkBytes m))
       (PlainError (lit ''image transfer chunk does not match manifest''))))"

definition validateImageManifestForMessage :: "ImageTransferManifest \<Rightarrow> js_string \<Rightarrow> unit res" where
  "validateImageManifestForMessage m messageId =
     andThen (validateImageTransferManifest m) (\<lambda>_.
       throwIf (\<not> tokenIs messageId 16 \<or> im_messageId m \<noteq> messageId)
         (PlainError (lit ''image transfer message identity mismatch'')))"

definition validateImageCapabilities :: "ImageCapabilities \<Rightarrow> unit res" where
  "validateImageCapabilities c = throwIf
     (cap_version c \<noteq> imageMessageVersion
      \<or> \<not> isBoundedInteger (cap_maxInlineBytes c) 0 (int maxInlineImageBytes)
      \<or> \<not> isBoundedInteger (cap_maxRelayBytes c) 0 maxImageRelayBytes
      \<or> \<not> isBoundedInteger (cap_maxDirectBytes c) 0 maxImageDirectBytes
      \<or> \<not> isBoundedInteger (cap_maxWidth c) 1 maxImageWidth
      \<or> \<not> isBoundedInteger (cap_maxHeight c) 1 maxImageHeight
      \<or> \<not> isBoundedInteger (cap_maxPixels c) 1 maxImagePixels
      \<or> cap_maxPixels c > cap_maxWidth c * cap_maxHeight c)
     (PlainError (lit ''invalid image capabilities''))"

section \<open>Admission\<close>

definition shapeFits :: "int \<Rightarrow> int \<Rightarrow> ImageCapabilities \<Rightarrow> bool" where
  "shapeFits width height c \<longleftrightarrow>
     width \<le> cap_maxWidth c \<and> height \<le> cap_maxHeight c \<and> width * height \<le> cap_maxPixels c"

definition capabilityAllowsInlineImage :: "ImageCapabilities \<Rightarrow> InlineImage \<Rightarrow> bool" where
  "capabilityAllowsInlineImage c img \<longleftrightarrow>
     succeeds (validateImageCapabilities c) \<and> succeeds (validateInlineImage img)
     \<and> int (length (inline_bytes img)) \<le> cap_maxInlineBytes c
     \<and> shapeFits (inline_width img) (inline_height img) c"

definition capabilityAllowsImageTransfer :: "ImageCapabilities \<Rightarrow> ImageTransferManifest \<Rightarrow> ImageRoute \<Rightarrow> bool" where
  "capabilityAllowsImageTransfer c m route \<longleftrightarrow>
     succeeds (validateImageCapabilities c) \<and> succeeds (validateImageTransferManifest m)
     \<and> im_byteCount m \<le> (case route of RouteRelay \<Rightarrow> cap_maxRelayBytes c | RouteDirect \<Rightarrow> cap_maxDirectBytes c)
     \<and> shapeFits (im_width m) (im_height m) c"

section \<open>Encoders\<close>

text \<open>\<^verbatim>\<open>...(value === undefined ? [] : [{ key, value }])\<close>\<close>

definition optionalText :: "js_string \<Rightarrow> js_string option \<Rightarrow> cborMap" where
  "optionalText key value = (case value of None \<Rightarrow> [] | Some s \<Rightarrow> [(key, CText s)])"

definition optionalToken :: "js_string \<Rightarrow> js_string option \<Rightarrow> cborMap res" where
  "optionalToken key value =
     (case value of None \<Rightarrow> Inr [] | Some s \<Rightarrow> andThen (decodeBase64URL s) (\<lambda>bs. Inr [(key, CBytes bs)]))"

definition inlineMap :: "InlineImage \<Rightarrow> cbor res" where
  "inlineMap img =
     andThen (optionalToken (lit ''reply_to_message_id'') (inline_replyToMessageId img)) (\<lambda>reply.
       Inr (CMap
         ([(lit ''version'', CText (inline_version img)),
           (lit ''media_type'', CText (mediaTypeText (inline_mediaType img))),
           (lit ''width'', CNum (inline_width img)),
           (lit ''height'', CNum (inline_height img)),
           (lit ''bytes'', CBytes (inline_bytes img))]
          @ optionalText (lit ''caption'') (inline_caption img) @ reply)))"

definition baseManifest :: "ImageTransferManifest \<Rightarrow> cborMap res" where
  "baseManifest m =
     andThen (decodeBase64URL (im_transferId m)) (\<lambda>transferId.
     andThen (decodeBase64URL (im_manifestId m)) (\<lambda>manifestId.
     andThen (decodeBase64URL (im_messageId m)) (\<lambda>messageId.
     andThen (decodeBase64URL (im_sha256 m)) (\<lambda>sha256.
     andThen (optionalToken (lit ''reply_to_message_id'') (im_replyToMessageId m)) (\<lambda>reply.
       Inr ([(lit ''version'', CText (im_version m)),
             (lit ''transfer_id'', CBytes transferId),
             (lit ''manifest_id'', CBytes manifestId),
             (lit ''message_id'', CBytes messageId),
             (lit ''issued_at'', CNum (im_issuedAt m)),
             (lit ''expires_at'', CNum (im_expiresAt m)),
             (lit ''media_type'', CText (mediaTypeText (im_mediaType m))),
             (lit ''width'', CNum (im_width m)),
             (lit ''height'', CNum (im_height m)),
             (lit ''byte_count'', CNum (im_byteCount m)),
             (lit ''chunk_bytes'', CNum (im_chunkBytes m)),
             (lit ''chunk_count'', CNum (im_chunkCount m)),
             (lit ''sha256'', CBytes sha256)]
            @ optionalText (lit ''caption'') (im_caption m) @ reply))))))"

definition imageManifestMap :: "ImageTransferManifest \<Rightarrow> bool \<Rightarrow> cbor res" where
  "imageManifestMap m signature =
     andThen (baseManifest m) (\<lambda>entries.
       Inr (CMap (if signature then entries @ [(lit ''signature'', CBytes (im_signature m))] else entries)))"

definition imageChunkMap :: "ImageTransferChunk \<Rightarrow> cbor res" where
  "imageChunkMap c =
     andThen (decodeBase64URL (ic_transferId c)) (\<lambda>transferId.
     andThen (decodeBase64URL (ic_manifestId c)) (\<lambda>manifestId.
       Inr (CMap
         [(lit ''version'', CText (ic_version c)),
          (lit ''transfer_id'', CBytes transferId),
          (lit ''manifest_id'', CBytes manifestId),
          (lit ''index'', CNum (ic_index c)),
          (lit ''bytes'', CBytes (ic_bytes c))])))"

definition imageSigned :: "cbor \<Rightarrow> bytes res" where
  "imageSigned v =
     (let prefix = textEncode (imageTransferSignatureDomain @ [0]) in
      andThen (encodeDeterministicCbor v) (\<lambda>body. Inr (prefix @ body)))"

definition encodeInlineImage :: "InlineImage \<Rightarrow> bytes res" where
  "encodeInlineImage img =
     andThen (validateInlineImage img) (\<lambda>_. andThen (inlineMap img) (\<lambda>v.
     andThen (encodeDeterministicCbor v) (\<lambda>bs.
       if length bs > maxInlineImageBodyBytes then throw ''inline image body too large'' else Inr bs)))"

definition encodeImageTransferManifest :: "ImageTransferManifest \<Rightarrow> bytes res" where
  "encodeImageTransferManifest m =
     andThen (validateImageTransferManifest m) (\<lambda>_. andThen (imageManifestMap m True) (\<lambda>v.
     andThen (encodeDeterministicCbor v) (\<lambda>bs.
       if length bs > maxImageTransferManifestBodyBytes then throw ''image transfer manifest body too large''
       else Inr bs)))"

definition imageTransferManifestSigningBytes :: "ImageTransferManifest \<Rightarrow> bytes res" where
  "imageTransferManifestSigningBytes m =
     andThen (validateImageTransferManifest m) (\<lambda>_. andThen (imageManifestMap m False) imageSigned)"

definition encodeImageTransferChunk :: "ImageTransferChunk \<Rightarrow> bytes res" where
  "encodeImageTransferChunk c =
     andThen (validateImageTransferChunk c) (\<lambda>_. andThen (imageChunkMap c) encodeDeterministicCbor)"

definition encodeImageCapabilities :: "ImageCapabilities \<Rightarrow> bytes res" where
  "encodeImageCapabilities c =
     andThen (validateImageCapabilities c) (\<lambda>_.
     andThen (encodeDeterministicCbor (CMap
       [(lit ''version'', CText (cap_version c)),
        (lit ''max_inline_bytes'', CNum (cap_maxInlineBytes c)),
        (lit ''max_relay_bytes'', CNum (cap_maxRelayBytes c)),
        (lit ''max_direct_bytes'', CNum (cap_maxDirectBytes c)),
        (lit ''max_width'', CNum (cap_maxWidth c)),
        (lit ''max_height'', CNum (cap_maxHeight c)),
        (lit ''max_pixels'', CNum (cap_maxPixels c))])) (\<lambda>bs.
       if length bs > maxImageCapabilitiesBytes then throw ''image capabilities body too large'' else Inr bs))"

section \<open>Decoders\<close>

definition imageStrictMap :: "bytes \<Rightarrow> string \<Rightarrow> js_string list \<Rightarrow> nat \<Rightarrow> cborMap res" where
  "imageStrictMap bs label names maximumBytes =
     (if length bs = 0 \<or> length bs > maximumBytes
      then Inl (PlainError (lit ''invalid '' @ lit label @ lit '' size''))
      else andThen (decodeDeterministicCbor bs maximumBytes) (\<lambda>v.
           andThen (readCborMap v (lit (map (\<lambda>c. if c = CHR '' '' then CHR ''_'' else c) label))) (\<lambda>m.
           andThen (rejectUnknownEntries m names) (\<lambda>_. Inr m))))"

definition readImageMessageVersion :: "cborMap \<Rightarrow> js_string res" where
  "readImageMessageVersion m =
     andThen (getRequiredEntry m (lit ''version'')) (\<lambda>v.
     andThen (readText v (lit ''version'')) (\<lambda>version.
       if version \<noteq> imageMessageVersion then throw ''unsupported image message version''
       else Inr imageMessageVersion))"

definition readImageTransferVersion :: "cborMap \<Rightarrow> js_string res" where
  "readImageTransferVersion m =
     andThen (getRequiredEntry m (lit ''version'')) (\<lambda>v.
     andThen (readText v (lit ''version'')) (\<lambda>version.
       if version \<noteq> imageTransferVersion then throw ''unsupported image transfer version''
       else Inr imageTransferVersion))"

definition readRasterMediaType :: "cborMap \<Rightarrow> js_string \<Rightarrow> RasterImageMediaType res" where
  "readRasterMediaType m key =
     andThen (getRequiredEntry m key) (\<lambda>v.
     andThen (readText v key) (\<lambda>s.
       if \<not> isRasterImageMediaType s then throw ''unsupported image media type''
       else Inr (if s = lit ''image/jpeg'' then ImageJpeg else if s = lit ''image/png'' then ImagePng else ImageWebp)))"

definition imageToken :: "cborMap \<Rightarrow> js_string \<Rightarrow> nat \<Rightarrow> js_string res" where
  "imageToken m key sz =
     andThen (getRequiredEntry m key) (\<lambda>v.
     andThen (readBytes v key (Some sz)) (\<lambda>bs. Inr (encodeBase64URL bs)))"

definition imageNumber :: "cborMap \<Rightarrow> js_string \<Rightarrow> int res" where
  "imageNumber m key = andThen (getRequiredEntry m key) (\<lambda>v. readUint v key)"

definition readCaption :: "cborMap \<Rightarrow> js_string \<Rightarrow> js_string res" where
  "readCaption m key =
     andThen (getRequiredEntry m key) (\<lambda>v.
     andThen (readText v key) (\<lambda>s. andThen (validateCaption (Some s)) (\<lambda>_. Inr s)))"

text \<open>\<^verbatim>\<open>...(hasEntry(map, key) ? { field: read(map, key) } : {})\<close>\<close>

definition whenPresent :: "cborMap \<Rightarrow> js_string \<Rightarrow> 'a res \<Rightarrow> 'a option res" where
  "whenPresent m key r = (if hasEntry m key then andThen r (\<lambda>x. Inr (Some x)) else Inr None)"

definition decodeInlineImage :: "bytes \<Rightarrow> InlineImage res" where
  "decodeInlineImage bs =
     andThen (imageStrictMap bs ''inline image'' [lit ''version'', lit ''media_type'', lit ''width'', lit ''height'',
       lit ''bytes'', lit ''caption'', lit ''reply_to_message_id''] maxInlineImageBodyBytes) (\<lambda>m.
     andThen (readImageMessageVersion m) (\<lambda>version.
     andThen (readRasterMediaType m (lit ''media_type'')) (\<lambda>mediaType.
     andThen (imageNumber m (lit ''width'')) (\<lambda>width.
     andThen (imageNumber m (lit ''height'')) (\<lambda>height.
     andThen (getRequiredEntry m (lit ''bytes'')) (\<lambda>v.
     andThen (readBytes v (lit ''bytes'') None) (\<lambda>payload.
     andThen (whenPresent m (lit ''caption'') (readCaption m (lit ''caption''))) (\<lambda>caption.
     andThen (whenPresent m (lit ''reply_to_message_id'') (imageToken m (lit ''reply_to_message_id'') 16)) (\<lambda>reply.
       let result = \<lparr>inline_version = version, inline_mediaType = mediaType, inline_width = width,
         inline_height = height, inline_bytes = payload, inline_caption = caption,
         inline_replyToMessageId = reply\<rparr>
       in andThen (validateInlineImage result) (\<lambda>_. Inr result))))))))))"

definition decodeImageTransferManifest :: "bytes \<Rightarrow> ImageTransferManifest res" where
  "decodeImageTransferManifest bs =
     andThen (imageStrictMap bs ''image transfer manifest'' [lit ''version'', lit ''transfer_id'', lit ''manifest_id'',
       lit ''message_id'', lit ''issued_at'', lit ''expires_at'', lit ''media_type'', lit ''width'', lit ''height'',
       lit ''byte_count'', lit ''chunk_bytes'', lit ''chunk_count'', lit ''sha256'', lit ''signature'', lit ''caption'',
       lit ''reply_to_message_id''] maxImageTransferManifestBodyBytes) (\<lambda>m.
     andThen (readImageTransferVersion m) (\<lambda>version.
     andThen (imageToken m (lit ''transfer_id'') 16) (\<lambda>transferId.
     andThen (imageToken m (lit ''manifest_id'') 32) (\<lambda>manifestId.
     andThen (imageToken m (lit ''message_id'') 16) (\<lambda>messageId.
     andThen (imageNumber m (lit ''issued_at'')) (\<lambda>issuedAt.
     andThen (imageNumber m (lit ''expires_at'')) (\<lambda>expiresAt.
     andThen (readRasterMediaType m (lit ''media_type'')) (\<lambda>mediaType.
     andThen (imageNumber m (lit ''width'')) (\<lambda>width.
     andThen (imageNumber m (lit ''height'')) (\<lambda>height.
     andThen (imageNumber m (lit ''byte_count'')) (\<lambda>byteCount.
     andThen (imageNumber m (lit ''chunk_bytes'')) (\<lambda>chunkBytes.
     andThen (imageNumber m (lit ''chunk_count'')) (\<lambda>chunkCount.
     andThen (imageToken m (lit ''sha256'') 32) (\<lambda>sha256.
     andThen (getRequiredEntry m (lit ''signature'')) (\<lambda>v.
     andThen (readBytes v (lit ''signature'') (Some 64)) (\<lambda>signature.
     andThen (whenPresent m (lit ''caption'') (readCaption m (lit ''caption''))) (\<lambda>caption.
     andThen (whenPresent m (lit ''reply_to_message_id'') (imageToken m (lit ''reply_to_message_id'') 16)) (\<lambda>reply.
       let result = \<lparr>im_version = version, im_transferId = transferId, im_manifestId = manifestId,
         im_messageId = messageId, im_issuedAt = issuedAt, im_expiresAt = expiresAt, im_mediaType = mediaType,
         im_width = width, im_height = height, im_byteCount = byteCount, im_chunkBytes = chunkBytes,
         im_chunkCount = chunkCount, im_sha256 = sha256, im_signature = signature, im_caption = caption,
         im_replyToMessageId = reply\<rparr>
       in andThen (validateImageTransferManifest result) (\<lambda>_. Inr result)))))))))))))))))))"

definition decodeImageTransferChunk :: "bytes \<Rightarrow> ImageTransferChunk res" where
  "decodeImageTransferChunk bs =
     andThen (imageStrictMap bs ''image transfer chunk'' [lit ''version'', lit ''transfer_id'', lit ''manifest_id'',
       lit ''index'', lit ''bytes''] maxImageTransferChunkBodyBytes) (\<lambda>m.
     andThen (readImageTransferVersion m) (\<lambda>version.
     andThen (imageToken m (lit ''transfer_id'') 16) (\<lambda>transferId.
     andThen (imageToken m (lit ''manifest_id'') 32) (\<lambda>manifestId.
     andThen (imageNumber m (lit ''index'')) (\<lambda>idx.
     andThen (getRequiredEntry m (lit ''bytes'')) (\<lambda>v.
     andThen (readBytes v (lit ''bytes'') None) (\<lambda>payload.
       let result = \<lparr>ic_version = version, ic_transferId = transferId, ic_manifestId = manifestId,
         ic_index = idx, ic_bytes = payload\<rparr>
       in andThen (validateImageTransferChunk result) (\<lambda>_. Inr result))))))))"

definition decodeImageCapabilities :: "bytes \<Rightarrow> ImageCapabilities res" where
  "decodeImageCapabilities bs =
     andThen (imageStrictMap bs ''image capabilities'' [lit ''version'', lit ''max_inline_bytes'', lit ''max_relay_bytes'',
       lit ''max_direct_bytes'', lit ''max_width'', lit ''max_height'', lit ''max_pixels''] maxImageCapabilitiesBytes) (\<lambda>m.
     andThen (readImageMessageVersion m) (\<lambda>version.
     andThen (imageNumber m (lit ''max_inline_bytes'')) (\<lambda>maxInlineBytes.
     andThen (imageNumber m (lit ''max_relay_bytes'')) (\<lambda>maxRelayBytes.
     andThen (imageNumber m (lit ''max_direct_bytes'')) (\<lambda>maxDirectBytes.
     andThen (imageNumber m (lit ''max_width'')) (\<lambda>maxWidth.
     andThen (imageNumber m (lit ''max_height'')) (\<lambda>maxHeight.
     andThen (imageNumber m (lit ''max_pixels'')) (\<lambda>maxPixels.
       let result = \<lparr>cap_version = version, cap_maxInlineBytes = maxInlineBytes, cap_maxRelayBytes = maxRelayBytes,
         cap_maxDirectBytes = maxDirectBytes, cap_maxWidth = maxWidth, cap_maxHeight = maxHeight,
         cap_maxPixels = maxPixels\<rparr>
       in andThen (validateImageCapabilities result) (\<lambda>_. Inr result)))))))))"

section \<open>The canonical messages\<close>

definition goodInlineImage :: "InlineImage \<Rightarrow> bool" where
  "goodInlineImage img \<longleftrightarrow> succeeds (encodeInlineImage img)
     \<and> (case inline_caption img of None \<Rightarrow> True | Some c \<Rightarrow> goodText c 1024)
     \<and> (case inline_replyToMessageId img of None \<Rightarrow> True | Some r \<Rightarrow> goodToken r 16)"

definition goodImageManifest :: "ImageTransferManifest \<Rightarrow> bool" where
  "goodImageManifest m \<longleftrightarrow> succeeds (validateImageTransferManifest m)
     \<and> goodToken (im_transferId m) 16 \<and> goodToken (im_manifestId m) 32
     \<and> goodToken (im_messageId m) 16 \<and> goodToken (im_sha256 m) 32
     \<and> (case im_caption m of None \<Rightarrow> True | Some c \<Rightarrow> goodText c 1024)
     \<and> (case im_replyToMessageId m of None \<Rightarrow> True | Some r \<Rightarrow> goodToken r 16)"

definition goodImageChunk :: "ImageTransferChunk \<Rightarrow> bool" where
  "goodImageChunk c \<longleftrightarrow> succeeds (validateImageTransferChunk c)
     \<and> goodToken (ic_transferId c) 16 \<and> goodToken (ic_manifestId c) 32"

section \<open>The codecs meet their contract\<close>

lemma image_helpers [simp]: "imageToken = token" "imageNumber = number" "tokenIs = validToken"
  by (intro ext, simp add: imageToken_def token_def imageNumber_def number_def tokenIs_def validToken_def)+

lemma imageStrictMap_Inr [res_simps]:
  "imageStrictMap bs label names n = Inr m \<longleftrightarrow>
     decodeDeterministicCbor bs n = Inr (CMap m) \<and> fst ` set m \<subseteq> set names"
  using decode_size [of bs n] by (auto simp: imageStrictMap_def res_simps)

lemma image_versions [simp]:
  "decodableText imageMessageVersion" "length (textEncode imageMessageVersion) = 28" "imageMessageVersion \<noteq> []"
  "decodableText imageTransferVersion" "length (textEncode imageTransferVersion) = 29" "imageTransferVersion \<noteq> []"
  by (simp_all add: imageMessageVersion_def imageTransferVersion_def asciiString_def)

lemma readImageMessageVersion_Inr [res_simps]:
  "readImageMessageVersion m = Inr s \<longleftrightarrow>
     s = imageMessageVersion \<and> map_of m (lit ''version'') = Some (CText imageMessageVersion)"
  by (auto simp: readImageMessageVersion_def res_simps maxCborTextBytes_def split: if_splits)

lemma readImageTransferVersion_Inr [res_simps]:
  "readImageTransferVersion m = Inr s \<longleftrightarrow>
     s = imageTransferVersion \<and> map_of m (lit ''version'') = Some (CText imageTransferVersion)"
  by (auto simp: readImageTransferVersion_def res_simps maxCborTextBytes_def split: if_splits)

lemma mediaTypeText_facts [simp]:
  "decodableText (mediaTypeText t)" "length (textEncode (mediaTypeText t)) \<le> 10" "mediaTypeText t \<noteq> []"
  "isRasterImageMediaType (mediaTypeText t)" "mediaTypeText t = mediaTypeText u \<longleftrightarrow> t = u"
  by (cases t; cases u; simp add: asciiString_def isRasterImageMediaType_def)+

lemma readRasterMediaType_Inr [res_simps]:
  "readRasterMediaType m k = Inr t \<longleftrightarrow> map_of m k = Some (CText (mediaTypeText t))"
proof
  assume "readRasterMediaType m k = Inr t"
  then show "map_of m k = Some (CText (mediaTypeText t))"
    by (auto simp: readRasterMediaType_def res_simps isRasterImageMediaType_def split: if_splits)
next
  assume "map_of m k = Some (CText (mediaTypeText t))"
  moreover have "length (textEncode (mediaTypeText t)) \<le> maxCborTextBytes"
    by (rule order_trans [OF mediaTypeText_facts(2)]) (simp add: maxCborTextBytes_def)
  ultimately show "readRasterMediaType m k = Inr t"
    by (cases t) (simp_all add: readRasterMediaType_def res_simps getRequiredEntry_def readText_def isRasterImageMediaType_def)
qed

lemma validateCaption_Inr [res_simps]:
  "validateCaption c = Inr u \<longleftrightarrow>
     (case c of None \<Rightarrow> True | Some s \<Rightarrow> length (textEncode s) \<le> 1024 \<and> trim s \<noteq> [])"
  by (auto simp: validateCaption_def maxImageCaptionBytes_def split: option.splits)

lemma trim_empty [simp]: "trim [] = []"
  by (simp add: trim_def)

lemma readCaption_Inr [res_simps]:
  "readCaption m k = Inr s \<longleftrightarrow> map_of m k = Some (CText s) \<and> length (textEncode s) \<le> 1024 \<and> trim s \<noteq> []"
  by (auto simp: readCaption_def res_simps maxCborTextBytes_def)

lemma whenPresent_Inr [res_simps]:
  "whenPresent m k r = Inr x \<longleftrightarrow>
     (case map_of m k of None \<Rightarrow> x = None | Some _ \<Rightarrow> (\<exists>y. r = Inr y \<and> x = Some y))"
  by (auto simp: whenPresent_def hasEntry_map_of res_simps split: option.splits)

lemma image_names_ascii [simp]:
  "asciiString ''message_id''" "asciiString ''width''" "asciiString ''height''" "asciiString ''caption''"
  "asciiString ''reply_to_message_id''" "asciiString ''max_inline_bytes''" "asciiString ''max_relay_bytes''"
  "asciiString ''max_direct_bytes''" "asciiString ''max_width''" "asciiString ''max_height''" "asciiString ''max_pixels''"
  by (simp_all add: asciiString_def)

subsection \<open>Capabilities\<close>

abbreviation capabilityNames :: "js_string list" where
  "capabilityNames \<equiv> [lit ''version'', lit ''max_inline_bytes'', lit ''max_relay_bytes'', lit ''max_direct_bytes'',
     lit ''max_width'', lit ''max_height'', lit ''max_pixels'']"

definition capabilityEntries :: "ImageCapabilities \<Rightarrow> cborMap" where
  "capabilityEntries c =
     [(lit ''version'', CText (cap_version c)), (lit ''max_inline_bytes'', CNum (cap_maxInlineBytes c)),
      (lit ''max_relay_bytes'', CNum (cap_maxRelayBytes c)), (lit ''max_direct_bytes'', CNum (cap_maxDirectBytes c)),
      (lit ''max_width'', CNum (cap_maxWidth c)), (lit ''max_height'', CNum (cap_maxHeight c)),
      (lit ''max_pixels'', CNum (cap_maxPixels c))]"

lemma validateImageCapabilities_facts:
  assumes "validateImageCapabilities c = Inr ()"
  shows "cap_version c = imageMessageVersion" "goodTime (cap_maxInlineBytes c)" "goodTime (cap_maxRelayBytes c)"
    "goodTime (cap_maxDirectBytes c)" "goodTime (cap_maxWidth c)" "goodTime (cap_maxHeight c)" "goodTime (cap_maxPixels c)"
  using assms by (auto simp: validateImageCapabilities_def isBoundedInteger_def goodTime_def isSafeInteger_def)

lemma capabilityEntries_encoded:
  assumes "validateImageCapabilities c = Inr ()"
  shows "wfCbor (CMap (capabilityEntries c))" "length (encoded (CMap (capabilityEntries c))) \<le> 512"
proof -
  note f = validateImageCapabilities_facts [OF assms]
  show wf: "wfCbor (CMap (capabilityEntries c))"
    using f(2-) by (simp add: capabilityEntries_def f(1) goodTime_def maxCborCollectionEntries_def)
  show "length (encoded (CMap (capabilityEntries c))) \<le> 512"
    by (rule length_encoded_bound [OF wf]) (simp add: capabilityEntries_def f(1))
qed

interpretation image_capabilities: flat_codec encodeImageCapabilities decodeImageCapabilities
  "\<lambda>c. validateImageCapabilities c = Inr ()" capabilityEntries capabilityNames 512
proof
  fix c assume c: "validateImageCapabilities c = Inr ()"
  note e = encode_wf_Inr [OF capabilityEntries_encoded(1) [OF c]] capabilityEntries_encoded [OF c]
  show "encodeImageCapabilities c = encodeDeterministicCbor (CMap (capabilityEntries c))"
    unfolding encodeImageCapabilities_def capabilityEntries_def [symmetric] c andThen_simps maxImageCapabilitiesBytes_def
    using e(3) by (subst (1 2) e(1)) simp
  show "wfCbor (CMap (capabilityEntries c)) \<and> (\<forall>v \<in> snd ` set (capabilityEntries c). scalar v)"
    using e(2) by (simp add: capabilityEntries_def)
  show "length (encoded (CMap (capabilityEntries c))) \<le> 512" by (rule e(3))
  show "fst ` set (capabilityEntries c) \<subseteq> set capabilityNames" by (simp add: capabilityEntries_def)
next
  fix c e k assume c: "validateImageCapabilities c = Inr ()" "decodeDeterministicCbor e 512 = Inr (CMap k)"
    "map_of k = map_of (capabilityEntries c)" "fst ` set k \<subseteq> set capabilityNames"
  show "decodeImageCapabilities e = Inr c"
    using c validateImageCapabilities_facts [OF c(1)]
    by (cases c) (simp add: decodeImageCapabilities_def capabilityEntries_def res_simps maxImageCapabilitiesBytes_def Let_def)
next
  fix e c assume "decodeImageCapabilities e = Inr c"
  then show "validateImageCapabilities c = Inr () \<and> (\<exists>k. decodeDeterministicCbor e 512 = Inr (CMap k)
    \<and> fst ` set k \<subseteq> set capabilityNames \<and> (\<forall>key \<in> set capabilityNames. map_of k key = map_of (capabilityEntries c) key))"
    unfolding decodeImageCapabilities_def
    by (clarsimp simp: capabilityEntries_def res_simps maxImageCapabilitiesBytes_def Let_def)
qed

subsection \<open>Chunks\<close>

definition imageChunkEntries :: "ImageTransferChunk \<Rightarrow> cborMap" where
  "imageChunkEntries c =
     [(lit ''version'', CText (ic_version c)),
      (lit ''transfer_id'', CBytes (tokenBytes (ic_transferId c))),
      (lit ''manifest_id'', CBytes (tokenBytes (ic_manifestId c))),
      (lit ''index'', CNum (ic_index c)),
      (lit ''bytes'', CBytes (ic_bytes c))]"

lemma goodImageChunk_facts:
  assumes "goodImageChunk c"
  shows "validateImageTransferChunk c = Inr ()" "ic_version c = imageTransferVersion" "goodTime (ic_index c)"
    "ic_bytes c \<noteq> []" "length (ic_bytes c) \<le> 3072"
    "goodToken (ic_transferId c) 16" "goodToken (ic_manifestId c) 32"
  using assms by (auto simp: goodImageChunk_def succeeds_iff validateImageTransferChunk_def
      maxImageTransferChunkBytes_def goodTime_def isSafeInteger_def)

interpretation image_chunk: flat_codec encodeImageTransferChunk decodeImageTransferChunk goodImageChunk
  imageChunkEntries chunkNames 4096
proof
  fix c assume c: "goodImageChunk c"
  note f = goodImageChunk_facts [OF c]
  note t = goodToken_facts [OF f(6)] goodToken_facts [OF f(7)]
  show "encodeImageTransferChunk c = encodeDeterministicCbor (CMap (imageChunkEntries c))"
    by (simp add: encodeImageTransferChunk_def imageChunkMap_def imageChunkEntries_def f t del: encodeDeterministicCbor.simps)
  show wf: "wfCbor (CMap (imageChunkEntries c)) \<and> (\<forall>v \<in> snd ` set (imageChunkEntries c). scalar v)"
    using f(3,5) by (simp add: imageChunkEntries_def t f(2) goodTime_def maxCborBytes_def maxCborCollectionEntries_def)
  have "cborBound (CMap (imageChunkEntries c)) \<le> 4096"
    using f(5) by (simp add: imageChunkEntries_def t f(2))
  with wf show "length (encoded (CMap (imageChunkEntries c))) \<le> 4096" by (blast intro: length_encoded_bound)
  show "fst ` set (imageChunkEntries c) \<subseteq> set chunkNames" by (simp add: imageChunkEntries_def)
next
  fix c e k assume c: "goodImageChunk c" "decodeDeterministicCbor e 4096 = Inr (CMap k)"
    "map_of k = map_of (imageChunkEntries c)" "fst ` set k \<subseteq> set chunkNames"
  note f = goodImageChunk_facts [OF c(1)]
  note t = goodToken_facts [OF f(6)] goodToken_facts [OF f(7)]
  show "decodeImageTransferChunk e = Inr c"
    using f(1-5) c(2-) t
    by (cases c) (simp add: decodeImageTransferChunk_def imageChunkEntries_def res_simps getRequiredEntry_def
        maxCborBytes_def maxImageTransferChunkBodyBytes_def Let_def)
next
  fix e c assume "decodeImageTransferChunk e = Inr c"
  then show "goodImageChunk c \<and> (\<exists>k. decodeDeterministicCbor e 4096 = Inr (CMap k)
    \<and> fst ` set k \<subseteq> set chunkNames \<and> (\<forall>key \<in> set chunkNames. map_of k key = map_of (imageChunkEntries c) key))"
    by (auto simp: decodeImageTransferChunk_def imageChunkEntries_def goodImageChunk_def res_simps
        maxCborBytes_def maxImageTransferChunkBodyBytes_def Let_def)
qed

subsection \<open>Manifests\<close>

definition optionalTokenEntry :: "js_string \<Rightarrow> js_string option \<Rightarrow> cborMap" where
  "optionalTokenEntry key value = (case value of None \<Rightarrow> [] | Some s \<Rightarrow> [(key, CBytes (tokenBytes s))])"

lemma optionalToken_entry:
  "(case v of None \<Rightarrow> True | Some r \<Rightarrow> goodToken r n) \<Longrightarrow> optionalToken k v = Inr (optionalTokenEntry k v)"
  by (auto simp: optionalToken_def optionalTokenEntry_def goodToken_facts split: option.splits)

abbreviation imageManifestNames :: "js_string list" where
  "imageManifestNames \<equiv> [lit ''version'', lit ''transfer_id'', lit ''manifest_id'',
     lit ''message_id'', lit ''issued_at'', lit ''expires_at'', lit ''media_type'', lit ''width'', lit ''height'',
     lit ''byte_count'', lit ''chunk_bytes'', lit ''chunk_count'', lit ''sha256'', lit ''signature'', lit ''caption'',
     lit ''reply_to_message_id'']"

definition imageManifestEntries :: "ImageTransferManifest \<Rightarrow> cborMap" where
  "imageManifestEntries m =
     [(lit ''version'', CText (im_version m)),
      (lit ''transfer_id'', CBytes (tokenBytes (im_transferId m))),
      (lit ''manifest_id'', CBytes (tokenBytes (im_manifestId m))),
      (lit ''message_id'', CBytes (tokenBytes (im_messageId m))),
      (lit ''issued_at'', CNum (im_issuedAt m)),
      (lit ''expires_at'', CNum (im_expiresAt m)),
      (lit ''media_type'', CText (mediaTypeText (im_mediaType m))),
      (lit ''width'', CNum (im_width m)),
      (lit ''height'', CNum (im_height m)),
      (lit ''byte_count'', CNum (im_byteCount m)),
      (lit ''chunk_bytes'', CNum (im_chunkBytes m)),
      (lit ''chunk_count'', CNum (im_chunkCount m)),
      (lit ''sha256'', CBytes (tokenBytes (im_sha256 m)))]
     @ optionalText (lit ''caption'') (im_caption m)
     @ optionalTokenEntry (lit ''reply_to_message_id'') (im_replyToMessageId m)"

lemma validateImageTransferManifest_facts:
  assumes "validateImageTransferManifest m = Inr ()"
  shows "im_version m = imageTransferVersion" "length (im_signature m) = 64"
    "goodTime (im_issuedAt m)" "goodTime (im_expiresAt m)" "goodTime (im_width m)" "goodTime (im_height m)"
    "goodTime (im_byteCount m)" "goodTime (im_chunkBytes m)" "goodTime (im_chunkCount m)"
    "validToken (im_transferId m) 16" "validToken (im_manifestId m) 32"
    "1 \<le> im_byteCount m" "256 \<le> im_chunkBytes m" "im_chunkBytes m \<le> 3072"
    "1 \<le> im_chunkCount m" "im_chunkCount m \<le> 8192"
    "im_chunkCount m = ceilDiv (im_byteCount m) (im_chunkBytes m)"
    "case im_caption m of None \<Rightarrow> True | Some s \<Rightarrow> length (textEncode s) \<le> 1024 \<and> trim s \<noteq> []"
  using assms
  by (simp_all add: validateImageTransferManifest_def validateImageShape_def res_simps isBoundedInteger_def isSafeTime_def
      isSafeInteger_def goodTime_def abs_le_iff maxImageTransferChunkBytes_def maxImageTransferChunks_def)

lemma goodImageManifest_facts:
  assumes "goodImageManifest m"
  shows "validateImageTransferManifest m = Inr ()"
    "goodToken (im_transferId m) 16" "goodToken (im_manifestId m) 32"
    "goodToken (im_messageId m) 16" "goodToken (im_sha256 m) 32"
    "case im_caption m of None \<Rightarrow> True | Some c \<Rightarrow> goodText c 1024"
    "case im_replyToMessageId m of None \<Rightarrow> True | Some r \<Rightarrow> goodToken r 16"
  using assms by (auto simp: goodImageManifest_def succeeds_iff)

lemma imageManifestMap_entries:
  assumes "goodImageManifest m"
  shows "imageManifestMap m b = Inr (CMap (imageManifestEntries m
    @ (if b then [(lit ''signature'', CBytes (im_signature m))] else [])))"
proof -
  note f = goodImageManifest_facts [OF assms]
  show ?thesis
    using goodToken_facts(1) [OF f(2)] goodToken_facts(1) [OF f(3)] goodToken_facts(1) [OF f(4)] goodToken_facts(1) [OF f(5)]
    by (simp add: imageManifestMap_def baseManifest_def imageManifestEntries_def optionalToken_entry [OF f(7)])
qed

lemma imageManifestEntries_scalar: "\<forall>v \<in> snd ` set (imageManifestEntries m). scalar v"
  by (auto simp: imageManifestEntries_def optionalText_def optionalTokenEntry_def split: option.splits)

lemma imageManifestEntries_wf:
  assumes "goodImageManifest m"
  shows "wfCbor (CMap (imageManifestEntries m @ [(lit ''signature'', CBytes (im_signature m))]))"
    "wfCbor (CMap (imageManifestEntries m))"
proof -
  note f = goodImageManifest_facts [OF assms]
  note g = validateImageTransferManifest_facts(1-9) [OF f(1)]
  note t = goodToken_facts(3) [OF f(2)] goodToken_facts(3) [OF f(3)] goodToken_facts(3) [OF f(4)] goodToken_facts(3) [OF f(5)]
  have opt: "\<And>c. im_caption m = Some c \<Longrightarrow> decodableText c"
    "\<And>r. im_replyToMessageId m = Some r \<Longrightarrow> length (tokenBytes r) = 16"
    using f(6,7) by (auto intro: goodText_decodable goodToken_facts)
  show "wfCbor (CMap (imageManifestEntries m @ [(lit ''signature'', CBytes (im_signature m))]))"
    "wfCbor (CMap (imageManifestEntries m))"
    using g t opt
    by (cases "im_caption m"; cases "im_replyToMessageId m";
        simp add: imageManifestEntries_def optionalText_def optionalTokenEntry_def goodTime_def maxCborBytes_def
          maxCborCollectionEntries_def)+
qed

lemma imageManifestEntries_bound:
  assumes "goodImageManifest m"
  shows "cborBound (CMap (imageManifestEntries m @ [(lit ''signature'', CBytes (im_signature m))])) \<le> 2048"
proof -
  note f = goodImageManifest_facts [OF assms]
  note g = validateImageTransferManifest_facts(1,2) [OF f(1)]
  note t = goodToken_facts(3) [OF f(2)] goodToken_facts(3) [OF f(3)] goodToken_facts(3) [OF f(4)] goodToken_facts(3) [OF f(5)]
  have opt: "\<And>c. im_caption m = Some c \<Longrightarrow> length (textEncode c) \<le> 1024"
    "\<And>r. im_replyToMessageId m = Some r \<Longrightarrow> length (tokenBytes r) = 16"
    using f(6,7) by (auto simp: goodText_def intro: goodToken_facts)
  show ?thesis
    using g t opt mediaTypeText_facts(2) [of "im_mediaType m"]
    by (cases "im_caption m"; cases "im_replyToMessageId m")
      (simp_all add: imageManifestEntries_def optionalText_def optionalTokenEntry_def del: mediaTypeText_facts(2))
qed

lemma encodeImageTransferManifest_entries:
  assumes "goodImageManifest m"
  shows "encodeImageTransferManifest m
    = encodeDeterministicCbor (CMap (imageManifestEntries m @ [(lit ''signature'', CBytes (im_signature m))]))"
proof -
  let ?v = "CMap (imageManifestEntries m @ [(lit ''signature'', CBytes (im_signature m))])"
  note wf = imageManifestEntries_wf(1) [OF assms]
  obtain b where b: "encodeDeterministicCbor ?v = Inr b" using encode_wf_Inr [OF wf] by blast
  have "length b \<le> 2048" using length_encode [OF b] imageManifestEntries_bound [OF assms] by simp
  with b show ?thesis
    using goodImageManifest_facts(1) [OF assms]
    by (simp add: encodeImageTransferManifest_def imageManifestMap_entries [OF assms] maxImageTransferManifestBodyBytes_def
        del: encodeDeterministicCbor.simps)
qed

interpretation image_manifest: flat_codec encodeImageTransferManifest decodeImageTransferManifest goodImageManifest
  "\<lambda>m. imageManifestEntries m @ [(lit ''signature'', CBytes (im_signature m))]" imageManifestNames 2048
proof
  fix m assume m: "goodImageManifest m"
  let ?es = "imageManifestEntries m @ [(lit ''signature'', CBytes (im_signature m))]"
  show "encodeImageTransferManifest m = encodeDeterministicCbor (CMap ?es)"
    by (rule encodeImageTransferManifest_entries [OF m])
  show wf: "wfCbor (CMap ?es) \<and> (\<forall>v \<in> snd ` set ?es. scalar v)"
    using imageManifestEntries_wf(1) [OF m] imageManifestEntries_scalar [of m] by auto
  then show "length (encoded (CMap ?es)) \<le> 2048"
    using imageManifestEntries_bound [OF m] by (blast intro: length_encoded_bound)
  show "fst ` set ?es \<subseteq> set imageManifestNames"
    by (auto simp: imageManifestEntries_def optionalText_def optionalTokenEntry_def split: option.splits)
next
  fix m e k assume m: "goodImageManifest m" "decodeDeterministicCbor e 2048 = Inr (CMap k)"
    "map_of k = map_of (imageManifestEntries m @ [(lit ''signature'', CBytes (im_signature m))])"
    "fst ` set k \<subseteq> set imageManifestNames"
  note f = goodImageManifest_facts [OF m(1)]
  note g = validateImageTransferManifest_facts(1-9,18) [OF f(1)]
  note t = goodToken_facts(2,3) [OF f(2)] goodToken_facts(2,3) [OF f(3)] goodToken_facts(2,3) [OF f(4)] goodToken_facts(2,3) [OF f(5)]
  have sig: "im_signature m \<noteq> []" using g(2) by auto
  have opt: "\<And>r. im_replyToMessageId m = Some r \<Longrightarrow> length (tokenBytes r) = 16 \<and> encodeBase64URL (tokenBytes r) = r"
    using f(7) by (auto simp: goodToken_facts)
  have get: "map_of k key = map_of (imageManifestEntries m @ [(lit ''signature'', CBytes (im_signature m))]) key" for key
    using m(3) by simp
  have fields: "map_of k (lit ''version'') = Some (CText imageTransferVersion)"
    "map_of k (lit ''transfer_id'') = Some (CBytes (tokenBytes (im_transferId m)))"
    "map_of k (lit ''manifest_id'') = Some (CBytes (tokenBytes (im_manifestId m)))"
    "map_of k (lit ''message_id'') = Some (CBytes (tokenBytes (im_messageId m)))"
    "map_of k (lit ''issued_at'') = Some (CNum (im_issuedAt m))"
    "map_of k (lit ''expires_at'') = Some (CNum (im_expiresAt m))"
    "map_of k (lit ''media_type'') = Some (CText (mediaTypeText (im_mediaType m)))"
    "map_of k (lit ''width'') = Some (CNum (im_width m))" "map_of k (lit ''height'') = Some (CNum (im_height m))"
    "map_of k (lit ''byte_count'') = Some (CNum (im_byteCount m))"
    "map_of k (lit ''chunk_bytes'') = Some (CNum (im_chunkBytes m))"
    "map_of k (lit ''chunk_count'') = Some (CNum (im_chunkCount m))"
    "map_of k (lit ''sha256'') = Some (CBytes (tokenBytes (im_sha256 m)))"
    "map_of k (lit ''signature'') = Some (CBytes (im_signature m))"
    "map_of k (lit ''caption'') = map_option CText (im_caption m)"
    "map_of k (lit ''reply_to_message_id'') = map_option (CBytes \<circ> tokenBytes) (im_replyToMessageId m)"
    unfolding get imageManifestEntries_def optionalText_def optionalTokenEntry_def
    by (simp_all add: g(1) split: option.splits)
  have "decodeImageTransferManifest e = Inr m"
    if "m = \<lparr>im_version = imageTransferVersion, im_transferId = a1, im_manifestId = a2, im_messageId = a3,
      im_issuedAt = a4, im_expiresAt = a5, im_mediaType = a6, im_width = a7, im_height = a8, im_byteCount = a9,
      im_chunkBytes = b1, im_chunkCount = b2, im_sha256 = b3, im_signature = b4, im_caption = b5, im_replyToMessageId = b6\<rparr>"
    for a1 a2 a3 a4 a5 a6 a7 a8 a9 b1 b2 b3 b4 b5 b6
    using m(2,4) f(1) fields g(2-) t opt sig unfolding that
    by (cases b5; cases b6)
      (simp_all add: decodeImageTransferManifest_def res_simps getRequiredEntry_def maxImageTransferManifestBodyBytes_def
        maxCborBytes_def Let_def)
  then show "decodeImageTransferManifest e = Inr m"
    using g(1) by (cases m) simp
next
  fix e m assume d: "decodeImageTransferManifest e = Inr m"
  then obtain k tid mid msg sha where k: "decodeDeterministicCbor e 2048 = Inr (CMap k)" "fst ` set k \<subseteq> set imageManifestNames"
    and fields: "map_of k (lit ''version'') = Some (CText (im_version m))"
    "map_of k (lit ''transfer_id'') = Some (CBytes tid)" "map_of k (lit ''manifest_id'') = Some (CBytes mid)"
    "map_of k (lit ''message_id'') = Some (CBytes msg)"
    "map_of k (lit ''issued_at'') = Some (CNum (im_issuedAt m))"
    "map_of k (lit ''expires_at'') = Some (CNum (im_expiresAt m))"
    "map_of k (lit ''media_type'') = Some (CText (mediaTypeText (im_mediaType m)))"
    "map_of k (lit ''width'') = Some (CNum (im_width m))" "map_of k (lit ''height'') = Some (CNum (im_height m))"
    "map_of k (lit ''byte_count'') = Some (CNum (im_byteCount m))"
    "map_of k (lit ''chunk_bytes'') = Some (CNum (im_chunkBytes m))"
    "map_of k (lit ''chunk_count'') = Some (CNum (im_chunkCount m))"
    "map_of k (lit ''sha256'') = Some (CBytes sha)"
    "map_of k (lit ''signature'') = Some (CBytes (im_signature m))"
    and tok: "im_transferId m = encodeBase64URL tid" "length tid = 16"
    "im_manifestId m = encodeBase64URL mid" "length mid = 32" "im_messageId m = encodeBase64URL msg" "length msg = 16"
    "im_sha256 m = encodeBase64URL sha" "length sha = 32"
    and cap: "whenPresent k (lit ''caption'') (readCaption k (lit ''caption'')) = Inr (im_caption m)"
    and rep: "whenPresent k (lit ''reply_to_message_id'') (token k (lit ''reply_to_message_id'') 16) = Inr (im_replyToMessageId m)"
    and valid: "validateImageTransferManifest m = Inr ()"
    unfolding decodeImageTransferManifest_def image_helpers andThen_Inr imageStrictMap_Inr maxImageTransferManifestBodyBytes_def
      readImageTransferVersion_Inr readRasterMediaType_Inr number_Inr getRequiredEntry_Inr
    by (clarsimp simp: token_Inr readBytes_Inr maxCborBytes_def Let_def res_simps simp del: whenPresent_Inr)
  have caption: "map_of k (lit ''caption'') = map_option CText (im_caption m)"
    "case im_caption m of None \<Rightarrow> True | Some c \<Rightarrow> goodText c 1024"
    using cap decoded_entry [OF k(1), of "lit ''caption''"]
    by (auto simp: res_simps decodable_goodText split: option.splits)
  have reply: "map_of k (lit ''reply_to_message_id'') = map_option (CBytes \<circ> tokenBytes) (im_replyToMessageId m)"
    "case im_replyToMessageId m of None \<Rightarrow> True | Some r \<Rightarrow> goodToken r 16"
    using rep by (auto simp: res_simps token_Inr maxCborBytes_def split: option.splits)
  have "goodImageManifest m"
    using tok caption(2) reply(2) valid by (auto simp: goodImageManifest_def)
  then show "goodImageManifest m \<and> (\<exists>k. decodeDeterministicCbor e 2048 = Inr (CMap k)
    \<and> fst ` set k \<subseteq> set imageManifestNames \<and> (\<forall>key \<in> set imageManifestNames. map_of k key
      = map_of (imageManifestEntries m @ [(lit ''signature'', CBytes (im_signature m))]) key))"
    using k fields caption(1) reply(1)
    by (intro conjI exI [of _ k])
      (simp_all add: imageManifestEntries_def optionalText_def optionalTokenEntry_def tok split: option.splits)
qed

subsection \<open>Inline images\<close>

abbreviation inlineNames :: "js_string list" where
  "inlineNames \<equiv> [lit ''version'', lit ''media_type'', lit ''width'', lit ''height'', lit ''bytes'', lit ''caption'',
     lit ''reply_to_message_id'']"

definition inlineEntries :: "InlineImage \<Rightarrow> cborMap" where
  "inlineEntries img =
     [(lit ''version'', CText (inline_version img)),
      (lit ''media_type'', CText (mediaTypeText (inline_mediaType img))),
      (lit ''width'', CNum (inline_width img)),
      (lit ''height'', CNum (inline_height img)),
      (lit ''bytes'', CBytes (inline_bytes img))]
     @ optionalText (lit ''caption'') (inline_caption img)
     @ optionalTokenEntry (lit ''reply_to_message_id'') (inline_replyToMessageId img)"

lemma validateInlineImage_facts:
  assumes "validateInlineImage img = Inr ()"
  shows "inline_version img = imageMessageVersion" "goodTime (inline_width img)" "goodTime (inline_height img)"
    "inline_bytes img \<noteq> []" "length (inline_bytes img) \<le> 2800"
    "case inline_caption img of None \<Rightarrow> True | Some s \<Rightarrow> length (textEncode s) \<le> 1024 \<and> trim s \<noteq> []"
  using assms
  by (auto simp: validateInlineImage_def validateImageShape_def res_simps isBoundedInteger_def isSafeInteger_def
      goodTime_def maxInlineImageBytes_def)

lemma inlineMap_entries:
  "(case inline_replyToMessageId img of None \<Rightarrow> True | Some r \<Rightarrow> goodToken r 16)
    \<Longrightarrow> inlineMap img = Inr (CMap (inlineEntries img))"
  by (simp add: inlineMap_def optionalToken_entry inlineEntries_def)

lemma encodeInlineImage_entries:
  "(case inline_replyToMessageId img of None \<Rightarrow> True | Some r \<Rightarrow> goodToken r 16) \<Longrightarrow>
   encodeInlineImage img = Inr e \<longleftrightarrow> validateInlineImage img = Inr ()
     \<and> encodeDeterministicCbor (CMap (inlineEntries img)) = Inr e \<and> length e \<le> 3000"
  by (cases "encodeDeterministicCbor (CMap (inlineEntries img))"; cases "validateInlineImage img")
    (auto simp: encodeInlineImage_def inlineMap_entries maxInlineImageBodyBytes_def
      simp del: encodeDeterministicCbor.simps)

lemma goodInlineImage_facts:
  assumes "goodInlineImage img"
  obtains e where "validateInlineImage img = Inr ()" "encodeDeterministicCbor (CMap (inlineEntries img)) = Inr e"
    "length e \<le> 3000" "case inline_caption img of None \<Rightarrow> True | Some c \<Rightarrow> goodText c 1024"
    "case inline_replyToMessageId img of None \<Rightarrow> True | Some r \<Rightarrow> goodToken r 16"
  using assms encodeInlineImage_entries [of img] by (auto simp: goodInlineImage_def succeeds_iff)

interpretation inline_image: flat_codec encodeInlineImage decodeInlineImage goodInlineImage inlineEntries inlineNames 3000
proof
  fix img assume img: "goodInlineImage img"
  obtain e where e: "validateInlineImage img = Inr ()" "encodeDeterministicCbor (CMap (inlineEntries img)) = Inr e"
    "length e \<le> 3000" "case inline_caption img of None \<Rightarrow> True | Some c \<Rightarrow> goodText c 1024"
    "case inline_replyToMessageId img of None \<Rightarrow> True | Some r \<Rightarrow> goodToken r 16"
    by (rule goodInlineImage_facts [OF img])
  note g = validateInlineImage_facts [OF e(1)]
  show "encodeInlineImage img = encodeDeterministicCbor (CMap (inlineEntries img))"
    using encodeInlineImage_entries [OF e(5), of e] e(1-3) by simp
  have opt: "\<And>c. inline_caption img = Some c \<Longrightarrow> decodableText c"
    "\<And>r. inline_replyToMessageId img = Some r \<Longrightarrow> length (tokenBytes r) = 16"
    using e(4,5) by (auto intro: goodText_decodable goodToken_facts)
  show "wfCbor (CMap (inlineEntries img)) \<and> (\<forall>v \<in> snd ` set (inlineEntries img). scalar v)"
    using g opt by (cases "inline_caption img"; cases "inline_replyToMessageId img";
        simp add: inlineEntries_def optionalText_def optionalTokenEntry_def goodTime_def maxCborBytes_def
          maxCborCollectionEntries_def)
  show "length (encoded (CMap (inlineEntries img))) \<le> 3000" by (subst e(2)) (simp add: e(3))
  show "fst ` set (inlineEntries img) \<subseteq> set inlineNames"
    by (auto simp: inlineEntries_def optionalText_def optionalTokenEntry_def split: option.splits)
next
  fix img e k assume img: "goodInlineImage img" "decodeDeterministicCbor e 3000 = Inr (CMap k)"
    "map_of k = map_of (inlineEntries img)" "fst ` set k \<subseteq> set inlineNames"
  obtain b where v: "validateInlineImage img = Inr ()" and
    reply: "case inline_replyToMessageId img of None \<Rightarrow> True | Some r \<Rightarrow> goodToken r 16"
    by (rule goodInlineImage_facts [OF img(1)])
  note g = validateInlineImage_facts [OF v]
  have opt: "\<And>r. inline_replyToMessageId img = Some r \<Longrightarrow> length (tokenBytes r) = 16 \<and> encodeBase64URL (tokenBytes r) = r"
    using reply by (auto simp: goodToken_facts)
  show "decodeInlineImage e = Inr img"
    using img(2-) v g opt
    by (cases img; cases "inline_caption img"; cases "inline_replyToMessageId img")
      (simp_all add: decodeInlineImage_def inlineEntries_def optionalText_def optionalTokenEntry_def res_simps
        getRequiredEntry_def maxInlineImageBodyBytes_def maxCborBytes_def Let_def)
next
  fix e img assume d: "decodeInlineImage e = Inr img"
  then obtain k where k: "decodeDeterministicCbor e 3000 = Inr (CMap k)" "fst ` set k \<subseteq> set inlineNames"
    and fields: "map_of k (lit ''version'') = Some (CText (inline_version img))"
    "map_of k (lit ''media_type'') = Some (CText (mediaTypeText (inline_mediaType img)))"
    "map_of k (lit ''width'') = Some (CNum (inline_width img))" "map_of k (lit ''height'') = Some (CNum (inline_height img))"
    "map_of k (lit ''bytes'') = Some (CBytes (inline_bytes img))"
    and cap: "whenPresent k (lit ''caption'') (readCaption k (lit ''caption'')) = Inr (inline_caption img)"
    and rep: "whenPresent k (lit ''reply_to_message_id'') (token k (lit ''reply_to_message_id'') 16) = Inr (inline_replyToMessageId img)"
    and valid: "validateInlineImage img = Inr ()"
    unfolding decodeInlineImage_def image_helpers andThen_Inr imageStrictMap_Inr maxInlineImageBodyBytes_def
      readImageMessageVersion_Inr readRasterMediaType_Inr number_Inr getRequiredEntry_Inr
    by (clarsimp simp: readBytes_Inr maxCborBytes_def Let_def res_simps simp del: whenPresent_Inr)
  have caption: "map_of k (lit ''caption'') = map_option CText (inline_caption img)"
    "case inline_caption img of None \<Rightarrow> True | Some c \<Rightarrow> goodText c 1024"
    using cap decoded_entry [OF k(1), of "lit ''caption''"]
    by (auto simp: res_simps decodable_goodText split: option.splits)
  have reply: "map_of k (lit ''reply_to_message_id'') = map_option (CBytes \<circ> tokenBytes) (inline_replyToMessageId img)"
    "case inline_replyToMessageId img of None \<Rightarrow> True | Some r \<Rightarrow> goodToken r 16"
    using rep by (auto simp: res_simps token_Inr maxCborBytes_def split: option.splits)
  have match: "\<forall>key \<in> set inlineNames. map_of k key = map_of (inlineEntries img) key"
    using fields caption(1) reply(1)
    by (simp add: inlineEntries_def optionalText_def optionalTokenEntry_def split: option.splits)
  have "distinct (map fst (inlineEntries img))"
    by (auto simp: inlineEntries_def optionalText_def optionalTokenEntry_def split: option.splits)
  moreover have "fst ` set (inlineEntries img) \<subseteq> set inlineNames"
    by (auto simp: inlineEntries_def optionalText_def optionalTokenEntry_def split: option.splits)
  ultimately have "encodeDeterministicCbor (CMap (inlineEntries img)) = Inr e"
    using match k(2) by (intro decode_CMap_entries [OF k(1) _ decoded_keys [OF k(1)]]) auto
  then have "encodeInlineImage img = Inr e"
    using encodeInlineImage_entries [OF reply(2)] valid decode_size [OF k(1)] by blast
  then have "goodInlineImage img"
    using caption(2) reply(2) by (simp add: goodInlineImage_def)
  with k match show "goodInlineImage img \<and> (\<exists>k. decodeDeterministicCbor e 3000 = Inr (CMap k)
    \<and> fst ` set k \<subseteq> set inlineNames \<and> (\<forall>key \<in> set inlineNames. map_of k key = map_of (inlineEntries img) key))"
    by blast
qed

section \<open>Signing bytes\<close>

lemma imageSigningBytes_eq:
  assumes "goodImageManifest m"
  shows "imageTransferManifestSigningBytes m = andThen (encodeDeterministicCbor (CMap (imageManifestEntries m)))
    (\<lambda>body. Inr (textEncode (imageTransferSignatureDomain @ [0]) @ body))"
  using goodImageManifest_facts(1) [OF assms]
  by (simp add: imageTransferManifestSigningBytes_def imageManifestMap_entries [OF assms] imageSigned_def Let_def
      del: encodeDeterministicCbor.simps)

lemma imageManifest_field:
  "map_of (imageManifestEntries m) (lit ''caption'') = map_option CText (im_caption m)"
  "map_of (imageManifestEntries m) (lit ''reply_to_message_id'') = map_option (CBytes \<circ> tokenBytes) (im_replyToMessageId m)"
  "map_of (imageManifestEntries m) (lit ''version'') = Some (CText (im_version m))"
  "map_of (imageManifestEntries m) (lit ''transfer_id'') = Some (CBytes (tokenBytes (im_transferId m)))"
  "map_of (imageManifestEntries m) (lit ''manifest_id'') = Some (CBytes (tokenBytes (im_manifestId m)))"
  "map_of (imageManifestEntries m) (lit ''message_id'') = Some (CBytes (tokenBytes (im_messageId m)))"
  "map_of (imageManifestEntries m) (lit ''issued_at'') = Some (CNum (im_issuedAt m))"
  "map_of (imageManifestEntries m) (lit ''expires_at'') = Some (CNum (im_expiresAt m))"
  "map_of (imageManifestEntries m) (lit ''media_type'') = Some (CText (mediaTypeText (im_mediaType m)))"
  "map_of (imageManifestEntries m) (lit ''width'') = Some (CNum (im_width m))"
  "map_of (imageManifestEntries m) (lit ''height'') = Some (CNum (im_height m))"
  "map_of (imageManifestEntries m) (lit ''byte_count'') = Some (CNum (im_byteCount m))"
  "map_of (imageManifestEntries m) (lit ''chunk_bytes'') = Some (CNum (im_chunkBytes m))"
  "map_of (imageManifestEntries m) (lit ''chunk_count'') = Some (CNum (im_chunkCount m))"
  "map_of (imageManifestEntries m) (lit ''sha256'') = Some (CBytes (tokenBytes (im_sha256 m)))"
  unfolding imageManifestEntries_def optionalText_def optionalTokenEntry_def by (simp_all split: option.splits)

lemma imageSigningBytes_inject:
  assumes "goodImageManifest m" "goodImageManifest m'"
    and "imageTransferManifestSigningBytes m = imageTransferManifestSigningBytes m'"
  shows "m' = m\<lparr>im_signature := im_signature m'\<rparr>"
proof -
  have same: "map_of (imageManifestEntries m) = map_of (imageManifestEntries m')"
  proof (rule encode_flat_inject)
    show "encodeDeterministicCbor (CMap (imageManifestEntries m)) = encodeDeterministicCbor (CMap (imageManifestEntries m'))"
      using assms(3) imageManifestEntries_wf(2) assms(1,2)
      unfolding imageSigningBytes_eq [OF assms(1)] imageSigningBytes_eq [OF assms(2)]
      by (blast intro: signed_inject)
  qed (use imageManifestEntries_wf(2) imageManifestEntries_scalar assms(1,2) in auto)
  note f = goodImageManifest_facts [OF assms(1)] and f' = goodImageManifest_facts [OF assms(2)]
  have tok: "im_transferId m = im_transferId m'" "im_manifestId m = im_manifestId m'"
    "im_messageId m = im_messageId m'" "im_sha256 m = im_sha256 m'"
    using fun_cong [OF same, of "lit ''transfer_id''"] fun_cong [OF same, of "lit ''manifest_id''"]
      fun_cong [OF same, of "lit ''message_id''"] fun_cong [OF same, of "lit ''sha256''"]
      goodToken_inject [OF f(2) f'(2)] goodToken_inject [OF f(3) f'(3)] goodToken_inject [OF f(4) f'(4)]
      goodToken_inject [OF f(5) f'(5)]
    unfolding imageManifest_field by simp_all
  have nums: "im_issuedAt m = im_issuedAt m'" "im_expiresAt m = im_expiresAt m'" "im_width m = im_width m'"
    "im_height m = im_height m'" "im_byteCount m = im_byteCount m'" "im_chunkBytes m = im_chunkBytes m'"
    "im_chunkCount m = im_chunkCount m'"
    using fun_cong [OF same, of "lit ''issued_at''"] fun_cong [OF same, of "lit ''expires_at''"]
      fun_cong [OF same, of "lit ''width''"] fun_cong [OF same, of "lit ''height''"]
      fun_cong [OF same, of "lit ''byte_count''"] fun_cong [OF same, of "lit ''chunk_bytes''"]
      fun_cong [OF same, of "lit ''chunk_count''"]
    unfolding imageManifest_field by simp_all
  have texts: "im_version m = im_version m'" "im_mediaType m = im_mediaType m'" "im_caption m = im_caption m'"
    using fun_cong [OF same, of "lit ''version''"] fun_cong [OF same, of "lit ''media_type''"]
      fun_cong [OF same, of "lit ''caption''"]
    unfolding imageManifest_field by (auto dest: option.inj_map_strong [rotated])
  have "im_replyToMessageId m = im_replyToMessageId m'"
    using fun_cong [OF same, of "lit ''reply_to_message_id''"] f(7) f'(7)
    unfolding imageManifest_field
    by (cases "im_replyToMessageId m"; cases "im_replyToMessageId m'") (auto simp: goodToken_inject)
  with tok nums texts show ?thesis by simp
qed

lemma signing_domains_differ:
  "textEncode (attachmentSignatureDomain @ [0]) @ a \<noteq> textEncode (imageTransferSignatureDomain @ [0]) @ b"
proof
  assume eq: "textEncode (attachmentSignatureDomain @ [0]) @ a = textEncode (imageTransferSignatureDomain @ [0]) @ b"
  have nul: "lit s @ [0] = lit (s @ [CHR 0x00])" for s
    by (simp add: lit_append) (simp add: lit_def unitOf_def)
  have ascii: "asciiString (''branch.attachment.signature/0.draft'' @ [CHR 0x00])"
    "asciiString (''branch.image-transfer.signature/0.draft'' @ [CHR 0x00])"
    by (simp_all add: asciiString_def)
  have "take 8 (textEncode (attachmentSignatureDomain @ [0])) \<noteq> take 8 (textEncode (imageTransferSignatureDomain @ [0]))"
    unfolding attachmentSignatureDomain_def imageTransferSignatureDomain_def nul textEncode_lit [OF ascii(1)] textEncode_lit [OF ascii(2)]
    by (simp add: byteOf_def)
  moreover have "8 \<le> length (textEncode (attachmentSignatureDomain @ [0]))" "8 \<le> length (textEncode (imageTransferSignatureDomain @ [0]))"
    unfolding attachmentSignatureDomain_def imageTransferSignatureDomain_def nul textEncode_lit [OF ascii(1)] textEncode_lit [OF ascii(2)]
    by simp_all
  ultimately show False using arg_cong [OF eq, of "take 8"] by simp
qed

section \<open>Properties\<close>

definition sampleImageManifest :: ImageTransferManifest where
  "sampleImageManifest =
     \<lparr>im_version = imageTransferVersion, im_transferId = encodeBase64URL (replicate 16 1),
      im_manifestId = encodeBase64URL (replicate 32 2), im_messageId = encodeBase64URL (replicate 16 6),
      im_issuedAt = 1000, im_expiresAt = 61000, im_mediaType = ImagePng, im_width = 40, im_height = 30,
      im_byteCount = 300, im_chunkBytes = 256, im_chunkCount = 2, im_sha256 = encodeBase64URL (replicate 32 3),
      im_signature = replicate 64 4, im_caption = None, im_replyToMessageId = None\<rparr>"

lemma goodImageManifest_sample: "goodImageManifest sampleImageManifest"
  by (simp add: goodImageManifest_def sampleImageManifest_def succeeds_iff validateImageTransferManifest_def
      validateImageShape_def isRasterImageMediaType_def validateCaption_def isBoundedInteger_def isSafeTime_def isSafeInteger_def
      maxImageWidth_def maxImageHeight_def maxImagePixels_def maxImageTransferTTLms_def maxImageDirectBytes_def
      maxImageTransferChunkBytes_def maxImageTransferChunks_def ceilDiv_def maxSafeInteger_def)


text \<open>
  The signature of an image manifest covers every other field, and never verifies as the signature of
  an attachment manifest or decision, whose domain differs.
\<close>

theorem image_signing_covers_fields:
  assumes "goodImageManifest m" "goodImageManifest m'"
    and "imageTransferManifestSigningBytes m = imageTransferManifestSigningBytes m'"
  shows "m' = m\<lparr>im_signature := im_signature m'\<rparr>
    \<and> (\<forall>a b. imageTransferManifestSigningBytes m = Inr b \<longrightarrow> attachmentManifestSigningBytes a \<noteq> Inr b)"
proof (intro conjI allI impI notI)
  show "m' = m\<lparr>im_signature := im_signature m'\<rparr>" by (rule imageSigningBytes_inject [OF assms])
next
  fix a b assume "imageTransferManifestSigningBytes m = Inr b" "attachmentManifestSigningBytes a = Inr b"
  then show False
    using signing_domains_differ
    by (auto simp: imageTransferManifestSigningBytes_def attachmentManifestSigningBytes_def imageSigned_def signed_def res_simps)
qed

theorem image_signing_covers_fields_witness:
  "imageTransferManifestSigningBytes sampleImageManifest
     \<noteq> imageTransferManifestSigningBytes (sampleImageManifest\<lparr>im_width := 41\<rparr>)"
proof
  assume eq: "imageTransferManifestSigningBytes sampleImageManifest = imageTransferManifestSigningBytes (sampleImageManifest\<lparr>im_width := 41\<rparr>)"
  have good: "goodImageManifest (sampleImageManifest\<lparr>im_width := 41\<rparr>)"
    using goodImageManifest_sample
    by (simp add: goodImageManifest_def sampleImageManifest_def succeeds_iff validateImageTransferManifest_def res_simps
      validateImageShape_def isRasterImageMediaType_def isBoundedInteger_def isSafeInteger_def maxImageWidth_def maxImagePixels_def maxSafeInteger_def)
  show False
    using image_signing_covers_fields [OF goodImageManifest_sample good eq] by (simp add: sampleImageManifest_def)
qed

end
