(* ===== verification/ImageTransfer.thy ===== *)
theory ImageTransfer
  imports Image ChunkStore
begin

text \<open>
  \<^verbatim>\<open>application-payload/image-transfer-state.ts\<close>: the reassembly of one image and the registry that
  owns the reassemblies of all peers. \<^verbatim>\<open>receiveChunk\<close> is split at its \<^verbatim>\<open>await\<close> as in theory
  \<open>AttachmentTransfer\<close>. Unlike a file transfer, a reassembly does not look at its phase before it
  stores a chunk; it is the registry's sweep before every operation that keeps ended ones out of reach.
\<close>

section \<open>Data\<close>

datatype ImageTransferReassemblyFailure =
    ImExpired | ImInvalidManifest | ImNoTransfer | ImInvalidChunk | ImReorderLimit | ImConflictingDuplicate
  | ImIntegrityFailed | ImDigestFailed

datatype ImageTransferReassemblyResult =
    ImOpened | ImDuplicateManifest | ImChunkStored | ImDuplicateChunk
  | ImCompleted bytes ImageTransferManifest
  | ImBusy ImageTransferReassemblyFailure
  | ImReplayed ImageTransferReassemblyFailure
  | ImIgnored ImageTransferReassemblyFailure
  | ImAborted ImageTransferReassemblyFailure
  | ImExpiredResult ImageTransferReassemblyFailure

record ImageTransferReassemblySnapshot =
  imsnap_peerId :: js_string
  imsnap_transferId :: js_string
  imsnap_manifestId :: js_string
  imsnap_receivedChunks :: nat
  imsnap_receivedBytes :: int
  imsnap_nextMissingIndex :: int

record ImageTransferReassemblyOptions =
  imopt_maximumTransferBytes :: "int option"
  imopt_maximumReorderChunks :: "int option"
  imopt_maximumActiveTransfers :: "int option"
  imopt_maximumRememberedTransfers :: "int option"

datatype imagePhase = PhaseActive | PhaseAborted | PhaseExpired | PhaseCompleted

record ImageTransferReassembly =
  ir_peerId :: js_string
  ir_manifest :: ImageTransferManifest
  ir_maximumReorderChunks :: int
  ir_chunks :: chunks
  ir_receivedBytes :: int
  ir_nextMissingIndex :: int
  ir_phase :: imagePhase

type_synonym imageOutcome = "ImageTransferReassemblyResult \<times> ImageTransferReassembly"

section \<open>One reassembly\<close>

definition validateOptions :: "ImageTransferReassemblyOptions \<Rightarrow> unit res" where
  "validateOptions options =
     (let maximumTransferBytes = case_option maxImageDirectBytes id (imopt_maximumTransferBytes options);
          maximumReorderChunks = case_option 64 id (imopt_maximumReorderChunks options);
          maximumActiveTransfers = case_option 16 id (imopt_maximumActiveTransfers options);
          maximumRememberedTransfers = case_option 16 id (imopt_maximumRememberedTransfers options)
      in throwIf
        (\<not> isSafeInteger maximumTransferBytes \<or> maximumTransferBytes < 1 \<or> maximumTransferBytes > maxImageDirectBytes
         \<or> \<not> isSafeInteger maximumReorderChunks \<or> maximumReorderChunks < 0 \<or> maximumReorderChunks \<ge> maxImageTransferChunks
         \<or> \<not> isSafeInteger maximumActiveTransfers \<or> maximumActiveTransfers < 1 \<or> maximumActiveTransfers > 16
         \<or> \<not> isSafeInteger maximumRememberedTransfers \<or> maximumRememberedTransfers < 1 \<or> maximumRememberedTransfers > 64)
        (PlainError (lit ''invalid image transfer reassembly options'')))"

definition validPeerId :: "js_string \<Rightarrow> bool" where
  "validPeerId value \<longleftrightarrow> length value > 0 \<and> length value \<le> 128"

definition imageTransferKey :: "js_string \<Rightarrow> ImageTransferManifest \<Rightarrow> js_string" where
  "imageTransferKey peerId m = peerId @ lit '':'' @ im_transferId m @ lit '':'' @ im_manifestId m"

definition newReassembly :: "js_string \<Rightarrow> ImageTransferManifest \<Rightarrow> int \<Rightarrow> ImageTransferReassembly" where
  "newReassembly peerId m maximumReorderChunks =
     \<lparr>ir_peerId = peerId, ir_manifest = m\<lparr>im_signature := im_signature m\<rparr>,
      ir_maximumReorderChunks = maximumReorderChunks, ir_chunks = [], ir_receivedBytes = 0,
      ir_nextMissingIndex = 0, ir_phase = PhaseActive\<rparr>"

definition openReassembly ::
  "js_string \<Rightarrow> ImageTransferManifest \<Rightarrow> ImageTransferReassemblyOptions \<Rightarrow> int \<Rightarrow> ImageTransferReassembly res" where
  "openReassembly peerId m options now =
     andThen (validateOptions options) (\<lambda>_.
     andThen (validateImageTransferManifest m) (\<lambda>_.
       if \<not> validPeerId peerId then throw ''invalid image transfer peer''
       else if \<not> isSafeInteger now \<or> now \<ge> im_expiresAt m then throw ''image transfer is expired''
       else if im_byteCount m > case_option maxImageDirectBytes id (imopt_maximumTransferBytes options)
       then throw ''image transfer exceeds local limit''
       else Inr (newReassembly peerId m (case_option 64 id (imopt_maximumReorderChunks options)))))"

definition reassemblyTerminal :: "ImageTransferReassembly \<Rightarrow> bool" where
  "reassemblyTerminal t \<longleftrightarrow> ir_phase t \<noteq> PhaseActive"

definition reassemblyKey :: "ImageTransferReassembly \<Rightarrow> js_string" where
  "reassemblyKey t = imageTransferKey (ir_peerId t) (ir_manifest t)"

definition matchesManifest :: "ImageTransferReassembly \<Rightarrow> ImageTransferManifest \<Rightarrow> bool" where
  "matchesManifest t m \<longleftrightarrow> succeeds (validateImageTransferManifest m)
     \<and> im_transferId m = im_transferId (ir_manifest t)
     \<and> im_manifestId m = im_manifestId (ir_manifest t)
     \<and> bytesEqual (im_signature m) (im_signature (ir_manifest t))
     \<and> im_messageId m = im_messageId (ir_manifest t)
     \<and> im_issuedAt m = im_issuedAt (ir_manifest t)
     \<and> im_expiresAt m = im_expiresAt (ir_manifest t)
     \<and> im_mediaType m = im_mediaType (ir_manifest t)
     \<and> im_width m = im_width (ir_manifest t)
     \<and> im_height m = im_height (ir_manifest t)
     \<and> im_byteCount m = im_byteCount (ir_manifest t)
     \<and> im_chunkBytes m = im_chunkBytes (ir_manifest t)
     \<and> im_chunkCount m = im_chunkCount (ir_manifest t)
     \<and> im_sha256 m = im_sha256 (ir_manifest t)
     \<and> im_caption m = im_caption (ir_manifest t)
     \<and> im_replyToMessageId m = im_replyToMessageId (ir_manifest t)"

definition reassemblySnapshot :: "ImageTransferReassembly \<Rightarrow> ImageTransferReassemblySnapshot" where
  "reassemblySnapshot t =
     \<lparr>imsnap_peerId = ir_peerId t, imsnap_transferId = im_transferId (ir_manifest t),
      imsnap_manifestId = im_manifestId (ir_manifest t), imsnap_receivedChunks = length (ir_chunks t),
      imsnap_receivedBytes = ir_receivedBytes t, imsnap_nextMissingIndex = ir_nextMissingIndex t\<rparr>"

definition clearImageChunks :: "ImageTransferReassembly \<Rightarrow> ImageTransferReassembly" where
  "clearImageChunks t = t\<lparr>ir_chunks := [], ir_receivedBytes := 0\<rparr>"

definition abortImage :: "ImageTransferReassembly \<Rightarrow> ImageTransferReassemblyFailure \<Rightarrow> imageOutcome" where
  "abortImage t reason =
     (ImAborted reason, if \<not> reassemblyTerminal t then clearImageChunks (t\<lparr>ir_phase := PhaseAborted\<rparr>) else t)"

definition checkImageExpired :: "ImageTransferReassembly \<Rightarrow> int \<Rightarrow> bool \<times> ImageTransferReassembly" where
  "checkImageExpired t now =
     (if \<not> isSafeInteger now \<or> now \<ge> im_expiresAt (ir_manifest t)
      then (True, if \<not> reassemblyTerminal t then clearImageChunks (t\<lparr>ir_phase := PhaseExpired\<rparr>) else t)
      else (ir_phase t = PhaseExpired, t))"

definition expireReassembly :: "ImageTransferReassembly \<Rightarrow> int \<Rightarrow> ImageTransferReassemblyResult option \<times> ImageTransferReassembly" where
  "expireReassembly t now =
     (case checkImageExpired t now of (expired, t') \<Rightarrow>
        (if expired then Some (ImExpiredResult ImExpired) else None, t'))"

datatype imageProgress = ImSettled imageOutcome | ImAwait bytes ImageTransferReassembly

definition storeImageChunk :: "ImageTransferReassembly \<Rightarrow> int \<Rightarrow> bytes \<Rightarrow> ImageTransferReassembly" where
  "storeImageChunk t idx bs =
     (let chunks = mapSet (ir_chunks t) idx bs
      in t\<lparr>ir_chunks := chunks, ir_receivedBytes := ir_receivedBytes t + int (length bs),
           ir_nextMissingIndex := advanceMissing chunks (ir_nextMissingIndex t)\<rparr>)"

definition assembleImage :: "ImageTransferReassembly \<Rightarrow> imageProgress res" where
  "assembleImage t =
     (if int (length (ir_chunks t)) \<noteq> im_chunkCount (ir_manifest t) then Inr (ImSettled (ImChunkStored, t))
      else if ir_receivedBytes t \<noteq> im_byteCount (ir_manifest t) then Inr (ImSettled (abortImage t ImInvalidChunk))
      else andThen (assembleFile (ir_chunks t) (im_chunkCount (ir_manifest t)) (im_byteCount (ir_manifest t)))
        (\<lambda>assembled. case assembled of
            None \<Rightarrow> Inr (ImSettled (abortImage t ImInvalidChunk))
          | Some complete \<Rightarrow> Inr (ImAwait complete t)))"

definition receiveImageStart :: "ImageTransferReassembly \<Rightarrow> ImageTransferChunk \<Rightarrow> int \<Rightarrow> imageProgress res" where
  "receiveImageStart t chunk now =
     (case checkImageExpired t now of (expired, t) \<Rightarrow>
        if expired then Inr (ImSettled (ImExpiredResult ImExpired, t))
        else if \<not> succeeds (validateImageTransferChunkForManifest chunk (ir_manifest t))
        then Inr (ImSettled (abortImage t ImInvalidChunk))
        else case mapGet (ir_chunks t) (ic_index chunk) of
            Some previous \<Rightarrow>
              Inr (ImSettled (if bytesEqual previous (ic_bytes chunk) then (ImDuplicateChunk, t)
                              else abortImage t ImConflictingDuplicate))
          | None \<Rightarrow>
              if ic_index chunk - ir_nextMissingIndex t > ir_maximumReorderChunks t
              then Inr (ImSettled (abortImage t ImReorderLimit))
              else assembleImage (storeImageChunk t (ic_index chunk) (ic_bytes chunk)))"

definition receiveImageFinish :: "ImageTransferReassembly \<Rightarrow> bytes \<Rightarrow> js_string option \<Rightarrow> imageOutcome" where
  "receiveImageFinish t complete digested =
     (case digested of
        None \<Rightarrow> abortImage t ImDigestFailed
      | Some d \<Rightarrow>
          if d \<noteq> im_sha256 (ir_manifest t) then abortImage t ImIntegrityFailed
          else (ImCompleted complete (ir_manifest t), clearImageChunks (t\<lparr>ir_phase := PhaseCompleted\<rparr>)))"

definition receiveImageChunk ::
  "(bytes \<Rightarrow> js_string option) \<Rightarrow> ImageTransferReassembly \<Rightarrow> ImageTransferChunk \<Rightarrow> int \<Rightarrow> imageOutcome res" where
  "receiveImageChunk digest t chunk now =
     andThen (receiveImageStart t chunk now) (\<lambda>progress. case progress of
         ImSettled outcome \<Rightarrow> Inr outcome
       | ImAwait complete t' \<Rightarrow> Inr (receiveImageFinish t' complete (digest complete)))"

section \<open>The registry\<close>

record ImageTransferReassemblyRegistry =
  irr_options :: ImageTransferReassemblyOptions
  irr_active :: "(js_string, ImageTransferReassembly) js_map"
  irr_closed :: "(js_string, int) js_map"

definition newImageRegistry :: "ImageTransferReassemblyOptions \<Rightarrow> ImageTransferReassemblyRegistry res" where
  "newImageRegistry options =
     andThen (validateOptions options) (\<lambda>_. Inr \<lparr>irr_options = options, irr_active = [], irr_closed = []\<rparr>)"

text \<open>The body of the loop over the active transfers; a transfer's mutation shows through the map.\<close>

definition sweepTransfer ::
  "int \<Rightarrow> js_string \<times> ImageTransferReassembly
     \<Rightarrow> (js_string, ImageTransferReassembly) js_map \<times> (js_string, int) js_map
     \<Rightarrow> (js_string, ImageTransferReassembly) js_map \<times> (js_string, int) js_map" where
  "sweepTransfer now entry maps =
     (case entry of (peerId, t) \<Rightarrow> case maps of (active, closed) \<Rightarrow>
        let t' = snd (expireReassembly t now) in
        if reassemblyTerminal t'
        then (mapDelete active peerId, mapSet closed (reassemblyKey t') (im_expiresAt (ir_manifest t')))
        else (mapSet active peerId t', closed))"

definition sweepImages :: "ImageTransferReassemblyRegistry \<Rightarrow> int \<Rightarrow> ImageTransferReassemblyRegistry res" where
  "sweepImages r now =
     (if \<not> isSafeInteger now then throw ''invalid image transfer time''
      else
        let (active, closed) = fold (sweepTransfer now) (irr_active r) (irr_active r, dropExpired (irr_closed r) now);
            maximumRememberedTransfers = case_option 16 id (imopt_maximumRememberedTransfers (irr_options r))
        in Inr (r\<lparr>irr_active := active, irr_closed := evictOldest (nat maximumRememberedTransfers) closed\<rparr>))"

definition openImage ::
  "ImageTransferReassemblyRegistry \<Rightarrow> js_string \<Rightarrow> ImageTransferManifest \<Rightarrow> int
     \<Rightarrow> (ImageTransferReassemblyResult \<times> ImageTransferReassemblyRegistry) res" where
  "openImage r0 peerId m now =
     andThen (sweepImages r0 now) (\<lambda>r.
       if \<not> succeeds (validateImageTransferManifest m) \<or> \<not> validPeerId peerId then Inr (ImIgnored ImInvalidManifest, r)
       else if mapHas (irr_closed r) (imageTransferKey peerId m) then Inr (ImReplayed ImNoTransfer, r)
       else case mapGet (irr_active r) peerId of
           Some existing \<Rightarrow>
             Inr (if matchesManifest existing m then ImDuplicateManifest else ImBusy ImNoTransfer, r)
         | None \<Rightarrow>
             if int (length (irr_active r)) \<ge> case_option 16 id (imopt_maximumActiveTransfers (irr_options r))
             then Inr (ImBusy ImNoTransfer, r)
             else (case openReassembly peerId m (irr_options r) now of
                 Inl _ \<Rightarrow> Inr (ImIgnored ImExpired, r)
               | Inr t \<Rightarrow> Inr (ImOpened, r\<lparr>irr_active := mapSet (irr_active r) peerId t\<rparr>)))"

definition receiveImage ::
  "(bytes \<Rightarrow> js_string option) \<Rightarrow> ImageTransferReassemblyRegistry \<Rightarrow> js_string \<Rightarrow> ImageTransferChunk \<Rightarrow> int
     \<Rightarrow> (ImageTransferReassemblyResult \<times> ImageTransferReassemblyRegistry) res" where
  "receiveImage digest r0 peerId chunk now =
     andThen (sweepImages r0 now) (\<lambda>r.
       case mapGet (irr_active r) peerId of
         None \<Rightarrow> Inr (ImIgnored ImNoTransfer, r)
       | Some t \<Rightarrow>
           andThen (receiveImageChunk digest t chunk now) (\<lambda>(result, t').
           andThen (sweepImages (r\<lparr>irr_active := mapSet (irr_active r) peerId t'\<rparr>) now) (\<lambda>r'.
             Inr (result, r'))))"

definition expireImages :: "ImageTransferReassemblyRegistry \<Rightarrow> int \<Rightarrow> ImageTransferReassemblyRegistry res" where
  "expireImages r now = sweepImages r now"

definition clearImages :: "ImageTransferReassemblyRegistry \<Rightarrow> ImageTransferReassemblyRegistry" where
  "clearImages r = r\<lparr>irr_active := [], irr_closed := []\<rparr>"

section \<open>The invariant of a live reassembly\<close>

definition liveInv :: "ImageTransferReassembly \<Rightarrow> bool" where
  "liveInv t \<longleftrightarrow> ir_phase t = PhaseActive \<and> validateImageTransferManifest (ir_manifest t) = Inr ()
     \<and> 0 \<le> ir_maximumReorderChunks t
     \<and> bufferOk (im_chunkCount (ir_manifest t)) (im_chunkBytes (ir_manifest t)) (ir_maximumReorderChunks t)
         (ir_chunks t) (ir_receivedBytes t) (ir_nextMissingIndex t)"

definition sameTransfer :: "ImageTransferReassembly \<Rightarrow> ImageTransferReassembly \<Rightarrow> bool" where
  "sameTransfer t t' \<longleftrightarrow> ir_peerId t' = ir_peerId t \<and> ir_manifest t' = ir_manifest t"

lemma sameTransfer_simps [simp]:
  "sameTransfer t t" "sameTransfer t (snd (abortImage t reason))" "sameTransfer t (storeImageChunk t i b)"
  "sameTransfer t (snd (receiveImageFinish t b d))"
  by (simp_all add: sameTransfer_def abortImage_def clearImageChunks_def storeImageChunk_def receiveImageFinish_def Let_def
      split: option.splits)

lemma sameTransfer_trans: "sameTransfer a b \<Longrightarrow> sameTransfer b c \<Longrightarrow> sameTransfer a c"
  by (simp add: sameTransfer_def)

lemma abortImage_live: "liveInv t \<Longrightarrow> reassemblyTerminal (snd (abortImage t reason))"
  by (simp add: abortImage_def liveInv_def reassemblyTerminal_def clearImageChunks_def)

lemma checkImageExpired_live:
  assumes "liveInv t" "checkImageExpired t now = (e, t')"
  shows "sameTransfer t t'" "e \<longrightarrow> reassemblyTerminal t'" "\<not> e \<longrightarrow> t' = t"
  using assms by (auto simp: checkImageExpired_def liveInv_def reassemblyTerminal_def clearImageChunks_def sameTransfer_def
      split: if_splits)

lemma validateImageTransferChunkForManifest_Inr:
  "validateImageTransferChunkForManifest c m = Inr u \<longleftrightarrow>
     validateImageTransferChunk c = Inr () \<and> validateImageTransferManifest m = Inr ()
     \<and> ic_transferId c = im_transferId m \<and> ic_manifestId c = im_manifestId m
     \<and> chunkFits (im_chunkCount m) (im_chunkBytes m) (ic_index c) (ic_bytes c)"
  by (auto simp: validateImageTransferChunkForManifest_def res_simps chunkFits_def) (auto simp: validateImageTransferChunk_def)

lemma liveInv_store:
  assumes "liveInv t" "mapGet (ir_chunks t) i = None" "i - ir_nextMissingIndex t \<le> ir_maximumReorderChunks t"
    and "chunkFits (im_chunkCount (ir_manifest t)) (im_chunkBytes (ir_manifest t)) i b"
  shows "liveInv (storeImageChunk t i b)"
  using assms bufferOk_store by (auto simp: liveInv_def storeImageChunk_def Let_def)

text \<open>What the first half of \<^verbatim>\<open>receiveChunk\<close> does to a live reassembly.\<close>

definition imageStartOk :: "ImageTransferReassembly \<Rightarrow> imageProgress res \<Rightarrow> bool" where
  "imageStartOk t p = (case p of Inl _ \<Rightarrow> False
     | Inr (ImSettled (r, t')) \<Rightarrow> sameTransfer t t' \<and> (liveInv t' \<or> reassemblyTerminal t') \<and> (\<forall>b m. r \<noteq> ImCompleted b m)
     | Inr (ImAwait b t') \<Rightarrow> sameTransfer t t' \<and> liveInv t' \<and> int (length (ir_chunks t')) = im_chunkCount (ir_manifest t)
         \<and> ir_receivedBytes t' = im_byteCount (ir_manifest t)
         \<and> b = joinChunks (ir_chunks t') (im_chunkCount (ir_manifest t)))"

lemma imageStartOk_abort: "liveInv t' \<Longrightarrow> sameTransfer t t' \<Longrightarrow> imageStartOk t (Inr (ImSettled (abortImage t' reason)))"
  using abortImage_live [of t' reason]
  by (auto simp: imageStartOk_def abortImage_def sameTransfer_def clearImageChunks_def)

lemma imageStartOk_assemble:
  assumes "liveInv t'" "sameTransfer t t'"
  shows "imageStartOk t (assembleImage t')"
proof (cases "int (length (ir_chunks t')) = im_chunkCount (ir_manifest t') \<and> ir_receivedBytes t' = im_byteCount (ir_manifest t')")
  case True
  then have "assembleFile (ir_chunks t') (im_chunkCount (ir_manifest t')) (im_byteCount (ir_manifest t'))
      = Inr (Some (joinChunks (ir_chunks t') (im_chunkCount (ir_manifest t'))))"
    using assms(1) bufferOk_assemble(1) unfolding liveInv_def by blast
  with True assms show ?thesis by (simp add: assembleImage_def imageStartOk_def sameTransfer_def)
next
  case False
  moreover have "imageStartOk t (Inr (ImSettled (ImChunkStored, t')))" using assms by (simp add: imageStartOk_def)
  ultimately show ?thesis using imageStartOk_abort [OF assms] by (auto simp: assembleImage_def)
qed

lemma imageStartOk_receive:
  assumes "liveInv t"
  shows "imageStartOk t (receiveImageStart t c now)"
proof -
  obtain e t1 where e: "checkImageExpired t now = (e, t1)" by (cases "checkImageExpired t now")
  note x = checkImageExpired_live [OF assms e]
  show ?thesis
  proof (cases e)
    case True
    with e x show ?thesis by (simp add: receiveImageStart_def imageStartOk_def)
  next
    case False
    then have t1: "t1 = t" using x by simp
    have "imageStartOk t (assembleImage (storeImageChunk t (ic_index c) (ic_bytes c)))"
      if "succeeds (validateImageTransferChunkForManifest c (ir_manifest t))" "mapGet (ir_chunks t) (ic_index c) = None"
        "\<not> ic_index c - ir_nextMissingIndex t > ir_maximumReorderChunks t"
    proof (rule imageStartOk_assemble)
      show "liveInv (storeImageChunk t (ic_index c) (ic_bytes c))"
        using that assms by (intro liveInv_store) (auto simp: succeeds_iff validateImageTransferChunkForManifest_Inr)
    qed simp
    moreover have "imageStartOk t (Inr (ImSettled (ImDuplicateChunk, t)))"
      using assms by (simp add: imageStartOk_def)
    ultimately show ?thesis
      using e False t1 assms imageStartOk_abort [OF assms sameTransfer_simps(1)]
      by (simp add: receiveImageStart_def split: option.splits)
  qed
qed

lemma receiveImageChunk_total:
  assumes "liveInv t"
  obtains r t' where "receiveImageChunk digest t c now = Inr (r, t')" "sameTransfer t t'" "liveInv t' \<or> reassemblyTerminal t'"
    "\<forall>b m. r = ImCompleted b m \<longrightarrow> m = ir_manifest t \<and> digest b = Some (im_sha256 m) \<and> int (length b) = im_byteCount m
      \<and> ir_phase t' = PhaseCompleted"
proof (cases "receiveImageStart t c now")
  case (Inl e)
  then show thesis using imageStartOk_receive [OF assms, of c now] by (simp add: imageStartOk_def)
next
  case (Inr p)
  note ok = imageStartOk_receive [OF assms, of c now, unfolded Inr]
  show thesis
  proof (cases p)
    case (ImSettled q)
    then show thesis
      using ok Inr that [of "fst q" "snd q"] by (cases q) (auto simp: receiveImageChunk_def imageStartOk_def)
  next
    case (ImAwait b t1)
    let ?q = "receiveImageFinish t1 b (digest b)"
    from ok ImAwait have a: "sameTransfer t t1" "liveInv t1" "int (length (ir_chunks t1)) = im_chunkCount (ir_manifest t)"
      "ir_receivedBytes t1 = im_byteCount (ir_manifest t)" "b = joinChunks (ir_chunks t1) (im_chunkCount (ir_manifest t))"
      by (auto simp: imageStartOk_def)
    have len: "int (length b) = im_byteCount (ir_manifest t)"
      using bufferOk_assemble(2) a unfolding liveInv_def sameTransfer_def by metis
    have "reassemblyTerminal (snd ?q)"
      using a(2) abortImage_live by (auto simp: receiveImageFinish_def reassemblyTerminal_def clearImageChunks_def split: option.splits)
    moreover have "sameTransfer t (snd ?q)" using sameTransfer_trans [OF a(1)] by simp
    moreover have "fst ?q = ImCompleted b' m \<Longrightarrow> b' = b \<and> m = ir_manifest t \<and> digest b = Some (im_sha256 m)
        \<and> ir_phase (snd ?q) = PhaseCompleted" for b' m
      using a(1) by (auto simp: receiveImageFinish_def abortImage_def clearImageChunks_def sameTransfer_def split: option.splits if_splits)
    ultimately show thesis
      using Inr ImAwait len that [of "fst ?q" "snd ?q"] by (auto simp: receiveImageChunk_def)
  qed
qed

section \<open>The invariant of the registry\<close>

definition rememberedImages :: "ImageTransferReassemblyRegistry \<Rightarrow> int" where
  "rememberedImages r = case_option 16 id (imopt_maximumRememberedTransfers (irr_options r))"

definition activeImages :: "ImageTransferReassemblyRegistry \<Rightarrow> int" where
  "activeImages r = case_option 16 id (imopt_maximumActiveTransfers (irr_options r))"

definition looseInv :: "ImageTransferReassemblyRegistry \<Rightarrow> bool" where
  "looseInv r \<longleftrightarrow> succeeds (validateOptions (irr_options r)) \<and> wfMap (irr_active r) \<and> wfMap (irr_closed r)
     \<and> int (length (irr_active r)) \<le> activeImages r
     \<and> (\<forall>(p, t) \<in> set (irr_active r). (liveInv t \<or> reassemblyTerminal t) \<and> ir_peerId t = p)"

definition imageRegistryInv :: "ImageTransferReassemblyRegistry \<Rightarrow> bool" where
  "imageRegistryInv r \<longleftrightarrow> looseInv r \<and> int (length (irr_closed r)) \<le> rememberedImages r
     \<and> (\<forall>(p, t) \<in> set (irr_active r). liveInv t)"

definition staysActive :: "int \<Rightarrow> ImageTransferReassembly \<Rightarrow> bool" where
  "staysActive now t \<longleftrightarrow> \<not> reassemblyTerminal t \<and> now < im_expiresAt (ir_manifest t)"

lemma sweepTransfer_step:
  assumes "isSafeInteger now"
  shows "sweepTransfer now (p, t) (active, closed) =
    (if staysActive now t then (mapSet active p t, closed)
     else (mapDelete active p, mapSet closed (reassemblyKey t) (im_expiresAt (ir_manifest t))))"
  using assms
  by (auto simp: sweepTransfer_def expireReassembly_def checkImageExpired_def staysActive_def reassemblyTerminal_def
      clearImageChunks_def reassemblyKey_def Let_def)

lemma mapSet_same: "wfMap (kept @ (p, t) # rest) \<Longrightarrow> mapSet (kept @ (p, t) # rest) p t = kept @ (p, t) # rest"
  by (induction kept) (auto simp: mapHas_def)

lemma mapDelete_middle: "wfMap (kept @ (p, t) # rest) \<Longrightarrow> mapDelete (kept @ (p, t) # rest) p = kept @ rest"
  by (induction kept) (auto simp: mapHas_def)

lemma sweep_fold:
  assumes "isSafeInteger now" "wfMap (kept @ rest)"
  shows "fold (sweepTransfer now) rest (kept @ rest, closed) =
    (kept @ filter (\<lambda>(p, t). staysActive now t) rest,
     fold (\<lambda>(p, t) c. mapSet c (reassemblyKey t) (im_expiresAt (ir_manifest t))) (filter (\<lambda>(p, t). \<not> staysActive now t) rest) closed)"
  using assms(2)
proof (induction rest arbitrary: kept closed)
  case (Cons x rest)
  obtain p t where x: "x = (p, t)" by (cases x)
  show ?case
  proof (cases "staysActive now t")
    case True
    then show ?thesis
      using Cons.IH [of "kept @ [x]"] Cons.prems mapSet_same [of kept p t rest]
      by (simp add: x sweepTransfer_step [OF assms(1)])
  next
    case False
    have "wfMap (kept @ rest)" using Cons.prems by (auto simp: x wfMap_def)
    with False show ?thesis
      using Cons.IH [of kept] Cons.prems mapDelete_middle [of kept p t rest]
      by (simp add: x sweepTransfer_step [OF assms(1)])
  qed
qed simp

lemma sweepImages_Inr:
  assumes "looseInv r" "isSafeInteger now"
  shows "sweepImages r now = Inr (r\<lparr>irr_active := filter (\<lambda>(p, t). staysActive now t) (irr_active r),
    irr_closed := evictOldest (nat (rememberedImages r))
      (fold (\<lambda>(p, t) c. mapSet c (reassemblyKey t) (im_expiresAt (ir_manifest t)))
        (filter (\<lambda>(p, t). \<not> staysActive now t) (irr_active r)) (dropExpired (irr_closed r) now))\<rparr>)"
  using assms sweep_fold [of now "[]" "irr_active r"]
  by (simp add: sweepImages_def looseInv_def rememberedImages_def Let_def)

lemma wfMap_fold_mapSet: "wfMap c \<Longrightarrow> wfMap (fold (\<lambda>(p, t) c. mapSet c (f t) (g t)) xs c)"
  by (induction xs arbitrary: c) auto

lemma imageRegistryInv_sweep:
  assumes "looseInv r" "sweepImages r now = Inr r'"
  shows "imageRegistryInv r' \<and> irr_options r' = irr_options r
    \<and> irr_active r' = filter (\<lambda>(p, t). staysActive now t) (irr_active r)"
proof -
  have now: "isSafeInteger now" using assms(2) by (auto simp: sweepImages_def split: if_splits)
  define closed where "closed = fold (\<lambda>(p, t) c. mapSet c (reassemblyKey t) (im_expiresAt (ir_manifest t)))
        (filter (\<lambda>(p, t). \<not> staysActive now t) (irr_active r)) (dropExpired (irr_closed r) now)"
  have r': "r' = r\<lparr>irr_active := filter (\<lambda>(p, t). staysActive now t) (irr_active r),
      irr_closed := evictOldest (nat (rememberedImages r)) closed\<rparr>"
    using sweepImages_Inr [OF assms(1) now] assms(2) by (simp add: closed_def)
  have w: "wfMap closed" "wfMap (irr_active r)" "1 \<le> rememberedImages r"
    using assms(1) unfolding closed_def
    by (auto simp: looseInv_def intro!: wfMap_fold_mapSet) (auto simp: validateOptions_def rememberedImages_def succeeds_iff Let_def)
  define act where "act = filter (\<lambda>(p, t). staysActive now t) (irr_active r)"
  have "wfMap act" "length act \<le> length (irr_active r)"
    using w(2) by (simp_all add: act_def wfMap_def distinct_map_filter)
  moreover have "\<forall>(p, t) \<in> set act. liveInv t \<and> ir_peerId t = p"
    using assms(1) by (auto simp: act_def looseInv_def staysActive_def)
  moreover have "int (length (evictOldest (nat (rememberedImages r)) closed)) \<le> rememberedImages r"
    using length_evictOldest [OF w(1), of "nat (rememberedImages r)"] w(3) by simp
  ultimately show ?thesis
    using assms(1) w(1) unfolding r' act_def [symmetric]
    by (auto simp: imageRegistryInv_def looseInv_def activeImages_def rememberedImages_def)
qed

lemma openReassembly_live:
  assumes "openReassembly p m options now = Inr t"
  shows "liveInv t \<and> ir_peerId t = p \<and> ir_manifest t = m \<and> now < im_expiresAt m \<and> ir_chunks t = []
    \<and> ir_maximumReorderChunks t = case_option 64 id (imopt_maximumReorderChunks options)"
proof -
  have "0 \<le> (case_option 64 id (imopt_maximumReorderChunks options) :: int)"
    using assms by (auto simp: openReassembly_def validateOptions_def res_simps Let_def)
  with assms bufferOk_empty show ?thesis
    by (auto simp: openReassembly_def res_simps newReassembly_def liveInv_def split: if_splits)
qed

lemma sweepImages_quiet:
  assumes "imageRegistryInv r" "isSafeInteger now" "\<forall>(p, t) \<in> set (irr_active r). staysActive now t"
  shows "sweepImages r now = Inr (r\<lparr>irr_closed := dropExpired (irr_closed r) now\<rparr>)"
proof -
  have inv: "looseInv r" "wfMap (irr_closed r)" "int (length (irr_closed r)) \<le> rememberedImages r"
    using assms(1) by (auto simp: imageRegistryInv_def looseInv_def)
  have f: "filter (\<lambda>(p, t). staysActive now t) (irr_active r) = irr_active r"
    "filter (\<lambda>(p, t). \<not> staysActive now t) (irr_active r) = []"
    using assms(3) by (auto simp: filter_id_conv filter_empty_conv)
  have "evictOldest (nat (rememberedImages r)) (dropExpired (irr_closed r) now) = dropExpired (irr_closed r) now"
    using inv length_dropExpired [OF inv(2), of now] by (intro evictOldest_id) auto
  then show ?thesis unfolding sweepImages_Inr [OF inv(1) assms(2)] f by simp
qed

lemma imageRegistryInv_open:
  assumes "looseInv r" "openImage r p m now = Inr (res, r')"
  shows "imageRegistryInv r'"
proof -
  from assms(2) obtain r1 where r1: "sweepImages r now = Inr r1" by (auto simp: openImage_def res_simps)
  note inv = imageRegistryInv_sweep [OF assms(1) r1]
  have opened: "imageRegistryInv (r1\<lparr>irr_active := mapSet (irr_active r1) p t\<rparr>)"
    if "openReassembly p m (irr_options r1) now = Inr t" "mapGet (irr_active r1) p = None"
      "\<not> int (length (irr_active r1)) \<ge> case_option 16 id (imopt_maximumActiveTransfers (irr_options r1))" for t
  proof -
    have "\<not> mapHas (irr_active r1) p" using that(2) by (simp add: mapHas_mapGet)
    with inv that(3) openReassembly_live [OF that(1)] show ?thesis
      by (auto simp: imageRegistryInv_def looseInv_def activeImages_def rememberedImages_def mapSet_new)
  qed
  show ?thesis
    using assms(2) r1 inv opened by (auto simp: openImage_def split: if_splits option.splits sum.splits)
qed

lemma looseInv_update:
  assumes "imageRegistryInv r" "mapGet (irr_active r) p = Some t" "sameTransfer t t'" "liveInv t' \<or> reassemblyTerminal t'"
  shows "looseInv (r\<lparr>irr_active := mapSet (irr_active r) p t'\<rparr>)"
proof -
  have w: "wfMap (irr_active r)" using assms(1) by (simp add: imageRegistryInv_def looseInv_def)
  have "(p, t) \<in> set (irr_active r)" using assms(2) mapGet_mem [OF w] by blast
  then have "ir_peerId t' = p" using assms(1,3) by (auto simp: imageRegistryInv_def looseInv_def sameTransfer_def)
  moreover have "length (mapSet (irr_active r) p t') = length (irr_active r)"
    using length_mapSet [OF w] assms(2) by (simp add: mapHas_mapGet)
  ultimately show ?thesis
    using assms(1,4) w by (auto simp: imageRegistryInv_def looseInv_def activeImages_def set_mapSet)
qed

lemma receiveImage_total:
  assumes "looseInv r" "isSafeInteger now"
  obtains res r' where "receiveImage digest r p c now = Inr (res, r')" "imageRegistryInv r'"
    "\<forall>(p, t) \<in> set (irr_active r'). staysActive now t"
    "\<forall>b m. res = ImCompleted b m \<longrightarrow> digest b = Some (im_sha256 m) \<and> int (length b) = im_byteCount m
      \<and> now < im_expiresAt m \<and> \<not> mapHas (irr_active r') p
      \<and> mapGet (irr_closed r') (imageTransferKey p m) = Some (im_expiresAt m)"
proof -
  obtain r1 where r1: "sweepImages r now = Inr r1" using sweepImages_Inr [OF assms] by blast
  note inv = imageRegistryInv_sweep [OF assms(1) r1]
  show thesis
  proof (cases "mapGet (irr_active r1) p")
    case None
    have "\<forall>(p, t) \<in> set (irr_active r1). staysActive now t" using inv by auto
    with None show thesis
      using r1 conjunct1 [OF inv] that [of "ImIgnored ImNoTransfer" r1] by (simp add: receiveImage_def)
  next
    case (Some t)
    have w: "wfMap (irr_active r1)" using conjunct1 [OF inv] by (simp add: imageRegistryInv_def looseInv_def)
    have mem: "(p, t) \<in> set (irr_active r1)" using Some mapGet_mem [OF w] by blast
    then have t: "liveInv t" "ir_peerId t = p" "staysActive now t"
      using inv by (auto simp: imageRegistryInv_def looseInv_def)
    obtain res t' where rt: "receiveImageChunk digest t c now = Inr (res, t')" "sameTransfer t t'" "liveInv t' \<or> reassemblyTerminal t'"
      "\<forall>b m. res = ImCompleted b m \<longrightarrow> m = ir_manifest t \<and> digest b = Some (im_sha256 m) \<and> int (length b) = im_byteCount m
        \<and> ir_phase t' = PhaseCompleted"
      by (rule receiveImageChunk_total [OF t(1)])
    define r2 where "r2 = r1\<lparr>irr_active := mapSet (irr_active r1) p t'\<rparr>"
    have loose: "looseInv r2" unfolding r2_def by (rule looseInv_update [OF _ Some rt(2,3)]) (use inv in blast)
    obtain r3 where r3: "sweepImages r2 now = Inr r3" using sweepImages_Inr [OF loose assms(2)] by blast
    note inv3 = imageRegistryInv_sweep [OF loose r3]
    have eq: "receiveImage digest r p c now = Inr (res, r3)"
      using r1 Some rt(1) r3 by (simp add: receiveImage_def r2_def)
    have "digest b = Some (im_sha256 m) \<and> int (length b) = im_byteCount m \<and> now < im_expiresAt m \<and> \<not> mapHas (irr_active r3) p
        \<and> mapGet (irr_closed r3) (imageTransferKey p m) = Some (im_expiresAt m)" if "res = ImCompleted b m" for b m
    proof -
      have m: "m = ir_manifest t" "ir_phase t' = PhaseCompleted" "digest b = Some (im_sha256 m)" "int (length b) = im_byteCount m"
        using rt(4) that by blast+
      have gone: "\<not> staysActive now t'" using m(2) by (simp add: staysActive_def reassemblyTerminal_def)
      have all: "\<forall>(p', u) \<in> set (irr_active r1). \<not> \<not> staysActive now u"
        using conjunct2 [OF conjunct2 [OF inv]] by auto
      have "mapHas (irr_active r1) p" using Some by (simp add: mapHas_mapGet)
      then have only: "filter (\<lambda>(p, t). \<not> staysActive now t) (irr_active r2) = [(p, t')]"
        unfolding r2_def using filter_mapSet_only [OF w _ all gone] by simp
      have left: "\<not> mapHas (irr_active r3) p"
      proof
        assume "mapHas (irr_active r3) p"
        then obtain u where u: "(p, u) \<in> set (irr_active r2)" "staysActive now u"
          unfolding conjunct2 [OF conjunct2 [OF inv3]] by (auto simp: mapHas_def)
        then have "u = t'" using w by (simp add: r2_def set_mapSet)
        with u gone show False by simp
      qed
      have c1: "wfMap (irr_closed r1)" "int (length (irr_closed r1)) \<le> rememberedImages r1" "1 \<le> rememberedImages r1"
        using conjunct1 [OF inv] by (auto simp: imageRegistryInv_def looseInv_def)
          (auto simp: validateOptions_def rememberedImages_def succeeds_iff Let_def)
      have "irr_closed r3 = evictOldest (nat (rememberedImages r1))
          (mapSet (dropExpired (irr_closed r1) now) (imageTransferKey p m) (im_expiresAt m))"
        using sweepImages_Inr [OF loose assms(2)] r3 only rt(2) t(2) m(1)
        by (auto simp: r2_def rememberedImages_def reassemblyKey_def sameTransfer_def)
      then have "mapGet (irr_closed r3) (imageTransferKey p m) = Some (im_expiresAt m)"
        using c1 length_dropExpired [OF c1(1), of now]
        by (auto intro!: mapGet_evictOldest_mapSet)
      moreover have "now < im_expiresAt m" using t(3) m(1) by (simp add: staysActive_def)
      ultimately show ?thesis using m left by blast
    qed
    moreover have "\<forall>(p, t) \<in> set (irr_active r3). staysActive now t" using inv3 by auto
    ultimately show thesis using that [OF eq conjunct1 [OF inv3]] by blast
  qed
qed

section \<open>Delivery\<close>

definition imageChunk :: "ImageTransferManifest \<Rightarrow> bytes \<Rightarrow> nat \<Rightarrow> ImageTransferChunk" where
  "imageChunk m buf i =
     \<lparr>ic_version = imageTransferVersion, ic_transferId = im_transferId m, ic_manifestId = im_manifestId m,
      ic_index = int i, ic_bytes = chunkAt buf (nat (im_chunkBytes m)) i\<rparr>"

fun receiveAllImages ::
  "(bytes \<Rightarrow> js_string option) \<Rightarrow> ImageTransferReassembly \<Rightarrow> ImageTransferChunk list \<Rightarrow> int
     \<Rightarrow> (ImageTransferReassemblyResult list \<times> ImageTransferReassembly) res" where
  "receiveAllImages digest t [] now = Inr ([], t)"
| "receiveAllImages digest t (c # cs) now =
     andThen (receiveImageChunk digest t c now) (\<lambda>(r, t').
     andThen (receiveAllImages digest t' cs now) (\<lambda>(rs, t''). Inr (r # rs, t'')))"

definition holdingImage :: "ImageTransferReassembly \<Rightarrow> ImageTransferManifest \<Rightarrow> bytes \<Rightarrow> nat list \<Rightarrow> bool" where
  "holdingImage t m buf arrived \<longleftrightarrow> liveInv t \<and> ir_manifest t = m \<and> int (length buf) = im_byteCount m
     \<and> ir_chunks t = arrivedChunks buf (im_chunkBytes m) arrived"

lemma imageManifest_sizes:
  assumes "validateImageTransferManifest m = Inr ()"
  shows "0 < im_chunkBytes m" "(im_chunkCount m - 1) * im_chunkBytes m < im_byteCount m"
    "im_byteCount m \<le> im_chunkCount m * im_chunkBytes m"
  using validateImageTransferManifest_facts(12,13,17) [OF assms] ceilDiv_bounds [of "im_chunkBytes m" "im_byteCount m"] by auto

lemma imageChunk_fits:
  assumes "holdingImage t m buf arrived" "int i < im_chunkCount m"
  shows "chunkFits (im_chunkCount m) (im_chunkBytes m) (int i) (chunkAt buf (nat (im_chunkBytes m)) i)"
    "validateImageTransferChunkForManifest (imageChunk m buf i) m = Inr ()"
proof -
  have v: "validateImageTransferManifest m = Inr ()" "int (length buf) = im_byteCount m"
    using assms(1) by (auto simp: holdingImage_def liveInv_def)
  note s = imageManifest_sizes [OF v(1)] and f = validateImageTransferManifest_facts [OF v(1)]
  show fits: "chunkFits (im_chunkCount m) (im_chunkBytes m) (int i) (chunkAt buf (nat (im_chunkBytes m)) i)"
    using chunkAt_lengths [OF s(1) _ assms(2), of buf] s(2) v(2) assms(2) by (auto simp: chunkFits_def)
  then have "length (chunkAt buf (nat (im_chunkBytes m)) i) \<le> 3072" using f(14) by (auto simp: chunkFits_def)
  with fits v(1) f(10,11,16) assms(2) show "validateImageTransferChunkForManifest (imageChunk m buf i) m = Inr ()"
    by (auto simp: validateImageTransferChunkForManifest_Inr imageChunk_def validateImageTransferChunk_def chunkFits_def
        maxImageTransferChunkBytes_def)
qed

lemma receiveImageStart_stores:
  assumes h: "holdingImage t m buf arrived" and i: "i \<notin> set arrived" "int i < im_chunkCount m"
    and win: "\<forall>j \<in> {..<i - nat (ir_maximumReorderChunks t)}. j \<in> set arrived"
    and now: "isSafeInteger now" "now < im_expiresAt m"
  defines "t' \<equiv> storeImageChunk t (int i) (chunkAt buf (nat (im_chunkBytes m)) i)"
  shows "receiveImageStart t (imageChunk m buf i) now = assembleImage t'" "holdingImage t' m buf (arrived @ [i])"
proof -
  have live: "liveInv t" "ir_manifest t = m" "ir_chunks t = arrivedChunks buf (im_chunkBytes m) arrived"
    using h by (auto simp: holdingImage_def)
  have new: "mapGet (ir_chunks t) (int i) = None" using i(1) by (simp add: live mapGet_arrivedChunks)
  have near: "int i - ir_nextMissingIndex t \<le> ir_maximumReorderChunks t"
    using live win by (intro windowOk_first) (auto simp: liveInv_def)
  have "checkImageExpired t now = (False, t)"
    using now live by (simp add: checkImageExpired_def liveInv_def)
  then show "receiveImageStart t (imageChunk m buf i) now = assembleImage t'"
    using imageChunk_fits(2) [OF h i(2)] new near live by (simp add: receiveImageStart_def t'_def) (simp add: imageChunk_def)
  have "liveInv t'"
    unfolding t'_def using imageChunk_fits(1) [OF h i(2)] new near live by (intro liveInv_store) simp_all
  then show "holdingImage t' m buf (arrived @ [i])"
    using h new by (simp add: holdingImage_def t'_def storeImageChunk_def Let_def mapSet_new mapHas_mapGet)
      (simp add: arrivedChunks_def)
qed

lemma assembleImage_complete:
  assumes h: "holdingImage t m buf arrived" and all: "distinct arrived" "set arrived = {..<nat (im_chunkCount m)}"
  shows "assembleImage t = Inr (ImAwait buf t)"
proof -
  have live: "liveInv t" "ir_manifest t = m" "int (length buf) = im_byteCount m"
    "ir_chunks t = arrivedChunks buf (im_chunkBytes m) arrived"
    using h by (auto simp: holdingImage_def)
  have v: "validateImageTransferManifest m = Inr ()" using live by (simp add: liveInv_def)
  note s = imageManifest_sizes [OF v] and f = validateImageTransferManifest_facts(15) [OF v]
  have "length arrived = nat (im_chunkCount m)" using all by (metis card_lessThan distinct_card)
  then have full: "int (length (ir_chunks t)) = im_chunkCount m" using f by (simp add: live arrivedChunks_def)
  have join: "joinChunks (ir_chunks t) (im_chunkCount m) = buf"
    unfolding live by (rule joinChunks_arrived) (use all s live in auto)
  have ok: "bufferOk (im_chunkCount m) (im_chunkBytes m) (ir_maximumReorderChunks t) (ir_chunks t) (ir_receivedBytes t) (ir_nextMissingIndex t)"
    using live by (simp add: liveInv_def)
  note a = bufferOk_assemble [OF ok full refl, unfolded join]
  then show ?thesis using full live by (simp add: assembleImage_def)
qed

lemma receiveAllImages_delivers:
  assumes "holdingImage t m buf arrived" "digest buf = Some (im_sha256 m)" "isSafeInteger now" "now < im_expiresAt m"
    and "distinct (arrived @ order)" "set (arrived @ order) = {..<nat (im_chunkCount m)}" "order \<noteq> []"
    and "windowOk (nat (ir_maximumReorderChunks t)) arrived order"
  shows "\<exists>t'. receiveAllImages digest t (map (imageChunk m buf) order) now
      = Inr (replicate (length order - 1) ImChunkStored @ [ImCompleted buf m], t') \<and> ir_phase t' = PhaseCompleted"
  using assms
proof (induction order arbitrary: t arrived)
  case (Cons i order)
  define t' where "t' = storeImageChunk t (int i) (chunkAt buf (nat (im_chunkBytes m)) i)"
  have i: "i \<notin> set arrived" "int i < im_chunkCount m" using Cons.prems(5,6) by auto
  have win: "\<forall>j \<in> {..<i - nat (ir_maximumReorderChunks t)}. j \<in> set arrived" using Cons.prems(8) by simp
  note start = receiveImageStart_stores [OF Cons.prems(1) i win Cons.prems(3,4), folded t'_def]
  have same: "ir_maximumReorderChunks t' = ir_maximumReorderChunks t" by (simp add: t'_def storeImageChunk_def Let_def)
  have t'm: "ir_manifest t' = m" using start(2) by (simp add: holdingImage_def)
  show ?case
  proof (cases "order = []")
    case True
    have "assembleImage t' = Inr (ImAwait buf t')"
      using Cons.prems(5,6) True by (intro assembleImage_complete [OF start(2)]) auto
    then show ?thesis
      using start(1) Cons.prems(2) True t'm
      by (simp add: receiveImageChunk_def receiveImageFinish_def clearImageChunks_def)
  next
    case False
    have "length (arrived @ i # order) = nat (im_chunkCount m)"
      using Cons.prems(5,6) by (metis card_lessThan distinct_card)
    moreover have "length (ir_chunks t') = length (arrived @ [i])"
      using start(2) by (simp add: holdingImage_def arrivedChunks_def)
    ultimately have "int (length (ir_chunks t')) \<noteq> im_chunkCount (ir_manifest t')"
      using False t'm by (cases order) auto
    then have step: "receiveImageChunk digest t (imageChunk m buf i) now = Inr (ImChunkStored, t')"
      using start by (simp add: receiveImageChunk_def assembleImage_def)
    obtain t'' where "receiveAllImages digest t' (map (imageChunk m buf) order) now
      = Inr (replicate (length order - 1) ImChunkStored @ [ImCompleted buf m], t'')" "ir_phase t'' = PhaseCompleted"
      using Cons.IH [OF start(2)] Cons.prems False same by auto
    then show ?thesis using step False by (cases order) simp_all
  qed
qed simp

lemma bufferOk_bytes:
  assumes "bufferOk count c window chunks received nxt" "0 \<le> c" "0 \<le> count"
  shows "received \<le> count * c"
proof -
  have ok: "wfMap chunks" "\<forall>(i, b) \<in> set chunks. chunkFits count c i b" "received = int (storedBytes chunks)"
    using assms(1) by (auto simp: bufferOk_def)
  have "length (map fst chunks) = card (fst ` set chunks)" using ok(1) by (metis distinct_card set_map wfMap_def)
  also have "\<dots> \<le> card {0..<count}" using ok(2) by (intro card_mono) (auto simp: chunkFits_def)
  finally have n: "int (length chunks) \<le> count" using assms(3) by simp
  have "int (storedBytes chunks) \<le> int (length chunks) * c"
    using ok(2) unfolding storedBytes_def by (induction chunks) (auto simp: chunkFits_def algebra_simps)
  also have "\<dots> \<le> count * c" using n assms(2) by (intro mult_right_mono) auto
  finally show ?thesis using ok(3) by simp
qed

lemma liveInv_memory:
  assumes "liveInv t"
  shows "ir_receivedBytes t < im_byteCount (ir_manifest t) + im_chunkBytes (ir_manifest t)"
proof -
  let ?m = "ir_manifest t"
  have v: "validateImageTransferManifest ?m = Inr ()" using assms by (simp add: liveInv_def)
  note s = imageManifest_sizes [OF v] and f = validateImageTransferManifest_facts(15) [OF v]
  have "ir_receivedBytes t \<le> im_chunkCount ?m * im_chunkBytes ?m"
    using assms s(1) f by (intro bufferOk_bytes) (auto simp: liveInv_def)
  with s(2) show ?thesis by (simp add: algebra_simps)
qed

section \<open>Sequences of operations\<close>

datatype imageOp =
    OpenImage js_string ImageTransferManifest int
  | ReceiveImage js_string ImageTransferChunk int
  | ExpireImages int
  | ClearImages

definition runImage :: "(bytes \<Rightarrow> js_string option) \<Rightarrow> imageOp \<Rightarrow> ImageTransferReassemblyRegistry \<Rightarrow> ImageTransferReassemblyRegistry" where
  "runImage digest op r = (case op of
      OpenImage p m now \<Rightarrow> (case openImage r p m now of Inl _ \<Rightarrow> r | Inr (_, r') \<Rightarrow> r')
    | ReceiveImage p c now \<Rightarrow> (case receiveImage digest r p c now of Inl _ \<Rightarrow> r | Inr (_, r') \<Rightarrow> r')
    | ExpireImages now \<Rightarrow> (case expireImages r now of Inl _ \<Rightarrow> r | Inr r' \<Rightarrow> r')
    | ClearImages \<Rightarrow> clearImages r)"

lemma imageRegistryInv_loose: "imageRegistryInv r \<Longrightarrow> looseInv r"
  by (simp add: imageRegistryInv_def)

lemma imageRegistryInv_receive:
  assumes "looseInv r" "receiveImage digest r p c now = Inr (res, r')"
  shows "imageRegistryInv r'"
proof -
  have "isSafeInteger now"
    using assms(2) by (auto simp: receiveImage_def sweepImages_def res_simps split: if_splits)
  from receiveImage_total [OF assms(1) this] assms(2) show ?thesis
    by (metis prod.inject sum.inject(2))
qed

lemma imageRegistryInv_clear: "looseInv r \<Longrightarrow> imageRegistryInv (clearImages r)"
  by (auto simp: imageRegistryInv_def looseInv_def clearImages_def rememberedImages_def activeImages_def validateOptions_def
      succeeds_iff Let_def)

interpretation image_registry: invariant_machine "runImage digest" imageRegistryInv
proof
  fix s op assume inv: "imageRegistryInv s"
  show "imageRegistryInv (runImage digest op s)"
    using inv imageRegistryInv_loose [OF inv] imageRegistryInv_sweep imageRegistryInv_clear
      imageRegistryInv_open imageRegistryInv_receive
    by (cases op) (auto simp: runImage_def expireImages_def split: sum.splits prod.splits)
qed

lemma newImageRegistry_inv: "newImageRegistry options = Inr r \<Longrightarrow> imageRegistryInv r"
  by (auto simp: newImageRegistry_def res_simps imageRegistryInv_def looseInv_def rememberedImages_def activeImages_def
      validateOptions_def Let_def)

section \<open>Properties\<close>

definition sampleImageOptions :: ImageTransferReassemblyOptions where
  "sampleImageOptions = \<lparr>imopt_maximumTransferBytes = None, imopt_maximumReorderChunks = None,
     imopt_maximumActiveTransfers = None, imopt_maximumRememberedTransfers = None\<rparr>"

definition sampleReassembly :: ImageTransferReassembly where
  "sampleReassembly = newReassembly (lit ''peer'') sampleImageManifest 64"

lemma openReassembly_sample: "openReassembly (lit ''peer'') sampleImageManifest sampleImageOptions 2000 = Inr sampleReassembly"
proof -
  have "validateImageTransferManifest sampleImageManifest = Inr ()"
    using goodImageManifest_facts(1) [OF goodImageManifest_sample] .
  moreover have "im_expiresAt sampleImageManifest = 61000" "im_byteCount sampleImageManifest = 300"
    by (simp_all add: sampleImageManifest_def)
  ultimately show ?thesis
    by (simp add: openReassembly_def validateOptions_def sampleImageOptions_def validPeerId_def sampleReassembly_def
        isSafeInteger_def maxSafeInteger_def maxImageDirectBytes_def maxImageTransferChunks_def Let_def)
qed





text \<open>
  Whatever sequence of offers, chunks, expiries and clears a new registry goes through, it holds at most
  sixteen reassemblies and sixty-four remembered keys, and each reassembly buffers less than its manifest's
  byte count plus one chunk.
\<close>

theorem image_registry_bounded:
  assumes "newImageRegistry options = Inr r0"
  shows "let r = fold (runImage digest) ops r0 in length (irr_active r) \<le> 16 \<and> length (irr_closed r) \<le> 64
    \<and> (\<forall>(p, t) \<in> set (irr_active r). ir_receivedBytes t < im_byteCount (ir_manifest t) + im_chunkBytes (ir_manifest t))"
proof -
  define r where "r = fold (runImage digest) ops r0"
  have inv: "imageRegistryInv r"
    unfolding r_def by (rule image_registry.inv_runs [OF newImageRegistry_inv [OF assms]])
  then have "length (irr_active r) \<le> 16" "length (irr_closed r) \<le> 64"
    by (auto simp: imageRegistryInv_def looseInv_def activeImages_def rememberedImages_def validateOptions_def succeeds_iff Let_def)
  moreover have "ir_receivedBytes t < im_byteCount (ir_manifest t) + im_chunkBytes (ir_manifest t)"
    if "(p, t) \<in> set (irr_active r)" for p t
    using inv that liveInv_memory by (auto simp: imageRegistryInv_def)
  ultimately show ?thesis unfolding r_def [symmetric] by (auto simp: Let_def)
qed

theorem image_registry_bounded_witness:
  "length (irr_active (fold (runImage (\<lambda>_. None)) [OpenImage (lit ''peer'') sampleImageManifest 2000]
      \<lparr>irr_options = sampleImageOptions, irr_active = [], irr_closed = []\<rparr>)) \<le> 16"
proof -
  have "newImageRegistry sampleImageOptions = Inr \<lparr>irr_options = sampleImageOptions, irr_active = [], irr_closed = []\<rparr>"
    by (simp add: newImageRegistry_def validateOptions_def sampleImageOptions_def isSafeInteger_def maxSafeInteger_def
        maxImageDirectBytes_def maxImageTransferChunks_def Let_def)
  from image_registry_bounded [OF this, of "\<lambda>_. None" "[OpenImage (lit ''peer'') sampleImageManifest 2000]"]
  show ?thesis by (simp add: Let_def)
qed

end
