(* ===== verification/ReplayWindow.thy ===== *)
theory ReplayWindow
  imports JsMap Base64Url
begin

text \<open>
  The bounded memories that recognise a message seen before: the delivery window
  (\<^verbatim>\<open>pwa/connectivity/delivery-dedup-window.ts\<close>) and the ledger of ciphertext admissions
  (\<^verbatim>\<open>pwa/connectivity/rtc-admission-ledger.ts\<close>, its \<^verbatim>\<open>reserve\<close> split at the
  \<^verbatim>\<open>await\<close> of the digest). The locale \<open>replay_memory\<close> is what they promise: a key is
  remembered until as many further messages as the memory has room for have passed.
\<close>

section \<open>Recent keys\<close>

text \<open>\<open>recentKey m k v j\<close>: the entry is in the map with at most \<open>j\<close> entries behind it.\<close>

definition recentKey :: "('k, 'v) js_map \<Rightarrow> 'k \<Rightarrow> 'v \<Rightarrow> nat \<Rightarrow> bool" where
  "recentKey m k v j \<longleftrightarrow> (\<exists>pre suf. m = pre @ (k, v) # suf \<and> length suf \<le> j)"

lemma recentKey_new: "\<not> mapHas m k \<Longrightarrow> recentKey (mapSet m k v) k v 0"
  unfolding recentKey_def by (auto simp: mapSet_new)

lemma recentKey_mono: "recentKey m k v i \<Longrightarrow> i \<le> j \<Longrightarrow> recentKey m k v j"
  unfolding recentKey_def using le_trans by blast

lemma recentKey_has: "recentKey m k v j \<Longrightarrow> mapHas m k"
  by (auto simp: recentKey_def mapHas_def)

lemma recentKey_get: "recentKey m k v j \<Longrightarrow> wfMap m \<Longrightarrow> mapGet m k = Some v"
  by (auto simp: recentKey_def mapGet_mem)

lemma mapSet_append: "mapSet (xs @ ys) k v = (if mapHas xs k then mapSet xs k v @ ys else xs @ mapSet ys k v)"
  by (induction xs) auto

lemma length_mapSet_le: "length (mapSet m k v) \<le> Suc (length m)"
  by (induction m k v rule: mapSet.induct) auto

lemma recentKey_mapSet:
  assumes "recentKey m k v j" "k' \<noteq> k"
  shows "recentKey (mapSet m k' v') k v (Suc j)"
proof -
  obtain pre suf where m: "m = pre @ (k, v) # suf" "length suf \<le> j" using assms(1) by (auto simp: recentKey_def)
  have "mapSet m k' v' = (if mapHas pre k' then mapSet pre k' v' @ (k, v) # suf else pre @ (k, v) # mapSet suf k' v')"
    using assms(2) by (auto simp: m(1) mapSet_append)
  moreover have "length (mapSet suf k' v') \<le> Suc j" using length_mapSet_le [of suf k' v'] m(2) by simp
  moreover have "length suf \<le> Suc j" using m(2) by simp
  ultimately show ?thesis unfolding recentKey_def by (cases "mapHas pre k'") auto
qed

lemma recentKey_mapSet_same:
  assumes "recentKey m k v j" "wfMap m"
  shows "recentKey (mapSet m k v') k v' j"
proof -
  obtain pre suf where m: "m = pre @ (k, v) # suf" "length suf \<le> j" using assms(1) by (auto simp: recentKey_def)
  then have "\<not> mapHas pre k" using assms(2) by (auto simp: wfMap_def mapHas_def)
  then have "mapSet m k v' = pre @ (k, v') # suf" by (simp add: m(1) mapSet_append)
  with m(2) show ?thesis unfolding recentKey_def by blast
qed

lemma recentKey_filter: "recentKey m k v j \<Longrightarrow> P (k, v) \<Longrightarrow> recentKey (filter P m) k v j"
proof -
  assume "recentKey m k v j" "P (k, v)"
  then obtain pre suf where "m = pre @ (k, v) # suf" "length suf \<le> j" by (auto simp: recentKey_def)
  then have "filter P m = filter P pre @ (k, v) # filter P suf" "length (filter P suf) \<le> j"
    using \<open>P (k, v)\<close> le_trans [OF length_filter_le, of suf j P] by simp_all
  then show ?thesis by (auto simp: recentKey_def)
qed

lemma recentKey_evict:
  assumes "recentKey m k v j" "wfMap m" "j < maximum"
  shows "recentKey (evictOldest maximum m) k v j"
proof -
  obtain pre suf where m: "m = pre @ (k, v) # suf" "length suf \<le> j" using assms(1) by (auto simp: recentKey_def)
  have "length m - maximum \<le> length pre" using m assms(3) by simp
  then have "drop (length m - maximum) m = drop (length m - maximum) pre @ (k, v) # suf" by (simp add: m(1))
  with m(2) assms(2) show ?thesis by (auto simp: recentKey_def evictOldest_drop)
qed

lemma recentKey_dropExpired: "recentKey m k e j \<Longrightarrow> wfMap m \<Longrightarrow> now < e \<Longrightarrow> recentKey (dropExpired m now) k e j"
  by (simp add: dropExpired_filter recentKey_filter)

section \<open>The contract\<close>

locale replay_memory =
  fixes run :: "'op \<Rightarrow> 'm \<Rightarrow> 'm" and holds :: "'m \<Rightarrow> 'k \<Rightarrow> bool" and recent :: "'m \<Rightarrow> 'k \<Rightarrow> nat \<Rightarrow> bool"
    and keeps :: "'op \<Rightarrow> 'k \<Rightarrow> bool" and room :: "'m \<Rightarrow> nat"
  assumes recent_holds: "recent m k j \<Longrightarrow> holds m k"
    and recent_run: "recent m k j \<Longrightarrow> keeps op k \<Longrightarrow> Suc j < room m \<Longrightarrow> recent (run op m) k (Suc j)"
    and room_run: "room (run op m) = room m"
begin

lemma recent_runs:
  "recent m k j \<Longrightarrow> \<forall>op \<in> set ops. keeps op k \<Longrightarrow> j + length ops < room m \<Longrightarrow> recent (fold run ops m) k (j + length ops)"
proof (induction ops arbitrary: m j)
  case (Cons op ops)
  have "recent (run op m) k (Suc j)" using Cons.prems by (intro recent_run) auto
  with Cons.IH [of "run op m" "Suc j"] Cons.prems show ?case by (simp add: room_run)
qed simp

lemma holds_runs:
  "recent m k j \<Longrightarrow> \<forall>op \<in> set ops. keeps op k \<Longrightarrow> j + length ops < room m \<Longrightarrow> holds (fold run ops m) k"
  using recent_runs recent_holds by blast

end

section \<open>The delivery window\<close>

definition incomingDeliveryDedupCapacity :: int where "incomingDeliveryDedupCapacity = 256"

record DeliveryDedupWindow =
  window_capacity :: int
  window_deliveryIds :: "(js_string, unit) js_map"

definition newDedupWindow :: "int \<Rightarrow> DeliveryDedupWindow res" where
  "newDedupWindow capacity =
     (if \<not> isSafeInteger capacity \<or> capacity < 1 then throw ''delivery dedup capacity must be a positive safe integer''
      else Inr \<lparr>window_capacity = capacity, window_deliveryIds = []\<rparr>)"

definition reserveDelivery :: "DeliveryDedupWindow \<Rightarrow> js_string \<Rightarrow> bool \<times> DeliveryDedupWindow" where
  "reserveDelivery w deliveryId =
     (if mapHas (window_deliveryIds w) deliveryId then (False, w)
      else
        let ids = mapSet (window_deliveryIds w) deliveryId () in
        (True, w\<lparr>window_deliveryIds :=
           if int (length ids) > window_capacity w
           then (case mapKeys ids of [] \<Rightarrow> ids | oldest # _ \<Rightarrow> mapDelete ids oldest)
           else ids\<rparr>))"

definition resetWindow :: "DeliveryDedupWindow \<Rightarrow> DeliveryDedupWindow" where
  "resetWindow w = w\<lparr>window_deliveryIds := []\<rparr>"

definition windowSize :: "DeliveryDedupWindow \<Rightarrow> nat" where
  "windowSize w = length (window_deliveryIds w)"

definition windowInv :: "DeliveryDedupWindow \<Rightarrow> bool" where
  "windowInv w \<longleftrightarrow> 1 \<le> window_capacity w \<and> wfMap (window_deliveryIds w) \<and> int (windowSize w) \<le> window_capacity w"

lemma reserveDelivery_new:
  assumes "windowInv w" "\<not> mapHas (window_deliveryIds w) d"
  shows "reserveDelivery w d =
    (True, w\<lparr>window_deliveryIds := evictOldest (nat (window_capacity w)) (mapSet (window_deliveryIds w) d ())\<rparr>)"
proof -
  define ids where "ids = mapSet (window_deliveryIds w) d ()"
  have wf: "wfMap ids" and len: "length ids = Suc (windowSize w)"
    using assms by (simp_all add: ids_def windowInv_def windowSize_def length_mapSet)
  then obtain k v rest where ids: "ids = (k, v) # rest" by (cases ids) auto
  have "(if int (length ids) > window_capacity w then (case mapKeys ids of [] \<Rightarrow> ids | oldest # _ \<Rightarrow> mapDelete ids oldest) else ids)
    = evictOldest (nat (window_capacity w)) ids"
  proof (cases "int (length ids) > window_capacity w")
    case True
    then have "length ids = Suc (nat (window_capacity w))" using len assms(1) by (auto simp: windowInv_def)
    then have "evictOldest (nat (window_capacity w)) ids = rest" using wf by (simp add: evictOldest_drop ids)
    with True wf show ?thesis by (simp add: mapKeys_def ids)
  next
    case False
    then show ?thesis using wf by (simp add: evictOldest_id)
  qed
  then show ?thesis using assms(2) by (simp add: reserveDelivery_def ids_def [symmetric] Let_def)
qed

lemma windowInv_reserve: "windowInv w \<Longrightarrow> windowInv (snd (reserveDelivery w d))"
proof (cases "mapHas (window_deliveryIds w) d")
  case False
  assume w: "windowInv w"
  then have "wfMap (mapSet (window_deliveryIds w) d ())" by (simp add: windowInv_def)
  from length_evictOldest [OF this, of "nat (window_capacity w)"] w
  have "int (length (evictOldest (nat (window_capacity w)) (mapSet (window_deliveryIds w) d ()))) \<le> window_capacity w"
    by (auto simp: windowInv_def)
  with w False show ?thesis by (simp add: reserveDelivery_new) (simp add: windowInv_def windowSize_def)
qed (simp add: reserveDelivery_def)

interpretation dedup_window: invariant_machine "\<lambda>d w. snd (reserveDelivery w d)" windowInv
  by unfold_locales (rule windowInv_reserve)

interpretation dedup_memory: replay_memory "\<lambda>d w. snd (reserveDelivery w d)"
  "\<lambda>w d. \<not> fst (reserveDelivery w d)" "\<lambda>w d j. windowInv w \<and> recentKey (window_deliveryIds w) d () j"
  "\<lambda>op d. True" "\<lambda>w. nat (window_capacity w)"
proof
  fix w d j assume r: "windowInv w \<and> recentKey (window_deliveryIds w) d () j"
  then have "mapHas (window_deliveryIds w) d" by (blast intro: recentKey_has)
  then show "\<not> fst (reserveDelivery w d)" by (simp add: reserveDelivery_def)
next
  fix w d j op assume r: "windowInv w \<and> recentKey (window_deliveryIds w) d () j" and room: "Suc j < nat (window_capacity w)"
  show "windowInv (snd (reserveDelivery w op)) \<and> recentKey (window_deliveryIds (snd (reserveDelivery w op))) d () (Suc j)"
  proof (cases "mapHas (window_deliveryIds w) op")
    case True
    then show ?thesis using r recentKey_mono [of "window_deliveryIds w" d "()" j "Suc j"] by (simp add: reserveDelivery_def)
  next
    case False
    then have "op \<noteq> d" using r recentKey_has by metis
    have "wfMap (mapSet (window_deliveryIds w) op ())" using r by (simp add: windowInv_def)
    with r room \<open>op \<noteq> d\<close> have "recentKey (evictOldest (nat (window_capacity w)) (mapSet (window_deliveryIds w) op ())) d () (Suc j)"
      by (intro recentKey_evict recentKey_mapSet) auto
    with r False show ?thesis using windowInv_reserve [of w op] by (simp add: reserveDelivery_new)
  qed
next
  fix w op show "nat (window_capacity (snd (reserveDelivery w op))) = nat (window_capacity w)"
    by (simp add: reserveDelivery_def Let_def)
qed

lemma reserved_recent:
  assumes "windowInv w" "fst (reserveDelivery w d)"
  shows "windowInv (snd (reserveDelivery w d)) \<and> recentKey (window_deliveryIds (snd (reserveDelivery w d))) d () 0"
proof -
  have new: "\<not> mapHas (window_deliveryIds w) d" using assms(2) by (auto simp: reserveDelivery_def)
  have "wfMap (mapSet (window_deliveryIds w) d ())" "0 < nat (window_capacity w)" using assms(1) by (simp_all add: windowInv_def)
  then have "recentKey (evictOldest (nat (window_capacity w)) (mapSet (window_deliveryIds w) d ())) d () 0"
    using new by (intro recentKey_evict recentKey_new) auto
  then show ?thesis using windowInv_reserve [OF assms(1), of d] by (simp add: reserveDelivery_new [OF assms(1) new])
qed

section \<open>The admission ledger\<close>

definition maxRTCAdmissionEntries :: int where "maxRTCAdmissionEntries = 32"

datatype RTCAdmissionReservation = AdmFirst | AdmDuplicateAdmitted | AdmDuplicatePending | AdmConflict

record AdmissionEntry =
  adm_ciphertextSHA256 :: js_string
  adm_expiresAt :: int
  adm_admitted :: bool

record RTCAdmissionLedger =
  ledger_maximumEntries :: int
  ledger_entries :: "(js_string, AdmissionEntry) js_map"

record admissionInput =
  adm_senderPeerId :: js_string
  adm_streamId :: int
  adm_deliveryId :: js_string
  adm_ciphertext :: bytes
  adm_until :: int
  adm_now :: int

definition newLedger :: "int \<Rightarrow> RTCAdmissionLedger res" where
  "newLedger maximumEntries =
     (if \<not> isSafeInteger maximumEntries \<or> maximumEntries < 1 \<or> maximumEntries > maxRTCAdmissionEntries
      then throw ''invalid rtc admission ledger capacity''
      else Inr \<lparr>ledger_maximumEntries = maximumEntries, ledger_entries = []\<rparr>)"

text \<open>\<^verbatim>\<open>String(n)\<close> of a non-negative integer.\<close>

fun decimalDigits :: "nat \<Rightarrow> js_string" where
  "decimalDigits n = (if n < 10 then [] else decimalDigits (n div 10)) @ [unitOf (48 + n mod 10)]"

declare decimalDigits.simps [simp del]

definition admissionKey :: "js_string \<Rightarrow> int \<Rightarrow> js_string \<Rightarrow> js_string res" where
  "admissionKey senderPeerId streamId deliveryId =
     (if length senderPeerId = 0 \<or> length deliveryId = 0 then throw ''invalid rtc admission key''
      else Inr (senderPeerId @ [0] @ (if streamId < 0 then lit ''-'' else []) @ decimalDigits (nat \<bar>streamId\<bar>) @ [0] @ deliveryId))"

definition pruneLedger :: "RTCAdmissionLedger \<Rightarrow> int \<Rightarrow> RTCAdmissionLedger" where
  "pruneLedger l now = l\<lparr>ledger_entries :=
     fold (\<lambda>(key, entry) acc. if adm_expiresAt entry \<le> now then mapDelete acc key else acc) (ledger_entries l) (ledger_entries l)\<rparr>"

text \<open>Up to the \<^verbatim>\<open>await\<close>: the result is the key the rest of the call works on.\<close>

definition reserveStart :: "RTCAdmissionLedger \<Rightarrow> admissionInput \<Rightarrow> js_string res \<times> RTCAdmissionLedger" where
  "reserveStart l input =
     (if \<not> isSafeInteger (adm_streamId input) \<or> adm_streamId input < 0 \<or> \<not> isSafeInteger (adm_until input)
         \<or> adm_until input \<le> adm_now input \<or> length (adm_ciphertext input) = 0
      then (throw ''invalid rtc admission reservation'', l)
      else (admissionKey (adm_senderPeerId input) (adm_streamId input) (adm_deliveryId input), pruneLedger l (adm_now input)))"

definition reserveFinish :: "RTCAdmissionLedger \<Rightarrow> js_string \<Rightarrow> js_string \<Rightarrow> int \<Rightarrow> RTCAdmissionReservation \<times> RTCAdmissionLedger" where
  "reserveFinish l key fingerprint expiresAt =
     (case mapGet (ledger_entries l) key of
        Some existing \<Rightarrow>
          (if adm_ciphertextSHA256 existing \<noteq> fingerprint then AdmConflict
           else if adm_admitted existing then AdmDuplicateAdmitted else AdmDuplicatePending, l)
      | None \<Rightarrow>
          (AdmFirst, l\<lparr>ledger_entries := mapSet (evictOldest (nat (ledger_maximumEntries l - 1)) (ledger_entries l)) key
             \<lparr>adm_ciphertextSHA256 = fingerprint, adm_expiresAt = expiresAt, adm_admitted = False\<rparr>\<rparr>))"

definition reserveAdmission :: "(bytes \<Rightarrow> bytes) \<Rightarrow> RTCAdmissionLedger \<Rightarrow> admissionInput
    \<Rightarrow> RTCAdmissionReservation res \<times> RTCAdmissionLedger" where
  "reserveAdmission sha256 l input =
     (case reserveStart l input of
        (Inl e, l') \<Rightarrow> (Inl e, l')
      | (Inr key, l') \<Rightarrow>
          (case reserveFinish l' key (encodeBase64URL (sha256 (adm_ciphertext input))) (adm_until input) of
             (r, l'') \<Rightarrow> (Inr r, l'')))"

definition admitDelivery :: "RTCAdmissionLedger \<Rightarrow> js_string \<Rightarrow> int \<Rightarrow> js_string \<Rightarrow> int \<Rightarrow> bool res \<times> RTCAdmissionLedger" where
  "admitDelivery l0 senderPeerId streamId deliveryId now =
     (let l = pruneLedger l0 now in
      case admissionKey senderPeerId streamId deliveryId of
        Inl e \<Rightarrow> (Inl e, l)
      | Inr key \<Rightarrow>
          (case mapGet (ledger_entries l) key of
             None \<Rightarrow> (Inr False, l)
           | Some entry \<Rightarrow>
               if adm_expiresAt entry \<le> now then (Inr False, l)
               else (Inr True, l\<lparr>ledger_entries := mapSet (ledger_entries l) key (entry\<lparr>adm_admitted := True\<rparr>)\<rparr>)))"

definition resetLedger :: "RTCAdmissionLedger \<Rightarrow> RTCAdmissionLedger" where
  "resetLedger l = l\<lparr>ledger_entries := []\<rparr>"

definition ledgerInv :: "RTCAdmissionLedger \<Rightarrow> bool" where
  "ledgerInv l \<longleftrightarrow> 1 \<le> ledger_maximumEntries l \<and> ledger_maximumEntries l \<le> 32 \<and> wfMap (ledger_entries l)
     \<and> int (length (ledger_entries l)) \<le> ledger_maximumEntries l"

lemma fold_delete_filter:
  assumes "wfMap m"
  shows "fold (\<lambda>(k, v) acc. if Q v then mapDelete acc k else acc) m m = filter (\<lambda>(k, v). \<not> Q v) m"
proof -
  let ?f = "\<lambda>(k, v) acc. if Q v then mapDelete acc k else acc"
  have "fold ?f rest (kept @ rest) = kept @ filter (\<lambda>(k, v). \<not> Q v) rest" if "wfMap (kept @ rest)" for kept rest
    using that
  proof (induction rest arbitrary: kept)
    case (Cons x rest)
    obtain k v where x: "x = (k, v)" by (cases x)
    have "\<not> mapHas kept k" "\<not> mapHas rest k" using Cons.prems by (auto simp: x wfMap_def mapHas_def)
    then have del: "mapDelete (kept @ x # rest) k = kept @ rest"
      by (simp add: x mapDelete_def mapHas_def) (metis (mono_tags, lifting) filter_id_conv image_eqI)
    have "wfMap (kept @ rest)" using Cons.prems by (auto simp: wfMap_def)
    then show ?case using Cons.IH [of kept] Cons.IH [of "kept @ [x]"] Cons.prems del by (simp add: x)
  qed simp
  from this [of "[]" m] assms show ?thesis by simp
qed

lemma pruneLedger_filter:
  "ledgerInv l \<Longrightarrow> pruneLedger l now = l\<lparr>ledger_entries := filter (\<lambda>(k, entry). \<not> adm_expiresAt entry \<le> now) (ledger_entries l)\<rparr>"
  by (simp add: pruneLedger_def ledgerInv_def fold_delete_filter)

lemma ledgerInv_prune: "ledgerInv l \<Longrightarrow> ledgerInv (pruneLedger l now)"
proof -
  assume l: "ledgerInv l"
  have "length (filter (\<lambda>(k, entry). \<not> adm_expiresAt entry \<le> now) (ledger_entries l)) \<le> length (ledger_entries l)" by simp
  then have "int (length (filter (\<lambda>(k, entry). \<not> adm_expiresAt entry \<le> now) (ledger_entries l))) \<le> ledger_maximumEntries l"
    using l unfolding ledgerInv_def by linarith
  with l show ?thesis
    by (simp add: pruneLedger_filter) (simp add: ledgerInv_def wfMap_def distinct_map_filter)
qed

lemma ledgerInv_finish: "ledgerInv l \<Longrightarrow> ledgerInv (snd (reserveFinish l key fp e))"
proof (cases "mapGet (ledger_entries l) key")
  case None
  assume l: "ledgerInv l"
  define old where "old = evictOldest (nat (ledger_maximumEntries l - 1)) (ledger_entries l)"
  have "wfMap old" "length old \<le> nat (ledger_maximumEntries l - 1)"
    using l length_evictOldest by (auto simp: old_def ledgerInv_def)
  then have "wfMap (mapSet old key v)" "int (length (mapSet old key v)) \<le> ledger_maximumEntries l" for v
    using l length_mapSet_le [of old key v] by (auto simp: ledgerInv_def)
  with None l show ?thesis by (simp add: reserveFinish_def old_def [symmetric]) (simp add: ledgerInv_def)
qed (simp add: reserveFinish_def)

lemma ledgerInv_start: "ledgerInv l \<Longrightarrow> ledgerInv (snd (reserveStart l input))"
  using ledgerInv_prune by (simp add: reserveStart_def)

lemma ledgerInv_admit: "ledgerInv l \<Longrightarrow> ledgerInv (snd (admitDelivery l p s d now))"
proof -
  assume "ledgerInv l"
  then have l: "ledgerInv (pruneLedger l now)" by (rule ledgerInv_prune)
  then have "ledgerInv (pruneLedger l now\<lparr>ledger_entries := mapSet (ledger_entries (pruneLedger l now)) key e\<rparr>)"
    if "mapGet (ledger_entries (pruneLedger l now)) key = Some x" for key e x
    using that by (simp add: ledgerInv_def length_mapSet mapHas_mapGet)
  with l show ?thesis by (simp add: admitDelivery_def Let_def split: sum.splits option.splits)
qed

text \<open>Any interleaving of calls is a sequence of these steps; \<open>LedgerFinish\<close> is what runs after an \<^verbatim>\<open>await\<close>.\<close>

datatype ledgerOp =
    LedgerStart admissionInput
  | LedgerFinish js_string js_string int
  | LedgerAdmit js_string int js_string int

fun runLedger :: "ledgerOp \<Rightarrow> RTCAdmissionLedger \<Rightarrow> RTCAdmissionLedger" where
  "runLedger (LedgerStart input) l = snd (reserveStart l input)"
| "runLedger (LedgerFinish key fingerprint expiresAt) l = snd (reserveFinish l key fingerprint expiresAt)"
| "runLedger (LedgerAdmit senderPeerId streamId deliveryId now) l = snd (admitDelivery l senderPeerId streamId deliveryId now)"

fun ledgerBefore :: "int \<Rightarrow> ledgerOp \<Rightarrow> bool" where
  "ledgerBefore e (LedgerStart input) = (adm_now input < e)"
| "ledgerBefore e (LedgerFinish key fingerprint expiresAt) = True"
| "ledgerBefore e (LedgerAdmit senderPeerId streamId deliveryId now) = (now < e)"

definition recentLedger :: "RTCAdmissionLedger \<Rightarrow> js_string \<times> int \<Rightarrow> nat \<Rightarrow> bool" where
  "recentLedger l ke j \<longleftrightarrow> ledgerInv l
     \<and> (\<exists>entry. adm_expiresAt entry = snd ke \<and> recentKey (ledger_entries l) (fst ke) entry j)"

lemma recentLedger_prune: "recentLedger l ke j \<Longrightarrow> now < snd ke \<Longrightarrow> recentLedger (pruneLedger l now) ke j"
proof -
  assume r: "recentLedger l ke j" "now < snd ke"
  then obtain entry where "adm_expiresAt entry = snd ke" "recentKey (ledger_entries l) (fst ke) entry j"
    by (auto simp: recentLedger_def)
  with r(2) have "recentKey (filter (\<lambda>(k, entry). \<not> adm_expiresAt entry \<le> now) (ledger_entries l)) (fst ke) entry j"
    by (intro recentKey_filter) auto
  with r \<open>adm_expiresAt entry = snd ke\<close> show ?thesis
    using ledgerInv_prune [of l now] by (auto simp: recentLedger_def pruneLedger_filter)
qed

lemma recentLedger_mono: "recentLedger l ke i \<Longrightarrow> i \<le> j \<Longrightarrow> recentLedger l ke j"
  using recentKey_mono unfolding recentLedger_def by metis

lemma recentLedger_finish:
  assumes r: "recentLedger l ke j" and room: "Suc j < nat (ledger_maximumEntries l)"
  shows "recentLedger (snd (reserveFinish l key fp e)) ke (Suc j)"
proof (cases "mapGet (ledger_entries l) key")
  case (Some x)
  then show ?thesis using recentLedger_mono [OF r] by (simp add: reserveFinish_def)
next
  case None
  obtain entry where entry: "adm_expiresAt entry = snd ke" "recentKey (ledger_entries l) (fst ke) entry j" and inv: "ledgerInv l"
    using r by (auto simp: recentLedger_def)
  have "key \<noteq> fst ke" using None recentKey_has [OF entry(2)] by (auto simp: mapHas_mapGet)
  moreover have "recentKey (evictOldest (nat (ledger_maximumEntries l - 1)) (ledger_entries l)) (fst ke) entry j"
    using entry(2) inv room by (intro recentKey_evict) (auto simp: ledgerInv_def)
  ultimately have "recentKey (ledger_entries (snd (reserveFinish l key fp e))) (fst ke) entry (Suc j)"
    using recentKey_mapSet by (simp add: reserveFinish_def None)
  with entry(1) ledgerInv_finish [OF inv] show ?thesis unfolding recentLedger_def by blast
qed

lemma recentLedger_admit:
  assumes r: "recentLedger l ke j" and now: "now < snd ke"
  shows "recentLedger (snd (admitDelivery l p s d now)) ke (Suc j)"
proof -
  define l' where "l' = pruneLedger l now"
  have r': "recentLedger l' ke j" unfolding l'_def by (rule recentLedger_prune [OF r now])
  then obtain entry where entry: "adm_expiresAt entry = snd ke" "recentKey (ledger_entries l') (fst ke) entry j"
    and inv: "wfMap (ledger_entries l')" by (auto simp: recentLedger_def ledgerInv_def)
  have set: "\<exists>entry'. adm_expiresAt entry' = snd ke \<and> recentKey (mapSet (ledger_entries l') key (x\<lparr>adm_admitted := True\<rparr>)) (fst ke) entry' (Suc j)"
    if "mapGet (ledger_entries l') key = Some x" for key x
  proof (cases "key = fst ke")
    case True
    then have "x = entry" using that recentKey_get [OF entry(2) inv] by simp
    have "recentKey (mapSet (ledger_entries l') (fst ke) (entry\<lparr>adm_admitted := True\<rparr>)) (fst ke) (entry\<lparr>adm_admitted := True\<rparr>) (Suc j)"
      by (rule recentKey_mono [OF recentKey_mapSet_same [OF entry(2) inv]]) simp
    with True \<open>x = entry\<close> entry(1) show ?thesis by (intro exI [of _ "entry\<lparr>adm_admitted := True\<rparr>"]) simp
  next
    case False
    then show ?thesis using recentKey_mapSet [OF entry(2)] entry(1) by blast
  qed
  have "ledgerInv (snd (admitDelivery l p s d now))" using r by (intro ledgerInv_admit) (simp add: recentLedger_def)
  moreover have "\<exists>entry'. adm_expiresAt entry' = snd ke \<and> recentKey (ledger_entries (snd (admitDelivery l p s d now))) (fst ke) entry' (Suc j)"
    using set entry recentKey_mono [OF entry(2), of "Suc j"]
    by (auto simp: admitDelivery_def l'_def [symmetric] Let_def split: sum.splits option.splits)
  ultimately show ?thesis by (simp add: recentLedger_def)
qed

interpretation ledger: invariant_machine runLedger ledgerInv
proof
  fix l op assume "ledgerInv l"
  then show "ledgerInv (runLedger op l)" by (cases op) (simp_all add: ledgerInv_start ledgerInv_finish ledgerInv_admit)
qed

interpretation ledger_memory: replay_memory runLedger
  "\<lambda>l ke. \<forall>fp e. fst (reserveFinish l (fst ke) fp e) \<noteq> AdmFirst" recentLedger "\<lambda>op ke. ledgerBefore (snd ke) op"
  "\<lambda>l. nat (ledger_maximumEntries l)"
proof
  fix l ke j assume "recentLedger l ke j"
  then obtain entry where "mapGet (ledger_entries l) (fst ke) = Some entry"
    unfolding recentLedger_def ledgerInv_def by (blast dest: recentKey_get)
  then show "\<forall>fp e. fst (reserveFinish l (fst ke) fp e) \<noteq> AdmFirst" by (simp add: reserveFinish_def)
next
  fix l ke j op assume r: "recentLedger l ke j" "ledgerBefore (snd ke) op" "Suc j < nat (ledger_maximumEntries l)"
  show "recentLedger (runLedger op l) ke (Suc j)"
  proof (cases op)
    case (LedgerStart input)
    with r show ?thesis
      using recentLedger_mono [OF r(1), of "Suc j"] recentLedger_mono [OF recentLedger_prune [OF r(1)], of _ "Suc j"]
      by (simp add: reserveStart_def)
  next
    case (LedgerFinish key fp e)
    with r show ?thesis by (simp add: recentLedger_finish)
  next
    case (LedgerAdmit p s d now)
    with r show ?thesis by (simp add: recentLedger_admit)
  qed
next
  fix l op show "nat (ledger_maximumEntries (runLedger op l)) = nat (ledger_maximumEntries l)"
    by (cases op) (simp_all add: reserveStart_def pruneLedger_def reserveFinish_def admitDelivery_def Let_def
        split: option.splits sum.splits)
qed

lemma first_recent:
  assumes "ledgerInv l" "fst (reserveFinish l key fp e) = AdmFirst"
  shows "recentLedger (snd (reserveFinish l key fp e)) (key, e) 0"
proof -
  have none: "mapGet (ledger_entries l) key = None" using assms(2) by (auto simp: reserveFinish_def split: option.splits if_splits)
  define old where "old = evictOldest (nat (ledger_maximumEntries l - 1)) (ledger_entries l)"
  have "set old \<subseteq> set (ledger_entries l)" using assms(1) by (auto simp: old_def ledgerInv_def evictOldest_drop dest: in_set_dropD)
  then have "\<not> mapHas old key" using none by (auto simp: mapGet_def map_of_eq_None_iff mapHas_def)
  then have "recentKey (ledger_entries (snd (reserveFinish l key fp e))) key
      \<lparr>adm_ciphertextSHA256 = fp, adm_expiresAt = e, adm_admitted = False\<rparr> 0"
    using recentKey_new [of old key] by (simp add: reserveFinish_def none old_def [symmetric])
  with ledgerInv_finish [OF assms(1), of key fp e] show ?thesis
    unfolding recentLedger_def by (intro conjI exI [of _ "\<lparr>adm_ciphertextSHA256 = fp, adm_expiresAt = e, adm_admitted = False\<rparr>"]) simp_all
qed

section \<open>Properties\<close>

text \<open>
  A delivery identifier that was reserved is refused until the window has taken in as many further
  identifiers as it has room for, however the other reservations repeat.
\<close>

theorem dedup_window_refuses:
  assumes "windowInv w" "fst (reserveDelivery w d)" "1 + length ds \<le> nat (window_capacity w)"
  shows "\<not> fst (reserveDelivery (fold (\<lambda>d w. snd (reserveDelivery w d)) ds (snd (reserveDelivery w d))) d)"
proof -
  have "window_capacity (snd (reserveDelivery w d)) = window_capacity w" by (simp add: reserveDelivery_def Let_def)
  with dedup_memory.holds_runs [OF reserved_recent [OF assms(1,2)], of ds] assms(3) show ?thesis by simp
qed

theorem dedup_window_refuses_witness:
  "\<not> fst (reserveDelivery (snd (reserveDelivery (snd (reserveDelivery \<lparr>window_capacity = 2, window_deliveryIds = []\<rparr> (lit ''a'')))
      (lit ''b''))) (lit ''a''))"
  using dedup_window_refuses [of "\<lparr>window_capacity = 2, window_deliveryIds = []\<rparr>" "lit ''a''" "[lit ''b'']"]
  by (simp add: windowInv_def windowSize_def reserveDelivery_def)

text \<open>
  C22. At most one reservation of a delivery is the first: once the ledger answered so, every later
  reservation under the same key, however the calls interleave with the digests they await, is a duplicate
  or a conflict, until the entry expires or as many steps as the ledger has entries have passed.
\<close>

theorem ledger_first_once:
  assumes "ledgerInv l" "fst (reserveFinish l key fp e) = AdmFirst" "\<forall>op \<in> set ops. ledgerBefore e op"
    and "1 + length ops \<le> nat (ledger_maximumEntries l)"
  shows "fst (reserveFinish (fold runLedger ops (snd (reserveFinish l key fp e))) key fp' e') \<noteq> AdmFirst"
proof -
  have "ledger_maximumEntries (snd (reserveFinish l key fp e)) = ledger_maximumEntries l"
    by (simp add: reserveFinish_def split: option.splits)
  with ledger_memory.holds_runs [OF first_recent [OF assms(1,2)], of ops] assms(3,4) show ?thesis by simp
qed

theorem ledger_first_once_witness:
  "fst (reserveFinish (runLedger (LedgerFinish (lit ''other'') (lit ''y'') 9)
      (snd (reserveFinish \<lparr>ledger_maximumEntries = 2, ledger_entries = []\<rparr> (lit ''key'') (lit ''x'') 9))) (lit ''key'') (lit ''z'') 9)
    \<noteq> AdmFirst"
  using ledger_first_once [of "\<lparr>ledger_maximumEntries = 2, ledger_entries = []\<rparr>" "lit ''key''" "lit ''x''" 9
      "[LedgerFinish (lit ''other'') (lit ''y'') 9]" "lit ''z''" 9]
  by (simp add: ledgerInv_def reserveFinish_def mapGet_def)

end
