(* ===== verification/AppStore.thy ===== *)
theory AppStore
  imports ApplicationPayload ReplayWindow
begin

text \<open>
  The state of the web application (\<^verbatim>\<open>pwa/src/state\<close>): one record for the combined store of
  \<^verbatim>\<open>store.ts\<close>, restricted to the slices that hold conversations, contacts, work lists and
  projections. A \<^verbatim>\<open>Record<string, T>\<close> is an insertion-ordered map: spreading it and setting one
  key is \<open>mapSet\<close>, taking a key out by destructuring is \<open>mapDelete\<close>. (A JavaScript object
  orders keys that are array indices first; the keys here are UUIDs and base64url identifiers.) Each
  operation returns the new store; the calls into IndexedDB that follow it are not part of the model.
\<close>

section \<open>Data\<close>

datatype MessageDeliveryState = Pending | Relayed | MsgDelivered | MsgRead | Received | Unavailable
datatype MessageDirection = Outgoing | Incoming | Service

record MessageSummary =
  msg_messageId :: js_string
  msg_contactId :: js_string
  msg_direction :: MessageDirection
  msg_body :: js_string
  msg_sentAt :: int
  msg_deliveryState :: MessageDeliveryState
  msg_applicationMessageId :: "js_string option"
  msg_replyToMessageId :: "js_string option"

record ContactSummary =
  contact_contactId :: js_string
  contact_displayName :: js_string
  contact_peerId :: "js_string option"
  contact_hpkePublicKey :: "js_string option"
  contact_lastRouteHint :: "js_string option"

record IncomingMessageRequest =
  req_requestId :: js_string
  req_senderPeerId :: js_string
  req_senderHpkePublicKey :: js_string
  req_senderDisplayName :: js_string
  req_body :: js_string
  req_receivedAt :: int

record StoredOutboxEntry =
  ob_messageId :: js_string
  ob_contactId :: js_string
  ob_applicationMessageId :: js_string
  ob_createdAt :: int
  ob_nextAttemptAt :: int
  ob_attempts :: int
  ob_lastDeliveryId :: "js_string option"
  ob_deliveredAt :: "int option"

record StoredReadReceiptEntry =
  rr_targetDeliveryId :: js_string
  rr_contactId :: js_string
  rr_readAt :: int
  rr_receiptPending :: bool

record ImageMessageProjection =
  proj_messageId :: js_string
  proj_contactId :: js_string
  proj_direction :: MessageDirection
  proj_sentAt :: int
  proj_mediaType :: js_string
  proj_byteCount :: int
  proj_width :: int
  proj_height :: int
  proj_caption :: "js_string option"
  proj_replyToMessageId :: "js_string option"

record CompletedAttachment =
  done_peerId :: js_string
  done_transferId :: js_string
  done_fileName :: js_string
  done_mediaType :: js_string
  done_byteCount :: int
  done_expiresAt :: int
  done_completedAt :: int

record ContactFolder =
  folder_folderId :: js_string
  folder_name :: js_string
  folder_createdAt :: int

record AppStore =
  st_contacts :: "ContactSummary list"
  st_selectedContactId :: "js_string option"
  st_messagesByContactId :: "(js_string, MessageSummary list) js_map"
  st_incomingMessageRequests :: "IncomingMessageRequest list"
  st_outbox :: "StoredOutboxEntry list"
  st_readReceiptOutbox :: "StoredReadReceiptEntry list"
  st_lastReadAtByContactId :: "(js_string, int) js_map"
  st_typingExpiresAtByContactId :: "(js_string, int) js_map"
  st_imageMessageProjectionsById :: "(js_string, ImageMessageProjection) js_map"
  st_completedAttachmentsByPeerId :: "(js_string, CompletedAttachment) js_map"
  st_contactFolders :: "ContactFolder list"
  st_contactFolderIdByContactId :: "(js_string, js_string) js_map"

definition maxConversationTimelineEntries :: nat where "maxConversationTimelineEntries = 192"
definition maxIncomingMessageRequests :: nat where "maxIncomingMessageRequests = 50"
definition maxStoredOutboxEntries :: nat where "maxStoredOutboxEntries = 128"
definition maxStoredReadReceiptEntries :: nat where "maxStoredReadReceiptEntries = 128"
definition maxLocalMessageActionCount :: nat where "maxLocalMessageActionCount = 128"
definition maxTypingContacts :: nat where "maxTypingContacts = 64"
definition maxImageMessageProjections :: nat where "maxImageMessageProjections = 256"
definition maxContactFolders :: nat where "maxContactFolders = 32"
definition maxContactFolderNameLength :: nat where "maxContactFolderNameLength = 48"

definition initialStore :: AppStore where
  "initialStore = \<lparr>st_contacts = [], st_selectedContactId = None, st_messagesByContactId = [],
     st_incomingMessageRequests = [], st_outbox = [], st_readReceiptOutbox = [], st_lastReadAtByContactId = [],
     st_typingExpiresAtByContactId = [], st_imageMessageProjectionsById = [], st_completedAttachmentsByPeerId = [],
     st_contactFolders = [], st_contactFolderIdByContactId = []\<rparr>"

section \<open>Array helpers\<close>

text \<open>\<^verbatim>\<open>xs.slice(-n)\<close> for positive \<open>n\<close>\<close>

definition sliceLast :: "nat \<Rightarrow> 'a list \<Rightarrow> 'a list" where
  "sliceLast n xs = drop (length xs - n) xs"

text \<open>\<^verbatim>\<open>[...new Set(xs)]\<close>\<close>

fun uniqueFrom :: "'a list \<Rightarrow> 'a list \<Rightarrow> 'a list" where
  "uniqueFrom seen [] = []"
| "uniqueFrom seen (x # xs) = (if x \<in> set seen then uniqueFrom seen xs else x # uniqueFrom (x # seen) xs)"

abbreviation unique :: "'a list \<Rightarrow> 'a list" where
  "unique xs \<equiv> uniqueFrom [] xs"

definition boundedBytes :: "js_string \<Rightarrow> nat \<Rightarrow> bool" where
  "boundedBytes value maximumBytes \<longleftrightarrow> length value > 0 \<and> length (textEncode value) \<le> maximumBytes"

lemma length_sliceLast [simp]: "length (sliceLast n xs) = min n (length xs)"
  by (simp add: sliceLast_def)

lemma set_sliceLast: "set (sliceLast n xs) \<subseteq> set xs"
  by (auto simp: sliceLast_def dest: in_set_dropD)

lemma sliceLast_id: "length xs \<le> n \<Longrightarrow> sliceLast n xs = xs"
  by (simp add: sliceLast_def)

lemma set_uniqueFrom: "set (uniqueFrom seen xs) = set xs - set seen"
  by (induction seen xs rule: uniqueFrom.induct) auto

lemma distinct_uniqueFrom: "distinct (uniqueFrom seen xs)"
  by (induction seen xs rule: uniqueFrom.induct) (auto simp: set_uniqueFrom)

section \<open>Conversations\<close>

definition compareMessages :: "MessageSummary \<Rightarrow> MessageSummary \<Rightarrow> int" where
  "compareMessages l r =
     (if msg_sentAt l \<noteq> msg_sentAt r then msg_sentAt l - msg_sentAt r
      else if msg_messageId l < msg_messageId r then -1
      else if msg_messageId l > msg_messageId r then 1 else 0)"

definition orderConversationMessages :: "MessageSummary list \<Rightarrow> MessageSummary list" where
  "orderConversationMessages messages = js_sort compareMessages messages"

definition conversation :: "AppStore \<Rightarrow> js_string \<Rightarrow> MessageSummary list" where
  "conversation s contactId = (case mapGet (st_messagesByContactId s) contactId of None \<Rightarrow> [] | Some ms \<Rightarrow> ms)"

definition appendMessage :: "MessageSummary \<Rightarrow> AppStore \<Rightarrow> AppStore" where
  "appendMessage message s = s\<lparr>st_messagesByContactId :=
     mapSet (st_messagesByContactId s) (msg_contactId message)
       (sliceLast maxConversationTimelineEntries (orderConversationMessages
         (filter (\<lambda>existing. msg_messageId existing \<noteq> msg_messageId message) (conversation s (msg_contactId message))
           @ [message])))\<rparr>"

definition replaceConversationWindow :: "js_string \<Rightarrow> MessageSummary list \<Rightarrow> AppStore \<Rightarrow> AppStore" where
  "replaceConversationWindow contactId messages s =
     (let bounded = sliceLast maxConversationTimelineEntries
        (filter (\<lambda>message. msg_contactId message = contactId) (orderConversationMessages messages))
      in s\<lparr>st_messagesByContactId := mapSet (st_messagesByContactId s) contactId bounded\<rparr>)"

definition retryUnavailableMessage :: "js_string \<Rightarrow> js_string \<Rightarrow> MessageSummary \<Rightarrow> AppStore \<Rightarrow> bool \<times> AppStore" where
  "retryUnavailableMessage contactId previousMessageId replacement s =
     (if msg_messageId replacement = previousMessageId \<or> msg_contactId replacement \<noteq> contactId
         \<or> msg_direction replacement \<noteq> Outgoing \<or> msg_deliveryState replacement \<noteq> Pending
      then (False, s)
      else
        case mapGet (st_messagesByContactId s) contactId of
          None \<Rightarrow> (False, s)
        | Some existing \<Rightarrow>
            let hit = (\<lambda>message. msg_messageId message = previousMessageId \<and> msg_direction message = Outgoing
                  \<and> msg_deliveryState message = Unavailable);
                nxt = map (\<lambda>message. if hit message then replacement else message) existing;
                replaced = (\<exists>message \<in> set existing. hit message)
            in if replaced
               then (True, s\<lparr>st_messagesByContactId :=
                      mapSet (st_messagesByContactId s) contactId (orderConversationMessages nxt)\<rparr>)
               else (False, s))"

fun canAdvanceDeliveryState :: "MessageDeliveryState \<Rightarrow> MessageDeliveryState \<Rightarrow> bool" where
  "canAdvanceDeliveryState Pending nxt = (nxt = Relayed \<or> nxt = Unavailable)"
| "canAdvanceDeliveryState Relayed nxt = (nxt = MsgDelivered)"
| "canAdvanceDeliveryState Unavailable nxt = (nxt = MsgDelivered)"
| "canAdvanceDeliveryState MsgDelivered nxt = (nxt = MsgRead)"
| "canAdvanceDeliveryState MsgRead nxt = False"
| "canAdvanceDeliveryState Received nxt = False"

definition advanceMessage :: "js_string \<Rightarrow> MessageDeliveryState \<Rightarrow> MessageSummary \<Rightarrow> MessageSummary" where
  "advanceMessage messageId deliveryState message =
     (if msg_messageId message \<noteq> messageId \<or> msg_direction message \<noteq> Outgoing
         \<or> \<not> canAdvanceDeliveryState (msg_deliveryState message) deliveryState
      then message else message\<lparr>msg_deliveryState := deliveryState\<rparr>)"

text \<open>The store is left alone when no message takes the transition, which is when nothing would change.\<close>

definition setMessageDeliveryState :: "js_string \<Rightarrow> js_string \<Rightarrow> MessageDeliveryState \<Rightarrow> AppStore \<Rightarrow> AppStore" where
  "setMessageDeliveryState contactId messageId deliveryState s =
     (case mapGet (st_messagesByContactId s) contactId of
        None \<Rightarrow> s
      | Some existing \<Rightarrow>
          if \<not> (\<exists>message \<in> set existing. msg_messageId message = messageId \<and> msg_direction message = Outgoing
                  \<and> canAdvanceDeliveryState (msg_deliveryState message) deliveryState)
          then s
          else s\<lparr>st_messagesByContactId :=
            mapSet (st_messagesByContactId s) contactId (map (advanceMessage messageId deliveryState) existing)\<rparr>)"

fun groupInto :: "(js_string, MessageSummary list) js_map \<Rightarrow> MessageSummary list \<Rightarrow> (js_string, MessageSummary list) js_map" where
  "groupInto grouped [] = grouped"
| "groupInto grouped (message # messages) =
     groupInto (mapSet grouped (msg_contactId message)
       ((case mapGet grouped (msg_contactId message) of None \<Rightarrow> [] | Some bucket \<Rightarrow> bucket) @ [message])) messages"

definition groupMessagesByContactId :: "MessageSummary list \<Rightarrow> (js_string, MessageSummary list) js_map" where
  "groupMessagesByContactId messages =
     map (\<lambda>(contactId, bucket). (contactId, orderConversationMessages bucket)) (groupInto [] messages)"

section \<open>Image projections\<close>

definition optionalMessageId :: "js_string option \<Rightarrow> bool" where
  "optionalMessageId value = (case value of None \<Rightarrow> True
     | Some v \<Rightarrow> length v = 22 \<and> base64URLPattern v)"

definition validImageMessageMediaType :: "js_string \<Rightarrow> bool" where
  "validImageMessageMediaType value \<longleftrightarrow> value = lit ''image/jpeg'' \<or> value = lit ''image/png'' \<or> value = lit ''image/webp''"

definition validTimestamp :: "int \<Rightarrow> bool" where
  "validTimestamp value \<longleftrightarrow> isSafeInteger value \<and> value \<ge> 0"

definition positiveSafeInteger :: "int \<Rightarrow> bool" where
  "positiveSafeInteger value \<longleftrightarrow> isSafeInteger value \<and> value > 0"

text \<open>\<^verbatim>\<open>width <= Number.MAX_SAFE_INTEGER / height\<close> on positive integers is a bound on the product.\<close>

definition validImageMessageProjection :: "ImageMessageProjection \<Rightarrow> bool" where
  "validImageMessageProjection p \<longleftrightarrow> boundedBytes (proj_messageId p) 128 \<and> boundedBytes (proj_contactId p) 128
     \<and> (proj_direction p = Incoming \<or> proj_direction p = Outgoing)
     \<and> validTimestamp (proj_sentAt p) \<and> validImageMessageMediaType (proj_mediaType p)
     \<and> positiveSafeInteger (proj_byteCount p) \<and> positiveSafeInteger (proj_width p) \<and> positiveSafeInteger (proj_height p)
     \<and> optionalMessageId (proj_replyToMessageId p)
     \<and> proj_width p * proj_height p \<le> maxSafeInteger"

definition removeImageMessageProjections :: "js_string list \<Rightarrow> AppStore \<Rightarrow> AppStore" where
  "removeImageMessageProjections messageIds s =
     (let wanted = take maxImageMessageProjections (filter (\<lambda>messageId. boundedBytes messageId 128) messageIds) in
      if wanted = [] then s
      else s\<lparr>st_imageMessageProjectionsById :=
        filter (\<lambda>(messageId, projection). messageId \<notin> set wanted) (st_imageMessageProjectionsById s)\<rparr>)"

definition clearImageMessageProjectionsForContact :: "js_string \<Rightarrow> AppStore \<Rightarrow> AppStore" where
  "clearImageMessageProjectionsForContact contactId s =
     (if \<not> boundedBytes contactId 128 then s
      else s\<lparr>st_imageMessageProjectionsById :=
        filter (\<lambda>(messageId, projection). proj_contactId projection \<noteq> contactId) (st_imageMessageProjectionsById s)\<rparr>)"

fun hydrateProjections :: "(js_string, ImageMessageProjection) js_map \<Rightarrow> ImageMessageProjection list
    \<Rightarrow> (js_string, ImageMessageProjection) js_map" where
  "hydrateProjections nxt [] = nxt"
| "hydrateProjections nxt (p # ps) =
     (if \<not> validImageMessageProjection p \<or> mapHas nxt (proj_messageId p) then hydrateProjections nxt ps
      else if length nxt \<ge> maxImageMessageProjections then nxt
      else hydrateProjections (mapSet nxt (proj_messageId p) p) ps)"

definition hydrateImageMessageProjections :: "ImageMessageProjection list \<Rightarrow> AppStore \<Rightarrow> AppStore" where
  "hydrateImageMessageProjections projections s = s\<lparr>st_imageMessageProjectionsById := hydrateProjections [] projections\<rparr>"

text \<open>\<^verbatim>\<open>localeCompare\<close> depends on the host's collation and is an argument.\<close>

definition replaceImageMessageProjectionWindow ::
  "(js_string \<Rightarrow> js_string \<Rightarrow> int) \<Rightarrow> js_string \<Rightarrow> ImageMessageProjection list \<Rightarrow> AppStore \<Rightarrow> AppStore" where
  "replaceImageMessageProjectionWindow localeCompare contactId projections s =
     (if \<not> boundedBytes contactId 128 then s
      else
        let kept = filter (\<lambda>(messageId, p). proj_contactId p \<noteq> contactId) (st_imageMessageProjectionsById s);
            window = sliceLast maxConversationTimelineEntries (js_sort
              (\<lambda>l r. if proj_sentAt l - proj_sentAt r \<noteq> 0 then proj_sentAt l - proj_sentAt r
                     else localeCompare (proj_messageId l) (proj_messageId r))
              (filter (\<lambda>p. proj_contactId p = contactId \<and> validImageMessageProjection p) projections))
        in s\<lparr>st_imageMessageProjectionsById := fold (\<lambda>p nxt. mapSet nxt (proj_messageId p) p) window kept\<rparr>)"

definition stageImageMessageProjection :: "ImageMessageProjection \<Rightarrow> AppStore \<Rightarrow> bool \<times> AppStore" where
  "stageImageMessageProjection p s =
     (if \<not> validImageMessageProjection p then (False, s)
      else case mapGet (st_imageMessageProjectionsById s) (proj_messageId p) of
          Some existing \<Rightarrow> (existing = p, s)
        | None \<Rightarrow>
            if length (st_imageMessageProjectionsById s) \<ge> maxImageMessageProjections then (False, s)
            else (True, s\<lparr>st_imageMessageProjectionsById := mapSet (st_imageMessageProjectionsById s) (proj_messageId p) p\<rparr>))"

definition clearImageMessageProjections :: "AppStore \<Rightarrow> AppStore" where
  "clearImageMessageProjections s = s\<lparr>st_imageMessageProjectionsById := []\<rparr>"

section \<open>Local deletion\<close>

definition deleteMessagesLocally :: "js_string \<Rightarrow> js_string list \<Rightarrow> AppStore \<Rightarrow> MessageSummary list \<times> AppStore" where
  "deleteMessagesLocally contactId messageIds s =
     (let wanted = take maxLocalMessageActionCount (filter (\<lambda>messageId. messageId \<noteq> []) messageIds) in
      if wanted = [] then ([], s)
      else
        let deleted = filter (\<lambda>message. msg_messageId message \<in> set wanted) (conversation s contactId) in
        if deleted = [] then ([], s)
        else (deleted, removeImageMessageProjections (map msg_messageId deleted)
          (s\<lparr>st_messagesByContactId := mapSet (st_messagesByContactId s) contactId
               (filter (\<lambda>message. msg_messageId message \<notin> set wanted) (conversation s contactId)),
             st_outbox := filter (\<lambda>entry. ob_messageId entry \<notin> set wanted) (st_outbox s)\<rparr>)))"

definition clearLocalConversation :: "js_string \<Rightarrow> AppStore \<Rightarrow> AppStore" where
  "clearLocalConversation contactId s0 =
     (let s = clearImageMessageProjectionsForContact contactId s0 in
      s\<lparr>st_messagesByContactId := mapDelete (st_messagesByContactId s) contactId,
        st_outbox := filter (\<lambda>entry. ob_contactId entry \<noteq> contactId) (st_outbox s),
        st_readReceiptOutbox := filter (\<lambda>entry. rr_contactId entry \<noteq> contactId) (st_readReceiptOutbox s),
        st_lastReadAtByContactId := mapDelete (st_lastReadAtByContactId s) contactId,
        st_typingExpiresAtByContactId := mapDelete (st_typingExpiresAtByContactId s) contactId\<rparr>)"

section \<open>Folders\<close>

text \<open>\<^verbatim>\<open>normalize("NFC")\<close> is the argument \<open>nfc\<close>.\<close>

definition normalizeContactFolderName :: "(js_string \<Rightarrow> js_string) \<Rightarrow> js_string \<Rightarrow> js_string option" where
  "normalizeContactFolderName nfc value =
     (let normalized = trim (nfc value) in
      if length normalized \<ge> 1 \<and> length normalized \<le> maxContactFolderNameLength then Some normalized else None)"

record ContactFolderAssignment =
  assign_contactId :: js_string
  assign_folderId :: js_string

fun firstById :: "js_string list \<Rightarrow> ContactFolder list \<Rightarrow> ContactFolder list" where
  "firstById seen [] = []"
| "firstById seen (f # fs) =
     (if folder_folderId f \<in> set seen then firstById seen fs else f # firstById (folder_folderId f # seen) fs)"

definition hydrateContactFolders :: "ContactFolder list \<Rightarrow> ContactFolderAssignment list \<Rightarrow> AppStore \<Rightarrow> AppStore" where
  "hydrateContactFolders folders assignments s =
     (let acceptedFolders = take maxContactFolders (firstById [] folders);
          validFolderIds = map folder_folderId acceptedFolders;
          knownContactIds = map contact_contactId (st_contacts s)
      in s\<lparr>st_contactFolders := acceptedFolders,
           st_contactFolderIdByContactId := fold (\<lambda>a acc.
             if assign_contactId a \<in> set knownContactIds \<and> assign_folderId a \<in> set validFolderIds
             then mapSet acc (assign_contactId a) (assign_folderId a) else acc) assignments []\<rparr>)"

definition createContactFolder :: "(js_string \<Rightarrow> js_string) \<Rightarrow> js_string \<Rightarrow> js_string \<Rightarrow> int \<Rightarrow> AppStore \<Rightarrow> bool \<times> AppStore" where
  "createContactFolder nfc folderId name createdAt s =
     (case normalizeContactFolderName nfc name of
        None \<Rightarrow> (False, s)
      | Some normalizedName \<Rightarrow>
          if length (st_contactFolders s) \<ge> maxContactFolders
             \<or> (\<exists>folder \<in> set (st_contactFolders s). folder_folderId folder = folderId \<or> folder_name folder = normalizedName)
          then (False, s)
          else (True, s\<lparr>st_contactFolders := st_contactFolders s
            @ [\<lparr>folder_folderId = folderId, folder_name = normalizedName, folder_createdAt = createdAt\<rparr>]\<rparr>))"

definition renameContactFolder :: "(js_string \<Rightarrow> js_string) \<Rightarrow> js_string \<Rightarrow> js_string \<Rightarrow> AppStore \<Rightarrow> bool \<times> AppStore" where
  "renameContactFolder nfc folderId name s =
     (case normalizeContactFolderName nfc name of
        None \<Rightarrow> (False, s)
      | Some normalizedName \<Rightarrow>
          if \<exists>folder \<in> set (st_contactFolders s). folder_folderId folder \<noteq> folderId \<and> folder_name folder = normalizedName
          then (False, s)
          else case find (\<lambda>folder. folder_folderId folder = folderId) (st_contactFolders s) of
              None \<Rightarrow> (False, s)
            | Some current \<Rightarrow>
                (True, s\<lparr>st_contactFolders := map (\<lambda>folder. if folder_folderId folder = folderId
                   then current\<lparr>folder_name := normalizedName\<rparr> else folder) (st_contactFolders s)\<rparr>))"

definition deleteContactFolder :: "js_string \<Rightarrow> AppStore \<Rightarrow> AppStore" where
  "deleteContactFolder folderId s =
     s\<lparr>st_contactFolders := filter (\<lambda>folder. folder_folderId folder \<noteq> folderId) (st_contactFolders s),
       st_contactFolderIdByContactId := filter (\<lambda>(contactId, assigned). assigned \<noteq> folderId) (st_contactFolderIdByContactId s)\<rparr>"

definition assignContactFolder :: "js_string \<Rightarrow> js_string option \<Rightarrow> AppStore \<Rightarrow> bool \<times> AppStore" where
  "assignContactFolder contactId folderId s =
     (if \<not> (\<exists>contact \<in> set (st_contacts s). contact_contactId contact = contactId) then (False, s)
      else case folderId of
          None \<Rightarrow> (True, s\<lparr>st_contactFolderIdByContactId := mapDelete (st_contactFolderIdByContactId s) contactId\<rparr>)
        | Some f \<Rightarrow>
            if \<not> (\<exists>folder \<in> set (st_contactFolders s). folder_folderId folder = f) then (False, s)
            else (True, s\<lparr>st_contactFolderIdByContactId := mapSet (st_contactFolderIdByContactId s) contactId f\<rparr>))"

definition clearContactFolderAssignment :: "js_string \<Rightarrow> AppStore \<Rightarrow> AppStore" where
  "clearContactFolderAssignment contactId s =
     (if mapGet (st_contactFolderIdByContactId s) contactId = None then s
      else s\<lparr>st_contactFolderIdByContactId := mapDelete (st_contactFolderIdByContactId s) contactId\<rparr>)"

definition filterChatListByFolder :: "('e \<Rightarrow> js_string) \<Rightarrow> 'e list \<Rightarrow> js_string option \<Rightarrow> (js_string, js_string) js_map \<Rightarrow> 'e list" where
  "filterChatListByFolder contactIdOf entries folderId folderIdByContactId =
     (case folderId of None \<Rightarrow> entries
      | Some f \<Rightarrow> filter (\<lambda>entry. mapGet folderIdByContactId (contactIdOf entry) = Some f) entries)"

section \<open>Contacts\<close>

definition clearCompletedAttachmentProjection :: "js_string \<Rightarrow> AppStore \<Rightarrow> AppStore" where
  "clearCompletedAttachmentProjection peerId s =
     s\<lparr>st_completedAttachmentsByPeerId := mapDelete (st_completedAttachmentsByPeerId s) peerId\<rparr>"

definition setCompletedAttachmentProjection :: "CompletedAttachment \<Rightarrow> AppStore \<Rightarrow> AppStore" where
  "setCompletedAttachmentProjection attachment s =
     s\<lparr>st_completedAttachmentsByPeerId := mapSet (st_completedAttachmentsByPeerId s) (done_peerId attachment) attachment\<rparr>"

definition clearCompletedAttachmentProjections :: "AppStore \<Rightarrow> AppStore" where
  "clearCompletedAttachmentProjections s = s\<lparr>st_completedAttachmentsByPeerId := []\<rparr>"

definition upsertContact :: "ContactSummary \<Rightarrow> AppStore \<Rightarrow> AppStore" where
  "upsertContact contact s =
     s\<lparr>st_contacts := filter (\<lambda>existing. contact_contactId existing \<noteq> contact_contactId contact) (st_contacts s) @ [contact]\<rparr>"

definition forgetContact :: "js_string \<Rightarrow> AppStore \<Rightarrow> AppStore" where
  "forgetContact contactId s0 =
     (let s1 = (case find (\<lambda>existing. contact_contactId existing = contactId) (st_contacts s0) of
            None \<Rightarrow> s0
          | Some contact \<Rightarrow> (case contact_peerId contact of None \<Rightarrow> s0
              | Some peerId \<Rightarrow> clearCompletedAttachmentProjection peerId s0));
          s = clearImageMessageProjectionsForContact contactId (clearContactFolderAssignment contactId s1)
      in s\<lparr>st_contacts := filter (\<lambda>existing. contact_contactId existing \<noteq> contactId) (st_contacts s),
           st_selectedContactId := if st_selectedContactId s = Some contactId then None else st_selectedContactId s,
           st_outbox := filter (\<lambda>entry. ob_contactId entry \<noteq> contactId) (st_outbox s),
           st_readReceiptOutbox := filter (\<lambda>entry. rr_contactId entry \<noteq> contactId) (st_readReceiptOutbox s),
           st_messagesByContactId := mapDelete (st_messagesByContactId s) contactId,
           st_lastReadAtByContactId := mapDelete (st_lastReadAtByContactId s) contactId,
           st_typingExpiresAtByContactId := mapDelete (st_typingExpiresAtByContactId s) contactId\<rparr>)"

definition selectContact :: "js_string option \<Rightarrow> AppStore \<Rightarrow> AppStore" where
  "selectContact selectedContactId s = s\<lparr>st_selectedContactId := selectedContactId\<rparr>"

definition markContactRead :: "js_string \<Rightarrow> int \<Rightarrow> AppStore \<Rightarrow> AppStore" where
  "markContactRead contactId now s =
     s\<lparr>st_lastReadAtByContactId := mapSet (st_lastReadAtByContactId s) contactId now\<rparr>"

section \<open>Typing\<close>

text \<open>\<^verbatim>\<open>pairs.reduce((selected, candidate) => candidate[1] < selected[1] ? candidate : selected)\<close>\<close>

fun oldestPair :: "(js_string \<times> int) \<Rightarrow> (js_string \<times> int) list \<Rightarrow> js_string \<times> int" where
  "oldestPair selected [] = selected"
| "oldestPair selected (candidate # rest) = oldestPair (if snd candidate < snd selected then candidate else selected) rest"

definition boundedTyping :: "(js_string, int) js_map \<Rightarrow> (js_string, int) js_map" where
  "boundedTyping entries =
     (if length entries \<le> maxTypingContacts then entries
      else case entries of [] \<Rightarrow> entries | e # rest \<Rightarrow> mapDelete entries (fst (oldestPair e rest)))"

definition setContactTyping :: "js_string \<Rightarrow> int \<Rightarrow> AppStore \<Rightarrow> AppStore" where
  "setContactTyping contactId expiresAt s =
     s\<lparr>st_typingExpiresAtByContactId := boundedTyping (mapSet (st_typingExpiresAtByContactId s) contactId expiresAt)\<rparr>"

definition expireContactTyping :: "js_string \<Rightarrow> int \<Rightarrow> AppStore \<Rightarrow> AppStore" where
  "expireContactTyping contactId expiresAt s =
     (if mapGet (st_typingExpiresAtByContactId s) contactId \<noteq> Some expiresAt then s
      else s\<lparr>st_typingExpiresAtByContactId := mapDelete (st_typingExpiresAtByContactId s) contactId\<rparr>)"

definition clearContactTyping :: "js_string \<Rightarrow> AppStore \<Rightarrow> AppStore" where
  "clearContactTyping contactId s =
     s\<lparr>st_typingExpiresAtByContactId := mapDelete (st_typingExpiresAtByContactId s) contactId\<rparr>"

definition clearAllContactTyping :: "AppStore \<Rightarrow> AppStore" where
  "clearAllContactTyping s = s\<lparr>st_typingExpiresAtByContactId := []\<rparr>"

section \<open>The outbox\<close>

text \<open>\<^verbatim>\<open>while (next.length > n) next.shift()\<close>\<close>

function shiftTo :: "nat \<Rightarrow> 'a list \<Rightarrow> 'a list" where
  "shiftTo n xs = (if length xs > n then shiftTo n (tl xs) else xs)"
  by pat_completeness auto
termination
  by (relation "measure (\<lambda>(n, xs). length xs)") auto

declare shiftTo.simps [simp del]

definition normalizeOutboxEntry :: "StoredOutboxEntry \<Rightarrow> StoredOutboxEntry" where
  "normalizeOutboxEntry entry = entry\<lparr>ob_deliveredAt := ob_deliveredAt entry\<rparr>"

definition hydrateOutbox :: "StoredOutboxEntry list \<Rightarrow> AppStore \<Rightarrow> AppStore" where
  "hydrateOutbox entries s = s\<lparr>st_outbox := map normalizeOutboxEntry (sliceLast maxStoredOutboxEntries entries)\<rparr>"

definition queueMessage :: "StoredOutboxEntry \<Rightarrow> AppStore \<Rightarrow> AppStore" where
  "queueMessage entry s = s\<lparr>st_outbox :=
     shiftTo maxStoredOutboxEntries (filter (\<lambda>item. ob_messageId item \<noteq> ob_messageId entry) (st_outbox s) @ [entry])\<rparr>"

definition markOutboxMessageDelivered :: "js_string \<Rightarrow> int \<Rightarrow> AppStore \<Rightarrow> AppStore" where
  "markOutboxMessageDelivered messageId deliveredAt s =
     (case find (\<lambda>entry. ob_messageId entry = messageId) (st_outbox s) of
        None \<Rightarrow> s
      | Some existing \<Rightarrow> s\<lparr>st_outbox := map (\<lambda>entry. if ob_messageId entry = messageId
          then existing\<lparr>ob_deliveredAt := Some deliveredAt\<rparr> else entry) (st_outbox s)\<rparr>)"

definition settleOutboxMessage :: "js_string \<Rightarrow> AppStore \<Rightarrow> AppStore" where
  "settleOutboxMessage messageId s = s\<lparr>st_outbox := filter (\<lambda>item. ob_messageId item \<noteq> messageId) (st_outbox s)\<rparr>"

section \<open>Read receipts\<close>

definition compareReadAt :: "StoredReadReceiptEntry \<Rightarrow> StoredReadReceiptEntry \<Rightarrow> int" where
  "compareReadAt l r = rr_readAt l - rr_readAt r"

definition hydrateReadReceiptOutbox :: "StoredReadReceiptEntry list \<Rightarrow> AppStore \<Rightarrow> AppStore" where
  "hydrateReadReceiptOutbox entries s =
     s\<lparr>st_readReceiptOutbox := sliceLast maxStoredReadReceiptEntries (js_sort compareReadAt entries)\<rparr>"

definition recordIncomingMessagesRead :: "js_string \<Rightarrow> js_string list \<Rightarrow> bool \<Rightarrow> int \<Rightarrow> AppStore \<Rightarrow> AppStore" where
  "recordIncomingMessagesRead contactId targetDeliveryIds queueReceipts readAt s =
     (let uniqueIds = unique targetDeliveryIds in
      if uniqueIds = [] then s
      else
        let entries = map (\<lambda>target. \<lparr>rr_targetDeliveryId = target, rr_contactId = contactId, rr_readAt = readAt,
              rr_receiptPending = queueReceipts\<rparr>) uniqueIds;
            before = fold (\<lambda>entry acc. mapSet acc (rr_targetDeliveryId entry) entry) (st_readReceiptOutbox s) [];
            replaced = fold (\<lambda>entry acc. if mapHas acc (rr_targetDeliveryId entry) then acc
              else mapSet acc (rr_targetDeliveryId entry) entry) entries before
        in s\<lparr>st_readReceiptOutbox :=
             shiftTo maxStoredReadReceiptEntries (js_sort compareReadAt (map snd replaced))\<rparr>)"

definition settleReadReceipt :: "js_string \<Rightarrow> AppStore \<Rightarrow> AppStore" where
  "settleReadReceipt targetDeliveryId s =
     (case find (\<lambda>entry. rr_targetDeliveryId entry = targetDeliveryId) (st_readReceiptOutbox s) of
        None \<Rightarrow> s
      | Some existing \<Rightarrow>
          if \<not> rr_receiptPending existing then s
          else s\<lparr>st_readReceiptOutbox := map (\<lambda>entry. if rr_targetDeliveryId entry = targetDeliveryId
            then existing\<lparr>rr_receiptPending := False\<rparr> else entry) (st_readReceiptOutbox s)\<rparr>)"

section \<open>Message requests\<close>

definition compareReceivedAt :: "IncomingMessageRequest \<Rightarrow> IncomingMessageRequest \<Rightarrow> int" where
  "compareReceivedAt l r = req_receivedAt l - req_receivedAt r"

definition receiveMessageRequest :: "IncomingMessageRequest \<Rightarrow> AppStore \<Rightarrow> AppStore" where
  "receiveMessageRequest request s =
     (if \<exists>candidate \<in> set (st_incomingMessageRequests s). req_requestId candidate = req_requestId request then s
      else
        let nxt = js_sort compareReceivedAt (st_incomingMessageRequests s @ [request])
        in s\<lparr>st_incomingMessageRequests := if length nxt > maxIncomingMessageRequests then tl nxt else nxt\<rparr>)"

definition dismissMessageRequest :: "js_string \<Rightarrow> AppStore \<Rightarrow> AppStore" where
  "dismissMessageRequest requestId s =
     s\<lparr>st_incomingMessageRequests := filter (\<lambda>request. req_requestId request \<noteq> requestId) (st_incomingMessageRequests s)\<rparr>"

text \<open>\<^verbatim>\<open>crypto.randomUUID()\<close> is the argument \<open>uuid\<close>.\<close>

definition acceptMessageRequest :: "js_string \<Rightarrow> js_string \<Rightarrow> AppStore \<Rightarrow> js_string option \<times> AppStore" where
  "acceptMessageRequest uuid requestId s =
     (case find (\<lambda>candidate. req_requestId candidate = requestId) (st_incomingMessageRequests s) of
        None \<Rightarrow> (None, s)
      | Some request \<Rightarrow>
          let existingContact = find (\<lambda>contact. contact_peerId contact = Some (req_senderPeerId request)) (st_contacts s);
              contactId = (case existingContact of None \<Rightarrow> uuid | Some contact \<Rightarrow> contact_contactId contact);
              s1 = (case existingContact of Some _ \<Rightarrow> s
                | None \<Rightarrow> upsertContact \<lparr>contact_contactId = contactId, contact_displayName = req_senderDisplayName request,
                    contact_peerId = Some (req_senderPeerId request), contact_hpkePublicKey = Some (req_senderHpkePublicKey request),
                    contact_lastRouteHint = None\<rparr> s);
              s2 = appendMessage \<lparr>msg_messageId = req_requestId request, msg_contactId = contactId, msg_direction = Incoming,
                    msg_body = req_body request, msg_sentAt = req_receivedAt request, msg_deliveryState = Received,
                    msg_applicationMessageId = None, msg_replyToMessageId = None\<rparr> s1
          in (Some contactId, dismissMessageRequest requestId s2))"

definition setIncomingMessageRequests :: "IncomingMessageRequest list \<Rightarrow> AppStore \<Rightarrow> AppStore" where
  "setIncomingMessageRequests requests s =
     s\<lparr>st_incomingMessageRequests := sliceLast maxIncomingMessageRequests (js_sort compareReceivedAt
       (map snd (fold (\<lambda>request acc. mapSet acc (req_requestId request) request) requests [])))\<rparr>"

end
