(* ===== verification/AppStore_Invariant.thy ===== *)
theory AppStore_Invariant
  imports AppStore "HOL-Library.Multiset"
begin

text \<open>
  The invariant of the application's store and that every operation of \<^verbatim>\<open>AppStore\<close> keeps it: bounded and
  ordered conversations whose messages sit under their own contact, distinct contacts, requests and
  folders, folder assignments that only mention known contacts and folders, and bounded work lists.
\<close>

section \<open>Sorting with a comparator\<close>

lemma sorted_insertBy:
  assumes "\<And>a b. cmp a b \<le> 0 \<or> cmp b a \<le> 0" "\<And>a b c. cmp a b \<le> 0 \<Longrightarrow> cmp b c \<le> 0 \<Longrightarrow> cmp a c \<le> 0"
  shows "sorted_wrt (\<lambda>a b. cmp a b \<le> 0) xs \<Longrightarrow> sorted_wrt (\<lambda>a b. cmp a b \<le> 0) (insertBy cmp x xs)"
proof (induction xs)
  case (Cons y ys)
  have "cmp y x \<le> 0" if "\<not> cmp x y \<le> 0" using assms(1) [of x y] that by simp
  then show ?case using Cons assms(2) by auto
qed simp

lemma sorted_js_sort:
  assumes "\<And>a b. cmp a b \<le> 0 \<or> cmp b a \<le> 0" "\<And>a b c. cmp a b \<le> 0 \<Longrightarrow> cmp b c \<le> 0 \<Longrightarrow> cmp a c \<le> 0"
  shows "sorted_wrt (\<lambda>a b. cmp a b \<le> 0) (js_sort cmp xs)"
  by (induction xs) (simp_all add: js_sort_def sorted_insertBy [OF assms])

lemma mset_insertBy [simp]: "mset (insertBy cmp x xs) = add_mset x (mset xs)"
  by (induction xs) auto

lemma mset_js_sort [simp]: "mset (js_sort cmp xs) = mset xs"
  by (induction xs) (auto simp: js_sort_def)

lemma distinct_map_js_sort [simp]: "distinct (map f (js_sort cmp xs)) \<longleftrightarrow> distinct (map f xs)"
  by (metis mset_eq_imp_distinct_iff mset_js_sort mset_map)

lemma sorted_wrt_sliceLast: "sorted_wrt P xs \<Longrightarrow> sorted_wrt P (sliceLast n xs)"
  by (simp add: sliceLast_def sorted_wrt_drop)

lemma distinct_map_sliceLast: "distinct (map f xs) \<Longrightarrow> distinct (map f (sliceLast n xs))"
  by (simp add: sliceLast_def flip: drop_map)

lemma shiftTo_sliceLast: "shiftTo n xs = sliceLast n xs"
  by (induction n xs rule: shiftTo.induct)
    (subst shiftTo.simps, auto simp: sliceLast_def drop_Suc [symmetric] Suc_diff_Suc)

definition chronological :: "MessageSummary list \<Rightarrow> bool" where
  "chronological ms \<longleftrightarrow> sorted_wrt (\<lambda>a b. compareMessages a b \<le> 0) ms"

lemma compareMessages_le:
  "compareMessages a b \<le> 0 \<longleftrightarrow> msg_sentAt a < msg_sentAt b \<or> msg_sentAt a = msg_sentAt b \<and> msg_messageId a \<le> msg_messageId b"
  by (auto simp: compareMessages_def)

lemma chronological_order [simp]: "chronological (orderConversationMessages ms)"
  unfolding chronological_def orderConversationMessages_def
  by (rule sorted_js_sort) (auto simp: compareMessages_le)

lemma chronological_filter: "chronological ms \<Longrightarrow> chronological (filter P ms)"
  by (simp add: chronological_def sorted_wrt_filter)

lemma chronological_sliceLast: "chronological ms \<Longrightarrow> chronological (sliceLast n ms)"
  by (simp add: chronological_def sorted_wrt_sliceLast)

lemma advanceMessage_fields [simp]:
  "msg_messageId (advanceMessage i d m) = msg_messageId m" "msg_contactId (advanceMessage i d m) = msg_contactId m"
  "msg_sentAt (advanceMessage i d m) = msg_sentAt m" "msg_direction (advanceMessage i d m) = msg_direction m"
  by (simp_all add: advanceMessage_def)

lemma chronological_advance: "chronological ms \<Longrightarrow> chronological (map (advanceMessage i d) ms)"
  by (simp add: chronological_def sorted_wrt_map compareMessages_le)

lemma set_orderConversationMessages [simp]: "set (orderConversationMessages ms) = set ms"
  and length_orderConversationMessages [simp]: "length (orderConversationMessages ms) = length ms"
  by (simp_all add: orderConversationMessages_def)

section \<open>The invariant\<close>

definition conversationsOk :: "(js_string, MessageSummary list) js_map \<Rightarrow> bool" where
  "conversationsOk c \<longleftrightarrow> wfMap c \<and> (\<forall>(contactId, ms) \<in> set c. length ms \<le> maxConversationTimelineEntries \<and> chronological ms
     \<and> (\<forall>m \<in> set ms. msg_contactId m = contactId))"

definition foldersOk :: "ContactSummary list \<Rightarrow> ContactFolder list \<Rightarrow> (js_string, js_string) js_map \<Rightarrow> bool" where
  "foldersOk contacts folders assigned \<longleftrightarrow> distinct (map contact_contactId contacts) \<and> distinct (map folder_folderId folders)
     \<and> length folders \<le> maxContactFolders \<and> wfMap assigned
     \<and> (\<forall>(c, f) \<in> set assigned. c \<in> contact_contactId ` set contacts \<and> f \<in> folder_folderId ` set folders)"

definition requestsOk :: "IncomingMessageRequest list \<Rightarrow> bool" where
  "requestsOk rs \<longleftrightarrow> length rs \<le> maxIncomingMessageRequests \<and> distinct (map req_requestId rs) \<and> sorted (map req_receivedAt rs)"

definition projectionsOk :: "(js_string, ImageMessageProjection) js_map \<Rightarrow> bool" where
  "projectionsOk ps \<longleftrightarrow> wfMap ps \<and> (\<forall>(i, p) \<in> set ps. proj_messageId p = i \<and> validImageMessageProjection p)"

definition workListsOk :: "AppStore \<Rightarrow> bool" where
  "workListsOk s \<longleftrightarrow> length (st_outbox s) \<le> maxStoredOutboxEntries \<and> length (st_readReceiptOutbox s) \<le> maxStoredReadReceiptEntries
     \<and> wfMap (st_typingExpiresAtByContactId s) \<and> length (st_typingExpiresAtByContactId s) \<le> maxTypingContacts
     \<and> wfMap (st_lastReadAtByContactId s) \<and> wfMap (st_completedAttachmentsByPeerId s)"

definition storeOk :: "AppStore \<Rightarrow> bool" where
  "storeOk s \<longleftrightarrow> conversationsOk (st_messagesByContactId s)
     \<and> foldersOk (st_contacts s) (st_contactFolders s) (st_contactFolderIdByContactId s)
     \<and> requestsOk (st_incomingMessageRequests s) \<and> projectionsOk (st_imageMessageProjectionsById s) \<and> workListsOk s"

lemma length_filter_le': "length xs \<le> n \<Longrightarrow> length (filter P xs) \<le> n"
  using length_filter_le le_trans by blast

lemma wfMap_filter [simp]: "wfMap m \<Longrightarrow> wfMap (filter P m)"
  by (induction m) (auto simp: mapHas_def)

lemma length_mapDelete: "length (mapDelete m k) \<le> length m"
  by (simp add: mapDelete_def)

lemma set_mapDelete: "set (mapDelete m k) = {e \<in> set m. fst e \<noteq> k}"
  by (auto simp: mapDelete_def)

subsection \<open>Conversations\<close>

lemma conversationsOk_mapSet:
  assumes "conversationsOk c" "length ms \<le> maxConversationTimelineEntries" "chronological ms" "\<forall>m \<in> set ms. msg_contactId m = contactId"
  shows "conversationsOk (mapSet c contactId ms)"
  using assms by (auto simp: conversationsOk_def set_mapSet)

lemma conversationsOk_mapDelete: "conversationsOk c \<Longrightarrow> conversationsOk (mapDelete c contactId)"
  by (auto simp: conversationsOk_def set_mapDelete)

lemma conversation_ok:
  assumes "conversationsOk (st_messagesByContactId s)"
  shows "length (conversation s c) \<le> maxConversationTimelineEntries" "chronological (conversation s c)"
    "\<forall>m \<in> set (conversation s c). msg_contactId m = c"
proof -
  have "(c, conversation s c) \<in> set (st_messagesByContactId s) \<or> conversation s c = []"
    using assms by (cases "mapGet (st_messagesByContactId s) c") (simp_all add: conversationsOk_def conversation_def mapGet_mem [symmetric])
  with assms show "length (conversation s c) \<le> maxConversationTimelineEntries" "chronological (conversation s c)"
    "\<forall>m \<in> set (conversation s c). msg_contactId m = c"
    unfolding conversationsOk_def by (auto simp: chronological_def)
qed

lemma conversationsOk_append:
  assumes "conversationsOk (st_messagesByContactId s)"
  shows "conversationsOk (st_messagesByContactId (appendMessage m s))"
  unfolding appendMessage_def
  using conversation_ok(3) [OF assms] set_sliceLast
  by (fastforce intro!: conversationsOk_mapSet assms chronological_sliceLast)

lemma conversationsOk_replaceWindow:
  assumes "conversationsOk (st_messagesByContactId s)"
  shows "conversationsOk (st_messagesByContactId (replaceConversationWindow c ms s))"
  unfolding replaceConversationWindow_def Let_def
  using set_sliceLast
  by (fastforce intro!: conversationsOk_mapSet assms chronological_sliceLast chronological_filter)

lemma conversationsOk_retry:
  assumes "conversationsOk (st_messagesByContactId s)"
  shows "conversationsOk (st_messagesByContactId (snd (retryUnavailableMessage c i m s)))"
  using assms conversation_ok(1,3) [OF assms, of c]
  by (auto simp: retryUnavailableMessage_def Let_def conversation_def intro!: conversationsOk_mapSet split: option.splits)

lemma conversationsOk_delivery:
  assumes "conversationsOk (st_messagesByContactId s)"
  shows "conversationsOk (st_messagesByContactId (setMessageDeliveryState c i d s))"
  using assms conversation_ok [OF assms, of c]
  by (auto simp: setMessageDeliveryState_def conversation_def chronological_advance intro!: conversationsOk_mapSet split: option.splits)

subsection \<open>Image projections\<close>

lemma projectionsOk_filter: "projectionsOk ps \<Longrightarrow> projectionsOk (filter P ps)"
  by (auto simp: projectionsOk_def)

lemma projectionsOk_mapSet:
  "projectionsOk ps \<Longrightarrow> validImageMessageProjection p \<Longrightarrow> projectionsOk (mapSet ps (proj_messageId p) p)"
  by (auto simp: projectionsOk_def set_mapSet)

lemma projectionsOk_hydrate: "projectionsOk ps \<Longrightarrow> projectionsOk (hydrateProjections ps qs)"
  by (induction ps qs rule: hydrateProjections.induct) (auto simp: projectionsOk_mapSet)

lemma projectionsOk_fold:
  "projectionsOk ps \<Longrightarrow> \<forall>p \<in> set qs. validImageMessageProjection p \<Longrightarrow>
    projectionsOk (fold (\<lambda>p nxt. mapSet nxt (proj_messageId p) p) qs ps)"
  by (induction qs arbitrary: ps) (auto simp: projectionsOk_mapSet)

lemma projectionsOk_window:
  assumes "projectionsOk (st_imageMessageProjectionsById s)"
  shows "projectionsOk (st_imageMessageProjectionsById (replaceImageMessageProjectionWindow lc c ps s))"
  using assms set_sliceLast
  by (fastforce simp: replaceImageMessageProjectionWindow_def Let_def intro!: projectionsOk_fold projectionsOk_filter)

subsection \<open>Message requests\<close>

lemma sorted_receivedAt_sort: "sorted (map req_receivedAt (js_sort compareReceivedAt rs))"
proof -
  have "sorted_wrt (\<lambda>a b. compareReceivedAt a b \<le> 0) (js_sort compareReceivedAt rs)"
    by (rule sorted_js_sort) (auto simp: compareReceivedAt_def)
  then show ?thesis by (simp add: compareReceivedAt_def sorted_map)
qed

lemma requestsOk_receive:
  assumes "requestsOk (st_incomingMessageRequests s)"
  shows "requestsOk (st_incomingMessageRequests (receiveMessageRequest r s))"
proof -
  let ?nxt = "js_sort compareReceivedAt (st_incomingMessageRequests s @ [r])"
  have "distinct (map req_requestId (tl ?nxt))" if "\<forall>candidate \<in> set (st_incomingMessageRequests s). req_requestId candidate \<noteq> req_requestId r"
  proof -
    have "distinct (map req_requestId ?nxt)" using assms that by (auto simp: requestsOk_def)
    then show ?thesis by (cases ?nxt) auto
  qed
  moreover have "sorted (map req_receivedAt (tl ?nxt))"
    using sorted_receivedAt_sort [of "st_incomingMessageRequests s @ [r]"] by (metis map_tl sorted_tl)
  ultimately show ?thesis
    using assms sorted_receivedAt_sort [of "st_incomingMessageRequests s @ [r]"]
    by (auto simp: receiveMessageRequest_def requestsOk_def Let_def)
qed

lemma requestsOk_filter: "requestsOk rs \<Longrightarrow> requestsOk (filter P rs)"
  by (auto simp: requestsOk_def distinct_map_filter sorted_filter intro: length_filter_le')

lemma unique_requests:
  "wfMap m \<Longrightarrow> \<forall>(i, r) \<in> set m. req_requestId r = i \<Longrightarrow>
    (let m' = fold (\<lambda>r acc. mapSet acc (req_requestId r) r) rs m in wfMap m' \<and> (\<forall>(i, r) \<in> set m'. req_requestId r = i))"
proof (induction rs arbitrary: m)
  case (Cons r rs)
  have "wfMap (mapSet m (req_requestId r) r)" "\<forall>(i, r) \<in> set (mapSet m (req_requestId r) r). req_requestId r = i"
    using Cons.prems by (auto simp: set_mapSet)
  from Cons.IH [OF this] show ?case by simp
qed (simp add: Let_def)

lemma distinct_requests: "wfMap m \<Longrightarrow> \<forall>(i, r) \<in> set m. req_requestId r = i \<Longrightarrow> distinct (map req_requestId (map snd m))"
  by (induction m) (force simp: mapHas_def)+

lemma requestsOk_set:
  "requestsOk (st_incomingMessageRequests (setIncomingMessageRequests rs s))"
  using unique_requests [of "[]" rs] distinct_requests [of "fold (\<lambda>r acc. mapSet acc (req_requestId r) r) rs []"] sorted_receivedAt_sort
  by (auto simp: setIncomingMessageRequests_def requestsOk_def Let_def sliceLast_def sorted_wrt_drop drop_map [symmetric]
      simp del: map_map)

subsection \<open>Contacts and folders\<close>

lemma foldersOk_upsert:
  assumes "foldersOk contacts folders assigned"
  shows "foldersOk (filter (\<lambda>e. contact_contactId e \<noteq> contact_contactId c) contacts @ [c]) folders assigned"
  using assms by (auto simp: foldersOk_def distinct_map_filter)

lemma foldersOk_forget:
  assumes "foldersOk contacts folders assigned" "\<not> mapHas assigned c"
  shows "foldersOk (filter (\<lambda>e. contact_contactId e \<noteq> c) contacts) folders assigned"
  using assms by (force simp: foldersOk_def distinct_map_filter mapHas_def)

lemma foldersOk_unassign:
  "foldersOk contacts folders assigned \<Longrightarrow> foldersOk contacts folders (mapDelete assigned c)"
  by (auto simp: foldersOk_def set_mapDelete)

lemma foldersOk_assign:
  assumes "foldersOk contacts folders assigned" "c \<in> contact_contactId ` set contacts" "f \<in> folder_folderId ` set folders"
  shows "foldersOk contacts folders (mapSet assigned c f)"
  using assms by (auto simp: foldersOk_def set_mapSet)

lemma foldersOk_create:
  assumes "foldersOk contacts folders assigned" "length folders < maxContactFolders" "folder_folderId f \<notin> folder_folderId ` set folders"
  shows "foldersOk contacts (folders @ [f]) assigned"
  using assms by (auto simp: foldersOk_def)

lemma foldersOk_rename:
  assumes "foldersOk contacts folders assigned" "folder_folderId g = i"
  shows "foldersOk contacts (map (\<lambda>f. if folder_folderId f = i then g else f) folders) assigned"
proof -
  define fs where "fs = map (\<lambda>f. if folder_folderId f = i then g else f) folders"
  have "map folder_folderId fs = map folder_folderId folders" using assms(2) by (simp add: fs_def)
  moreover from this have "folder_folderId ` set fs = folder_folderId ` set folders" by (metis set_map)
  ultimately show ?thesis using assms(1) unfolding foldersOk_def fs_def [symmetric] by (metis length_map)
qed

lemma foldersOk_delete:
  assumes "foldersOk contacts folders assigned"
  shows "foldersOk contacts (filter (\<lambda>f. folder_folderId f \<noteq> i) folders) (filter (\<lambda>(c, f). f \<noteq> i) assigned)"
  using assms by (auto simp: foldersOk_def distinct_map_filter intro: length_filter_le')

lemma set_firstById: "folder_folderId ` set (firstById seen fs) = folder_folderId ` set fs - set seen"
  by (induction seen fs rule: firstById.induct) auto

lemma distinct_firstById: "distinct (map folder_folderId (firstById seen fs))"
  by (induction seen fs rule: firstById.induct) (auto simp: set_firstById)

lemma assignments_ok:
  "foldersOk contacts folders m \<Longrightarrow> foldersOk contacts folders (fold (\<lambda>a acc.
     if assign_contactId a \<in> contact_contactId ` set contacts \<and> assign_folderId a \<in> folder_folderId ` set folders
     then mapSet acc (assign_contactId a) (assign_folderId a) else acc) as m)"
  by (induction as arbitrary: m) (auto simp: foldersOk_assign)

lemma foldersOk_hydrate:
  assumes "distinct (map contact_contactId (st_contacts s))" "s' = hydrateContactFolders folders as s"
  shows "foldersOk (st_contacts s') (st_contactFolders s') (st_contactFolderIdByContactId s')"
proof -
  have "foldersOk (st_contacts s) (take maxContactFolders (firstById [] folders)) []"
    using assms(1) distinct_firstById [of "[]" folders] by (simp add: foldersOk_def distinct_take flip: take_map)
  from assignments_ok [OF this, of as] show ?thesis
    by (simp add: assms(2) hydrateContactFolders_def Let_def)
qed

subsection \<open>Typing\<close>

lemma oldestPair_mem: "oldestPair e es \<in> set (e # es)"
  by (induction e es rule: oldestPair.induct) auto

lemma length_mapDelete_mem: "wfMap m \<Longrightarrow> mapHas m k \<Longrightarrow> Suc (length (mapDelete m k)) = length m"
  by (induction m) auto

lemma boundedTyping_ok:
  assumes "wfMap m" "length m \<le> Suc maxTypingContacts"
  shows "wfMap (boundedTyping m) \<and> length (boundedTyping m) \<le> maxTypingContacts"
proof (cases m)
  case (Cons e es)
  have "mapHas m (fst (oldestPair e es))"
    using oldestPair_mem [of e es] by (simp only: mapHas_def Cons) (metis image_eqI list.set_map)
  with assms length_mapDelete_mem [of m "fst (oldestPair e es)"] show ?thesis
    by (simp add: boundedTyping_def Cons del: mapDelete_simps)
qed (use assms in \<open>simp add: boundedTyping_def\<close>)

section \<open>The store as a state machine\<close>

text \<open>One rule per operation of the slices.\<close>

inductive storeStep :: "(js_string \<Rightarrow> js_string) \<Rightarrow> (js_string \<Rightarrow> js_string \<Rightarrow> int) \<Rightarrow> AppStore \<Rightarrow> AppStore \<Rightarrow> bool"
  for nfc lc where
  AppendMessage: "storeStep nfc lc s (appendMessage m s)"
| ReplaceConversationWindow: "storeStep nfc lc s (replaceConversationWindow c ms s)"
| RetryUnavailableMessage: "storeStep nfc lc s (snd (retryUnavailableMessage c i m s))"
| SetMessageDeliveryState: "storeStep nfc lc s (setMessageDeliveryState c i d s)"
| DeleteMessagesLocally: "storeStep nfc lc s (snd (deleteMessagesLocally c is s))"
| ClearLocalConversation: "storeStep nfc lc s (clearLocalConversation c s)"
| HydrateImageMessageProjections: "storeStep nfc lc s (hydrateImageMessageProjections ps s)"
| ReplaceImageMessageProjectionWindow: "storeStep nfc lc s (replaceImageMessageProjectionWindow lc c ps s)"
| StageImageMessageProjection: "storeStep nfc lc s (snd (stageImageMessageProjection p s))"
| RemoveImageMessageProjections: "storeStep nfc lc s (removeImageMessageProjections is s)"
| ClearImageMessageProjectionsForContact: "storeStep nfc lc s (clearImageMessageProjectionsForContact c s)"
| ClearImageMessageProjections: "storeStep nfc lc s (clearImageMessageProjections s)"
| HydrateContactFolders: "storeStep nfc lc s (hydrateContactFolders fs as s)"
| CreateContactFolder: "storeStep nfc lc s (snd (createContactFolder nfc f n t s))"
| RenameContactFolder: "storeStep nfc lc s (snd (renameContactFolder nfc f n s))"
| DeleteContactFolder: "storeStep nfc lc s (deleteContactFolder f s)"
| AssignContactFolder: "storeStep nfc lc s (snd (assignContactFolder c f s))"
| ClearContactFolderAssignment: "storeStep nfc lc s (clearContactFolderAssignment c s)"
| UpsertContact: "storeStep nfc lc s (upsertContact c s)"
| ForgetContact: "storeStep nfc lc s (forgetContact c s)"
| SelectContact: "storeStep nfc lc s (selectContact c s)"
| SetCompletedAttachment: "storeStep nfc lc s (setCompletedAttachmentProjection a s)"
| ClearCompletedAttachment: "storeStep nfc lc s (clearCompletedAttachmentProjection p s)"
| ClearCompletedAttachments: "storeStep nfc lc s (clearCompletedAttachmentProjections s)"
| MarkContactRead: "storeStep nfc lc s (markContactRead c t s)"
| SetContactTyping: "storeStep nfc lc s (setContactTyping c t s)"
| ExpireContactTyping: "storeStep nfc lc s (expireContactTyping c t s)"
| ClearContactTyping: "storeStep nfc lc s (clearContactTyping c s)"
| ClearAllContactTyping: "storeStep nfc lc s (clearAllContactTyping s)"
| HydrateOutbox: "storeStep nfc lc s (hydrateOutbox es s)"
| QueueMessage: "storeStep nfc lc s (queueMessage e s)"
| MarkOutboxMessageDelivered: "storeStep nfc lc s (markOutboxMessageDelivered i t s)"
| SettleOutboxMessage: "storeStep nfc lc s (settleOutboxMessage i s)"
| HydrateReadReceiptOutbox: "storeStep nfc lc s (hydrateReadReceiptOutbox es s)"
| RecordIncomingMessagesRead: "storeStep nfc lc s (recordIncomingMessagesRead c is q t s)"
| SettleReadReceipt: "storeStep nfc lc s (settleReadReceipt i s)"
| ReceiveMessageRequest: "storeStep nfc lc s (receiveMessageRequest r s)"
| AcceptMessageRequest: "storeStep nfc lc s (snd (acceptMessageRequest u r s))"
| DismissMessageRequest: "storeStep nfc lc s (dismissMessageRequest r s)"
| SetIncomingMessageRequests: "storeStep nfc lc s (setIncomingMessageRequests rs s)"

lemmas storeParts = storeOk_def workListsOk_def

lemma storeOk_conversations:
  assumes "storeOk s"
  shows "storeOk (appendMessage m s)" "storeOk (replaceConversationWindow c ms s)"
    "storeOk (snd (retryUnavailableMessage c i m s))" "storeOk (setMessageDeliveryState c i d s)"
proof -
  have c: "conversationsOk (st_messagesByContactId s)" using assms by (simp add: storeOk_def)
  show "storeOk (appendMessage m s)"
    using assms conversationsOk_append [OF c, of m] by (simp add: storeParts appendMessage_def)
  show "storeOk (replaceConversationWindow c ms s)"
    using assms conversationsOk_replaceWindow [OF c, of c ms] by (simp add: storeParts replaceConversationWindow_def Let_def)
  show "storeOk (snd (retryUnavailableMessage c i m s))"
    using assms conversationsOk_retry [OF c, of c i m]
    by (auto simp: storeParts retryUnavailableMessage_def Let_def split: option.splits)
  show "storeOk (setMessageDeliveryState c i d s)"
    using assms conversationsOk_delivery [OF c, of c i d] by (auto simp: storeParts setMessageDeliveryState_def split: option.splits)
qed

lemma storeOk_projections:
  assumes "storeOk s"
  shows "storeOk (hydrateImageMessageProjections ps s)" "storeOk (replaceImageMessageProjectionWindow lc c ps s)"
    "storeOk (snd (stageImageMessageProjection p s))" "storeOk (removeImageMessageProjections is s)"
    "storeOk (clearImageMessageProjectionsForContact c s)" "storeOk (clearImageMessageProjections s)"
proof -
  have p: "projectionsOk (st_imageMessageProjectionsById s)" and e: "projectionsOk []"
    using assms by (simp_all add: storeOk_def projectionsOk_def)
  show "storeOk (hydrateImageMessageProjections ps s)"
    using assms projectionsOk_hydrate [OF e] by (simp add: storeParts hydrateImageMessageProjections_def)
  show "storeOk (replaceImageMessageProjectionWindow lc c ps s)"
    using assms projectionsOk_window [OF p, of lc c ps] by (simp add: storeParts replaceImageMessageProjectionWindow_def Let_def)
  show "storeOk (snd (stageImageMessageProjection p s))"
    using assms p by (auto simp: storeParts stageImageMessageProjection_def projectionsOk_mapSet split: option.splits)
  show "storeOk (removeImageMessageProjections is s)" "storeOk (clearImageMessageProjectionsForContact c s)"
    using assms p
    by (simp_all add: storeParts removeImageMessageProjections_def clearImageMessageProjectionsForContact_def Let_def projectionsOk_filter)
  show "storeOk (clearImageMessageProjections s)"
    using assms e by (simp add: storeParts clearImageMessageProjections_def)
qed

lemma storeOk_workLists:
  assumes "storeOk s"
  shows "storeOk (hydrateOutbox es s)" "storeOk (queueMessage e s)" "storeOk (markOutboxMessageDelivered i t s)"
    "storeOk (settleOutboxMessage i s)" "storeOk (hydrateReadReceiptOutbox rs s)"
    "storeOk (recordIncomingMessagesRead c is q t s)" "storeOk (settleReadReceipt i s)"
  using assms
  by (auto simp: storeParts hydrateOutbox_def queueMessage_def markOutboxMessageDelivered_def settleOutboxMessage_def
      hydrateReadReceiptOutbox_def recordIncomingMessagesRead_def settleReadReceipt_def Let_def shiftTo_sliceLast
      intro: length_filter_le' split: option.splits)

lemma storeOk_volatile:
  assumes "storeOk s"
  shows "storeOk (markContactRead c t s)" "storeOk (setContactTyping c t s)" "storeOk (expireContactTyping c t s)"
    "storeOk (clearContactTyping c s)" "storeOk (clearAllContactTyping s)" "storeOk (setCompletedAttachmentProjection a s)"
    "storeOk (clearCompletedAttachmentProjection p s)" "storeOk (clearCompletedAttachmentProjections s)" "storeOk (selectContact k s)"
proof -
  have t: "wfMap (st_typingExpiresAtByContactId s)" "length (st_typingExpiresAtByContactId s) \<le> maxTypingContacts"
    using assms by (simp_all add: storeParts)
  then have "length (mapSet (st_typingExpiresAtByContactId s) c t) \<le> Suc maxTypingContacts" by (simp add: length_mapSet)
  from boundedTyping_ok [OF _ this] t(1) show "storeOk (setContactTyping c t s)"
    using assms by (simp add: storeParts setContactTyping_def)
  show "storeOk (expireContactTyping c t s)" "storeOk (clearContactTyping c s)" "storeOk (clearAllContactTyping s)"
    using assms length_mapDelete [of "st_typingExpiresAtByContactId s" c]
    by (simp_all add: storeParts expireContactTyping_def clearContactTyping_def clearAllContactTyping_def)
  show "storeOk (markContactRead c t s)" "storeOk (setCompletedAttachmentProjection a s)"
    "storeOk (clearCompletedAttachmentProjection p s)" "storeOk (clearCompletedAttachmentProjections s)" "storeOk (selectContact k s)"
    using assms
    by (simp_all add: storeParts markContactRead_def setCompletedAttachmentProjection_def clearCompletedAttachmentProjection_def
        clearCompletedAttachmentProjections_def selectContact_def)
qed

lemma storeOk_folders:
  assumes "storeOk s"
  shows "storeOk (hydrateContactFolders fs as s)" "storeOk (snd (createContactFolder nfc f n t s))"
    "storeOk (snd (renameContactFolder nfc f n s))" "storeOk (deleteContactFolder f s)"
    "storeOk (snd (assignContactFolder c k s))" "storeOk (clearContactFolderAssignment c s)" "storeOk (upsertContact u s)"
proof -
  have f: "foldersOk (st_contacts s) (st_contactFolders s) (st_contactFolderIdByContactId s)" using assms by (simp add: storeOk_def)
  show "storeOk (hydrateContactFolders fs as s)"
    using assms foldersOk_hydrate [of s _ fs as] f by (simp add: storeParts foldersOk_def hydrateContactFolders_def Let_def)
  show "storeOk (snd (createContactFolder nfc f n t s))"
    using assms f by (auto simp: storeParts createContactFolder_def intro!: foldersOk_create split: option.splits)
  show "storeOk (snd (renameContactFolder nfc f n s))"
    using assms f by (auto simp: storeParts renameContactFolder_def find_Some_iff intro!: foldersOk_rename split: option.splits)
  show "storeOk (deleteContactFolder f s)"
    using assms foldersOk_delete [OF f] by (simp add: storeParts deleteContactFolder_def)
  show "storeOk (snd (assignContactFolder c k s))"
    using assms f by (auto simp: storeParts assignContactFolder_def intro!: foldersOk_assign foldersOk_unassign split: option.splits)
  show "storeOk (clearContactFolderAssignment c s)"
    using assms f by (simp add: storeParts clearContactFolderAssignment_def foldersOk_unassign)
  show "storeOk (upsertContact u s)"
    using assms foldersOk_upsert [OF f] by (simp add: storeParts upsertContact_def)
qed

lemma storeOk_deletion:
  assumes "storeOk s"
  shows "storeOk (snd (deleteMessagesLocally c is s))" "storeOk (clearLocalConversation c s)"
proof -
  define w where "w = set (take maxLocalMessageActionCount (filter (\<lambda>i. i \<noteq> []) is))"
  have c: "conversationsOk (st_messagesByContactId s)" using assms by (simp add: storeOk_def)
  have "conversationsOk (mapSet (st_messagesByContactId s) c (filter (\<lambda>m. msg_messageId m \<notin> w) (conversation s c)))"
    using conversation_ok [OF c, of c]
    by (intro conversationsOk_mapSet c chronological_filter) (auto intro: length_filter_le')
  then have "storeOk (s\<lparr>st_messagesByContactId := mapSet (st_messagesByContactId s) c (filter (\<lambda>m. msg_messageId m \<notin> w) (conversation s c)),
      st_outbox := filter (\<lambda>e. ob_messageId e \<notin> w) (st_outbox s)\<rparr>)"
    using assms by (auto simp: storeParts intro: length_filter_le')
  with assms show "storeOk (snd (deleteMessagesLocally c is s))"
    unfolding w_def by (simp add: deleteMessagesLocally_def Let_def storeOk_projections(4))
  define s' where "s' = clearImageMessageProjectionsForContact c s"
  have "storeOk s'" unfolding s'_def by (rule storeOk_projections [OF assms])
  then show "storeOk (clearLocalConversation c s)"
    unfolding clearLocalConversation_def s'_def [symmetric] Let_def
    using length_mapDelete [of "st_typingExpiresAtByContactId s'" c]
    by (auto simp: storeParts conversationsOk_mapDelete intro: length_filter_le')
qed

lemma storeOk_forget:
  assumes "storeOk s"
  shows "storeOk (forgetContact c s)"
proof -
  define s' where "s' = clearImageMessageProjectionsForContact c (clearContactFolderAssignment c
    (case find (\<lambda>e. contact_contactId e = c) (st_contacts s) of None \<Rightarrow> s
     | Some k \<Rightarrow> (case contact_peerId k of None \<Rightarrow> s | Some p \<Rightarrow> clearCompletedAttachmentProjection p s)))"
  have ok: "storeOk s'" unfolding s'_def
    by (intro storeOk_projections storeOk_folders) (auto simp: assms storeOk_volatile split: option.splits)
  have "\<not> mapHas (st_contactFolderIdByContactId s') c"
    by (auto simp: s'_def clearImageMessageProjectionsForContact_def clearContactFolderAssignment_def mapHas_mapGet)
  then have "foldersOk (filter (\<lambda>e. contact_contactId e \<noteq> c) (st_contacts s')) (st_contactFolders s') (st_contactFolderIdByContactId s')"
    using ok by (intro foldersOk_forget) (simp_all add: storeOk_def)
  with ok show ?thesis
    unfolding forgetContact_def s'_def [symmetric] Let_def
    using length_mapDelete [of "st_typingExpiresAtByContactId s'" c]
    by (auto simp: storeParts conversationsOk_mapDelete intro: length_filter_le')
qed

lemma storeOk_requests:
  assumes "storeOk s"
  shows "storeOk (receiveMessageRequest r s)" "storeOk (dismissMessageRequest i s)"
    "storeOk (snd (acceptMessageRequest u i s))" "storeOk (setIncomingMessageRequests rs s)"
proof -
  have r: "requestsOk (st_incomingMessageRequests s)" using assms by (simp add: storeOk_def)
  show "storeOk (receiveMessageRequest r s)"
    using assms requestsOk_receive [OF r, of r] by (simp add: storeParts receiveMessageRequest_def Let_def)
  have dismiss: "storeOk (dismissMessageRequest i t)" if "storeOk t" for t
    using that by (simp add: storeParts dismissMessageRequest_def requestsOk_filter)
  with assms show "storeOk (dismissMessageRequest i s)" by simp
  show "storeOk (snd (acceptMessageRequest u i s))"
    using assms by (auto simp: acceptMessageRequest_def Let_def storeOk_folders storeOk_conversations intro!: dismiss split: option.splits)
  show "storeOk (setIncomingMessageRequests rs s)"
    using assms requestsOk_set [of rs s] by (simp add: storeParts setIncomingMessageRequests_def)
qed

lemmas storeOk_operations = storeOk_conversations storeOk_projections storeOk_workLists storeOk_volatile storeOk_folders
  storeOk_deletion storeOk_forget storeOk_requests

lemma storeOk_step: "storeStep nfc lc s s' \<Longrightarrow> storeOk s \<Longrightarrow> storeOk s'"
  by (induction rule: storeStep.induct) (rule storeOk_operations, assumption)+

lemma storeOk_initial [simp]: "storeOk initialStore"
  by (simp add: storeParts initialStore_def conversationsOk_def foldersOk_def requestsOk_def projectionsOk_def maxContactFolders_def)

text \<open>The contract of a state machine given as a step relation, and that the store meets it.\<close>

locale step_machine =
  fixes step :: "'s \<Rightarrow> 's \<Rightarrow> bool" and start :: 's and inv :: "'s \<Rightarrow> bool"
  assumes start_inv: "inv start"
    and step_inv: "step s s' \<Longrightarrow> inv s \<Longrightarrow> inv s'"
begin

lemma reachable_inv: "step\<^sup>*\<^sup>* start s \<Longrightarrow> inv s"
  by (induction rule: rtranclp_induct) (simp_all add: start_inv step_inv)

end

interpretation store: step_machine "storeStep nfc lc" initialStore storeOk
  by unfold_locales (simp_all add: storeOk_step)

section \<open>Delivery states\<close>

text \<open>
  Abstractly, an outgoing message is a machine of its own: it has one delivery state, and an outcome moves it
  only along \<open>canAdvanceDeliveryState\<close>. \<open>deliveryStates s\<close> is the abstraction of the store.
\<close>

definition deliveryStates :: "AppStore \<Rightarrow> js_string \<Rightarrow> js_string \<Rightarrow> MessageDeliveryState set" where
  "deliveryStates s c i = msg_deliveryState ` {m \<in> set (conversation s c). msg_messageId m = i \<and> msg_direction m = Outgoing}"

definition advanceState :: "MessageDeliveryState \<Rightarrow> MessageDeliveryState \<Rightarrow> MessageDeliveryState" where
  "advanceState d x = (if canAdvanceDeliveryState x d then d else x)"

type_synonym outcome = "js_string \<times> js_string \<times> MessageDeliveryState"

abbreviation reportOutcomes :: "outcome list \<Rightarrow> AppStore \<Rightarrow> AppStore" where
  "reportOutcomes us s \<equiv> fold (\<lambda>(c, i, d). setMessageDeliveryState c i d) us s"

definition outcomesFor :: "js_string \<Rightarrow> js_string \<Rightarrow> outcome list \<Rightarrow> MessageDeliveryState list" where
  "outcomesFor c i us = map (\<lambda>(_, _, d). d) (filter (\<lambda>(c', i', _). c' = c \<and> i' = i) us)"

fun deliveryRank :: "MessageDeliveryState \<Rightarrow> nat" where
  "deliveryRank Pending = 0"
| "deliveryRank Relayed = 1"
| "deliveryRank Unavailable = 1"
| "deliveryRank MsgDelivered = 2"
| "deliveryRank MsgRead = 3"
| "deliveryRank Received = 3"

lemma conversation_delivery:
  "conversation (setMessageDeliveryState c i d s) c' =
    (if c' = c then map (advanceMessage i d) (conversation s c) else conversation s c')"
proof (cases "mapGet (st_messagesByContactId s) c")
  case (Some ms)
  have "map (advanceMessage i d) ms = ms"
    if "\<not> (\<exists>m \<in> set ms. msg_messageId m = i \<and> msg_direction m = Outgoing \<and> canAdvanceDeliveryState (msg_deliveryState m) d)"
    using that by (intro map_idI) (auto simp: advanceMessage_def)
  with Some show ?thesis by (auto simp: setMessageDeliveryState_def conversation_def)
qed (simp add: setMessageDeliveryState_def conversation_def)

lemma deliveryStates_update:
  "deliveryStates (setMessageDeliveryState c i d s) c' i' =
    (if c' = c \<and> i' = i then advanceState d ` deliveryStates s c i else deliveryStates s c' i')"
proof -
  have "msg_deliveryState (advanceMessage i d m) =
      (if msg_messageId m = i \<and> msg_direction m = Outgoing then advanceState d (msg_deliveryState m) else msg_deliveryState m)" for m
    by (simp add: advanceMessage_def advanceState_def)
  then show ?thesis
    unfolding deliveryStates_def conversation_delivery by (auto simp: image_iff) (metis advanceMessage_fields)+
qed

lemma outcomesFor_simps [simp]:
  "outcomesFor c i [] = []"
  "outcomesFor c i ((c', i', d) # us) = (if c' = c \<and> i' = i then d # outcomesFor c i us else outcomesFor c i us)"
  by (simp_all add: outcomesFor_def)

lemma deliveryStates_reports:
  "deliveryStates (reportOutcomes us s) c i = fold advanceState (outcomesFor c i us) ` deliveryStates s c i"
proof (induction us arbitrary: s)
  case (Cons u us)
  then show ?case by (cases u) (auto simp: deliveryStates_update image_comp comp_def)
qed simp

lemma advanceState_rank: "deliveryRank x \<le> deliveryRank (advanceState d x)"
  by (cases x) (auto simp: advanceState_def)

lemma advanceStates_evidence:
  "deliveryRank x \<le> deliveryRank (fold advanceState ds x) \<and> (fold advanceState ds x = x \<or> fold advanceState ds x \<in> set ds)
   \<and> (fold advanceState ds x = MsgRead \<longrightarrow> x = MsgRead \<or> x = MsgDelivered \<or> MsgDelivered \<in> set ds)"
proof (induction ds arbitrary: x)
  case (Cons d ds)
  have "deliveryRank x \<le> deliveryRank (fold advanceState ds (advanceState d x))"
    using Cons [of "advanceState d x"] advanceState_rank [of x d] by linarith
  moreover have "advanceState d x = MsgRead \<Longrightarrow> x = MsgRead \<or> x = MsgDelivered" "advanceState d x = x \<or> advanceState d x = d"
    by (cases x; auto simp: advanceState_def split: if_splits)+
  ultimately show ?case using Cons [of "advanceState d x"] by auto
qed simp

section \<open>Forgetting a contact\<close>

lemma forget_fields:
  "st_contacts (forgetContact c s) = filter (\<lambda>e. contact_contactId e \<noteq> c) (st_contacts s)"
  "st_selectedContactId (forgetContact c s) = (if st_selectedContactId s = Some c then None else st_selectedContactId s)"
  "st_messagesByContactId (forgetContact c s) = mapDelete (st_messagesByContactId s) c"
  "st_outbox (forgetContact c s) = filter (\<lambda>e. ob_contactId e \<noteq> c) (st_outbox s)"
  "st_readReceiptOutbox (forgetContact c s) = filter (\<lambda>e. rr_contactId e \<noteq> c) (st_readReceiptOutbox s)"
  "st_lastReadAtByContactId (forgetContact c s) = mapDelete (st_lastReadAtByContactId s) c"
  "st_typingExpiresAtByContactId (forgetContact c s) = mapDelete (st_typingExpiresAtByContactId s) c"
  "st_contactFolderIdByContactId (forgetContact c s) = mapDelete (st_contactFolderIdByContactId s) c"
  "st_imageMessageProjectionsById (forgetContact c s) = (if boundedBytes c 128
     then filter (\<lambda>(i, p). proj_contactId p \<noteq> c) (st_imageMessageProjectionsById s) else st_imageMessageProjectionsById s)"
  by (simp_all add: forgetContact_def clearImageMessageProjectionsForContact_def clearContactFolderAssignment_def
      clearCompletedAttachmentProjection_def mapHas_mapGet Let_def split: option.split)

lemma forget_attachment:
  assumes "find (\<lambda>e. contact_contactId e = c) (st_contacts s) = Some k" "contact_peerId k = Some p"
  shows "mapGet (st_completedAttachmentsByPeerId (forgetContact c s)) p = None"
  by (simp add: assms forgetContact_def clearImageMessageProjectionsForContact_def clearContactFolderAssignment_def
      clearCompletedAttachmentProjection_def Let_def)

section \<open>Read receipts\<close>

definition receiptEntries :: "js_string \<Rightarrow> js_string list \<Rightarrow> bool \<Rightarrow> int \<Rightarrow> StoredReadReceiptEntry list" where
  "receiptEntries c is q t = map (\<lambda>i. \<lparr>rr_targetDeliveryId = i, rr_contactId = c, rr_readAt = t, rr_receiptPending = q\<rparr>) (unique is)"

definition keyedReceipts :: "(js_string, StoredReadReceiptEntry) js_map \<Rightarrow> bool" where
  "keyedReceipts m \<longleftrightarrow> wfMap m \<and> (\<forall>(i, e) \<in> set m. rr_targetDeliveryId e = i)"

definition receiptsIn :: "(js_string, StoredReadReceiptEntry) js_map \<Rightarrow> StoredReadReceiptEntry set" where
  "receiptsIn m = snd ` set m"

lemma receiptsIn_Nil [simp]: "receiptsIn [] = {}"
  by (simp add: receiptsIn_def)

lemma keyed_mapSet:
  assumes "keyedReceipts m"
  shows "keyedReceipts (mapSet m (rr_targetDeliveryId e) e)"
    "receiptsIn (mapSet m (rr_targetDeliveryId e) e) = insert e {x \<in> receiptsIn m. rr_targetDeliveryId x \<noteq> rr_targetDeliveryId e}"
    "length (mapSet m (rr_targetDeliveryId e) e) \<le> Suc (length m)"
  using assms by (auto simp: receiptsIn_def keyedReceipts_def set_mapSet image_iff length_mapSet Bex_def)

lemma keyed_mapHas: "keyedReceipts m \<Longrightarrow> mapHas m i \<longleftrightarrow> i \<in> rr_targetDeliveryId ` receiptsIn m"
  by (force simp: receiptsIn_def keyedReceipts_def mapHas_def image_iff)

abbreviation putReceipts :: "StoredReadReceiptEntry list \<Rightarrow> (js_string, StoredReadReceiptEntry) js_map \<Rightarrow> (js_string, StoredReadReceiptEntry) js_map" where
  "putReceipts es m \<equiv> fold (\<lambda>e acc. mapSet acc (rr_targetDeliveryId e) e) es m"

abbreviation addReceipts :: "StoredReadReceiptEntry list \<Rightarrow> (js_string, StoredReadReceiptEntry) js_map \<Rightarrow> (js_string, StoredReadReceiptEntry) js_map" where
  "addReceipts es m \<equiv> fold (\<lambda>e acc. if mapHas acc (rr_targetDeliveryId e) then acc else mapSet acc (rr_targetDeliveryId e) e) es m"

lemma put_receipts:
  assumes "keyedReceipts m" "m' = putReceipts es m"
  shows "keyedReceipts m' \<and> receiptsIn m' \<subseteq> set es \<union> receiptsIn m \<and> length m' \<le> length m + length es
    \<and> rr_targetDeliveryId ` receiptsIn m' = rr_targetDeliveryId ` (set es \<union> receiptsIn m)"
  using assms(1) unfolding assms(2)
proof (induction es arbitrary: m)
  case (Cons e es)
  note k = keyed_mapSet [OF Cons.prems, of e]
  have "rr_targetDeliveryId ` receiptsIn (mapSet m (rr_targetDeliveryId e) e) = insert (rr_targetDeliveryId e) (rr_targetDeliveryId ` receiptsIn m)"
    unfolding k(2) by auto
  with Cons.IH [OF k(1)] k(2,3) show ?case by (simp add: image_Un) blast
qed simp

lemma Collect_other: "v \<notin> f ` A \<Longrightarrow> {x \<in> A. f x \<noteq> v} = A"
  by auto

lemma add_receipts:
  assumes "keyedReceipts m" "m' = addReceipts es m"
  shows "keyedReceipts m' \<and> length m' \<le> length m + length es
    \<and> (\<forall>e \<in> receiptsIn m'. e \<in> receiptsIn m \<or> e \<in> set es \<and> rr_targetDeliveryId e \<notin> rr_targetDeliveryId ` receiptsIn m)
    \<and> rr_targetDeliveryId ` receiptsIn m' = rr_targetDeliveryId ` (set es \<union> receiptsIn m)"
  using assms(1) unfolding assms(2)
proof (induction es arbitrary: m)
  case (Cons e es)
  show ?case
  proof (cases "mapHas m (rr_targetDeliveryId e)")
    case True
    with Cons.IH [OF Cons.prems] show ?thesis by (auto simp: keyed_mapHas [OF Cons.prems])
  next
    case False
    note k = keyed_mapSet [OF Cons.prems, of e]
    have "{x \<in> receiptsIn m. rr_targetDeliveryId x \<noteq> rr_targetDeliveryId e} = receiptsIn m"
    proof -
      have "rr_targetDeliveryId e \<notin> rr_targetDeliveryId ` receiptsIn m" using False keyed_mapHas [OF Cons.prems] by simp
      then show ?thesis by (rule Collect_other)
    qed
    with Cons.IH [OF k(1)] k(2,3) False show ?thesis by (auto simp: keyed_mapHas [OF Cons.prems])
  qed
qed simp

lemma recorded:
  "\<exists>m. st_readReceiptOutbox (recordIncomingMessagesRead c is q t s) =
       (if is = [] then st_readReceiptOutbox s else sliceLast maxStoredReadReceiptEntries (js_sort compareReadAt (map snd m)))
    \<and> length m \<le> length (st_readReceiptOutbox s) + length (unique is)
    \<and> (\<forall>e \<in> receiptsIn m. e \<in> set (st_readReceiptOutbox s)
        \<or> e \<in> set (receiptEntries c is q t) \<and> rr_targetDeliveryId e \<notin> rr_targetDeliveryId ` set (st_readReceiptOutbox s))
    \<and> rr_targetDeliveryId ` receiptsIn m = set is \<union> rr_targetDeliveryId ` set (st_readReceiptOutbox s)"
proof -
  define b where "b = putReceipts (st_readReceiptOutbox s) []"
  define m where "m = addReceipts (receiptEntries c is q t) b"
  have k: "keyedReceipts []" by (simp add: keyedReceipts_def)
  note p = put_receipts [OF k b_def]
  note a = add_receipts [OF conjunct1 [OF p] m_def]
  have e: "rr_targetDeliveryId ` set (receiptEntries c is q t) = set is" "length (receiptEntries c is q t) = length (unique is)"
    using set_uniqueFrom [of "[]" "is"] by (simp_all add: receiptEntries_def image_comp comp_def)
  have "unique is = [] \<longleftrightarrow> is = []" using set_uniqueFrom [of "[]" "is"] by auto
  then have "st_readReceiptOutbox (recordIncomingMessagesRead c is q t s) = (if is = [] then st_readReceiptOutbox s
      else sliceLast maxStoredReadReceiptEntries (js_sort compareReadAt (map snd m)))"
    by (simp add: recordIncomingMessagesRead_def receiptEntries_def shiftTo_sliceLast Let_def m_def b_def)
  moreover have "length m \<le> length (st_readReceiptOutbox s) + length (unique is)"
    using p a e(2) by simp
  moreover have "\<forall>e \<in> receiptsIn m. e \<in> set (st_readReceiptOutbox s)
      \<or> e \<in> set (receiptEntries c is q t) \<and> rr_targetDeliveryId e \<notin> rr_targetDeliveryId ` set (st_readReceiptOutbox s)"
    using p a by auto
  moreover have "rr_targetDeliveryId ` receiptsIn m = set is \<union> rr_targetDeliveryId ` set (st_readReceiptOutbox s)"
    using p a e(1) by (simp add: image_Un)
  ultimately show ?thesis by blast
qed

lemma length_uniqueFrom: "length (uniqueFrom seen xs) \<le> length xs"
  by (induction seen xs rule: uniqueFrom.induct) auto

section \<open>Properties\<close>

text \<open>
  C24. Every store the application can reach from the empty one, by any sequence of slice operations with
  any arguments, satisfies the invariant: no conversation holds more than 192 messages, each is in
  chronological order and holds only its contact's messages; contacts, requests and folders are distinct
  and bounded; every folder assignment names a known contact and an existing folder; every image projection
  is valid and filed under its own identifier; outbox, receipts and typing entries are bounded.
\<close>

theorem store_invariant:
  assumes "(storeStep nfc lc)\<^sup>*\<^sup>* initialStore s"
  shows "storeOk s"
  using assms by (rule store.reachable_inv)

definition sampleMessage :: MessageSummary where
  "sampleMessage = \<lparr>msg_messageId = lit ''m1'', msg_contactId = lit ''c1'', msg_direction = Outgoing, msg_body = lit ''hi'', msg_sentAt = 5,
     msg_deliveryState = Pending, msg_applicationMessageId = None, msg_replyToMessageId = None\<rparr>"

theorem store_invariant_witness:
  "storeOk (forgetContact (lit ''c2'') (appendMessage sampleMessage initialStore))"
proof -
  have "storeStep id (\<lambda>_ _. 0) initialStore (appendMessage sampleMessage initialStore)" by (rule AppendMessage)
  moreover have "storeStep id (\<lambda>_ _. 0) (appendMessage sampleMessage initialStore) (forgetContact (lit ''c2'') (appendMessage sampleMessage initialStore))"
    by (rule ForgetContact)
  ultimately show ?thesis
    by (intro store_invariant [of id "\<lambda>_ _. 0"]) (rule rtranclp.rtrancl_into_rtrancl [OF r_into_rtranclp])
qed



lemma sample_conversation: "conversation (appendMessage sampleMessage initialStore) (lit ''c1'') = [sampleMessage]"
  by (simp add: appendMessage_def conversation_def initialStore_def sampleMessage_def mapGet_def sliceLast_def
      maxConversationTimelineEntries_def orderConversationMessages_def js_sort_def)




text \<open>
  Presenting messages records each target once and never turns a recorded receipt back into work: the
  list afterwards holds only entries it held before, unchanged, and new entries for presented targets that
  had none; it stays within its bound, and while the bound leaves room nothing is dropped.
\<close>

theorem read_receipts_recorded:
  "(\<forall>e \<in> set (st_readReceiptOutbox (recordIncomingMessagesRead c is q t s)). e \<in> set (st_readReceiptOutbox s)
      \<or> rr_targetDeliveryId e \<notin> rr_targetDeliveryId ` set (st_readReceiptOutbox s) \<and> rr_targetDeliveryId e \<in> set is
        \<and> e = \<lparr>rr_targetDeliveryId = rr_targetDeliveryId e, rr_contactId = c, rr_readAt = t, rr_receiptPending = q\<rparr>)
   \<and> (length (st_readReceiptOutbox s) + length is \<le> maxStoredReadReceiptEntries \<longrightarrow>
        rr_targetDeliveryId ` set (st_readReceiptOutbox (recordIncomingMessagesRead c is q t s))
          = rr_targetDeliveryId ` set (st_readReceiptOutbox s) \<union> set is)"
proof -
  obtain m where m: "st_readReceiptOutbox (recordIncomingMessagesRead c is q t s) =
      (if is = [] then st_readReceiptOutbox s else sliceLast maxStoredReadReceiptEntries (js_sort compareReadAt (map snd m)))"
    "length m \<le> length (st_readReceiptOutbox s) + length (unique is)"
    "\<forall>e \<in> receiptsIn m. e \<in> set (st_readReceiptOutbox s)
       \<or> e \<in> set (receiptEntries c is q t) \<and> rr_targetDeliveryId e \<notin> rr_targetDeliveryId ` set (st_readReceiptOutbox s)"
    "rr_targetDeliveryId ` receiptsIn m = set is \<union> rr_targetDeliveryId ` set (st_readReceiptOutbox s)"
    using recorded [of c "is" q t s] by blast
  have new: "rr_targetDeliveryId e \<in> set is
      \<and> e = \<lparr>rr_targetDeliveryId = rr_targetDeliveryId e, rr_contactId = c, rr_readAt = t, rr_receiptPending = q\<rparr>"
    if "e \<in> set (receiptEntries c is q t)" for e
  proof -
    from that obtain i where "i \<in> set (unique is)" "e = \<lparr>rr_targetDeliveryId = i, rr_contactId = c, rr_readAt = t, rr_receiptPending = q\<rparr>"
      unfolding receiptEntries_def by force
    then show ?thesis using set_uniqueFrom [of "[]" "is"] by simp
  qed
  have sub: "set (sliceLast maxStoredReadReceiptEntries (js_sort compareReadAt (map snd m))) \<subseteq> receiptsIn m"
    using set_sliceLast [of maxStoredReadReceiptEntries "js_sort compareReadAt (map snd m)"] by (simp add: receiptsIn_def)
  have all: "sliceLast maxStoredReadReceiptEntries (js_sort compareReadAt (map snd m)) = js_sort compareReadAt (map snd m)"
    if "length (st_readReceiptOutbox s) + length is \<le> maxStoredReadReceiptEntries"
    using that m(2) length_uniqueFrom [of "[]" "is"] by (intro sliceLast_id) simp
  show ?thesis
  proof (cases "is = []")
    case False
    have "\<forall>e \<in> set (sliceLast maxStoredReadReceiptEntries (js_sort compareReadAt (map snd m))). e \<in> set (st_readReceiptOutbox s)
        \<or> e \<in> set (receiptEntries c is q t) \<and> rr_targetDeliveryId e \<notin> rr_targetDeliveryId ` set (st_readReceiptOutbox s)"
      using sub m(3) by blast
    with False all m(4) new show ?thesis unfolding m(1) by (auto simp: Un_commute receiptsIn_def)
  qed (simp add: recordIncomingMessagesRead_def)
qed

theorem read_receipts_recorded_witness:
  "rr_targetDeliveryId ` set (st_readReceiptOutbox (recordIncomingMessagesRead (lit ''c1'') [lit ''d1'', lit ''d1''] True 7 initialStore))
     = {lit ''d1''}"
proof -
  have "st_readReceiptOutbox initialStore = []" by (simp add: initialStore_def)
  with conjunct2 [OF read_receipts_recorded [of "lit ''c1''" "[lit ''d1'', lit ''d1'']" True 7 initialStore]] show ?thesis
    by (simp add: maxStoredReadReceiptEntries_def)
qed

definition sampleRequest :: IncomingMessageRequest where
  "sampleRequest = \<lparr>req_requestId = lit ''r1'', req_senderPeerId = lit ''p1'', req_senderHpkePublicKey = lit ''k1'',
     req_senderDisplayName = lit ''Ann'', req_body = lit ''hello'', req_receivedAt = 3\<rparr>"

lemma conversation_cong: "st_messagesByContactId t = st_messagesByContactId s \<Longrightarrow> conversation t = conversation s"
  by (intro ext) (simp add: conversation_def)

lemma conversation_upsert: "conversation (s\<lparr>st_contacts := cs\<rparr>) = conversation s"
  by (rule conversation_cong) simp

lemma conversation_dismiss: "conversation (dismissMessageRequest i s) = conversation s"
  by (rule conversation_cong) (simp add: dismissMessageRequest_def)

lemma accept_request_steps:
  assumes "find (\<lambda>r. req_requestId r = i) (st_incomingMessageRequests s) = Some r"
  obtains c t k where "acceptMessageRequest u i s = (Some c, dismissMessageRequest i (appendMessage
      \<lparr>msg_messageId = req_requestId r, msg_contactId = c, msg_direction = Incoming, msg_body = req_body r,
       msg_sentAt = req_receivedAt r, msg_deliveryState = Received, msg_applicationMessageId = None, msg_replyToMessageId = None\<rparr> t))"
    "k \<in> set (st_contacts t)" "contact_contactId k = c" "contact_peerId k = Some (req_senderPeerId r)" "conversation t = conversation s"
proof (cases "find (\<lambda>k. contact_peerId k = Some (req_senderPeerId r)) (st_contacts s)")
  case None
  define k where "k = \<lparr>contact_contactId = u, contact_displayName = req_senderDisplayName r, contact_peerId = Some (req_senderPeerId r),
    contact_hpkePublicKey = Some (req_senderHpkePublicKey r), contact_lastRouteHint = None\<rparr>"
  show ?thesis
    by (rule that [of u "upsertContact k s" k])
      (use assms None in \<open>simp_all add: acceptMessageRequest_def Let_def k_def upsertContact_def conversation_upsert\<close>)
next
  case (Some k)
  then have "k \<in> set (st_contacts s)" "contact_peerId k = Some (req_senderPeerId r)" by (auto simp: find_Some_iff)
  with assms Some show ?thesis by (intro that [of "contact_contactId k" s k]) (simp_all add: acceptMessageRequest_def Let_def)
qed

text \<open>
  Accepting a message request moves it into a conversation: with room in the timeline, the answer names
  a contact that has the sender's peer identifier and whose conversation holds the message, the request is
  gone from the list and no other conversation has changed.
\<close>

theorem accept_request_moves:
  assumes "find (\<lambda>r. req_requestId r = i) (st_incomingMessageRequests s) = Some r"
    and "\<forall>c. length (conversation s c) < maxConversationTimelineEntries"
  shows "\<exists>c s'. acceptMessageRequest u i s = (Some c, s')
    \<and> (\<exists>k \<in> set (st_contacts s'). contact_contactId k = c \<and> contact_peerId k = Some (req_senderPeerId r))
    \<and> (\<exists>m \<in> set (conversation s' c). msg_messageId m = i \<and> msg_body m = req_body r \<and> msg_direction m = Incoming
        \<and> msg_sentAt m = req_receivedAt r)
    \<and> i \<notin> req_requestId ` set (st_incomingMessageRequests s') \<and> (\<forall>c' \<noteq> c. conversation s' c' = conversation s c')"
proof -
  define m where "m c = \<lparr>msg_messageId = req_requestId r, msg_contactId = c, msg_direction = Incoming, msg_body = req_body r,
    msg_sentAt = req_receivedAt r, msg_deliveryState = Received, msg_applicationMessageId = None, msg_replyToMessageId = None\<rparr>" for c
  have r: "req_requestId r = i" using assms(1) by (auto simp: find_Some_iff)
  have m: "msg_messageId (m c) = i" "msg_contactId (m c) = c" "msg_body (m c) = req_body r" "msg_direction (m c) = Incoming"
    "msg_sentAt (m c) = req_receivedAt r" for c
    by (simp_all add: m_def r)
  obtain c t k where t: "acceptMessageRequest u i s = (Some c, dismissMessageRequest i (appendMessage (m c) t))"
    "k \<in> set (st_contacts t)" "contact_contactId k = c" "contact_peerId k = Some (req_senderPeerId r)" "conversation t = conversation s"
    by (rule accept_request_steps [OF assms(1), of u]) (auto simp: m_def)
  have a: "conversation (appendMessage (m c) t) c = sliceLast maxConversationTimelineEntries (orderConversationMessages
      (filter (\<lambda>e. msg_messageId e \<noteq> i) (conversation s c) @ [m c]))"
    "c' \<noteq> c \<Longrightarrow> conversation (appendMessage (m c) t) c' = conversation s c'" for c'
    by (simp_all add: appendMessage_def m flip: t(5)) (simp_all add: conversation_def m)
  have "length (filter (\<lambda>e. msg_messageId e \<noteq> i) (conversation s c)) < maxConversationTimelineEntries"
    using assms(2) le_less_trans [OF length_filter_le] by blast
  then have "m c \<in> set (conversation (appendMessage (m c) t) c)"
    unfolding a(1) by (subst sliceLast_id) simp_all
  then have "\<exists>x \<in> set (conversation (appendMessage (m c) t) c). msg_messageId x = i \<and> msg_body x = req_body r \<and> msg_direction x = Incoming
      \<and> msg_sentAt x = req_receivedAt r"
    using m by blast
  moreover have "conversation (dismissMessageRequest i x) = conversation x" "st_contacts (dismissMessageRequest i x) = st_contacts x"
    "i \<notin> req_requestId ` set (st_incomingMessageRequests (dismissMessageRequest i x))" for x
    by (auto simp: conversation_dismiss) (auto simp: dismissMessageRequest_def)
  moreover have "st_contacts (appendMessage (m c) t) = st_contacts t" by (simp add: appendMessage_def)
  ultimately show ?thesis
    using t(2-4) a(2) by (intro exI [of _ c] exI [of _ "dismissMessageRequest i (appendMessage (m c) t)"] conjI t(1)) auto
qed

theorem accept_request_moves_witness:
  "\<exists>c s'. acceptMessageRequest (lit ''u'') (lit ''r1'') (receiveMessageRequest sampleRequest initialStore) = (Some c, s')
     \<and> (\<exists>m \<in> set (conversation s' c). msg_messageId m = lit ''r1'')"
proof -
  have s: "receiveMessageRequest sampleRequest initialStore = initialStore\<lparr>st_incomingMessageRequests := [sampleRequest]\<rparr>"
    by (simp add: receiveMessageRequest_def initialStore_def js_sort_def maxIncomingMessageRequests_def)
  have "find (\<lambda>r. req_requestId r = lit ''r1'') (st_incomingMessageRequests (receiveMessageRequest sampleRequest initialStore)) = Some sampleRequest"
    unfolding s by (simp add: sampleRequest_def)
  moreover have "\<forall>c. length (conversation (receiveMessageRequest sampleRequest initialStore) c) < maxConversationTimelineEntries"
    unfolding s by (simp add: conversation_def initialStore_def mapGet_def maxConversationTimelineEntries_def)
  ultimately show ?thesis using accept_request_moves by blast
qed

end
