(* ===== verification/ApplicationControl.thy ===== *)
theory ApplicationControl
  imports Codec_Tools
begin

text \<open>
  \<^verbatim>\<open>application-control/runtime.ts\<close>: signed control messages between endpoints. The envelope and
  its codec, the registry of descriptors, and the admission of an inbound control up to the effects it
  may have. A descriptor's body codec and its reducer are fields of the descriptor, as in the source;
  the Ed25519 verifier, the contact list, the policy and the replay memory are ports, arguments of the
  model. \<^verbatim>\<open>processApplicationControl\<close> is split at its only \<^verbatim>\<open>await\<close>; its call of
  \<^verbatim>\<open>rememberControl\<close> is the second component of its result.
\<close>

section \<open>Data\<close>

definition applicationControlWireVersion :: js_string where
  "applicationControlWireVersion = lit ''branch.application-control/0.draft''"

definition applicationControlSignatureDomain :: js_string where
  "applicationControlSignatureDomain = lit ''branch.application-control.signature/0.draft''"

definition maxControlBytes :: nat where "maxControlBytes = 4096"
definition maxControlKindBytes :: nat where "maxControlKindBytes = 96"
definition maxControlBodyBytes :: nat where "maxControlBodyBytes = 2048"

datatype ApplicationControlAuthentication = AuthNone | AuthEd25519
datatype ApplicationControlProjection = ProjectEphemeral | ProjectMessageMetadata
datatype ApplicationControlEffectKind = EphemeralProjectionKind | MessageMetadataKind | OutboundControlKind

record ApplicationControlEnvelope =
  control_version :: js_string
  control_kind :: js_string
  control_controlId :: js_string
  control_issuedAt :: int
  control_expiresAt :: int
  control_senderPeerId :: js_string
  control_recipientPeerId :: js_string
  control_body :: bytes
  control_signature :: bytes

datatype ApplicationControlEffect =
    EphemeralProjection js_string bytes int
  | MessageMetadata js_string js_string
  | OutboundControl js_string bytes int

fun effectKind :: "ApplicationControlEffect \<Rightarrow> ApplicationControlEffectKind" where
  "effectKind (EphemeralProjection projection value expiresAt) = EphemeralProjectionKind"
| "effectKind (MessageMetadata deliveryId state) = MessageMetadataKind"
| "effectKind (OutboundControl controlKind body expiresAt) = OutboundControlKind"

record 'b ApplicationControlDescriptor =
  desc_kind :: js_string
  desc_authentication :: ApplicationControlAuthentication
  desc_maximumTTLms :: int
  desc_projection :: ApplicationControlProjection
  desc_allowedEffects :: "ApplicationControlEffectKind list"
  desc_decodeBody :: "bytes \<Rightarrow> 'b res"
  desc_encodeBody :: "'b \<Rightarrow> bytes res"
  desc_reduce :: "ApplicationControlEnvelope \<Rightarrow> 'b \<Rightarrow> ApplicationControlEffect list res"

record ApplicationControlPorts =
  ports_now :: int
  ports_localPeerId :: js_string
  ports_isKnownContact :: "js_string \<Rightarrow> bool"
  ports_verifyEd25519 :: "js_string \<Rightarrow> bytes \<Rightarrow> bytes \<Rightarrow> bool res"
  ports_hasSeenControl :: "js_string \<Rightarrow> bool"
  ports_isAllowed :: "js_string \<Rightarrow> js_string \<Rightarrow> bool"
  ports_maxClockSkewMs :: int

datatype ApplicationControlRejection =
    Malformed | UnknownKind | RecipientMismatch | UnknownContact | ControlExpired | FutureIssued | TtlExceeded
  | ControlReplay | PolicyDenied | SignatureInvalid | BodyInvalid | EffectForbidden

datatype ApplicationControlResult =
    ControlAccepted "ApplicationControlEffect list"
  | ControlRejected ApplicationControlRejection

record 'b OutboundApplicationControl =
  out_kind :: js_string
  out_controlId :: js_string
  out_issuedAt :: int
  out_expiresAt :: int
  out_senderPeerId :: js_string
  out_recipientPeerId :: js_string
  out_body :: 'b

record OutboundApplicationControlPorts =
  oports_now :: int
  oports_localPeerId :: js_string
  oports_isKnownContact :: "js_string \<Rightarrow> bool"
  oports_isAllowed :: "js_string \<Rightarrow> js_string \<Rightarrow> bool"
  oports_consumeRateLimit :: "js_string \<Rightarrow> js_string \<Rightarrow> int \<Rightarrow> bool"
  oports_maxClockSkewMs :: int

type_synonym 'b controlRegistry = "(js_string, 'b ApplicationControlDescriptor) js_map"

section \<open>Validators\<close>

definition isBase64URLBytes :: "js_string \<Rightarrow> nat \<Rightarrow> bool" where
  "isBase64URLBytes value sz = (case decodeBase64URL value of Inl _ \<Rightarrow> False | Inr bs \<Rightarrow> length bs = sz)"

definition requireBase64URLBytes :: "js_string \<Rightarrow> nat \<Rightarrow> js_string \<Rightarrow> js_string res" where
  "requireBase64URLBytes value sz label =
     (if \<not> isBase64URLBytes value sz then Inl (PlainError (lit ''invalid '' @ label)) else Inr value)"

definition boundedBody :: "bytes \<Rightarrow> bytes res" where
  "boundedBody value =
     (if length value = 0 \<or> length value > maxControlBodyBytes then throw ''invalid application control body'' else Inr value)"

definition validateDescriptor :: "'b ApplicationControlDescriptor \<Rightarrow> unit res" where
  "validateDescriptor d = throwIf
     (length (textEncode (desc_kind d)) = 0 \<or> length (textEncode (desc_kind d)) > maxControlKindBytes
      \<or> desc_maximumTTLms d \<le> 0 \<or> \<not> isSafeInteger (desc_maximumTTLms d))
     (PlainError (lit ''invalid application control descriptor''))"

definition validateEnvelope :: "ApplicationControlEnvelope \<Rightarrow> unit res" where
  "validateEnvelope e =
     andThen (throwIf
       (control_version e \<noteq> applicationControlWireVersion
        \<or> length (textEncode (control_kind e)) = 0
        \<or> length (textEncode (control_kind e)) > maxControlKindBytes
        \<or> control_expiresAt e \<le> control_issuedAt e)
       (PlainError (lit ''invalid application control envelope''))) (\<lambda>_.
     andThen (requireBase64URLBytes (control_controlId e) 16 (lit ''control id'')) (\<lambda>_.
     andThen (requireBase64URLBytes (control_senderPeerId e) 32 (lit ''sender peer id'')) (\<lambda>_.
     andThen (requireBase64URLBytes (control_recipientPeerId e) 32 (lit ''recipient peer id'')) (\<lambda>_.
     andThen (boundedBody (control_body e)) (\<lambda>_. throwIf
       (length (control_signature e) \<noteq> 0 \<and> length (control_signature e) \<noteq> 64)
       (PlainError (lit ''invalid application control signature'')))))))"

definition effectIsBounded :: "int \<Rightarrow> ApplicationControlEffect \<Rightarrow> bool" where
  "effectIsBounded envelopeExpiry effect = (case effect of
      EphemeralProjection projection value expiresAt \<Rightarrow>
        length projection > 0 \<and> length value \<le> maxControlBodyBytes \<and> expiresAt > 0 \<and> expiresAt \<le> envelopeExpiry
    | MessageMetadata deliveryId state \<Rightarrow>
        isBase64URLBytes deliveryId 16 \<and> length state > 0 \<and> length state \<le> 64
    | OutboundControl controlKind body expiresAt \<Rightarrow>
        length controlKind > 0 \<and> length controlKind \<le> maxControlKindBytes \<and> length body \<le> maxControlBodyBytes
        \<and> expiresAt > 0 \<and> expiresAt \<le> envelopeExpiry)"

definition effectsAreBounded :: "ApplicationControlEffect list \<Rightarrow> int \<Rightarrow> bool" where
  "effectsAreBounded effects envelopeExpiry \<longleftrightarrow> length effects \<le> 4 \<and> (\<forall>effect \<in> set effects. effectIsBounded envelopeExpiry effect)"

section \<open>The codec\<close>

definition envelopeMap :: "ApplicationControlEnvelope \<Rightarrow> bool \<Rightarrow> cbor res" where
  "envelopeMap e includeSignature =
     andThen (decodeBase64URL (control_controlId e)) (\<lambda>controlId.
     andThen (decodeBase64URL (control_senderPeerId e)) (\<lambda>senderPeerId.
     andThen (decodeBase64URL (control_recipientPeerId e)) (\<lambda>recipientPeerId.
       let entries =
         [(lit ''version'', CText (control_version e)),
          (lit ''kind'', CText (control_kind e)),
          (lit ''control_id'', CBytes controlId),
          (lit ''issued_at'', CNum (control_issuedAt e)),
          (lit ''expires_at'', CNum (control_expiresAt e)),
          (lit ''sender_peer_id'', CBytes senderPeerId),
          (lit ''recipient_peer_id'', CBytes recipientPeerId),
          (lit ''body'', CBytes (control_body e))]
       in Inr (CMap (if includeSignature then entries @ [(lit ''signature'', CBytes (control_signature e))] else entries)))))"

definition encodeApplicationControl :: "ApplicationControlEnvelope \<Rightarrow> bytes res" where
  "encodeApplicationControl e =
     andThen (validateEnvelope e) (\<lambda>_. andThen (envelopeMap e True) encodeDeterministicCbor)"

definition applicationControlSigningBytes :: "ApplicationControlEnvelope \<Rightarrow> bytes res" where
  "applicationControlSigningBytes e =
     andThen (envelopeMap e False) (\<lambda>m. andThen (encodeDeterministicCbor m) (\<lambda>body.
       Inr (concat [textEncode (applicationControlSignatureDomain @ [0]), body])))"

definition readControlVersion :: "cborMap \<Rightarrow> js_string res" where
  "readControlVersion m =
     andThen (getRequiredEntry m (lit ''version'')) (\<lambda>v.
     andThen (readText v (lit ''version'')) (\<lambda>version.
       if version \<noteq> applicationControlWireVersion then throw ''unsupported application control version''
       else Inr applicationControlWireVersion))"

definition readControlKind :: "cborMap \<Rightarrow> js_string res" where
  "readControlKind m =
     andThen (getRequiredEntry m (lit ''kind'')) (\<lambda>v.
     andThen (readText v (lit ''kind'')) (\<lambda>kind.
       if length (textEncode kind) > maxControlKindBytes then throw ''invalid application control kind'' else Inr kind))"

definition readBytesOrEmpty :: "cbor \<Rightarrow> js_string \<Rightarrow> bytes res" where
  "readBytesOrEmpty value label = (case value of
      CBytes b \<Rightarrow> if length b > 64 then Inl (PlainError (lit ''invalid '' @ label)) else Inr b
    | _ \<Rightarrow> Inl (PlainError (lit ''invalid '' @ label)))"

definition decodeApplicationControl :: "bytes \<Rightarrow> ApplicationControlEnvelope res" where
  "decodeApplicationControl bs =
     (if length bs = 0 \<or> length bs > maxControlBytes then throw ''invalid application control size''
      else
        andThen (decodeDeterministicCbor bs maxControlBytes) (\<lambda>value.
        andThen (readCborMap value (lit ''application_control'')) (\<lambda>m.
        andThen (rejectUnknownEntries m [lit ''version'', lit ''kind'', lit ''control_id'', lit ''issued_at'',
          lit ''expires_at'', lit ''sender_peer_id'', lit ''recipient_peer_id'', lit ''body'', lit ''signature'']) (\<lambda>_.
        andThen (readControlVersion m) (\<lambda>version.
        andThen (readControlKind m) (\<lambda>kind.
        andThen (token m (lit ''control_id'') 16) (\<lambda>controlId.
        andThen (number m (lit ''issued_at'')) (\<lambda>issuedAt.
        andThen (number m (lit ''expires_at'')) (\<lambda>expiresAt.
        andThen (token m (lit ''sender_peer_id'') 32) (\<lambda>senderPeerId.
        andThen (token m (lit ''recipient_peer_id'') 32) (\<lambda>recipientPeerId.
        andThen (getRequiredEntry m (lit ''body'')) (\<lambda>b.
        andThen (readBytes b (lit ''body'') None) (\<lambda>raw.
        andThen (boundedBody raw) (\<lambda>body.
        andThen (getRequiredEntry m (lit ''signature'')) (\<lambda>s.
        andThen (readBytesOrEmpty s (lit ''signature'')) (\<lambda>signature.
          let envelope = \<lparr>control_version = version, control_kind = kind, control_controlId = controlId,
            control_issuedAt = issuedAt, control_expiresAt = expiresAt, control_senderPeerId = senderPeerId,
            control_recipientPeerId = recipientPeerId, control_body = body, control_signature = signature\<rparr>
          in andThen (validateEnvelope envelope) (\<lambda>_. Inr envelope)))))))))))))))))"

section \<open>The registry\<close>

fun registerControls ::
  "'b controlRegistry \<Rightarrow> 'b ApplicationControlDescriptor list \<Rightarrow> 'b controlRegistry res" where
  "registerControls registry [] = Inr registry"
| "registerControls registry (descriptor # descriptors) =
     andThen (validateDescriptor descriptor) (\<lambda>_.
       if mapHas registry (desc_kind descriptor) then throw ''duplicate application control descriptor''
       else registerControls (mapSet registry (desc_kind descriptor) descriptor) descriptors)"

definition createApplicationControlRegistry :: "'b ApplicationControlDescriptor list \<Rightarrow> 'b controlRegistry res" where
  "createApplicationControlRegistry descriptors = registerControls [] descriptors"

section \<open>Admission\<close>

type_synonym controlOutcome = "ApplicationControlResult \<times> (js_string \<times> int) option"

datatype 'b controlProgress =
    ControlSettled ApplicationControlResult
  | ControlAdmitted ApplicationControlEnvelope "'b ApplicationControlDescriptor"

text \<open>The checks that come before the signature is looked at.\<close>

definition admitControl :: "bytes \<Rightarrow> 'b controlRegistry \<Rightarrow> ApplicationControlPorts \<Rightarrow> 'b controlProgress" where
  "admitControl bs registry ports =
     (case decodeApplicationControl bs of
        Inl _ \<Rightarrow> ControlSettled (ControlRejected Malformed)
      | Inr envelope \<Rightarrow>
          case mapGet registry (control_kind envelope) of
            None \<Rightarrow> ControlSettled (ControlRejected UnknownKind)
          | Some descriptor \<Rightarrow>
              if control_recipientPeerId envelope \<noteq> ports_localPeerId ports
              then ControlSettled (ControlRejected RecipientMismatch)
              else if \<not> ports_isKnownContact ports (control_senderPeerId envelope)
              then ControlSettled (ControlRejected UnknownContact)
              else if control_expiresAt envelope \<le> ports_now ports
              then ControlSettled (ControlRejected ControlExpired)
              else if control_issuedAt envelope > ports_now ports + ports_maxClockSkewMs ports
              then ControlSettled (ControlRejected FutureIssued)
              else if control_expiresAt envelope - control_issuedAt envelope > desc_maximumTTLms descriptor
              then ControlSettled (ControlRejected TtlExceeded)
              else if ports_hasSeenControl ports (control_controlId envelope)
              then ControlSettled (ControlRejected ControlReplay)
              else if \<not> ports_isAllowed ports (control_kind envelope) (control_senderPeerId envelope)
              then ControlSettled (ControlRejected PolicyDenied)
              else ControlAdmitted envelope descriptor)"

text \<open>The signature: \<^verbatim>\<open>ports.verifyEd25519\<close> is awaited, and an unsigned kind must carry none.\<close>

definition controlSignatureOk :: "ApplicationControlPorts \<Rightarrow> ApplicationControlEnvelope \<Rightarrow> 'b ApplicationControlDescriptor \<Rightarrow> bool res" where
  "controlSignatureOk ports envelope descriptor =
     (if desc_authentication descriptor = AuthEd25519
      then andThen (applicationControlSigningBytes envelope) (\<lambda>input.
        ports_verifyEd25519 ports (control_senderPeerId envelope) input (control_signature envelope))
      else Inr (length (control_signature envelope) = 0))"

text \<open>What follows the signature: the body, its effects and the replay memory.\<close>

definition projectControl :: "ApplicationControlEnvelope \<Rightarrow> 'b ApplicationControlDescriptor \<Rightarrow> controlOutcome res" where
  "projectControl envelope descriptor =
     (case desc_decodeBody descriptor (control_body envelope) of
        Inl _ \<Rightarrow> Inr (ControlRejected BodyInvalid, None)
      | Inr body \<Rightarrow>
          andThen (desc_reduce descriptor envelope body) (\<lambda>effects.
            if \<not> (\<forall>effect \<in> set effects. effectKind effect \<in> set (desc_allowedEffects descriptor))
               \<or> \<not> effectsAreBounded effects (control_expiresAt envelope)
            then Inr (ControlRejected EffectForbidden, None)
            else Inr (ControlAccepted effects, Some (control_controlId envelope, control_expiresAt envelope))))"

definition processApplicationControl :: "bytes \<Rightarrow> 'b controlRegistry \<Rightarrow> ApplicationControlPorts \<Rightarrow> controlOutcome res" where
  "processApplicationControl bs registry ports =
     (case admitControl bs registry ports of
        ControlSettled result \<Rightarrow> Inr (result, None)
      | ControlAdmitted envelope descriptor \<Rightarrow>
          andThen (controlSignatureOk ports envelope descriptor) (\<lambda>ok.
            if \<not> ok then Inr (ControlRejected SignatureInvalid, None)
            else projectControl envelope descriptor))"

definition prepareOutboundApplicationControl ::
  "'b OutboundApplicationControl \<Rightarrow> 'b ApplicationControlDescriptor \<Rightarrow> OutboundApplicationControlPorts
     \<Rightarrow> ApplicationControlEnvelope res" where
  "prepareOutboundApplicationControl control descriptor ports =
     andThen (validateDescriptor descriptor) (\<lambda>_.
       if out_kind control \<noteq> desc_kind descriptor \<or> out_senderPeerId control \<noteq> oports_localPeerId ports
          \<or> \<not> oports_isKnownContact ports (out_recipientPeerId control)
          \<or> \<not> oports_isAllowed ports (desc_kind descriptor) (out_recipientPeerId control)
       then throw ''application control outbound policy denied''
       else
         andThen (requireBase64URLBytes (out_controlId control) 16 (lit ''control id'')) (\<lambda>controlId.
         andThen (requireBase64URLBytes (out_senderPeerId control) 32 (lit ''sender peer id'')) (\<lambda>senderPeerId.
         andThen (requireBase64URLBytes (out_recipientPeerId control) 32 (lit ''recipient peer id'')) (\<lambda>recipientPeerId.
         andThen (desc_encodeBody descriptor (out_body control)) (\<lambda>encodedBody.
         andThen (boundedBody encodedBody) (\<lambda>body.
           let envelope = \<lparr>control_version = applicationControlWireVersion, control_kind = desc_kind descriptor,
             control_controlId = controlId, control_issuedAt = out_issuedAt control,
             control_expiresAt = out_expiresAt control, control_senderPeerId = senderPeerId,
             control_recipientPeerId = recipientPeerId, control_body = body, control_signature = []\<rparr>
           in if control_issuedAt envelope > oports_now ports + oports_maxClockSkewMs ports
                 \<or> control_expiresAt envelope \<le> oports_now ports
                 \<or> control_expiresAt envelope - control_issuedAt envelope > desc_maximumTTLms descriptor
              then throw ''invalid application control lifetime''
              else if \<not> oports_consumeRateLimit ports (desc_kind descriptor) (control_recipientPeerId envelope) (oports_now ports)
              then throw ''application control rate limited''
              else Inr envelope))))))"

section \<open>The codec meets its contract\<close>

definition goodControl :: "ApplicationControlEnvelope \<Rightarrow> bool" where
  "goodControl e \<longleftrightarrow> validateEnvelope e = Inr ()
     \<and> goodToken (control_controlId e) 16 \<and> goodToken (control_senderPeerId e) 32 \<and> goodToken (control_recipientPeerId e) 32
     \<and> goodTime (control_issuedAt e) \<and> goodTime (control_expiresAt e) \<and> goodText (control_kind e) 96"

abbreviation controlNames :: "js_string list" where
  "controlNames \<equiv> [lit ''version'', lit ''kind'', lit ''control_id'', lit ''issued_at'',
     lit ''expires_at'', lit ''sender_peer_id'', lit ''recipient_peer_id'', lit ''body'', lit ''signature'']"

definition controlEntries :: "ApplicationControlEnvelope \<Rightarrow> cborMap" where
  "controlEntries e =
     [(lit ''version'', CText (control_version e)),
      (lit ''kind'', CText (control_kind e)),
      (lit ''control_id'', CBytes (tokenBytes (control_controlId e))),
      (lit ''issued_at'', CNum (control_issuedAt e)),
      (lit ''expires_at'', CNum (control_expiresAt e)),
      (lit ''sender_peer_id'', CBytes (tokenBytes (control_senderPeerId e))),
      (lit ''recipient_peer_id'', CBytes (tokenBytes (control_recipientPeerId e))),
      (lit ''body'', CBytes (control_body e))]"

lemma isBase64URLBytes_validToken [simp]: "isBase64URLBytes = validToken"
  by (intro ext) (simp add: isBase64URLBytes_def validToken_def)

lemma requireBase64URLBytes_Inr [res_simps]: "requireBase64URLBytes v n l = Inr w \<longleftrightarrow> validToken v n \<and> w = v"
  by (auto simp: requireBase64URLBytes_def)

lemma boundedBody_Inr [res_simps]: "boundedBody b = Inr c \<longleftrightarrow> c = b \<and> b \<noteq> [] \<and> length b \<le> 2048"
  by (auto simp: boundedBody_def maxControlBodyBytes_def)

lemma validateEnvelope_Inr [res_simps]:
  "validateEnvelope e = Inr u \<longleftrightarrow> control_version e = applicationControlWireVersion
     \<and> 0 < length (textEncode (control_kind e)) \<and> length (textEncode (control_kind e)) \<le> 96
     \<and> control_issuedAt e < control_expiresAt e \<and> validToken (control_controlId e) 16
     \<and> validToken (control_senderPeerId e) 32 \<and> validToken (control_recipientPeerId e) 32
     \<and> control_body e \<noteq> [] \<and> length (control_body e) \<le> 2048
     \<and> (control_signature e = [] \<or> length (control_signature e) = 64)"
  by (auto simp: validateEnvelope_def res_simps maxControlKindBytes_def)

lemma readControlVersion_Inr [res_simps]:
  "readControlVersion m = Inr v \<longleftrightarrow> v = applicationControlWireVersion \<and> map_of m (lit ''version'') = Some (CText v)"
  by (auto simp: readControlVersion_def res_simps applicationControlWireVersion_def maxCborTextBytes_def)

lemma readControlKind_Inr [res_simps]:
  "readControlKind m = Inr k \<longleftrightarrow> map_of m (lit ''kind'') = Some (CText k) \<and> k \<noteq> [] \<and> length (textEncode k) \<le> 96"
  by (cases "map_of m (lit ''kind'')")
    (auto simp: readControlKind_def getRequiredEntry_def readText_def invalidEntry_def maxControlKindBytes_def maxCborTextBytes_def
      split: cbor.splits if_splits)

lemma readBytesOrEmpty_Inr [res_simps]: "readBytesOrEmpty v l = Inr b \<longleftrightarrow> v = CBytes b \<and> length b \<le> 64"
  by (auto simp: readBytesOrEmpty_def split: cbor.splits)

lemma goodControl_facts:
  assumes "goodControl e"
  shows "validateEnvelope e = Inr ()" "goodToken (control_controlId e) 16" "goodToken (control_senderPeerId e) 32"
    "goodToken (control_recipientPeerId e) 32" "goodTime (control_issuedAt e)" "goodTime (control_expiresAt e)"
    "goodText (control_kind e) 96" "control_version e = applicationControlWireVersion"
    "control_body e \<noteq> []" "length (control_body e) \<le> 2048" "length (control_signature e) \<le> 64"
  using assms by (auto simp: goodControl_def res_simps)

lemma envelopeMap_entries:
  assumes "goodControl e"
  shows "envelopeMap e sig = Inr (CMap (controlEntries e @ (if sig then [(lit ''signature'', CBytes (control_signature e))] else [])))"
  using goodControl_facts(2-4) [OF assms] by (simp add: envelopeMap_def controlEntries_def goodToken_facts(1) Let_def)

lemma controlEntries_wf:
  assumes "goodControl e"
  shows "wfCbor (CMap (controlEntries e @ [(lit ''signature'', CBytes (control_signature e))]))"
    "wfCbor (CMap (controlEntries e))"
  using goodControl_facts [OF assms] goodText_decodable [OF goodControl_facts(7) [OF assms]]
  by (simp_all add: controlEntries_def applicationControlWireVersion_def goodTime_def maxCborCollectionEntries_def goodToken_size)
    (simp_all add: maxCborBytes_def)

lemma controlEntries_bound:
  assumes "goodControl e"
  shows "cborBound (CMap (controlEntries e @ [(lit ''signature'', CBytes (control_signature e))])) \<le> 4096"
  using goodControl_facts [OF assms] goodToken_facts(3) [OF goodControl_facts(2) [OF assms]]
    goodToken_facts(3) [OF goodControl_facts(3) [OF assms]] goodToken_facts(3) [OF goodControl_facts(4) [OF assms]]
  by (simp add: controlEntries_def applicationControlWireVersion_def goodText_def)

interpretation application_control: flat_codec encodeApplicationControl decodeApplicationControl goodControl
  "\<lambda>e. controlEntries e @ [(lit ''signature'', CBytes (control_signature e))]" controlNames 4096
proof
  fix e assume e: "goodControl e"
  let ?es = "controlEntries e @ [(lit ''signature'', CBytes (control_signature e))]"
  show "encodeApplicationControl e = encodeDeterministicCbor (CMap ?es)"
    using goodControl_facts(1) [OF e] by (simp add: encodeApplicationControl_def envelopeMap_entries [OF e] del: encodeDeterministicCbor.simps)
  show wf: "wfCbor (CMap ?es) \<and> (\<forall>v \<in> snd ` set ?es. scalar v)"
    using controlEntries_wf(1) [OF e] by (simp add: controlEntries_def)
  then show "length (encoded (CMap ?es)) \<le> 4096"
    using controlEntries_bound [OF e] by (blast intro: length_encoded_bound)
  show "fst ` set ?es \<subseteq> set controlNames" by (simp add: controlEntries_def)
next
  fix c e k assume c: "goodControl c" "decodeDeterministicCbor e 4096 = Inr (CMap k)"
    "map_of k = map_of (controlEntries c @ [(lit ''signature'', CBytes (control_signature c))])"
    "fst ` set k \<subseteq> set controlNames"
  note f = goodControl_facts [OF c(1)]
  show "decodeApplicationControl e = Inr c"
    using f c(2-) decode_size [OF c(2)] tokenFacts [OF f(2)] tokenFacts [OF f(3)] tokenFacts [OF f(4)]
    by (cases c) (simp add: decodeApplicationControl_def controlEntries_def res_simps
        maxCborBytes_def maxCborTextBytes_def maxControlBytes_def Let_def goodText_def)
next
  fix e c assume dec: "decodeApplicationControl e = Inr c"
  then obtain k cid sid rid where k: "decodeDeterministicCbor e 4096 = Inr (CMap k)" "fst ` set k \<subseteq> set controlNames"
    and fields: "map_of k (lit ''version'') = Some (CText (control_version c))"
    "map_of k (lit ''kind'') = Some (CText (control_kind c))"
    "map_of k (lit ''control_id'') = Some (CBytes cid)"
    "map_of k (lit ''issued_at'') = Some (CNum (control_issuedAt c))"
    "map_of k (lit ''expires_at'') = Some (CNum (control_expiresAt c))"
    "map_of k (lit ''sender_peer_id'') = Some (CBytes sid)"
    "map_of k (lit ''recipient_peer_id'') = Some (CBytes rid)"
    "map_of k (lit ''body'') = Some (CBytes (control_body c))"
    "map_of k (lit ''signature'') = Some (CBytes (control_signature c))"
    and tok: "control_controlId c = encodeBase64URL cid" "length cid = 16" "control_senderPeerId c = encodeBase64URL sid" "length sid = 32"
    "control_recipientPeerId c = encodeBase64URL rid" "length rid = 32"
    and rest: "goodTime (control_issuedAt c)" "goodTime (control_expiresAt c)" "validateEnvelope c = Inr ()"
      "control_kind c \<noteq> []" "length (textEncode (control_kind c)) \<le> 96"
    unfolding decodeApplicationControl_def maxControlBytes_def
    by (clarsimp simp: res_simps maxCborBytes_def maxCborTextBytes_def Let_def)
  have "goodControl c"
    using tok rest decoded_entry [OF k(1) fields(2)] by (auto simp: goodControl_def decodable_goodText)
  then show "goodControl c \<and> (\<exists>k. decodeDeterministicCbor e 4096 = Inr (CMap k)
    \<and> fst ` set k \<subseteq> set controlNames \<and> (\<forall>key \<in> set controlNames. map_of k key
      = map_of (controlEntries c @ [(lit ''signature'', CBytes (control_signature c))]) key))"
    using k fields by (intro conjI exI [of _ k]) (simp_all add: controlEntries_def tok)
qed

section \<open>Signing bytes\<close>

lemma controlSigningBytes_eq:
  assumes "goodControl e"
  shows "applicationControlSigningBytes e = andThen (encodeDeterministicCbor (CMap (controlEntries e)))
    (\<lambda>body. Inr (textEncode (applicationControlSignatureDomain @ [0]) @ body))"
  by (simp add: applicationControlSigningBytes_def envelopeMap_entries [OF assms] del: encodeDeterministicCbor.simps)

lemma controlSigningBytes_inject:
  assumes "goodControl e" "goodControl e'" "applicationControlSigningBytes e = applicationControlSigningBytes e'"
  shows "e' = e\<lparr>control_signature := control_signature e'\<rparr>"
proof -
  have same: "map_of (controlEntries e) = map_of (controlEntries e')"
  proof (rule encode_flat_inject)
    show "encodeDeterministicCbor (CMap (controlEntries e)) = encodeDeterministicCbor (CMap (controlEntries e'))"
      using assms(3) controlEntries_wf(2) assms(1,2)
      unfolding controlSigningBytes_eq [OF assms(1)] controlSigningBytes_eq [OF assms(2)]
      by (blast intro: signed_inject)
  qed (use controlEntries_wf(2) assms(1,2) in \<open>auto simp: controlEntries_def\<close>)
  note f = goodControl_facts [OF assms(1)] and f' = goodControl_facts [OF assms(2)]
  have field: "map_of (controlEntries x) (lit ''kind'') = Some (CText (control_kind x))"
    "map_of (controlEntries x) (lit ''control_id'') = Some (CBytes (tokenBytes (control_controlId x)))"
    "map_of (controlEntries x) (lit ''issued_at'') = Some (CNum (control_issuedAt x))"
    "map_of (controlEntries x) (lit ''expires_at'') = Some (CNum (control_expiresAt x))"
    "map_of (controlEntries x) (lit ''sender_peer_id'') = Some (CBytes (tokenBytes (control_senderPeerId x)))"
    "map_of (controlEntries x) (lit ''recipient_peer_id'') = Some (CBytes (tokenBytes (control_recipientPeerId x)))"
    "map_of (controlEntries x) (lit ''body'') = Some (CBytes (control_body x))" for x
    by (simp_all add: controlEntries_def)
  have "control_kind e = control_kind e'" "control_controlId e = control_controlId e'"
    "control_issuedAt e = control_issuedAt e'" "control_expiresAt e = control_expiresAt e'"
    "control_senderPeerId e = control_senderPeerId e'" "control_recipientPeerId e = control_recipientPeerId e'"
    "control_body e = control_body e'"
    using fun_cong [OF same, of "lit ''kind''"] fun_cong [OF same, of "lit ''control_id''"]
      fun_cong [OF same, of "lit ''issued_at''"] fun_cong [OF same, of "lit ''expires_at''"]
      fun_cong [OF same, of "lit ''sender_peer_id''"] fun_cong [OF same, of "lit ''recipient_peer_id''"]
      fun_cong [OF same, of "lit ''body''"]
      goodToken_inject [OF f(2) f'(2)] goodToken_inject [OF f(3) f'(3)] goodToken_inject [OF f(4) f'(4)]
    unfolding field by simp_all
  with f(8) f'(8) show ?thesis by simp
qed

section \<open>What acceptance means\<close>

lemma admitControl_Admitted:
  "admitControl bs registry ports = ControlAdmitted e d \<longleftrightarrow>
     decodeApplicationControl bs = Inr e \<and> mapGet registry (control_kind e) = Some d
     \<and> control_recipientPeerId e = ports_localPeerId ports \<and> ports_isKnownContact ports (control_senderPeerId e)
     \<and> ports_now ports < control_expiresAt e \<and> control_issuedAt e \<le> ports_now ports + ports_maxClockSkewMs ports
     \<and> control_expiresAt e - control_issuedAt e \<le> desc_maximumTTLms d
     \<and> \<not> ports_hasSeenControl ports (control_controlId e) \<and> ports_isAllowed ports (control_kind e) (control_senderPeerId e)"
  by (auto simp: admitControl_def split: sum.splits option.splits)

lemma projectControl_Accepted:
  "projectControl e d = Inr (ControlAccepted effects, rem) \<longleftrightarrow>
     (\<exists>body. desc_decodeBody d (control_body e) = Inr body \<and> desc_reduce d e body = Inr effects)
     \<and> effectKind ` set effects \<subseteq> set (desc_allowedEffects d) \<and> effectsAreBounded effects (control_expiresAt e)
     \<and> rem = Some (control_controlId e, control_expiresAt e)"
  by (auto simp: projectControl_def res_simps split: sum.splits if_splits)

lemma processApplicationControl_Accepted:
  "processApplicationControl bs registry ports = Inr (ControlAccepted effects, rem) \<longleftrightarrow>
     (\<exists>e d. admitControl bs registry ports = ControlAdmitted e d \<and> controlSignatureOk ports e d = Inr True
       \<and> projectControl e d = Inr (ControlAccepted effects, rem))"
proof (cases "admitControl bs registry ports")
  case (ControlAdmitted e d)
  then show ?thesis by (cases "controlSignatureOk ports e d") (auto simp: processApplicationControl_def)
qed (auto simp: processApplicationControl_def admitControl_def split: sum.splits option.splits if_splits)

lemma processApplicationControl_remembers:
  "processApplicationControl bs registry ports = Inr (result, Some r) \<Longrightarrow> \<exists>effects. result = ControlAccepted effects"
  by (auto simp: processApplicationControl_def projectControl_def res_simps split: controlProgress.splits sum.splits if_splits)

end
