(* ===== verification/Field_Codec.thy ===== *)
theory Field_Codec
  imports Codec_Tools
begin

text \<open>
  A codec whose decoder accepts exactly the maps that hold a message's fields. One equivalence per codec
  then gives both directions of the contract \<open>codec\<close>; the size limit of the encoder is part of the
  messages it is a codec of.
\<close>

locale field_codec =
  fixes encode :: "'m \<Rightarrow> bytes res" and decode :: "bytes \<Rightarrow> 'm res" and core :: "'m \<Rightarrow> bool"
    and entries :: "'m \<Rightarrow> cborMap" and names :: "js_string list" and limit :: nat
  assumes encode_core: "core m \<Longrightarrow> length (encoded (CMap (entries m))) \<le> limit \<Longrightarrow>
      encode m = encodeDeterministicCbor (CMap (entries m))"
    and core_wf: "core m \<Longrightarrow> wfCbor (CMap (entries m)) \<and> (\<forall>v \<in> snd ` set (entries m). scalar v)"
    and core_names: "core m \<Longrightarrow> fst ` set (entries m) \<subseteq> set names"
    and decode_fields: "decode e = Inr m \<longleftrightarrow> core m \<and> (\<exists>k. decodeDeterministicCbor e limit = Inr (CMap k)
      \<and> fst ` set k \<subseteq> set names \<and> (\<forall>key \<in> set names. map_of k key = map_of (entries m) key))"
begin

lemma decoded_size:
  assumes "decode e = Inr m"
  shows "length (encoded (CMap (entries m))) \<le> limit"
proof -
  from assms obtain k where core: "core m" and k: "decodeDeterministicCbor e limit = Inr (CMap k)" "fst ` set k \<subseteq> set names"
    "\<forall>key \<in> set names. map_of k key = map_of (entries m) key"
    unfolding decode_fields by blast
  have "encodeDeterministicCbor (CMap (entries m)) = Inr e"
    using k core_wf [OF core] core_names [OF core]
    by (intro decode_CMap_entries [OF k(1) _ decoded_keys [OF k(1)]]) auto
  then show ?thesis using decode_size [OF k(1)] by simp
qed

end

sublocale field_codec \<subseteq> flat_codec encode decode "\<lambda>m. core m \<and> length (encoded (CMap (entries m))) \<le> limit" entries names limit
proof
  fix m e k assume m: "core m \<and> length (encoded (CMap (entries m))) \<le> limit" "decodeDeterministicCbor e limit = Inr (CMap k)"
    "fst ` set k \<subseteq> set names" "map_of k = map_of (entries m)"
  then have "\<exists>k. decodeDeterministicCbor e limit = Inr (CMap k) \<and> fst ` set k \<subseteq> set names \<and> (\<forall>key \<in> set names. map_of k key = map_of (entries m) key)"
    by (intro exI [of _ k]) simp
  with m(1) show "decode e = Inr m" unfolding decode_fields by blast
next
  fix e m assume d: "decode e = Inr m"
  then show "(core m \<and> length (encoded (CMap (entries m))) \<le> limit) \<and> (\<exists>k. decodeDeterministicCbor e limit = Inr (CMap k)
      \<and> fst ` set k \<subseteq> set names \<and> (\<forall>key \<in> set names. map_of k key = map_of (entries m) key))"
    using decoded_size [OF d] unfolding decode_fields by blast
qed (use encode_core core_wf core_names in blast)+

end
