(* ===== verification/ControlAdapters.thy ===== *)
theory ControlAdapters
  imports ApplicationControl ReplayWindow Field_Codec
begin

text \<open>
  The application's adapters of the control runtime: typing
  (\<^verbatim>\<open>pwa/connectivity/typing-control.ts\<close>) and receipts
  (\<^verbatim>\<open>pwa/connectivity/delivery-receipt-control.ts\<close>). The module-level maps of each file are its
  state. Ed25519 is the argument \<open>ed25519Verify\<close> (public key, signature, message; \<^const>\<open>None\<close> where
  WebCrypto rejects) and the local key is a signing function, absent when there is no local identity. The
  identifier \<^verbatim>\<open>createDeliveryID()\<close> draws and the clock are arguments. A sender returns the bytes it
  hands to \<^verbatim>\<open>sendApplicationControl\<close>.
\<close>

section \<open>Shared ports\<close>

definition verifyControlSignature :: "(bytes \<Rightarrow> bytes \<Rightarrow> bytes \<Rightarrow> bool option) \<Rightarrow> js_string \<Rightarrow> bytes \<Rightarrow> bytes \<Rightarrow> bool" where
  "verifyControlSignature ed25519Verify peerId input signature =
     (case decodeBase64URL peerId of
        Inl _ \<Rightarrow> False
      | Inr publicKey \<Rightarrow> (case ed25519Verify publicKey signature input of None \<Rightarrow> False | Some ok \<Rightarrow> ok))"

text \<open>The port object every receiver passes: a known contact is the peer the envelope came from.\<close>

definition receiverPorts ::
  "(bytes \<Rightarrow> bytes \<Rightarrow> bytes \<Rightarrow> bool option) \<Rightarrow> int \<Rightarrow> js_string \<Rightarrow> js_string \<Rightarrow> js_string option \<Rightarrow> (js_string, int) js_map
     \<Rightarrow> ApplicationControlPorts" where
  "receiverPorts ed25519Verify now localPeerId senderPeerId knownContactId replayControlIds =
     \<lparr>ports_now = now, ports_localPeerId = localPeerId,
      ports_isKnownContact = (\<lambda>peerId. knownContactId \<noteq> None \<and> peerId = senderPeerId),
      ports_verifyEd25519 = (\<lambda>peerId input signature. Inr (verifyControlSignature ed25519Verify peerId input signature)),
      ports_hasSeenControl = (\<lambda>controlId. mapHas replayControlIds controlId),
      ports_isAllowed = (\<lambda>_ _. True), ports_maxClockSkewMs = 1000\<rparr>"

text \<open>\<^verbatim>\<open>rememberControl\<close> sets the identifier to its expiry.\<close>

definition rememberControl :: "(js_string \<times> int) option \<Rightarrow> (js_string, int) js_map \<Rightarrow> (js_string, int) js_map" where
  "rememberControl remembered replayControlIds =
     (case remembered of None \<Rightarrow> replayControlIds | Some (controlId, expiresAt) \<Rightarrow> mapSet replayControlIds controlId expiresAt)"

text \<open>The port object every sender passes.\<close>

definition senderPorts :: "int \<Rightarrow> js_string \<Rightarrow> js_string \<Rightarrow> bool \<Rightarrow> OutboundApplicationControlPorts" where
  "senderPorts now senderPeerId recipientPeerId allowed =
     \<lparr>oports_now = now, oports_localPeerId = senderPeerId, oports_isKnownContact = (\<lambda>peerId. peerId = recipientPeerId),
      oports_isAllowed = (\<lambda>_ _. True), oports_consumeRateLimit = (\<lambda>_ _ _. allowed), oports_maxClockSkewMs = 1000\<rparr>"

definition rateLimited :: js_error where
  "rateLimited = PlainError (lit ''application control rate limited'')"

text \<open>The rate limit is the last port the runtime consults, so it ran exactly when the envelope was made or refused by it.\<close>

definition consultedRateLimit :: "ApplicationControlEnvelope res \<Rightarrow> bool" where
  "consultedRateLimit r = (case r of Inr _ \<Rightarrow> True | Inl e \<Rightarrow> e = rateLimited)"

definition signControl :: "(bytes \<Rightarrow> bytes) \<Rightarrow> ApplicationControlEnvelope \<Rightarrow> bytes res" where
  "signControl sign unsignedControl =
     andThen (applicationControlSigningBytes unsignedControl) (\<lambda>input.
       encodeApplicationControl (unsignedControl\<lparr>control_signature := sign input\<rparr>))"

datatype controlSend = Sent bytes | Skipped

section \<open>Typing\<close>

definition typingControlKind :: js_string where "typingControlKind = lit ''branch.pwa.typing/0.draft''"
definition typingControlPayloadPrefix :: js_string where "typingControlPayloadPrefix = lit ''BRANCH-APPLICATION-CONTROL0.''"
definition typingControlTTLms :: int where "typingControlTTLms = 6000"
definition typingRenewIntervalMs :: int where "typingRenewIntervalMs = 2000"
definition maxTypingRateEntries :: nat where "maxTypingRateEntries = 64"

record TypingControlState =
  ty_replayControlIds :: "(js_string, int) js_map"
  ty_lastTypingSentAtByPeerId :: "(js_string, int) js_map"

datatype TypingControlOutcome = TypingAccepted | TypingRejected ApplicationControlRejection | TypingProjectionMissing

datatype ReceivedTypingControl =
    TypingNotHandled
  | TypingHandled TypingControlOutcome "(js_string \<times> int) option"

definition typingDescriptor :: "unit ApplicationControlDescriptor" where
  "typingDescriptor =
     \<lparr>desc_kind = typingControlKind, desc_authentication = AuthEd25519, desc_maximumTTLms = typingControlTTLms,
      desc_projection = ProjectEphemeral, desc_allowedEffects = [EphemeralProjectionKind],
      desc_decodeBody = (\<lambda>body. if body \<noteq> [1] then throw ''invalid typing body'' else Inr ()),
      desc_encodeBody = (\<lambda>_. Inr [1]),
      desc_reduce = (\<lambda>envelope body. Inr [EphemeralProjection (lit ''typing'') [1] (control_expiresAt envelope)])\<rparr>"

definition typingRegistry :: "unit controlRegistry" where
  "typingRegistry = projr (createApplicationControlRegistry [typingDescriptor])"

definition consumeTypingRate :: "js_string \<Rightarrow> int \<Rightarrow> (js_string, int) js_map \<Rightarrow> bool \<times> (js_string, int) js_map" where
  "consumeTypingRate peerId now sent =
     (let live = filter (\<lambda>(candidatePeerId, sentAt). \<not> now - sentAt \<ge> typingRenewIntervalMs) sent;
          last = (case mapGet live peerId of None \<Rightarrow> 0 | Some t \<Rightarrow> t)
      in if now - last < typingRenewIntervalMs then (False, live)
         else
           let room = (if \<not> mapHas live peerId \<and> length live \<ge> maxTypingRateEntries
                 then (case live of [] \<Rightarrow> live | (oldest, _) # _ \<Rightarrow> mapDelete live oldest) else live)
           in (True, mapSet room peerId now))"

definition pruneReplayWindow :: "int \<Rightarrow> (js_string, int) js_map \<Rightarrow> (js_string, int) js_map" where
  "pruneReplayWindow now replayControlIds = evictOldest 128 (dropExpired replayControlIds now)"

definition decodeTypingControlBytes :: "bytes \<Rightarrow> bytes option" where
  "decodeTypingControlBytes plaintext =
     (if succeeds (decodeApplicationControl plaintext) then Some plaintext
      else case textDecode plaintext of
          None \<Rightarrow> None
        | Some legacy \<Rightarrow>
            if take (length typingControlPayloadPrefix) legacy \<noteq> typingControlPayloadPrefix then None
            else (case decodeBase64URL (drop (length typingControlPayloadPrefix) legacy) of Inl _ \<Rightarrow> None | Inr bs \<Rightarrow> Some bs))"

definition sendTypingControl ::
  "(bytes \<Rightarrow> bytes) option \<Rightarrow> js_string \<Rightarrow> int \<Rightarrow> js_string \<Rightarrow> js_string \<Rightarrow> bool \<Rightarrow> TypingControlState
     \<Rightarrow> controlSend res \<times> TypingControlState" where
  "sendTypingControl keys controlId now senderPeerId recipientPeerId attached s =
     (if \<not> attached then (Inr Skipped, s)
      else case keys of
          None \<Rightarrow> (Inr Skipped, s)
        | Some sign \<Rightarrow>
            let rate = consumeTypingRate recipientPeerId now (ty_lastTypingSentAtByPeerId s);
                unsignedControl = prepareOutboundApplicationControl
                  \<lparr>out_kind = typingControlKind, out_controlId = controlId, out_issuedAt = now,
                   out_expiresAt = now + typingControlTTLms, out_senderPeerId = senderPeerId,
                   out_recipientPeerId = recipientPeerId, out_body = ()\<rparr>
                  typingDescriptor (senderPorts now senderPeerId recipientPeerId (fst rate));
                s' = (if consultedRateLimit unsignedControl then s\<lparr>ty_lastTypingSentAtByPeerId := snd rate\<rparr> else s)
            in (case unsignedControl of
                  Inl e \<Rightarrow> (if e = rateLimited then Inr Skipped else Inl e)
                | Inr u \<Rightarrow> andThen (signControl sign u) (\<lambda>payload. Inr (Sent payload)), s'))"

definition receiveTypingControl ::
  "(bytes \<Rightarrow> bytes \<Rightarrow> bytes \<Rightarrow> bool option) \<Rightarrow> int \<Rightarrow> js_string + bytes \<Rightarrow> js_string \<Rightarrow> js_string \<Rightarrow> js_string option
     \<Rightarrow> TypingControlState \<Rightarrow> ReceivedTypingControl res \<times> TypingControlState" where
  "receiveTypingControl ed25519Verify now plaintext localPeerId senderPeerId knownContactId s0 =
     (let s = s0\<lparr>ty_replayControlIds := pruneReplayWindow now (ty_replayControlIds s0)\<rparr> in
      case decodeTypingControlBytes (case plaintext of Inl t \<Rightarrow> textEncode t | Inr b \<Rightarrow> b) of
        None \<Rightarrow> (Inr TypingNotHandled, s)
      | Some bs \<Rightarrow>
          case decodeApplicationControl bs of
            Inl _ \<Rightarrow> (Inr TypingNotHandled, s)
          | Inr envelope \<Rightarrow>
              if control_kind envelope \<noteq> typingControlKind then (Inr TypingNotHandled, s)
              else
                case processApplicationControl bs typingRegistry
                       (receiverPorts ed25519Verify now localPeerId senderPeerId knownContactId (ty_replayControlIds s)) of
                  Inl e \<Rightarrow> (Inl e, s)
                | Inr (result, remembered) \<Rightarrow>
                    let s' = s\<lparr>ty_replayControlIds := rememberControl remembered (ty_replayControlIds s)\<rparr> in
                    case result of
                      ControlRejected reason \<Rightarrow> (Inr (TypingHandled (TypingRejected reason) None), s')
                    | ControlAccepted effects \<Rightarrow>
                        case knownContactId of
                          None \<Rightarrow> (Inr (TypingHandled (TypingRejected UnknownContact) None), s')
                        | Some contactId \<Rightarrow>
                            case find (\<lambda>effect. case effect of EphemeralProjection projection _ _ \<Rightarrow> projection = lit ''typing'' | _ \<Rightarrow> False) effects of
                              Some (EphemeralProjection projection v expiresAt) \<Rightarrow>
                                (Inr (TypingHandled TypingAccepted (Some (contactId, expiresAt))), s')
                            | _ \<Rightarrow> (Inr (TypingHandled TypingProjectionMissing None), s'))"

section \<open>Receipts\<close>

definition deliveryReceiptControlKind :: js_string where "deliveryReceiptControlKind = lit ''branch.pwa.receipt/0.draft''"
definition readAcceptedControlKind :: js_string where "readAcceptedControlKind = lit ''branch.pwa.read-accepted/0.draft''"
definition deliveryReceiptControlTTLms :: int where "deliveryReceiptControlTTLms = 300000"
definition maxReplayEntries :: nat where "maxReplayEntries = 128"
definition maxReceiptBodyBytes :: nat where "maxReceiptBodyBytes = 64"

text \<open>The kind is a string at run time; \<open>validReceiptKind\<close> is what makes it one of the two.\<close>

record DeliveryReceiptBody =
  receipt_kind :: js_string
  receipt_targetDeliveryId :: js_string

record ReceiptControlState =
  rc_replayControlIds :: "(js_string, int) js_map"
  rc_emittedReceiptTargets :: "(js_string, int) js_map"

definition validReceiptKind :: "js_string \<Rightarrow> bool" where
  "validReceiptKind value \<longleftrightarrow> value = lit ''delivered'' \<or> value = lit ''read''"

definition validDeliveryId :: "js_string \<Rightarrow> bool" where
  "validDeliveryId value = (case decodeBase64URL value of Inl _ \<Rightarrow> False | Inr bs \<Rightarrow> length bs = 16)"

definition encodeReceiptBody :: "DeliveryReceiptBody \<Rightarrow> bytes res" where
  "encodeReceiptBody v =
     (if \<not> validReceiptKind (receipt_kind v) \<or> \<not> validDeliveryId (receipt_targetDeliveryId v) then throw ''invalid receipt body''
      else andThen (decodeBase64URL (receipt_targetDeliveryId v)) (\<lambda>target.
        encodeDeterministicCbor (CMap [(lit ''receipt_kind'', CText (receipt_kind v)), (lit ''target_delivery_id'', CBytes target)])))"

definition decodeReceiptBody :: "bytes \<Rightarrow> DeliveryReceiptBody res" where
  "decodeReceiptBody bs =
     (if length bs = 0 \<or> length bs > maxReceiptBodyBytes then throw ''invalid receipt body''
      else
        andThen (decodeDeterministicCbor bs maxReceiptBodyBytes) (\<lambda>value.
        andThen (readCborMap value (lit ''receipt'')) (\<lambda>m.
        andThen (rejectUnknownEntries m [lit ''receipt_kind'', lit ''target_delivery_id'']) (\<lambda>_.
        andThen (getRequiredEntry m (lit ''receipt_kind'')) (\<lambda>k.
        andThen (readText k (lit ''receipt kind'')) (\<lambda>kind.
        andThen (getRequiredEntry m (lit ''target_delivery_id'')) (\<lambda>t.
        andThen (readBytes t (lit ''target delivery id'') (Some 16)) (\<lambda>target.
          if \<not> validReceiptKind kind then throw ''invalid receipt kind''
          else Inr \<lparr>receipt_kind = kind, receipt_targetDeliveryId = encodeBase64URL target\<rparr>))))))))"

definition encodeReadAcceptedBody :: "js_string \<Rightarrow> bytes res" where
  "encodeReadAcceptedBody targetDeliveryId =
     (if \<not> validDeliveryId targetDeliveryId then throw ''invalid read accepted body''
      else andThen (decodeBase64URL targetDeliveryId) (\<lambda>target.
        encodeDeterministicCbor (CMap [(lit ''target_delivery_id'', CBytes target)])))"

definition decodeReadAcceptedBody :: "bytes \<Rightarrow> js_string res" where
  "decodeReadAcceptedBody bs =
     (if length bs = 0 \<or> length bs > maxReceiptBodyBytes then throw ''invalid read accepted body''
      else
        andThen (decodeDeterministicCbor bs maxReceiptBodyBytes) (\<lambda>value.
        andThen (readCborMap value (lit ''read accepted'')) (\<lambda>m.
        andThen (rejectUnknownEntries m [lit ''target_delivery_id'']) (\<lambda>_.
        andThen (getRequiredEntry m (lit ''target_delivery_id'')) (\<lambda>t.
        andThen (readBytes t (lit ''target delivery id'') (Some 16)) (\<lambda>target. Inr (encodeBase64URL target)))))))"

definition deliveryReceiptControlDescriptor :: "DeliveryReceiptBody ApplicationControlDescriptor" where
  "deliveryReceiptControlDescriptor =
     \<lparr>desc_kind = deliveryReceiptControlKind, desc_authentication = AuthEd25519, desc_maximumTTLms = deliveryReceiptControlTTLms,
      desc_projection = ProjectMessageMetadata, desc_allowedEffects = [MessageMetadataKind],
      desc_decodeBody = decodeReceiptBody, desc_encodeBody = encodeReceiptBody,
      desc_reduce = (\<lambda>envelope body. Inr [MessageMetadata (receipt_targetDeliveryId body) (receipt_kind body)])\<rparr>"

definition readAcceptedControlDescriptor :: "js_string ApplicationControlDescriptor" where
  "readAcceptedControlDescriptor =
     \<lparr>desc_kind = readAcceptedControlKind, desc_authentication = AuthEd25519, desc_maximumTTLms = deliveryReceiptControlTTLms,
      desc_projection = ProjectMessageMetadata, desc_allowedEffects = [MessageMetadataKind],
      desc_decodeBody = decodeReadAcceptedBody, desc_encodeBody = encodeReadAcceptedBody,
      desc_reduce = (\<lambda>envelope targetDeliveryId. Inr [MessageMetadata targetDeliveryId (lit ''read_accepted'')])\<rparr>"

definition receiptRegistry :: "DeliveryReceiptBody controlRegistry" where
  "receiptRegistry = projr (createApplicationControlRegistry [deliveryReceiptControlDescriptor])"

definition readAcceptedRegistry :: "js_string controlRegistry" where
  "readAcceptedRegistry = projr (createApplicationControlRegistry [readAcceptedControlDescriptor])"

definition pruneReceipts :: "int \<Rightarrow> ReceiptControlState \<Rightarrow> ReceiptControlState" where
  "pruneReceipts now s =
     s\<lparr>rc_replayControlIds := evictOldest maxReplayEntries (dropExpired (rc_replayControlIds s) now),
       rc_emittedReceiptTargets := dropExpired (rc_emittedReceiptTargets s) now\<rparr>"

definition emittedReceiptKey :: "js_string \<Rightarrow> js_string \<Rightarrow> js_string \<Rightarrow> js_string" where
  "emittedReceiptKey kind recipientPeerId targetDeliveryId = kind @ [10] @ recipientPeerId @ [10] @ targetDeliveryId"

text \<open>The \<^verbatim>\<open>consumeRateLimit\<close> port of \<^verbatim>\<open>sendDeliveryReceipt\<close>.\<close>

definition consumeReceiptRate :: "bool \<Rightarrow> js_string \<Rightarrow> int \<Rightarrow> (js_string, int) js_map \<Rightarrow> bool \<times> (js_string, int) js_map" where
  "consumeReceiptRate allowTargetRetry emittedKey now emitted =
     (if \<not> allowTargetRetry \<and> mapHas emitted emittedKey then (False, emitted)
      else
        let room = (if length emitted \<ge> maxReplayEntries
              then (case emitted of [] \<Rightarrow> emitted | (oldest, _) # _ \<Rightarrow> mapDelete emitted oldest) else emitted)
        in (True, mapSet room emittedKey (now + deliveryReceiptControlTTLms)))"

text \<open>
  \<open>transmit payload\<close> is whether \<^verbatim>\<open>sendApplicationControl\<close> resolves; when it throws, the emitted key
  is released and the error is passed on.
\<close>

definition sendDeliveryReceipt ::
  "(bytes \<Rightarrow> bytes) option \<Rightarrow> (bytes \<Rightarrow> unit res) \<Rightarrow> js_string \<Rightarrow> int \<Rightarrow> DeliveryReceiptBody \<Rightarrow> js_string \<Rightarrow> js_string \<Rightarrow> bool \<Rightarrow> bool
     \<Rightarrow> ReceiptControlState \<Rightarrow> controlSend res \<times> ReceiptControlState" where
  "sendDeliveryReceipt keys transmit controlId now body senderPeerId recipientPeerId attached allowTargetRetry s0 =
     (if \<not> attached \<or> \<not> validDeliveryId (receipt_targetDeliveryId body) then (Inr Skipped, s0)
      else case keys of
          None \<Rightarrow> (Inr Skipped, s0)
        | Some sign \<Rightarrow>
            let s = pruneReceipts now s0;
                emittedKey = emittedReceiptKey (receipt_kind body) recipientPeerId (receipt_targetDeliveryId body)
            in if \<not> allowTargetRetry \<and> mapHas (rc_emittedReceiptTargets s) emittedKey then (Inr Skipped, s)
               else
                 let rate = consumeReceiptRate allowTargetRetry emittedKey now (rc_emittedReceiptTargets s);
                     unsignedControl = prepareOutboundApplicationControl
                       \<lparr>out_kind = deliveryReceiptControlKind, out_controlId = controlId, out_issuedAt = now,
                        out_expiresAt = now + deliveryReceiptControlTTLms, out_senderPeerId = senderPeerId,
                        out_recipientPeerId = recipientPeerId, out_body = body\<rparr>
                       deliveryReceiptControlDescriptor (senderPorts now senderPeerId recipientPeerId (fst rate));
                     s' = (if consultedRateLimit unsignedControl then s\<lparr>rc_emittedReceiptTargets := snd rate\<rparr> else s)
                 in case unsignedControl of
                      Inl _ \<Rightarrow> (Inr Skipped, s')
                    | Inr u \<Rightarrow>
                        case applicationControlSigningBytes u of
                          Inl e \<Rightarrow> (Inl e, s')
                        | Inr input \<Rightarrow>
                            case andThen (encodeApplicationControl (u\<lparr>control_signature := sign input\<rparr>))
                                   (\<lambda>payload. andThen (transmit payload) (\<lambda>_. Inr payload)) of
                              Inl e \<Rightarrow> (Inl e, s'\<lparr>rc_emittedReceiptTargets := mapDelete (rc_emittedReceiptTargets s') emittedKey\<rparr>)
                            | Inr payload \<Rightarrow> (Inr (Sent payload), s'))"

definition sendReadAccepted ::
  "(bytes \<Rightarrow> bytes) option \<Rightarrow> js_string \<Rightarrow> int \<Rightarrow> js_string \<Rightarrow> js_string \<Rightarrow> js_string \<Rightarrow> bool \<Rightarrow> controlSend res" where
  "sendReadAccepted keys controlId now targetDeliveryId senderPeerId recipientPeerId attached =
     (if \<not> attached \<or> \<not> validDeliveryId targetDeliveryId then Inr Skipped
      else case keys of
          None \<Rightarrow> Inr Skipped
        | Some sign \<Rightarrow>
            case prepareOutboundApplicationControl
                   \<lparr>out_kind = readAcceptedControlKind, out_controlId = controlId, out_issuedAt = now,
                    out_expiresAt = now + deliveryReceiptControlTTLms, out_senderPeerId = senderPeerId,
                    out_recipientPeerId = recipientPeerId, out_body = targetDeliveryId\<rparr>
                   readAcceptedControlDescriptor (senderPorts now senderPeerId recipientPeerId True) of
              Inl _ \<Rightarrow> Inr Skipped
            | Inr u \<Rightarrow> andThen (signControl sign u) (\<lambda>payload. Inr (Sent payload)))"

datatype DeliveryReceiptOutcome =
  ReceiptAccepted DeliveryReceiptBody | ReceiptSourceMismatch | ReceiptRejected ApplicationControlRejection | ReceiptEffectMissing

datatype ReadAcceptedOutcome =
  ReadConfirmed js_string | ReadSourceMismatch | ReadRejected ApplicationControlRejection | ReadEffectMissing

text \<open>The first \<^verbatim>\<open>message_metadata\<close> effect.\<close>

definition metadataEffect :: "ApplicationControlEffect list \<Rightarrow> (js_string \<times> js_string) option" where
  "metadataEffect effects =
     (case find (\<lambda>effect. effectKind effect = MessageMetadataKind) effects of
        Some (MessageMetadata deliveryId state) \<Rightarrow> Some (deliveryId, state)
      | _ \<Rightarrow> None)"

definition receiveDeliveryReceipt ::
  "(bytes \<Rightarrow> bytes \<Rightarrow> bytes \<Rightarrow> bool option) \<Rightarrow> int \<Rightarrow> bytes \<Rightarrow> js_string \<Rightarrow> js_string \<Rightarrow> js_string option
     \<Rightarrow> ReceiptControlState \<Rightarrow> DeliveryReceiptOutcome option res \<times> ReceiptControlState" where
  "receiveDeliveryReceipt ed25519Verify now plaintext localPeerId senderPeerId knownContactId s0 =
     (case decodeApplicationControl plaintext of
        Inl _ \<Rightarrow> (Inr None, s0)
      | Inr envelope \<Rightarrow>
          if control_kind envelope \<noteq> deliveryReceiptControlKind then (Inr None, s0)
          else if control_senderPeerId envelope \<noteq> senderPeerId then (Inr (Some ReceiptSourceMismatch), s0)
          else
            let s = pruneReceipts now s0 in
            case processApplicationControl plaintext receiptRegistry
                   (receiverPorts ed25519Verify now localPeerId senderPeerId knownContactId (rc_replayControlIds s)) of
              Inl e \<Rightarrow> (Inl e, s)
            | Inr (result, remembered) \<Rightarrow>
                (Inr (Some (case result of
                    ControlRejected reason \<Rightarrow> ReceiptRejected reason
                  | ControlAccepted effects \<Rightarrow>
                      (case metadataEffect effects of
                         None \<Rightarrow> ReceiptEffectMissing
                       | Some (deliveryId, state) \<Rightarrow> ReceiptAccepted
                           \<lparr>receipt_kind = (if state = lit ''read'' then lit ''read'' else lit ''delivered''),
                            receipt_targetDeliveryId = deliveryId\<rparr>))),
                 s\<lparr>rc_replayControlIds := rememberControl remembered (rc_replayControlIds s)\<rparr>))"

text \<open>This receiver does not prune first.\<close>

definition receiveReadAccepted ::
  "(bytes \<Rightarrow> bytes \<Rightarrow> bytes \<Rightarrow> bool option) \<Rightarrow> int \<Rightarrow> bytes \<Rightarrow> js_string \<Rightarrow> js_string \<Rightarrow> js_string option
     \<Rightarrow> ReceiptControlState \<Rightarrow> ReadAcceptedOutcome option res \<times> ReceiptControlState" where
  "receiveReadAccepted ed25519Verify now plaintext localPeerId senderPeerId knownContactId s =
     (case decodeApplicationControl plaintext of
        Inl _ \<Rightarrow> (Inr None, s)
      | Inr envelope \<Rightarrow>
          if control_kind envelope \<noteq> readAcceptedControlKind then (Inr None, s)
          else if control_senderPeerId envelope \<noteq> senderPeerId then (Inr (Some ReadSourceMismatch), s)
          else
            case processApplicationControl plaintext readAcceptedRegistry
                   (receiverPorts ed25519Verify now localPeerId senderPeerId knownContactId (rc_replayControlIds s)) of
              Inl e \<Rightarrow> (Inl e, s)
            | Inr (result, remembered) \<Rightarrow>
                (Inr (Some (case result of
                    ControlRejected reason \<Rightarrow> ReadRejected reason
                  | ControlAccepted effects \<Rightarrow>
                      (case metadataEffect effects of None \<Rightarrow> ReadEffectMissing | Some (deliveryId, _) \<Rightarrow> ReadConfirmed deliveryId))),
                 s\<lparr>rc_replayControlIds := rememberControl remembered (rc_replayControlIds s)\<rparr>))"

section \<open>Registries and bodies\<close>

lemma typingRegistry_get: "mapGet typingRegistry k = (if k = typingControlKind then Some typingDescriptor else None)"
  by (simp add: typingRegistry_def createApplicationControlRegistry_def validateDescriptor_def typingDescriptor_def typingControlKind_def
      typingControlTTLms_def maxControlKindBytes_def isSafeInteger_def maxSafeInteger_def) (simp add: mapGet_def)

lemma receiptRegistry_get:
  "mapGet receiptRegistry k = (if k = deliveryReceiptControlKind then Some deliveryReceiptControlDescriptor else None)"
  by (simp add: receiptRegistry_def createApplicationControlRegistry_def validateDescriptor_def deliveryReceiptControlDescriptor_def
      deliveryReceiptControlKind_def deliveryReceiptControlTTLms_def maxControlKindBytes_def isSafeInteger_def maxSafeInteger_def)
    (simp add: mapGet_def)

lemma readAcceptedRegistry_get:
  "mapGet readAcceptedRegistry k = (if k = readAcceptedControlKind then Some readAcceptedControlDescriptor else None)"
  by (simp add: readAcceptedRegistry_def createApplicationControlRegistry_def validateDescriptor_def readAcceptedControlDescriptor_def
      readAcceptedControlKind_def deliveryReceiptControlTTLms_def maxControlKindBytes_def isSafeInteger_def maxSafeInteger_def)
    (simp add: mapGet_def)

lemma validDeliveryId_validToken [simp]: "validDeliveryId s \<longleftrightarrow> validToken s 16"
  by (simp add: validDeliveryId_def validToken_def)

text \<open>The exact size of a flat map's encoding; the receipt bodies come close to their limit.\<close>

lemma length_encoded_flat:
  assumes "wfCbor (CMap es)"
  shows "length (encoded (CMap es)) = length (encodeHeader 5 (length es))
    + sum_list (map (\<lambda>(k, v). length (encodedKey k) + length (encoded v)) es)"
proof -
  obtain e where e: "encodeDeterministicCbor (CMap es) = Inr e" using encode_wf_Inr [OF assms] by blast
  have "length (entryBytes (map (\<lambda>(k, v). (k, encoded v)) (sort_key (encodedKey \<circ> fst) es)))
      = sum_list (map (\<lambda>(k, v). length (encodedKey k) + length (encoded v)) es)"
    by (simp add: entryBytes_def length_concat o_def case_prod_unfold sum_list_sort_key)
  moreover have "e = encodeHeader 5 (length es) @ entryBytes (map (\<lambda>(k, v). (k, encoded v)) (sort_key (encodedKey \<circ> fst) es))"
    using e unfolding encode_CMap_Inr by simp
  moreover have "encoded (CMap es) = e" using e by simp
  ultimately show ?thesis by simp
qed

lemma length_short_key: "asciiString s \<Longrightarrow> length s < 24 \<Longrightarrow> length (encodedKey (lit s)) = Suc (length s)"
  by (simp add: encodedKey_def encodeBytes_def encodeHeader_def)

definition goodReceipt :: "DeliveryReceiptBody \<Rightarrow> bool" where
  "goodReceipt b \<longleftrightarrow> validReceiptKind (receipt_kind b) \<and> goodToken (receipt_targetDeliveryId b) 16"

abbreviation receiptNames :: "js_string list" where
  "receiptNames \<equiv> [lit ''receipt_kind'', lit ''target_delivery_id'']"

definition receiptMapEntries :: "DeliveryReceiptBody \<Rightarrow> cborMap" where
  "receiptMapEntries b = [(lit ''receipt_kind'', CText (receipt_kind b)),
     (lit ''target_delivery_id'', CBytes (tokenBytes (receipt_targetDeliveryId b)))]"

lemma validReceiptKind_text:
  "validReceiptKind k \<Longrightarrow> decodableText k \<and> length (textEncode k) \<le> 9 \<and> k \<noteq> []"
  by (auto simp: validReceiptKind_def)

interpretation receipt_body: flat_codec encodeReceiptBody decodeReceiptBody goodReceipt receiptMapEntries receiptNames 64
proof
  fix b assume b: "goodReceipt b"
  note t = tokenFacts [of "receipt_targetDeliveryId b" 16] goodToken_validToken [of "receipt_targetDeliveryId b" 16]
    goodToken_facts(1) [of "receipt_targetDeliveryId b" 16] and k = validReceiptKind_text [of "receipt_kind b"]
  show "encodeReceiptBody b = encodeDeterministicCbor (CMap (receiptMapEntries b))"
    using b t by (simp add: encodeReceiptBody_def receiptMapEntries_def goodReceipt_def del: encodeDeterministicCbor.simps)
  show wf: "wfCbor (CMap (receiptMapEntries b)) \<and> (\<forall>v \<in> snd ` set (receiptMapEntries b). scalar v)"
    using b k goodToken_size [of "receipt_targetDeliveryId b" 16] by (auto simp: receiptMapEntries_def goodReceipt_def maxCborCollectionEntries_def)
  then show "length (encoded (CMap (receiptMapEntries b))) \<le> 64"
    using b k t by (subst length_encoded_flat) (auto simp: receiptMapEntries_def goodReceipt_def length_short_key encodeBytes_def encodeHeader_def)
  show "fst ` set (receiptMapEntries b) \<subseteq> set receiptNames" by (simp add: receiptMapEntries_def)
next
  fix b e k assume b: "goodReceipt b" "decodeDeterministicCbor e 64 = Inr (CMap k)" "fst ` set k \<subseteq> set receiptNames"
    "map_of k = map_of (receiptMapEntries b)"
  show "decodeReceiptBody e = Inr b"
    using b decode_size [OF b(2)] validReceiptKind_text [of "receipt_kind b"] tokenFacts [of "receipt_targetDeliveryId b" 16]
    by (cases b) (simp add: decodeReceiptBody_def receiptMapEntries_def goodReceipt_def res_simps maxReceiptBodyBytes_def
        maxCborTextBytes_def maxCborBytes_def)
next
  fix e b assume "decodeReceiptBody e = Inr b"
  then obtain k t where k: "decodeDeterministicCbor e 64 = Inr (CMap k)" "fst ` set k \<subseteq> set receiptNames"
    "map_of k (lit ''receipt_kind'') = Some (CText (receipt_kind b))" "map_of k (lit ''target_delivery_id'') = Some (CBytes t)"
    "length t = 16" "receipt_targetDeliveryId b = encodeBase64URL t" "validReceiptKind (receipt_kind b)"
    unfolding decodeReceiptBody_def maxReceiptBodyBytes_def
    by (clarsimp simp: res_simps split: if_splits)
  then have "goodReceipt b" by (auto simp: goodReceipt_def)
  with k show "goodReceipt b \<and> (\<exists>k. decodeDeterministicCbor e 64 = Inr (CMap k) \<and> fst ` set k \<subseteq> set receiptNames
      \<and> (\<forall>key \<in> set receiptNames. map_of k key = map_of (receiptMapEntries b) key))"
    by (intro conjI exI [of _ k]) (simp_all add: receiptMapEntries_def)
qed

interpretation read_accepted_body: flat_codec encodeReadAcceptedBody decodeReadAcceptedBody "\<lambda>t. goodToken t 16"
  "\<lambda>t. [(lit ''target_delivery_id'', CBytes (tokenBytes t))]" "[lit ''target_delivery_id'']" 64
proof
  fix t assume t: "goodToken t 16"
  note f = tokenFacts [OF t] goodToken_validToken [OF t] goodToken_facts(1) [OF t]
  show "encodeReadAcceptedBody t = encodeDeterministicCbor (CMap [(lit ''target_delivery_id'', CBytes (tokenBytes t))])"
    using f by (simp add: encodeReadAcceptedBody_def del: encodeDeterministicCbor.simps)
  show wf: "wfCbor (CMap [(lit ''target_delivery_id'', CBytes (tokenBytes t))]) \<and> (\<forall>v \<in> snd ` set [(lit ''target_delivery_id'', CBytes (tokenBytes t))]. scalar v)"
    using goodToken_size [OF t] by (simp add: maxCborCollectionEntries_def)
  have "cborBound (CMap [(lit ''target_delivery_id'', CBytes (tokenBytes t))]) \<le> 64" using f by simp
  with wf show "length (encoded (CMap [(lit ''target_delivery_id'', CBytes (tokenBytes t))])) \<le> 64" by (blast intro: length_encoded_bound)
next
  fix t e k assume t: "goodToken t 16" "decodeDeterministicCbor e 64 = Inr (CMap k)" "fst ` set k \<subseteq> set [lit ''target_delivery_id'']"
    "map_of k = map_of [(lit ''target_delivery_id'', CBytes (tokenBytes t))]"
  show "decodeReadAcceptedBody e = Inr t"
    using t decode_size [OF t(2)] tokenFacts [OF t(1)]
    by (simp add: decodeReadAcceptedBody_def res_simps maxReceiptBodyBytes_def maxCborBytes_def)
next
  fix e t assume "decodeReadAcceptedBody e = Inr t"
  then obtain k b where k: "decodeDeterministicCbor e 64 = Inr (CMap k)" "fst ` set k \<subseteq> set [lit ''target_delivery_id'']"
    "map_of k (lit ''target_delivery_id'') = Some (CBytes b)" "length b = 16" "t = encodeBase64URL b"
    unfolding decodeReadAcceptedBody_def maxReceiptBodyBytes_def by (clarsimp simp: res_simps)
  then show "goodToken t 16 \<and> (\<exists>k. decodeDeterministicCbor e 64 = Inr (CMap k) \<and> fst ` set k \<subseteq> set [lit ''target_delivery_id'']
      \<and> (\<forall>key \<in> set [lit ''target_delivery_id'']. map_of k key = map_of [(lit ''target_delivery_id'', CBytes (tokenBytes t))] key))"
    by (intro conjI exI [of _ k]) auto
qed simp_all

section \<open>A signed control reaches its receiver\<close>

lemma prepareOutbound_Inr:
  "prepareOutboundApplicationControl control d ports = Inr e \<longleftrightarrow>
     validateDescriptor d = Inr () \<and> out_kind control = desc_kind d \<and> out_senderPeerId control = oports_localPeerId ports
     \<and> oports_isKnownContact ports (out_recipientPeerId control) \<and> oports_isAllowed ports (desc_kind d) (out_recipientPeerId control)
     \<and> validToken (out_controlId control) 16 \<and> validToken (out_senderPeerId control) 32 \<and> validToken (out_recipientPeerId control) 32
     \<and> (\<exists>body. desc_encodeBody d (out_body control) = Inr body \<and> body \<noteq> [] \<and> length body \<le> 2048
          \<and> e = \<lparr>control_version = applicationControlWireVersion, control_kind = desc_kind d, control_controlId = out_controlId control,
                control_issuedAt = out_issuedAt control, control_expiresAt = out_expiresAt control,
                control_senderPeerId = out_senderPeerId control, control_recipientPeerId = out_recipientPeerId control,
                control_body = body, control_signature = []\<rparr>)
     \<and> out_issuedAt control \<le> oports_now ports + oports_maxClockSkewMs ports \<and> oports_now ports < out_expiresAt control
     \<and> out_expiresAt control - out_issuedAt control \<le> desc_maximumTTLms d
     \<and> oports_consumeRateLimit ports (desc_kind d) (out_recipientPeerId control) (oports_now ports)"
  by (auto simp: prepareOutboundApplicationControl_def res_simps Let_def)

text \<open>
  A well-formed envelope, signed with the key its sender identifier names, passes the runtime of the peer
  it is addressed to: the laws are that the signature has Ed25519's 64 bytes and verifies.
\<close>

lemma signed_control_accepted:
  assumes good: "goodControl (e\<lparr>control_signature := replicate 64 0\<rparr>)"
    and desc: "mapGet registry (control_kind e) = Some d" "desc_authentication d = AuthEd25519"
    and sign: "\<And>m. length (sign m) = 64"
      "\<And>m pk. decodeBase64URL (control_senderPeerId e) = Inr pk \<Longrightarrow> ed25519Verify pk (sign m) m = Some True"
    and now: "now < control_expiresAt e" "control_issuedAt e \<le> now + 1000"
      "control_expiresAt e - control_issuedAt e \<le> desc_maximumTTLms d"
    and fresh: "\<not> mapHas seen (control_controlId e)"
    and body: "desc_decodeBody d (control_body e) = Inr b"
  shows "\<exists>payload. signControl sign e = Inr payload \<and> decodeApplicationControl payload = Inr (e\<lparr>control_signature := sign (projr (applicationControlSigningBytes e))\<rparr>)
    \<and> processApplicationControl payload registry (receiverPorts ed25519Verify now (control_recipientPeerId e) (control_senderPeerId e) (Some c) seen)
        = projectControl (e\<lparr>control_signature := sign (projr (applicationControlSigningBytes e))\<rparr>) d"
proof -
  define input where "input = projr (applicationControlSigningBytes e)"
  define f where "f = e\<lparr>control_signature := sign input\<rparr>"
  have same: "applicationControlSigningBytes (e\<lparr>control_signature := x\<rparr>) = applicationControlSigningBytes e" for x
    by (simp add: applicationControlSigningBytes_def envelopeMap_def)
  have gf: "goodControl f" using good sign(1) by (simp add: f_def goodControl_def res_simps)
  have "applicationControlSigningBytes f \<noteq> Inl err" for err
    using encode_wf_Inr [OF controlEntries_wf(2) [OF gf]] unfolding controlSigningBytes_eq [OF gf]
    by (cases "encodeDeterministicCbor (CMap (controlEntries f))") (auto simp del: encodeDeterministicCbor.simps)
  then have input: "applicationControlSigningBytes e = Inr input" "applicationControlSigningBytes f = Inr input"
    using same [of "sign input"] by (cases "applicationControlSigningBytes e"; simp add: f_def input_def)+
  obtain payload where p: "encodeApplicationControl f = Inr payload" "decodeApplicationControl payload = Inr f"
    using application_control.decode_encode [OF gf] by blast
  have "admitControl payload registry (receiverPorts ed25519Verify now (control_recipientPeerId e) (control_senderPeerId e) (Some c) seen)
      = ControlAdmitted f d"
    unfolding admitControl_Admitted using p(2) desc(1) now fresh by (simp add: receiverPorts_def f_def)
  moreover obtain pk where "decodeBase64URL (control_senderPeerId e) = Inr pk"
    using goodControl_facts(3) [OF gf] goodToken_facts(1) by (auto simp: f_def)
  then have "controlSignatureOk (receiverPorts ed25519Verify now (control_recipientPeerId e) (control_senderPeerId e) (Some c) seen) f d = Inr True"
    using input(2) desc(2) sign(2) by (simp add: controlSignatureOk_def receiverPorts_def verifyControlSignature_def f_def)
  ultimately have "processApplicationControl payload registry (receiverPorts ed25519Verify now (control_recipientPeerId e) (control_senderPeerId e) (Some c) seen)
      = projectControl f d"
    by (simp add: processApplicationControl_def)
  moreover have "signControl sign e = Inr payload" using input(1) p(1) by (simp add: signControl_def f_def)
  ultimately show ?thesis using p(2) unfolding f_def input_def by blast
qed

lemma receiptDescriptor [simp]:
  "validateDescriptor deliveryReceiptControlDescriptor = Inr ()" "desc_kind deliveryReceiptControlDescriptor = deliveryReceiptControlKind"
  "desc_authentication deliveryReceiptControlDescriptor = AuthEd25519" "desc_maximumTTLms deliveryReceiptControlDescriptor = 300000"
  "desc_encodeBody deliveryReceiptControlDescriptor = encodeReceiptBody" "desc_decodeBody deliveryReceiptControlDescriptor = decodeReceiptBody"
  "desc_allowedEffects deliveryReceiptControlDescriptor = [MessageMetadataKind]"
  "desc_reduce deliveryReceiptControlDescriptor e b = Inr [MessageMetadata (receipt_targetDeliveryId b) (receipt_kind b)]"
  by (simp_all add: validateDescriptor_def deliveryReceiptControlDescriptor_def deliveryReceiptControlKind_def deliveryReceiptControlTTLms_def
      maxControlKindBytes_def isSafeInteger_def maxSafeInteger_def)

lemma mapHas_evict_dropExpired: "wfMap m \<Longrightarrow> mapHas (evictOldest n (dropExpired m now)) k \<Longrightarrow> mapHas m k"
proof -
  assume "wfMap m" "mapHas (evictOldest n (dropExpired m now)) k"
  then obtain v where "(k, v) \<in> set (dropExpired m now)" by (auto simp: evictOldest_drop mapHas_def dest: in_set_dropD)
  then show "mapHas m k" using \<open>wfMap m\<close> by (force simp: dropExpired_filter mapHas_def)
qed

text \<open>The unsigned receipt a sender builds.\<close>

definition receiptEnvelope :: "js_string \<Rightarrow> int \<Rightarrow> js_string \<Rightarrow> js_string \<Rightarrow> bytes \<Rightarrow> ApplicationControlEnvelope" where
  "receiptEnvelope controlId now sender recipient body =
     \<lparr>control_version = applicationControlWireVersion, control_kind = deliveryReceiptControlKind, control_controlId = controlId,
      control_issuedAt = now, control_expiresAt = now + 300000, control_senderPeerId = sender, control_recipientPeerId = recipient,
      control_body = body, control_signature = []\<rparr>"

lemma receipt_body_encoded:
  assumes "goodReceipt b"
  obtains body where "encodeReceiptBody b = Inr body" "decodeReceiptBody body = Inr b" "body \<noteq> []" "length body \<le> 64"
proof -
  obtain body where body: "encodeReceiptBody b = Inr body" "decodeReceiptBody body = Inr b"
    using receipt_body.decode_encode [OF assms] by blast
  moreover from body(2) have "body \<noteq> []" "length body \<le> 64"
    by (auto simp: decodeReceiptBody_def maxReceiptBodyBytes_def split: if_splits)
  ultimately show ?thesis by (rule that)
qed

lemma receiptEnvelope_good:
  assumes "goodToken controlId 16" "goodToken sender 32" "goodToken recipient 32" "0 \<le> now" "now + 300000 \<le> maxSafeInteger"
    and "body \<noteq> []" "length body \<le> 64"
  shows "goodControl (receiptEnvelope controlId now sender recipient body\<lparr>control_signature := replicate 64 0\<rparr>)"
proof -
  have "goodText deliveryReceiptControlKind 96" by (simp add: deliveryReceiptControlKind_def goodText_lit)
  then show ?thesis
    using assms goodToken_validToken by (auto simp: goodControl_def receiptEnvelope_def validateEnvelope_Inr goodTime_def goodText_def deliveryReceiptControlKind_def)
qed

lemma sendDeliveryReceipt_Sent:
  assumes "goodReceipt b" "goodToken controlId 16" "goodToken sender 32" "goodToken recipient 32"
    and "encodeReceiptBody b = Inr body" "body \<noteq> []" "length body \<le> 64"
    and "retry \<or> \<not> mapHas (rc_emittedReceiptTargets (pruneReceipts now s)) (emittedReceiptKey (receipt_kind b) recipient (receipt_targetDeliveryId b))"
    and "signControl sign (receiptEnvelope controlId now sender recipient body) = Inr payload" "transmit payload = Inr ()"
  shows "\<exists>s'. sendDeliveryReceipt (Some sign) transmit controlId now b sender recipient True retry s = (Inr (Sent payload), s')"
proof -
  define rate where "rate = consumeReceiptRate retry (emittedReceiptKey (receipt_kind b) recipient (receipt_targetDeliveryId b)) now
    (rc_emittedReceiptTargets (pruneReceipts now s))"
  have rate: "fst rate" using assms(8) by (auto simp: rate_def consumeReceiptRate_def Let_def)
  have valid: "validToken (receipt_targetDeliveryId b) 16" "validToken controlId 16" "validToken sender 32" "validToken recipient 32"
    using assms(1-4) goodToken_validToken by (auto simp: goodReceipt_def)
  have prep: "prepareOutboundApplicationControl
       \<lparr>out_kind = deliveryReceiptControlKind, out_controlId = controlId, out_issuedAt = now,
        out_expiresAt = now + deliveryReceiptControlTTLms, out_senderPeerId = sender, out_recipientPeerId = recipient, out_body = b\<rparr>
       deliveryReceiptControlDescriptor (senderPorts now sender recipient (fst rate))
      = Inr (receiptEnvelope controlId now sender recipient body)"
    unfolding prepareOutbound_Inr using valid rate assms(5-7) by (simp add: senderPorts_def receiptEnvelope_def deliveryReceiptControlTTLms_def)
  from assms(9) obtain input where input: "applicationControlSigningBytes (receiptEnvelope controlId now sender recipient body) = Inr input"
    "encodeApplicationControl (receiptEnvelope controlId now sender recipient body\<lparr>control_signature := sign input\<rparr>) = Inr payload"
    by (auto simp: signControl_def res_simps)
  show ?thesis
    using valid(1) assms(8,10) input prep by (auto simp: sendDeliveryReceipt_def Let_def rate_def)
qed

section \<open>Replay\<close>

definition receiptsInv :: "ReceiptControlState \<Rightarrow> bool" where
  "receiptsInv s \<longleftrightarrow> wfMap (rc_replayControlIds s) \<and> wfMap (rc_emittedReceiptTargets s)"

datatype receiptOp =
    ReceiveReceipt int bytes js_string js_string "js_string option"
  | ReceiveReadAccepted int bytes js_string js_string "js_string option"

fun runReceipt :: "(bytes \<Rightarrow> bytes \<Rightarrow> bytes \<Rightarrow> bool option) \<Rightarrow> receiptOp \<Rightarrow> ReceiptControlState \<Rightarrow> ReceiptControlState" where
  "runReceipt ed (ReceiveReceipt now plaintext localPeer sender known) s = snd (receiveDeliveryReceipt ed now plaintext localPeer sender known s)"
| "runReceipt ed (ReceiveReadAccepted now plaintext localPeer sender known) s = snd (receiveReadAccepted ed now plaintext localPeer sender known s)"

fun receiptBefore :: "receiptOp \<Rightarrow> js_string \<times> int \<Rightarrow> bool" where
  "receiptBefore (ReceiveReceipt now _ _ _ _) (i, e) = (now < e)"
| "receiptBefore (ReceiveReadAccepted now _ _ _ _) (i, e) = (now < e)"

definition recentReceipt :: "ReceiptControlState \<Rightarrow> js_string \<times> int \<Rightarrow> nat \<Rightarrow> bool" where
  "recentReceipt s k j \<longleftrightarrow> receiptsInv s \<and> recentKey (rc_replayControlIds s) (fst k) (snd k) j"

lemma processed_remembered:
  assumes "processApplicationControl bs registry (receiverPorts ed now localPeer sender known seen) = Inr (result, remembered)"
  shows "remembered = None \<or> (\<exists>i e. remembered = Some (i, e) \<and> \<not> mapHas seen i)"
proof (cases remembered)
  case (Some r)
  then obtain effects where "result = ControlAccepted effects" using assms processApplicationControl_remembers by blast
  with assms obtain e d where "admitControl bs registry (receiverPorts ed now localPeer sender known seen) = ControlAdmitted e d"
    "projectControl e d = Inr (ControlAccepted effects, remembered)"
    using processApplicationControl_Accepted by blast
  then have "\<not> mapHas seen (control_controlId e)" "remembered = Some (control_controlId e, control_expiresAt e)"
    unfolding admitControl_Admitted projectControl_Accepted by (simp_all add: receiverPorts_def)
  then show ?thesis by blast
qed simp

lemma recentKey_remember:
  assumes "recentKey seen i e j" "remembered = None \<or> (\<exists>i e. remembered = Some (i, e) \<and> \<not> mapHas seen i)"
  shows "recentKey (rememberControl remembered seen) i e (Suc j)"
proof (cases remembered)
  case None
  then show ?thesis using recentKey_mono [OF assms(1), of "Suc j"] by (simp add: rememberControl_def)
next
  case (Some r)
  moreover from this assms(2) obtain i' e' where r: "r = (i', e')" "\<not> mapHas seen i'" by auto
  moreover from this have "i' \<noteq> i" using recentKey_has [OF assms(1)] by blast
  ultimately show ?thesis using recentKey_mapSet [OF assms(1), of i' e'] by (simp add: rememberControl_def)
qed

lemma wfMap_remember [simp]: "wfMap seen \<Longrightarrow> wfMap (rememberControl r seen)"
  by (auto simp: rememberControl_def split: option.splits)

lemma receiptsInv_prune: "receiptsInv s \<Longrightarrow> receiptsInv (pruneReceipts now s)"
  by (simp add: receiptsInv_def pruneReceipts_def)

lemma recent_prune:
  assumes "recentReceipt s (i, e) j" "now < e" "j < 128"
  shows "recentReceipt (pruneReceipts now s) (i, e) j"
  using assms receiptsInv_prune [of s now]
  by (auto simp: recentReceipt_def pruneReceipts_def receiptsInv_def maxReplayEntries_def
      intro!: recentKey_evict recentKey_dropExpired)

lemma recent_remember:
  assumes "recentReceipt s (i, e) j" "processApplicationControl bs registry (receiverPorts ed now lp sp kc (rc_replayControlIds s)) = Inr (result, remembered)"
  shows "recentReceipt (s\<lparr>rc_replayControlIds := rememberControl remembered (rc_replayControlIds s)\<rparr>) (i, e) (Suc j)"
  using assms(1) recentKey_remember [OF _ processed_remembered [OF assms(2)], of i e j] by (simp add: recentReceipt_def receiptsInv_def)

lemma recentReceipt_Suc: "recentReceipt s k j \<Longrightarrow> recentReceipt s k (Suc j)"
  using recentKey_mono [of "rc_replayControlIds s" "fst k" "snd k" j "Suc j"] by (simp add: recentReceipt_def)

lemma recent_receive:
  assumes "recentReceipt s (i, e) j" "now < e" "Suc j < 128"
  shows "recentReceipt (snd (receiveDeliveryReceipt ed now p lp sp kc s)) (i, e) (Suc j)"
    "recentReceipt (snd (receiveReadAccepted ed now p lp sp kc s)) (i, e) (Suc j)"
proof -
  note S = recentReceipt_Suc [OF assms(1)]
  have pr: "recentReceipt (pruneReceipts now s) (i, e) j" using recent_prune assms by simp
  show "recentReceipt (snd (receiveDeliveryReceipt ed now p lp sp kc s)) (i, e) (Suc j)"
    using S recentReceipt_Suc [OF pr] recent_remember [OF pr]
    by (auto simp: receiveDeliveryReceipt_def Let_def split: sum.splits)
  show "recentReceipt (snd (receiveReadAccepted ed now p lp sp kc s)) (i, e) (Suc j)"
    using S recent_remember [OF assms(1)] by (auto simp: receiveReadAccepted_def split: sum.splits)
qed

interpretation receipt_memory: replay_memory "runReceipt ed" "\<lambda>s k. mapGet (rc_replayControlIds s) (fst k) = Some (snd k)"
  recentReceipt receiptBefore "\<lambda>_. 128" for ed
proof
  fix m k j assume "recentReceipt m k j"
  then show "mapGet (rc_replayControlIds m) (fst k) = Some (snd k)"
    by (auto simp: recentReceipt_def receiptsInv_def intro: recentKey_get)
next
  fix m k j op assume r: "recentReceipt m k j" "receiptBefore op k" "Suc j < (128 :: nat)"
  obtain i e where k: "k = (i, e)" by (cases k)
  show "recentReceipt (runReceipt ed op m) k (Suc j)"
    using r recent_receive [of m i e j] unfolding k by (cases op) simp_all
qed simp

lemma receipt_accepted:
  assumes "receiveDeliveryReceipt ed now p lp sp kc s = (Inr (Some (ReceiptAccepted b)), s')"
  obtains e d effects where "decodeApplicationControl p = Inr e" "control_kind e = deliveryReceiptControlKind" "control_senderPeerId e = sp"
    "admitControl p receiptRegistry (receiverPorts ed now lp sp kc (rc_replayControlIds (pruneReceipts now s))) = ControlAdmitted e deliveryReceiptControlDescriptor"
    "controlSignatureOk (receiverPorts ed now lp sp kc (rc_replayControlIds (pruneReceipts now s))) e deliveryReceiptControlDescriptor = Inr True"
    "decodeReceiptBody (control_body e) = Inr b"
    "s' = pruneReceipts now s\<lparr>rc_replayControlIds := mapSet (rc_replayControlIds (pruneReceipts now s)) (control_controlId e) (control_expiresAt e)\<rparr>"
proof -
  define ports where "ports = receiverPorts ed now lp sp kc (rc_replayControlIds (pruneReceipts now s))"
  obtain e where e: "decodeApplicationControl p = Inr e" "control_kind e = deliveryReceiptControlKind" "control_senderPeerId e = sp"
    using assms by (cases "decodeApplicationControl p") (auto simp: receiveDeliveryReceipt_def split: if_splits)
  obtain result rem where r: "processApplicationControl p receiptRegistry ports = Inr (result, rem)"
    using assms e by (cases "processApplicationControl p receiptRegistry ports") (auto simp: receiveDeliveryReceipt_def ports_def Let_def)
  with assms e obtain effects m where acc: "result = ControlAccepted effects" "metadataEffect effects = Some m"
    "b = \<lparr>receipt_kind = (if snd m = lit ''read'' then lit ''read'' else lit ''delivered''), receipt_targetDeliveryId = fst m\<rparr>"
    "s' = pruneReceipts now s\<lparr>rc_replayControlIds := rememberControl rem (rc_replayControlIds (pruneReceipts now s))\<rparr>"
    by (cases result) (auto simp: receiveDeliveryReceipt_def ports_def [symmetric] Let_def split: option.splits)
  from r acc(1) obtain e' d where a: "admitControl p receiptRegistry ports = ControlAdmitted e' d" "controlSignatureOk ports e' d = Inr True"
    "projectControl e' d = Inr (ControlAccepted effects, rem)"
    using processApplicationControl_Accepted by blast
  then have d: "e' = e" "d = deliveryReceiptControlDescriptor"
    using e unfolding admitControl_Admitted by (auto simp: receiptRegistry_get)
  obtain body where body: "decodeReceiptBody (control_body e) = Inr body" "effects = [MessageMetadata (receipt_targetDeliveryId body) (receipt_kind body)]"
    "rem = Some (control_controlId e, control_expiresAt e)"
    using a(3) unfolding d projectControl_Accepted by auto
  have "validReceiptKind (receipt_kind body)" using receipt_body.encode_decode [OF body(1)] by (simp add: goodReceipt_def)
  then have "b = body" using acc(2,3) body(2) by (auto simp: metadataEffect_def validReceiptKind_def)
  show ?thesis
    by (rule that [OF e]) (use a body acc(4) d \<open>b = body\<close> in \<open>simp_all add: ports_def rememberControl_def\<close>)
qed

lemma receipt_delivered:
  assumes "goodReceipt b" "goodToken controlId 16" "goodToken sender 32" "goodToken recipient 32" "0 \<le> now" "now + 300000 \<le> maxSafeInteger"
    and "\<not> mapHas (rc_emittedReceiptTargets (pruneReceipts now s)) (emittedReceiptKey (receipt_kind b) recipient (receipt_targetDeliveryId b))"
    and "\<forall>payload. transmit payload = Inr ()"
    and "\<forall>m. length (sign m) = 64" "\<forall>m. ed25519Verify (tokenBytes sender) (sign m) m = Some True"
    and "now \<le> now' + 1000" "now' < now + 300000" "receiptsInv r" "\<not> mapHas (rc_replayControlIds r) controlId"
  shows "\<exists>payload s'. sendDeliveryReceipt (Some sign) transmit controlId now b sender recipient True retry s = (Inr (Sent payload), s')
    \<and> fst (receiveDeliveryReceipt ed25519Verify now' payload recipient sender (Some contactId) r) = Inr (Some (ReceiptAccepted b))"
proof -
  obtain body where body: "encodeReceiptBody b = Inr body" "decodeReceiptBody body = Inr b" "body \<noteq> []" "length body \<le> 64"
    by (rule receipt_body_encoded [OF assms(1)])
  let ?e = "receiptEnvelope controlId now sender recipient body"
  let ?r = "pruneReceipts now' r"
  have f: "control_kind ?e = deliveryReceiptControlKind" "control_senderPeerId ?e = sender" "control_recipientPeerId ?e = recipient"
    "control_controlId ?e = controlId" "control_expiresAt ?e = now + 300000" "control_issuedAt ?e = now" "control_body ?e = body"
    by (simp_all add: receiptEnvelope_def)
  have "\<not> mapHas (rc_replayControlIds ?r) controlId"
    using assms(13,14) by (auto simp: pruneReceipts_def receiptsInv_def dest: mapHas_evict_dropExpired)
  then obtain payload where p: "signControl sign ?e = Inr payload"
    "decodeApplicationControl payload = Inr (?e\<lparr>control_signature := sign (projr (applicationControlSigningBytes ?e))\<rparr>)"
    "processApplicationControl payload receiptRegistry (receiverPorts ed25519Verify now' recipient sender (Some contactId) (rc_replayControlIds ?r))
        = projectControl (?e\<lparr>control_signature := sign (projr (applicationControlSigningBytes ?e))\<rparr>) deliveryReceiptControlDescriptor"
    using signed_control_accepted [OF receiptEnvelope_good [OF assms(2-6) body(3,4)], of receiptRegistry deliveryReceiptControlDescriptor sign
        ed25519Verify now' "rc_replayControlIds ?r" b contactId] assms(9-12) goodToken_facts(1) [OF assms(3)] body(2)
    by (auto simp: f receiptRegistry_get)
  have "validToken (receipt_targetDeliveryId b) 16" "validReceiptKind (receipt_kind b)"
    using assms(1) goodToken_validToken by (auto simp: goodReceipt_def)
  then have "projectControl (?e\<lparr>control_signature := x\<rparr>) deliveryReceiptControlDescriptor
      = Inr (ControlAccepted [MessageMetadata (receipt_targetDeliveryId b) (receipt_kind b)], Some (controlId, now + 300000))" for x
    using body(2) validReceiptKind_text [of "receipt_kind b"]
    by (auto simp: projectControl_Accepted f effectsAreBounded_def effectIsBounded_def validReceiptKind_def)
  with p(2,3) \<open>validReceiptKind (receipt_kind b)\<close>
  have "fst (receiveDeliveryReceipt ed25519Verify now' payload recipient sender (Some contactId) r) = Inr (Some (ReceiptAccepted b))"
    by (auto simp: receiveDeliveryReceipt_def f Let_def metadataEffect_def validReceiptKind_def)
  moreover obtain s' where "sendDeliveryReceipt (Some sign) transmit controlId now b sender recipient True retry s = (Inr (Sent payload), s')"
    using sendDeliveryReceipt_Sent [OF assms(1-4) body(1,3,4) _ p(1)] assms(7,8) by blast
  ultimately show ?thesis by blast
qed

definition sampleReceipt :: DeliveryReceiptBody where
  "sampleReceipt = \<lparr>receipt_kind = lit ''read'', receipt_targetDeliveryId = encodeBase64URL (replicate 16 1)\<rparr>"

abbreviation emptyReceipts :: ReceiptControlState where
  "emptyReceipts \<equiv> \<lparr>rc_replayControlIds = [], rc_emittedReceiptTargets = []\<rparr>"

abbreviation sampleSign :: "bytes \<Rightarrow> bytes" where
  "sampleSign \<equiv> \<lambda>_. replicate 64 7"

abbreviation sampleEd25519 :: "bytes \<Rightarrow> bytes \<Rightarrow> bytes \<Rightarrow> bool option" where
  "sampleEd25519 \<equiv> \<lambda>_ signature _. Some (signature = replicate 64 7)"

lemma sample_tokens: "n \<noteq> 0 \<Longrightarrow> goodToken (encodeBase64URL (replicate n x)) n"
  by simp

lemma sample_receipt_facts:
  "goodReceipt sampleReceipt" "receiptsInv emptyReceipts"
  "\<not> mapHas (rc_emittedReceiptTargets (pruneReceipts 1000 emptyReceipts)) k" "\<not> mapHas (rc_replayControlIds emptyReceipts) k"
  by (simp_all add: sampleReceipt_def goodReceipt_def validReceiptKind_def receiptsInv_def pruneReceipts_def dropExpired_filter)

lemma sample_acceptance:
  obtains p s where "receiveDeliveryReceipt sampleEd25519 1000 p (encodeBase64URL (replicate 32 4)) (encodeBase64URL (replicate 32 3)) (Some (lit ''c1'')) emptyReceipts
    = (Inr (Some (ReceiptAccepted sampleReceipt)), s)"
  using receipt_delivered [of sampleReceipt "encodeBase64URL (replicate 16 2)" "encodeBase64URL (replicate 32 3)" "encodeBase64URL (replicate 32 4)"
      1000 emptyReceipts "\<lambda>_. Inr ()" sampleSign sampleEd25519 1000 emptyReceipts False "lit ''c1''"] sample_receipt_facts
  by (simp add: maxSafeInteger_def) (metis prod.collapse)

section \<open>Properties\<close>

text \<open>
  C36. A receipt reaches the peer it is about: a well-formed receipt that an attached endpoint with an
  identity has not yet emitted is sent, and the addressed peer, knowing the sender and reading its clock
  less than a second behind and less than five minutes ahead, accepts exactly that receipt. The laws of
  Ed25519 are that signatures have 64 bytes and verify under the key the sender's identifier is.
\<close>

theorem receipt_end_to_end:
  assumes "goodReceipt b" "goodToken controlId 16" "goodToken sender 32" "goodToken recipient 32" "0 \<le> now" "now + 300000 \<le> maxSafeInteger"
    and "\<not> mapHas (rc_emittedReceiptTargets (pruneReceipts now s)) (emittedReceiptKey (receipt_kind b) recipient (receipt_targetDeliveryId b))"
    and "\<forall>payload. transmit payload = Inr ()"
    and "\<forall>m. length (sign m) = 64" "\<forall>m. ed25519Verify (tokenBytes sender) (sign m) m = Some True"
    and "now \<le> now' + 1000" "now' < now + 300000" "receiptsInv r" "\<not> mapHas (rc_replayControlIds r) controlId"
  shows "\<exists>payload s'. sendDeliveryReceipt (Some sign) transmit controlId now b sender recipient True retry s = (Inr (Sent payload), s')
    \<and> fst (receiveDeliveryReceipt ed25519Verify now' payload recipient sender (Some contactId) r) = Inr (Some (ReceiptAccepted b))"
  using assms by (intro receipt_delivered)

theorem receipt_end_to_end_witness:
  "\<exists>payload s'. sendDeliveryReceipt (Some sampleSign) (\<lambda>_. Inr ()) (encodeBase64URL (replicate 16 2)) 1000 sampleReceipt
      (encodeBase64URL (replicate 32 3)) (encodeBase64URL (replicate 32 4)) True False emptyReceipts = (Inr (Sent payload), s')
    \<and> fst (receiveDeliveryReceipt sampleEd25519 500 payload (encodeBase64URL (replicate 32 4)) (encodeBase64URL (replicate 32 3))
        (Some (lit ''c1'')) emptyReceipts) = Inr (Some (ReceiptAccepted sampleReceipt))"
  using receipt_end_to_end [of sampleReceipt "encodeBase64URL (replicate 16 2)" "encodeBase64URL (replicate 32 3)" "encodeBase64URL (replicate 32 4)"
      1000 emptyReceipts "\<lambda>_. Inr ()" sampleSign sampleEd25519 500 emptyReceipts False "lit ''c1''"] sample_receipt_facts
  by (simp add: maxSafeInteger_def)

text \<open>
  C37. An accepted receipt is authentic: it was decoded from a signed envelope addressed to this endpoint,
  issued by the very peer the transport delivered it from, a known contact, within its lifetime, and the
  signature verified under that peer's key over bytes that no other envelope signs.
\<close>

theorem receipt_authentic:
  assumes "receiveDeliveryReceipt ed now p localPeer sender known s = (Inr (Some (ReceiptAccepted b)), s')"
  shows "\<exists>e pk input. decodeApplicationControl p = Inr e \<and> decodeReceiptBody (control_body e) = Inr b
    \<and> control_recipientPeerId e = localPeer \<and> control_senderPeerId e = sender \<and> known \<noteq> None
    \<and> control_issuedAt e \<le> now + 1000 \<and> now < control_expiresAt e \<and> control_expiresAt e - control_issuedAt e \<le> 300000
    \<and> decodeBase64URL sender = Inr pk \<and> applicationControlSigningBytes e = Inr input \<and> ed pk (control_signature e) input = Some True
    \<and> (\<forall>e'. goodControl e' \<longrightarrow> applicationControlSigningBytes e' = Inr input \<longrightarrow> e' = e\<lparr>control_signature := control_signature e'\<rparr>)"
proof -
  obtain e where e: "decodeApplicationControl p = Inr e" "control_senderPeerId e = sender" "decodeReceiptBody (control_body e) = Inr b"
    "admitControl p receiptRegistry (receiverPorts ed now localPeer sender known (rc_replayControlIds (pruneReceipts now s))) = ControlAdmitted e deliveryReceiptControlDescriptor"
    "controlSignatureOk (receiverPorts ed now localPeer sender known (rc_replayControlIds (pruneReceipts now s))) e deliveryReceiptControlDescriptor = Inr True"
    using receipt_accepted [OF assms] by metis
  from e(5) obtain input where i: "applicationControlSigningBytes e = Inr input" "verifyControlSignature ed sender input (control_signature e)"
    by (auto simp: controlSignatureOk_def receiverPorts_def res_simps e(2))
  then obtain pk where "decodeBase64URL sender = Inr pk" "ed pk (control_signature e) input = Some True"
    by (auto simp: verifyControlSignature_def split: sum.splits option.splits)
  moreover have "goodControl e" using application_control.encode_decode [OF e(1)] by simp
  ultimately show ?thesis
    using e(1-4) i(1) controlSigningBytes_inject [of e] unfolding admitControl_Admitted by (auto simp: receiverPorts_def)
qed

theorem receipt_authentic_witness:
  "\<exists>p e. decodeApplicationControl p = Inr e \<and> decodeReceiptBody (control_body e) = Inr sampleReceipt
    \<and> control_senderPeerId e = encodeBase64URL (replicate 32 3) \<and> control_signature e = replicate 64 7"
proof -
  obtain p s where "receiveDeliveryReceipt sampleEd25519 1000 p (encodeBase64URL (replicate 32 4)) (encodeBase64URL (replicate 32 3)) (Some (lit ''c1'')) emptyReceipts
      = (Inr (Some (ReceiptAccepted sampleReceipt)), s)"
    by (rule sample_acceptance)
  from receipt_authentic [OF this] show ?thesis by auto
qed



end
