(* ===== verification/WebRtc.thy ===== *)
theory WebRtc
  imports ApplicationControl Field_Codec
begin

text \<open>
  \<^verbatim>\<open>application-control/webrtc.ts\<close>: the bodies of the WebRTC signalling controls, their validators and
  codecs. SHA-256 (\<^verbatim>\<open>crypto.subtle.digest\<close>) is the argument \<open>sha256\<close>. The check for unpaired
  surrogates is modelled as written: \<^verbatim>\<open>charCodeAt\<close> past the end is \<^verbatim>\<open>NaN\<close>, which neither
  comparison catches.
\<close>

section \<open>Data\<close>

definition rtcSignalingVersion :: js_string where "rtcSignalingVersion = lit ''branch.rtc.signaling/0.draft''"
definition rtcCapabilitiesControlKind :: js_string where "rtcCapabilitiesControlKind = lit ''branch.rtc.capabilities/0.draft''"
definition rtcOfferControlKind :: js_string where "rtcOfferControlKind = lit ''branch.rtc.offer/0.draft''"
definition rtcAnswerControlKind :: js_string where "rtcAnswerControlKind = lit ''branch.rtc.answer/0.draft''"
definition rtcCandidateControlKind :: js_string where "rtcCandidateControlKind = lit ''branch.rtc.candidate/0.draft''"
definition rtcRestartControlKind :: js_string where "rtcRestartControlKind = lit ''branch.rtc.restart/0.draft''"
definition rtcCancelControlKind :: js_string where "rtcCancelControlKind = lit ''branch.rtc.cancel/0.draft''"

definition maxRtcSignalingBodyBytes :: nat where "maxRtcSignalingBodyBytes = 2048"
definition maxRtcDescriptionBytes :: nat where "maxRtcDescriptionBytes = 1536"
definition maxRtcCandidateBytes :: nat where "maxRtcCandidateBytes = 1024"
definition maxRtcCandidatesPerDirection :: int where "maxRtcCandidatesPerDirection = 32"
definition rtcSignalingControlTTLms :: int where "rtcSignalingControlTTLms = 60000"
definition rtcCapabilitiesControlTTLms :: int where "rtcCapabilitiesControlTTLms = 5 * 60000"

datatype RtcCandidateDirection = Offerer | Answerer
datatype RtcCancelReason = RtcCancelled | RtcRejected | RtcGlare

fun directionText :: "RtcCandidateDirection \<Rightarrow> js_string" where
  "directionText Offerer = lit ''offerer''"
| "directionText Answerer = lit ''answerer''"

fun reasonText :: "RtcCancelReason \<Rightarrow> js_string" where
  "reasonText RtcCancelled = lit ''cancelled''"
| "reasonText RtcRejected = lit ''rejected''"
| "reasonText RtcGlare = lit ''glare''"

record RtcCapabilities =
  rtccap_version :: js_string
  rtccap_maxDescriptionBytes :: int
  rtccap_maxCandidateBytes :: int
  rtccap_maxCandidatesPerDirection :: int

record RtcOffer =
  rtc_version :: js_string
  rtc_rtcSessionId :: js_string
  rtc_generation :: int
  rtc_description :: js_string
  rtc_descriptionSHA256 :: js_string
  rtc_dtlsFingerprintSHA256 :: js_string

text \<open>\<^verbatim>\<open>RtcAnswer\<close> and \<^verbatim>\<open>RtcRestart\<close> extend \<^verbatim>\<open>RtcOffer\<close> with one more digest each.\<close>

record RtcAnswer =
  answer_description :: RtcOffer
  answer_offerDescriptionSHA256 :: js_string

record RtcRestart =
  restart_description :: RtcOffer
  restart_priorDescriptionSHA256 :: js_string

record RtcCandidate =
  cand_version :: js_string
  cand_rtcSessionId :: js_string
  cand_generation :: int
  cand_direction :: RtcCandidateDirection
  cand_descriptionSHA256 :: js_string
  cand_candidate :: js_string

record RtcCancel =
  cancel_version :: js_string
  cancel_rtcSessionId :: js_string
  cancel_generation :: int
  cancel_descriptionSHA256 :: js_string
  cancel_reason :: RtcCancelReason

section \<open>Checks\<close>

fun hasUnpairedSurrogate :: "js_string \<Rightarrow> bool" where
  "hasUnpairedSurrogate [] = False"
| "hasUnpairedSurrogate [code] =
     (if unat code \<ge> 0xd800 \<and> unat code \<le> 0xdbff then False
      else unat code \<ge> 0xdc00 \<and> unat code \<le> 0xdfff)"
| "hasUnpairedSurrogate (code # nxt # rest) =
     (if unat code \<ge> 0xd800 \<and> unat code \<le> 0xdbff
      then (if unat nxt < 0xdc00 \<or> unat nxt > 0xdfff then True else hasUnpairedSurrogate rest)
      else if unat code \<ge> 0xdc00 \<and> unat code \<le> 0xdfff then True
      else hasUnpairedSurrogate (nxt # rest))"

definition validBoundedUtf8 :: "js_string \<Rightarrow> nat \<Rightarrow> bool" where
  "validBoundedUtf8 value maximumBytes =
     (if length value = 0 \<or> hasUnpairedSurrogate value then False else length (textEncode value) \<le> maximumBytes)"

definition boundedInteger :: "int \<Rightarrow> int \<Rightarrow> int \<Rightarrow> bool" where
  "boundedInteger value minimum maximum \<longleftrightarrow> isSafeInteger value \<and> value \<ge> minimum \<and> value \<le> maximum"

definition validGeneration :: "int \<Rightarrow> bool" where
  "validGeneration value = boundedInteger value 0 65535"

definition rtcValidToken :: "js_string \<Rightarrow> nat \<Rightarrow> bool" where
  "rtcValidToken value sz = (case decodeBase64URL value of Inl _ \<Rightarrow> False | Inr bs \<Rightarrow> length bs = sz)"

definition validDigest :: "js_string \<Rightarrow> bool" where
  "validDigest value = rtcValidToken value 32"

definition decodeToken :: "js_string \<Rightarrow> nat \<Rightarrow> js_string \<Rightarrow> bytes res" where
  "decodeToken value sz label =
     (case decodeBase64URL value of
        Inl _ \<Rightarrow> Inl (PlainError (lit ''invalid '' @ label))
      | Inr bs \<Rightarrow> if length bs \<noteq> sz then Inl (PlainError (lit ''invalid '' @ label)) else Inr bs)"

definition decodeDigest :: "js_string \<Rightarrow> js_string \<Rightarrow> bytes res" where
  "decodeDigest value label = decodeToken value 32 label"

definition rtcDescriptionSHA256 :: "(bytes \<Rightarrow> bytes) \<Rightarrow> js_string \<Rightarrow> js_string res" where
  "rtcDescriptionSHA256 sha256 description =
     (if \<not> validBoundedUtf8 description maxRtcDescriptionBytes then throw ''invalid rtc description''
      else Inr (encodeBase64URL (sha256 (textEncode description))))"

definition validateRtcDescription :: "(bytes \<Rightarrow> bytes) \<Rightarrow> RtcOffer \<Rightarrow> js_string \<Rightarrow> unit res" where
  "validateRtcDescription sha256 value label =
     (if rtc_version value \<noteq> rtcSignalingVersion \<or> \<not> rtcValidToken (rtc_rtcSessionId value) 16
         \<or> \<not> validGeneration (rtc_generation value)
         \<or> \<not> validBoundedUtf8 (rtc_description value) maxRtcDescriptionBytes
         \<or> \<not> validDigest (rtc_descriptionSHA256 value) \<or> \<not> validDigest (rtc_dtlsFingerprintSHA256 value)
      then Inl (PlainError (lit ''invalid rtc '' @ label))
      else andThen (rtcDescriptionSHA256 sha256 (rtc_description value)) (\<lambda>digest.
        if digest \<noteq> rtc_descriptionSHA256 value
        then Inl (PlainError (lit ''rtc '' @ label @ lit '' description hash mismatch''))
        else Inr ()))"

definition validateRtcCapabilities :: "RtcCapabilities \<Rightarrow> unit res" where
  "validateRtcCapabilities value = throwIf
     (rtccap_version value \<noteq> rtcSignalingVersion
      \<or> \<not> boundedInteger (rtccap_maxDescriptionBytes value) 1 (int maxRtcDescriptionBytes)
      \<or> \<not> boundedInteger (rtccap_maxCandidateBytes value) 1 (int maxRtcCandidateBytes)
      \<or> \<not> boundedInteger (rtccap_maxCandidatesPerDirection value) 1 maxRtcCandidatesPerDirection)
     (PlainError (lit ''invalid rtc capabilities''))"

definition validateRtcOffer :: "(bytes \<Rightarrow> bytes) \<Rightarrow> RtcOffer \<Rightarrow> unit res" where
  "validateRtcOffer sha256 value = validateRtcDescription sha256 value (lit ''offer'')"

definition validateRtcAnswer :: "(bytes \<Rightarrow> bytes) \<Rightarrow> RtcAnswer \<Rightarrow> unit res" where
  "validateRtcAnswer sha256 value =
     andThen (validateRtcDescription sha256 (answer_description value) (lit ''answer'')) (\<lambda>_.
     andThen (decodeDigest (answer_offerDescriptionSHA256 value) (lit ''offer description hash'')) (\<lambda>_. Inr ()))"

definition validateRtcRestart :: "(bytes \<Rightarrow> bytes) \<Rightarrow> RtcRestart \<Rightarrow> unit res" where
  "validateRtcRestart sha256 value =
     andThen (validateRtcDescription sha256 (restart_description value) (lit ''restart'')) (\<lambda>_.
     andThen (decodeDigest (restart_priorDescriptionSHA256 value) (lit ''prior description hash'')) (\<lambda>_. Inr ()))"

definition validateRtcCandidate :: "RtcCandidate \<Rightarrow> unit res" where
  "validateRtcCandidate value = throwIf
     (cand_version value \<noteq> rtcSignalingVersion
      \<or> \<not> rtcValidToken (cand_rtcSessionId value) 16
      \<or> \<not> validGeneration (cand_generation value)
      \<or> (cand_direction value \<noteq> Offerer \<and> cand_direction value \<noteq> Answerer)
      \<or> \<not> validDigest (cand_descriptionSHA256 value)
      \<or> \<not> validBoundedUtf8 (cand_candidate value) maxRtcCandidateBytes)
     (PlainError (lit ''invalid rtc candidate''))"

definition validateRtcCancel :: "RtcCancel \<Rightarrow> unit res" where
  "validateRtcCancel value = throwIf
     (cancel_version value \<noteq> rtcSignalingVersion
      \<or> \<not> rtcValidToken (cancel_rtcSessionId value) 16
      \<or> \<not> validGeneration (cancel_generation value)
      \<or> \<not> validDigest (cancel_descriptionSHA256 value)
      \<or> (cancel_reason value \<noteq> RtcCancelled \<and> cancel_reason value \<noteq> RtcRejected \<and> cancel_reason value \<noteq> RtcGlare))
     (PlainError (lit ''invalid rtc cancel''))"

section \<open>Encoders\<close>

definition boundedEncoding :: "cbor \<Rightarrow> bytes res" where
  "boundedEncoding m =
     andThen (encodeDeterministicCbor m) (\<lambda>bs.
       if length bs > maxRtcSignalingBodyBytes then throw ''rtc signaling body too large'' else Inr bs)"

definition descriptionEntries :: "RtcOffer \<Rightarrow> cborMap res" where
  "descriptionEntries value =
     andThen (decodeToken (rtc_rtcSessionId value) 16 (lit ''rtc session id'')) (\<lambda>rtcSessionId.
     andThen (decodeDigest (rtc_descriptionSHA256 value) (lit ''description hash'')) (\<lambda>descriptionSHA256.
     andThen (decodeDigest (rtc_dtlsFingerprintSHA256 value) (lit ''dtls fingerprint'')) (\<lambda>dtlsFingerprintSHA256.
       Inr [(lit ''version'', CText (rtc_version value)),
            (lit ''rtc_session_id'', CBytes rtcSessionId),
            (lit ''generation'', CNum (rtc_generation value)),
            (lit ''description'', CText (rtc_description value)),
            (lit ''description_sha256'', CBytes descriptionSHA256),
            (lit ''dtls_fingerprint_sha256'', CBytes dtlsFingerprintSHA256)])))"

definition encodeRtcCapabilities :: "RtcCapabilities \<Rightarrow> bytes res" where
  "encodeRtcCapabilities value =
     andThen (validateRtcCapabilities value) (\<lambda>_. boundedEncoding (CMap
       [(lit ''version'', CText (rtccap_version value)),
        (lit ''max_description_bytes'', CNum (rtccap_maxDescriptionBytes value)),
        (lit ''max_candidate_bytes'', CNum (rtccap_maxCandidateBytes value)),
        (lit ''max_candidates_per_direction'', CNum (rtccap_maxCandidatesPerDirection value))]))"

definition encodeRtcOffer :: "(bytes \<Rightarrow> bytes) \<Rightarrow> RtcOffer \<Rightarrow> bytes res" where
  "encodeRtcOffer sha256 value =
     andThen (validateRtcOffer sha256 value) (\<lambda>_.
     andThen (descriptionEntries value) (\<lambda>entries. boundedEncoding (CMap entries)))"

definition encodeRtcAnswer :: "(bytes \<Rightarrow> bytes) \<Rightarrow> RtcAnswer \<Rightarrow> bytes res" where
  "encodeRtcAnswer sha256 value =
     andThen (validateRtcAnswer sha256 value) (\<lambda>_.
     andThen (descriptionEntries (answer_description value)) (\<lambda>entries.
     andThen (decodeDigest (answer_offerDescriptionSHA256 value) (lit ''offer description hash'')) (\<lambda>digest.
       boundedEncoding (CMap (entries @ [(lit ''offer_description_sha256'', CBytes digest)])))))"

definition encodeRtcCandidate :: "RtcCandidate \<Rightarrow> bytes res" where
  "encodeRtcCandidate value =
     andThen (validateRtcCandidate value) (\<lambda>_.
     andThen (decodeToken (cand_rtcSessionId value) 16 (lit ''rtc session id'')) (\<lambda>rtcSessionId.
     andThen (decodeDigest (cand_descriptionSHA256 value) (lit ''description hash'')) (\<lambda>descriptionSHA256.
       boundedEncoding (CMap
         [(lit ''version'', CText (cand_version value)),
          (lit ''rtc_session_id'', CBytes rtcSessionId),
          (lit ''generation'', CNum (cand_generation value)),
          (lit ''direction'', CText (directionText (cand_direction value))),
          (lit ''description_sha256'', CBytes descriptionSHA256),
          (lit ''candidate'', CText (cand_candidate value))]))))"

definition encodeRtcRestart :: "(bytes \<Rightarrow> bytes) \<Rightarrow> RtcRestart \<Rightarrow> bytes res" where
  "encodeRtcRestart sha256 restart =
     andThen (validateRtcRestart sha256 restart) (\<lambda>_.
     let value = restart_description restart in
     andThen (decodeToken (rtc_rtcSessionId value) 16 (lit ''rtc session id'')) (\<lambda>rtcSessionId.
     andThen (decodeDigest (restart_priorDescriptionSHA256 restart) (lit ''prior description hash'')) (\<lambda>prior.
     andThen (decodeDigest (rtc_descriptionSHA256 value) (lit ''description hash'')) (\<lambda>descriptionSHA256.
     andThen (decodeDigest (rtc_dtlsFingerprintSHA256 value) (lit ''dtls fingerprint'')) (\<lambda>dtlsFingerprintSHA256.
       boundedEncoding (CMap
         [(lit ''version'', CText (rtc_version value)),
          (lit ''rtc_session_id'', CBytes rtcSessionId),
          (lit ''generation'', CNum (rtc_generation value)),
          (lit ''prior_description_sha256'', CBytes prior),
          (lit ''description'', CText (rtc_description value)),
          (lit ''description_sha256'', CBytes descriptionSHA256),
          (lit ''dtls_fingerprint_sha256'', CBytes dtlsFingerprintSHA256)]))))))"

definition encodeRtcCancel :: "RtcCancel \<Rightarrow> bytes res" where
  "encodeRtcCancel value =
     andThen (validateRtcCancel value) (\<lambda>_.
     andThen (decodeToken (cancel_rtcSessionId value) 16 (lit ''rtc session id'')) (\<lambda>rtcSessionId.
     andThen (decodeDigest (cancel_descriptionSHA256 value) (lit ''description hash'')) (\<lambda>descriptionSHA256.
       boundedEncoding (CMap
         [(lit ''version'', CText (cancel_version value)),
          (lit ''rtc_session_id'', CBytes rtcSessionId),
          (lit ''generation'', CNum (cancel_generation value)),
          (lit ''description_sha256'', CBytes descriptionSHA256),
          (lit ''reason'', CText (reasonText (cancel_reason value)))]))))"

section \<open>Decoders\<close>

definition rtcStrictMap :: "bytes \<Rightarrow> js_string \<Rightarrow> js_string list \<Rightarrow> cborMap res" where
  "rtcStrictMap bs label keys =
     (if length bs = 0 \<or> length bs > maxRtcSignalingBodyBytes
      then Inl (PlainError (lit ''invalid '' @ label @ lit '' body size''))
      else andThen (decodeDeterministicCbor bs maxRtcSignalingBodyBytes) (\<lambda>v.
           andThen (readCborMap v label) (\<lambda>m.
           andThen (rejectUnknownEntries m keys) (\<lambda>_. Inr m))))"

definition readRtcSignalingVersion :: "cborMap \<Rightarrow> js_string res" where
  "readRtcSignalingVersion m =
     andThen (getRequiredEntry m (lit ''version'')) (\<lambda>v.
     andThen (readText v (lit ''version'')) (\<lambda>version.
       if version \<noteq> rtcSignalingVersion then throw ''unsupported rtc signaling version'' else Inr rtcSignalingVersion))"

definition readGeneration :: "cborMap \<Rightarrow> int res" where
  "readGeneration m =
     andThen (getRequiredEntry m (lit ''generation'')) (\<lambda>v.
     andThen (readUint v (lit ''generation'')) (\<lambda>value.
       if \<not> validGeneration value then throw ''invalid rtc generation'' else Inr value))"

definition readDirection :: "cborMap \<Rightarrow> RtcCandidateDirection res" where
  "readDirection m =
     andThen (getRequiredEntry m (lit ''direction'')) (\<lambda>v.
     andThen (readText v (lit ''direction'')) (\<lambda>value.
       if value = lit ''offerer'' then Inr Offerer
       else if value = lit ''answerer'' then Inr Answerer
       else throw ''invalid rtc candidate direction''))"

definition readCancelReason :: "cborMap \<Rightarrow> RtcCancelReason res" where
  "readCancelReason m =
     andThen (getRequiredEntry m (lit ''reason'')) (\<lambda>v.
     andThen (readText v (lit ''reason'')) (\<lambda>value.
       if value = lit ''cancelled'' then Inr RtcCancelled
       else if value = lit ''rejected'' then Inr RtcRejected
       else if value = lit ''glare'' then Inr RtcGlare
       else throw ''invalid rtc cancel reason''))"

definition tokenFromMap :: "cborMap \<Rightarrow> js_string \<Rightarrow> nat \<Rightarrow> js_string res" where
  "tokenFromMap m key sz =
     andThen (getRequiredEntry m key) (\<lambda>v. andThen (readBytes v key (Some sz)) (\<lambda>bs. Inr (encodeBase64URL bs)))"

definition digestFromMap :: "cborMap \<Rightarrow> js_string \<Rightarrow> js_string res" where
  "digestFromMap m key =
     andThen (getRequiredEntry m key) (\<lambda>v. andThen (readBytes v key (Some 32)) (\<lambda>bs. Inr (encodeBase64URL bs)))"

definition readBoundedUtf8 :: "cborMap \<Rightarrow> js_string \<Rightarrow> nat \<Rightarrow> js_string res" where
  "readBoundedUtf8 m key maximumBytes =
     andThen (getRequiredEntry m key) (\<lambda>v.
     andThen (readText v key) (\<lambda>value.
       if \<not> validBoundedUtf8 value maximumBytes then Inl (PlainError (lit ''invalid '' @ key)) else Inr value))"

definition descriptionFromMap :: "cborMap \<Rightarrow> RtcOffer res" where
  "descriptionFromMap m =
     andThen (readRtcSignalingVersion m) (\<lambda>version.
     andThen (tokenFromMap m (lit ''rtc_session_id'') 16) (\<lambda>rtcSessionId.
     andThen (readGeneration m) (\<lambda>generation.
     andThen (readBoundedUtf8 m (lit ''description'') maxRtcDescriptionBytes) (\<lambda>description.
     andThen (digestFromMap m (lit ''description_sha256'')) (\<lambda>descriptionSHA256.
     andThen (digestFromMap m (lit ''dtls_fingerprint_sha256'')) (\<lambda>dtlsFingerprintSHA256.
       Inr \<lparr>rtc_version = version, rtc_rtcSessionId = rtcSessionId, rtc_generation = generation,
         rtc_description = description, rtc_descriptionSHA256 = descriptionSHA256,
         rtc_dtlsFingerprintSHA256 = dtlsFingerprintSHA256\<rparr>))))))"

definition decodeRtcCapabilities :: "bytes \<Rightarrow> RtcCapabilities res" where
  "decodeRtcCapabilities bs =
     andThen (rtcStrictMap bs (lit ''rtc capabilities'') [lit ''version'', lit ''max_description_bytes'',
       lit ''max_candidate_bytes'', lit ''max_candidates_per_direction'']) (\<lambda>m.
     andThen (readRtcSignalingVersion m) (\<lambda>version.
     andThen (number m (lit ''max_description_bytes'')) (\<lambda>maxDescriptionBytes.
     andThen (number m (lit ''max_candidate_bytes'')) (\<lambda>maxCandidateBytes.
     andThen (number m (lit ''max_candidates_per_direction'')) (\<lambda>maxCandidatesPerDirection.
       let value = \<lparr>rtccap_version = version, rtccap_maxDescriptionBytes = maxDescriptionBytes,
         rtccap_maxCandidateBytes = maxCandidateBytes, rtccap_maxCandidatesPerDirection = maxCandidatesPerDirection\<rparr>
       in andThen (validateRtcCapabilities value) (\<lambda>_. Inr value))))))"

definition decodeRtcOffer :: "(bytes \<Rightarrow> bytes) \<Rightarrow> bytes \<Rightarrow> RtcOffer res" where
  "decodeRtcOffer sha256 bs =
     andThen (rtcStrictMap bs (lit ''rtc offer'') [lit ''version'', lit ''rtc_session_id'', lit ''generation'',
       lit ''description'', lit ''description_sha256'', lit ''dtls_fingerprint_sha256'']) (\<lambda>m.
     andThen (descriptionFromMap m) (\<lambda>value.
     andThen (validateRtcOffer sha256 value) (\<lambda>_. Inr value)))"

definition decodeRtcAnswer :: "(bytes \<Rightarrow> bytes) \<Rightarrow> bytes \<Rightarrow> RtcAnswer res" where
  "decodeRtcAnswer sha256 bs =
     andThen (rtcStrictMap bs (lit ''rtc answer'') [lit ''version'', lit ''rtc_session_id'', lit ''generation'',
       lit ''description'', lit ''description_sha256'', lit ''dtls_fingerprint_sha256'', lit ''offer_description_sha256'']) (\<lambda>m.
     andThen (descriptionFromMap m) (\<lambda>description.
     andThen (digestFromMap m (lit ''offer_description_sha256'')) (\<lambda>digest.
       let value = \<lparr>answer_description = description, answer_offerDescriptionSHA256 = digest\<rparr>
       in andThen (validateRtcAnswer sha256 value) (\<lambda>_. Inr value))))"

definition decodeRtcCandidate :: "bytes \<Rightarrow> RtcCandidate res" where
  "decodeRtcCandidate bs =
     andThen (rtcStrictMap bs (lit ''rtc candidate'') [lit ''version'', lit ''rtc_session_id'', lit ''generation'',
       lit ''direction'', lit ''description_sha256'', lit ''candidate'']) (\<lambda>m.
     andThen (readRtcSignalingVersion m) (\<lambda>version.
     andThen (tokenFromMap m (lit ''rtc_session_id'') 16) (\<lambda>rtcSessionId.
     andThen (readGeneration m) (\<lambda>generation.
     andThen (readDirection m) (\<lambda>direction.
     andThen (digestFromMap m (lit ''description_sha256'')) (\<lambda>descriptionSHA256.
     andThen (readBoundedUtf8 m (lit ''candidate'') maxRtcCandidateBytes) (\<lambda>candidate.
       let value = \<lparr>cand_version = version, cand_rtcSessionId = rtcSessionId, cand_generation = generation,
         cand_direction = direction, cand_descriptionSHA256 = descriptionSHA256, cand_candidate = candidate\<rparr>
       in andThen (validateRtcCandidate value) (\<lambda>_. Inr value))))))))"

definition decodeRtcRestart :: "(bytes \<Rightarrow> bytes) \<Rightarrow> bytes \<Rightarrow> RtcRestart res" where
  "decodeRtcRestart sha256 bs =
     andThen (rtcStrictMap bs (lit ''rtc restart'') [lit ''version'', lit ''rtc_session_id'', lit ''generation'',
       lit ''prior_description_sha256'', lit ''description'', lit ''description_sha256'', lit ''dtls_fingerprint_sha256'']) (\<lambda>m.
     andThen (descriptionFromMap m) (\<lambda>description.
     andThen (digestFromMap m (lit ''prior_description_sha256'')) (\<lambda>digest.
       let value = \<lparr>restart_description = description, restart_priorDescriptionSHA256 = digest\<rparr>
       in andThen (validateRtcRestart sha256 value) (\<lambda>_. Inr value))))"

definition decodeRtcCancel :: "bytes \<Rightarrow> RtcCancel res" where
  "decodeRtcCancel bs =
     andThen (rtcStrictMap bs (lit ''rtc cancel'') [lit ''version'', lit ''rtc_session_id'', lit ''generation'',
       lit ''description_sha256'', lit ''reason'']) (\<lambda>m.
     andThen (readRtcSignalingVersion m) (\<lambda>version.
     andThen (tokenFromMap m (lit ''rtc_session_id'') 16) (\<lambda>rtcSessionId.
     andThen (readGeneration m) (\<lambda>generation.
     andThen (digestFromMap m (lit ''description_sha256'')) (\<lambda>descriptionSHA256.
     andThen (readCancelReason m) (\<lambda>reason.
       let value = \<lparr>cancel_version = version, cancel_rtcSessionId = rtcSessionId, cancel_generation = generation,
         cancel_descriptionSHA256 = descriptionSHA256, cancel_reason = reason\<rparr>
       in andThen (validateRtcCancel value) (\<lambda>_. Inr value)))))))"

section \<open>The codecs meet their contract\<close>

lemma rtc_helpers [simp]: "rtcValidToken = validToken" "tokenFromMap = token" "digestFromMap m key = token m key 32"
  by (intro ext; simp add: rtcValidToken_def validToken_def tokenFromMap_def token_def)+
    (simp add: digestFromMap_def token_def)

lemma validDigest_token [simp]: "validDigest s = validToken s 32"
  by (simp add: validDigest_def)

lemma rtcStrictMap_Inr [res_simps]:
  "rtcStrictMap bs label keys = Inr m \<longleftrightarrow> decodeDeterministicCbor bs 2048 = Inr (CMap m) \<and> fst ` set m \<subseteq> set keys"
  using decode_size [of bs 2048] by (auto simp: rtcStrictMap_def res_simps maxRtcSignalingBodyBytes_def)

lemma readRtcSignalingVersion_Inr [res_simps]:
  "readRtcSignalingVersion m = Inr v \<longleftrightarrow> v = rtcSignalingVersion \<and> map_of m (lit ''version'') = Some (CText v)"
  by (auto simp: readRtcSignalingVersion_def res_simps rtcSignalingVersion_def maxCborTextBytes_def)

lemma validGeneration_iff [simp]: "validGeneration n \<longleftrightarrow> 0 \<le> n \<and> n \<le> 65535"
  by (auto simp: validGeneration_def boundedInteger_def isSafeInteger_def maxSafeInteger_def)

lemma readGeneration_Inr [res_simps]:
  "readGeneration m = Inr n \<longleftrightarrow> map_of m (lit ''generation'') = Some (CNum n) \<and> validGeneration n"
  by (cases "map_of m (lit ''generation'')")
    (auto simp: readGeneration_def getRequiredEntry_def readUint_def invalidEntry_def isSafeInteger_def maxSafeInteger_def
      split: cbor.splits if_splits)

lemma readDirection_Inr [res_simps]:
  "readDirection m = Inr d \<longleftrightarrow> map_of m (lit ''direction'') = Some (CText (directionText d))"
  by (cases "map_of m (lit ''direction'')"; cases d)
    (auto simp: readDirection_def getRequiredEntry_def readText_def invalidEntry_def maxCborTextBytes_def split: cbor.splits if_splits)

lemma readCancelReason_Inr [res_simps]:
  "readCancelReason m = Inr r \<longleftrightarrow> map_of m (lit ''reason'') = Some (CText (reasonText r))"
  by (cases "map_of m (lit ''reason'')"; cases r)
    (auto simp: readCancelReason_def getRequiredEntry_def readText_def invalidEntry_def maxCborTextBytes_def split: cbor.splits if_splits)

lemma validBoundedUtf8_iff: "validBoundedUtf8 s n \<longleftrightarrow> s \<noteq> [] \<and> \<not> hasUnpairedSurrogate s \<and> length (textEncode s) \<le> n"
  by (auto simp: validBoundedUtf8_def)

lemma wellFormed_no_unpaired: "wellFormed s \<Longrightarrow> \<not> hasUnpairedSurrogate s"
  by (induction s rule: hasUnpairedSurrogate.induct) (auto simp: highSurrogate_def lowSurrogate_def split: if_splits)

lemma readBoundedUtf8_Inr [res_simps]:
  "readBoundedUtf8 m key n = Inr s \<longleftrightarrow> map_of m key = Some (CText s) \<and> length (textEncode s) \<le> 1024 \<and> validBoundedUtf8 s n"
  by (cases "map_of m key")
    (auto simp: readBoundedUtf8_def getRequiredEntry_def readText_def invalidEntry_def validBoundedUtf8_iff maxCborTextBytes_def
      split: cbor.splits if_splits)

lemma decodeToken_good [simp]: "goodToken s n \<Longrightarrow> decodeToken s n l = Inr (tokenBytes s)"
  using goodToken_facts [of s n] by (simp add: decodeToken_def)

lemma decodeDigest_good [simp]: "goodToken s 32 \<Longrightarrow> decodeDigest s l = Inr (tokenBytes s)"
  by (simp add: decodeDigest_def)

lemma decodeDigest_Inr [res_simps]: "decodeDigest s l = Inr b \<longleftrightarrow> decodeBase64URL s = Inr b \<and> length b = 32"
  by (auto simp: decodeDigest_def decodeToken_def split: sum.splits)

lemma boundedEncoding_wf:
  "wfCbor v \<Longrightarrow> length (encoded v) \<le> 2048 \<Longrightarrow> boundedEncoding v = encodeDeterministicCbor v"
  unfolding boundedEncoding_def maxRtcSignalingBodyBytes_def by (rule bounded_encoding)

lemma token_good: "token m k n = Inr s \<longleftrightarrow> map_of m k = Some (CBytes (tokenBytes s)) \<and> goodToken s n" if "0 < n" "n \<le> 1024"
  using that goodToken_facts [of s n] by (auto simp: token_Inr maxCborBytes_def)

text \<open>What a decoder adds to a text it has checked itself.\<close>

definition rtcText :: "js_string \<Rightarrow> nat \<Rightarrow> bool" where
  "rtcText s n \<longleftrightarrow> goodText s (min n 1024)"

lemma rtcText_facts: "rtcText s n \<Longrightarrow> validBoundedUtf8 s n \<and> decodableText s \<and> length (textEncode s) \<le> 1024"
  by (auto simp: rtcText_def goodText_def validBoundedUtf8_iff wellFormed_no_unpaired decodableText_def maxCborTextBytes_def)

lemma rtcText_iff: "decodableText s \<Longrightarrow> rtcText s n \<longleftrightarrow> validBoundedUtf8 s n"
  by (auto simp: rtcText_def goodText_def validBoundedUtf8_iff wellFormed_no_unpaired decodableText_def maxCborTextBytes_def)

lemma tokenLengths [simp]:
  "goodToken s 16 \<Longrightarrow> length (tokenBytes s) = 16" "goodToken s 32 \<Longrightarrow> length (tokenBytes s) = 32"
  by (simp_all add: goodToken_facts(3))

subsection \<open>Cancel\<close>

definition coreCancel :: "RtcCancel \<Rightarrow> bool" where
  "coreCancel c \<longleftrightarrow> cancel_version c = rtcSignalingVersion \<and> goodToken (cancel_rtcSessionId c) 16
     \<and> validGeneration (cancel_generation c) \<and> goodToken (cancel_descriptionSHA256 c) 32"

definition cancelEntries :: "RtcCancel \<Rightarrow> cborMap" where
  "cancelEntries c =
     [(lit ''version'', CText (cancel_version c)),
      (lit ''rtc_session_id'', CBytes (tokenBytes (cancel_rtcSessionId c))),
      (lit ''generation'', CNum (cancel_generation c)),
      (lit ''description_sha256'', CBytes (tokenBytes (cancel_descriptionSHA256 c))),
      (lit ''reason'', CText (reasonText (cancel_reason c)))]"

lemma reasonText_facts [simp]: "decodableText (reasonText r)" "length (textEncode (reasonText r)) \<le> 9"
  by (cases r; simp)+

lemma validateRtcCancel_core: "coreCancel c \<Longrightarrow> validateRtcCancel c = Inr ()"
  by (cases "cancel_reason c") (simp_all add: coreCancel_def validateRtcCancel_def goodToken_validToken)

lemma coreCancel_wf: "coreCancel c \<Longrightarrow> wfCbor (CMap (cancelEntries c))"
  by (simp add: coreCancel_def cancelEntries_def rtcSignalingVersion_def maxCborCollectionEntries_def maxSafeInteger_def maxCborBytes_def)

abbreviation cancelNames :: "js_string list" where
  "cancelNames \<equiv> [lit ''version'', lit ''rtc_session_id'', lit ''generation'', lit ''description_sha256'', lit ''reason'']"

interpretation rtc_cancel: field_codec encodeRtcCancel decodeRtcCancel coreCancel cancelEntries cancelNames 2048
proof
  fix c assume c: "coreCancel c" "length (encoded (CMap (cancelEntries c))) \<le> 2048"
  have "encodeRtcCancel c = boundedEncoding (CMap (cancelEntries c))"
    using validateRtcCancel_core [OF c(1)] c(1) by (simp add: encodeRtcCancel_def coreCancel_def cancelEntries_def)
  with boundedEncoding_wf [OF coreCancel_wf [OF c(1)] c(2)]
  show "encodeRtcCancel c = encodeDeterministicCbor (CMap (cancelEntries c))" by simp
next
  fix e c
  have "decodeRtcCancel e = Inr c \<longleftrightarrow> (\<exists>k. decodeDeterministicCbor e 2048 = Inr (CMap k) \<and> fst ` set k \<subseteq> set cancelNames
      \<and> (\<forall>key \<in> set cancelNames. map_of k key = map_of (cancelEntries c) key)) \<and> coreCancel c"
    using validateRtcCancel_core [of c]
    by (cases c) (auto simp: decodeRtcCancel_def andThen_Inr rtcStrictMap_Inr readRtcSignalingVersion_Inr token_good readGeneration_Inr
        readCancelReason_Inr Let_def cancelEntries_def coreCancel_def)
  then show "decodeRtcCancel e = Inr c \<longleftrightarrow> coreCancel c \<and> (\<exists>k. decodeDeterministicCbor e 2048 = Inr (CMap k)
      \<and> fst ` set k \<subseteq> set cancelNames \<and> (\<forall>key \<in> set cancelNames. map_of k key = map_of (cancelEntries c) key))" by blast
qed (simp_all add: coreCancel_wf del: wfCbor.simps, simp_all add: cancelEntries_def)

subsection \<open>Candidates\<close>

definition coreCandidate :: "RtcCandidate \<Rightarrow> bool" where
  "coreCandidate c \<longleftrightarrow> cand_version c = rtcSignalingVersion \<and> goodToken (cand_rtcSessionId c) 16
     \<and> validGeneration (cand_generation c) \<and> goodToken (cand_descriptionSHA256 c) 32 \<and> rtcText (cand_candidate c) 1024"

definition candidateEntries :: "RtcCandidate \<Rightarrow> cborMap" where
  "candidateEntries c =
     [(lit ''version'', CText (cand_version c)),
      (lit ''rtc_session_id'', CBytes (tokenBytes (cand_rtcSessionId c))),
      (lit ''generation'', CNum (cand_generation c)),
      (lit ''direction'', CText (directionText (cand_direction c))),
      (lit ''description_sha256'', CBytes (tokenBytes (cand_descriptionSHA256 c))),
      (lit ''candidate'', CText (cand_candidate c))]"

abbreviation candidateNames :: "js_string list" where
  "candidateNames \<equiv> [lit ''version'', lit ''rtc_session_id'', lit ''generation'', lit ''direction'', lit ''description_sha256'', lit ''candidate'']"

lemma directionText_decodable [simp]: "decodableText (directionText d)"
  by (cases d) simp_all

lemma validateRtcCandidate_core: "coreCandidate c \<Longrightarrow> validateRtcCandidate c = Inr ()"
  using rtcText_facts [of "cand_candidate c" 1024]
  by (cases "cand_direction c") (simp_all add: coreCandidate_def validateRtcCandidate_def goodToken_validToken maxRtcCandidateBytes_def)

lemma coreCandidate_wf: "coreCandidate c \<Longrightarrow> wfCbor (CMap (candidateEntries c))"
  using rtcText_facts [of "cand_candidate c" 1024]
  by (simp add: coreCandidate_def candidateEntries_def rtcSignalingVersion_def maxCborCollectionEntries_def maxSafeInteger_def maxCborBytes_def)

interpretation rtc_candidate: field_codec encodeRtcCandidate decodeRtcCandidate coreCandidate candidateEntries candidateNames 2048
proof
  fix c assume c: "coreCandidate c" "length (encoded (CMap (candidateEntries c))) \<le> 2048"
  have "encodeRtcCandidate c = boundedEncoding (CMap (candidateEntries c))"
    using validateRtcCandidate_core [OF c(1)] c(1) by (simp add: encodeRtcCandidate_def coreCandidate_def candidateEntries_def)
  with boundedEncoding_wf [OF coreCandidate_wf [OF c(1)] c(2)]
  show "encodeRtcCandidate c = encodeDeterministicCbor (CMap (candidateEntries c))" by simp
next
  fix e c
  have bounded: "decodeDeterministicCbor e 2048 = Inr (CMap k) \<Longrightarrow> map_of k (lit ''candidate'') = Some (CText s) \<Longrightarrow>
      (length (textEncode s) \<le> 1024 \<and> validBoundedUtf8 s 1024) \<longleftrightarrow> rtcText s 1024" for k s
    using decoded_entry [of e 2048 k "lit ''candidate''" "CText s"] rtcText_iff [of s 1024] rtcText_facts [of s 1024] by auto
  have "decodeRtcCandidate e = Inr c \<longleftrightarrow> (\<exists>k. decodeDeterministicCbor e 2048 = Inr (CMap k) \<and> fst ` set k \<subseteq> set candidateNames
      \<and> (\<forall>key \<in> set candidateNames. map_of k key = map_of (candidateEntries c) key)) \<and> coreCandidate c"
    using validateRtcCandidate_core [of c] bounded
    by (cases c) (auto simp: decodeRtcCandidate_def andThen_Inr rtcStrictMap_Inr readRtcSignalingVersion_Inr token_good readGeneration_Inr
        readDirection_Inr readBoundedUtf8_Inr Let_def candidateEntries_def coreCandidate_def maxRtcCandidateBytes_def)
  then show "decodeRtcCandidate e = Inr c \<longleftrightarrow> coreCandidate c \<and> (\<exists>k. decodeDeterministicCbor e 2048 = Inr (CMap k)
      \<and> fst ` set k \<subseteq> set candidateNames \<and> (\<forall>key \<in> set candidateNames. map_of k key = map_of (candidateEntries c) key))" by blast
qed (simp_all add: coreCandidate_wf del: wfCbor.simps, simp_all add: candidateEntries_def)

subsection \<open>Capabilities\<close>

definition rtcCapabilityEntries :: "RtcCapabilities \<Rightarrow> cborMap" where
  "rtcCapabilityEntries c =
     [(lit ''version'', CText (rtccap_version c)),
      (lit ''max_description_bytes'', CNum (rtccap_maxDescriptionBytes c)),
      (lit ''max_candidate_bytes'', CNum (rtccap_maxCandidateBytes c)),
      (lit ''max_candidates_per_direction'', CNum (rtccap_maxCandidatesPerDirection c))]"

abbreviation rtcCapabilityNames :: "js_string list" where
  "rtcCapabilityNames \<equiv> [lit ''version'', lit ''max_description_bytes'', lit ''max_candidate_bytes'', lit ''max_candidates_per_direction'']"

lemma validateRtcCapabilities_Inr:
  "validateRtcCapabilities c = Inr () \<longleftrightarrow> rtccap_version c = rtcSignalingVersion
     \<and> 1 \<le> rtccap_maxDescriptionBytes c \<and> rtccap_maxDescriptionBytes c \<le> 1536
     \<and> 1 \<le> rtccap_maxCandidateBytes c \<and> rtccap_maxCandidateBytes c \<le> 1024
     \<and> 1 \<le> rtccap_maxCandidatesPerDirection c \<and> rtccap_maxCandidatesPerDirection c \<le> 32"
  by (auto simp: validateRtcCapabilities_def boundedInteger_def isSafeInteger_def maxSafeInteger_def maxRtcDescriptionBytes_def
      maxRtcCandidateBytes_def maxRtcCandidatesPerDirection_def)

lemma rtcCapabilities_wf: "validateRtcCapabilities c = Inr () \<Longrightarrow> wfCbor (CMap (rtcCapabilityEntries c))"
  by (simp add: validateRtcCapabilities_Inr rtcCapabilityEntries_def rtcSignalingVersion_def maxCborCollectionEntries_def maxSafeInteger_def)

interpretation rtc_capabilities: field_codec encodeRtcCapabilities decodeRtcCapabilities "\<lambda>c. validateRtcCapabilities c = Inr ()"
  rtcCapabilityEntries rtcCapabilityNames 2048
proof
  fix c assume c: "validateRtcCapabilities c = Inr ()" "length (encoded (CMap (rtcCapabilityEntries c))) \<le> 2048"
  have "encodeRtcCapabilities c = boundedEncoding (CMap (rtcCapabilityEntries c))"
    using c(1) by (simp add: encodeRtcCapabilities_def rtcCapabilityEntries_def)
  with boundedEncoding_wf [OF rtcCapabilities_wf [OF c(1)] c(2)]
  show "encodeRtcCapabilities c = encodeDeterministicCbor (CMap (rtcCapabilityEntries c))" by simp
next
  fix e c
  show "decodeRtcCapabilities e = Inr c \<longleftrightarrow> validateRtcCapabilities c = Inr () \<and> (\<exists>k. decodeDeterministicCbor e 2048 = Inr (CMap k)
      \<and> fst ` set k \<subseteq> set rtcCapabilityNames \<and> (\<forall>key \<in> set rtcCapabilityNames. map_of k key = map_of (rtcCapabilityEntries c) key))"
    by (cases c) (auto simp: decodeRtcCapabilities_def andThen_Inr rtcStrictMap_Inr readRtcSignalingVersion_Inr number_Inr Let_def
        rtcCapabilityEntries_def validateRtcCapabilities_Inr goodTime_def maxSafeInteger_def)
qed (simp_all add: rtcCapabilities_wf del: wfCbor.simps, simp_all add: rtcCapabilityEntries_def)

subsection \<open>Descriptions\<close>

text \<open>
  What an offer, an answer and a restart share. A text may have 1024 bytes in CBOR, so the canonical
  descriptions are shorter than the 1536 bytes the validator admits.
\<close>

definition coreDescription :: "(bytes \<Rightarrow> bytes) \<Rightarrow> RtcOffer \<Rightarrow> bool" where
  "coreDescription sha256 d \<longleftrightarrow> rtc_version d = rtcSignalingVersion \<and> goodToken (rtc_rtcSessionId d) 16
     \<and> validGeneration (rtc_generation d) \<and> rtcText (rtc_description d) 1536
     \<and> goodToken (rtc_descriptionSHA256 d) 32 \<and> goodToken (rtc_dtlsFingerprintSHA256 d) 32
     \<and> encodeBase64URL (sha256 (textEncode (rtc_description d))) = rtc_descriptionSHA256 d"

definition rtcDescriptionEntries :: "RtcOffer \<Rightarrow> cborMap" where
  "rtcDescriptionEntries d =
     [(lit ''version'', CText (rtc_version d)),
      (lit ''rtc_session_id'', CBytes (tokenBytes (rtc_rtcSessionId d))),
      (lit ''generation'', CNum (rtc_generation d)),
      (lit ''description'', CText (rtc_description d)),
      (lit ''description_sha256'', CBytes (tokenBytes (rtc_descriptionSHA256 d))),
      (lit ''dtls_fingerprint_sha256'', CBytes (tokenBytes (rtc_dtlsFingerprintSHA256 d)))]"

abbreviation descriptionNames :: "js_string list" where
  "descriptionNames \<equiv> [lit ''version'', lit ''rtc_session_id'', lit ''generation'', lit ''description'', lit ''description_sha256'',
     lit ''dtls_fingerprint_sha256'']"

lemma validateRtcDescription_core: "coreDescription sha256 d \<Longrightarrow> validateRtcDescription sha256 d l = Inr ()"
  using rtcText_facts [of "rtc_description d" 1536]
  by (auto simp: coreDescription_def validateRtcDescription_def rtcDescriptionSHA256_def maxRtcDescriptionBytes_def goodToken_validToken)

lemma descriptionEntries_core: "coreDescription sha256 d \<Longrightarrow> descriptionEntries d = Inr (rtcDescriptionEntries d)"
  by (simp add: coreDescription_def descriptionEntries_def rtcDescriptionEntries_def)

lemma validateRtcDescription_hash:
  "validateRtcDescription sha256 d l = Inr u \<Longrightarrow> rtc_descriptionSHA256 d = encodeBase64URL (sha256 (textEncode (rtc_description d)))"
  by (auto simp: validateRtcDescription_def rtcDescriptionSHA256_def split: if_splits)

lemma descriptionFromMap_iff:
  assumes "decodeDeterministicCbor e n = Inr (CMap k)"
  shows "(descriptionFromMap k = Inr d \<and> validateRtcDescription sha256 d l = Inr ()) \<longleftrightarrow>
    coreDescription sha256 d \<and> (\<forall>key \<in> set descriptionNames. map_of k key = map_of (rtcDescriptionEntries d) key)"
proof -
  have bounded: "map_of k (lit ''description'') = Some (CText s) \<Longrightarrow>
      (length (textEncode s) \<le> 1024 \<and> validBoundedUtf8 s 1536) \<longleftrightarrow> rtcText s 1536" for s
    using decoded_entry [OF assms, of "lit ''description''" "CText s"] rtcText_iff [of s 1536] rtcText_facts [of s 1536] by auto
  show ?thesis
    using validateRtcDescription_core [of sha256 d l] validateRtcDescription_hash [of sha256 d l] bounded
    by (cases d) (auto simp: descriptionFromMap_def andThen_Inr readRtcSignalingVersion_Inr token_good readGeneration_Inr
        readBoundedUtf8_Inr rtcDescriptionEntries_def coreDescription_def maxRtcDescriptionBytes_def)
qed

lemma coreDescription_wf:
  "coreDescription sha256 d \<Longrightarrow> \<forall>(k, v) \<in> set (rtcDescriptionEntries d). decodableText k \<and> wfCbor v"
  using rtcText_facts [of "rtc_description d" 1536]
  by (simp add: coreDescription_def rtcDescriptionEntries_def rtcSignalingVersion_def maxSafeInteger_def maxCborBytes_def)

lemma rtcDescriptionEntries_names [simp]:
  "map fst (rtcDescriptionEntries d) = descriptionNames" "\<forall>v \<in> snd ` set (rtcDescriptionEntries d). scalar v"
  "length (rtcDescriptionEntries d) = 6"
  by (simp_all add: rtcDescriptionEntries_def)

interpretation rtc_offer: field_codec "encodeRtcOffer sha256" "decodeRtcOffer sha256" "coreDescription sha256" rtcDescriptionEntries
  descriptionNames 2048
proof
  fix d
  have wf: "wfCbor (CMap (rtcDescriptionEntries d))" if "coreDescription sha256 d"
    using coreDescription_wf [OF that] by (simp add: maxCborCollectionEntries_def)
  then show "wfCbor (CMap (rtcDescriptionEntries d)) \<and> (\<forall>v \<in> snd ` set (rtcDescriptionEntries d). scalar v)" if "coreDescription sha256 d"
    using that by simp
  show "fst ` set (rtcDescriptionEntries d) \<subseteq> set descriptionNames"
    using rtcDescriptionEntries_names(1) [of d] by (metis set_map order_refl)
  show "encodeRtcOffer sha256 d = encodeDeterministicCbor (CMap (rtcDescriptionEntries d))"
    if "coreDescription sha256 d" "length (encoded (CMap (rtcDescriptionEntries d))) \<le> 2048"
    using boundedEncoding_wf [OF wf [OF that(1)] that(2)] validateRtcDescription_core [OF that(1)] descriptionEntries_core [OF that(1)]
    by (simp add: encodeRtcOffer_def validateRtcOffer_def del: encodeDeterministicCbor.simps)
next
  fix e d
  have "decodeRtcOffer sha256 e = Inr d \<longleftrightarrow> (\<exists>k. decodeDeterministicCbor e 2048 = Inr (CMap k) \<and> fst ` set k \<subseteq> set descriptionNames
      \<and> (descriptionFromMap k = Inr d \<and> validateRtcDescription sha256 d (lit ''offer'') = Inr ()))"
    by (auto simp: decodeRtcOffer_def validateRtcOffer_def andThen_Inr rtcStrictMap_Inr)
  then show "decodeRtcOffer sha256 e = Inr d \<longleftrightarrow> coreDescription sha256 d \<and> (\<exists>k. decodeDeterministicCbor e 2048 = Inr (CMap k)
      \<and> fst ` set k \<subseteq> set descriptionNames \<and> (\<forall>key \<in> set descriptionNames. map_of k key = map_of (rtcDescriptionEntries d) key))"
    using descriptionFromMap_iff [of e 2048] by meson
qed

text \<open>An answer and a restart are a description with one more digest.\<close>

lemma digest_entry:
  "token k key 32 = Inr s \<longleftrightarrow> map_of k key = Some (CBytes (tokenBytes s)) \<and> goodToken s 32"
  by (simp add: token_good)

lemma goodToken_decodeDigest: "goodToken s 32 \<Longrightarrow> andThen (decodeDigest s l) (\<lambda>_. Inr ()) = Inr ()"
  by simp

interpretation rtc_answer: field_codec "encodeRtcAnswer sha256" "decodeRtcAnswer sha256"
  "\<lambda>a. coreDescription sha256 (answer_description a) \<and> goodToken (answer_offerDescriptionSHA256 a) 32"
  "\<lambda>a. rtcDescriptionEntries (answer_description a) @ [(lit ''offer_description_sha256'', CBytes (tokenBytes (answer_offerDescriptionSHA256 a)))]"
  "descriptionNames @ [lit ''offer_description_sha256'']" 2048
proof
  fix a :: RtcAnswer
  let ?core = "coreDescription sha256 (answer_description a) \<and> goodToken (answer_offerDescriptionSHA256 a) 32"
  let ?es = "rtcDescriptionEntries (answer_description a) @ [(lit ''offer_description_sha256'', CBytes (tokenBytes (answer_offerDescriptionSHA256 a)))]"
  have wf: "wfCbor (CMap ?es)" if ?core
    using coreDescription_wf [of sha256 "answer_description a"] that
    by (simp add: maxCborCollectionEntries_def maxCborBytes_def)
  then show "wfCbor (CMap ?es) \<and> (\<forall>v \<in> snd ` set ?es. scalar v)" if ?core
    using that by (simp add: rtcDescriptionEntries_def)
  show "fst ` set ?es \<subseteq> set (descriptionNames @ [lit ''offer_description_sha256''])"
    by (simp add: rtcDescriptionEntries_def)
  show "encodeRtcAnswer sha256 a = encodeDeterministicCbor (CMap ?es)" if "?core" "length (encoded (CMap ?es)) \<le> 2048"
    using boundedEncoding_wf [OF wf [OF that(1)] that(2)] that(1) validateRtcDescription_core [of sha256 "answer_description a"]
      descriptionEntries_core [of sha256 "answer_description a"]
    by (simp add: encodeRtcAnswer_def validateRtcAnswer_def del: encodeDeterministicCbor.simps)
next
  fix e and a :: RtcAnswer
  have eq: "((descriptionFromMap k = Inr (answer_description a) \<and> validateRtcDescription sha256 (answer_description a) (lit ''answer'') = Inr ())
      \<and> token k (lit ''offer_description_sha256'') 32 = Inr (answer_offerDescriptionSHA256 a)) \<longleftrightarrow>
    (coreDescription sha256 (answer_description a) \<and> goodToken (answer_offerDescriptionSHA256 a) 32)
    \<and> (\<forall>key \<in> set (descriptionNames @ [lit ''offer_description_sha256'']). map_of k key = map_of
        (rtcDescriptionEntries (answer_description a) @ [(lit ''offer_description_sha256'', CBytes (tokenBytes (answer_offerDescriptionSHA256 a)))]) key)"
    if "decodeDeterministicCbor e 2048 = Inr (CMap k)" for k
    unfolding descriptionFromMap_iff [OF that] digest_entry by (auto simp: rtcDescriptionEntries_def)
  have "decodeRtcAnswer sha256 e = Inr a \<longleftrightarrow> (\<exists>k. decodeDeterministicCbor e 2048 = Inr (CMap k)
      \<and> fst ` set k \<subseteq> set (descriptionNames @ [lit ''offer_description_sha256''])
      \<and> (descriptionFromMap k = Inr (answer_description a) \<and> validateRtcDescription sha256 (answer_description a) (lit ''answer'') = Inr ())
      \<and> token k (lit ''offer_description_sha256'') 32 = Inr (answer_offerDescriptionSHA256 a))"
    by (cases a) (auto simp: decodeRtcAnswer_def validateRtcAnswer_def andThen_Inr rtcStrictMap_Inr Let_def digest_entry)
  then show "decodeRtcAnswer sha256 e = Inr a \<longleftrightarrow> (coreDescription sha256 (answer_description a) \<and> goodToken (answer_offerDescriptionSHA256 a) 32)
      \<and> (\<exists>k. decodeDeterministicCbor e 2048 = Inr (CMap k) \<and> fst ` set k \<subseteq> set (descriptionNames @ [lit ''offer_description_sha256''])
      \<and> (\<forall>key \<in> set (descriptionNames @ [lit ''offer_description_sha256'']). map_of k key = map_of
        (rtcDescriptionEntries (answer_description a) @ [(lit ''offer_description_sha256'', CBytes (tokenBytes (answer_offerDescriptionSHA256 a)))]) key))"
    using eq by meson
qed

definition restartEntries :: "RtcRestart \<Rightarrow> cborMap" where
  "restartEntries r =
     [(lit ''version'', CText (rtc_version (restart_description r))),
      (lit ''rtc_session_id'', CBytes (tokenBytes (rtc_rtcSessionId (restart_description r)))),
      (lit ''generation'', CNum (rtc_generation (restart_description r))),
      (lit ''prior_description_sha256'', CBytes (tokenBytes (restart_priorDescriptionSHA256 r))),
      (lit ''description'', CText (rtc_description (restart_description r))),
      (lit ''description_sha256'', CBytes (tokenBytes (rtc_descriptionSHA256 (restart_description r)))),
      (lit ''dtls_fingerprint_sha256'', CBytes (tokenBytes (rtc_dtlsFingerprintSHA256 (restart_description r))))]"

abbreviation restartNames :: "js_string list" where
  "restartNames \<equiv> [lit ''version'', lit ''rtc_session_id'', lit ''generation'', lit ''prior_description_sha256'', lit ''description'',
     lit ''description_sha256'', lit ''dtls_fingerprint_sha256'']"

interpretation rtc_restart: field_codec "encodeRtcRestart sha256" "decodeRtcRestart sha256"
  "\<lambda>r. coreDescription sha256 (restart_description r) \<and> goodToken (restart_priorDescriptionSHA256 r) 32"
  restartEntries restartNames 2048
proof
  fix r :: RtcRestart
  let ?core = "coreDescription sha256 (restart_description r) \<and> goodToken (restart_priorDescriptionSHA256 r) 32"
  have wf: "wfCbor (CMap (restartEntries r))" if ?core
    using coreDescription_wf [of sha256 "restart_description r"] that
    by (simp add: maxCborCollectionEntries_def maxCborBytes_def rtcDescriptionEntries_def restartEntries_def)
  then show "wfCbor (CMap (restartEntries r)) \<and> (\<forall>v \<in> snd ` set (restartEntries r). scalar v)" if ?core
    using that by (simp add: restartEntries_def)
  show "fst ` set (restartEntries r) \<subseteq> set restartNames" by (simp add: restartEntries_def)
  show "encodeRtcRestart sha256 r = encodeDeterministicCbor (CMap (restartEntries r))"
    if "?core" "length (encoded (CMap (restartEntries r))) \<le> 2048"
  proof -
    have "encodeRtcRestart sha256 r = boundedEncoding (CMap (restartEntries r))"
      using that(1) validateRtcDescription_core [of sha256 "restart_description r"]
      by (simp add: encodeRtcRestart_def validateRtcRestart_def restartEntries_def coreDescription_def Let_def)
    with boundedEncoding_wf [OF wf [OF that(1)] that(2)] show ?thesis by simp
  qed
next
  fix e and r :: RtcRestart
  have eq: "((descriptionFromMap k = Inr (restart_description r) \<and> validateRtcDescription sha256 (restart_description r) (lit ''restart'') = Inr ())
      \<and> token k (lit ''prior_description_sha256'') 32 = Inr (restart_priorDescriptionSHA256 r)) \<longleftrightarrow>
    (coreDescription sha256 (restart_description r) \<and> goodToken (restart_priorDescriptionSHA256 r) 32)
    \<and> (\<forall>key \<in> set restartNames. map_of k key = map_of (restartEntries r) key)"
    if "decodeDeterministicCbor e 2048 = Inr (CMap k)" for k
    unfolding descriptionFromMap_iff [OF that] digest_entry by (auto simp: rtcDescriptionEntries_def restartEntries_def)
  have "decodeRtcRestart sha256 e = Inr r \<longleftrightarrow> (\<exists>k. decodeDeterministicCbor e 2048 = Inr (CMap k)
      \<and> fst ` set k \<subseteq> set restartNames
      \<and> (descriptionFromMap k = Inr (restart_description r) \<and> validateRtcDescription sha256 (restart_description r) (lit ''restart'') = Inr ())
      \<and> token k (lit ''prior_description_sha256'') 32 = Inr (restart_priorDescriptionSHA256 r))"
    by (cases r) (auto simp: decodeRtcRestart_def validateRtcRestart_def andThen_Inr rtcStrictMap_Inr Let_def digest_entry)
  then show "decodeRtcRestart sha256 e = Inr r \<longleftrightarrow> (coreDescription sha256 (restart_description r) \<and> goodToken (restart_priorDescriptionSHA256 r) 32)
      \<and> (\<exists>k. decodeDeterministicCbor e 2048 = Inr (CMap k) \<and> fst ` set k \<subseteq> set restartNames
      \<and> (\<forall>key \<in> set restartNames. map_of k key = map_of (restartEntries r) key))"
    using eq by meson
qed

section \<open>Properties\<close>


text \<open>
  A decoded offer, answer or restart carries the SHA-256 of its own description, so a peer's signed
  control cannot pair a description with another's digest.
\<close>

theorem rtc_description_bound:
  assumes "decodeRtcOffer sha256 e = Inr d \<or> decodeRtcAnswer sha256 e = Inr a \<and> d = answer_description a
    \<or> decodeRtcRestart sha256 e = Inr r \<and> d = restart_description r"
  shows "rtc_descriptionSHA256 d = encodeBase64URL (sha256 (textEncode (rtc_description d)))
    \<and> rtc_version d = rtcSignalingVersion \<and> 0 \<le> rtc_generation d \<and> rtc_generation d \<le> 65535
    \<and> wellFormed (rtc_description d) \<and> length (textEncode (rtc_description d)) \<le> 1024"
proof -
  have "coreDescription sha256 d"
    using assms rtc_offer.decode_fields [of sha256 e d] rtc_answer.decode_fields [of sha256 e a] rtc_restart.decode_fields [of sha256 e r]
    by (elim disjE conjE) simp_all
  then show ?thesis by (auto simp: coreDescription_def rtcText_def goodText_def)
qed

definition sampleOffer :: RtcOffer where
  "sampleOffer = \<lparr>rtc_version = rtcSignalingVersion, rtc_rtcSessionId = encodeBase64URL (replicate 16 1), rtc_generation = 0,
     rtc_description = lit ''v=0'', rtc_descriptionSHA256 = encodeBase64URL (replicate 32 2),
     rtc_dtlsFingerprintSHA256 = encodeBase64URL (replicate 32 3)\<rparr>"

lemma coreDescription_sample: "coreDescription (\<lambda>_. replicate 32 2) sampleOffer"
  by (simp add: coreDescription_def sampleOffer_def rtcText_def goodText_lit)

theorem rtc_description_bound_witness:
  "\<exists>e. decodeRtcOffer (\<lambda>_. replicate 32 2) e = Inr sampleOffer
    \<and> rtc_descriptionSHA256 sampleOffer = encodeBase64URL (replicate 32 2)"
proof -
  have "length (encoded (CMap (rtcDescriptionEntries sampleOffer))) \<le> 2048"
  proof (rule length_encoded_bound)
    show "wfCbor (CMap (rtcDescriptionEntries sampleOffer))" using rtc_offer.core_wf coreDescription_sample by blast
    show "cborBound (CMap (rtcDescriptionEntries sampleOffer)) \<le> 2048"
      by (simp add: rtcDescriptionEntries_def sampleOffer_def rtcSignalingVersion_def)
  qed
  then obtain e where "decodeRtcOffer (\<lambda>_. replicate 32 2) e = Inr sampleOffer"
    using rtc_offer.decode_encode coreDescription_sample by blast
  with rtc_description_bound [of "\<lambda>_. replicate 32 2" e sampleOffer] show ?thesis by auto
qed

lemma trailing_surrogate:
  "wellFormed s \<Longrightarrow> \<not> hasUnpairedSurrogate (s @ [0xD800])" "\<not> wellFormed (s @ [0xD800])"
proof -
  show "wellFormed s \<Longrightarrow> \<not> hasUnpairedSurrogate (s @ [0xD800])"
    by (induction s rule: wellFormed.induct) (auto simp: highSurrogate_def lowSurrogate_def split: if_splits)
  show "\<not> wellFormed (s @ [0xD800])"
    by (induction s rule: wellFormed.induct) (auto simp: highSurrogate_def lowSurrogate_def split: if_splits)
qed

text \<open>
  The check for unpaired surrogates misses a high surrogate at the end of a text: a candidate that ends
  in one passes the validator of the sender, yet no bytes decode to it.
\<close>

theorem rtc_trailing_surrogate:
  assumes "validateRtcCandidate c = Inr ()" "wellFormed s" "length (textEncode (s @ [0xD800])) \<le> 1024"
  shows "validateRtcCandidate (c\<lparr>cand_candidate := s @ [0xD800]\<rparr>) = Inr ()
    \<and> (\<forall>e. decodeRtcCandidate e \<noteq> Inr (c\<lparr>cand_candidate := s @ [0xD800]\<rparr>))"
proof (intro conjI allI notI)
  show "validateRtcCandidate (c\<lparr>cand_candidate := s @ [0xD800]\<rparr>) = Inr ()"
    using assms(1,3) trailing_surrogate(1) [OF assms(2)]
    by (simp add: validateRtcCandidate_def validBoundedUtf8_iff maxRtcCandidateBytes_def)
next
  fix e assume "decodeRtcCandidate e = Inr (c\<lparr>cand_candidate := s @ [0xD800]\<rparr>)"
  then have "rtcText (s @ [0xD800]) 1024" using rtc_candidate.decode_fields by (auto simp: coreCandidate_def)
  then show False using trailing_surrogate(2) [of s] by (simp add: rtcText_def goodText_def)
qed

definition sampleCandidate :: RtcCandidate where
  "sampleCandidate = \<lparr>cand_version = rtcSignalingVersion, cand_rtcSessionId = encodeBase64URL (replicate 16 1), cand_generation = 0,
     cand_direction = Offerer, cand_descriptionSHA256 = encodeBase64URL (replicate 32 2), cand_candidate = lit ''a''\<rparr>"

theorem rtc_trailing_surrogate_witness:
  "validateRtcCandidate (sampleCandidate\<lparr>cand_candidate := [0xD800]\<rparr>) = Inr ()
    \<and> (\<forall>e. decodeRtcCandidate e \<noteq> Inr (sampleCandidate\<lparr>cand_candidate := [0xD800]\<rparr>))"
proof -
  have "coreCandidate sampleCandidate" by (simp add: coreCandidate_def sampleCandidate_def rtcText_def goodText_lit)
  moreover have "length (textEncode [0xD800]) \<le> 1024" by (simp add: textEncode_def unitScalar_def highSurrogate_def utf8Scalar_def)
  ultimately show ?thesis
    using rtc_trailing_surrogate [OF validateRtcCandidate_core, of sampleCandidate "[]"] by simp
qed

end
