(* ===== verification/PeerControls.thy ===== *)
theory PeerControls
  imports ControlAdapters WebRtc Image
begin

text \<open>
  The adapters that exchange capabilities and signalling with a peer:
  \<^verbatim>\<open>application-capabilities-control.ts\<close>, the class \<^verbatim>\<open>ImageCapabilitiesController\<close> of
  \<^verbatim>\<open>image-capabilities-control.ts\<close> and the class \<^verbatim>\<open>RTCSignalingControlRuntime\<close> of
  \<^verbatim>\<open>rtc-signaling-control.ts\<close> (all under \<^verbatim>\<open>pwa/src/connectivity\<close>). Arguments stand for the
  clock, the identifier generator, Ed25519 and the local key, as in \<^verbatim>\<open>ControlAdapters\<close>. A call is one
  step; what runs between its \<^verbatim>\<open>await\<close>s is not interleaved.
\<close>

section \<open>Application capabilities\<close>

definition applicationCapabilitiesControlTTLms :: int where "applicationCapabilitiesControlTTLms = 5 * 60000"
definition capabilityRenewIntervalMs :: int where "capabilityRenewIntervalMs = 30000"
definition maxCapabilityCacheEntries :: nat where "maxCapabilityCacheEntries = 64"
definition maxCapabilityReplayEntries :: nat where "maxCapabilityReplayEntries = 128"

record CapabilityControlState =
  cc_receivedCapabilities :: "(js_string, ApplicationCapabilities \<times> int) js_map"
  cc_replayControlIds :: "(js_string, int) js_map"
  cc_lastSentAtByPeerId :: "(js_string, int) js_map"

definition applicationCapabilitiesControlDescriptor :: "ApplicationCapabilities ApplicationControlDescriptor" where
  "applicationCapabilitiesControlDescriptor =
     \<lparr>desc_kind = applicationCapabilitiesControlKind, desc_authentication = AuthEd25519,
      desc_maximumTTLms = applicationCapabilitiesControlTTLms,
      desc_projection = ProjectEphemeral, desc_allowedEffects = [EphemeralProjectionKind],
      desc_decodeBody = decodeApplicationCapabilities, desc_encodeBody = encodeApplicationCapabilities,
      desc_reduce = (\<lambda>envelope body. andThen (encodeApplicationCapabilities body) (\<lambda>v.
        Inr [EphemeralProjection (lit ''application_capabilities'') v (control_expiresAt envelope)]))\<rparr>"

definition capabilityRegistry :: "ApplicationCapabilities controlRegistry" where
  "capabilityRegistry = projr (createApplicationControlRegistry [applicationCapabilitiesControlDescriptor])"

definition localApplicationCapabilities :: ApplicationCapabilities where
  "localApplicationCapabilities =
     \<lparr>cap_applicationVersions = [lit ''branch.application-payload/0.draft''],
      cap_kinds = [lit ''branch.attachment.chunk/0.draft'', lit ''branch.attachment.decision/0.draft'',
        lit ''branch.attachment.manifest/0.draft'', lit ''branch.chat.text/0.draft''],
      ApplicationCapabilities.cap_maxInlineBytes = 3000, cap_attachmentMode = ModeReceiverAccept,
      cap_maxRelayAttachmentBytes = 4 * 1024 * 1024, cap_maxDirectAttachmentBytes = 0\<rparr>"

definition trimOldest :: "(js_string, 'v) js_map \<Rightarrow> nat \<Rightarrow> (js_string, 'v) js_map" where
  "trimOldest m maximum = (if length m \<ge> maximum then (case m of [] \<Rightarrow> m | (oldest, _) # _ \<Rightarrow> mapDelete m oldest) else m)"

definition pruneCapabilityState :: "int \<Rightarrow> CapabilityControlState \<Rightarrow> CapabilityControlState" where
  "pruneCapabilityState now s =
     s\<lparr>cc_receivedCapabilities := filter (\<lambda>(peerId, entry). \<not> snd entry \<le> now) (cc_receivedCapabilities s),
       cc_replayControlIds := evictOldest maxCapabilityReplayEntries (dropExpired (cc_replayControlIds s) now),
       cc_lastSentAtByPeerId := filter (\<lambda>(peerId, sentAt). \<not> now - sentAt \<ge> capabilityRenewIntervalMs) (cc_lastSentAtByPeerId s)\<rparr>"

definition peerSupportsChatText :: "js_string \<Rightarrow> int \<Rightarrow> CapabilityControlState \<Rightarrow> bool \<times> CapabilityControlState" where
  "peerSupportsChatText peerId now s0 =
     (let s = pruneCapabilityState now s0 in
      (case mapGet (cc_receivedCapabilities s) peerId of
         None \<Rightarrow> False
       | Some (v, expiresAt) \<Rightarrow> expiresAt > now
           \<and> lit ''branch.application-payload/0.draft'' \<in> set (cap_applicationVersions v)
           \<and> lit ''branch.chat.text/0.draft'' \<in> set (cap_kinds v), s))"

definition peerApplicationCapabilities :: "js_string \<Rightarrow> int \<Rightarrow> CapabilityControlState \<Rightarrow> ApplicationCapabilities option \<times> CapabilityControlState" where
  "peerApplicationCapabilities peerId now s0 =
     (let s = pruneCapabilityState now s0 in
      (case mapGet (cc_receivedCapabilities s) peerId of
         None \<Rightarrow> None
       | Some (v, expiresAt) \<Rightarrow> if expiresAt \<le> now then None else Some v, s))"

definition consumeCapabilityRate :: "js_string \<Rightarrow> int \<Rightarrow> CapabilityControlState \<Rightarrow> bool \<times> CapabilityControlState" where
  "consumeCapabilityRate peerId now s0 =
     (let s = pruneCapabilityState now s0;
          last = (case mapGet (cc_lastSentAtByPeerId s) peerId of None \<Rightarrow> 0 | Some t \<Rightarrow> t)
      in if now - last < capabilityRenewIntervalMs then (False, s)
         else (True, s\<lparr>cc_lastSentAtByPeerId := mapSet (trimOldest (cc_lastSentAtByPeerId s) maxCapabilityCacheEntries) peerId now\<rparr>))"

definition rememberPeerCapabilities :: "js_string \<Rightarrow> ApplicationCapabilities \<Rightarrow> int \<Rightarrow> CapabilityControlState \<Rightarrow> CapabilityControlState" where
  "rememberPeerCapabilities peerId v expiresAt s =
     s\<lparr>cc_receivedCapabilities := mapSet (trimOldest (cc_receivedCapabilities s) maxCapabilityCacheEntries) peerId (v, expiresAt)\<rparr>"

text \<open>The clock is read twice: for the rate limit and for the envelope.\<close>

definition sendApplicationCapabilities ::
  "(bytes \<Rightarrow> bytes) option \<Rightarrow> js_string \<Rightarrow> int \<Rightarrow> int \<Rightarrow> js_string \<Rightarrow> js_string \<Rightarrow> bool \<Rightarrow> CapabilityControlState
     \<Rightarrow> controlSend res \<times> CapabilityControlState" where
  "sendApplicationCapabilities keys controlId rateNow now senderPeerId recipientPeerId attached s =
     (if \<not> attached then (Inr Skipped, s)
      else
        let (allowed, s') = consumeCapabilityRate recipientPeerId rateNow s in
        if \<not> allowed then (Inr Skipped, s')
        else case keys of
            None \<Rightarrow> (Inr Skipped, s')
          | Some sign \<Rightarrow>
              (andThen (prepareOutboundApplicationControl
                 \<lparr>out_kind = applicationCapabilitiesControlKind, out_controlId = controlId, out_issuedAt = now,
                  out_expiresAt = now + applicationCapabilitiesControlTTLms, out_senderPeerId = senderPeerId,
                  out_recipientPeerId = recipientPeerId, out_body = localApplicationCapabilities\<rparr>
                 applicationCapabilitiesControlDescriptor (senderPorts now senderPeerId recipientPeerId True)) (\<lambda>u.
               andThen (signControl sign u) (\<lambda>payload. Inr (Sent payload))), s'))"

datatype ApplicationCapabilitiesOutcome =
  CapabilitiesAccepted ApplicationCapabilities int | CapabilitiesRejected ApplicationControlRejection

definition namedProjection :: "js_string \<Rightarrow> ApplicationControlEffect list \<Rightarrow> (bytes \<times> int) option" where
  "namedProjection name effects =
     (case find (\<lambda>effect. case effect of EphemeralProjection projection _ _ \<Rightarrow> projection = name | _ \<Rightarrow> False) effects of
        Some (EphemeralProjection projection v expiresAt) \<Rightarrow> Some (v, expiresAt)
      | _ \<Rightarrow> None)"

definition receiveApplicationCapabilities ::
  "(bytes \<Rightarrow> bytes \<Rightarrow> bytes \<Rightarrow> bool option) \<Rightarrow> int \<Rightarrow> bytes \<Rightarrow> js_string \<Rightarrow> js_string \<Rightarrow> js_string option
     \<Rightarrow> CapabilityControlState \<Rightarrow> ApplicationCapabilitiesOutcome option res \<times> CapabilityControlState" where
  "receiveApplicationCapabilities ed25519Verify now plaintext localPeerId senderPeerId knownContactId s0 =
     (case decodeApplicationControl plaintext of
        Inl _ \<Rightarrow> (Inr None, s0)
      | Inr envelope \<Rightarrow>
          if control_kind envelope \<noteq> applicationCapabilitiesControlKind then (Inr None, s0)
          else
            let s = pruneCapabilityState now s0 in
            case processApplicationControl plaintext capabilityRegistry
                   (receiverPorts ed25519Verify now localPeerId senderPeerId knownContactId (cc_replayControlIds s)) of
              Inl e \<Rightarrow> (Inl e, s)
            | Inr (result, remembered) \<Rightarrow>
                let s' = s\<lparr>cc_replayControlIds := rememberControl remembered (cc_replayControlIds s)\<rparr> in
                case result of
                  ControlRejected reason \<Rightarrow> (Inr (Some (CapabilitiesRejected reason)), s')
                | ControlAccepted effects \<Rightarrow>
                    case namedProjection (lit ''application_capabilities'') effects of
                      None \<Rightarrow> (Inr (Some (CapabilitiesRejected EffectForbidden)), s')
                    | Some (v, expiresAt) \<Rightarrow>
                        case decodeApplicationCapabilities v of
                          Inl e \<Rightarrow> (Inl e, s')
                        | Inr capabilities \<Rightarrow>
                            (Inr (Some (CapabilitiesAccepted capabilities expiresAt)),
                             rememberPeerCapabilities senderPeerId capabilities expiresAt s'))"

section \<open>Image capabilities\<close>

definition imageCapabilitiesControlTTLms :: int where "imageCapabilitiesControlTTLms = 5 * 60000"
definition capabilityReplyCooldownMs :: int where "capabilityReplyCooldownMs = 1000"
definition maximumPeers :: nat where "maximumPeers = 64"
definition maximumReplayControls :: nat where "maximumReplayControls = 128"

record ImageCapabilitiesController =
  icc_received :: "(js_string, ImageCapabilities \<times> int) js_map"
  icc_advertised :: "(js_string, ImageCapabilities \<times> int) js_map"
  icc_seenControls :: "(js_string, int) js_map"
  icc_lastReplyAt :: "(js_string, int) js_map"

definition imageCapabilitiesControlDescriptor :: "ImageCapabilities ApplicationControlDescriptor" where
  "imageCapabilitiesControlDescriptor =
     \<lparr>desc_kind = imageCapabilitiesControlKind, desc_authentication = AuthEd25519,
      desc_maximumTTLms = imageCapabilitiesControlTTLms,
      desc_projection = ProjectEphemeral, desc_allowedEffects = [EphemeralProjectionKind],
      desc_decodeBody = decodeImageCapabilities, desc_encodeBody = encodeImageCapabilities,
      desc_reduce = (\<lambda>envelope body. andThen (encodeImageCapabilities body) (\<lambda>v.
        Inr [EphemeralProjection (lit ''image_capabilities'') v (control_expiresAt envelope)]))\<rparr>"

definition imageCapabilityRegistry :: "ImageCapabilities controlRegistry" where
  "imageCapabilityRegistry = projr (createApplicationControlRegistry [imageCapabilitiesControlDescriptor])"

definition newImageCapabilitiesController :: ImageCapabilitiesController where
  "newImageCapabilitiesController = \<lparr>icc_received = [], icc_advertised = [], icc_seenControls = [], icc_lastReplyAt = []\<rparr>"

text \<open>\<^verbatim>\<open>#trim\<close>: \<^verbatim>\<open>while (map.size >= maximumPeers)\<close>, the oldest is deleted.\<close>

definition trimPeers :: "(js_string, 'v) js_map \<Rightarrow> (js_string, 'v) js_map" where
  "trimPeers m = evictOldest (maximumPeers - 1) m"

definition rememberPeer :: "(js_string, 'v) js_map \<Rightarrow> js_string \<Rightarrow> 'v \<Rightarrow> (js_string, 'v) js_map" where
  "rememberPeer m peerId v = mapSet (trimPeers m) peerId v"

definition pruneImageCapabilities :: "int \<Rightarrow> ImageCapabilitiesController \<Rightarrow> ImageCapabilitiesController" where
  "pruneImageCapabilities now s =
     s\<lparr>icc_received := filter (\<lambda>(peerId, entry). \<not> snd entry \<le> now) (icc_received s),
       icc_advertised := filter (\<lambda>(peerId, entry). \<not> snd entry \<le> now) (icc_advertised s),
       icc_seenControls := evictOldest maximumReplayControls (dropExpired (icc_seenControls s) now),
       icc_lastReplyAt := filter (\<lambda>(peerId, repliedAt). \<not> now - repliedAt \<ge> capabilityReplyCooldownMs) (icc_lastReplyAt s)\<rparr>"

text \<open>
  \<open>localCapabilities\<close>, \<open>signingKey\<close> and \<open>isKnownPeer\<close> are the ports; \<open>transmit\<close> is
  \<^verbatim>\<open>ports.send\<close>. Every error between preparing and sending is answered as skipped.
\<close>

definition advertiseImages ::
  "ImageCapabilities option \<Rightarrow> js_string \<Rightarrow> (bytes \<Rightarrow> bytes) option \<Rightarrow> (js_string \<Rightarrow> bool) \<Rightarrow> (bytes \<Rightarrow> unit res) \<Rightarrow> js_string \<Rightarrow> int \<Rightarrow> js_string
     \<Rightarrow> ImageCapabilitiesController \<Rightarrow> controlSend \<times> ImageCapabilitiesController" where
  "advertiseImages localCapabilities localPeerId signingKey isKnownPeer transmit controlId now peerId s0 =
     (let s = pruneImageCapabilities now s0 in
      case (localCapabilities, signingKey) of
        (Some capabilities, Some sign) \<Rightarrow>
          if localPeerId = [] \<or> \<not> isKnownPeer peerId then (Skipped, s)
          else
            let expiresAt = now + imageCapabilitiesControlTTLms;
                ports = \<lparr>oports_now = now, oports_localPeerId = localPeerId,
                  oports_isKnownContact = (\<lambda>candidate. candidate = peerId \<and> isKnownPeer candidate),
                  oports_isAllowed = (\<lambda>_ _. True), oports_consumeRateLimit = (\<lambda>_ _ _. True), oports_maxClockSkewMs = 1000\<rparr>
            in case andThen (prepareOutboundApplicationControl
                     \<lparr>out_kind = imageCapabilitiesControlKind, out_controlId = controlId, out_issuedAt = now,
                      out_expiresAt = expiresAt, out_senderPeerId = localPeerId, out_recipientPeerId = peerId,
                      out_body = capabilities\<rparr> imageCapabilitiesControlDescriptor ports) (\<lambda>u.
                   andThen (signControl sign u) (\<lambda>payload. andThen (transmit payload) (\<lambda>_. Inr payload))) of
                 Inl _ \<Rightarrow> (Skipped, s)
               | Inr payload \<Rightarrow> (Sent payload, s\<lparr>icc_advertised := rememberPeer (icc_advertised s) peerId (capabilities, expiresAt)\<rparr>)
      | _ \<Rightarrow> (Skipped, s))"

datatype ImageCapabilitiesOutcome =
  ImageCapabilitiesAccepted ImageCapabilities int | ImageCapabilitiesRejected ApplicationControlRejection

text \<open>\<open>verifyPeer\<close> is \<^verbatim>\<open>#verify\<close>: the known peer's key, if there is one, verifies the signature.\<close>

definition receiveImageCapabilities ::
  "(js_string \<Rightarrow> bytes \<Rightarrow> bytes \<Rightarrow> bool) \<Rightarrow> js_string \<Rightarrow> (js_string \<Rightarrow> bool) \<Rightarrow> int \<Rightarrow> js_string \<Rightarrow> bytes
     \<Rightarrow> ImageCapabilitiesController \<Rightarrow> ImageCapabilitiesOutcome option res \<times> ImageCapabilitiesController" where
  "receiveImageCapabilities verifyPeer localPeerId isKnownPeer now peerId plaintext s0 =
     (case decodeApplicationControl plaintext of
        Inl _ \<Rightarrow> (Inr None, s0)
      | Inr envelope \<Rightarrow>
          if control_kind envelope \<noteq> imageCapabilitiesControlKind then (Inr None, s0)
          else
            let s = pruneImageCapabilities now s0;
                ports = \<lparr>ports_now = now, ports_localPeerId = localPeerId,
                  ports_isKnownContact = (\<lambda>candidate. candidate = peerId \<and> isKnownPeer candidate),
                  ports_verifyEd25519 = (\<lambda>candidate input signature. Inr (verifyPeer candidate input signature)),
                  ports_hasSeenControl = (\<lambda>controlId. mapHas (icc_seenControls s) controlId),
                  ports_isAllowed = (\<lambda>_ _. True), ports_maxClockSkewMs = 1000\<rparr>
            in case processApplicationControl plaintext imageCapabilityRegistry ports of
                 Inl e \<Rightarrow> (Inl e, s)
               | Inr (result, remembered) \<Rightarrow>
                   let s' = (case remembered of None \<Rightarrow> s
                         | Some (controlId, expiresAt) \<Rightarrow> s\<lparr>icc_seenControls := rememberPeer (icc_seenControls s) controlId expiresAt\<rparr>) in
                   case result of
                     ControlRejected reason \<Rightarrow> (Inr (Some (ImageCapabilitiesRejected reason)), s')
                   | ControlAccepted effects \<Rightarrow>
                       case namedProjection (lit ''image_capabilities'') effects of
                         None \<Rightarrow> (Inr (Some (ImageCapabilitiesRejected EffectForbidden)), s')
                       | Some (v, expiresAt) \<Rightarrow>
                           case decodeImageCapabilities v of
                             Inl _ \<Rightarrow> (Inr (Some (ImageCapabilitiesRejected BodyInvalid)), s')
                           | Inr capabilities \<Rightarrow>
                               (Inr (Some (ImageCapabilitiesAccepted capabilities expiresAt)),
                                s'\<lparr>icc_received := rememberPeer (icc_received s') peerId (capabilities, expiresAt)\<rparr>))"

definition peerImageCapabilities :: "int \<Rightarrow> js_string \<Rightarrow> ImageCapabilitiesController \<Rightarrow> ImageCapabilities option \<times> ImageCapabilitiesController" where
  "peerImageCapabilities now peerId s0 =
     (let s = pruneImageCapabilities now s0 in (map_option fst (mapGet (icc_received s) peerId), s))"

definition inboundImageCapabilities :: "int \<Rightarrow> js_string \<Rightarrow> ImageCapabilitiesController \<Rightarrow> ImageCapabilities option \<times> ImageCapabilitiesController" where
  "inboundImageCapabilities now peerId s0 =
     (let s = pruneImageCapabilities now s0 in (map_option fst (mapGet (icc_advertised s) peerId), s))"

definition hasAdvertised :: "int \<Rightarrow> js_string \<Rightarrow> ImageCapabilitiesController \<Rightarrow> bool \<times> ImageCapabilitiesController" where
  "hasAdvertised now peerId s0 = (let s = pruneImageCapabilities now s0 in (mapHas (icc_advertised s) peerId, s))"

definition shouldReplyTo :: "(js_string \<Rightarrow> bool) \<Rightarrow> int \<Rightarrow> js_string \<Rightarrow> ImageCapabilitiesController \<Rightarrow> bool \<times> ImageCapabilitiesController" where
  "shouldReplyTo isKnownPeer now peerId s0 =
     (let s = pruneImageCapabilities now s0 in
      if \<not> isKnownPeer peerId then (False, s)
      else if (case mapGet (icc_lastReplyAt s) peerId of None \<Rightarrow> False | Some previous \<Rightarrow> now - previous < capabilityReplyCooldownMs)
      then (False, s)
      else (True, s\<lparr>icc_lastReplyAt := rememberPeer (icc_lastReplyAt s) peerId now\<rparr>))"

definition clearImageCapabilities :: "ImageCapabilitiesController \<Rightarrow> ImageCapabilitiesController" where
  "clearImageCapabilities s = newImageCapabilitiesController"

definition defaultImageCapabilities :: ImageCapabilities where
  "defaultImageCapabilities =
     \<lparr>cap_version = imageMessageVersion, cap_maxInlineBytes = 2800, cap_maxRelayBytes = maxImageRelayBytes,
      cap_maxDirectBytes = maxImageDirectBytes, cap_maxWidth = maxImageWidth, cap_maxHeight = maxImageHeight,
      cap_maxPixels = maxImagePixels\<rparr>"

section \<open>Signalling\<close>

definition maxRtcReplayEntries :: nat where "maxRtcReplayEntries = 128"
definition maxOutboundEntries :: nat where "maxOutboundEntries = 64"
definition maxOutboundSignalsPerPeer :: int where "maxOutboundSignalsPerPeer = 40"

datatype RTCSignalingControlOutcome =
    RtcRecipientMismatch | RtcUnknownContact | RtcExpired | RtcFutureIssued | RtcTtlExceeded | RtcReplay
  | RtcSignatureInvalid | RtcBodyInvalid

datatype RtcSignalingBody =
    RtcBodyCapabilities RtcCapabilities
  | RtcBodyOffer RtcOffer
  | RtcBodyAnswer RtcAnswer
  | RtcBodyCandidate RtcCandidate
  | RtcBodyRestart RtcRestart
  | RtcBodyCancel RtcCancel

datatype ReceivedRTCSignalingControl =
  RtcNotHandled | RtcRefused RTCSignalingControlOutcome | RtcAccepted js_string RtcSignalingBody int

record RTCSignalingControlRuntime =
  rtcr_seen :: "(js_string, int) js_map"
  rtcr_outbound :: "(js_string, int \<times> int) js_map"

definition isRTCSignalingKind :: "js_string \<Rightarrow> bool" where
  "isRTCSignalingKind v \<longleftrightarrow> v = rtcCapabilitiesControlKind \<or> v = rtcOfferControlKind \<or> v = rtcAnswerControlKind
     \<or> v = rtcCandidateControlKind \<or> v = rtcRestartControlKind \<or> v = rtcCancelControlKind"

definition maximumTTL :: "js_string \<Rightarrow> int" where
  "maximumTTL kind = (if kind = rtcCapabilitiesControlKind then rtcCapabilitiesControlTTLms else rtcSignalingControlTTLms)"

text \<open>The switch is over the six kinds; the last one is what remains.\<close>

definition decodeRtcBody :: "(bytes \<Rightarrow> bytes) \<Rightarrow> js_string \<Rightarrow> bytes \<Rightarrow> RtcSignalingBody res" where
  "decodeRtcBody sha256 kind bs =
     (if kind = rtcCapabilitiesControlKind then andThen (decodeRtcCapabilities bs) (\<lambda>b. Inr (RtcBodyCapabilities b))
      else if kind = rtcOfferControlKind then andThen (decodeRtcOffer sha256 bs) (\<lambda>b. Inr (RtcBodyOffer b))
      else if kind = rtcAnswerControlKind then andThen (decodeRtcAnswer sha256 bs) (\<lambda>b. Inr (RtcBodyAnswer b))
      else if kind = rtcCandidateControlKind then andThen (decodeRtcCandidate bs) (\<lambda>b. Inr (RtcBodyCandidate b))
      else if kind = rtcRestartControlKind then andThen (decodeRtcRestart sha256 bs) (\<lambda>b. Inr (RtcBodyRestart b))
      else andThen (decodeRtcCancel bs) (\<lambda>b. Inr (RtcBodyCancel b)))"

text \<open>A body is sent under its own kind; the casts of the source assume no other pairing.\<close>

fun rtcBodyKind :: "RtcSignalingBody \<Rightarrow> js_string" where
  "rtcBodyKind (RtcBodyCapabilities b) = rtcCapabilitiesControlKind"
| "rtcBodyKind (RtcBodyOffer b) = rtcOfferControlKind"
| "rtcBodyKind (RtcBodyAnswer b) = rtcAnswerControlKind"
| "rtcBodyKind (RtcBodyCandidate b) = rtcCandidateControlKind"
| "rtcBodyKind (RtcBodyRestart b) = rtcRestartControlKind"
| "rtcBodyKind (RtcBodyCancel b) = rtcCancelControlKind"

fun encodeRtcBody :: "(bytes \<Rightarrow> bytes) \<Rightarrow> RtcSignalingBody \<Rightarrow> bytes res" where
  "encodeRtcBody sha256 (RtcBodyCapabilities b) = encodeRtcCapabilities b"
| "encodeRtcBody sha256 (RtcBodyOffer b) = encodeRtcOffer sha256 b"
| "encodeRtcBody sha256 (RtcBodyAnswer b) = encodeRtcAnswer sha256 b"
| "encodeRtcBody sha256 (RtcBodyCandidate b) = encodeRtcCandidate b"
| "encodeRtcBody sha256 (RtcBodyRestart b) = encodeRtcRestart sha256 b"
| "encodeRtcBody sha256 (RtcBodyCancel b) = encodeRtcCancel b"

definition rememberRtc :: "(js_string, 'v) js_map \<Rightarrow> js_string \<Rightarrow> 'v \<Rightarrow> nat \<Rightarrow> (js_string, 'v) js_map" where
  "rememberRtc m key v maximum = mapSet (if mapHas m key then m else evictOldest (maximum - 1) m) key v"

definition pruneRtc :: "int \<Rightarrow> RTCSignalingControlRuntime \<Rightarrow> RTCSignalingControlRuntime" where
  "pruneRtc now s = s\<lparr>rtcr_seen := dropExpired (rtcr_seen s) now,
     rtcr_outbound := filter (\<lambda>(peerId, entry). \<not> fst entry \<le> now) (rtcr_outbound s)\<rparr>"

definition consumeOutbound :: "js_string \<Rightarrow> int \<Rightarrow> int \<Rightarrow> RTCSignalingControlRuntime \<Rightarrow> RTCSignalingControlRuntime res" where
  "consumeOutbound peerId expiresAt now s =
     (case mapGet (rtcr_outbound s) peerId of
        None \<Rightarrow> Inr (s\<lparr>rtcr_outbound := rememberRtc (rtcr_outbound s) peerId (expiresAt, 1) maxOutboundEntries\<rparr>)
      | Some (currentExpiresAt, count) \<Rightarrow>
          if currentExpiresAt > now \<and> count \<ge> maxOutboundSignalsPerPeer then throw ''rtc signaling outbound limit reached''
          else if currentExpiresAt \<le> now
          then Inr (s\<lparr>rtcr_outbound := rememberRtc (rtcr_outbound s) peerId (expiresAt, 1) maxOutboundEntries\<rparr>)
          else Inr (s\<lparr>rtcr_outbound := mapSet (rtcr_outbound s) peerId (currentExpiresAt, count + 1)\<rparr>))"

definition receiveRtc ::
  "(bytes \<Rightarrow> bytes) \<Rightarrow> (bytes \<Rightarrow> bytes \<Rightarrow> bytes \<Rightarrow> bool option) \<Rightarrow> int \<Rightarrow> bytes \<Rightarrow> js_string \<Rightarrow> js_string \<Rightarrow> js_string option
     \<Rightarrow> RTCSignalingControlRuntime \<Rightarrow> ReceivedRTCSignalingControl res \<times> RTCSignalingControlRuntime" where
  "receiveRtc sha256 ed25519Verify now plaintext localPeerId senderPeerId knownContactId s0 =
     (case decodeApplicationControl plaintext of
        Inl _ \<Rightarrow> (Inr RtcNotHandled, s0)
      | Inr envelope \<Rightarrow>
          if \<not> isRTCSignalingKind (control_kind envelope) then (Inr RtcNotHandled, s0)
          else
            let s = pruneRtc now s0 in
            if control_recipientPeerId envelope \<noteq> localPeerId then (Inr (RtcRefused RtcRecipientMismatch), s)
            else if control_senderPeerId envelope \<noteq> senderPeerId \<or> knownContactId = None then (Inr (RtcRefused RtcUnknownContact), s)
            else if control_expiresAt envelope \<le> now then (Inr (RtcRefused RtcExpired), s)
            else if control_issuedAt envelope > now + 1000 then (Inr (RtcRefused RtcFutureIssued), s)
            else if control_expiresAt envelope - control_issuedAt envelope > maximumTTL (control_kind envelope)
            then (Inr (RtcRefused RtcTtlExceeded), s)
            else if mapHas (rtcr_seen s) (control_controlId envelope) then (Inr (RtcRefused RtcReplay), s)
            else case applicationControlSigningBytes envelope of
                Inl e \<Rightarrow> (Inl e, s)
              | Inr input \<Rightarrow>
                  if \<not> verifyControlSignature ed25519Verify (control_senderPeerId envelope) input (control_signature envelope)
                  then (Inr (RtcRefused RtcSignatureInvalid), s)
                  else case decodeRtcBody sha256 (control_kind envelope) (control_body envelope) of
                      Inl _ \<Rightarrow> (Inr (RtcRefused RtcBodyInvalid), s)
                    | Inr body \<Rightarrow>
                        (Inr (RtcAccepted (control_kind envelope) body (control_expiresAt envelope)),
                         s\<lparr>rtcr_seen := rememberRtc (rtcr_seen s) (control_controlId envelope) (control_expiresAt envelope) maxRtcReplayEntries\<rparr>))"

definition sendRtc ::
  "(bytes \<Rightarrow> bytes) \<Rightarrow> (bytes \<Rightarrow> bytes) option \<Rightarrow> js_string \<Rightarrow> int \<Rightarrow> js_string \<Rightarrow> js_string \<Rightarrow> RtcSignalingBody
     \<Rightarrow> RTCSignalingControlRuntime \<Rightarrow> bytes res \<times> RTCSignalingControlRuntime" where
  "sendRtc sha256 keys controlId now senderPeerId recipientPeerId body s0 =
     (case keys of
        None \<Rightarrow> (throw ''local identity is unavailable'', s0)
      | Some sign \<Rightarrow>
          let s = pruneRtc now s0;
              kind = rtcBodyKind body;
              expiresAt = now + maximumTTL kind
          in case encodeRtcBody sha256 body of
               Inl e \<Rightarrow> (Inl e, s)
             | Inr bs \<Rightarrow>
                 case consumeOutbound recipientPeerId expiresAt now s of
                   Inl e \<Rightarrow> (Inl e, s)
                 | Inr s' \<Rightarrow>
                     (signControl sign \<lparr>control_version = lit ''branch.application-control/0.draft'', control_kind = kind,
                        control_controlId = controlId, control_issuedAt = now, control_expiresAt = expiresAt,
                        control_senderPeerId = senderPeerId, control_recipientPeerId = recipientPeerId, control_body = bs,
                        control_signature = []\<rparr>, s'))"

definition resetRtc :: "RTCSignalingControlRuntime \<Rightarrow> RTCSignalingControlRuntime" where
  "resetRtc s = \<lparr>rtcr_seen = [], rtcr_outbound = []\<rparr>"

section \<open>The memories are bounded\<close>

lemma wfMap_keep [simp]: "wfMap m \<Longrightarrow> wfMap (filter P m)"
  by (induction m) (auto simp: mapHas_def)

lemma length_mapSet_room: "wfMap m \<Longrightarrow> length m < n \<Longrightarrow> length (mapSet m k v) \<le> n"
  by (auto simp: length_mapSet)

definition boundedMap :: "nat \<Rightarrow> ('k, 'v) js_map \<Rightarrow> bool" where
  "boundedMap n m \<longleftrightarrow> wfMap m \<and> length m \<le> n"

lemma boundedMap_filter [simp]: "boundedMap n m \<Longrightarrow> boundedMap n (filter P m)"
  by (auto simp: boundedMap_def intro: le_trans [OF length_filter_le])

lemma boundedMap_Nil [simp]: "boundedMap n []"
  by (simp add: boundedMap_def)

lemma boundedMap_evict: "wfMap m \<Longrightarrow> boundedMap n (evictOldest n m)"
  by (simp add: boundedMap_def length_evictOldest)

lemma boundedMap_wf: "boundedMap n m \<Longrightarrow> wfMap m"
  by (simp add: boundedMap_def)

lemma boundedMap_dropExpired [simp]: "boundedMap n m \<Longrightarrow> boundedMap n (dropExpired m now)"
  by (auto simp: boundedMap_def intro: le_trans [OF length_dropExpired])

lemma boundedMap_trimOldest: "boundedMap n m \<Longrightarrow> 0 < n \<Longrightarrow> boundedMap n (mapSet (trimOldest m n) k v)"
proof (cases m)
  case (Cons e m')
  assume "boundedMap n m" "0 < n"
  with Cons show ?thesis by (cases e) (auto simp: boundedMap_def trimOldest_def length_mapSet)
qed (auto simp: boundedMap_def trimOldest_def)

lemma boundedMap_rememberPeer: "boundedMap 64 m \<Longrightarrow> boundedMap 64 (rememberPeer m k v)"
  using length_evictOldest [of m 63] by (auto simp: boundedMap_def rememberPeer_def trimPeers_def maximumPeers_def length_mapSet)

lemma boundedMap_rememberRtc:
  assumes "boundedMap n m" "0 < n"
  shows "boundedMap n (rememberRtc m k v n)"
  using assms length_evictOldest [of m "n - 1"] by (auto simp: boundedMap_def rememberRtc_def length_mapSet)

lemma boundedMap_remember:
  assumes "boundedMap n m"
  shows "boundedMap (Suc n) (rememberControl r m)"
  using assms by (auto simp: boundedMap_def rememberControl_def length_mapSet split: option.splits)

definition capabilityInv :: "CapabilityControlState \<Rightarrow> bool" where
  "capabilityInv s \<longleftrightarrow> boundedMap 64 (cc_receivedCapabilities s) \<and> boundedMap 129 (cc_replayControlIds s) \<and> boundedMap 64 (cc_lastSentAtByPeerId s)"

datatype capabilityOp =
    SendCapabilities "(bytes \<Rightarrow> bytes) option" js_string int int js_string js_string bool
  | ReceiveCapabilities int bytes js_string js_string "js_string option"
  | QueryCapabilities js_string int

fun runCapability :: "(bytes \<Rightarrow> bytes \<Rightarrow> bytes \<Rightarrow> bool option) \<Rightarrow> capabilityOp \<Rightarrow> CapabilityControlState \<Rightarrow> CapabilityControlState" where
  "runCapability ed (SendCapabilities keys i t0 t sender recipient attached) s = snd (sendApplicationCapabilities keys i t0 t sender recipient attached s)"
| "runCapability ed (ReceiveCapabilities t p lp sp kc) s = snd (receiveApplicationCapabilities ed t p lp sp kc s)"
| "runCapability ed (QueryCapabilities p t) s = snd (peerApplicationCapabilities p t s)"

lemma capabilityInv_prune:
  assumes "capabilityInv s"
  shows "capabilityInv (pruneCapabilityState now s)" "boundedMap 128 (cc_replayControlIds (pruneCapabilityState now s))"
  using assms boundedMap_evict [of "dropExpired (cc_replayControlIds s) now" 128]
  by (auto simp: capabilityInv_def pruneCapabilityState_def maxCapabilityReplayEntries_def boundedMap_def
      intro: le_trans [OF length_filter_le])

lemma capabilityInv_rate: "capabilityInv s \<Longrightarrow> capabilityInv (snd (consumeCapabilityRate p now s))"
  using capabilityInv_prune(1) [of s now] boundedMap_trimOldest [of 64]
  by (auto simp: consumeCapabilityRate_def capabilityInv_def maxCapabilityCacheEntries_def Let_def)

lemma capabilityInv_receive:
  assumes "capabilityInv s"
  shows "capabilityInv (snd (receiveApplicationCapabilities ed now p lp sp kc s))"
proof -
  define t where "t = pruneCapabilityState now s"
  have t: "capabilityInv t" "boundedMap 128 (cc_replayControlIds t)" unfolding t_def by (rule capabilityInv_prune [OF assms])+
  have r: "capabilityInv (t\<lparr>cc_replayControlIds := rememberControl r (cc_replayControlIds t)\<rparr>)" for r
    using t boundedMap_remember [OF t(2)] by (simp add: capabilityInv_def)
  have m: "capabilityInv (rememberPeerCapabilities k v e u)" if "capabilityInv u" for k v e u
    using that by (simp add: capabilityInv_def rememberPeerCapabilities_def maxCapabilityCacheEntries_def boundedMap_trimOldest)
  show ?thesis
    using assms t(1) r m unfolding receiveApplicationCapabilities_def t_def [symmetric]
    by (auto simp: Let_def split: sum.splits option.splits ApplicationControlResult.splits)
qed

interpretation capability_controls: invariant_machine "runCapability ed" capabilityInv for ed
proof
  fix s op assume s: "capabilityInv s"
  show "capabilityInv (runCapability ed op s)"
  proof (cases op)
    case (SendCapabilities keys i t0 t sender recipient attached)
    then show ?thesis using s capabilityInv_rate [OF s, of recipient t0]
      by (auto simp: sendApplicationCapabilities_def split: prod.splits option.splits)
  qed (use s capabilityInv_receive capabilityInv_prune(1) in \<open>simp_all add: peerApplicationCapabilities_def Let_def\<close>)
qed

definition imageCapabilityInv :: "ImageCapabilitiesController \<Rightarrow> bool" where
  "imageCapabilityInv s \<longleftrightarrow> boundedMap 64 (icc_received s) \<and> boundedMap 64 (icc_advertised s) \<and> boundedMap 64 (icc_seenControls s)
     \<and> boundedMap 64 (icc_lastReplyAt s)"

datatype imageCapabilityOp =
    AdvertiseImages "ImageCapabilities option" js_string "(bytes \<Rightarrow> bytes) option" "bytes \<Rightarrow> unit res" js_string int js_string
  | ReceiveImageCapabilities js_string int js_string bytes
  | ShouldReplyTo int js_string
  | QueryImageCapabilities int js_string
  | ClearImageCapabilities

fun runImageCapability ::
  "(js_string \<Rightarrow> bytes \<Rightarrow> bytes \<Rightarrow> bool) \<Rightarrow> (js_string \<Rightarrow> bool) \<Rightarrow> imageCapabilityOp \<Rightarrow> ImageCapabilitiesController \<Rightarrow> ImageCapabilitiesController" where
  "runImageCapability v known (AdvertiseImages c lp key transmit i t p) s = snd (advertiseImages c lp key known transmit i t p s)"
| "runImageCapability v known (ReceiveImageCapabilities lp t p bs) s = snd (receiveImageCapabilities v lp known t p bs s)"
| "runImageCapability v known (ShouldReplyTo t p) s = snd (shouldReplyTo known t p s)"
| "runImageCapability v known (QueryImageCapabilities t p) s = snd (peerImageCapabilities t p s)"
| "runImageCapability v known ClearImageCapabilities s = clearImageCapabilities s"

lemma imageCapabilityInv_prune: "imageCapabilityInv s \<Longrightarrow> imageCapabilityInv (pruneImageCapabilities now s)"
  using length_evictOldest [of "dropExpired (icc_seenControls s) now" 128] length_dropExpired [of "icc_seenControls s" now]
  by (auto simp: imageCapabilityInv_def pruneImageCapabilities_def maximumReplayControls_def boundedMap_def evictOldest_id
      intro: le_trans [OF length_filter_le])

lemma imageCapabilityInv_receive:
  assumes "imageCapabilityInv s"
  shows "imageCapabilityInv (snd (receiveImageCapabilities v lp known now p bs s))"
proof -
  define t where "t = pruneImageCapabilities now s"
  have t: "imageCapabilityInv t" unfolding t_def by (rule imageCapabilityInv_prune [OF assms])
  have r: "imageCapabilityInv (t\<lparr>icc_seenControls := rememberPeer (icc_seenControls t) i e\<rparr>)" for i e
    using t by (simp add: imageCapabilityInv_def boundedMap_rememberPeer)
  have m: "imageCapabilityInv (u\<lparr>icc_received := rememberPeer (icc_received u) k x\<rparr>)" if "imageCapabilityInv u" for u k x
    using that by (simp add: imageCapabilityInv_def boundedMap_rememberPeer)
  have rm: "imageCapabilityInv (t\<lparr>icc_seenControls := rememberPeer (icc_seenControls t) i e, icc_received := rememberPeer (icc_received t) k x\<rparr>)" for i e k x
    using m [OF r [of i e], of k x] by simp
  show ?thesis
    using assms t r m rm unfolding receiveImageCapabilities_def t_def [symmetric]
    by (auto simp: Let_def split: sum.splits option.splits ApplicationControlResult.splits)
qed

interpretation image_capability_controls: invariant_machine "runImageCapability v known" imageCapabilityInv for v known
proof
  fix s op assume s: "imageCapabilityInv s"
  note pr = imageCapabilityInv_prune [OF s]
  show "imageCapabilityInv (runImageCapability v known op s)"
  proof (cases op)
    case (AdvertiseImages c lp key transmit i t p)
    have "imageCapabilityInv (u\<lparr>icc_advertised := rememberPeer (icc_advertised u) k x\<rparr>)" if "imageCapabilityInv u" for u k x
      using that by (simp add: imageCapabilityInv_def boundedMap_rememberPeer)
    then show ?thesis using pr AdvertiseImages
      by (auto simp: advertiseImages_def Let_def split: option.splits sum.splits)
  next
    case (ShouldReplyTo t p)
    have "imageCapabilityInv (u\<lparr>icc_lastReplyAt := rememberPeer (icc_lastReplyAt u) k x\<rparr>)" if "imageCapabilityInv u" for u k x
      using that by (simp add: imageCapabilityInv_def boundedMap_rememberPeer)
    then show ?thesis using pr ShouldReplyTo by (auto simp: shouldReplyTo_def Let_def)
  qed (use s pr imageCapabilityInv_receive in \<open>simp_all add: peerImageCapabilities_def Let_def clearImageCapabilities_def
      newImageCapabilitiesController_def imageCapabilityInv_def\<close>)
qed

definition rtcControlInv :: "RTCSignalingControlRuntime \<Rightarrow> bool" where
  "rtcControlInv s \<longleftrightarrow> boundedMap 128 (rtcr_seen s) \<and> boundedMap 64 (rtcr_outbound s)
     \<and> (\<forall>(p, entry) \<in> set (rtcr_outbound s). 1 \<le> snd entry \<and> snd entry \<le> maxOutboundSignalsPerPeer)"

datatype rtcControlOp =
    ReceiveRtc int bytes js_string js_string "js_string option"
  | SendRtc "(bytes \<Rightarrow> bytes) option" js_string int js_string js_string RtcSignalingBody
  | ResetRtc

fun runRtcControl :: "(bytes \<Rightarrow> bytes) \<Rightarrow> (bytes \<Rightarrow> bytes \<Rightarrow> bytes \<Rightarrow> bool option) \<Rightarrow> rtcControlOp \<Rightarrow> RTCSignalingControlRuntime \<Rightarrow> RTCSignalingControlRuntime" where
  "runRtcControl sha256 ed (ReceiveRtc t p lp sp kc) s = snd (receiveRtc sha256 ed t p lp sp kc s)"
| "runRtcControl sha256 ed (SendRtc keys i t sender recipient b) s = snd (sendRtc sha256 keys i t sender recipient b s)"
| "runRtcControl sha256 ed ResetRtc s = resetRtc s"

lemma rtcControlInv_prune: "rtcControlInv s \<Longrightarrow> rtcControlInv (pruneRtc now s)"
  by (auto simp: rtcControlInv_def pruneRtc_def)

lemma set_evictOldest: "wfMap m \<Longrightarrow> set (evictOldest n m) \<subseteq> set m"
  by (auto simp: evictOldest_drop dest: in_set_dropD)

lemma set_rememberRtc: "wfMap m \<Longrightarrow> set (rememberRtc m k v n) \<subseteq> insert (k, v) (set m)"
  using set_evictOldest [of m "n - 1"] by (auto simp: rememberRtc_def set_mapSet)

lemma rtcControlInv_consume:
  assumes "rtcControlInv s" "consumeOutbound p e now s = Inr s'"
  shows "rtcControlInv s'"
proof -
  have o: "boundedMap 64 (rtcr_outbound s)" "wfMap (rtcr_outbound s)"
    "\<forall>(p, entry) \<in> set (rtcr_outbound s). 1 \<le> snd entry \<and> snd entry \<le> maxOutboundSignalsPerPeer"
    using assms(1) by (auto simp: rtcControlInv_def boundedMap_def)
  have new: "rtcControlInv (s\<lparr>rtcr_outbound := rememberRtc (rtcr_outbound s) p (e, 1) maxOutboundEntries\<rparr>)"
    using assms(1) o(3) set_rememberRtc [OF o(2), of p "(e, 1)" 64]
    by (fastforce simp: rtcControlInv_def maxOutboundEntries_def maxOutboundSignalsPerPeer_def boundedMap_rememberRtc)
  show ?thesis
  proof (cases "mapGet (rtcr_outbound s) p")
    case None
    then show ?thesis using assms(2) new by (simp add: consumeOutbound_def)
  next
    case (Some entry)
    obtain x n where entry: "entry = (x, n)" by (cases entry)
    have "mapHas (rtcr_outbound s) p" "(p, x, n) \<in> set (rtcr_outbound s)" using Some entry o(2) by (auto simp: mapHas_mapGet mapGet_mem)
    then have "rtcControlInv (s\<lparr>rtcr_outbound := mapSet (rtcr_outbound s) p (x, n + 1)\<rparr>)" if "\<not> maxOutboundSignalsPerPeer \<le> n"
      using assms(1) o that by (auto simp: rtcControlInv_def boundedMap_def length_mapSet set_mapSet)
    then show ?thesis using assms(2) new Some entry by (auto simp: consumeOutbound_def split: if_splits)
  qed
qed

interpretation rtc_controls: invariant_machine "runRtcControl sha256 ed" rtcControlInv for sha256 ed
proof
  fix s op assume s: "rtcControlInv s"
  note pr = rtcControlInv_prune [OF s]
  show "rtcControlInv (runRtcControl sha256 ed op s)"
  proof (cases op)
    case (ReceiveRtc t p lp sp kc)
    have "rtcControlInv (u\<lparr>rtcr_seen := rememberRtc (rtcr_seen u) i e maxRtcReplayEntries\<rparr>)" if "rtcControlInv u" for u i e
      using that by (simp add: rtcControlInv_def maxRtcReplayEntries_def boundedMap_rememberRtc)
    then show ?thesis using s pr ReceiveRtc by (auto simp: receiveRtc_def Let_def split: sum.splits)
  next
    case (SendRtc keys i t sender recipient b)
    then show ?thesis using s pr by (auto simp: sendRtc_def Let_def split: option.splits sum.splits intro: rtcControlInv_consume [OF pr])
  qed (simp add: resetRtc_def rtcControlInv_def)
qed

section \<open>Acceptance\<close>

lemma receiveRtc_accepts:
  assumes "decodeApplicationControl p = Inr e" "isRTCSignalingKind (control_kind e)" "now < control_expiresAt e"
    and "control_issuedAt e \<le> now + 1000" "control_expiresAt e - control_issuedAt e \<le> maximumTTL (control_kind e)"
    and "\<not> mapHas (rtcr_seen (pruneRtc now s)) (control_controlId e)" "applicationControlSigningBytes e = Inr input"
    and "verifyControlSignature ed (control_senderPeerId e) input (control_signature e)"
    and "decodeRtcBody sha256 (control_kind e) (control_body e) = Inr body"
  shows "\<exists>s'. receiveRtc sha256 ed now p (control_recipientPeerId e) (control_senderPeerId e) (Some c) s
    = (Inr (RtcAccepted (control_kind e) body (control_expiresAt e)), s')"
  using assms by (simp add: receiveRtc_def Let_def)

lemma signingBytes_good:
  assumes "goodControl e"
  shows "\<exists>input. applicationControlSigningBytes e = Inr input"
  using encode_wf_Inr [OF controlEntries_wf(2) [OF assms]] unfolding controlSigningBytes_eq [OF assms]
  by (cases "encodeDeterministicCbor (CMap (controlEntries e))") (auto simp del: encodeDeterministicCbor.simps)

definition sampleCancel :: RtcCancel where
  "sampleCancel = \<lparr>cancel_version = rtcSignalingVersion, cancel_rtcSessionId = encodeBase64URL (replicate 16 5), cancel_generation = 1,
     cancel_descriptionSHA256 = encodeBase64URL (replicate 32 6), cancel_reason = RtcCancelled\<rparr>"

lemma sample_rtc_acceptance:
  obtains p s where "receiveRtc (\<lambda>_. []) (\<lambda>_ _ _. Some True) 1000 p (encodeBase64URL (replicate 32 4)) (encodeBase64URL (replicate 32 3))
    (Some (lit ''c1'')) \<lparr>rtcr_seen = [], rtcr_outbound = []\<rparr> = (Inr (RtcAccepted rtcCancelControlKind (RtcBodyCancel sampleCancel) 2000), s)"
proof -
  have core: "coreCancel sampleCancel" by (simp add: coreCancel_def sampleCancel_def validGeneration_def boundedInteger_def isSafeInteger_def maxSafeInteger_def)
  have "cborBound (CMap (cancelEntries sampleCancel)) \<le> 2048"
    by (simp add: cancelEntries_def sampleCancel_def rtcSignalingVersion_def)
  then obtain bs where bs: "encodeRtcCancel sampleCancel = Inr bs" "decodeRtcCancel bs = Inr sampleCancel"
    using rtc_cancel.decode_encode core length_encoded_bound [OF coreCancel_wf [OF core]] by blast
  then have size: "bs \<noteq> []" "length bs \<le> 2048"
    using rtc_cancel.decode_fields [of bs sampleCancel] decode_size [of bs 2048] by auto
  define e where "e = \<lparr>control_version = applicationControlWireVersion, control_kind = rtcCancelControlKind,
    control_controlId = encodeBase64URL (replicate 16 2), control_issuedAt = 1000, control_expiresAt = 2000,
    control_senderPeerId = encodeBase64URL (replicate 32 3), control_recipientPeerId = encodeBase64URL (replicate 32 4),
    control_body = bs, control_signature = replicate 64 7\<rparr>"
  have "goodText rtcCancelControlKind 96" by (simp add: rtcCancelControlKind_def goodText_lit)
  then have good: "goodControl e"
    using size goodToken_validToken by (auto simp: goodControl_def e_def validateEnvelope_Inr goodTime_def maxSafeInteger_def goodText_def rtcCancelControlKind_def)
  obtain p where p: "decodeApplicationControl p = Inr e" using application_control.decode_encode [OF good] by blast
  obtain input where i: "applicationControlSigningBytes e = Inr input" using signingBytes_good [OF good] by blast
  have "decodeRtcBody (\<lambda>_. []) rtcCancelControlKind bs = Inr (RtcBodyCancel sampleCancel)"
    using bs(2) by (simp add: decodeRtcBody_def rtcCancelControlKind_def rtcCapabilitiesControlKind_def rtcOfferControlKind_def
        rtcAnswerControlKind_def rtcCandidateControlKind_def rtcRestartControlKind_def)
  moreover have "decodeBase64URL (encodeBase64URL (replicate 32 3)) = Inr (replicate 32 3)" by (simp add: decode_encodeBase64URL)
  ultimately have "\<exists>s. receiveRtc (\<lambda>_. []) (\<lambda>_ _ _. Some True) 1000 p (control_recipientPeerId e) (control_senderPeerId e) (Some (lit ''c1''))
      \<lparr>rtcr_seen = [], rtcr_outbound = []\<rparr> = (Inr (RtcAccepted (control_kind e) (RtcBodyCancel sampleCancel) (control_expiresAt e)), s)"
    by (intro receiveRtc_accepts [OF p _ _ _ _ _ i]) (simp_all add: e_def isRTCSignalingKind_def maximumTTL_def rtcSignalingControlTTLms_def
        rtcCapabilitiesControlTTLms_def pruneRtc_def dropExpired_filter verifyControlSignature_def)
  then show ?thesis using that by (auto simp: e_def)
qed

section \<open>Properties\<close>


text \<open>
  C40. The signalling runtime hands out typed bodies only: what it accepts is a body of the envelope's
  own kind, signed by the known peer it came from, addressed here, alive, within its kind's lifetime, not
  seen before and remembered from now on; an accepted description matches its digest.
\<close>

theorem rtc_control_typed:
  assumes "receiveRtc sha256 ed now p localPeer sender known s = (Inr (RtcAccepted kind body expiresAt), s')"
  shows "\<exists>e input. decodeApplicationControl p = Inr e \<and> control_kind e = kind \<and> rtcBodyKind body = kind
    \<and> encodeRtcBody sha256 body = Inr (control_body e)
    \<and> control_recipientPeerId e = localPeer \<and> control_senderPeerId e = sender \<and> known \<noteq> None \<and> now < expiresAt
    \<and> expiresAt = control_expiresAt e \<and> control_issuedAt e \<le> now + 1000 \<and> expiresAt - control_issuedAt e \<le> maximumTTL kind
    \<and> applicationControlSigningBytes e = Inr input \<and> verifyControlSignature ed sender input (control_signature e)
    \<and> \<not> mapHas (rtcr_seen (pruneRtc now s)) (control_controlId e) \<and> mapHas (rtcr_seen s') (control_controlId e)"
proof -
  obtain e where e: "decodeApplicationControl p = Inr e"
    using assms by (cases "decodeApplicationControl p") (auto simp: receiveRtc_def)
  obtain input where i: "applicationControlSigningBytes e = Inr input"
    using assms e by (cases "applicationControlSigningBytes e") (auto simp: receiveRtc_def Let_def split: if_splits)
  have d: "decodeRtcBody sha256 (control_kind e) (control_body e) = Inr body" "isRTCSignalingKind (control_kind e)" "control_kind e = kind"
    using assms e i by (auto simp: receiveRtc_def Let_def split: if_splits sum.splits)
  have "rtcBodyKind body = kind \<and> encodeRtcBody sha256 body = Inr (control_body e)"
    using d rtc_capabilities.encode_decode rtc_offer.encode_decode rtc_answer.encode_decode rtc_candidate.encode_decode
      rtc_restart.encode_decode rtc_cancel.encode_decode
    by (auto simp: decodeRtcBody_def isRTCSignalingKind_def res_simps split: if_splits)
  with assms e i d show ?thesis
    by (auto simp: receiveRtc_def Let_def rememberRtc_def split: if_splits sum.splits)
qed

theorem rtc_control_typed_witness:
  "\<exists>p e. decodeApplicationControl p = Inr e \<and> control_kind e = rtcCancelControlKind
    \<and> encodeRtcCancel sampleCancel = Inr (control_body e) \<and> control_senderPeerId e = encodeBase64URL (replicate 32 3)"
proof -
  obtain p s where "receiveRtc (\<lambda>_. []) (\<lambda>_ _ _. Some True) 1000 p (encodeBase64URL (replicate 32 4)) (encodeBase64URL (replicate 32 3))
      (Some (lit ''c1'')) \<lparr>rtcr_seen = [], rtcr_outbound = []\<rparr> = (Inr (RtcAccepted rtcCancelControlKind (RtcBodyCancel sampleCancel) 2000), s)"
    by (rule sample_rtc_acceptance)
  from rtc_control_typed [OF this] show ?thesis by auto
qed

end
