(* ===== verification/Json.thy ===== *)
theory Json
  imports Complex_Main Utf8 JsMap "HOL-Library.Log_Nat"
begin

text \<open>
  \<^verbatim>\<open>JSON.parse\<close> and \<^verbatim>\<open>JSON.stringify\<close>, as ECMAScript defines them, for the relay frames and draft
  envelopes, which travel as JSON text.

  A \<open>json\<close> is a value \<^verbatim>\<open>JSON.parse\<close> can return; an object lists its own properties in the order of
  \<^verbatim>\<open>Object.keys\<close>. A number is the double nearest to the decimal literal: a finite double is a
  rational, and a literal beyond the range is an infinity, \<open>JNumber None\<close>. The parser is fuelled by
  twice the length of its input, which is always enough (\<open>parseValue_fuel\<close>). The printer writes numbers that are safe
  integers only, the only numbers the program prints; \<open>None\<close> stands for any other.

  The theory proves that parsing inverts printing.
\<close>

section \<open>Numbers\<close>

definition roundHalfEven :: "rat \<Rightarrow> int" where
  "roundHalfEven x =
     (let f = \<lfloor>x\<rfloor>; d = x - of_int f in if d < 1 / 2 \<or> d = 1 / 2 \<and> even f then f else f + 1)"

text \<open>The exponent \<open>e\<close> with \<open>2 powi e \<le> \<bar>q\<bar> < 2 powi (e + 1)\<close>.\<close>

definition binade :: "rat \<Rightarrow> int" where
  "binade q =
     (case quotient_of \<bar>q\<bar> of (n, d) \<Rightarrow>
        let e = bitlen n - bitlen d in if 2 powi e \<le> \<bar>q\<bar> then e else e - 1)"

definition toDouble :: "rat \<Rightarrow> rat option" where
  "toDouble q =
     (if q = 0 then Some 0
      else
        let u = 2 powi (max (binade q) (-1022) - 52);
            r = of_int (roundHalfEven (\<bar>q\<bar> / u)) * u
        in if 2 ^ 1024 \<le> r then None else Some (sgn q * r))"

text \<open>\<^verbatim>\<open>Number.isSafeInteger\<close>, with the integer.\<close>

definition safeInteger :: "rat \<Rightarrow> int option" where
  "safeInteger q = (if of_int \<lfloor>q\<rfloor> = q \<and> isSafeInteger \<lfloor>q\<rfloor> then Some \<lfloor>q\<rfloor> else None)"

section \<open>Values\<close>

datatype json =
    JNull
  | JBool bool
  | JNumber "rat option"
  | JString js_string
  | JArray "json list"
  | JObject "(js_string \<times> json) list"

abbreviation jint :: "int \<Rightarrow> json" where
  "jint n \<equiv> JNumber (Some (of_int n))"

section \<open>Decimal digits\<close>

definition isDigit :: "16 word \<Rightarrow> bool" where
  "isDigit u \<longleftrightarrow> 48 \<le> unat u \<and> unat u \<le> 57"

definition digitsValue :: "js_string \<Rightarrow> nat" where
  "digitsValue s = foldl (\<lambda>n u. n * 10 + (unat u - 48)) 0 s"

fun decimal :: "nat \<Rightarrow> js_string" where
  "decimal n = (if n < 10 then [unitOf (48 + n)] else decimal (n div 10) @ [unitOf (48 + n mod 10)])"

declare decimal.simps [simp del]

definition integerText :: "int \<Rightarrow> js_string" where
  "integerText n = (if n < 0 then 0x2D # decimal (nat (- n)) else decimal (nat n))"

section \<open>Parsing\<close>

definition jsonSpace :: "16 word \<Rightarrow> bool" where
  "jsonSpace u \<longleftrightarrow> unat u \<in> {0x20, 0x09, 0x0A, 0x0D}"

definition skipWs :: "js_string \<Rightarrow> js_string" where
  "skipWs s = dropWhile jsonSpace s"

definition hexValue :: "16 word \<Rightarrow> nat option" where
  "hexValue u =
     (if isDigit u then Some (unat u - 48)
      else if 0x61 \<le> unat u \<and> unat u \<le> 0x66 then Some (unat u - 0x57)
      else if 0x41 \<le> unat u \<and> unat u \<le> 0x46 then Some (unat u - 0x37)
      else None)"

definition hex4 :: "16 word \<Rightarrow> 16 word \<Rightarrow> 16 word \<Rightarrow> 16 word \<Rightarrow> nat option" where
  "hex4 a b c d =
     (case (hexValue a, hexValue b, hexValue c, hexValue d) of
        (Some w, Some x, Some y, Some z) \<Rightarrow> Some (w * 0x1000 + x * 0x100 + y * 0x10 + z)
      | _ \<Rightarrow> None)"

definition escapeUnit :: "16 word \<Rightarrow> 16 word option" where
  "escapeUnit c =
     (if c = 0x22 \<or> c = 0x5C \<or> c = 0x2F then Some c
      else if c = 0x62 then Some 8
      else if c = 0x66 then Some 12
      else if c = 0x6E then Some 10
      else if c = 0x72 then Some 13
      else if c = 0x74 then Some 9
      else None)"

definition pushUnit :: "16 word \<Rightarrow> (js_string \<times> js_string) option \<Rightarrow> (js_string \<times> js_string) option" where
  "pushUnit u parsed = map_option (\<lambda>(cs, rest). (u # cs, rest)) parsed"

text \<open>The characters of a string literal after its opening quote.\<close>

fun parseChars :: "js_string \<Rightarrow> (js_string \<times> js_string) option" where
  "parseChars [] = None"
| "parseChars (u # s) =
     (if u = 0x22 then Some ([], s)
      else if u = 0x5C then
        (case s of
           [] \<Rightarrow> None
         | c # r \<Rightarrow>
             if c = 0x75 then
               (case r of
                  a # b # x # y # r' \<Rightarrow>
                    (case hex4 a b x y of None \<Rightarrow> None | Some n \<Rightarrow> pushUnit (unitOf n) (parseChars r'))
                | _ \<Rightarrow> None)
             else (case escapeUnit c of None \<Rightarrow> None | Some v \<Rightarrow> pushUnit v (parseChars r)))
      else if unat u < 0x20 then None
      else pushUnit u (parseChars s))"

definition parseInteger :: "js_string \<Rightarrow> (nat \<times> js_string) option" where
  "parseInteger s =
     (case s of
        [] \<Rightarrow> None
      | u # r \<Rightarrow>
          if u = 48 then Some (0, r)
          else if isDigit u then Some (digitsValue (takeWhile isDigit s), dropWhile isDigit s)
          else None)"

definition parseFraction :: "js_string \<Rightarrow> (rat \<times> js_string) option" where
  "parseFraction s =
     (case s of
        [] \<Rightarrow> Some (0, s)
      | u # r \<Rightarrow>
          if u = 0x2E then
            (let ds = takeWhile isDigit r in
             if ds = [] then None
             else Some (of_nat (digitsValue ds) / 10 ^ length ds, dropWhile isDigit r))
          else Some (0, s))"

definition parseExponent :: "js_string \<Rightarrow> (int \<times> js_string) option" where
  "parseExponent s =
     (case s of
        [] \<Rightarrow> Some (0, s)
      | u # r \<Rightarrow>
          if u = 0x65 \<or> u = 0x45 then
            (let (sign, body) = (case r of
                   [] \<Rightarrow> (1, r)
                 | v # r' \<Rightarrow> if v = 0x2D then (-1, r') else if v = 0x2B then (1, r') else (1, r));
                 ds = takeWhile isDigit body in
             if ds = [] then None else Some (sign * int (digitsValue ds), dropWhile isDigit body))
          else Some (0, s))"

definition parseMagnitude :: "rat \<Rightarrow> js_string \<Rightarrow> (json \<times> js_string) option" where
  "parseMagnitude sign s =
     (case parseInteger s of
        None \<Rightarrow> None
      | Some (whole, s1) \<Rightarrow>
          (case parseFraction s1 of
             None \<Rightarrow> None
           | Some (fraction, s2) \<Rightarrow>
               (case parseExponent s2 of
                  None \<Rightarrow> None
                | Some (e, s3) \<Rightarrow>
                    Some (JNumber (toDouble (sign * (of_nat whole + fraction) * 10 powi e)), s3))))"

definition parseNumber :: "js_string \<Rightarrow> (json \<times> js_string) option" where
  "parseNumber s =
     (case s of
        [] \<Rightarrow> None
      | u # r \<Rightarrow> if u = 0x2D then parseMagnitude (-1) r else parseMagnitude 1 s)"

definition stripPrefix :: "js_string \<Rightarrow> js_string \<Rightarrow> js_string option" where
  "stripPrefix p s = (if take (length p) s = p then Some (drop (length p) s) else None)"

definition parseKeyword :: "string \<Rightarrow> json \<Rightarrow> js_string \<Rightarrow> (json \<times> js_string) option" where
  "parseKeyword w v s = map_option (\<lambda>r. (v, r)) (stripPrefix (lit w) s)"

text \<open>
  \<^verbatim>\<open>OrdinaryOwnPropertyKeys\<close>: array indices in ascending order, then the other keys in the order of
  their creation.
\<close>

definition isArrayIndex :: "js_string \<Rightarrow> bool" where
  "isArrayIndex k \<longleftrightarrow> (\<forall>u \<in> set k. isDigit u) \<and> k = decimal (digitsValue k) \<and> digitsValue k < 2 ^ 32 - 1"

definition ownKeyOrder :: "(js_string \<times> json) list \<Rightarrow> (js_string \<times> json) list" where
  "ownKeyOrder es =
     sort_key (\<lambda>e. digitsValue (fst e)) (filter (\<lambda>e. isArrayIndex (fst e)) es)
       @ filter (\<lambda>e. \<not> isArrayIndex (fst e)) es"

fun parseValue :: "nat \<Rightarrow> js_string \<Rightarrow> (json \<times> js_string) option"
  and parseElements :: "nat \<Rightarrow> js_string \<Rightarrow> (json list \<times> js_string) option"
  and parseMembers :: "nat \<Rightarrow> (js_string \<times> json) list \<Rightarrow> js_string \<Rightarrow> ((js_string \<times> json) list \<times> js_string) option"
where
  "parseValue 0 s = None"
| "parseValue (Suc n) s =
     (case skipWs s of
        [] \<Rightarrow> None
      | u # r \<Rightarrow>
          if u = 0x22 then map_option (\<lambda>(cs, rest). (JString cs, rest)) (parseChars r)
          else if u = 0x7B then
            (case skipWs r of
               [] \<Rightarrow> None
             | v # r' \<Rightarrow>
                 if v = 0x7D then Some (JObject [], r')
                 else map_option (\<lambda>(es, rest). (JObject (ownKeyOrder es), rest)) (parseMembers n [] (v # r')))
          else if u = 0x5B then
            (case skipWs r of
               [] \<Rightarrow> None
             | v # r' \<Rightarrow>
                 if v = 0x5D then Some (JArray [], r')
                 else map_option (\<lambda>(vs, rest). (JArray vs, rest)) (parseElements n (v # r')))
          else if u = 0x74 then parseKeyword ''true'' (JBool True) (u # r)
          else if u = 0x66 then parseKeyword ''false'' (JBool False) (u # r)
          else if u = 0x6E then parseKeyword ''null'' JNull (u # r)
          else parseNumber (u # r))"
| "parseElements 0 s = None"
| "parseElements (Suc n) s =
     (case parseValue n s of
        None \<Rightarrow> None
      | Some (v, r) \<Rightarrow>
          (case skipWs r of
             [] \<Rightarrow> None
           | u # r' \<Rightarrow>
               if u = 0x5D then Some ([v], r')
               else if u = 0x2C then map_option (\<lambda>(vs, rest). (v # vs, rest)) (parseElements n r')
               else None))"
| "parseMembers 0 seen s = None"
| "parseMembers (Suc n) seen s =
     (case skipWs s of
        [] \<Rightarrow> None
      | q # s1 \<Rightarrow>
          if q \<noteq> 0x22 then None
          else (case parseChars s1 of
             None \<Rightarrow> None
           | Some (k, s2) \<Rightarrow>
               (case skipWs s2 of
                  [] \<Rightarrow> None
                | c # s3 \<Rightarrow>
                    if c \<noteq> 0x3A then None
                    else (case parseValue n s3 of
                       None \<Rightarrow> None
                     | Some (v, s4) \<Rightarrow>
                         (case skipWs s4 of
                            [] \<Rightarrow> None
                          | u # s5 \<Rightarrow>
                              if u = 0x7D then Some (mapSet seen k v, s5)
                              else if u = 0x2C then parseMembers n (mapSet seen k v) s5
                              else None)))))"

declare parseValue.simps [simp del] parseElements.simps [simp del] parseMembers.simps [simp del]

definition jsonParse :: "js_string \<Rightarrow> json option" where
  "jsonParse s =
     (case parseValue (Suc (2 * length s)) s of
        None \<Rightarrow> None
      | Some (v, rest) \<Rightarrow> if skipWs rest = [] then Some v else None)"

section \<open>Printing\<close>

definition hexDigit :: "nat \<Rightarrow> 16 word" where
  "hexDigit n = unitOf (if n < 10 then 48 + n else 0x57 + n)"

definition unicodeEscape :: "16 word \<Rightarrow> js_string" where
  "unicodeEscape u =
     [0x5C, 0x75, hexDigit (unat u div 0x1000), hexDigit (unat u div 0x100 mod 0x10),
      hexDigit (unat u div 0x10 mod 0x10), hexDigit (unat u mod 0x10)]"

definition quoteUnit :: "16 word \<Rightarrow> js_string" where
  "quoteUnit u =
     (if u = 8 then [0x5C, 0x62]
      else if u = 9 then [0x5C, 0x74]
      else if u = 10 then [0x5C, 0x6E]
      else if u = 12 then [0x5C, 0x66]
      else if u = 13 then [0x5C, 0x72]
      else if u = 0x22 then [0x5C, 0x22]
      else if u = 0x5C then [0x5C, 0x5C]
      else if unat u < 0x20 \<or> highSurrogate u \<or> lowSurrogate u then unicodeEscape u
      else [u])"

fun quoteUnits :: "js_string \<Rightarrow> js_string" where
  "quoteUnits [] = []"
| "quoteUnits [u] = quoteUnit u"
| "quoteUnits (u # v # s) =
     (if highSurrogate u \<and> lowSurrogate v then u # v # quoteUnits s
      else quoteUnit u @ quoteUnits (v # s))"

definition quoteText :: "js_string \<Rightarrow> js_string" where
  "quoteText s = 0x22 # quoteUnits s @ [0x22]"

fun joinComma :: "js_string list \<Rightarrow> js_string" where
  "joinComma [] = []"
| "joinComma [t] = t"
| "joinComma (t # u # ts) = t @ 0x2C # joinComma (u # ts)"

fun jsonStringify :: "json \<Rightarrow> js_string option"
  and stringifyItems :: "json list \<Rightarrow> js_string list option"
  and stringifyMembers :: "(js_string \<times> json) list \<Rightarrow> js_string list option"
where
  "jsonStringify JNull = Some (lit ''null'')"
| "jsonStringify (JBool b) = Some (if b then lit ''true'' else lit ''false'')"
| "jsonStringify (JNumber x) =
     (case x of None \<Rightarrow> Some (lit ''null'') | Some q \<Rightarrow> map_option integerText (safeInteger q))"
| "jsonStringify (JString s) = Some (quoteText s)"
| "jsonStringify (JArray vs) = map_option (\<lambda>ts. 0x5B # joinComma ts @ [0x5D]) (stringifyItems vs)"
| "jsonStringify (JObject es) = map_option (\<lambda>ts. 0x7B # joinComma ts @ [0x7D]) (stringifyMembers es)"
| "stringifyItems [] = Some []"
| "stringifyItems (v # vs) =
     (case jsonStringify v of None \<Rightarrow> None | Some t \<Rightarrow> map_option (Cons t) (stringifyItems vs))"
| "stringifyMembers [] = Some []"
| "stringifyMembers ((k, v) # es) =
     (case jsonStringify v of None \<Rightarrow> None
      | Some t \<Rightarrow> map_option (Cons (quoteText k @ 0x3A # t)) (stringifyMembers es))"

section \<open>Laws of numbers\<close>

lemma roundHalfEven_int [simp]: "roundHalfEven (of_int n) = n"
  by (simp add: roundHalfEven_def)

lemma safeInteger_of_int [simp]: "safeInteger (of_int n) = (if isSafeInteger n then Some n else None)"
  by (simp add: safeInteger_def)

lemma safeInteger_Some: "safeInteger q = Some n \<longleftrightarrow> q = of_int n \<and> isSafeInteger n"
  by (auto simp: safeInteger_def split: if_splits)

lemma binade_int:
  assumes "0 < n" "n < 2 ^ 53"
  shows "binade (of_int n) \<le> 52"
proof -
  have "bitlen n \<le> 53"
    using assms by (simp add: bitlen_le_iff_power)
  moreover have "bitlen (1 :: int) = 1"
    by (simp add: bitlen_def floorlog_def)
  moreover have "quotient_of (of_int n) = (n, 1)"
    using quotient_of_int [of n] by (simp add: Rat.of_int_def)
  ultimately show ?thesis
    using assms(1) by (simp add: binade_def Let_def)
qed

lemma toDouble_int:
  assumes "isSafeInteger n"
  shows "toDouble (of_int n) = Some (of_int n)"
proof (cases "n = 0")
  case False
  define a where "a = \<bar>n\<bar>"
  have a: "0 < a" "a < 2 ^ 53"
    using assms False by (simp_all add: a_def isSafeInteger_def maxSafeInteger_def)
  have abs: "\<bar>of_int n :: rat\<bar> = of_int a"
    by (simp add: a_def)
  have bin: "binade (of_int n) = binade (of_int a)"
    unfolding binade_def abs using a by simp
  define e where "e = nat (52 - max (binade (of_int a)) (-1022))"
  define u :: rat where "u = 2 powi (max (binade (of_int a)) (-1022) - 52)"
  have "max (binade (of_int a)) (-1022) - 52 = - int e"
    using binade_int [OF a] by (simp add: e_def)
  then have u: "u = inverse (2 ^ e)"
    unfolding u_def by (simp add: power_int_minus)
  have scaled: "of_int a / u = of_int (a * 2 ^ e)"
    by (simp add: u divide_inverse)
  have restored: "of_int (a * 2 ^ e) * u = (of_int a :: rat)"
    by (simp add: u)
  have small: "\<not> (2 ^ 1024 \<le> (of_int a :: rat))"
  proof -
    have "(of_int a :: rat) < of_int (2 ^ 53)" using a(2) of_int_less_iff by blast
    also have "\<dots> \<le> 2 ^ 1024" by simp
    finally show ?thesis by simp
  qed
  have "sgn (of_int n :: rat) * of_int a = of_int n"
    by (simp add: a_def sgn_if)
  then show ?thesis
    using False small unfolding toDouble_def abs bin u_def [symmetric] Let_def scaled roundHalfEven_int restored by simp
qed (simp add: toDouble_def)

section \<open>Laws of digits\<close>

lemma digitsValue_snoc [simp]: "digitsValue (s @ [u]) = digitsValue s * 10 + (unat u - 48)"
  by (simp add: digitsValue_def)

lemma digitsValue_Nil [simp]: "digitsValue [] = 0"
  by (simp add: digitsValue_def)

lemma isDigit_unitOf [simp]: "n < 10 \<Longrightarrow> isDigit (unitOf (48 + n))"
  by (simp add: isDigit_def)

lemma decimal_facts: "decimal n \<noteq> [] \<and> (\<forall>u \<in> set (decimal n). isDigit u) \<and> digitsValue (decimal n) = n"
proof (induction n rule: decimal.induct)
  case (1 n)
  show ?case
  proof (cases "n < 10")
    case True
    have "digitsValue [unitOf (48 + n)] = n"
      using digitsValue_snoc [of "[]" "unitOf (48 + n)"] True by simp
    then show ?thesis using True by (simp add: decimal.simps [of n])
  next
    case False
    then show ?thesis
      using 1 by (simp add: decimal.simps [of n])
  qed
qed

lemma decimal_hd: "hd (decimal n) = 48 \<longleftrightarrow> n = 0"
proof (induction n rule: decimal.induct)
  case (1 n)
  have "unitOf (48 + n) = (48 :: 16 word) \<longleftrightarrow> n = 0" if "n < 10"
  proof
    assume "unitOf (48 + n) = (48 :: 16 word)"
    then have "unat (unitOf (48 + n)) = unat (48 :: 16 word)" by simp
    then show "n = 0" using that by simp
  qed (simp add: unitOf_def)
  then show ?case
    using 1 decimal_facts [of "n div 10"] by (cases "n < 10") (simp_all add: decimal.simps [of n])
qed

lemma takeWhile_digits:
  assumes "\<forall>u \<in> set ds. isDigit u" "rest = [] \<or> \<not> isDigit (hd rest)"
  shows "takeWhile isDigit (ds @ rest) = ds \<and> dropWhile isDigit (ds @ rest) = rest"
proof -
  have "takeWhile isDigit rest = [] \<and> dropWhile isDigit rest = rest"
    using assms(2) by (cases rest) auto
  then show ?thesis using assms(1) by simp
qed

definition ends :: "js_string \<Rightarrow> bool" where
  "ends rest \<longleftrightarrow> (rest = [] \<or> hd rest = 0x2C \<or> hd rest = 0x7D \<or> hd rest = 0x5D)"

lemma ends_simps [simp]:
  "ends []" "ends (u # s) \<longleftrightarrow> u = 0x2C \<or> u = 0x7D \<or> u = 0x5D"
  by (simp_all add: ends_def)

lemma ends_facts:
  assumes "ends rest"
  shows "rest = [] \<or> \<not> isDigit (hd rest)" "parseFraction rest = Some (0, rest)" "parseExponent rest = Some (0, rest)"
  using assms by (auto simp: ends_def isDigit_def parseFraction_def parseExponent_def split: list.splits)

lemma parseInteger_decimal:
  assumes "ends rest"
  shows "parseInteger (decimal n @ rest) = Some (n, rest)"
proof (cases "n = 0")
  case True
  have "decimal 0 = [48]"
    using decimal_hd [of 0] by (simp add: decimal.simps [of 0])
  then show ?thesis using True by (simp add: parseInteger_def)
next
  case False
  obtain u r where d: "decimal n = u # r"
    using decimal_facts [of n] by (cases "decimal n") auto
  have "u \<noteq> 48" "isDigit u"
    using decimal_hd [of n] decimal_facts [of n] d False by auto
  moreover have "takeWhile isDigit (decimal n @ rest) = decimal n \<and> dropWhile isDigit (decimal n @ rest) = rest"
    using decimal_facts [of n] ends_facts(1) [OF assms] by (intro takeWhile_digits) auto
  ultimately show ?thesis
    using decimal_facts [of n] unfolding d by (simp add: parseInteger_def)
qed

lemma parseMagnitude_decimal:
  "ends rest \<Longrightarrow> parseMagnitude sign (decimal n @ rest) = Some (JNumber (toDouble (sign * of_nat n)), rest)"
  by (simp add: parseMagnitude_def parseInteger_decimal ends_facts)

lemma parseNumber_integerText:
  assumes "isSafeInteger n" "ends rest"
  shows "parseNumber (integerText n @ rest) = Some (jint n, rest)"
proof (cases "n < 0")
  case True
  have "- of_nat (nat (- n)) = (of_int n :: rat)"
    using True by simp
  then show ?thesis
    using True toDouble_int [OF assms(1)] parseMagnitude_decimal [OF assms(2), of "-1" "nat (- n)"]
    by (simp add: parseNumber_def integerText_def)
next
  case False
  obtain u r where d: "decimal (nat n) = u # r"
    using decimal_facts [of "nat n"] by (cases "decimal (nat n)") auto
  have "isDigit u" using decimal_facts [of "nat n"] d by auto
  then have "u \<noteq> 0x2D" by (auto simp: isDigit_def)
  moreover have "of_nat (nat n) = (of_int n :: rat)"
    using False by simp
  ultimately show ?thesis
    using False toDouble_int [OF assms(1)] parseMagnitude_decimal [OF assms(2), of 1 "nat n"] d
    by (simp add: parseNumber_def integerText_def)
qed


section \<open>Strings\<close>

lemma hexValue_hexDigit [simp]: "n < 16 \<Longrightarrow> hexValue (hexDigit n) = Some n"
  by (auto simp: hexValue_def hexDigit_def isDigit_def)

lemma hex_split:
  "(n :: nat) div 0x1000 * 0x1000 + n div 0x100 mod 0x10 * 0x100 + n div 0x10 mod 0x10 * 0x10 + n mod 0x10 = n"
proof -
  have "n div 0x10 * 0x10 + n mod 0x10 = n"
    by simp
  moreover have "n div 0x100 * 0x10 + n div 0x10 mod 0x10 = n div 0x10"
    using div_mult_mod_eq [of "n div 0x10" "0x10"] by (simp add: div_mult2_eq [symmetric])
  moreover have "n div 0x1000 * 0x10 + n div 0x100 mod 0x10 = n div 0x100"
    using div_mult_mod_eq [of "n div 0x100" "0x10"] by (simp add: div_mult2_eq [symmetric])
  ultimately show ?thesis by linarith
qed

lemma parseChars_escape:
  "parseChars (unicodeEscape u @ s) = pushUnit u (parseChars s)"
proof -
  have "unat u div 0x1000 < 16"
    using unat_unit_less [of u] by (simp add: div_less_iff_less_mult)
  moreover have "unat u div 0x1000 * 0x1000 + unat u div 0x100 mod 0x10 * 0x100
      + unat u div 0x10 mod 0x10 * 0x10 + unat u mod 0x10 = unat u"
    by (rule hex_split)
  ultimately show ?thesis
    by (simp add: unicodeEscape_def hex4_def)
qed

lemma parseChars_plain: "u \<noteq> 0x22 \<Longrightarrow> u \<noteq> 0x5C \<Longrightarrow> \<not> unat u < 0x20 \<Longrightarrow> parseChars (u # s) = pushUnit u (parseChars s)"
  by simp

lemma parseChars_quoteUnit: "parseChars (quoteUnit u @ s) = pushUnit u (parseChars s)"
  using parseChars_escape [of u s] by (auto simp: quoteUnit_def escapeUnit_def)

lemma surrogate_plain: "highSurrogate u \<or> lowSurrogate u \<Longrightarrow> u \<noteq> 0x22 \<and> u \<noteq> 0x5C \<and> \<not> unat u < 0x20"
  by (auto simp: highSurrogate_def lowSurrogate_def)

lemma parseChars_quoteUnits: "parseChars (quoteUnits s @ 0x22 # rest) = Some (s, rest)"
proof (induction s rule: quoteUnits.induct)
  case (2 u)
  show ?case by (simp add: parseChars_quoteUnit pushUnit_def)
next
  case (3 u v s)
  show ?case
  proof (cases "highSurrogate u \<and> lowSurrogate v")
    case True
    then show ?thesis
      using 3(1) surrogate_plain [of u] surrogate_plain [of v] by (simp add: pushUnit_def)
  next
    case False
    then have "quoteUnits (u # v # s) = quoteUnit u @ quoteUnits (v # s)"
      by auto
    then show ?thesis
      using 3(2) [OF False] by (simp only: append_assoc parseChars_quoteUnit) (simp add: pushUnit_def)
  qed
qed simp

section \<open>Parsing what was printed\<close>

fun wfJson :: "json \<Rightarrow> bool" where
  "wfJson JNull = True"
| "wfJson (JBool b) = True"
| "wfJson (JNumber x) = (case x of None \<Rightarrow> False | Some q \<Rightarrow> safeInteger q \<noteq> None)"
| "wfJson (JString s) = True"
| "wfJson (JArray vs) = (\<forall>v \<in> set vs. wfJson v)"
| "wfJson (JObject es) = (distinct (map fst es) \<and> ownKeyOrder es = es \<and> (\<forall>e \<in> set es. wfJson (snd e)))"

lemma skipWs_Cons [simp]: "\<not> jsonSpace u \<Longrightarrow> skipWs (u # s) = u # s"
  by (simp add: skipWs_def)

lemma jsonSpace_simps [simp]:
  "\<not> jsonSpace 0x22" "\<not> jsonSpace 0x2C" "\<not> jsonSpace 0x3A" "\<not> jsonSpace 0x5B" "\<not> jsonSpace 0x5D"
  "\<not> jsonSpace 0x7B" "\<not> jsonSpace 0x7D" "\<not> jsonSpace 0x2D"
  by (simp_all add: jsonSpace_def)

text \<open>How a printed value starts.\<close>

definition opens :: "js_string \<Rightarrow> bool" where
  "opens t \<longleftrightarrow> (\<exists>u r. t = u # r \<and> \<not> jsonSpace u \<and> u \<noteq> 0x5D \<and> u \<noteq> 0x7D)"

lemma integerText_opens: "\<exists>u r. integerText n = u # r \<and> (isDigit u \<or> u = 0x2D)"
proof -
  obtain u r where "decimal (nat n) = u # r" "isDigit u"
    using decimal_facts [of "nat n"] by (cases "decimal (nat n)") auto
  then show ?thesis by (cases "n < 0") (simp_all add: integerText_def)
qed

lemma number_start:
  "isDigit u \<or> u = 0x2D \<Longrightarrow> \<not> jsonSpace u \<and> u \<noteq> 0x5D \<and> u \<noteq> 0x7D \<and> u \<noteq> 0x22 \<and> u \<noteq> 0x7B \<and> u \<noteq> 0x5B \<and> u \<noteq> 0x74 \<and> u \<noteq> 0x66 \<and> u \<noteq> 0x6E"
  by (auto simp: isDigit_def jsonSpace_def)

lemma jsonStringify_opens: "jsonStringify v = Some t \<Longrightarrow> opens t"
proof (cases v)
  case (JNumber x)
  moreover assume "jsonStringify v = Some t"
  moreover obtain u r where "integerText (the (safeInteger (the x))) = u # r" "isDigit u \<or> u = 0x2D"
    using integerText_opens by blast
  ultimately show ?thesis
    using number_start [of u] by (cases x) (auto simp: opens_def lit_def unitOf_def jsonSpace_def)
qed (auto simp: opens_def lit_def unitOf_def quoteText_def jsonSpace_def)


lemma opens_skip: "opens t \<Longrightarrow> skipWs (t @ rest) = t @ rest"
  by (auto simp: opens_def)

lemma opens_hd: "opens t \<Longrightarrow> \<exists>u r. t @ rest = u # r \<and> \<not> jsonSpace u \<and> u \<noteq> 0x5D \<and> u \<noteq> 0x7D"
  by (auto simp: opens_def)

lemma parseKeyword_lit [simp]: "parseKeyword w v (lit w @ rest) = Some (v, rest)"
  by (simp add: parseKeyword_def stripPrefix_def)

lemma parseValue_keyword:
  "parseValue (Suc n) (lit ''true'' @ rest) = Some (JBool True, rest)"
  "parseValue (Suc n) (lit ''false'' @ rest) = Some (JBool False, rest)"
  "parseValue (Suc n) (lit ''null'' @ rest) = Some (JNull, rest)"
  using parseKeyword_lit [of "''true''" "JBool True" rest] parseKeyword_lit [of "''false''" "JBool False" rest]
    parseKeyword_lit [of "''null''" JNull rest]
  by (simp_all add: parseValue.simps lit_def unitOf_def jsonSpace_def)

lemma parseValue_integer:
  assumes "isSafeInteger i" "ends rest"
  shows "parseValue (Suc n) (integerText i @ rest) = Some (jint i, rest)"
proof -
  obtain u r where t: "integerText i = u # r" "isDigit u \<or> u = 0x2D"
    using integerText_opens by blast
  show ?thesis
    using parseNumber_integerText [OF assms] number_start [OF t(2)] by (simp add: parseValue.simps t(1))
qed

lemma parseValue_string: "parseValue (Suc n) (quoteText s @ rest) = Some (JString s, rest)"
  by (simp add: parseValue.simps quoteText_def parseChars_quoteUnits)

lemma joinComma_Cons: "joinComma (t # ts) = t @ (if ts = [] then [] else 0x2C # joinComma ts)"
  by (cases ts) simp_all

lemma parse_printed:
  "wfJson v \<Longrightarrow> jsonStringify v = Some t \<Longrightarrow> ends rest \<Longrightarrow> 2 * length t < n \<Longrightarrow> parseValue n (t @ rest) = Some (v, rest)"
  "\<forall>v \<in> set vs. wfJson v \<Longrightarrow> stringifyItems vs = Some ts \<Longrightarrow> vs \<noteq> [] \<Longrightarrow> 2 * length (joinComma ts) + 1 < n \<Longrightarrow>
    parseElements n (joinComma ts @ 0x5D # rest) = Some (vs, rest)"
  "\<forall>e \<in> set es. wfJson (snd e) \<Longrightarrow> stringifyMembers es = Some ts \<Longrightarrow> es \<noteq> [] \<Longrightarrow> distinct (map fst (seen @ es)) \<Longrightarrow>
    2 * length (joinComma ts) + 1 < n \<Longrightarrow> parseMembers n seen (joinComma ts @ 0x7D # rest) = Some (seen @ es, rest)"
proof (induction v and vs and es arbitrary: t rest n and ts rest n and seen ts rest n
    rule: jsonStringify_stringifyItems_stringifyMembers.induct)
  case 1
  then show ?case by (cases n) (auto simp: parseValue_keyword)
next
  case (2 b)
  then show ?case by (cases n) (auto simp: parseValue_keyword split: if_splits)
next
  case (3 x)
  then show ?case by (cases n) (auto simp: safeInteger_Some parseValue_integer split: option.splits)
next
  case (4 s)
  then show ?case by (cases n) (auto simp: parseValue_string)
next
  case (5 vs)
  then obtain k ts where n: "n = Suc k" and ts: "stringifyItems vs = Some ts" and t: "t = 0x5B # joinComma ts @ [0x5D]"
    by (cases n) auto
  show ?case
  proof (cases vs)
    case Nil
    with n ts t show ?thesis by (simp add: parseValue.simps)
  next
    case (Cons v vs')
    then obtain t' ts' where v: "jsonStringify v = Some t'" "ts = t' # ts'" using ts by (auto split: option.splits)
    obtain u r where u: "joinComma ts @ 0x5D # rest = u # r" "\<not> jsonSpace u" "u \<noteq> 0x5D"
      using opens_hd [OF jsonStringify_opens [OF v(1)]] unfolding v(2) joinComma_Cons by fastforce
    have "parseElements k (u # r) = Some (vs, rest)"
      using 5(1) [of ts k rest] 5(2,5) n ts t Cons u(1) by simp
    then show ?thesis using u n t by (simp add: parseValue.simps)
  qed
next
  case (6 es)
  then obtain k ts where n: "n = Suc k" and ts: "stringifyMembers es = Some ts" and t: "t = 0x7B # joinComma ts @ [0x7D]"
    by (cases n) auto
  show ?case
  proof (cases es)
    case Nil
    with n ts t show ?thesis by (simp add: parseValue.simps)
  next
    case (Cons e es')
    then obtain t' ts' where v: "ts = (quoteText (fst e) @ 0x3A # t') # ts'" using ts by (cases e) (auto split: option.splits)
    obtain r where u: "joinComma ts @ 0x7D # rest = 0x22 # r"
      unfolding v joinComma_Cons by (simp add: quoteText_def)
    have "parseMembers k [] (0x22 # r) = Some (es, rest)"
      using 6(1) [of ts "[]" k rest] 6(2,5) n ts t Cons u(1) by simp
    then show ?thesis using u n t 6(2) by (simp add: parseValue.simps)
  qed
next
  case (8 v vs)
  from 8(4) obtain t ts' where ts: "jsonStringify v = Some t" "stringifyItems vs = Some ts'" "ts = t # ts'"
    by (auto split: option.splits)
  obtain k where k: "n = Suc k" using 8(6) by (cases n) auto
  define tail where "tail = (if ts' = [] then [] else 0x2C # joinComma ts') @ 0x5D # rest"
  have head: "parseValue k (t @ tail) = Some (v, tail)"
    using 8(1) [of t tail k] 8(3,6) ts k by (auto simp: tail_def joinComma_Cons)
  have len: "length t \<noteq> 0" using jsonStringify_opens [OF ts(1)] by (auto simp: opens_def)
  show ?case
  proof (cases vs)
    case Nil
    then show ?thesis using head ts k by (simp add: parseElements.simps tail_def)
  next
    case (Cons w ws)
    then have "ts' \<noteq> []" using ts(2) by (auto split: option.splits)
    moreover have "parseElements k (joinComma ts' @ 0x5D # rest) = Some (vs, rest)"
      using 8(2) [OF ts(1), of ts' k rest] 8(3,6) ts k len Cons \<open>ts' \<noteq> []\<close> by (simp add: joinComma_Cons)
    ultimately show ?thesis using head ts k by (simp add: parseElements.simps tail_def joinComma_Cons)
  qed
next
  case (10 key v es)
  from 10(4) obtain t ts' where ts: "jsonStringify v = Some t" "stringifyMembers es = Some ts'"
      "ts = (quoteText key @ 0x3A # t) # ts'"
    by (auto split: option.splits)
  obtain k where k: "n = Suc k" using 10(7) by (cases n) auto
  define tail where "tail = (if ts' = [] then [] else 0x2C # joinComma ts') @ 0x7D # rest"
  have head: "parseValue k (t @ tail) = Some (v, tail)"
    using 10(1) [of t tail k] 10(3,7) ts k by (auto simp: tail_def joinComma_Cons)
  have new: "mapSet seen key v = seen @ [(key, v)]"
    using 10(6) by (intro mapSet_new) (auto simp: mapHas_def)
  have key: "parseChars (quoteUnits key @ 0x22 # 0x3A # t @ tail) = Some (key, 0x3A # t @ tail)"
    by (rule parseChars_quoteUnits)
  have printed: "joinComma ts @ 0x7D # rest = 0x22 # quoteUnits key @ 0x22 # 0x3A # t @ tail"
    by (simp add: ts(3) joinComma_Cons tail_def quoteText_def)
  show ?case
  proof (cases es)
    case Nil
    then show ?thesis using head ts(2) key new unfolding printed k by (simp add: parseMembers.simps tail_def)
  next
    case (Cons e es')
    then have ne: "ts' \<noteq> []" using ts(2) by (cases e) (auto split: option.splits)
    have "parseMembers k (seen @ [(key, v)]) (joinComma ts' @ 0x7D # rest) = Some ((seen @ [(key, v)]) @ es, rest)"
      using 10(2) [OF ts(1), of ts' "seen @ [(key, v)]" k rest] 10(3,6,7) ts k Cons ne by (simp add: joinComma_Cons)
    then show ?thesis using head key new ne unfolding printed k by (simp add: parseMembers.simps tail_def)
  qed
qed simp_all

lemma jsonParse_jsonStringify:
  assumes "wfJson v" "jsonStringify v = Some t"
  shows "jsonParse t = Some v"
  using parse_printed(1) [OF assms, of "[]"] by (simp add: jsonParse_def skipWs_def)


lemma wfJson_prints:
  "wfJson v \<Longrightarrow> \<exists>t. jsonStringify v = Some t"
  "\<forall>v \<in> set vs. wfJson v \<Longrightarrow> \<exists>ts. stringifyItems vs = Some ts"
  "\<forall>e \<in> set es. wfJson (snd e) \<Longrightarrow> \<exists>ts. stringifyMembers es = Some ts"
  by (induction v and vs and es rule: jsonStringify_stringifyItems_stringifyMembers.induct)
    (auto split: option.splits)

section \<open>Fuel\<close>

lemma length_skipWs: "length (skipWs s) \<le> length s"
  by (simp add: skipWs_def length_dropWhile_le)

lemma parseChars_shorter: "parseChars s = Some (cs, r) \<Longrightarrow> length r < length s"
proof (induction s arbitrary: cs rule: parseChars.induct)
  case (2 u s)
  then show ?case
    by (auto simp: pushUnit_def split: if_splits list.splits option.splits)
       (fastforce simp: pushUnit_def split: if_splits list.splits option.splits)+
qed simp

lemma parseInteger_shorter: "parseInteger s = Some (n, r) \<Longrightarrow> length r < length s"
  by (auto simp: parseInteger_def length_dropWhile_le le_imp_less_Suc split: list.splits if_splits)

lemma parseFraction_shorter: "parseFraction s = Some (q, r) \<Longrightarrow> length r \<le> length s"
  by (auto simp: parseFraction_def Let_def le_SucI length_dropWhile_le split: list.splits if_splits)

lemma parseExponent_shorter: "parseExponent s = Some (e, r) \<Longrightarrow> length r \<le> length s"
  by (auto simp: parseExponent_def Let_def le_SucI length_dropWhile_le split: list.splits if_splits)

lemma parseNumber_shorter:
  assumes "parseNumber s = Some (v, r)"
  shows "length r < length s"
proof -
  have *: "length r < length s" if "parseMagnitude sign s = Some (v, r)" for sign s
    using that parseInteger_shorter parseFraction_shorter parseExponent_shorter
    by (fastforce simp: parseMagnitude_def split: option.splits)
  show ?thesis
    using assms * by (fastforce simp: parseNumber_def split: list.splits if_splits)
qed


lemma skipWs_shorter: "skipWs s = u # r \<Longrightarrow> length r < length s"
  using length_skipWs [of s] by simp

lemma parseKeyword_shorter: "parseKeyword w v s = Some (x, r) \<Longrightarrow> w \<noteq> [] \<Longrightarrow> s \<noteq> [] \<Longrightarrow> length r < length s"
  by (auto simp: parseKeyword_def stripPrefix_def split: if_splits)

lemma parse_shorter:
  "parseValue n s = Some (v, r) \<Longrightarrow> length r < length s"
  "parseElements n s = Some (vs, r) \<Longrightarrow> length r < length s"
  "parseMembers n seen s = Some (es, r) \<Longrightarrow> length r < length s"
proof (induction n s and n s and n seen s arbitrary: v r and vs r and es r rule: parseValue_parseElements_parseMembers.induct)
  case (2 n s)
  then obtain u t where u: "skipWs s = u # t" by (auto simp: parseValue.simps split: list.splits)
  have t: "length t < length s" using skipWs_shorter [OF u] .
  have inner: "length r < length s" if "skipWs t = x # y" "length r < length (x # y)" for x y
    using that skipWs_shorter [OF that(1)] t by simp
  have closed: "length y < length s" if "skipWs t = x # y" for x y
    using skipWs_shorter [OF that] t by simp
  have members: "length r < length s" if "u = 0x7B" "skipWs t = x # y" "x \<noteq> 0x7D" "parseMembers n [] (x # y) = Some (a, r)" for x y a
    using 2(1) [OF u] that inner [OF that(2)] by simp
  have elements: "length r < length s" if "u = 0x5B" "skipWs t = x # y" "x \<noteq> 0x5D" "parseElements n (x # y) = Some (a, r)" for x y a
    using 2(2) [OF u] that inner [OF that(2)] by simp
  have short: "length r < length (u # t) \<Longrightarrow> length r < length s" using t by simp
  show ?case
    using 2(3) u
    by (auto simp: parseValue.simps split: if_splits list.splits
        dest!: parseChars_shorter dest: parseNumber_shorter parseKeyword_shorter
        intro: short members elements closed less_trans [OF _ t])
next
  case (4 n s)
  then obtain v t u t' where *: "parseValue n s = Some (v, t)" "skipWs t = u # t'"
    by (auto simp: parseElements.simps split: option.splits list.splits)
  have t': "length t' < length s" using 4(1) [OF *(1)] skipWs_shorter [OF *(2)] by simp
  have more: "length r < length t'" if "u = 0x2C" "parseElements n t' = Some (ws, r)" for ws
    using 4(2) [OF *(1) refl *(2)] that by simp
  show ?case
    using 4(3) * t' by (auto simp: parseElements.simps split: if_splits dest!: more)
next
  case (6 n seen s)
  then obtain q s1 key s2 c s3 v s4 u s5 where *: "skipWs s = q # s1" "\<not> q \<noteq> 0x22" "parseChars s1 = Some (key, s2)"
      "skipWs s2 = c # s3" "\<not> c \<noteq> 0x3A" "parseValue n s3 = Some (v, s4)" "skipWs s4 = u # s5"
    by (auto simp: parseMembers.simps split: option.splits list.splits if_splits)
  have s5: "length s5 < length s"
    using skipWs_shorter [OF *(1)] parseChars_shorter [OF *(3)] skipWs_shorter [OF *(4)]
      6(1) [OF *(1,2,3) refl *(4,5,6)] skipWs_shorter [OF *(7)] by simp
  have more: "length r < length s5" if "u = 0x2C" "parseMembers n (mapSet seen key v) s5 = Some (es', r)" for es'
    using 6(2) [OF *(1,2,3) refl *(4,5,6) refl *(7)] that by simp
  show ?case
    using 6(3) * s5 by (auto simp: parseMembers.simps split: if_splits dest!: more)
qed (simp_all add: parseValue.simps parseElements.simps parseMembers.simps)

text \<open>More fuel than twice the length of the input makes no difference.\<close>

lemma parse_fuel:
  "(2 * length s < n \<longrightarrow> parseValue n s = parseValue (n + k) s)
   \<and> (2 * length s + 1 < n \<longrightarrow> parseElements n s = parseElements (n + k) s)
   \<and> (2 * length s + 1 < n \<longrightarrow> (\<forall>seen. parseMembers n seen s = parseMembers (n + k) seen s))"
proof (induction n arbitrary: s)
  case (Suc n)
  have V: "parseValue (Suc n) s = parseValue (Suc n + k) s" if "2 * length s < Suc n"
  proof (cases "skipWs s")
    case (Cons u t)
    have less: "2 * length (x # y) + 1 < n" if "skipWs t = x # y" for x y
      using length_skipWs [of t] skipWs_shorter [OF Cons] that \<open>2 * length s < Suc n\<close> by simp
    show ?thesis
    proof (cases "skipWs t")
      case (Cons x y)
      then show ?thesis using \<open>skipWs s = u # t\<close> Suc [of "x # y"] less [OF Cons] by (simp add: parseValue.simps)
    qed (simp add: parseValue.simps Cons)
  qed (simp add: parseValue.simps)
  have E: "parseElements (Suc n) s = parseElements (Suc n + k) s" if "2 * length s + 1 < Suc n"
  proof -
    have "parseValue n s = parseValue (n + k) s" using Suc [of s] that by simp
    moreover have "parseElements n t' = parseElements (n + k) t'"
      if "parseValue n s = Some (v, t)" "skipWs t = u # t'" for v t u t'
      using Suc [of t'] parse_shorter(1) [OF that(1)] skipWs_shorter [OF that(2)] \<open>2 * length s + 1 < Suc n\<close> by simp
    ultimately show ?thesis
      by (auto simp: parseElements.simps split: option.splits list.splits)
  qed
  have M: "parseMembers (Suc n) seen s = parseMembers (Suc n + k) seen s" if "2 * length s + 1 < Suc n" for seen
  proof -
    have first: "parseValue n s3 = parseValue (n + k) s3"
      if "skipWs s = q # s1" "parseChars s1 = Some (key, s2)" "skipWs s2 = c # s3" for q s1 key s2 c s3
      using Suc [of s3] skipWs_shorter [OF that(1)] parseChars_shorter [OF that(2)] skipWs_shorter [OF that(3)]
        \<open>2 * length s + 1 < Suc n\<close> by simp
    moreover have "parseMembers n seen' s5 = parseMembers (n + k) seen' s5"
      if "skipWs s = q # s1" "parseChars s1 = Some (key, s2)" "skipWs s2 = c # s3" "parseValue (n + k) s3 = Some (v, s4)"
        "skipWs s4 = u # s5" for q s1 key s2 c s3 v s4 u s5 seen'
      using Suc [of s5] skipWs_shorter [OF that(1)] parseChars_shorter [OF that(2)] skipWs_shorter [OF that(3)]
        parse_shorter(1) [OF that(4)] skipWs_shorter [OF that(5)] \<open>2 * length s + 1 < Suc n\<close> by simp
    ultimately show ?thesis
      by (auto simp: parseMembers.simps split: option.splits list.splits)
  qed
  show ?case using V E M by simp
qed simp

lemma parseValue_fuel:
  assumes "2 * length s < n"
  shows "parseValue n s = parseValue (Suc (2 * length s)) s"
  using parse_fuel [of s "Suc (2 * length s)" "n - Suc (2 * length s)"] assms by simp

end
