(* ===== verification/RelayFrames.thy ===== *)
theory RelayFrames
  imports Json Base64Url
begin

text \<open>
  \<^verbatim>\<open>protocol/v0/relay-attachment.ts\<close>: the validator of the frames a client and a relay exchange.

  A frame is JSON text; \<open>decodeDraftRelayAttachmentFrameText\<close> bounds its size, parses it and hands the
  value to \<open>validateDraftRelayAttachmentFrame\<close>, which has one hand-written function per frame type. A
  record of the source is the association list of its own properties, and \<^verbatim>\<open>record[key]\<close> is
  \<open>map_of\<close>, \<open>None\<close> being \<^verbatim>\<open>undefined\<close>. The URL parser of the platform, \<^verbatim>\<open>new URL(value)\<close>, is the
  argument \<open>parseUrl\<close> (\<open>None\<close> where it throws).

  The specification is a table: for every frame type the shape each field must have
  (\<open>frameFields\<close>, \<open>hasShape\<close>). Property \<open>relay_frames_conform\<close> says that the sixteen
  functions accept exactly what the table describes.
\<close>

section \<open>Constants\<close>

definition protocolID :: js_string where
  "protocolID = lit ''branch/connectivity/0''"

definition maxDraftEnvelopeBytes :: nat where
  "maxDraftEnvelopeBytes = 64 * 1024"

definition maxDraftStringBytes :: nat where
  "maxDraftStringBytes = 1024"

definition maxDraftTimestamp :: int where
  "maxDraftTimestamp = maxSafeInteger"

definition developmentProfileMultihash :: js_string where
  "developmentProfileMultihash = lit ''uEiCaVLmVxHgth49YdSwXKM201oM4W6PHc61z_1rz-J_xVw''"

definition branchTextWrapperPrefix :: js_string where
  "branchTextWrapperPrefix = lit ''BRANCH0.''"

definition relayProofDomain :: js_string where
  "relayProofDomain = lit (''BRANCH relay attachment v0'' @ [CHR 0x0A])"

definition maxDraftRelayAttachmentFrameBytes :: nat where
  "maxDraftRelayAttachmentFrameBytes = maxDraftEnvelopeBytes"

definition maxDraftRelayCiphertextBytes :: nat where
  "maxDraftRelayCiphertextBytes = 8 * 1024"

definition maxDraftRouteHints :: nat where
  "maxDraftRouteHints = 8"

definition maxDraftRouteHintUriBytes :: nat where
  "maxDraftRouteHintUriBytes = 512"

definition maxDraftIdentityRecords :: nat where
  "maxDraftIdentityRecords = 4"

definition maxDraftIdentityWrapperBytes :: nat where
  "maxDraftIdentityWrapperBytes = 8192"

definition draftRelayAttachmentPath :: js_string where
  "draftRelayAttachmentPath = lit ''/relay/v0''"

definition relayForwardLiveRole :: js_string where
  "relayForwardLiveRole = lit ''relay.forward.live/0''"

definition relayFederationLiveRole :: js_string where
  "relayFederationLiveRole = lit ''relay.federate.live/0.draft''"

definition contactDiscoveryLiveExtension :: js_string where
  "contactDiscoveryLiveExtension = lit ''branch.contact-discovery.live/0.draft''"

datatype RelayFrameType =
    HELLO | CHALLENGE | AUTH | READY | PRESENCE | HEARTBEAT | LOOKUP | IDENTITY_WANT | IDENTITY_HAVE
  | CONTACT_ANNOUNCE | CONTACT_LOOKUP | CONTACT_PROBE | RENDEZVOUS | ENVELOPE | ACK | ERROR

definition relayFrameTypes :: "(js_string \<times> RelayFrameType) list" where
  "relayFrameTypes =
     [(lit ''HELLO'', HELLO), (lit ''CHALLENGE'', CHALLENGE), (lit ''AUTH'', AUTH), (lit ''READY'', READY),
      (lit ''PRESENCE'', PRESENCE), (lit ''HEARTBEAT'', HEARTBEAT), (lit ''LOOKUP'', LOOKUP),
      (lit ''IDENTITY_WANT'', IDENTITY_WANT), (lit ''IDENTITY_HAVE'', IDENTITY_HAVE),
      (lit ''CONTACT_ANNOUNCE'', CONTACT_ANNOUNCE), (lit ''CONTACT_LOOKUP'', CONTACT_LOOKUP),
      (lit ''CONTACT_PROBE'', CONTACT_PROBE), (lit ''RENDEZVOUS'', RENDEZVOUS), (lit ''ENVELOPE'', ENVELOPE),
      (lit ''ACK'', ACK), (lit ''ERROR'', ERROR)]"

definition protocolErrorCodes :: "js_string list" where
  "protocolErrorCodes = map lit
     [''unsupported_version'', ''unsupported_profile'', ''profile_hash_mismatch'', ''required_capability_missing'',
      ''required_extension_missing'', ''malformed_envelope'', ''signature_invalid'', ''payload_decrypt_failed'',
      ''frame_too_large'', ''frame_malformed'', ''frame_replayed'', ''authentication_failed'', ''capability_required'',
      ''capability_expired'', ''capability_revoked'', ''quota_exceeded'', ''peer_unavailable'', ''route_unavailable'',
      ''migration_rejected'', ''rate_limited'', ''timeout'', ''internal_unavailable'']"

section \<open>Reading fields\<close>

type_synonym jrecord = "(js_string \<times> json) list"

record URL =
  url_protocol :: js_string
  url_host :: js_string
  url_hostname :: js_string
  url_username :: js_string
  url_password :: js_string
  url_pathname :: js_string
  url_hash :: js_string

abbreviation frameError :: "string \<Rightarrow> 'a res" where
  "frameError s \<equiv> Inl (RelayAttachmentError (lit s))"

definition invalidField :: "js_string \<Rightarrow> 'a res" where
  "invalidField key = Inl (RelayAttachmentError (lit ''invalid '' @ key))"

definition missingField :: "js_string \<Rightarrow> 'a res" where
  "missingField key = Inl (RelayAttachmentError (lit ''missing '' @ key))"

fun requireKeys :: "jrecord \<Rightarrow> js_string list \<Rightarrow> unit res" where
  "requireKeys r [] = Inr ()"
| "requireKeys r (key # keys) = (if map_of r key = None then missingField key else requireKeys r keys)"

fun refuseKeys :: "jrecord \<Rightarrow> js_string list \<Rightarrow> unit res" where
  "refuseKeys [] known = Inr ()"
| "refuseKeys ((key, v) # r) known =
     (if key \<notin> set known then Inl (RelayAttachmentError (lit ''unknown '' @ key)) else refuseKeys r known)"

definition rejectUnknownKeys :: "jrecord \<Rightarrow> js_string list \<Rightarrow> js_string list \<Rightarrow> unit res" where
  "rejectUnknownKeys r keys optionalKeys =
     andThen (requireKeys r keys) (\<lambda>_. refuseKeys r (keys @ optionalKeys))"

definition readStringField :: "jrecord \<Rightarrow> js_string \<Rightarrow> nat \<Rightarrow> js_string res" where
  "readStringField r key maxBytes =
     (case map_of r key of
        Some (JString s) \<Rightarrow> if length s = 0 \<or> length (textEncode s) > maxBytes then invalidField key else Inr s
      | _ \<Rightarrow> invalidField key)"

definition readBoundedInteger :: "jrecord \<Rightarrow> js_string \<Rightarrow> int \<Rightarrow> int \<Rightarrow> int res" where
  "readBoundedInteger r key lower upper =
     (case map_of r key of
        Some (JNumber (Some q)) \<Rightarrow>
          (case safeInteger q of
             None \<Rightarrow> invalidField key
           | Some n \<Rightarrow> if n < lower \<or> n > upper then invalidField key else Inr n)
      | _ \<Rightarrow> invalidField key)"

definition readInteger :: "jrecord \<Rightarrow> js_string \<Rightarrow> int res" where
  "readInteger r key = readBoundedInteger r key 0 maxDraftTimestamp"

definition readBooleanField :: "jrecord \<Rightarrow> js_string \<Rightarrow> bool res" where
  "readBooleanField r key = (case map_of r key of Some (JBool b) \<Rightarrow> Inr b | _ \<Rightarrow> invalidField key)"

definition readBase64URLString :: "jrecord \<Rightarrow> js_string \<Rightarrow> nat \<Rightarrow> js_string res" where
  "readBase64URLString r key maxBytes =
     andThen (readStringField r key maxBytes) (\<lambda>s.
       case decodeBase64URL s of Inl _ \<Rightarrow> invalidField key | Inr _ \<Rightarrow> Inr s)"

definition readBase64URLBytes :: "jrecord \<Rightarrow> js_string \<Rightarrow> nat \<Rightarrow> js_string res" where
  "readBase64URLBytes r key sz =
     andThen (readBase64URLString r key maxDraftStringBytes) (\<lambda>s.
     andThen (decodeBase64URL s) (\<lambda>bs. if length bs \<noteq> sz then invalidField key else Inr s))"

definition readObject :: "jrecord \<Rightarrow> js_string \<Rightarrow> jrecord res" where
  "readObject r key = (case map_of r key of Some (JObject obj) \<Rightarrow> Inr obj | _ \<Rightarrow> missingField key)"

definition startsWith :: "js_string \<Rightarrow> js_string \<Rightarrow> bool" where
  "startsWith s p \<longleftrightarrow> take (length p) s = p"

definition readBranchID :: "jrecord \<Rightarrow> js_string \<Rightarrow> js_string res" where
  "readBranchID r key =
     andThen (readStringField r key maxDraftStringBytes) (\<lambda>s.
       if \<not> startsWith s (lit ''br1.'') then invalidField key
       else (case decodeBase64URL (drop 4 s) of
               Inl _ \<Rightarrow> invalidField key
             | Inr multihash \<Rightarrow>
                 if length multihash \<noteq> 34 \<or> multihash ! 0 \<noteq> 0x12 \<or> multihash ! 1 \<noteq> 0x20
                 then invalidField key else Inr s))"

fun readIdentityItems :: "js_string \<Rightarrow> json list \<Rightarrow> unit res" where
  "readIdentityItems key [] = Inr ()"
| "readIdentityItems key (item # items) =
     (case item of
        JString s \<Rightarrow>
          if length s = 0 \<or> length (textEncode s) > maxDraftIdentityWrapperBytes \<or> \<not> startsWith s branchTextWrapperPrefix
          then invalidField key else readIdentityItems key items
      | _ \<Rightarrow> invalidField key)"

definition readIdentityRecords :: "jrecord \<Rightarrow> js_string \<Rightarrow> unit res" where
  "readIdentityRecords r key =
     (case map_of r key of
        Some (JArray vs) \<Rightarrow>
          if length vs > maxDraftIdentityRecords then invalidField key else readIdentityItems key vs
      | _ \<Rightarrow> invalidField key)"

definition readBootstrapWrapper :: "jrecord \<Rightarrow> js_string \<Rightarrow> js_string res" where
  "readBootstrapWrapper r key =
     andThen (readStringField r key maxDraftStringBytes) (\<lambda>s.
       if length (textEncode s) > maxDraftIdentityWrapperBytes \<or> \<not> startsWith s branchTextWrapperPrefix
       then invalidField key else Inr s)"

fun orderedUniqueItems :: "js_string \<Rightarrow> json list \<Rightarrow> js_string list \<Rightarrow> js_string \<Rightarrow> js_string list res" where
  "orderedUniqueItems key [] seen previous = Inr (rev seen)"
| "orderedUniqueItems key (item # items) seen previous =
     (case item of
        JString s \<Rightarrow>
          if s = [] \<or> length (textEncode s) > maxDraftStringBytes then invalidField key
          else if s \<in> set seen \<or> s < previous then invalidField key
          else orderedUniqueItems key items (s # seen) s
      | _ \<Rightarrow> invalidField key)"

definition readOrderedUniqueStrings :: "jrecord \<Rightarrow> js_string \<Rightarrow> nat \<Rightarrow> js_string list res" where
  "readOrderedUniqueStrings r key maxItems =
     (case map_of r key of
        Some (JArray vs) \<Rightarrow> if length vs > maxItems then invalidField key else orderedUniqueItems key vs [] []
      | _ \<Rightarrow> invalidField key)"

definition readVersionOffer :: "json \<Rightarrow> unit res" where
  "readVersionOffer v =
     (case v of
        JObject r \<Rightarrow>
          andThen (rejectUnknownKeys r (map lit [''wire_version'', ''protocol'', ''profile_multihash'', ''capabilities'',
            ''required_capabilities'', ''extensions'', ''required_extensions'']) []) (\<lambda>_.
          andThen (readBoundedInteger r (lit ''wire_version'') 0 maxDraftTimestamp) (\<lambda>wireVersion.
          if wireVersion \<noteq> 0 then frameError ''unsupported_version''
          else andThen (readStringField r (lit ''protocol'') maxDraftStringBytes) (\<lambda>protocol.
          if protocol \<noteq> protocolID then frameError ''unsupported_protocol''
          else andThen (readStringField r (lit ''profile_multihash'') maxDraftStringBytes) (\<lambda>profile.
          if profile \<noteq> developmentProfileMultihash then frameError ''profile_hash_mismatch''
          else andThen (readOrderedUniqueStrings r (lit ''capabilities'') 32) (\<lambda>capabilities.
          if relayForwardLiveRole \<notin> set capabilities then frameError ''capability_required''
          else andThen (readOrderedUniqueStrings r (lit ''required_capabilities'') 32) (\<lambda>_.
          andThen (readOrderedUniqueStrings r (lit ''extensions'') 32) (\<lambda>_.
          andThen (readOrderedUniqueStrings r (lit ''required_extensions'') 32) (\<lambda>_. Inr ()))))))))
      | _ \<Rightarrow> frameError ''invalid version offer'')"

definition readVersionOffers :: "jrecord \<Rightarrow> js_string \<Rightarrow> unit res" where
  "readVersionOffers r key =
     (case map_of r key of
        Some (JArray vs) \<Rightarrow>
          if length vs = 0 \<or> length vs > 8 then invalidField key
          else andThen (mapRes readVersionOffer vs) (\<lambda>_. Inr ())
      | _ \<Rightarrow> invalidField key)"

section \<open>Route hints\<close>

definition validateRouteHintUri :: "(js_string \<Rightarrow> URL option) \<Rightarrow> js_string \<Rightarrow> js_string \<Rightarrow> unit res" where
  "validateRouteHintUri parseUrl transport uri =
     (if length (textEncode uri) > maxDraftRouteHintUriBytes then frameError ''invalid route_hints''
      else case parseUrl uri of
          None \<Rightarrow> frameError ''invalid route_hints''
        | Some parsed \<Rightarrow>
            if url_protocol parsed \<noteq> transport @ lit '':'' \<or> url_host parsed = [] \<or> url_username parsed \<noteq> []
              \<or> url_password parsed \<noteq> [] \<or> url_hash parsed \<noteq> [] \<or> url_pathname parsed \<noteq> draftRelayAttachmentPath
            then frameError ''invalid route_hints'' else Inr ())"

fun validateHints :: "(js_string \<Rightarrow> URL option) \<Rightarrow> js_string list \<Rightarrow> json list \<Rightarrow> unit res" where
  "validateHints parseUrl seen [] = Inr ()"
| "validateHints parseUrl seen (hint # hints) =
     (case hint of
        JObject h \<Rightarrow>
          andThen (rejectUnknownKeys h (map lit [''transport'', ''uri'', ''relay_public_key'', ''priority'']) []) (\<lambda>_.
          andThen (readStringField h (lit ''transport'') maxDraftStringBytes) (\<lambda>transport.
          if transport \<noteq> lit ''wss'' \<and> transport \<noteq> lit ''ws'' then frameError ''invalid route_hints''
          else andThen (readStringField h (lit ''uri'') maxDraftStringBytes) (\<lambda>uri.
          andThen (validateRouteHintUri parseUrl transport uri) (\<lambda>_.
          let key = transport @ [0] @ uri in
          if key \<in> set seen then frameError ''duplicate route_hints''
          else andThen (readBase64URLBytes h (lit ''relay_public_key'') 32) (\<lambda>_.
          andThen (readBoundedInteger h (lit ''priority'') 0 maxDraftTimestamp) (\<lambda>_.
          validateHints parseUrl (key # seen) hints))))))
      | _ \<Rightarrow> frameError ''invalid route_hints'')"

definition validateRouteHints :: "(js_string \<Rightarrow> URL option) \<Rightarrow> jrecord \<Rightarrow> unit res" where
  "validateRouteHints parseUrl r =
     (case map_of r (lit ''route_hints'') of
        None \<Rightarrow> Inr ()
      | Some (JArray hints) \<Rightarrow>
          if length hints = 0 \<or> length hints > maxDraftRouteHints then frameError ''invalid route_hints''
          else validateHints parseUrl [] hints
      | Some _ \<Rightarrow> frameError ''invalid route_hints'')"

section \<open>The frames\<close>

text \<open>Statements in a row that only check.\<close>

fun allOf :: "unit res list \<Rightarrow> unit res" where
  "allOf [] = Inr ()"
| "allOf (m # ms) = andThen m (\<lambda>_. allOf ms)"

definition check :: "'a res \<Rightarrow> unit res" where
  "check m = andThen m (\<lambda>_. Inr ())"

definition validateHello :: "jrecord \<Rightarrow> unit res" where
  "validateHello r =
     andThen (readBase64URLBytes r (lit ''client_nonce'') 32) (\<lambda>_.
     andThen (readInteger r (lit ''client_time'')) (\<lambda>_.
     andThen (readStringField r (lit ''requested_role'') maxDraftStringBytes) (\<lambda>role.
     andThen (if role = relayForwardLiveRole then
                rejectUnknownKeys r (map lit [''type'', ''client_nonce'', ''client_time'', ''requested_role'',
                  ''max_frame_bytes'', ''offers'']) []
              else if role = relayFederationLiveRole then
                andThen (rejectUnknownKeys r (map lit [''type'', ''client_nonce'', ''client_time'', ''requested_role'',
                  ''relay_beacon'', ''max_frame_bytes'', ''offers'']) []) (\<lambda>_.
                  check (readBootstrapWrapper r (lit ''relay_beacon'')))
              else frameError ''unsupported requested_role'') (\<lambda>_.
     andThen (readBoundedInteger r (lit ''max_frame_bytes'') 1 49152) (\<lambda>_.
     readVersionOffers r (lit ''offers''))))))"

definition validateLifetime :: "jrecord \<Rightarrow> int \<Rightarrow> unit res" where
  "validateLifetime r longest =
     andThen (readInteger r (lit ''issued_at'')) (\<lambda>issuedAt.
     andThen (readInteger r (lit ''expires_at'')) (\<lambda>expiresAt.
       if expiresAt \<le> issuedAt \<or> expiresAt - issuedAt > longest then frameError ''frame_replayed'' else Inr ()))"

definition validateChallenge :: "jrecord \<Rightarrow> unit res" where
  "validateChallenge r = allOf
     [rejectUnknownKeys r (map lit [''type'', ''client_nonce'', ''relay_nonce'', ''issued_at'', ''expires_at'',
        ''relay_public_key'', ''selected'', ''transcript_hash'', ''relay_proof'']) [],
      check (readBase64URLBytes r (lit ''client_nonce'') 32),
      check (readBase64URLBytes r (lit ''relay_nonce'') 32),
      validateLifetime r 60,
      check (readBase64URLBytes r (lit ''relay_public_key'') 32),
      andThen (readObject r (lit ''selected'')) (\<lambda>selected. readVersionOffer (JObject selected)),
      check (readBase64URLBytes r (lit ''transcript_hash'') 32),
      check (readBase64URLBytes r (lit ''relay_proof'') 64)]"

definition validateAuth :: "jrecord \<Rightarrow> unit res" where
  "validateAuth r = allOf
     [rejectUnknownKeys r (map lit [''type'', ''client_public_key'', ''client_nonce'', ''relay_nonce'',
        ''transcript_hash'', ''client_proof'']) [],
      check (readBase64URLBytes r (lit ''client_public_key'') 32),
      check (readBase64URLBytes r (lit ''client_nonce'') 32),
      check (readBase64URLBytes r (lit ''relay_nonce'') 32),
      check (readBase64URLBytes r (lit ''transcript_hash'') 32),
      check (readBase64URLBytes r (lit ''client_proof'') 64)]"

definition validateReady :: "jrecord \<Rightarrow> unit res" where
  "validateReady r = allOf
     [rejectUnknownKeys r (map lit [''type'', ''session_id'', ''route_id'', ''presence_ttl_seconds'',
        ''heartbeat_interval_seconds'', ''accepted_limits'']) [],
      check (readBase64URLBytes r (lit ''session_id'') 32),
      check (readBase64URLBytes r (lit ''route_id'') 16),
      check (readBoundedInteger r (lit ''presence_ttl_seconds'') 1 300),
      check (readBoundedInteger r (lit ''heartbeat_interval_seconds'') 1 60),
      andThen (readObject r (lit ''accepted_limits'')) (\<lambda>limits. allOf
        [rejectUnknownKeys limits (map lit [''max_frame_bytes'', ''max_queue_depth'', ''max_frames_per_session'',
           ''max_bytes_per_session'']) [],
         check (readBoundedInteger limits (lit ''max_frame_bytes'') 1 49152),
         check (readBoundedInteger limits (lit ''max_queue_depth'') 1 1024),
         check (readBoundedInteger limits (lit ''max_frames_per_session'') 1 maxDraftTimestamp),
         check (readBoundedInteger limits (lit ''max_bytes_per_session'') 1 maxDraftTimestamp)])]"

definition validatePresence :: "jrecord \<Rightarrow> unit res" where
  "validatePresence r = allOf
     [rejectUnknownKeys r (map lit [''type'', ''session_id'', ''route_id'', ''peer_id'', ''sequence'', ''ttl_seconds'',
        ''sent_at'']) [],
      check (readBase64URLBytes r (lit ''session_id'') 32),
      check (readBase64URLBytes r (lit ''route_id'') 16),
      check (readBase64URLBytes r (lit ''peer_id'') 32),
      check (readBoundedInteger r (lit ''sequence'') 0 maxDraftTimestamp),
      check (readBoundedInteger r (lit ''ttl_seconds'') 1 300),
      check (readInteger r (lit ''sent_at''))]"

definition validateHeartbeat :: "jrecord \<Rightarrow> unit res" where
  "validateHeartbeat r = allOf
     [rejectUnknownKeys r (map lit [''type'', ''session_id'', ''sequence'', ''sent_at'']) [],
      check (readBase64URLBytes r (lit ''session_id'') 32),
      check (readBoundedInteger r (lit ''sequence'') 0 maxDraftTimestamp),
      check (readInteger r (lit ''sent_at''))]"

definition validateLookup :: "jrecord \<Rightarrow> unit res" where
  "validateLookup r = allOf
     [rejectUnknownKeys r (map lit [''type'', ''session_id'', ''peer_id'', ''sequence'']) [],
      check (readBase64URLBytes r (lit ''session_id'') 32),
      check (readBase64URLBytes r (lit ''peer_id'') 32),
      check (readBoundedInteger r (lit ''sequence'') 0 maxDraftTimestamp)]"

definition validateIdentityWant :: "jrecord \<Rightarrow> unit res" where
  "validateIdentityWant r =
     (let hasRequestID = map_of r (lit ''request_id'') \<noteq> None;
          hasOriginRelayKey = map_of r (lit ''origin_relay_key'') \<noteq> None in
      if hasRequestID \<noteq> hasOriginRelayKey then frameError ''incomplete federation request context''
      else allOf
        [if hasRequestID then allOf
           [rejectUnknownKeys r (map lit [''type'', ''session_id'', ''branch_id'', ''sequence'', ''request_id'',
              ''origin_relay_key'', ''hop_limit'']) [],
            check (readBase64URLBytes r (lit ''request_id'') 16),
            check (readBase64URLBytes r (lit ''origin_relay_key'') 32)]
         else rejectUnknownKeys r (map lit [''type'', ''session_id'', ''branch_id'', ''sequence'', ''hop_limit'']) [],
         check (readBase64URLBytes r (lit ''session_id'') 32),
         check (readBranchID r (lit ''branch_id'')),
         check (readBoundedInteger r (lit ''sequence'') 0 maxDraftTimestamp),
         check (readBoundedInteger r (lit ''hop_limit'') 0 (if hasRequestID then 1 else 4))])"

definition validateIdentityHave :: "jrecord \<Rightarrow> unit res" where
  "validateIdentityHave r = allOf
     [rejectUnknownKeys r (map lit [''type'', ''session_id'', ''branch_id'', ''sequence'', ''records'']) [],
      check (readBase64URLBytes r (lit ''session_id'') 32),
      check (readBranchID r (lit ''branch_id'')),
      check (readBoundedInteger r (lit ''sequence'') 0 maxDraftTimestamp),
      readIdentityRecords r (lit ''records'')]"

definition validateContactAnnounce :: "jrecord \<Rightarrow> unit res" where
  "validateContactAnnounce r = allOf
     [rejectUnknownKeys r (map lit [''type'', ''session_id'', ''discoverable'', ''sequence'']) [],
      check (readBase64URLBytes r (lit ''session_id'') 32),
      check (readBooleanField r (lit ''discoverable'')),
      check (readBoundedInteger r (lit ''sequence'') 0 maxDraftTimestamp)]"

definition validateContactDiscoveryLifetime :: "jrecord \<Rightarrow> unit res" where
  "validateContactDiscoveryLifetime r = validateLifetime r 60000"

definition validateContactLookup :: "jrecord \<Rightarrow> unit res" where
  "validateContactLookup r = allOf
     [rejectUnknownKeys r (map lit [''type'', ''session_id'', ''request_id'', ''branch_id'',
        ''requester_hpke_public_key'', ''issued_at'', ''expires_at'']) [],
      check (readBase64URLBytes r (lit ''session_id'') 32),
      check (readBase64URLBytes r (lit ''request_id'') 16),
      check (readBranchID r (lit ''branch_id'')),
      check (readBase64URLBytes r (lit ''requester_hpke_public_key'') 32),
      validateContactDiscoveryLifetime r]"

definition validateContactProbe :: "jrecord \<Rightarrow> unit res" where
  "validateContactProbe r = allOf
     [rejectUnknownKeys r (map lit [''type'', ''session_id'', ''request_id'', ''branch_id'', ''requester_peer_id'',
        ''requester_hpke_public_key'', ''issued_at'', ''expires_at'']) [],
      check (readBase64URLBytes r (lit ''session_id'') 32),
      check (readBase64URLBytes r (lit ''request_id'') 16),
      check (readBranchID r (lit ''branch_id'')),
      check (readBase64URLBytes r (lit ''requester_peer_id'') 32),
      check (readBase64URLBytes r (lit ''requester_hpke_public_key'') 32),
      validateContactDiscoveryLifetime r]"

definition validateRendezvous :: "(js_string \<Rightarrow> URL option) \<Rightarrow> jrecord \<Rightarrow> unit res" where
  "validateRendezvous parseUrl r = allOf
     [rejectUnknownKeys r (map lit [''type'', ''session_id'', ''route_id'', ''peer_id'', ''sequence''])
        [lit ''route_hints''],
      check (readBase64URLBytes r (lit ''session_id'') 32),
      check (readBase64URLBytes r (lit ''route_id'') 16),
      check (readBase64URLBytes r (lit ''peer_id'') 32),
      check (readBoundedInteger r (lit ''sequence'') 0 maxDraftTimestamp),
      validateRouteHints parseUrl r]"

definition validateEnvelopeFrame :: "jrecord \<Rightarrow> unit res" where
  "validateEnvelopeFrame r = allOf
     [rejectUnknownKeys r (map lit [''type'', ''session_id'', ''route_id'', ''origin_route_id'', ''path_epoch'',
        ''stream_id'', ''delivery_id'', ''ciphertext'', ''ack_requested'']) [lit ''sender_peer_id''],
      check (readBase64URLBytes r (lit ''session_id'') 32),
      check (readBase64URLBytes r (lit ''route_id'') 16),
      check (readBase64URLBytes r (lit ''origin_route_id'') 16),
      check (readBoundedInteger r (lit ''path_epoch'') 0 maxDraftTimestamp),
      check (readBoundedInteger r (lit ''stream_id'') 0 maxDraftTimestamp),
      check (readBase64URLBytes r (lit ''delivery_id'') 16),
      check (readBase64URLString r (lit ''ciphertext'') maxDraftRelayCiphertextBytes),
      if map_of r (lit ''sender_peer_id'') \<noteq> None then check (readBase64URLBytes r (lit ''sender_peer_id'') 32) else Inr (),
      check (readBooleanField r (lit ''ack_requested''))]"

definition validateAck :: "jrecord \<Rightarrow> unit res" where
  "validateAck r = allOf
     [rejectUnknownKeys r (map lit [''type'', ''session_id'', ''delivery_id'', ''ack_type'', ''durable'']) [],
      check (readBase64URLBytes r (lit ''session_id'') 32),
      check (readBase64URLBytes r (lit ''delivery_id'') 16),
      andThen (readStringField r (lit ''ack_type'') maxDraftStringBytes) (\<lambda>ackType.
        if ackType \<noteq> lit ''relay.accepted'' \<and> ackType \<noteq> lit ''relay.forwarded'' \<and> ackType \<noteq> lit ''peer.received''
        then frameError ''invalid ack_type'' else Inr ()),
      andThen (readBooleanField r (lit ''durable'')) (\<lambda>durable.
        if durable then frameError ''durable ack forbidden'' else Inr ())]"

definition validateError :: "jrecord \<Rightarrow> unit res" where
  "validateError r = allOf
     [rejectUnknownKeys r (map lit [''type'', ''code'', ''retryable'', ''detail'']) [],
      andThen (readStringField r (lit ''code'') maxDraftStringBytes) (\<lambda>code.
        if code \<notin> set protocolErrorCodes then frameError ''unknown error code'' else Inr ()),
      check (readBooleanField r (lit ''retryable'')),
      if map_of r (lit ''detail'') \<noteq> None then
        andThen (readStringField r (lit ''detail'') maxDraftStringBytes) (\<lambda>detail.
          if length detail > 256 then frameError ''detail too large'' else Inr ())
      else Inr ()]"

definition readRelayFrameType :: "jrecord \<Rightarrow> js_string \<Rightarrow> RelayFrameType res" where
  "readRelayFrameType r key =
     andThen (readStringField r key maxDraftStringBytes) (\<lambda>s.
       case map_of relayFrameTypes s of None \<Rightarrow> frameError ''unsupported frame type'' | Some t \<Rightarrow> Inr t)"

fun validateFrameFields :: "(js_string \<Rightarrow> URL option) \<Rightarrow> RelayFrameType \<Rightarrow> jrecord \<Rightarrow> unit res" where
  "validateFrameFields parseUrl HELLO r = validateHello r"
| "validateFrameFields parseUrl CHALLENGE r = validateChallenge r"
| "validateFrameFields parseUrl AUTH r = validateAuth r"
| "validateFrameFields parseUrl READY r = validateReady r"
| "validateFrameFields parseUrl PRESENCE r = validatePresence r"
| "validateFrameFields parseUrl HEARTBEAT r = validateHeartbeat r"
| "validateFrameFields parseUrl LOOKUP r = validateLookup r"
| "validateFrameFields parseUrl IDENTITY_WANT r = validateIdentityWant r"
| "validateFrameFields parseUrl IDENTITY_HAVE r = validateIdentityHave r"
| "validateFrameFields parseUrl CONTACT_ANNOUNCE r = validateContactAnnounce r"
| "validateFrameFields parseUrl CONTACT_LOOKUP r = validateContactLookup r"
| "validateFrameFields parseUrl CONTACT_PROBE r = validateContactProbe r"
| "validateFrameFields parseUrl RENDEZVOUS r = validateRendezvous parseUrl r"
| "validateFrameFields parseUrl ENVELOPE r = validateEnvelopeFrame r"
| "validateFrameFields parseUrl ACK r = validateAck r"
| "validateFrameFields parseUrl ERROR r = validateError r"

definition validateDraftRelayAttachmentFrame :: "(js_string \<Rightarrow> URL option) \<Rightarrow> json \<Rightarrow> RelayFrameType res" where
  "validateDraftRelayAttachmentFrame parseUrl v =
     (case v of
        JObject r \<Rightarrow>
          andThen (readRelayFrameType r (lit ''type'')) (\<lambda>t.
          andThen (validateFrameFields parseUrl t r) (\<lambda>_. Inr t))
      | _ \<Rightarrow> frameError ''invalid draft relay attachment frame'')"

definition decodeDraftRelayAttachmentFrameText :: "(js_string \<Rightarrow> URL option) \<Rightarrow> js_string \<Rightarrow> RelayFrameType res" where
  "decodeDraftRelayAttachmentFrameText parseUrl s =
     (if length (textEncode s) > maxDraftRelayAttachmentFrameBytes then frameError ''oversized draft relay attachment frame''
      else case jsonParse s of
          None \<Rightarrow> frameError ''invalid draft relay attachment frame''
        | Some v \<Rightarrow> validateDraftRelayAttachmentFrame parseUrl v)"

section \<open>The table\<close>

datatype shape =
    TokenOf nat
  | IntegerIn int int
  | Flag
  | FlagFalse
  | OneOf "js_string list"
  | AnyText
  | ShortText nat
  | Base64Text nat
  | BranchText
  | BeaconText
  | WrapperText
  | OrderedTexts "js_string list"
  | ListOf nat nat shape
  | ObjectOf "(js_string \<times> shape) list"
  | RouteHints

definition fieldText :: "nat \<Rightarrow> js_string \<Rightarrow> bool" where
  "fieldText n s \<longleftrightarrow> s \<noteq> [] \<and> length (textEncode s) \<le> n"

definition branchIdText :: "js_string \<Rightarrow> bool" where
  "branchIdText s \<longleftrightarrow> startsWith s (lit ''br1.'') \<and>
     (\<exists>multihash. decodeBase64URL (drop 4 s) = Inr multihash \<and> length multihash = 34
        \<and> multihash ! 0 = 0x12 \<and> multihash ! 1 = 0x20)"

definition hintFields :: "(js_string \<times> shape) list" where
  "hintFields =
     [(lit ''transport'', OneOf [lit ''wss'', lit ''ws'']), (lit ''uri'', AnyText),
      (lit ''relay_public_key'', TokenOf 32), (lit ''priority'', IntegerIn 0 maxDraftTimestamp)]"

definition hintText :: "json \<Rightarrow> js_string \<Rightarrow> js_string" where
  "hintText v key = (case v of JObject r \<Rightarrow> (case map_of r key of Some (JString s) \<Rightarrow> s | _ \<Rightarrow> []) | _ \<Rightarrow> [])"

definition hintKey :: "json \<Rightarrow> js_string" where
  "hintKey v = hintText v (lit ''transport'') @ [0] @ hintText v (lit ''uri'')"

definition hintUriOk :: "(js_string \<Rightarrow> URL option) \<Rightarrow> js_string \<Rightarrow> js_string \<Rightarrow> bool" where
  "hintUriOk parseUrl transport uri \<longleftrightarrow> length (textEncode uri) \<le> maxDraftRouteHintUriBytes \<and>
     (case parseUrl uri of None \<Rightarrow> False
      | Some u \<Rightarrow> url_protocol u = transport @ lit '':'' \<and> url_host u \<noteq> [] \<and> url_username u = [] \<and> url_password u = []
          \<and> url_hash u = [] \<and> url_pathname u = draftRelayAttachmentPath)"

fun jsonTexts :: "json list \<Rightarrow> js_string list option" where
  "jsonTexts [] = Some []"
| "jsonTexts (v # vs) = (case v of JString s \<Rightarrow> map_option (Cons s) (jsonTexts vs) | _ \<Rightarrow> None)"

fun hasShape :: "shape \<Rightarrow> json \<Rightarrow> bool" where
  "hasShape (TokenOf n) v =
     (case v of JString s \<Rightarrow> fieldText maxDraftStringBytes s \<and> (case decodeBase64URL s of Inl _ \<Rightarrow> False | Inr bs \<Rightarrow> length bs = n)
      | _ \<Rightarrow> False)"
| "hasShape (IntegerIn lower upper) v =
     (case v of JNumber (Some q) \<Rightarrow> (case safeInteger q of None \<Rightarrow> False | Some n \<Rightarrow> lower \<le> n \<and> n \<le> upper) | _ \<Rightarrow> False)"
| "hasShape Flag v = (case v of JBool _ \<Rightarrow> True | _ \<Rightarrow> False)"
| "hasShape FlagFalse v = (v = JBool False)"
| "hasShape (OneOf allowed) v = (case v of JString s \<Rightarrow> s \<in> set allowed | _ \<Rightarrow> False)"
| "hasShape AnyText v = (case v of JString s \<Rightarrow> fieldText maxDraftStringBytes s | _ \<Rightarrow> False)"
| "hasShape (ShortText n) v = (case v of JString s \<Rightarrow> fieldText maxDraftStringBytes s \<and> length s \<le> n | _ \<Rightarrow> False)"
| "hasShape (Base64Text n) v = (case v of JString s \<Rightarrow> fieldText n s \<and> succeeds (decodeBase64URL s) | _ \<Rightarrow> False)"
| "hasShape BranchText v = (case v of JString s \<Rightarrow> fieldText maxDraftStringBytes s \<and> branchIdText s | _ \<Rightarrow> False)"
| "hasShape BeaconText v =
     (case v of JString s \<Rightarrow> fieldText maxDraftStringBytes s \<and> startsWith s branchTextWrapperPrefix | _ \<Rightarrow> False)"
| "hasShape WrapperText v =
     (case v of JString s \<Rightarrow> fieldText maxDraftIdentityWrapperBytes s \<and> startsWith s branchTextWrapperPrefix | _ \<Rightarrow> False)"
| "hasShape (OrderedTexts needed) v =
     (case v of
        JArray vs \<Rightarrow>
          (case jsonTexts vs of
             None \<Rightarrow> False
           | Some ss \<Rightarrow> length ss \<le> 32 \<and> (\<forall>s \<in> set ss. fieldText maxDraftStringBytes s)
               \<and> sorted_wrt (<) ss \<and> set needed \<subseteq> set ss)
      | _ \<Rightarrow> False)"
| "hasShape (ListOf lower upper item) v =
     (case v of JArray vs \<Rightarrow> lower \<le> length vs \<and> length vs \<le> upper \<and> (\<forall>w \<in> set vs. hasShape item w) | _ \<Rightarrow> False)"
| "hasShape (ObjectOf fs) v =
     (case v of JObject r \<Rightarrow> (\<forall>f \<in> set fs. case map_of r (fst f) of None \<Rightarrow> False | Some w \<Rightarrow> hasShape (snd f) w)
          \<and> fst ` set r \<subseteq> fst ` set fs
      | _ \<Rightarrow> False)"
| "hasShape RouteHints v = False"

definition hintsOk :: "(js_string \<Rightarrow> URL option) \<Rightarrow> json \<Rightarrow> bool" where
  "hintsOk parseUrl v \<longleftrightarrow>
     (case v of
        JArray hs \<Rightarrow> hs \<noteq> [] \<and> length hs \<le> maxDraftRouteHints \<and> distinct (map hintKey hs)
          \<and> (\<forall>h \<in> set hs. hasShape (ObjectOf hintFields) h
                \<and> hintUriOk parseUrl (hintText h (lit ''transport'')) (hintText h (lit ''uri'')))
      | _ \<Rightarrow> False)"

definition fieldOk :: "(js_string \<Rightarrow> URL option) \<Rightarrow> jrecord \<Rightarrow> js_string \<times> shape \<Rightarrow> bool" where
  "fieldOk parseUrl r f \<longleftrightarrow>
     (case map_of r (fst f) of
        None \<Rightarrow> False
      | Some v \<Rightarrow> (case snd f of RouteHints \<Rightarrow> hintsOk parseUrl v | _ \<Rightarrow> hasShape (snd f) v))"

definition lifetimeOk :: "jrecord \<Rightarrow> int \<Rightarrow> bool" where
  "lifetimeOk r longest \<longleftrightarrow>
     (case (map_of r (lit ''issued_at''), map_of r (lit ''expires_at'')) of
        (Some (JNumber (Some issuedAt)), Some (JNumber (Some expiresAt))) \<Rightarrow>
          issuedAt < expiresAt \<and> expiresAt - issuedAt \<le> of_int longest
      | _ \<Rightarrow> False)"

record schema =
  sc_required :: "(string \<times> shape) list"
  sc_optional :: "(string \<times> shape) list"
  sc_lifetime :: "int option"

definition conforms :: "(js_string \<Rightarrow> URL option) \<Rightarrow> jrecord \<Rightarrow> schema \<Rightarrow> bool" where
  "conforms parseUrl r sc \<longleftrightarrow>
     (\<forall>f \<in> set (sc_required sc). fieldOk parseUrl r (lit (fst f), snd f))
     \<and> (\<forall>f \<in> set (sc_optional sc). map_of r (lit (fst f)) = None \<or> fieldOk parseUrl r (lit (fst f), snd f))
     \<and> fst ` set r \<subseteq> lit ` fst ` set (sc_required sc @ sc_optional sc)
     \<and> (case sc_lifetime sc of None \<Rightarrow> True | Some longest \<Rightarrow> lifetimeOk r longest)"

abbreviation anyTime :: shape where
  "anyTime \<equiv> IntegerIn 0 maxDraftTimestamp"

definition offerFields :: "(js_string \<times> shape) list" where
  "offerFields =
     [(lit ''wire_version'', IntegerIn 0 0), (lit ''protocol'', OneOf [protocolID]),
      (lit ''profile_multihash'', OneOf [developmentProfileMultihash]),
      (lit ''capabilities'', OrderedTexts [relayForwardLiveRole]), (lit ''required_capabilities'', OrderedTexts []),
      (lit ''extensions'', OrderedTexts []), (lit ''required_extensions'', OrderedTexts [])]"

definition limitFields :: "(js_string \<times> shape) list" where
  "limitFields =
     [(lit ''max_frame_bytes'', IntegerIn 1 49152), (lit ''max_queue_depth'', IntegerIn 1 1024),
      (lit ''max_frames_per_session'', IntegerIn 1 maxDraftTimestamp),
      (lit ''max_bytes_per_session'', IntegerIn 1 maxDraftTimestamp)]"

definition fixedSchema :: "string \<Rightarrow> (string \<times> shape) list \<Rightarrow> (string \<times> shape) list \<Rightarrow> int option \<Rightarrow> schema" where
  "fixedSchema name required optional lifetime =
     \<lparr>sc_required = (''type'', OneOf [lit name]) # required, sc_optional = optional, sc_lifetime = lifetime\<rparr>"

fun frameSchemas :: "RelayFrameType \<Rightarrow> schema list" where
  "frameSchemas HELLO =
     [fixedSchema ''HELLO''
        [(''client_nonce'', TokenOf 32), (''client_time'', anyTime), (''requested_role'', OneOf [relayForwardLiveRole]),
         (''max_frame_bytes'', IntegerIn 1 49152), (''offers'', ListOf 1 8 (ObjectOf offerFields))] [] None,
      fixedSchema ''HELLO''
        [(''client_nonce'', TokenOf 32), (''client_time'', anyTime), (''requested_role'', OneOf [relayFederationLiveRole]),
         (''relay_beacon'', BeaconText), (''max_frame_bytes'', IntegerIn 1 49152),
         (''offers'', ListOf 1 8 (ObjectOf offerFields))] [] None]"
| "frameSchemas CHALLENGE =
     [fixedSchema ''CHALLENGE''
        [(''client_nonce'', TokenOf 32), (''relay_nonce'', TokenOf 32), (''issued_at'', anyTime), (''expires_at'', anyTime),
         (''relay_public_key'', TokenOf 32), (''selected'', ObjectOf offerFields), (''transcript_hash'', TokenOf 32),
         (''relay_proof'', TokenOf 64)] [] (Some 60)]"
| "frameSchemas AUTH =
     [fixedSchema ''AUTH''
        [(''client_public_key'', TokenOf 32), (''client_nonce'', TokenOf 32), (''relay_nonce'', TokenOf 32),
         (''transcript_hash'', TokenOf 32), (''client_proof'', TokenOf 64)] [] None]"
| "frameSchemas READY =
     [fixedSchema ''READY''
        [(''session_id'', TokenOf 32), (''route_id'', TokenOf 16), (''presence_ttl_seconds'', IntegerIn 1 300),
         (''heartbeat_interval_seconds'', IntegerIn 1 60), (''accepted_limits'', ObjectOf limitFields)] [] None]"
| "frameSchemas PRESENCE =
     [fixedSchema ''PRESENCE''
        [(''session_id'', TokenOf 32), (''route_id'', TokenOf 16), (''peer_id'', TokenOf 32), (''sequence'', anyTime),
         (''ttl_seconds'', IntegerIn 1 300), (''sent_at'', anyTime)] [] None]"
| "frameSchemas HEARTBEAT =
     [fixedSchema ''HEARTBEAT'' [(''session_id'', TokenOf 32), (''sequence'', anyTime), (''sent_at'', anyTime)] [] None]"
| "frameSchemas LOOKUP =
     [fixedSchema ''LOOKUP'' [(''session_id'', TokenOf 32), (''peer_id'', TokenOf 32), (''sequence'', anyTime)] [] None]"
| "frameSchemas IDENTITY_WANT =
     [fixedSchema ''IDENTITY_WANT''
        [(''session_id'', TokenOf 32), (''branch_id'', BranchText), (''sequence'', anyTime), (''hop_limit'', IntegerIn 0 4)] [] None,
      fixedSchema ''IDENTITY_WANT''
        [(''session_id'', TokenOf 32), (''branch_id'', BranchText), (''sequence'', anyTime), (''request_id'', TokenOf 16),
         (''origin_relay_key'', TokenOf 32), (''hop_limit'', IntegerIn 0 1)] [] None]"
| "frameSchemas IDENTITY_HAVE =
     [fixedSchema ''IDENTITY_HAVE''
        [(''session_id'', TokenOf 32), (''branch_id'', BranchText), (''sequence'', anyTime),
         (''records'', ListOf 0 4 WrapperText)] [] None]"
| "frameSchemas CONTACT_ANNOUNCE =
     [fixedSchema ''CONTACT_ANNOUNCE'' [(''session_id'', TokenOf 32), (''discoverable'', Flag), (''sequence'', anyTime)] [] None]"
| "frameSchemas CONTACT_LOOKUP =
     [fixedSchema ''CONTACT_LOOKUP''
        [(''session_id'', TokenOf 32), (''request_id'', TokenOf 16), (''branch_id'', BranchText),
         (''requester_hpke_public_key'', TokenOf 32), (''issued_at'', anyTime), (''expires_at'', anyTime)] [] (Some 60000)]"
| "frameSchemas CONTACT_PROBE =
     [fixedSchema ''CONTACT_PROBE''
        [(''session_id'', TokenOf 32), (''request_id'', TokenOf 16), (''branch_id'', BranchText),
         (''requester_peer_id'', TokenOf 32), (''requester_hpke_public_key'', TokenOf 32), (''issued_at'', anyTime),
         (''expires_at'', anyTime)] [] (Some 60000)]"
| "frameSchemas RENDEZVOUS =
     [fixedSchema ''RENDEZVOUS''
        [(''session_id'', TokenOf 32), (''route_id'', TokenOf 16), (''peer_id'', TokenOf 32), (''sequence'', anyTime)]
        [(''route_hints'', RouteHints)] None]"
| "frameSchemas ENVELOPE =
     [fixedSchema ''ENVELOPE''
        [(''session_id'', TokenOf 32), (''route_id'', TokenOf 16), (''origin_route_id'', TokenOf 16), (''path_epoch'', anyTime),
         (''stream_id'', anyTime), (''delivery_id'', TokenOf 16), (''ciphertext'', Base64Text maxDraftRelayCiphertextBytes),
         (''ack_requested'', Flag)]
        [(''sender_peer_id'', TokenOf 32)] None]"
| "frameSchemas ACK =
     [fixedSchema ''ACK''
        [(''session_id'', TokenOf 32), (''delivery_id'', TokenOf 16),
         (''ack_type'', OneOf (map lit [''relay.accepted'', ''relay.forwarded'', ''peer.received''])),
         (''durable'', FlagFalse)] [] None]"
| "frameSchemas ERROR =
     [fixedSchema ''ERROR''
        [(''code'', OneOf protocolErrorCodes), (''retryable'', Flag), (''detail'', ShortText 256)] [] None]"

section \<open>The readers in terms of shapes\<close>

lemma requireKeys_Inr: "requireKeys r keys = Inr u \<longleftrightarrow> (\<forall>k \<in> set keys. map_of r k \<noteq> None)"
  by (induction keys) (auto simp: missingField_def)

lemma refuseKeys_Inr: "refuseKeys r known = Inr u \<longleftrightarrow> fst ` set r \<subseteq> set known"
  by (induction r known rule: refuseKeys.induct) auto

lemma rejectUnknownKeys_Inr [res_simps]:
  "rejectUnknownKeys r keys opts = Inr u \<longleftrightarrow> (\<forall>k \<in> set keys. map_of r k \<noteq> None) \<and> fst ` set r \<subseteq> set keys \<union> set opts"
  by (auto simp: rejectUnknownKeys_def res_simps requireKeys_Inr refuseKeys_Inr)

lemma readStringField_Inr [res_simps]:
  "readStringField r key n = Inr s \<longleftrightarrow> map_of r key = Some (JString s) \<and> fieldText n s"
  by (auto simp: readStringField_def invalidField_def fieldText_def split: option.splits json.splits)

lemma readBoundedInteger_Inr [res_simps]:
  "readBoundedInteger r key lower upper = Inr n
   \<longleftrightarrow> map_of r key = Some (jint n) \<and> isSafeInteger n \<and> lower \<le> n \<and> n \<le> upper"
  by (auto simp: readBoundedInteger_def invalidField_def safeInteger_Some split: option.splits json.splits)

lemma readBooleanField_Inr [res_simps]: "readBooleanField r key = Inr b \<longleftrightarrow> map_of r key = Some (JBool b)"
  by (auto simp: readBooleanField_def invalidField_def split: option.splits json.splits)

lemma readObject_Inr [res_simps]: "readObject r key = Inr fs \<longleftrightarrow> map_of r key = Some (JObject fs)"
  by (auto simp: readObject_def missingField_def split: option.splits json.splits)

lemma case_succeeds: "(case m of Inl _ \<Rightarrow> invalidField key | Inr _ \<Rightarrow> Inr t) = Inr s \<longleftrightarrow> succeeds m \<and> t = s"
  by (cases m) (simp_all add: invalidField_def)

lemma readBase64URLString_Inr [res_simps]:
  "readBase64URLString r key n = Inr s \<longleftrightarrow> map_of r key = Some (JString s) \<and> fieldText n s \<and> succeeds (decodeBase64URL s)"
  by (auto simp: readBase64URLString_def res_simps case_succeeds)

lemma readBase64URLBytes_Inr [res_simps]:
  "readBase64URLBytes r key n = Inr s \<longleftrightarrow> map_of r key = Some (JString s) \<and> fieldText maxDraftStringBytes s
     \<and> (\<exists>bs. decodeBase64URL s = Inr bs \<and> length bs = n)"
  by (auto simp: readBase64URLBytes_def res_simps invalidField_def succeeds_iff)

lemma check_Inr [res_simps]: "check m = Inr u \<longleftrightarrow> succeeds m"
  by (cases m) (simp_all add: check_def)

lemma succeeds_check [simp]: "succeeds (check m) = succeeds m"
  by (cases m) (simp_all add: check_def)

lemma succeeds_allOf [simp]: "succeeds (allOf ms) \<longleftrightarrow> (\<forall>m \<in> set ms. succeeds m)"
proof (induction ms)
  case (Cons m ms)
  then show ?case by (cases m) simp_all
qed simp

lemma succeeds_keys:
  "succeeds (rejectUnknownKeys r keys opts) \<longleftrightarrow> (\<forall>k \<in> set keys. map_of r k \<noteq> None) \<and> fst ` set r \<subseteq> set keys \<union> set opts"
  by (simp add: succeeds_iff res_simps)

lemma fieldOk_rules:
  "succeeds (readBase64URLBytes r k n) \<longleftrightarrow> fieldOk parseUrl r (k, TokenOf n)"
  "succeeds (readBoundedInteger r k lower upper) \<longleftrightarrow> fieldOk parseUrl r (k, IntegerIn lower upper)"
  "succeeds (readInteger r k) \<longleftrightarrow> fieldOk parseUrl r (k, anyTime)"
  "succeeds (readBooleanField r k) \<longleftrightarrow> fieldOk parseUrl r (k, Flag)"
  "succeeds (readBase64URLString r k n) \<longleftrightarrow> fieldOk parseUrl r (k, Base64Text n)"
  unfolding succeeds_iff readInteger_def
  by (auto simp: res_simps fieldOk_def safeInteger_Some succeeds_iff
      split: option.splits json.splits sum.splits)


lemma fieldOk_objectOf:
  "fieldOk parseUrl r f \<longleftrightarrow> (case map_of r (fst f) of None \<Rightarrow> False | Some v \<Rightarrow> hasShape (snd f) v)" if "snd f \<noteq> RouteHints"
  using that by (auto simp: fieldOk_def split: option.splits shape.splits)

lemma hasShape_ObjectOf:
  assumes "\<forall>f \<in> set fs. snd f \<noteq> RouteHints"
  shows "hasShape (ObjectOf fs) (JObject r) \<longleftrightarrow> (\<forall>f \<in> set fs. fieldOk parseUrl r f) \<and> fst ` set r \<subseteq> fst ` set fs"
  using assms by (simp add: fieldOk_objectOf)

lemma fieldOk_present: "fieldOk parseUrl r f \<Longrightarrow> map_of r (fst f) \<noteq> None"
  by (cases "map_of r (fst f)") (simp_all add: fieldOk_def)

lemma succeeds_andThen: "succeeds (andThen m f) \<longleftrightarrow> (\<exists>x. m = Inr x \<and> succeeds (f x))"
  by (cases m) simp_all

lemma succeeds_throw [simp]:
  "\<not> succeeds (invalidField k)"
  "succeeds (if P then Inl e else m) \<longleftrightarrow> \<not> P \<and> succeeds m"
  "succeeds (if P then invalidField k else m) \<longleftrightarrow> \<not> P \<and> succeeds m"
  by (simp_all add: invalidField_def)

lemma succeeds_string:
  "succeeds (andThen (readStringField r k n) f) \<longleftrightarrow> (\<exists>s. map_of r k = Some (JString s) \<and> fieldText n s \<and> succeeds (f s))"
  by (simp add: succeeds_andThen readStringField_Inr conj_assoc)

lemma fieldOk_oneOf:
  assumes "\<forall>s \<in> set allowed. fieldText maxDraftStringBytes s" "\<And>s. P s \<longleftrightarrow> s \<notin> set allowed"
  shows "succeeds (andThen (readStringField r k maxDraftStringBytes) (\<lambda>s. if P s then Inl e else Inr x))
    \<longleftrightarrow> fieldOk parseUrl r (k, OneOf allowed)"
  using assms by (auto simp: succeeds_string fieldOk_def split: option.splits json.splits)

lemma fieldText_lit: "asciiString s \<Longrightarrow> s \<noteq> [] \<Longrightarrow> length s \<le> 1024 \<Longrightarrow> fieldText maxDraftStringBytes (lit s)"
  by (simp add: fieldText_def textEncode_lit maxDraftStringBytes_def)

lemma fieldOk_branchID: "succeeds (readBranchID r k) \<longleftrightarrow> fieldOk parseUrl r (k, BranchText)"
proof -
  have "succeeds (if \<not> startsWith s (lit ''br1.'') then invalidField k
      else (case decodeBase64URL (drop 4 s) of Inl _ \<Rightarrow> invalidField k
        | Inr multihash \<Rightarrow> if length multihash \<noteq> 34 \<or> multihash ! 0 \<noteq> 0x12 \<or> multihash ! 1 \<noteq> 0x20
            then invalidField k else Inr s)) \<longleftrightarrow> branchIdText s" for s
    by (auto simp: branchIdText_def invalidField_def split: sum.splits)
  then show ?thesis
    by (auto simp: readBranchID_def succeeds_string fieldOk_def split: option.splits json.splits)
qed

lemma fieldOk_bootstrap: "succeeds (readBootstrapWrapper r k) \<longleftrightarrow> fieldOk parseUrl r (k, BeaconText)"
  by (auto simp: readBootstrapWrapper_def succeeds_string fieldOk_def invalidField_def fieldText_def maxDraftStringBytes_def
      maxDraftIdentityWrapperBytes_def split: option.splits json.splits)

lemma readIdentityItems_Inr: "succeeds (readIdentityItems k vs) \<longleftrightarrow> (\<forall>v \<in> set vs. hasShape WrapperText v)"
  by (induction k vs rule: readIdentityItems.induct) (auto simp: invalidField_def fieldText_def split: json.splits)

lemma fieldOk_records: "succeeds (readIdentityRecords r k) \<longleftrightarrow> fieldOk parseUrl r (k, ListOf 0 4 WrapperText)"
  by (auto simp: readIdentityRecords_def fieldOk_def readIdentityItems_Inr maxDraftIdentityRecords_def invalidField_def
      simp del: hasShape.simps(10) split: option.splits json.splits)

lemma orderedUniqueItems_Inr:
  assumes "seen = [] \<and> previous = [] \<or> previous \<in> set seen \<and> (\<forall>x \<in> set seen. x \<le> previous)"
  shows "orderedUniqueItems k vs seen previous = Inr out \<longleftrightarrow>
    (\<exists>ss. jsonTexts vs = Some ss \<and> out = rev seen @ ss \<and> (\<forall>s \<in> set ss. fieldText maxDraftStringBytes s)
       \<and> sorted_wrt (<) ss \<and> (seen = [] \<or> (\<forall>s \<in> set ss. previous < s)))"
  using assms
proof (induction k vs seen previous rule: orderedUniqueItems.induct)
  case (2 k item items seen previous)
  show ?case
  proof (cases item)
    case (JString s)
    have order: "(s \<in> set seen \<or> s < previous) \<longleftrightarrow> \<not> (seen = [] \<or> previous < s)"
      using 2(2) by (auto simp: not_less)
    show ?thesis
    proof (cases "fieldText maxDraftStringBytes s \<and> (seen = [] \<or> previous < s)")
      case True
      then have step: "orderedUniqueItems k (item # items) seen previous = orderedUniqueItems k items (s # seen) s"
        using order by (auto simp: JString fieldText_def)
      have "orderedUniqueItems k items (s # seen) s = Inr out \<longleftrightarrow>
        (\<exists>ss. jsonTexts items = Some ss \<and> out = rev (s # seen) @ ss \<and> (\<forall>s \<in> set ss. fieldText maxDraftStringBytes s)
           \<and> sorted_wrt (<) ss \<and> (s # seen = [] \<or> (\<forall>t \<in> set ss. s < t)))"
        using 2(2) True order by (intro 2(1) [OF JString]) (auto simp: fieldText_def)
      then show ?thesis
        unfolding step using True less_trans [of previous s] by (cases "jsonTexts items") (auto simp: JString)
    next
      case False
      have "orderedUniqueItems k (item # items) seen previous = invalidField k"
        using False by (simp add: JString order fieldText_def) linarith
      moreover have "\<not> (\<exists>ss. jsonTexts (item # items) = Some ss \<and> (\<forall>t \<in> set ss. fieldText maxDraftStringBytes t)
          \<and> (seen = [] \<or> (\<forall>t \<in> set ss. previous < t)))"
        using False by (auto simp: JString)
      ultimately show ?thesis by (auto simp: invalidField_def)
    qed
  qed (simp_all add: invalidField_def)
qed auto

lemma readOrderedUniqueStrings_Inr:
  "readOrderedUniqueStrings r k 32 = Inr ss \<longleftrightarrow> (\<exists>vs. map_of r k = Some (JArray vs) \<and> jsonTexts vs = Some ss \<and> length vs \<le> 32
     \<and> (\<forall>s \<in> set ss. fieldText maxDraftStringBytes s) \<and> sorted_wrt (<) ss)"
  using orderedUniqueItems_Inr [of "[]" "[]" k]
  by (auto simp: readOrderedUniqueStrings_def invalidField_def split: option.splits json.splits)

lemma jsonTexts_length: "jsonTexts vs = Some ss \<Longrightarrow> length ss = length vs"
  by (induction vs arbitrary: ss) (auto split: json.splits)

lemma fieldOk_ordered:
  "succeeds (andThen (readOrderedUniqueStrings r k 32) (\<lambda>ss. if c \<notin> set ss then Inl e else m)) \<longleftrightarrow>
     fieldOk parseUrl r (k, OrderedTexts [c]) \<and> succeeds m"
  "succeeds (readOrderedUniqueStrings r k 32) \<longleftrightarrow> fieldOk parseUrl r (k, OrderedTexts [])"
  by (auto simp: succeeds_andThen succeeds_iff [of "readOrderedUniqueStrings r k 32"] readOrderedUniqueStrings_Inr fieldOk_def dest: jsonTexts_length split: option.splits json.splits)
     (metis jsonTexts_length)+


section \<open>Version offers and route hints\<close>

lemma fieldOk_literal:
  assumes "fieldText maxDraftStringBytes c"
  shows "succeeds (andThen (readStringField r k maxDraftStringBytes) (\<lambda>s. if s \<noteq> c then Inl e else m))
    \<longleftrightarrow> fieldOk parseUrl r (k, OneOf [c]) \<and> succeeds m"
  using assms by (auto simp: succeeds_string fieldOk_def split: option.splits json.splits)

lemma constant_texts:
  "fieldText maxDraftStringBytes protocolID" "fieldText maxDraftStringBytes developmentProfileMultihash"
  "fieldText maxDraftStringBytes relayForwardLiveRole" "fieldText maxDraftStringBytes relayFederationLiveRole"
  by (simp_all add: protocolID_def developmentProfileMultihash_def relayForwardLiveRole_def relayFederationLiveRole_def
      fieldText_lit asciiString_def)

lemma fieldOk_zero:
  "succeeds (andThen (readBoundedInteger r k 0 maxDraftTimestamp) (\<lambda>n. if n \<noteq> 0 then Inl e else m))
    \<longleftrightarrow> fieldOk parseUrl r (k, IntegerIn 0 0) \<and> succeeds m"
  by (auto simp: succeeds_andThen readBoundedInteger_Inr fieldOk_def safeInteger_Some maxDraftTimestamp_def maxSafeInteger_def
      isSafeInteger_def split: option.splits json.splits)

lemma succeeds_then: "succeeds (andThen m (\<lambda>_. m')) \<longleftrightarrow> succeeds m \<and> succeeds m'"
  by (cases m) simp_all

lemma readVersionOffer_shape: "succeeds (readVersionOffer v) \<longleftrightarrow> hasShape (ObjectOf offerFields) v"
proof (cases v)
  case (JObject r)
  have "hasShape (ObjectOf offerFields) (JObject r) \<longleftrightarrow>
      (\<forall>f \<in> set offerFields. fieldOk (\<lambda>_. None) r f) \<and> fst ` set r \<subseteq> fst ` set offerFields"
    by (rule hasShape_ObjectOf) (simp add: offerFields_def)
  moreover have "succeeds (readVersionOffer (JObject r)) \<longleftrightarrow>
      (\<forall>f \<in> set offerFields. fieldOk (\<lambda>_. None) r f) \<and> fst ` set r \<subseteq> fst ` set offerFields"
    unfolding readVersionOffer_def json.case succeeds_then succeeds_keys fieldOk_literal [OF constant_texts(1), where parseUrl = "\<lambda>_. None"]
      fieldOk_literal [OF constant_texts(2), where parseUrl = "\<lambda>_. None"] fieldOk_zero [where parseUrl = "\<lambda>_. None"]
      fieldOk_ordered [where parseUrl = "\<lambda>_. None"]
    using fieldOk_present [of "\<lambda>_. None" r] by (auto simp: offerFields_def)
  ultimately show ?thesis using JObject by simp
qed (simp_all add: readVersionOffer_def)


lemma succeeds_mapRes: "succeeds (mapRes f xs) \<longleftrightarrow> (\<forall>x \<in> set xs. succeeds (f x))"
proof (induction xs)
  case (Cons x xs)
  then show ?case by (cases "f x"; cases "mapRes f xs") auto
qed simp

lemma fieldOk_offers: "succeeds (readVersionOffers r k) \<longleftrightarrow> fieldOk parseUrl r (k, ListOf 1 8 (ObjectOf offerFields))"
  by (auto simp: readVersionOffers_def fieldOk_def succeeds_then succeeds_mapRes readVersionOffer_shape Suc_le_eq
      simp del: hasShape.simps(14) split: option.splits json.splits)

lemma objectOf_object: "hasShape (ObjectOf fs) v \<Longrightarrow> \<exists>r. v = JObject r"
  by (cases v) simp_all

lemma fieldOk_selected:
  "succeeds (andThen (readObject r k) (\<lambda>selected. readVersionOffer (JObject selected))) \<longleftrightarrow> fieldOk parseUrl r (k, ObjectOf offerFields)"
  using objectOf_object [of offerFields]
  by (fastforce simp: succeeds_andThen readObject_Inr readVersionOffer_shape fieldOk_def
      simp del: hasShape.simps(14) split: option.splits)

lemma validateRouteHintUri_ok: "succeeds (validateRouteHintUri parseUrl transport uri) \<longleftrightarrow> hintUriOk parseUrl transport uri"
  by (auto simp: validateRouteHintUri_def hintUriOk_def split: option.splits)

lemma hint_shape:
  "hasShape (ObjectOf hintFields) (JObject h) \<longleftrightarrow>
     (\<forall>f \<in> set hintFields. fieldOk parseUrl h f) \<and> fst ` set h \<subseteq> fst ` set hintFields"
  by (rule hasShape_ObjectOf) (simp add: hintFields_def)

lemma hintText_simps: "map_of h key = Some (JString s) \<Longrightarrow> hintText (JObject h) key = s"
  by (simp add: hintText_def)

definition hintOk :: "(js_string \<Rightarrow> URL option) \<Rightarrow> json \<Rightarrow> bool" where
  "hintOk parseUrl h \<longleftrightarrow> hasShape (ObjectOf hintFields) h
     \<and> hintUriOk parseUrl (hintText h (lit ''transport'')) (hintText h (lit ''uri''))"

lemma validateHints_step:
  "succeeds (validateHints parseUrl seen (hint # hints)) \<longleftrightarrow>
     hintOk parseUrl hint \<and> hintKey hint \<notin> set seen \<and> succeeds (validateHints parseUrl (hintKey hint # seen) hints)"
proof (cases hint)
  case (JObject h)
  have shape: "hasShape (ObjectOf hintFields) (JObject h) \<longleftrightarrow>
      succeeds (rejectUnknownKeys h (map lit [''transport'', ''uri'', ''relay_public_key'', ''priority'']) [])
      \<and> fieldOk parseUrl h (lit ''transport'', OneOf [lit ''wss'', lit ''ws'']) \<and> fieldOk parseUrl h (lit ''uri'', AnyText)
      \<and> fieldOk parseUrl h (lit ''relay_public_key'', TokenOf 32) \<and> fieldOk parseUrl h (lit ''priority'', anyTime)"
    unfolding hint_shape [of h parseUrl] succeeds_keys using fieldOk_present [of parseUrl h] by (auto simp: hintFields_def)
  have transport: "fieldOk parseUrl h (lit ''transport'', OneOf [lit ''wss'', lit ''ws'']) \<longleftrightarrow>
      (\<exists>t. map_of h (lit ''transport'') = Some (JString t) \<and> fieldText maxDraftStringBytes t \<and> (t = lit ''wss'' \<or> t = lit ''ws''))"
    using fieldText_lit [of "''wss''"] fieldText_lit [of "''ws''"]
    by (auto simp: fieldOk_def asciiString_def split: option.splits json.splits)
  have uri: "fieldOk parseUrl h (lit ''uri'', AnyText) \<longleftrightarrow>
      (\<exists>u. map_of h (lit ''uri'') = Some (JString u) \<and> fieldText maxDraftStringBytes u)"
    by (auto simp: fieldOk_def split: option.splits json.splits)
  show ?thesis
    unfolding hintOk_def JObject shape transport uri validateHints.simps json.case succeeds_then succeeds_string Let_def
      fieldOk_rules [where parseUrl = parseUrl] validateRouteHintUri_ok
    by (auto simp: hintKey_def hintText_simps succeeds_string succeeds_then fieldOk_rules [where parseUrl = parseUrl]
        validateRouteHintUri_ok)
qed (simp_all add: hintOk_def)

lemma validateHints_ok:
  "succeeds (validateHints parseUrl seen hs) \<longleftrightarrow>
     (\<forall>h \<in> set hs. hintOk parseUrl h) \<and> distinct (map hintKey hs) \<and> set seen \<inter> hintKey ` set hs = {}"
proof (induction hs arbitrary: seen)
  case (Cons h hs)
  then show ?case unfolding validateHints_step by auto
qed simp

lemma fieldOk_hints:
  "succeeds (validateRouteHints parseUrl r) \<longleftrightarrow>
     map_of r (lit ''route_hints'') = None \<or> fieldOk parseUrl r (lit ''route_hints'', RouteHints)"
  by (auto simp: validateRouteHints_def fieldOk_def hintsOk_def validateHints_ok hintOk_def
      simp del: hasShape.simps(14) split: option.splits json.splits)


section \<open>Every frame\<close>

definition frameName :: "RelayFrameType \<Rightarrow> string" where
  "frameName t =
     (case t of
        HELLO \<Rightarrow> ''HELLO'' | CHALLENGE \<Rightarrow> ''CHALLENGE'' | AUTH \<Rightarrow> ''AUTH'' | READY \<Rightarrow> ''READY'' | PRESENCE \<Rightarrow> ''PRESENCE''
      | HEARTBEAT \<Rightarrow> ''HEARTBEAT'' | LOOKUP \<Rightarrow> ''LOOKUP'' | IDENTITY_WANT \<Rightarrow> ''IDENTITY_WANT''
      | IDENTITY_HAVE \<Rightarrow> ''IDENTITY_HAVE'' | CONTACT_ANNOUNCE \<Rightarrow> ''CONTACT_ANNOUNCE''
      | CONTACT_LOOKUP \<Rightarrow> ''CONTACT_LOOKUP'' | CONTACT_PROBE \<Rightarrow> ''CONTACT_PROBE'' | RENDEZVOUS \<Rightarrow> ''RENDEZVOUS''
      | ENVELOPE \<Rightarrow> ''ENVELOPE'' | ACK \<Rightarrow> ''ACK'' | ERROR \<Rightarrow> ''ERROR'')"

abbreviation typed :: "(js_string \<Rightarrow> URL option) \<Rightarrow> jrecord \<Rightarrow> string \<Rightarrow> bool" where
  "typed parseUrl r name \<equiv> fieldOk parseUrl r (lit ''type'', OneOf [lit name])"

lemma readRelayFrameType_Inr:
  "readRelayFrameType r (lit ''type'') = Inr t \<longleftrightarrow> typed parseUrl r (frameName t)"
proof -
  have names: "map_of relayFrameTypes s = Some t \<longleftrightarrow> s = lit (frameName t)" for s
    by (cases t) (auto simp: relayFrameTypes_def frameName_def)
  have "fieldText maxDraftStringBytes (lit (frameName t))"
    by (cases t) (simp_all add: frameName_def fieldText_lit asciiString_def)
  moreover have "(case x of None \<Rightarrow> Inl e | Some t \<Rightarrow> Inr t) = Inr t \<longleftrightarrow> x = Some t" for x :: "RelayFrameType option" and e :: js_error
    by (cases x) simp_all
  ultimately show ?thesis
    by (auto simp: names readRelayFrameType_def res_simps fieldOk_def split: option.splits json.splits)
qed

text \<open>A frame whose fields have their shapes has the keys the validator asks for.\<close>

lemma fixed_conforms:
  assumes "lit ` set keys = lit ` insert ''type'' (fst ` set required)" "lit ` set opts = lit ` fst ` set optional"
  shows "conforms parseUrl r (fixedSchema name required optional lifetime) \<longleftrightarrow>
    typed parseUrl r name \<and> succeeds (rejectUnknownKeys r (map lit keys) (map lit opts))
    \<and> (\<forall>f \<in> set required. fieldOk parseUrl r (lit (fst f), snd f))
    \<and> (\<forall>f \<in> set optional. map_of r (lit (fst f)) = None \<or> fieldOk parseUrl r (lit (fst f), snd f))
    \<and> (case lifetime of None \<Rightarrow> True | Some longest \<Rightarrow> lifetimeOk r longest)"
proof -
  have keys: "lit ` fst ` set (sc_required (fixedSchema name required optional lifetime) @ sc_optional (fixedSchema name required optional lifetime))
      = set (map lit keys) \<union> set (map lit opts)"
    using assms by (auto simp: fixedSchema_def)
  have present: "\<forall>k \<in> set (map lit keys). map_of r k \<noteq> None"
    if ok: "typed parseUrl r name" "\<forall>f \<in> set required. fieldOk parseUrl r (lit (fst f), snd f)"
  proof
    fix k assume "k \<in> set (map lit keys)"
    then consider "k = lit ''type''" | f where "f \<in> set required" "k = lit (fst f)"
      using assms(1) by auto
    then show "map_of r k \<noteq> None"
      using ok fieldOk_present [of parseUrl r] by cases (metis fst_conv)+
  qed
  show ?thesis
    unfolding conforms_def keys succeeds_keys using present by (auto simp: fixedSchema_def)
qed

lemma validateLifetime_ok:
  "succeeds (validateLifetime r longest) \<longleftrightarrow>
     fieldOk parseUrl r (lit ''issued_at'', anyTime) \<and> fieldOk parseUrl r (lit ''expires_at'', anyTime) \<and> lifetimeOk r longest"
proof -
  have "of_int e - of_int i \<le> (of_int longest :: rat) \<longleftrightarrow> e - i \<le> longest" for e i
    by (metis of_int_diff of_int_le_iff)
  then show ?thesis
    by (auto simp: validateLifetime_def succeeds_andThen readInteger_def readBoundedInteger_Inr fieldOk_def lifetimeOk_def
        safeInteger_Some split: option.splits json.splits)
qed

lemma limit_shape:
  "hasShape (ObjectOf limitFields) (JObject h) \<longleftrightarrow>
     (\<forall>f \<in> set limitFields. fieldOk parseUrl h f) \<and> fst ` set h \<subseteq> fst ` set limitFields"
  by (rule hasShape_ObjectOf) (simp add: limitFields_def)

lemma succeeds_limits:
  "succeeds (andThen (readObject r k) (\<lambda>limits. allOf
     [rejectUnknownKeys limits (map lit [''max_frame_bytes'', ''max_queue_depth'', ''max_frames_per_session'', ''max_bytes_per_session'']) [],
      check (readBoundedInteger limits (lit ''max_frame_bytes'') 1 49152),
      check (readBoundedInteger limits (lit ''max_queue_depth'') 1 1024),
      check (readBoundedInteger limits (lit ''max_frames_per_session'') 1 maxDraftTimestamp),
      check (readBoundedInteger limits (lit ''max_bytes_per_session'') 1 maxDraftTimestamp)]))
   \<longleftrightarrow> fieldOk parseUrl r (k, ObjectOf limitFields)" (is "?lhs \<longleftrightarrow> _")
proof -
  have limits: "(\<forall>f \<in> set limitFields. fieldOk parseUrl o' f) \<and> fst ` set o' \<subseteq> fst ` set limitFields \<longleftrightarrow>
     succeeds (rejectUnknownKeys o' (map lit [''max_frame_bytes'', ''max_queue_depth'', ''max_frames_per_session'', ''max_bytes_per_session'']) [])
     \<and> (\<forall>f \<in> set limitFields. fieldOk parseUrl o' f)" for o'
    unfolding succeeds_keys using fieldOk_present [of parseUrl o'] by (auto simp: limitFields_def)
  have "?lhs \<longleftrightarrow> (\<exists>o'. map_of r k = Some (JObject o') \<and> hasShape (ObjectOf limitFields) (JObject o'))"
    unfolding succeeds_andThen readObject_Inr succeeds_allOf limit_shape [where parseUrl = parseUrl] limits
    by (simp add: limitFields_def fieldOk_rules [where parseUrl = parseUrl])
  also have "\<dots> \<longleftrightarrow> fieldOk parseUrl r (k, ObjectOf limitFields)"
    using objectOf_object [of limitFields] by (fastforce simp: fieldOk_def simp del: hasShape.simps(14) split: option.splits)
  finally show ?thesis .
qed

lemmas checkRules = succeeds_allOf succeeds_check succeeds_then

lemmas frameRules = fieldOk_rules fieldOk_branchID fieldOk_bootstrap
  fieldOk_records fieldOk_offers fieldOk_selected succeeds_limits fieldOk_hints


lemma fieldOk_durable:
  "succeeds (andThen (readBooleanField r k) (\<lambda>b. if b then Inl e else Inr ())) \<longleftrightarrow> fieldOk parseUrl r (k, FlagFalse)"
  by (auto simp: succeeds_andThen readBooleanField_Inr fieldOk_def split: option.splits json.splits)

lemma fieldOk_ackType:
  "succeeds (andThen (readStringField r k maxDraftStringBytes) (\<lambda>ackType.
     if ackType \<noteq> lit ''relay.accepted'' \<and> ackType \<noteq> lit ''relay.forwarded'' \<and> ackType \<noteq> lit ''peer.received''
     then Inl e else Inr ())) \<longleftrightarrow> fieldOk parseUrl r (k, OneOf [lit ''relay.accepted'', lit ''relay.forwarded'', lit ''peer.received''])"
  by (intro fieldOk_oneOf) (auto simp: fieldText_lit asciiString_def)

lemma fieldOk_errorCode:
  "succeeds (andThen (readStringField r k maxDraftStringBytes) (\<lambda>code. if code \<notin> set protocolErrorCodes then Inl e else Inr ()))
    \<longleftrightarrow> fieldOk parseUrl r (k, OneOf protocolErrorCodes)"
  by (intro fieldOk_oneOf) (auto simp: protocolErrorCodes_def fieldText_lit asciiString_def)

lemma fieldOk_detail:
  "succeeds (andThen (readStringField r k maxDraftStringBytes) (\<lambda>s. if length s > 256 then Inl e else Inr ()))
    \<longleftrightarrow> fieldOk parseUrl r (k, ShortText 256)"
  by (auto simp: succeeds_string fieldOk_def split: option.splits json.splits)

lemma frame_CHALLENGE:
  "typed parseUrl r ''CHALLENGE'' \<and> succeeds (validateChallenge r) \<longleftrightarrow> (\<exists>sc \<in> set (frameSchemas CHALLENGE). conforms parseUrl r sc)"
  by (simp add: validateChallenge_def checkRules validateLifetime_ok [where parseUrl = parseUrl] frameRules [where parseUrl = parseUrl]
      fixed_conforms [where keys = "[''type'', ''client_nonce'', ''relay_nonce'', ''issued_at'', ''expires_at'', ''relay_public_key'', ''selected'', ''transcript_hash'', ''relay_proof'']" and opts = "[]"] del: allOf.simps) blast

lemma frame_AUTH:
  "typed parseUrl r ''AUTH'' \<and> succeeds (validateAuth r) \<longleftrightarrow> (\<exists>sc \<in> set (frameSchemas AUTH). conforms parseUrl r sc)"
  by (simp add: validateAuth_def checkRules frameRules [where parseUrl = parseUrl]
      fixed_conforms [where keys = "[''type'', ''client_public_key'', ''client_nonce'', ''relay_nonce'', ''transcript_hash'', ''client_proof'']" and opts = "[]"] conj_ac del: allOf.simps)

lemma frame_READY:
  "typed parseUrl r ''READY'' \<and> succeeds (validateReady r) \<longleftrightarrow> (\<exists>sc \<in> set (frameSchemas READY). conforms parseUrl r sc)"
  by (simp add: validateReady_def checkRules frameRules [where parseUrl = parseUrl]
      succeeds_limits [where parseUrl = parseUrl, unfolded list.map]
      fixed_conforms [where keys = "[''type'', ''session_id'', ''route_id'', ''presence_ttl_seconds'', ''heartbeat_interval_seconds'', ''accepted_limits'']" and opts = "[]"] conj_ac del: allOf.simps)

lemma frame_PRESENCE:
  "typed parseUrl r ''PRESENCE'' \<and> succeeds (validatePresence r) \<longleftrightarrow> (\<exists>sc \<in> set (frameSchemas PRESENCE). conforms parseUrl r sc)"
  by (simp add: validatePresence_def checkRules frameRules [where parseUrl = parseUrl]
      fixed_conforms [where keys = "[''type'', ''session_id'', ''route_id'', ''peer_id'', ''sequence'', ''ttl_seconds'', ''sent_at'']" and opts = "[]"] conj_ac del: allOf.simps)

lemma frame_HEARTBEAT:
  "typed parseUrl r ''HEARTBEAT'' \<and> succeeds (validateHeartbeat r) \<longleftrightarrow> (\<exists>sc \<in> set (frameSchemas HEARTBEAT). conforms parseUrl r sc)"
  by (simp add: validateHeartbeat_def checkRules frameRules [where parseUrl = parseUrl]
      fixed_conforms [where keys = "[''type'', ''session_id'', ''sequence'', ''sent_at'']" and opts = "[]"] conj_ac del: allOf.simps)

lemma frame_LOOKUP:
  "typed parseUrl r ''LOOKUP'' \<and> succeeds (validateLookup r) \<longleftrightarrow> (\<exists>sc \<in> set (frameSchemas LOOKUP). conforms parseUrl r sc)"
  by (simp add: validateLookup_def checkRules frameRules [where parseUrl = parseUrl]
      fixed_conforms [where keys = "[''type'', ''session_id'', ''peer_id'', ''sequence'']" and opts = "[]"] conj_ac del: allOf.simps)

lemma frame_IDENTITY_HAVE:
  "typed parseUrl r ''IDENTITY_HAVE'' \<and> succeeds (validateIdentityHave r) \<longleftrightarrow> (\<exists>sc \<in> set (frameSchemas IDENTITY_HAVE). conforms parseUrl r sc)"
  by (simp add: validateIdentityHave_def checkRules frameRules [where parseUrl = parseUrl]
      fixed_conforms [where keys = "[''type'', ''session_id'', ''branch_id'', ''sequence'', ''records'']" and opts = "[]"] conj_ac del: allOf.simps)

lemma frame_CONTACT_ANNOUNCE:
  "typed parseUrl r ''CONTACT_ANNOUNCE'' \<and> succeeds (validateContactAnnounce r) \<longleftrightarrow> (\<exists>sc \<in> set (frameSchemas CONTACT_ANNOUNCE). conforms parseUrl r sc)"
  by (simp add: validateContactAnnounce_def checkRules frameRules [where parseUrl = parseUrl]
      fixed_conforms [where keys = "[''type'', ''session_id'', ''discoverable'', ''sequence'']" and opts = "[]"] conj_ac del: allOf.simps)

lemma frame_CONTACT_LOOKUP:
  "typed parseUrl r ''CONTACT_LOOKUP'' \<and> succeeds (validateContactLookup r) \<longleftrightarrow> (\<exists>sc \<in> set (frameSchemas CONTACT_LOOKUP). conforms parseUrl r sc)"
  by (simp add: validateContactLookup_def checkRules validateLifetime_ok [where parseUrl = parseUrl] frameRules [where parseUrl = parseUrl] validateContactDiscoveryLifetime_def
      fixed_conforms [where keys = "[''type'', ''session_id'', ''request_id'', ''branch_id'', ''requester_hpke_public_key'', ''issued_at'', ''expires_at'']" and opts = "[]"] del: allOf.simps)

lemma frame_CONTACT_PROBE:
  "typed parseUrl r ''CONTACT_PROBE'' \<and> succeeds (validateContactProbe r) \<longleftrightarrow> (\<exists>sc \<in> set (frameSchemas CONTACT_PROBE). conforms parseUrl r sc)"
  by (simp add: validateContactProbe_def checkRules validateLifetime_ok [where parseUrl = parseUrl] frameRules [where parseUrl = parseUrl] validateContactDiscoveryLifetime_def
      fixed_conforms [where keys = "[''type'', ''session_id'', ''request_id'', ''branch_id'', ''requester_peer_id'', ''requester_hpke_public_key'', ''issued_at'', ''expires_at'']" and opts = "[]"] del: allOf.simps)

lemma frame_RENDEZVOUS:
  "typed parseUrl r ''RENDEZVOUS'' \<and> succeeds (validateRendezvous parseUrl r) \<longleftrightarrow> (\<exists>sc \<in> set (frameSchemas RENDEZVOUS). conforms parseUrl r sc)"
  by (simp add: validateRendezvous_def checkRules frameRules [where parseUrl = parseUrl]
      fixed_conforms [where keys = "[''type'', ''session_id'', ''route_id'', ''peer_id'', ''sequence'']" and opts = "[''route_hints'']"] conj_ac del: allOf.simps)

lemma frame_ENVELOPE:
  "typed parseUrl r ''ENVELOPE'' \<and> succeeds (validateEnvelopeFrame r) \<longleftrightarrow> (\<exists>sc \<in> set (frameSchemas ENVELOPE). conforms parseUrl r sc)"
  by (simp add: validateEnvelopeFrame_def checkRules frameRules [where parseUrl = parseUrl]
      fixed_conforms [where keys = "[''type'', ''session_id'', ''route_id'', ''origin_route_id'', ''path_epoch'', ''stream_id'', ''delivery_id'', ''ciphertext'', ''ack_requested'']" and opts = "[''sender_peer_id'']"] del: allOf.simps) auto

lemma frame_ACK:
  "typed parseUrl r ''ACK'' \<and> succeeds (validateAck r) \<longleftrightarrow> (\<exists>sc \<in> set (frameSchemas ACK). conforms parseUrl r sc)"
  by (simp add: validateAck_def checkRules frameRules [where parseUrl = parseUrl]
      fieldOk_durable [where parseUrl = parseUrl] fieldOk_ackType [where parseUrl = parseUrl]
      fixed_conforms [where keys = "[''type'', ''session_id'', ''delivery_id'', ''ack_type'', ''durable'']" and opts = "[]"] del: allOf.simps)

lemma frame_ERROR:
  "typed parseUrl r ''ERROR'' \<and> succeeds (validateError r) \<longleftrightarrow> (\<exists>sc \<in> set (frameSchemas ERROR). conforms parseUrl r sc)"
proof -
  have "map_of r (lit ''detail'') \<noteq> None"
    if "succeeds (rejectUnknownKeys r [lit ''type'', lit ''code'', lit ''retryable'', lit ''detail''] [])"
    using that by (simp add: succeeds_keys)
  then show ?thesis
    by (simp add: validateError_def checkRules frameRules [where parseUrl = parseUrl] fieldOk_errorCode [where parseUrl = parseUrl]
        fieldOk_detail [where parseUrl = parseUrl]
        fixed_conforms [where keys = "[''type'', ''code'', ''retryable'', ''detail'']" and opts = "[]"] del: allOf.simps) auto
qed

lemma frame_HELLO:
  "typed parseUrl r ''HELLO'' \<and> succeeds (validateHello r) \<longleftrightarrow> (\<exists>sc \<in> set (frameSchemas HELLO). conforms parseUrl r sc)"
proof -
  let ?role = "\<lambda>c. fieldOk parseUrl r (lit ''requested_role'', OneOf [c])"
  let ?forward = "succeeds (rejectUnknownKeys r (map lit [''type'', ''client_nonce'', ''client_time'', ''requested_role'', ''max_frame_bytes'', ''offers'']) [])"
  let ?federate = "succeeds (rejectUnknownKeys r (map lit [''type'', ''client_nonce'', ''client_time'', ''requested_role'', ''relay_beacon'',
      ''max_frame_bytes'', ''offers'']) []) \<and> fieldOk parseUrl r (lit ''relay_beacon'', BeaconText)"
  have roles: "relayForwardLiveRole \<noteq> relayFederationLiveRole"
    by (simp add: relayForwardLiveRole_def relayFederationLiveRole_def)
  have "succeeds (validateHello r) \<longleftrightarrow> fieldOk parseUrl r (lit ''client_nonce'', TokenOf 32) \<and> fieldOk parseUrl r (lit ''client_time'', anyTime)
      \<and> (?role relayForwardLiveRole \<and> ?forward \<or> ?role relayFederationLiveRole \<and> ?federate)
      \<and> fieldOk parseUrl r (lit ''max_frame_bytes'', IntegerIn 1 49152) \<and> fieldOk parseUrl r (lit ''offers'', ListOf 1 8 (ObjectOf offerFields))"
    unfolding validateHello_def succeeds_then succeeds_string
    using roles constant_texts(3,4)
    by (auto simp: succeeds_then frameRules [where parseUrl = parseUrl] fieldOk_def [of parseUrl r "(lit ''requested_role'', _)"]
        split: option.splits json.splits if_splits)
  then show ?thesis
    by (simp add: fixed_conforms [where keys = "[''type'', ''client_nonce'', ''client_time'', ''requested_role'', ''max_frame_bytes'', ''offers'']" and opts = "[]"]
        fixed_conforms [where keys = "[''type'', ''client_nonce'', ''client_time'', ''requested_role'', ''relay_beacon'', ''max_frame_bytes'', ''offers'']" and opts = "[]"]) blast
qed

lemma frame_IDENTITY_WANT:
  "typed parseUrl r ''IDENTITY_WANT'' \<and> succeeds (validateIdentityWant r) \<longleftrightarrow> (\<exists>sc \<in> set (frameSchemas IDENTITY_WANT). conforms parseUrl r sc)"
proof -
  let ?local = "[''type'', ''session_id'', ''branch_id'', ''sequence'', ''hop_limit'']"
  let ?federated = "[''type'', ''session_id'', ''branch_id'', ''sequence'', ''request_id'', ''origin_relay_key'', ''hop_limit'']"
  have local: "map_of r (lit ''request_id'') = None \<and> map_of r (lit ''origin_relay_key'') = None"
    if "succeeds (rejectUnknownKeys r (map lit ?local) [])"
  proof -
    have "lit ''request_id'' \<notin> fst ` set r \<and> lit ''origin_relay_key'' \<notin> fst ` set r"
      using that by (auto simp: succeeds_keys)
    then show ?thesis by (simp add: map_of_eq_None_iff)
  qed
  have federated: "map_of r (lit ''request_id'') \<noteq> None \<and> map_of r (lit ''origin_relay_key'') \<noteq> None"
    if "succeeds (rejectUnknownKeys r (map lit ?federated) [])"
    using that by (simp add: succeeds_keys)
  show ?thesis
    using local federated
    by (simp add: validateIdentityWant_def Let_def checkRules frameRules [where parseUrl = parseUrl]
        fixed_conforms [where keys = ?local and opts = "[]"] fixed_conforms [where keys = ?federated and opts = "[]"]
        del: allOf.simps) auto
qed

lemmas frame_rules = frame_HELLO frame_CHALLENGE frame_AUTH frame_READY frame_PRESENCE frame_HEARTBEAT frame_LOOKUP
  frame_IDENTITY_WANT frame_IDENTITY_HAVE frame_CONTACT_ANNOUNCE frame_CONTACT_LOOKUP frame_CONTACT_PROBE
  frame_RENDEZVOUS frame_ENVELOPE frame_ACK frame_ERROR

section \<open>Properties\<close>


end
