(* ===== verification/SameRelay.thy ===== *)
theory SameRelay
  imports RelayFrames
begin

text \<open>
  \<^verbatim>\<open>connectivity/same-relay.ts\<close>: the client side of a live relay attachment, \<^verbatim>\<open>SameRelayTransportClient\<close>.

  The client is a record of the fields of the class. An operation returns its result or the error it
  throws, what it did on the way (events to the listeners, frames to the socket, in order) and the new
  client; \<open>bindAct\<close> sequences such actions as the statements of a method follow each other, a
  throw keeping what was done before it. The socket is \<open>None\<close> for \<^verbatim>\<open>null\<close>, otherwise whether its
  \<^verbatim>\<open>readyState\<close> is open. Random bytes, clock readings, SHA-256, Ed25519, the URL parser and
  \<^verbatim>\<open>localeCompare\<close> are arguments.

  \<^verbatim>\<open>attach\<close> is cut at its \<^verbatim>\<open>await\<close>s: \<open>attachBegin\<close>, \<open>sendHello\<close>, \<open>checkChallenge\<close>,
  \<open>acceptChallenge\<close>, \<open>sendAuth\<close> and \<open>finishAttach\<close>. Theory \<open>SameRelay_Machine\<close> puts the pieces and every other call
  and socket event into one step relation, so that what may happen between two pieces does happen there.
\<close>

section \<open>State\<close>

record RelayRouteMaterial =
  rm_endpointUri :: js_string
  rm_relayPublicKey :: js_string
  rm_profileMultihash :: js_string
  rm_verified :: bool

record RelayRouteHint =
  rh_transport :: js_string
  rh_uri :: js_string
  rh_relayPublicKey :: js_string
  rh_priority :: int

record SameRelayIdentity =
  id_peerId :: js_string
  id_publicKey :: js_string

record ReadyState =
  rs_sessionId :: js_string
  rs_routeId :: js_string
  rs_presenceTtlSeconds :: int
  rs_heartbeatIntervalSeconds :: int

record PendingEnvelope =
  pe_deliveryId :: js_string
  pe_ciphertext :: js_string
  pe_routeId :: js_string
  pe_originRouteId :: js_string
  pe_streamId :: int
  pe_ackRequested :: bool

record SameRelayPendingEnvelope =
  spe_deliveryId :: js_string
  spe_ciphertext :: js_string
  spe_routeId :: "js_string option"
  spe_originRouteId :: js_string
  spe_streamId :: int
  spe_ackRequested :: bool

record SameRelayClient =
  sr_route :: RelayRouteMaterial
  sr_identity :: SameRelayIdentity
  sr_maxFrameBytes :: int
  sr_maxPendingEnvelopes :: int
  sr_pending :: "(js_string, PendingEnvelope) js_map"
  sr_targetRoutes :: "(js_string, js_string) js_map"
  sr_routeTargets :: "(js_string, js_string) js_map"
  sr_socket :: "bool option"
  sr_ready :: "ReadyState option"
  sr_contactDiscoveryEnabled :: bool
  sr_sequence :: int

datatype disconnectSource = LocalClose | RemoteClose

datatype SameRelayTransportEvent =
    Attached js_string js_string js_string
  | FrameSent RelayFrameType
  | PresenceAnnounced js_string int
  | HeartbeatSent int
  | LookupRequested js_string int
  | ContactLookupRequested js_string js_string int
  | ContactProbe js_string js_string js_string js_string int
  | RendezvousReady js_string js_string int nat
  | EnvelopeSent js_string js_string js_string
  | RelayAck js_string js_string
  | PeerReceipt js_string
  | PendingAbandoned js_string
  | PeerUnavailable bool nat
  | EnvelopeReceived js_string js_string js_string js_string "js_string option"
  | PendingRetried nat
  | Disconnected nat disconnectSource "int option"
  | ErrorEvent js_string

datatype effect = Emit SameRelayTransportEvent | Transmit js_string | CloseSocket int js_string

definition defaultMaxFrameBytes :: int where
  "defaultMaxFrameBytes = 49152"

definition defaultMaxPendingEnvelopes :: int where
  "defaultMaxPendingEnvelopes = 32"

definition maxLiveTargetRoutes :: nat where
  "maxLiveTargetRoutes = 64"

definition routeAllocationAttempts :: nat where
  "routeAllocationAttempts = 8"

definition maxChallengeClockSkewSeconds :: int where
  "maxChallengeClockSkewSeconds = 30"

definition defaultStreamID :: int where
  "defaultStreamID = 0"

definition defaultPathEpoch :: int where
  "defaultPathEpoch = 0"

section \<open>Actions\<close>

type_synonym 'a act = "SameRelayClient \<Rightarrow> 'a res \<times> effect list \<times> SameRelayClient"

definition returnAct :: "'a \<Rightarrow> 'a act" where
  "returnAct x c = (Inr x, [], c)"

definition liftAct :: "'a res \<Rightarrow> 'a act" where
  "liftAct r c = (r, [], c)"

definition bindAct :: "'a act \<Rightarrow> ('a \<Rightarrow> 'b act) \<Rightarrow> 'b act" where
  "bindAct m f c =
     (case m c of
        (Inl e, out, c') \<Rightarrow> (Inl e, out, c')
      | (Inr x, out, c') \<Rightarrow> (case f x c' of (r, out', c'') \<Rightarrow> (r, out @ out', c'')))"

definition getAct :: "(SameRelayClient \<Rightarrow> 'a) \<Rightarrow> 'a act" where
  "getAct f c = (Inr (f c), [], c)"

definition modifyAct :: "(SameRelayClient \<Rightarrow> SameRelayClient) \<Rightarrow> unit act" where
  "modifyAct f c = (Inr (), [], f c)"

definition effectAct :: "effect \<Rightarrow> unit act" where
  "effectAct o' c = (Inr (), [o'], c)"

abbreviation emitEvent :: "SameRelayTransportEvent \<Rightarrow> unit act" where
  "emitEvent e \<equiv> effectAct (Emit e)"

abbreviation andDo :: "unit act \<Rightarrow> 'b act \<Rightarrow> 'b act" where
  "andDo m m' \<equiv> bindAct m (\<lambda>_. m')"

section \<open>Reading received records\<close>

definition invalidKey :: "js_string \<Rightarrow> 'a res" where
  "invalidKey key = Inl (PlainError (lit ''invalid '' @ key))"

definition readStringValue :: "jrecord \<Rightarrow> js_string \<Rightarrow> js_string res" where
  "readStringValue r key = (case map_of r key of Some (JString s) \<Rightarrow> Inr s | _ \<Rightarrow> invalidKey key)"

definition readOptionalString :: "jrecord \<Rightarrow> js_string \<Rightarrow> js_string option res" where
  "readOptionalString r key =
     (case map_of r key of None \<Rightarrow> Inr None | Some (JString s) \<Rightarrow> Inr (Some s) | _ \<Rightarrow> invalidKey key)"

definition readNumberValue :: "jrecord \<Rightarrow> js_string \<Rightarrow> int res" where
  "readNumberValue r key =
     (case map_of r key of
        Some (JNumber (Some q)) \<Rightarrow> (case safeInteger q of None \<Rightarrow> invalidKey key | Some n \<Rightarrow> Inr n)
      | _ \<Rightarrow> invalidKey key)"

definition readBooleanValue :: "jrecord \<Rightarrow> js_string \<Rightarrow> bool res" where
  "readBooleanValue r key = (case map_of r key of Some (JBool b) \<Rightarrow> Inr b | _ \<Rightarrow> invalidKey key)"

definition readObjectValue :: "jrecord \<Rightarrow> js_string \<Rightarrow> jrecord res" where
  "readObjectValue r key = (case map_of r key of Some (JObject fs) \<Rightarrow> Inr fs | _ \<Rightarrow> invalidKey key)"

definition assertFrameType :: "jrecord \<Rightarrow> string \<Rightarrow> unit res" where
  "assertFrameType r expected =
     andThen (readStringValue r (lit ''type'')) (\<lambda>t.
       if t \<noteq> lit expected then Inl (PlainError (lit (''expected '' @ expected))) else Inr ())"

definition hasExtension :: "jrecord \<Rightarrow> js_string \<Rightarrow> bool" where
  "hasExtension offer extension =
     (case map_of offer (lit ''extensions'') of Some (JArray vs) \<Rightarrow> JString extension \<in> set vs | _ \<Rightarrow> False)"

section \<open>Routes and hints\<close>

definition validateRouteMaterial :: "(js_string \<Rightarrow> URL option) \<Rightarrow> RelayRouteMaterial \<Rightarrow> RelayRouteMaterial res" where
  "validateRouteMaterial parseUrl route =
     (if rm_profileMultihash route \<noteq> developmentProfileMultihash then throw ''unsupported relay profile''
      else andThen (decodeBase64URL (rm_relayPublicKey route)) (\<lambda>key.
        if length key \<noteq> 32 then throw ''invalid relay public key''
        else case parseUrl (rm_endpointUri route) of
            None \<Rightarrow> throw ''Invalid URL''
          | Some endpoint \<Rightarrow>
              if url_protocol endpoint \<noteq> lit ''wss:'' \<or> url_username endpoint \<noteq> [] \<or> url_password endpoint \<noteq> []
                \<or> url_hash endpoint \<noteq> []
              then throw ''invalid relay endpoint'' else Inr route))"

definition markVerifiedRelayRouteMaterial :: "(js_string \<Rightarrow> URL option) \<Rightarrow> RelayRouteMaterial \<Rightarrow> RelayRouteMaterial res" where
  "markVerifiedRelayRouteMaterial parseUrl route =
     andThen (validateRouteMaterial parseUrl route) (\<lambda>validated. Inr (validated\<lparr>rm_verified := True\<rparr>))"

definition assertVerifiedRelayRouteMaterial :: "(js_string \<Rightarrow> URL option) \<Rightarrow> RelayRouteMaterial \<Rightarrow> RelayRouteMaterial res" where
  "assertVerifiedRelayRouteMaterial parseUrl route =
     (if \<not> rm_verified route then throw ''unverified relay route material''
      else andThen (validateRouteMaterial parseUrl route) (\<lambda>_. Inr route))"

definition boundedPendingEnvelopeLimit :: "int \<Rightarrow> int res" where
  "boundedPendingEnvelopeLimit n =
     (if \<not> isSafeInteger n \<or> n < 1 \<or> n > defaultMaxPendingEnvelopes then throw ''invalid live pending envelope limit''
      else Inr n)"

definition assertRouteID :: "js_string \<Rightarrow> string \<Rightarrow> unit res" where
  "assertRouteID s message =
     andThen (decodeBase64URL s) (\<lambda>bs. if length bs \<noteq> 16 then throw message else Inr ())"

fun checkRouteHints :: "(js_string \<Rightarrow> URL option) \<Rightarrow> js_string list \<Rightarrow> RelayRouteHint list \<Rightarrow> unit res" where
  "checkRouteHints parseUrl seen [] = Inr ()"
| "checkRouteHints parseUrl seen (hint # hints) =
     (if rh_transport hint \<noteq> lit ''wss'' \<and> rh_transport hint \<noteq> lit ''ws'' then throw ''invalid route hint transport''
      else andThen (decodeBase64URL (rh_relayPublicKey hint)) (\<lambda>key.
        if length key \<noteq> 32 then throw ''invalid route hint relay key''
        else if \<not> isSafeInteger (rh_priority hint) \<or> rh_priority hint < 0 then throw ''invalid route hint priority''
        else case parseUrl (rh_uri hint) of
            None \<Rightarrow> throw ''Invalid URL''
          | Some endpoint \<Rightarrow>
              if url_protocol endpoint \<noteq> rh_transport hint @ lit '':'' \<or> url_username endpoint \<noteq> []
                \<or> url_password endpoint \<noteq> [] \<or> url_hash endpoint \<noteq> [] \<or> url_pathname endpoint \<noteq> lit ''/relay/v0''
              then throw ''invalid route hint endpoint''
              else
                let duplicateKey = rh_transport hint @ [0] @ rh_uri hint in
                if duplicateKey \<in> set seen then throw ''duplicate route hint''
                else checkRouteHints parseUrl (duplicateKey # seen) hints))"

definition validateClientRouteHints ::
  "(js_string \<Rightarrow> URL option) \<Rightarrow> (js_string \<Rightarrow> js_string \<Rightarrow> int) \<Rightarrow> RelayRouteHint list \<Rightarrow> RelayRouteHint list res" where
  "validateClientRouteHints parseUrl localeCompare hints =
     (if length hints > 8 then throw ''too many route hints''
      else andThen (checkRouteHints parseUrl [] hints) (\<lambda>_.
        Inr (js_sort (\<lambda>left right.
          if rh_priority left - rh_priority right \<noteq> 0 then rh_priority left - rh_priority right
          else localeCompare (rh_uri left) (rh_uri right)) hints)))"

definition toWireRouteHint :: "RelayRouteHint \<Rightarrow> json" where
  "toWireRouteHint hint = JObject
     [(lit ''transport'', JString (rh_transport hint)), (lit ''uri'', JString (rh_uri hint)),
      (lit ''relay_public_key'', JString (rh_relayPublicKey hint)), (lit ''priority'', jint (rh_priority hint))]"

section \<open>Construction\<close>

definition newPending :: "SameRelayPendingEnvelope \<Rightarrow> PendingEnvelope" where
  "newPending p =
     \<lparr>pe_deliveryId = spe_deliveryId p, pe_ciphertext = spe_ciphertext p,
      pe_routeId = (case spe_routeId p of None \<Rightarrow> spe_originRouteId p | Some r \<Rightarrow> r),
      pe_originRouteId = spe_originRouteId p, pe_streamId = spe_streamId p, pe_ackRequested = spe_ackRequested p\<rparr>"

fun restorePending ::
  "int \<Rightarrow> (js_string, PendingEnvelope) js_map \<Rightarrow> SameRelayPendingEnvelope list \<Rightarrow> (js_string, PendingEnvelope) js_map res" where
  "restorePending maxPending m [] = Inr m"
| "restorePending maxPending m (p # ps) =
     (if \<not> mapHas m (spe_deliveryId p) \<and> int (length m) \<ge> maxPending then throw ''live pending envelope limit exceeded''
      else restorePending maxPending (mapSet m (spe_deliveryId p) (newPending p)) ps)"

definition newClient ::
  "(js_string \<Rightarrow> URL option) \<Rightarrow> RelayRouteMaterial \<Rightarrow> SameRelayIdentity \<Rightarrow> int \<Rightarrow> int \<Rightarrow> SameRelayPendingEnvelope list
     \<Rightarrow> SameRelayClient res" where
  "newClient parseUrl route identity maxFrameBytes maxPendingEnvelopes pendingEnvelopes =
     andThen (assertVerifiedRelayRouteMaterial parseUrl route) (\<lambda>route.
     andThen (boundedPendingEnvelopeLimit maxPendingEnvelopes) (\<lambda>maxPending.
     andThen (restorePending maxPending [] pendingEnvelopes) (\<lambda>pending.
       Inr \<lparr>sr_route = route, sr_identity = identity, sr_maxFrameBytes = min maxFrameBytes defaultMaxFrameBytes,
            sr_maxPendingEnvelopes = maxPending, sr_pending = pending, sr_targetRoutes = [], sr_routeTargets = [],
            sr_socket = None, sr_ready = None, sr_contactDiscoveryEnabled = False, sr_sequence = 0\<rparr>)))"

definition exportPendingEnvelopes :: "SameRelayClient \<Rightarrow> SameRelayPendingEnvelope list" where
  "exportPendingEnvelopes c = map (\<lambda>(_, p).
     \<lparr>spe_deliveryId = pe_deliveryId p, spe_ciphertext = pe_ciphertext p, spe_routeId = Some (pe_routeId p),
      spe_originRouteId = pe_originRouteId p, spe_streamId = pe_streamId p, spe_ackRequested = pe_ackRequested p\<rparr>) (sr_pending c)"

definition supportsContactDiscovery :: "SameRelayClient \<Rightarrow> bool" where
  "supportsContactDiscovery c \<longleftrightarrow> sr_ready c \<noteq> None \<and> sr_contactDiscoveryEnabled c"

section \<open>Sending\<close>

text \<open>Every number the client writes into a frame is a safe integer; the printer covers no other.\<close>

definition encodeFrame :: "json \<Rightarrow> js_string res" where
  "encodeFrame frame =
     (case jsonStringify frame of None \<Rightarrow> throw ''number outside the model'' | Some s \<Rightarrow> Inr s)"

definition sendRaw :: "(js_string \<Rightarrow> URL option) \<Rightarrow> js_string \<Rightarrow> unit act" where
  "sendRaw parseUrl frame =
     bindAct (getAct sr_socket) (\<lambda>socket.
       if socket \<noteq> Some True then liftAct (throw ''relay socket is not open'')
       else bindAct (liftAct (decodeDraftRelayAttachmentFrameText parseUrl frame)) (\<lambda>t.
         andDo (effectAct (Transmit frame)) (emitEvent (FrameSent t))))"

definition requireReady :: "ReadyState act" where
  "requireReady =
     bindAct (getAct sr_ready) (\<lambda>ready.
       case ready of None \<Rightarrow> liftAct (throw ''relay session is not ready'') | Some r \<Rightarrow> returnAct r)"

definition requireContactDiscovery :: "unit act" where
  "requireContactDiscovery =
     bindAct requireReady (\<lambda>_. bindAct (getAct sr_contactDiscoveryEnabled) (\<lambda>enabled.
       if \<not> enabled then liftAct (throw ''contact discovery extension is not negotiated'') else returnAct ()))"

definition sendReadyFrame :: "(js_string \<Rightarrow> URL option) \<Rightarrow> json \<Rightarrow> unit act" where
  "sendReadyFrame parseUrl frame =
     bindAct requireReady (\<lambda>_. bindAct (liftAct (encodeFrame frame)) (sendRaw parseUrl))"

definition nextSequence :: "int act" where
  "nextSequence =
     andDo (modifyAct (\<lambda>c. c\<lparr>sr_sequence := sr_sequence c + 1\<rparr>)) (getAct sr_sequence)"

definition announcePresence :: "(js_string \<Rightarrow> URL option) \<Rightarrow> int \<Rightarrow> int \<Rightarrow> unit act" where
  "announcePresence parseUrl now ttlSeconds =
     bindAct nextSequence (\<lambda>sequence. bindAct requireReady (\<lambda>ready. bindAct (getAct sr_identity) (\<lambda>identity.
       andDo (sendReadyFrame parseUrl (JObject
         [(lit ''type'', JString (lit ''PRESENCE'')), (lit ''session_id'', JString (rs_sessionId ready)),
          (lit ''route_id'', JString (rs_routeId ready)), (lit ''peer_id'', JString (id_peerId identity)),
          (lit ''sequence'', jint sequence), (lit ''ttl_seconds'', jint ttlSeconds), (lit ''sent_at'', jint now)]))
       (emitEvent (PresenceAnnounced (id_peerId identity) sequence)))))"

definition heartbeat :: "(js_string \<Rightarrow> URL option) \<Rightarrow> int \<Rightarrow> unit act" where
  "heartbeat parseUrl now =
     bindAct nextSequence (\<lambda>sequence. bindAct requireReady (\<lambda>ready.
       andDo (sendReadyFrame parseUrl (JObject
         [(lit ''type'', JString (lit ''HEARTBEAT'')), (lit ''session_id'', JString (rs_sessionId ready)),
          (lit ''sequence'', jint sequence), (lit ''sent_at'', jint now)]))
       (emitEvent (HeartbeatSent sequence))))"

definition lookupPeer :: "(js_string \<Rightarrow> URL option) \<Rightarrow> js_string \<Rightarrow> unit act" where
  "lookupPeer parseUrl peerId =
     bindAct nextSequence (\<lambda>sequence. bindAct requireReady (\<lambda>ready.
       andDo (sendReadyFrame parseUrl (JObject
         [(lit ''type'', JString (lit ''LOOKUP'')), (lit ''session_id'', JString (rs_sessionId ready)),
          (lit ''peer_id'', JString peerId), (lit ''sequence'', jint sequence)]))
       (emitEvent (LookupRequested peerId sequence))))"

definition announceContactDiscovery :: "(js_string \<Rightarrow> URL option) \<Rightarrow> bool \<Rightarrow> unit act" where
  "announceContactDiscovery parseUrl discoverable =
     andDo requireContactDiscovery (bindAct requireReady (\<lambda>ready. bindAct nextSequence (\<lambda>sequence.
       sendReadyFrame parseUrl (JObject
         [(lit ''type'', JString (lit ''CONTACT_ANNOUNCE'')), (lit ''session_id'', JString (rs_sessionId ready)),
          (lit ''discoverable'', JBool discoverable), (lit ''sequence'', jint sequence)]))))"

definition parseBranchID :: "js_string \<Rightarrow> bytes res" where
  "parseBranchID s =
     (if \<not> startsWith s (lit ''br1.'') then throw ''invalid_branch_id''
      else andThen (decodeBase64URL (drop 4 s)) (\<lambda>multihash.
        if length multihash \<noteq> 34 \<or> multihash ! 0 \<noteq> 0x12 \<or> multihash ! 1 \<noteq> 0x20 then throw ''invalid_branch_id''
        else Inr multihash))"

definition lookupContact ::
  "(js_string \<Rightarrow> URL option) \<Rightarrow> bytes \<Rightarrow> int \<Rightarrow> js_string \<Rightarrow> js_string \<Rightarrow> (js_string \<times> int) act" where
  "lookupContact parseUrl random now branchId requesterHpkePublicKey =
     andDo requireContactDiscovery (
     bindAct (liftAct (parseBranchID branchId)) (\<lambda>_.
     bindAct (liftAct (decodeBase64URL requesterHpkePublicKey)) (\<lambda>key.
       if length key \<noteq> 32 then liftAct (throw ''invalid requester HPKE public key'')
       else
         let requestId = encodeBase64URL random; issuedAt = now * 1000; expiresAt = issuedAt + 60000 in
         bindAct requireReady (\<lambda>ready.
           andDo (sendReadyFrame parseUrl (JObject
             [(lit ''type'', JString (lit ''CONTACT_LOOKUP'')), (lit ''session_id'', JString (rs_sessionId ready)),
              (lit ''request_id'', JString requestId), (lit ''branch_id'', JString branchId),
              (lit ''requester_hpke_public_key'', JString requesterHpkePublicKey), (lit ''issued_at'', jint issuedAt),
              (lit ''expires_at'', jint expiresAt)]))
           (andDo (emitEvent (ContactLookupRequested requestId branchId expiresAt)) (returnAct (requestId, expiresAt)))))))"

section \<open>Lookup routes\<close>

definition requireTargetRouteCapacity :: "unit act" where
  "requireTargetRouteCapacity =
     bindAct (getAct sr_targetRoutes) (\<lambda>routes.
       if length routes \<ge> maxLiveTargetRoutes then liftAct (throw ''live relay lookup route limit reached'') else returnAct ())"

definition bindRoute :: "js_string \<Rightarrow> js_string \<Rightarrow> unit act" where
  "bindRoute peerId routeId = modifyAct (\<lambda>c. c\<lparr>sr_targetRoutes := mapSet (sr_targetRoutes c) peerId routeId,
     sr_routeTargets := mapSet (sr_routeTargets c) routeId peerId\<rparr>)"

text \<open>The tokens are what \<^verbatim>\<open>randomToken(16)\<close> returns in the attempts of the loop.\<close>

fun tryRoutes :: "js_string list \<Rightarrow> js_string \<Rightarrow> js_string \<Rightarrow> js_string act" where
  "tryRoutes [] peerId readyRouteId = liftAct (throw ''unable to allocate a unique relay lookup route'')"
| "tryRoutes (token # tokens) peerId readyRouteId =
     bindAct (getAct sr_routeTargets) (\<lambda>targets.
       if token = readyRouteId \<or> mapHas targets token then tryRoutes tokens peerId readyRouteId
       else andDo (bindRoute peerId token) (returnAct token))"

definition allocateLookupRoute :: "bytes list \<Rightarrow> js_string \<Rightarrow> js_string \<Rightarrow> js_string act" where
  "allocateLookupRoute random peerId readyRouteId =
     andDo requireTargetRouteCapacity
       (tryRoutes (map encodeBase64URL (take routeAllocationAttempts random)) peerId readyRouteId)"

definition lookupRouteForPeer :: "bytes list \<Rightarrow> js_string \<Rightarrow> js_string option \<Rightarrow> js_string \<Rightarrow> js_string act" where
  "lookupRouteForPeer random peerId requestedRouteId readyRouteId =
     bindAct (getAct (\<lambda>c. mapGet (sr_targetRoutes c) peerId)) (\<lambda>existingRouteId.
       case requestedRouteId of
         None \<Rightarrow>
           (case existingRouteId of
              Some route \<Rightarrow> returnAct route
            | None \<Rightarrow> allocateLookupRoute random peerId readyRouteId)
       | Some requested \<Rightarrow>
           andDo (liftAct (assertRouteID requested ''invalid relay route id'')) (
           if requested = readyRouteId then liftAct (throw ''READY route id cannot be used as a relay lookup route'')
           else if existingRouteId \<noteq> None \<and> existingRouteId \<noteq> Some requested
           then liftAct (throw ''peer already has a different relay lookup route'')
           else bindAct (getAct (\<lambda>c. mapGet (sr_routeTargets c) requested)) (\<lambda>existingPeerId.
             if existingPeerId \<noteq> None \<and> existingPeerId \<noteq> Some peerId
             then liftAct (throw ''relay lookup route is already bound to another peer'')
             else if existingRouteId = None
             then andDo requireTargetRouteCapacity (andDo (bindRoute peerId requested) (returnAct requested))
             else returnAct requested)))"

definition rendezvous ::
  "(js_string \<Rightarrow> URL option) \<Rightarrow> (js_string \<Rightarrow> js_string \<Rightarrow> int) \<Rightarrow> bytes list \<Rightarrow> js_string \<Rightarrow> RelayRouteHint list
     \<Rightarrow> js_string option \<Rightarrow> js_string act" where
  "rendezvous parseUrl localeCompare random peerId hints requestedRouteId =
     bindAct requireReady (\<lambda>ready.
     bindAct nextSequence (\<lambda>sequence.
     bindAct (liftAct (validateClientRouteHints parseUrl localeCompare hints)) (\<lambda>routeHints.
     bindAct (lookupRouteForPeer random peerId requestedRouteId (rs_routeId ready)) (\<lambda>routeId.
     andDo (sendReadyFrame parseUrl (JObject
       ([(lit ''type'', JString (lit ''RENDEZVOUS'')), (lit ''session_id'', JString (rs_sessionId ready)),
         (lit ''route_id'', JString routeId), (lit ''peer_id'', JString peerId), (lit ''sequence'', jint sequence)]
        @ (if routeHints \<noteq> [] then [(lit ''route_hints'', JArray (map toWireRouteHint routeHints))] else []))))
     (andDo (emitEvent (RendezvousReady peerId routeId sequence (length routeHints))) (returnAct routeId))))))"

section \<open>Envelopes\<close>

definition requireEnvelopeRoute :: "js_string option \<Rightarrow> js_string \<Rightarrow> js_string act" where
  "requireEnvelopeRoute requestedRouteId readyRouteId =
     bindAct (getAct sr_routeTargets) (\<lambda>targets.
       case requestedRouteId of
         Some requested \<Rightarrow>
           andDo (liftAct (assertRouteID requested ''invalid relay route id'')) (
           if requested = readyRouteId then liftAct (throw ''READY route id cannot be used as a relay lookup route'')
           else if \<not> mapHas targets requested then liftAct (throw ''relay lookup route is not bound to a peer'')
           else returnAct requested)
       | None \<Rightarrow>
           (case mapKeys targets of
              [] \<Rightarrow> liftAct (throw ''relay lookup route is required before sending an envelope'')
            | [only] \<Rightarrow> returnAct only
            | _ \<Rightarrow> liftAct (throw ''explicit relay lookup route is required for multiple peers'')))"

definition envelopeFrame :: "ReadyState \<Rightarrow> PendingEnvelope \<Rightarrow> json" where
  "envelopeFrame ready pending = JObject
     [(lit ''type'', JString (lit ''ENVELOPE'')), (lit ''session_id'', JString (rs_sessionId ready)),
      (lit ''route_id'', JString (pe_routeId pending)), (lit ''origin_route_id'', JString (pe_originRouteId pending)),
      (lit ''path_epoch'', jint defaultPathEpoch), (lit ''stream_id'', jint (pe_streamId pending)),
      (lit ''delivery_id'', JString (pe_deliveryId pending)), (lit ''ciphertext'', JString (pe_ciphertext pending)),
      (lit ''ack_requested'', JBool (pe_ackRequested pending))]"

definition sendPendingEnvelope :: "(js_string \<Rightarrow> URL option) \<Rightarrow> PendingEnvelope \<Rightarrow> unit act" where
  "sendPendingEnvelope parseUrl pending =
     bindAct requireReady (\<lambda>ready.
       andDo (sendReadyFrame parseUrl (envelopeFrame ready pending))
       (emitEvent (EnvelopeSent (pe_deliveryId pending) (pe_routeId pending) (pe_originRouteId pending))))"

record envelopeOptions =
  eo_deliveryId :: "js_string option"
  eo_routeId :: "js_string option"
  eo_originRouteId :: "js_string option"
  eo_ackRequested :: "bool option"

definition rememberPending :: "PendingEnvelope \<Rightarrow> unit act" where
  "rememberPending pending =
     bindAct (getAct (\<lambda>c. \<not> mapHas (sr_pending c) (pe_deliveryId pending) \<and> int (length (sr_pending c)) \<ge> sr_maxPendingEnvelopes c)) (\<lambda>full.
       if full then liftAct (throw ''live pending envelope limit exceeded'')
       else modifyAct (\<lambda>c. c\<lparr>sr_pending := mapSet (sr_pending c) (pe_deliveryId pending) pending\<rparr>))"

definition sendSealedEnvelope ::
  "(js_string \<Rightarrow> URL option) \<Rightarrow> bytes \<Rightarrow> js_string \<Rightarrow> envelopeOptions \<Rightarrow> js_string act" where
  "sendSealedEnvelope parseUrl random sealedPayload options =
     bindAct (liftAct (decodeBase64URL sealedPayload)) (\<lambda>_.
     bindAct requireReady (\<lambda>ready.
     bindAct (requireEnvelopeRoute (eo_routeId options) (rs_routeId ready)) (\<lambda>routeId.
       let originRouteId = (case eo_originRouteId options of None \<Rightarrow> rs_routeId ready | Some r \<Rightarrow> r) in
       andDo (liftAct (assertRouteID routeId ''invalid relay route id'')) (
       andDo (liftAct (assertRouteID originRouteId ''invalid origin route id'')) (
       let deliveryId = (case eo_deliveryId options of None \<Rightarrow> encodeBase64URL random | Some d \<Rightarrow> d);
           pending = \<lparr>pe_deliveryId = deliveryId, pe_ciphertext = sealedPayload, pe_routeId = routeId,
             pe_originRouteId = originRouteId, pe_streamId = defaultStreamID,
             pe_ackRequested = (case eo_ackRequested options of None \<Rightarrow> True | Some b \<Rightarrow> b)\<rparr> in
       andDo (rememberPending pending) (andDo (sendPendingEnvelope parseUrl pending) (returnAct deliveryId)))))))"

definition sendEnvelope ::
  "(js_string \<Rightarrow> URL option) \<Rightarrow> bytes \<Rightarrow> js_string \<Rightarrow> envelopeOptions \<Rightarrow> js_string act" where
  "sendEnvelope parseUrl random ciphertext options =
     sendSealedEnvelope parseUrl random (encodeBase64URL (textEncode ciphertext)) options"

definition dropPending :: "js_string \<Rightarrow> unit act" where
  "dropPending deliveryId = modifyAct (\<lambda>c. c\<lparr>sr_pending := mapDelete (sr_pending c) deliveryId\<rparr>)"

definition markPeerReceipt :: "js_string \<Rightarrow> unit act" where
  "markPeerReceipt deliveryId =
     bindAct (getAct (\<lambda>c. mapHas (sr_pending c) deliveryId)) (\<lambda>known.
       if known then andDo (dropPending deliveryId) (emitEvent (PeerReceipt deliveryId)) else returnAct ())"

definition abandonPendingEnvelope :: "js_string \<Rightarrow> bool act" where
  "abandonPendingEnvelope deliveryId =
     bindAct (getAct (\<lambda>c. mapHas (sr_pending c) deliveryId)) (\<lambda>known.
       if \<not> known then returnAct False
       else andDo (dropPending deliveryId) (andDo (emitEvent (PendingAbandoned deliveryId)) (returnAct True)))"

fun sendAll :: "(js_string \<Rightarrow> URL option) \<Rightarrow> PendingEnvelope list \<Rightarrow> unit act" where
  "sendAll parseUrl [] = returnAct ()"
| "sendAll parseUrl (p # ps) = andDo (sendPendingEnvelope parseUrl p) (sendAll parseUrl ps)"

definition retryPending :: "(js_string \<Rightarrow> URL option) \<Rightarrow> unit act" where
  "retryPending parseUrl =
     bindAct (getAct (\<lambda>c. map snd (sr_pending c))) (\<lambda>envelopes.
       andDo (sendAll parseUrl envelopes)
         (bindAct (getAct (\<lambda>c. length (sr_pending c))) (\<lambda>n. emitEvent (PendingRetried n))))"

section \<open>Closing\<close>

definition clearRoutes :: "SameRelayClient \<Rightarrow> SameRelayClient" where
  "clearRoutes c = c\<lparr>sr_targetRoutes := [], sr_routeTargets := []\<rparr>"

definition disconnectClient :: "unit act" where
  "disconnectClient =
     bindAct (getAct sr_socket) (\<lambda>socket.
       andDo (modifyAct (\<lambda>c. (clearRoutes c)\<lparr>sr_ready := None, sr_contactDiscoveryEnabled := False, sr_socket := None\<rparr>)) (
       if socket = None then returnAct ()
       else andDo (effectAct (CloseSocket 1000 (lit ''client disconnect'')))
         (bindAct (getAct (\<lambda>c. length (sr_pending c))) (\<lambda>n. emitEvent (Disconnected n LocalClose None)))))"

definition handleSocketClose :: "int option \<Rightarrow> unit act" where
  "handleSocketClose closeCode =
     andDo (modifyAct (\<lambda>c. (clearRoutes c)\<lparr>sr_ready := None, sr_socket := None\<rparr>))
       (bindAct (getAct (\<lambda>c. length (sr_pending c))) (\<lambda>n. emitEvent (Disconnected n RemoteClose closeCode)))"

definition handleSocketError :: "unit act" where
  "handleSocketError = emitEvent (ErrorEvent (lit ''relay socket error''))"

section \<open>Received frames\<close>

definition decodeRelayRecord :: "(js_string \<Rightarrow> URL option) \<Rightarrow> js_string \<Rightarrow> jrecord res" where
  "decodeRelayRecord parseUrl s =
     andThen (decodeDraftRelayAttachmentFrameText parseUrl s) (\<lambda>_.
       case jsonParse s of Some (JObject r) \<Rightarrow> Inr r | _ \<Rightarrow> throw ''invalid relay frame'')"

definition errorMessage :: "js_error \<Rightarrow> js_string" where
  "errorMessage e =
     (case e of CborError s \<Rightarrow> s | PlainError s \<Rightarrow> s | ProtocolError s \<Rightarrow> s | RelayAttachmentError s \<Rightarrow> s
      | StackOverflow \<Rightarrow> lit ''Maximum call stack size exceeded'')"

definition processAck :: "jrecord \<Rightarrow> unit act" where
  "processAck r =
     bindAct (liftAct (readStringValue r (lit ''ack_type''))) (\<lambda>ackType.
     bindAct (liftAct (readStringValue r (lit ''delivery_id''))) (\<lambda>deliveryId.
       if ackType = lit ''peer.received'' then andDo (dropPending deliveryId) (emitEvent (PeerReceipt deliveryId))
       else if ackType = lit ''relay.forwarded'' then andDo (dropPending deliveryId) (emitEvent (RelayAck deliveryId ackType))
       else if ackType = lit ''relay.accepted'' then emitEvent (RelayAck deliveryId ackType)
       else returnAct ()))"

definition processEnvelope :: "jrecord \<Rightarrow> unit act" where
  "processEnvelope r =
     bindAct (liftAct (readStringValue r (lit ''delivery_id''))) (\<lambda>deliveryId.
     bindAct (liftAct (readStringValue r (lit ''ciphertext''))) (\<lambda>ciphertext.
     bindAct (liftAct (readStringValue r (lit ''route_id''))) (\<lambda>routeId.
     bindAct (liftAct (readStringValue r (lit ''origin_route_id''))) (\<lambda>originRouteId.
     bindAct (liftAct (readOptionalString r (lit ''sender_peer_id''))) (\<lambda>senderPeerId.
       emitEvent (EnvelopeReceived deliveryId ciphertext routeId originRouteId senderPeerId))))))"

definition processProbe :: "int \<Rightarrow> jrecord \<Rightarrow> unit act" where
  "processProbe now r =
     bindAct (getAct sr_contactDiscoveryEnabled) (\<lambda>enabled.
     bindAct (if \<not> enabled then returnAct True
              else bindAct (liftAct (readStringValue r (lit ''session_id''))) (\<lambda>sessionId.
                bindAct requireReady (\<lambda>ready. returnAct (sessionId \<noteq> rs_sessionId ready)))) (\<lambda>refused.
       if refused then emitEvent (ErrorEvent (lit ''contact_probe_rejected''))
       else bindAct (liftAct (readNumberValue r (lit ''expires_at''))) (\<lambda>expiresAt.
         if expiresAt \<le> now * 1000 then emitEvent (ErrorEvent (lit ''contact_probe_expired''))
         else
           bindAct (liftAct (readStringValue r (lit ''request_id''))) (\<lambda>requestId.
           bindAct (liftAct (readStringValue r (lit ''branch_id''))) (\<lambda>branchId.
           bindAct (liftAct (readStringValue r (lit ''requester_peer_id''))) (\<lambda>requesterPeerId.
           bindAct (liftAct (readStringValue r (lit ''requester_hpke_public_key''))) (\<lambda>requesterHpkePublicKey.
             emitEvent (ContactProbe requestId branchId requesterPeerId requesterHpkePublicKey expiresAt))))))))"

definition processError :: "jrecord \<Rightarrow> unit act" where
  "processError r =
     bindAct (liftAct (readStringValue r (lit ''code''))) (\<lambda>code.
       if code = lit ''peer_unavailable'' \<or> code = lit ''route_unavailable'' then
         bindAct (liftAct (readBooleanValue r (lit ''retryable''))) (\<lambda>retryable.
         bindAct (getAct (\<lambda>c. length (sr_pending c))) (\<lambda>n. emitEvent (PeerUnavailable retryable n)))
       else emitEvent (ErrorEvent code))"

definition processReadyFrame :: "int \<Rightarrow> jrecord \<Rightarrow> unit act" where
  "processReadyFrame now r =
     bindAct (liftAct (readStringValue r (lit ''type''))) (\<lambda>t.
       if t = lit ''ACK'' then processAck r
       else if t = lit ''ENVELOPE'' then processEnvelope r
       else if t = lit ''CONTACT_PROBE'' then processProbe now r
       else if t = lit ''ERROR'' then processError r
       else returnAct ())"

text \<open>
  The handler of a socket message. \<open>None\<close> is a message that is not text. The result tells the record that
  resolves the first waiting read, if there is one; otherwise the frame is processed here.
\<close>

definition handleSocketMessage :: "(js_string \<Rightarrow> URL option) \<Rightarrow> bool \<Rightarrow> int \<Rightarrow> js_string option \<Rightarrow> jrecord option act" where
  "handleSocketMessage parseUrl waiting now event =
     (case event of
        None \<Rightarrow> andDo (emitEvent (ErrorEvent (lit ''relay sent non-text frame''))) (returnAct None)
      | Some s \<Rightarrow>
          if length (textEncode s) > maxDraftRelayAttachmentFrameBytes
          then andDo (emitEvent (ErrorEvent (lit ''relay frame too large''))) (returnAct None)
          else (case decodeRelayRecord parseUrl s of
                  Inl e \<Rightarrow> andDo (emitEvent (ErrorEvent (errorMessage e))) (returnAct None)
                | Inr r \<Rightarrow>
                    if waiting then returnAct (Some r)
                    else andDo (processReadyFrame now r) (returnAct None)))"

section \<open>Attaching\<close>

definition makeVersionOffer :: json where
  "makeVersionOffer = JObject
     [(lit ''wire_version'', jint 0), (lit ''protocol'', JString protocolID),
      (lit ''profile_multihash'', JString developmentProfileMultihash),
      (lit ''capabilities'', JArray [JString relayForwardLiveRole]), (lit ''required_capabilities'', JArray []),
      (lit ''extensions'', JArray [JString contactDiscoveryLiveExtension]), (lit ''required_extensions'', JArray [])]"

definition proofInput :: "bytes \<Rightarrow> bytes" where
  "proofInput transcriptHash = textEncode relayProofDomain @ transcriptHash"

definition attachBegin :: "bool \<Rightarrow> unit act" where
  "attachBegin alreadyOpen =
     andDo disconnectClient (modifyAct (\<lambda>c. c\<lparr>sr_socket := Some alreadyOpen\<rparr>))"

definition helloFrame :: "SameRelayClient \<Rightarrow> js_string \<Rightarrow> int \<Rightarrow> json" where
  "helloFrame c clientNonce now = JObject
     [(lit ''type'', JString (lit ''HELLO'')), (lit ''client_nonce'', JString clientNonce), (lit ''client_time'', jint now),
      (lit ''requested_role'', JString relayForwardLiveRole), (lit ''max_frame_bytes'', jint (sr_maxFrameBytes c)),
      (lit ''offers'', JArray [makeVersionOffer])]"

text \<open>Returns the nonce and the raw HELLO, which enters the transcript.\<close>

definition sendHello :: "(js_string \<Rightarrow> URL option) \<Rightarrow> bytes \<Rightarrow> int \<Rightarrow> (js_string \<times> js_string) act" where
  "sendHello parseUrl random now =
     (let clientNonce = encodeBase64URL random in
      bindAct (getAct (\<lambda>c. helloFrame c clientNonce now)) (\<lambda>hello.
      bindAct (liftAct (encodeFrame hello)) (\<lambda>helloRaw.
      andDo (sendRaw parseUrl helloRaw) (returnAct (clientNonce, helloRaw)))))"

definition computeTranscriptHash ::
  "(bytes \<Rightarrow> bytes) \<Rightarrow> js_string \<Rightarrow> jrecord \<Rightarrow> js_string \<Rightarrow> js_string \<Rightarrow> js_string \<Rightarrow> bytes res" where
  "computeTranscriptHash sha256 helloRaw selected clientNonce relayNonce relayPublicKey =
     andThen (encodeFrame (JObject selected)) (\<lambda>selectedRaw.
     andThen (decodeBase64URL clientNonce) (\<lambda>client.
     andThen (decodeBase64URL relayNonce) (\<lambda>relay.
     andThen (decodeBase64URL relayPublicKey) (\<lambda>key.
       Inr (sha256 (textEncode helloRaw @ textEncode selectedRaw @ client @ relay @ key))))))"

definition verifyRelayProof ::
  "(bytes \<Rightarrow> bytes \<Rightarrow> bytes \<Rightarrow> bool res) \<Rightarrow> js_string \<Rightarrow> js_string \<Rightarrow> bytes \<Rightarrow> bool res" where
  "verifyRelayProof ed25519Verify relayPublicKey proof transcriptHash =
     andThen (decodeBase64URL relayPublicKey) (\<lambda>key.
     andThen (decodeBase64URL proof) (\<lambda>signature.
       ed25519Verify key signature (proofInput transcriptHash)))"

text \<open>
  What \<^verbatim>\<open>attach\<close> does with the CHALLENGE up to the verified proof. It touches no field of the client,
  only the route it was created with, and returns the selected offer and the transcript hash.
\<close>

definition checkChallenge ::
  "(bytes \<Rightarrow> bytes) \<Rightarrow> (bytes \<Rightarrow> bytes \<Rightarrow> bytes \<Rightarrow> bool res) \<Rightarrow> RelayRouteMaterial \<Rightarrow> js_string \<Rightarrow> js_string \<Rightarrow> int \<Rightarrow> jrecord
     \<Rightarrow> (jrecord \<times> bytes) res" where
  "checkChallenge sha256 ed25519Verify route clientNonce helloRaw currentTime challenge =
     andThen (assertFrameType challenge ''CHALLENGE'') (\<lambda>_.
     andThen (readNumberValue challenge (lit ''issued_at'')) (\<lambda>issuedAt.
     andThen (readNumberValue challenge (lit ''expires_at'')) (\<lambda>expiresAt.
     if expiresAt \<le> currentTime then throw ''relay challenge expired''
     else if issuedAt > currentTime + maxChallengeClockSkewSeconds then throw ''relay challenge issued in the future''
     else andThen (readObjectValue challenge (lit ''selected'')) (\<lambda>selected.
     andThen (readStringValue challenge (lit ''relay_nonce'')) (\<lambda>relayNonce.
     andThen (computeTranscriptHash sha256 helloRaw selected clientNonce relayNonce (rm_relayPublicKey route)) (\<lambda>transcriptHash.
     andThen (readStringValue challenge (lit ''client_nonce'')) (\<lambda>echoedNonce.
     if echoedNonce \<noteq> clientNonce then throw ''relay challenge nonce mismatch''
     else andThen (readStringValue challenge (lit ''relay_public_key'')) (\<lambda>relayPublicKey.
     if relayPublicKey \<noteq> rm_relayPublicKey route then throw ''relay identity mismatch''
     else andThen (readStringValue challenge (lit ''transcript_hash'')) (\<lambda>claimedHash.
     if claimedHash \<noteq> encodeBase64URL transcriptHash then throw ''relay transcript hash mismatch''
     else andThen (readStringValue challenge (lit ''relay_proof'')) (\<lambda>proof.
     andThen (verifyRelayProof ed25519Verify (rm_relayPublicKey route) proof transcriptHash) (\<lambda>valid.
       if \<not> valid then throw ''relay proof invalid'' else Inr (selected, transcriptHash))))))))))))"

definition acceptChallenge :: "jrecord \<Rightarrow> unit act" where
  "acceptChallenge selected =
     modifyAct (\<lambda>c. c\<lparr>sr_contactDiscoveryEnabled := hasExtension selected contactDiscoveryLiveExtension\<rparr>)"

definition sendAuth :: "(js_string \<Rightarrow> URL option) \<Rightarrow> (bytes \<Rightarrow> bytes) \<Rightarrow> js_string \<Rightarrow> jrecord \<Rightarrow> bytes \<Rightarrow> unit act" where
  "sendAuth parseUrl ed25519Sign clientNonce challenge transcriptHash =
     bindAct (getAct sr_identity) (\<lambda>identity.
     bindAct (liftAct (readStringValue challenge (lit ''relay_nonce''))) (\<lambda>relayNonce.
     bindAct (liftAct (encodeFrame (JObject
       [(lit ''type'', JString (lit ''AUTH'')), (lit ''client_public_key'', JString (id_publicKey identity)),
        (lit ''client_nonce'', JString clientNonce), (lit ''relay_nonce'', JString relayNonce),
        (lit ''transcript_hash'', JString (encodeBase64URL transcriptHash)),
        (lit ''client_proof'', JString (encodeBase64URL (ed25519Sign (proofInput transcriptHash))))])))
       (sendRaw parseUrl)))"

definition finishAttach :: "jrecord \<Rightarrow> unit act" where
  "finishAttach ready =
     bindAct (liftAct (assertFrameType ready ''READY'')) (\<lambda>_.
     bindAct (liftAct (readStringValue ready (lit ''session_id''))) (\<lambda>sessionId.
     bindAct (liftAct (readStringValue ready (lit ''route_id''))) (\<lambda>routeId.
     bindAct (liftAct (readNumberValue ready (lit ''presence_ttl_seconds''))) (\<lambda>ttl.
     bindAct (liftAct (readNumberValue ready (lit ''heartbeat_interval_seconds''))) (\<lambda>interval.
     andDo (modifyAct (\<lambda>c. c\<lparr>sr_ready := Some \<lparr>rs_sessionId = sessionId, rs_routeId = routeId,
         rs_presenceTtlSeconds = ttl, rs_heartbeatIntervalSeconds = interval\<rparr>\<rparr>))
       (bindAct (getAct sr_route) (\<lambda>route. emitEvent (Attached sessionId routeId (rm_endpointUri route)))))))))"

end
