(* ===== verification/SameRelay_Machine.thy ===== *)
theory SameRelay_Machine
  imports SameRelay
begin

text \<open>
  The relay client as a state machine. A configuration is the client, how far the running \<^verbatim>\<open>attach\<close> has
  come, and, for the statements only, the transcript hash the relay last proved. \<open>relayStep\<close> has a rule for
  every public call, every socket event and every piece of \<^verbatim>\<open>attach\<close>, in any order the event loop allows with one \<^verbatim>\<open>attach\<close>
  at a time. The continuation of \<^verbatim>\<open>attach\<close> after READY is a microtask of the message event that
  resolves it, so \<open>Ready\<close> is one step.
\<close>

section \<open>Calls and steps\<close>

record relayEnv =
  env_parseUrl :: "js_string \<Rightarrow> URL option"
  env_localeCompare :: "js_string \<Rightarrow> js_string \<Rightarrow> int"
  env_sha256 :: "bytes \<Rightarrow> bytes"
  env_verify :: "bytes \<Rightarrow> bytes \<Rightarrow> bytes \<Rightarrow> bool res"
  env_sign :: "bytes \<Rightarrow> bytes"

datatype call =
    AnnouncePresence int int
  | Heartbeat int
  | Lookup js_string
  | AnnounceDiscovery bool
  | LookupContact bytes int js_string js_string
  | Rendezvous "bytes list" js_string "RelayRouteHint list" "js_string option"
  | SendEnvelope bytes js_string envelopeOptions
  | SendSealedEnvelope bytes js_string envelopeOptions
  | MarkPeerReceipt js_string
  | AbandonPending js_string
  | RetryPending
  | Disconnect

definition voidAct :: "'a act \<Rightarrow> unit act" where
  "voidAct m = bindAct m (\<lambda>_. returnAct ())"

fun runCall :: "relayEnv \<Rightarrow> call \<Rightarrow> unit act" where
  "runCall env (AnnouncePresence now ttlSeconds) = announcePresence (env_parseUrl env) now ttlSeconds"
| "runCall env (Heartbeat now) = heartbeat (env_parseUrl env) now"
| "runCall env (Lookup peerId) = lookupPeer (env_parseUrl env) peerId"
| "runCall env (AnnounceDiscovery discoverable) = announceContactDiscovery (env_parseUrl env) discoverable"
| "runCall env (LookupContact random now branchId key) = voidAct (lookupContact (env_parseUrl env) random now branchId key)"
| "runCall env (Rendezvous random peerId hints requested) =
     voidAct (rendezvous (env_parseUrl env) (env_localeCompare env) random peerId hints requested)"
| "runCall env (SendEnvelope random ciphertext options) = voidAct (sendEnvelope (env_parseUrl env) random ciphertext options)"
| "runCall env (SendSealedEnvelope random payload options) =
     voidAct (sendSealedEnvelope (env_parseUrl env) random payload options)"
| "runCall env (MarkPeerReceipt deliveryId) = markPeerReceipt deliveryId"
| "runCall env (AbandonPending deliveryId) = voidAct (abandonPendingEnvelope deliveryId)"
| "runCall env RetryPending = retryPending (env_parseUrl env)"
| "runCall env Disconnect = disconnectClient"

text \<open>Where a running \<^verbatim>\<open>attach\<close> is suspended.\<close>

datatype stage =
    Idle
  | Opening
  | AwaitChallenge js_string js_string
  | Checking js_string js_string jrecord
  | Signing js_string jrecord bytes
  | AwaitReady

fun waiting :: "stage \<Rightarrow> bool" where
  "waiting (AwaitChallenge clientNonce helloRaw) = True"
| "waiting AwaitReady = True"
| "waiting _ = False"

record transport =
  tr_client :: SameRelayClient
  tr_stage :: stage
  tr_proved :: "bytes option"

definition rejectWaiters :: "stage \<Rightarrow> stage" where
  "rejectWaiters st = (if waiting st then Idle else st)"

inductive relayStep :: "relayEnv \<Rightarrow> transport \<Rightarrow> effect list \<Rightarrow> transport \<Rightarrow> bool" for env :: relayEnv where
  Call: "runCall env call (tr_client t) = (r, out, c') \<Longrightarrow>
    relayStep env t out (t\<lparr>tr_client := c', tr_stage := (if call = Disconnect then rejectWaiters (tr_stage t) else tr_stage t)\<rparr>)"
| Begin: "tr_stage t = Idle \<Longrightarrow> attachBegin alreadyOpen (tr_client t) = (r, out, c') \<Longrightarrow>
    relayStep env t out \<lparr>tr_client = c', tr_stage = Opening, tr_proved = None\<rparr>"
| Hello: "tr_stage t = Opening \<Longrightarrow> sr_socket (tr_client t) \<noteq> None \<Longrightarrow>
    sendHello (env_parseUrl env) random now ((tr_client t)\<lparr>sr_socket := Some True\<rparr>) = (r, out, c') \<Longrightarrow>
    relayStep env t out (t\<lparr>tr_client := c',
      tr_stage := (case r of Inl _ \<Rightarrow> Idle | Inr (clientNonce, helloRaw) \<Rightarrow> AwaitChallenge clientNonce helloRaw)\<rparr>)"
| Frame: "sr_socket (tr_client t) = Some True \<Longrightarrow> \<not> waiting (tr_stage t) \<Longrightarrow>
    handleSocketMessage (env_parseUrl env) False now event (tr_client t) = (r, out, c') \<Longrightarrow>
    relayStep env t out (t\<lparr>tr_client := c'\<rparr>)"
| Bad_Frame: "sr_socket (tr_client t) = Some True \<Longrightarrow> waiting (tr_stage t) \<Longrightarrow>
    handleSocketMessage (env_parseUrl env) True now event (tr_client t) = (r, out, c') \<Longrightarrow> (\<forall>record. r \<noteq> Inr (Some record)) \<Longrightarrow>
    relayStep env t out (t\<lparr>tr_client := c'\<rparr>)"
| Challenge: "sr_socket (tr_client t) = Some True \<Longrightarrow> tr_stage t = AwaitChallenge clientNonce helloRaw \<Longrightarrow>
    handleSocketMessage (env_parseUrl env) True now event (tr_client t) = (Inr (Some challenge), out, c') \<Longrightarrow>
    relayStep env t out (t\<lparr>tr_client := c', tr_stage := Checking clientNonce helloRaw challenge\<rparr>)"
| Refuse: "tr_stage t = Checking clientNonce helloRaw challenge \<Longrightarrow>
    checkChallenge (env_sha256 env) (env_verify env) (sr_route (tr_client t)) clientNonce helloRaw now challenge = Inl e \<Longrightarrow>
    relayStep env t [] (t\<lparr>tr_stage := Idle\<rparr>)"
| Verify: "tr_stage t = Checking clientNonce helloRaw challenge \<Longrightarrow>
    checkChallenge (env_sha256 env) (env_verify env) (sr_route (tr_client t)) clientNonce helloRaw now challenge
      = Inr (selected, transcriptHash) \<Longrightarrow>
    acceptChallenge selected (tr_client t) = (r, out, c') \<Longrightarrow>
    relayStep env t out (t\<lparr>tr_client := c', tr_stage := Signing clientNonce challenge transcriptHash,
      tr_proved := Some transcriptHash\<rparr>)"
| Auth: "tr_stage t = Signing clientNonce challenge transcriptHash \<Longrightarrow>
    sendAuth (env_parseUrl env) (env_sign env) clientNonce challenge transcriptHash (tr_client t) = (r, out, c') \<Longrightarrow>
    relayStep env t out (t\<lparr>tr_client := c', tr_stage := (case r of Inl _ \<Rightarrow> Idle | Inr _ \<Rightarrow> AwaitReady)\<rparr>)"
| Ready: "sr_socket (tr_client t) = Some True \<Longrightarrow> tr_stage t = AwaitReady \<Longrightarrow>
    handleSocketMessage (env_parseUrl env) True now event (tr_client t) = (Inr (Some ready), out, c') \<Longrightarrow>
    finishAttach ready c' = (r, out', c'') \<Longrightarrow>
    relayStep env t (out @ out') (t\<lparr>tr_client := c'', tr_stage := Idle\<rparr>)"
| Closed: "sr_socket (tr_client t) \<noteq> None \<Longrightarrow> handleSocketClose closeCode (tr_client t) = (r, out, c') \<Longrightarrow>
    relayStep env t out (t\<lparr>tr_client := c', tr_stage := (if tr_stage t = Opening then Idle else rejectWaiters (tr_stage t))\<rparr>)"
| Socket_Error: "sr_socket (tr_client t) \<noteq> None \<Longrightarrow> handleSocketError (tr_client t) = (r, out, c') \<Longrightarrow>
    relayStep env t out (t\<lparr>tr_client := c', tr_stage := (if tr_stage t = Opening then Idle else tr_stage t)\<rparr>)"
| Timeout: "tr_stage t = Opening \<or> waiting (tr_stage t) \<Longrightarrow> relayStep env t [] (t\<lparr>tr_stage := Idle\<rparr>)"

inductive relayRun :: "relayEnv \<Rightarrow> transport \<Rightarrow> effect list \<Rightarrow> transport \<Rightarrow> bool" for env :: relayEnv where
  Done: "relayRun env t [] t"
| Step: "relayRun env t out t' \<Longrightarrow> relayStep env t' out' t'' \<Longrightarrow> relayRun env t (out @ out') t''"

definition newTransport :: "SameRelayClient \<Rightarrow> transport" where
  "newTransport c = \<lparr>tr_client = c, tr_stage = Idle, tr_proved = None\<rparr>"

end
