(* ===== verification/SameRelay_Effects.thy ===== *)
theory SameRelay_Effects
  imports SameRelay_Machine
begin

text \<open>
  A logic of the client's actions. \<open>allowed good P m Q\<close> says that from a client satisfying \<open>P\<close> the action
  \<open>m\<close>, whether it returns or throws, relates the client before, its effects and the client after by
  \<open>good\<close>, and establishes \<open>Q\<close> when it returns. The locale \<open>relay_effects\<close> asks of
  \<open>good\<close> only that it admits the elementary effects (an event, a frame sent in a session, one new route
  binding, a remembered or settled envelope, a disconnect) and composes; in it every public call and the handler of
  received frames are shown to be admitted. Theory \<open>SameRelay_Run\<close> instantiates it three times.
\<close>

section \<open>A logic of actions\<close>

definition allowed :: "(SameRelayClient \<Rightarrow> effect list \<Rightarrow> SameRelayClient \<Rightarrow> bool) \<Rightarrow> (SameRelayClient \<Rightarrow> bool) \<Rightarrow> 'a act
    \<Rightarrow> ('a \<Rightarrow> SameRelayClient \<Rightarrow> bool) \<Rightarrow> bool" where
  "allowed good P m Q \<longleftrightarrow> (\<forall>c r out c'. P c \<longrightarrow> m c = (r, out, c') \<longrightarrow> good c out c' \<and> (\<forall>x. r = Inr x \<longrightarrow> Q x c'))"

abbreviation steady :: "(SameRelayClient \<Rightarrow> effect list \<Rightarrow> SameRelayClient \<Rightarrow> bool) \<Rightarrow> (SameRelayClient \<Rightarrow> bool) \<Rightarrow> 'a act \<Rightarrow> bool" where
  "steady good P m \<equiv> allowed good P m (\<lambda>_. P)"

lemmas act_defs = bindAct_def getAct_def liftAct_def returnAct_def modifyAct_def effectAct_def

lemma allowedD: "allowed good P m Q \<Longrightarrow> m c = (r, out, c') \<Longrightarrow> P c \<Longrightarrow> good c out c'"
  by (auto simp: allowed_def)

lemma allowed_weaken:
  "allowed good P m Q \<Longrightarrow> (\<And>c. P' c \<Longrightarrow> P c) \<Longrightarrow> (\<And>x c. Q x c \<Longrightarrow> Q' x c) \<Longrightarrow> allowed good P' m Q'"
  unfolding allowed_def by blast

text \<open>What a route lookup may do to the client: bind one new pair, or nothing.\<close>

definition boundRoute :: "SameRelayClient \<Rightarrow> js_string \<Rightarrow> js_string \<Rightarrow> SameRelayClient" where
  "boundRoute c p r = c\<lparr>sr_targetRoutes := mapSet (sr_targetRoutes c) p r, sr_routeTargets := mapSet (sr_routeTargets c) r p\<rparr>"

lemma tryRoutes_effect:
  "tryRoutes tokens p rid c = (r, out, c') \<Longrightarrow>
     out = [] \<and> (case r of Inl _ \<Rightarrow> c' = c
       | Inr t \<Rightarrow> t \<in> set tokens \<and> t \<noteq> rid \<and> \<not> mapHas (sr_routeTargets c) t \<and> c' = boundRoute c p t)"
proof (induction tokens)
  case (Cons t tokens)
  show ?case
  proof (cases "t = rid \<or> mapHas (sr_routeTargets c) t")
    case True
    then have "tryRoutes tokens p rid c = (r, out, c')"
      using Cons.prems by (auto simp: bindAct_def getAct_def split: sum.splits prod.splits)
    then show ?thesis using Cons.IH by (auto split: sum.splits)
  next
    case False
    then show ?thesis using Cons.prems
      by (auto simp: bindAct_def getAct_def bindRoute_def modifyAct_def returnAct_def boundRoute_def)
  qed
qed (auto simp: liftAct_def)

lemma lookupRouteForPeer_effect:
  assumes "lookupRouteForPeer random p requested rid c = (r, out, c')"
  shows "out = [] \<and> (case r of Inl _ \<Rightarrow> c' = c
     | Inr t \<Rightarrow> mapGet (sr_targetRoutes c) p = Some t \<and> c' = c
         \<or> mapGet (sr_targetRoutes c) p = None \<and> t \<noteq> rid \<and> length (sr_targetRoutes c) < maxLiveTargetRoutes
           \<and> (\<forall>q. mapGet (sr_routeTargets c) t = Some q \<longrightarrow> q = p) \<and> c' = boundRoute c p t)"
proof (cases requested)
  case None
  show ?thesis
  proof (cases "mapGet (sr_targetRoutes c) p")
    case (Some t)
    with None assms show ?thesis by (auto simp: lookupRouteForPeer_def act_defs)
  next
    case route: None
    show ?thesis
    proof (cases "length (sr_targetRoutes c) \<ge> maxLiveTargetRoutes")
      case True
      with None route assms show ?thesis
        by (auto simp: lookupRouteForPeer_def allocateLookupRoute_def requireTargetRouteCapacity_def act_defs)
    next
      case False
      with None route assms
      have "tryRoutes (map encodeBase64URL (take routeAllocationAttempts random)) p rid c = (r, out, c')"
        by (auto simp: lookupRouteForPeer_def allocateLookupRoute_def requireTargetRouteCapacity_def act_defs split: prod.splits sum.splits)
      from tryRoutes_effect [OF this] route False show ?thesis
        by (auto simp: mapHas_mapGet split: sum.splits)
    qed
  qed
next
  case (Some q)
  then show ?thesis using assms
    by (auto simp: lookupRouteForPeer_def requireTargetRouteCapacity_def bindRoute_def boundRoute_def act_defs
        split: if_splits sum.splits)
qed

definition settled :: "js_string \<Rightarrow> effect list \<Rightarrow> bool" where
  "settled d out \<longleftrightarrow> Emit (PeerReceipt d) \<in> set out \<or> Emit (PendingAbandoned d) \<in> set out
     \<or> Emit (RelayAck d (lit ''relay.forwarded'')) \<in> set out"

named_theorems act_rules \<open>rules for allowed actions\<close>

text \<open>
  A relation between the client before, the effects and the client after that admits every elementary
  effect of the client admits every call and every received frame.
\<close>

locale relay_effects =
  fixes good :: "SameRelayClient \<Rightarrow> effect list \<Rightarrow> SameRelayClient \<Rightarrow> bool"
  assumes good_refl: "good c [] c"
    and good_trans: "good c out c1 \<Longrightarrow> good c1 out' c2 \<Longrightarrow> good c (out @ out') c2"
    and good_emit: "good c [Emit e] c"
    and good_close: "good c [CloseSocket code reason] c"
    and good_transmit: "sr_ready c \<noteq> None \<Longrightarrow> good c [Transmit f] c"
    and good_sequence: "good c [] (c\<lparr>sr_sequence := n\<rparr>)"
    and good_bound: "sr_ready c = Some rd \<Longrightarrow> mapGet (sr_targetRoutes c) p = None \<Longrightarrow> t \<noteq> rs_routeId rd
      \<Longrightarrow> length (sr_targetRoutes c) < maxLiveTargetRoutes \<Longrightarrow> \<forall>q. mapGet (sr_routeTargets c) t = Some q \<longrightarrow> q = p
      \<Longrightarrow> good c [] (boundRoute c p t)"
    and good_remember: "mapHas (sr_pending c) (pe_deliveryId env) \<or> int (length (sr_pending c)) < sr_maxPendingEnvelopes c
      \<Longrightarrow> good c [] (c\<lparr>sr_pending := mapSet (sr_pending c) (pe_deliveryId env) env\<rparr>)"
    and good_settle: "settled d [x] \<Longrightarrow> good c [x] (c\<lparr>sr_pending := mapDelete (sr_pending c) d\<rparr>)"
    and good_disconnect: "good c [] (c\<lparr>sr_targetRoutes := [], sr_routeTargets := [], sr_ready := None,
      sr_contactDiscoveryEnabled := b, sr_socket := None\<rparr>)"
begin

lemma bind_rule: "allowed good P m Q \<Longrightarrow> (\<And>x. allowed good (Q x) (f x) S) \<Longrightarrow> allowed good P (bindAct m f) S"
  unfolding allowed_def bindAct_def by (clarsimp split: sum.splits prod.splits) (metis good_trans)

lemmas steady_bind [act_rules] = bind_rule [where Q = "\<lambda>_. P" and P = P for P]

lemma steady_basic [act_rules]:
  "steady good P (returnAct x)" "steady good P (liftAct m)" "steady good P (getAct g)" "steady good P (emitEvent e)"
  "steady good P (effectAct (CloseSocket code reason))"
  by (auto simp: allowed_def act_defs good_refl good_emit good_close)

lemma steady_cases [act_rules]:
  "(b \<Longrightarrow> allowed good P m Q) \<Longrightarrow> (\<not> b \<Longrightarrow> allowed good P m' Q) \<Longrightarrow> allowed good P (if b then m else m') Q"
  "(v = None \<Longrightarrow> allowed good P m Q) \<Longrightarrow> (\<And>x. v = Some x \<Longrightarrow> allowed good P (f x) Q)
    \<Longrightarrow> allowed good P (case v of None \<Rightarrow> m | Some x \<Rightarrow> f x) Q"
  by (auto split: option.split)

lemma steady_send [act_rules]:
  "steady good P requireReady" "steady good P requireContactDiscovery" "steady good P requireTargetRouteCapacity"
  "steady good P (requireEnvelopeRoute requested ready)" "steady good P (sendReadyFrame parseUrl v)"
  "steady good P (sendPendingEnvelope parseUrl e)"
proof -
  show ready: "steady good P requireReady" unfolding requireReady_def by (intro act_rules)
  show "steady good P requireContactDiscovery" unfolding requireContactDiscovery_def by (intro act_rules ready)
  show "steady good P requireTargetRouteCapacity" unfolding requireTargetRouteCapacity_def by (intro act_rules)
  show "steady good P (requireEnvelopeRoute requested ready)"
    unfolding requireEnvelopeRoute_def by (intro act_rules) (auto intro!: act_rules split: list.split)
  show send: "steady good P (sendReadyFrame parseUrl v)" for v
  proof -
    have "good c [Transmit f, Emit x] c" if "sr_ready c \<noteq> None" for c f x
      using good_trans [OF good_transmit [OF that] good_emit] by simp
    then show ?thesis
      unfolding allowed_def sendReadyFrame_def requireReady_def sendRaw_def
      by (auto simp: act_defs good_refl split: option.splits sum.splits)
  qed
  show "steady good P (sendPendingEnvelope parseUrl e)" unfolding sendPendingEnvelope_def by (intro act_rules ready send)
qed

lemma steady_sendAll [act_rules]: "steady good P (sendAll parseUrl es)"
  by (induction es) (simp_all add: act_rules)

lemma steady_sequence [act_rules]: "(\<And>c n. P (c\<lparr>sr_sequence := n\<rparr>) = P c) \<Longrightarrow> steady good P nextSequence"
  by (auto simp: allowed_def nextSequence_def act_defs good_sequence)

subsection \<open>Calls\<close>

lemma requireReady_rule: "allowed good P requireReady (\<lambda>rd c. sr_ready c = Some rd)"
  by (auto simp: allowed_def requireReady_def act_defs good_refl split: option.splits)

lemma lookupRoute_rule [act_rules]:
  "rid = rs_routeId rd \<Longrightarrow> steady good (\<lambda>c. sr_ready c = Some rd) (lookupRouteForPeer random p requested rid)"
  unfolding allowed_def using lookupRouteForPeer_effect
  by (fastforce simp: boundRoute_def good_refl intro: good_bound [unfolded boundRoute_def] split: sum.splits)

abbreviation sat :: "'a act \<Rightarrow> bool" where
  "sat m \<equiv> steady good (\<lambda>_. True) m"

lemma requiring_ready:
  assumes "\<And>rd. steady good (\<lambda>c. sr_ready c = Some rd) (f rd)"
  shows "sat (bindAct requireReady f)"
  by (rule bind_rule [OF requireReady_rule allowed_weaken [OF assms]]) simp_all

lemma sat_rendezvous [act_rules]: "sat (rendezvous parseUrl localeCompare random p hints requested)"
  unfolding rendezvous_def by (rule requiring_ready) (intro act_rules; simp)

lemma sat_remember [act_rules]: "sat (rememberPending e)"
  by (auto simp: allowed_def rememberPending_def act_defs good_refl intro: good_remember)

lemma sat_sendEnvelope [act_rules]:
  "sat (sendSealedEnvelope parseUrl random payload options)" "sat (sendEnvelope parseUrl random ciphertext options)"
  unfolding sendEnvelope_def sendSealedEnvelope_def Let_def by (intro act_rules)+

lemma dropPending_rule [act_rules]: "(\<And>c. P (c\<lparr>sr_pending := mapDelete (sr_pending c) d\<rparr>) = P c) \<Longrightarrow> settled d [Emit e]
    \<Longrightarrow> steady good P (andDo (dropPending d) (emitEvent e))"
  by (auto simp: allowed_def dropPending_def act_defs good_settle)

lemma sat_disconnect [act_rules]: "sat disconnectClient" "sat (handleSocketClose code)"
proof -
  have clear: "sat (modifyAct (\<lambda>c. (clearRoutes c)\<lparr>sr_ready := None, sr_contactDiscoveryEnabled := b c, sr_socket := None\<rparr>))" for b
    by (auto simp: allowed_def modifyAct_def clearRoutes_def good_disconnect)
  show "sat disconnectClient" unfolding disconnectClient_def by (intro act_rules clear)
  have "sat (modifyAct (\<lambda>c. (clearRoutes c)\<lparr>sr_ready := None, sr_socket := None\<rparr>))"
    using good_disconnect [of c "sr_contactDiscoveryEnabled c" for c] by (simp add: allowed_def modifyAct_def clearRoutes_def)
  then show "sat (handleSocketClose code)" unfolding handleSocketClose_def by (intro act_rules)
qed

lemma sat_settle [act_rules]: "sat (markPeerReceipt d)" "sat (abandonPendingEnvelope d)"
proof -
  show "sat (markPeerReceipt d)" unfolding markPeerReceipt_def by (intro act_rules) (simp_all add: settled_def)
  have "sat (andDo (dropPending d) (andDo (emitEvent (PendingAbandoned d)) (returnAct True)))"
    by (auto simp: allowed_def dropPending_def act_defs settled_def intro: good_settle)
  then show "sat (abandonPendingEnvelope d)"
    unfolding abandonPendingEnvelope_def by (intro steady_bind [OF steady_basic(3)] steady_cases steady_basic(1))
qed

lemma sat_runCall: "sat (runCall env call)"
  by (cases call)
    (simp_all only: runCall.simps voidAct_def announcePresence_def heartbeat_def lookupPeer_def announceContactDiscovery_def
      lookupContact_def retryPending_def Let_def, (intro act_rules refl)+)

lemma sat_message: "sat (handleSocketMessage parseUrl w now event)"
proof -
  have "sat (processReadyFrame now r)" for r
    unfolding processReadyFrame_def processAck_def processEnvelope_def processProbe_def processError_def
    by (intro act_rules) (simp_all add: settled_def)
  then show ?thesis
    unfolding handleSocketMessage_def by (auto intro!: act_rules split: option.split sum.split)
qed

end

end
