(* ===== verification/SameRelay_Run.thy ===== *)
theory SameRelay_Run
  imports SameRelay_Effects
begin

text \<open>
  What holds along every run of a relay client: the route tables stay one-to-one, bounded and tied to the session,
  the pending envelopes stay bounded and are never lost without an announcement, and neither a session nor
  anything but a HELLO exists before the pinned relay has proved the transcript of the handshake.
\<close>

section \<open>The invariant of the client\<close>

definition routesOk :: "SameRelayClient \<Rightarrow> bool" where
  "routesOk c \<longleftrightarrow> wfMap (sr_targetRoutes c) \<and> wfMap (sr_routeTargets c) \<and> length (sr_targetRoutes c) \<le> maxLiveTargetRoutes
     \<and> length (sr_routeTargets c) = length (sr_targetRoutes c)
     \<and> (\<forall>p r. mapGet (sr_targetRoutes c) p = Some r \<longleftrightarrow> mapGet (sr_routeTargets c) r = Some p)
     \<and> (case sr_ready c of
          None \<Rightarrow> sr_targetRoutes c = [] \<and> sr_routeTargets c = []
        | Some ready \<Rightarrow> \<not> mapHas (sr_routeTargets c) (rs_routeId ready))"

definition pendingOk :: "SameRelayClient \<Rightarrow> bool" where
  "pendingOk c \<longleftrightarrow> wfMap (sr_pending c) \<and> int (length (sr_pending c)) \<le> sr_maxPendingEnvelopes c
     \<and> sr_maxPendingEnvelopes c \<le> defaultMaxPendingEnvelopes \<and> (\<forall>e \<in> set (sr_pending c). pe_deliveryId (snd e) = fst e)"

definition clientInv :: "RelayRouteMaterial \<Rightarrow> SameRelayClient \<Rightarrow> bool" where
  "clientInv route c \<longleftrightarrow> routesOk c \<and> pendingOk c \<and> (sr_socket c = None \<longrightarrow> sr_ready c = None) \<and> sr_route c = route"

lemma clientInv_bindRoute:
  assumes inv: "clientInv route c" and ready: "sr_ready c = Some rd"
    and new: "mapGet (sr_targetRoutes c) p = None" "\<not> mapHas (sr_routeTargets c) r" "r \<noteq> rs_routeId rd"
    and room: "length (sr_targetRoutes c) < maxLiveTargetRoutes"
  shows "clientInv route (c\<lparr>sr_targetRoutes := mapSet (sr_targetRoutes c) p r, sr_routeTargets := mapSet (sr_routeTargets c) r p\<rparr>)"
proof -
  have "mapGet (sr_routeTargets c) r = None" and "\<not> mapHas (sr_targetRoutes c) p"
    using new by (auto simp: mapHas_mapGet)
  moreover have sym: "mapGet (sr_targetRoutes c) q = Some s \<longleftrightarrow> mapGet (sr_routeTargets c) s = Some q" for q s
    using inv unfolding clientInv_def routesOk_def by blast
  moreover have "mapGet (sr_targetRoutes c) q \<noteq> Some r" for q
    by (simp add: sym \<open>mapGet (sr_routeTargets c) r = None\<close>)
  moreover have "mapGet (sr_routeTargets c) q \<noteq> Some p" for q
    by (simp add: sym [symmetric] new(1))
  ultimately show ?thesis
    using inv ready new room by (simp add: clientInv_def routesOk_def pendingOk_def length_mapSet)
qed

lemma clientInv_pending:
  assumes "clientInv route c" "pe_deliveryId p = d" "mapHas (sr_pending c) d \<or> int (length (sr_pending c)) < sr_maxPendingEnvelopes c"
  shows "clientInv route (c\<lparr>sr_pending := mapSet (sr_pending c) d p\<rparr>)"
proof -
  have "\<forall>e \<in> set (mapSet (sr_pending c) d p). pe_deliveryId (snd e) = fst e"
    using assms(1,2) set_mapSet [of "sr_pending c" d p] by (auto simp: clientInv_def pendingOk_def)
  then show ?thesis
    using assms by (cases "sr_ready c") (auto simp: clientInv_def pendingOk_def routesOk_def length_mapSet)
qed

lemma clientInv_drop: "clientInv route c \<Longrightarrow> clientInv route (c\<lparr>sr_pending := mapDelete (sr_pending c) d\<rparr>)"
proof -
  assume inv: "clientInv route c"
  have "length (mapDelete (sr_pending c) d) \<le> length (sr_pending c)" by (simp add: mapDelete_def)
  then have "int (length (mapDelete (sr_pending c) d)) \<le> sr_maxPendingEnvelopes c"
    using inv by (simp add: clientInv_def pendingOk_def)
  moreover have "set (mapDelete (sr_pending c) d) \<subseteq> set (sr_pending c)" by (auto simp: mapDelete_def)
  ultimately show ?thesis
    using inv by (cases "sr_ready c") (auto simp: clientInv_def pendingOk_def routesOk_def)
qed

interpretation client: relay_effects "\<lambda>c out c'. clientInv route c \<longrightarrow> clientInv route c'" for route
proof unfold_locales
  fix c :: SameRelayClient and rd p t
  assume new: "sr_ready c = Some rd" "mapGet (sr_targetRoutes c) p = None" "t \<noteq> rs_routeId rd"
    "length (sr_targetRoutes c) < maxLiveTargetRoutes" "\<forall>q. mapGet (sr_routeTargets c) t = Some q \<longrightarrow> q = p"
  show "clientInv route c \<longrightarrow> clientInv route (boundRoute c p t)"
  proof
    assume inv: "clientInv route c"
    then have "mapGet (sr_routeTargets c) t \<noteq> Some p"
      using new(2) unfolding clientInv_def routesOk_def by (metis option.distinct(1))
    then have "\<not> mapHas (sr_routeTargets c) t"
      using new(5) by (cases "mapGet (sr_routeTargets c) t") (auto simp: mapHas_mapGet)
    then show "clientInv route (boundRoute c p t)"
      using clientInv_bindRoute [OF inv new(1,2)] new(3,4) by (simp add: boundRoute_def)
  qed
next
  fix c :: SameRelayClient and n
  show "clientInv route c \<longrightarrow> clientInv route (c\<lparr>sr_sequence := n\<rparr>)"
    by (simp add: clientInv_def routesOk_def pendingOk_def split: option.split)
next
  fix c :: SameRelayClient and b
  show "clientInv route c \<longrightarrow> clientInv route (c\<lparr>sr_targetRoutes := [], sr_routeTargets := [], sr_ready := None,
      sr_contactDiscoveryEnabled := b, sr_socket := None\<rparr>)"
    by (simp add: clientInv_def routesOk_def pendingOk_def mapGet_def)
qed (auto intro: clientInv_pending clientInv_drop)

text \<open>Without a session nothing is sent, and no call makes one.\<close>

interpretation quiet: relay_effects "\<lambda>c out c'. sr_ready c = None \<longrightarrow> sr_ready c' = None \<and> (\<forall>f. Transmit f \<notin> set out)"
  by unfold_locales (auto simp: boundRoute_def settled_def)

text \<open>A pending envelope stays pending until its end is announced.\<close>

interpretation account: relay_effects "\<lambda>c out c'. mapHas (sr_pending c) d \<longrightarrow> mapHas (sr_pending c') d \<or> settled d out" for d
  by unfold_locales (auto simp: boundRoute_def settled_def)

section \<open>The invariant of a run\<close>

definition provedBy :: "relayEnv \<Rightarrow> RelayRouteMaterial \<Rightarrow> bytes \<Rightarrow> bool" where
  "provedBy env route h \<longleftrightarrow> (\<exists>clientNonce helloRaw now challenge selected.
     checkChallenge (env_sha256 env) (env_verify env) route clientNonce helloRaw now challenge = Inr (selected, h))"

fun afterProof :: "stage \<Rightarrow> bool" where
  "afterProof (Signing clientNonce challenge h) = True"
| "afterProof AwaitReady = True"
| "afterProof _ = False"

definition transportInv :: "relayEnv \<Rightarrow> RelayRouteMaterial \<Rightarrow> transport \<Rightarrow> bool" where
  "transportInv env route t \<longleftrightarrow> clientInv route (tr_client t)
     \<and> (tr_stage t \<noteq> Idle \<longrightarrow> sr_ready (tr_client t) = None)
     \<and> (sr_ready (tr_client t) \<noteq> None \<or> afterProof (tr_stage t) \<longrightarrow> (\<exists>h. tr_proved t = Some h \<and> provedBy env route h))"

section \<open>The pieces of attach\<close>

lemma sendRaw_effect: "sendRaw parseUrl f c = (r, out, c') \<Longrightarrow> c' = c \<and> (\<forall>f'. Transmit f' \<in> set out \<longrightarrow> f' = f)"
  by (auto simp: sendRaw_def act_defs split: sum.splits if_splits)

lemma sendHello_effect:
  assumes "sendHello parseUrl random now c = (r, out, c')"
  shows "c' = c \<and> (\<forall>f. Transmit f \<in> set out \<longrightarrow> encodeFrame (helloFrame c (encodeBase64URL random) now) = Inr f)"
proof (cases "encodeFrame (helloFrame c (encodeBase64URL random) now)")
  case (Inr f)
  then show ?thesis
    using assms sendRaw_effect [of parseUrl f c] by (auto simp: sendHello_def Let_def act_defs split: sum.splits prod.splits)
qed (use assms in \<open>auto simp: sendHello_def Let_def act_defs\<close>)

lemma sendAuth_effect: "sendAuth parseUrl sign clientNonce challenge h c = (r, out, c') \<Longrightarrow> c' = c"
  by (auto simp: sendAuth_def act_defs dest: sendRaw_effect split: sum.splits prod.splits)

lemma clientInv_socket: "clientInv route c \<Longrightarrow> sr_ready c = None \<or> s \<noteq> None \<Longrightarrow> clientInv route (c\<lparr>sr_socket := s\<rparr>)"
  by (cases "sr_ready c") (auto simp: clientInv_def routesOk_def pendingOk_def)

lemma attachBegin_effect:
  assumes "attachBegin b c = (r, out, c')"
  shows "sr_ready c' = None \<and> sr_pending c' = sr_pending c \<and> (\<forall>f. Transmit f \<notin> set out) \<and> (clientInv route c \<longrightarrow> clientInv route c')"
proof -
  obtain r1 out1 c1 where d: "disconnectClient c = (r1, out1, c1)" by (cases "disconnectClient c")
  then have "clientInv route c \<longrightarrow> clientInv route c1" using allowedD [OF client.sat_disconnect(1)] by blast
  moreover have "sr_ready c1 = None" "sr_pending c1 = sr_pending c" "\<forall>f. Transmit f \<notin> set out1" "\<exists>u. r1 = Inr u"
    using d by (auto simp: disconnectClient_def clearRoutes_def act_defs split: if_splits)
  moreover have "out = out1" "c' = c1\<lparr>sr_socket := Some b\<rparr>"
    using assms d \<open>\<exists>u. r1 = Inr u\<close> by (auto simp: attachBegin_def act_defs)
  ultimately show ?thesis by (auto intro: clientInv_socket)
qed

lemma finishAttach_inv:
  assumes "clientInv route c" "sr_ready c = None" "sr_socket c \<noteq> None" "finishAttach ready c = (r, out, c')"
  shows "clientInv route c'"
proof -
  have "c' = c \<or> (\<exists>rd. c' = c\<lparr>sr_ready := Some rd\<rparr>)"
    using assms(4) by (auto simp: finishAttach_def act_defs split: sum.splits)
  moreover have "clientInv route (c\<lparr>sr_ready := Some rd\<rparr>)" for rd
    using assms(1-3) by (auto simp: clientInv_def routesOk_def pendingOk_def)
  ultimately show ?thesis using assms(1) by auto
qed

lemma handleSocketMessage_waiting:
  "handleSocketMessage parseUrl True now event c = (r, out, c') \<Longrightarrow> c' = c"
  by (auto simp: handleSocketMessage_def act_defs split: option.splits sum.splits if_splits)

lemma rejectWaiters_Idle: "rejectWaiters st \<noteq> Idle \<Longrightarrow> st \<noteq> Idle"
  "afterProof (rejectWaiters st) \<Longrightarrow> afterProof st"
  by (auto simp: rejectWaiters_def split: if_splits)


section \<open>Steps\<close>

lemma transportInv_step:
  assumes inv: "transportInv env route t" and step: "relayStep env t out t'"
  shows "transportInv env route t'"
proof -
  note inv' = inv [unfolded transportInv_def]
  have client: "clientInv route (tr_client t)" and rt: "sr_route (tr_client t) = route"
    using inv' by (auto simp: clientInv_def)
  have idle: "transportInv env route (t\<lparr>tr_client := c', tr_stage := st\<rparr>)"
    if "clientInv route c'" "sr_ready (tr_client t) = None \<Longrightarrow> sr_ready c' = None" "st \<noteq> Idle \<Longrightarrow> tr_stage t \<noteq> Idle"
      "afterProof st \<Longrightarrow> afterProof (tr_stage t)" for c' st
    using that inv' unfolding transportInv_def by auto
  show ?thesis
    using step
  proof cases
    case (Call call r c')
    have "clientInv route c'" "sr_ready (tr_client t) = None \<Longrightarrow> sr_ready c' = None"
      using allowedD [OF client.sat_runCall Call(2)] allowedD [OF quiet.sat_runCall Call(2)] client by auto
    then show ?thesis unfolding Call(1) by (intro idle) (auto dest: rejectWaiters_Idle split: if_splits)
  next
    case (Begin b r c')
    then show ?thesis using attachBegin_effect client by (fastforce simp: transportInv_def)
  next
    case (Hello random now r c')
    have "clientInv route c'" "sr_ready (tr_client t) = None \<Longrightarrow> sr_ready c' = None"
      using sendHello_effect [OF Hello(4)] clientInv_socket [OF client, of "Some True"] by auto
    then show ?thesis unfolding Hello(1) using Hello(2) by (intro idle) (auto split: sum.splits)
  next
    case (Frame now event r c')
    have "clientInv route c'" "sr_ready (tr_client t) = None \<Longrightarrow> sr_ready c' = None"
      using allowedD [OF client.sat_message Frame(4)] allowedD [OF quiet.sat_message Frame(4)] client by auto
    then show ?thesis unfolding Frame(1) using idle [of c' "tr_stage t"] by simp
  next
    case (Bad_Frame now event r c')
    then show ?thesis using inv by (auto dest: handleSocketMessage_waiting)
  next
    case (Challenge clientNonce helloRaw now event challenge c')
    then show ?thesis using client by (auto dest!: handleSocketMessage_waiting intro!: idle)
  next
    case Refuse
    then show ?thesis using idle [OF client, of Idle] by auto
  next
    case (Verify clientNonce helloRaw challenge now selected h r c')
    then have "provedBy env route h" unfolding provedBy_def using rt by blast
    moreover have "clientInv route c'" "sr_ready c' = sr_ready (tr_client t)"
      using Verify(4) client
      by (auto simp: acceptChallenge_def modifyAct_def clientInv_def routesOk_def pendingOk_def split: option.split)
    ultimately show ?thesis using inv' Verify(1,2) by (auto simp: transportInv_def)
  next
    case (Auth clientNonce challenge h r c')
    then have "c' = tr_client t" by (auto dest: sendAuth_effect)
    then show ?thesis unfolding Auth(1) using client Auth(2) by (intro idle) (auto split: sum.splits)
  next
    case (Ready now event ready out1 c' r out2 c'')
    then have "c' = tr_client t" "sr_ready (tr_client t) = None" "\<exists>h. tr_proved t = Some h \<and> provedBy env route h"
      using inv' by (auto dest: handleSocketMessage_waiting)
    with Ready show ?thesis using finishAttach_inv [OF client] by (auto simp: transportInv_def)
  next
    case (Closed code r c')
    have "clientInv route c'" "sr_ready (tr_client t) = None \<Longrightarrow> sr_ready c' = None"
      using allowedD [OF client.sat_disconnect(2) Closed(3)] allowedD [OF quiet.sat_disconnect(2) Closed(3)] client by auto
    then show ?thesis unfolding Closed(1) by (intro idle) (auto dest: rejectWaiters_Idle split: if_splits)
  next
    case (Socket_Error r c')
    then have "c' = tr_client t" by (simp add: handleSocketError_def effectAct_def)
    then show ?thesis unfolding Socket_Error(1) using client by (intro idle) (auto split: if_splits)
  next
    case Timeout
    then show ?thesis using idle [OF client, of Idle] by auto
  qed
qed

lemma transportInv_run: "relayRun env t out t' \<Longrightarrow> transportInv env route t \<Longrightarrow> transportInv env route t'"
  by (induction rule: relayRun.induct) (auto intro: transportInv_step)

lemma restorePending_inv:
  assumes "restorePending n m ps = Inr m'" "wfMap m" "int (length m) \<le> n" "\<forall>e \<in> set m. pe_deliveryId (snd e) = fst e"
  shows "wfMap m' \<and> int (length m') \<le> n \<and> (\<forall>e \<in> set m'. pe_deliveryId (snd e) = fst e)"
  using assms
proof (induction n m ps rule: restorePending.induct)
  case (2 n m p ps)
  let ?m = "mapSet m (spe_deliveryId p) (newPending p)"
  have "int (length ?m) \<le> n" "restorePending n ?m ps = Inr m'"
    using 2 by (auto simp: length_mapSet split: if_splits)
  moreover have "\<forall>e \<in> set ?m. pe_deliveryId (snd e) = fst e"
    using 2 by (auto simp: set_mapSet newPending_def)
  ultimately show ?case using 2 by (auto split: if_splits)
qed auto

lemma newClient_inv:
  assumes "newClient parseUrl route identity maxFrame maxPending ps = Inr c"
  shows "transportInv env route (newTransport c)"
proof -
  have "sr_maxPendingEnvelopes c \<le> defaultMaxPendingEnvelopes" "restorePending (sr_maxPendingEnvelopes c) [] ps = Inr (sr_pending c)"
    "0 \<le> sr_maxPendingEnvelopes c" "sr_route c = route"
    "sr_targetRoutes c = []" "sr_routeTargets c = []" "sr_ready c = None" "sr_socket c = None"
    using assms by (auto simp: newClient_def assertVerifiedRelayRouteMaterial_def boundedPendingEnvelopeLimit_def res_simps split: if_splits)
  moreover from this have "pendingOk c"
    using restorePending_inv [of "sr_maxPendingEnvelopes c" "[]" ps "sr_pending c"] by (simp add: pendingOk_def)
  ultimately show ?thesis
    by (simp add: transportInv_def newTransport_def clientInv_def routesOk_def mapGet_def)
qed

section \<open>Traffic and pending envelopes along a run\<close>

lemma transmit_proved:
  assumes inv: "transportInv env route t" and step: "relayStep env t out t'" and sent: "Transmit f \<in> set out"
  shows "(\<exists>h. tr_proved t = Some h \<and> provedBy env route h) \<or> (\<exists>c clientNonce now. encodeFrame (helloFrame c clientNonce now) = Inr f)"
proof -
  have ready: ?thesis if "sr_ready (tr_client t) \<noteq> None \<or> afterProof (tr_stage t)"
    using inv that unfolding transportInv_def by auto
  show ?thesis
    using step
  proof cases
    case (Call call r c')
    then show ?thesis using allowedD [OF quiet.sat_runCall Call(2)] sent ready by blast
  next
    case (Begin b r c')
    then show ?thesis using attachBegin_effect sent by blast
  next
    case (Hello random now r c')
    then show ?thesis using sendHello_effect [OF Hello(4)] sent by blast
  next
    case (Frame now event r c')
    then show ?thesis using allowedD [OF quiet.sat_message Frame(4)] sent ready by blast
  next
    case (Bad_Frame now event r c')
    then show ?thesis using allowedD [OF quiet.sat_message Bad_Frame(4)] sent ready by blast
  next
    case (Challenge clientNonce helloRaw now event challenge c')
    then show ?thesis using allowedD [OF quiet.sat_message Challenge(4)] sent ready by blast
  next
    case (Verify clientNonce helloRaw challenge now selected h r c')
    then show ?thesis using sent by (auto simp: acceptChallenge_def modifyAct_def)
  next
    case (Auth clientNonce challenge h r c')
    then show ?thesis using ready by simp
  next
    case (Ready now event ready out1 c' r out2 c'')
    then show ?thesis using ready by simp
  next
    case (Closed code r c')
    then show ?thesis using allowedD [OF quiet.sat_disconnect(2) Closed(3)] sent ready by blast
  next
    case (Socket_Error r c')
    then show ?thesis using sent by (auto simp: handleSocketError_def effectAct_def)
  qed (use sent in auto)
qed

lemma pending_step:
  assumes step: "relayStep env t out t'" and "mapHas (sr_pending (tr_client t)) d"
  shows "mapHas (sr_pending (tr_client t')) d \<or> settled d out"
  using step
proof cases
  case (Call call r c')
  then show ?thesis using allowedD [OF account.sat_runCall Call(2)] assms(2) by simp
next
  case (Begin b r c')
  then show ?thesis using attachBegin_effect [OF Begin(3)] assms(2) by simp
next
  case (Hello random now r c')
  then show ?thesis using sendHello_effect [OF Hello(4)] assms(2) by simp
next
  case (Frame now event r c')
  then show ?thesis using allowedD [OF account.sat_message Frame(4)] assms(2) by simp
next
  case (Bad_Frame now event r c')
  then show ?thesis using assms(2) by (auto dest: handleSocketMessage_waiting)
next
  case (Challenge clientNonce helloRaw now event challenge c')
  then show ?thesis using assms(2) by (auto dest: handleSocketMessage_waiting)
next
  case (Verify clientNonce helloRaw challenge now selected h r c')
  then show ?thesis using assms(2) by (auto simp: acceptChallenge_def modifyAct_def)
next
  case (Auth clientNonce challenge h r c')
  then show ?thesis using assms(2) by (auto dest: sendAuth_effect)
next
  case (Ready now event ready out1 c' r out2 c'')
  moreover from this have "sr_pending c'' = sr_pending c'"
    by (auto simp: finishAttach_def act_defs split: sum.splits)
  ultimately show ?thesis using assms(2) by (auto dest: handleSocketMessage_waiting)
next
  case (Closed code r c')
  then show ?thesis using allowedD [OF account.sat_disconnect(2) Closed(3)] assms(2) by simp
next
  case (Socket_Error r c')
  then show ?thesis using assms(2) by (auto simp: handleSocketError_def effectAct_def)
qed (use assms(2) in auto)

lemma settled_append: "settled d out \<or> settled d out' \<Longrightarrow> settled d (out @ out')"
  by (auto simp: settled_def)

lemma pending_run:
  "relayRun env t out t' \<Longrightarrow> mapHas (sr_pending (tr_client t)) d \<Longrightarrow> mapHas (sr_pending (tr_client t')) d \<or> settled d out"
  by (induction rule: relayRun.induct) (auto dest: pending_step intro: settled_append)

section \<open>The handshake\<close>

lemma computeTranscriptHash_Inr:
  "computeTranscriptHash sha256 helloRaw selected clientNonce relayNonce relayPublicKey = Inr h \<longleftrightarrow>
     (\<exists>selectedRaw client relay key. encodeFrame (JObject selected) = Inr selectedRaw \<and> decodeBase64URL clientNonce = Inr client
       \<and> decodeBase64URL relayNonce = Inr relay \<and> decodeBase64URL relayPublicKey = Inr key
       \<and> h = sha256 (textEncode helloRaw @ textEncode selectedRaw @ client @ relay @ key))"
  by (auto simp: computeTranscriptHash_def res_simps)

lemma verifyRelayProof_Inr:
  "verifyRelayProof verify relayPublicKey proof h = Inr b \<longleftrightarrow>
     (\<exists>key signature. decodeBase64URL relayPublicKey = Inr key \<and> decodeBase64URL proof = Inr signature
       \<and> verify key signature (textEncode relayProofDomain @ h) = Inr b)"
  by (auto simp: verifyRelayProof_def proofInput_def res_simps)

lemma assertFrameType_Inr: "assertFrameType r t = Inr u \<longleftrightarrow> readStringValue r (lit ''type'') = Inr (lit t)"
  by (auto simp: assertFrameType_def res_simps split: if_splits)

lemma requireEnvelopeRoute_effect:
  "requireEnvelopeRoute requested rid c = (r, out, c') \<Longrightarrow> out = [] \<and> c' = c
     \<and> (\<forall>route. r = Inr route \<longrightarrow> mapHas (sr_routeTargets c) route)"
  by (cases requested; cases "mapKeys (sr_routeTargets c)"; cases "tl (mapKeys (sr_routeTargets c))")
    (auto simp: requireEnvelopeRoute_def act_defs set_mapKeys [symmetric] split: sum.splits if_splits)

lemma sendPendingEnvelope_effect:
  assumes "sendPendingEnvelope parseUrl e c = (r, out, c')"
  shows "c' = c \<and> (case r of Inl _ \<Rightarrow> out = []
    | Inr _ \<Rightarrow> \<exists>rd f t. sr_ready c = Some rd \<and> sr_socket c = Some True \<and> encodeFrame (envelopeFrame rd e) = Inr f
        \<and> decodeDraftRelayAttachmentFrameText parseUrl f = Inr t
        \<and> out = [Transmit f, Emit (FrameSent t), Emit (EnvelopeSent (pe_deliveryId e) (pe_routeId e) (pe_originRouteId e))])"
  using assms
  by (auto simp: sendPendingEnvelope_def sendReadyFrame_def sendRaw_def requireReady_def act_defs split: option.splits sum.splits if_splits)

lemma rememberPending_effect:
  "rememberPending e c = (r, out, c') \<Longrightarrow> out = [] \<and> (case r of Inl _ \<Rightarrow> c' = c
     | Inr _ \<Rightarrow> c' = c\<lparr>sr_pending := mapSet (sr_pending c) (pe_deliveryId e) e\<rparr>)"
  by (auto simp: rememberPending_def act_defs split: if_splits)

definition envelopeSent :: "(js_string \<Rightarrow> URL option) \<Rightarrow> SameRelayClient \<Rightarrow> js_string \<Rightarrow> js_string res \<times> effect list \<times> SameRelayClient \<Rightarrow> bool" where
  "envelopeSent parseUrl c payload run \<longleftrightarrow> (case run of
     (Inl _, out, c') \<Rightarrow> out = [] \<and> (c' = c \<or> (\<exists>e. pe_ciphertext e = payload \<and> mapHas (sr_routeTargets c) (pe_routeId e)
       \<and> c' = c\<lparr>sr_pending := mapSet (sr_pending c) (pe_deliveryId e) e\<rparr>))
   | (Inr d, out, c') \<Rightarrow> \<exists>e rd f t. pe_deliveryId e = d \<and> pe_ciphertext e = payload \<and> mapHas (sr_routeTargets c) (pe_routeId e)
       \<and> c' = c\<lparr>sr_pending := mapSet (sr_pending c) d e\<rparr> \<and> sr_ready c = Some rd
       \<and> encodeFrame (envelopeFrame rd e) = Inr f \<and> decodeDraftRelayAttachmentFrameText parseUrl f = Inr t
       \<and> out = [Transmit f, Emit (FrameSent t), Emit (EnvelopeSent d (pe_routeId e) (pe_originRouteId e))])"

lemma envelopeSent_throw [simp]: "envelopeSent parseUrl c payload (Inl e, [], c)"
  by (simp add: envelopeSent_def)

lemma envelopeSent_remember:
  assumes "pe_ciphertext e = payload" "mapHas (sr_routeTargets c) (pe_routeId e)"
  shows "envelopeSent parseUrl c payload (andDo (rememberPending e) (andDo (sendPendingEnvelope parseUrl e) (returnAct (pe_deliveryId e))) c)"
proof -
  obtain r out c1 where first: "rememberPending e c = (r, out, c1)" by (cases "rememberPending e c")
  obtain r' out' c2 where second: "sendPendingEnvelope parseUrl e c1 = (r', out', c2)" by (cases "sendPendingEnvelope parseUrl e c1")
  show ?thesis
    using assms first second rememberPending_effect [OF first] sendPendingEnvelope_effect [OF second]
    by (cases r; cases r') (auto simp: bindAct_def returnAct_def envelopeSent_def)
qed

lemma envelopeSent_bind_lift:
  "(\<And>x. m = Inr x \<Longrightarrow> envelopeSent parseUrl c payload (f x c)) \<Longrightarrow> envelopeSent parseUrl c payload (bindAct (liftAct m) f c)"
  by (cases m) (auto simp: bindAct_def liftAct_def)

lemma envelopeSent_bind_route:
  assumes "\<And>route. mapHas (sr_routeTargets c) route \<Longrightarrow> envelopeSent parseUrl c payload (f route c)"
  shows "envelopeSent parseUrl c payload (bindAct (requireEnvelopeRoute requested rid) f c)"
proof -
  obtain r out c1 where run: "requireEnvelopeRoute requested rid c = (r, out, c1)" by (cases "requireEnvelopeRoute requested rid c")
  show ?thesis using run requireEnvelopeRoute_effect [OF run] assms by (cases r) (auto simp: bindAct_def)
qed

lemma envelopeSent_bind_ready:
  "(\<And>rd. sr_ready c = Some rd \<Longrightarrow> envelopeSent parseUrl c payload (f rd c)) \<Longrightarrow> envelopeSent parseUrl c payload (bindAct requireReady f c)"
  by (cases "sr_ready c") (auto simp: requireReady_def act_defs)

lemma sendSealedEnvelope_sent: "envelopeSent parseUrl c payload (sendSealedEnvelope parseUrl random payload options c)"
  unfolding sendSealedEnvelope_def Let_def
  by (intro envelopeSent_bind_lift envelopeSent_bind_ready envelopeSent_bind_route)
    (use envelopeSent_remember [where e = "\<lparr>pe_deliveryId = d, pe_ciphertext = payload, pe_routeId = r, pe_originRouteId = o', pe_streamId = n,
      pe_ackRequested = b\<rparr>" for d r o' n b] in simp)

section \<open>A concrete run\<close>

definition exampleEndpoint :: URL where
  "exampleEndpoint = \<lparr>url_protocol = lit ''wss:'', url_host = lit ''relay.example'', url_hostname = lit ''relay.example'', url_username = [],
     url_password = [], url_pathname = lit ''/relay/v0'', url_hash = []\<rparr>"

definition exampleEnv :: relayEnv where
  "exampleEnv = \<lparr>env_parseUrl = (\<lambda>_. Some exampleEndpoint), env_localeCompare = (\<lambda>_ _. 0), env_sha256 = (\<lambda>_. replicate 32 0),
     env_verify = (\<lambda>_ _ _. Inr True), env_sign = (\<lambda>_. replicate 64 0)\<rparr>"

definition exampleRoute :: RelayRouteMaterial where
  "exampleRoute = \<lparr>rm_endpointUri = lit ''wss://relay.example/relay/v0'', rm_relayPublicKey = encodeBase64URL (replicate 32 0),
     rm_profileMultihash = developmentProfileMultihash, rm_verified = True\<rparr>"

definition exampleIdentity :: SameRelayIdentity where
  "exampleIdentity = \<lparr>id_peerId = encodeBase64URL (replicate 32 1), id_publicKey = encodeBase64URL (replicate 32 1)\<rparr>"

definition examplePending :: SameRelayPendingEnvelope where
  "examplePending = \<lparr>spe_deliveryId = lit ''d1'', spe_ciphertext = lit ''AAAA'', spe_routeId = None,
     spe_originRouteId = lit ''r1'', spe_streamId = 0, spe_ackRequested = True\<rparr>"

lemma example_run:
  "\<exists>c t out. newClient (\<lambda>_. Some exampleEndpoint) exampleRoute exampleIdentity 49152 32 [] = Inr c
     \<and> relayRun exampleEnv (newTransport c) out t \<and> tr_stage t = Opening"
proof -
  have "succeeds (newClient (\<lambda>_. Some exampleEndpoint) exampleRoute exampleIdentity 49152 32 [])" by code_simp
  then obtain c where "newClient (\<lambda>_. Some exampleEndpoint) exampleRoute exampleIdentity 49152 32 [] = Inr c"
    by (auto simp: succeeds_iff)
  moreover obtain r out c' where "attachBegin True c = (r, out, c')" by (cases "attachBegin True c")
  then have "relayRun exampleEnv (newTransport c) ([] @ out) \<lparr>tr_client = c', tr_stage = Opening, tr_proved = None\<rparr>"
    by (intro relayRun.Step [OF relayRun.Done] relayStep.Begin) (simp_all add: newTransport_def)
  ultimately show ?thesis by fastforce
qed

section \<open>Properties\<close>


text \<open>
  C7. In every state a client can reach, through any calls, frames, closes, errors and timeouts in any order: peers
  and lookup routes are in one-to-one correspondence, at most 64 of them, never the READY route, and none without
  a session; at most 32 envelopes are pending, each under its own delivery id; a session has a socket.
\<close>

theorem transport_invariant:
  assumes "newClient parseUrl route identity maxFrame maxPending ps = Inr c" "relayRun env (newTransport c) out t"
  shows "(mapGet (sr_targetRoutes (tr_client t)) p = Some r \<longleftrightarrow> mapGet (sr_routeTargets (tr_client t)) r = Some p)
    \<and> length (sr_targetRoutes (tr_client t)) = length (sr_routeTargets (tr_client t)) \<and> length (sr_targetRoutes (tr_client t)) \<le> 64
    \<and> (case sr_ready (tr_client t) of
         None \<Rightarrow> sr_targetRoutes (tr_client t) = []
       | Some rd \<Rightarrow> mapGet (sr_routeTargets (tr_client t)) (rs_routeId rd) = None \<and> sr_socket (tr_client t) \<noteq> None)
    \<and> length (sr_pending (tr_client t)) \<le> 32 \<and> distinct (map fst (sr_pending (tr_client t)))
    \<and> map (pe_deliveryId \<circ> snd) (sr_pending (tr_client t)) = map fst (sr_pending (tr_client t))"
proof -
  have "clientInv route (tr_client t)"
    using transportInv_run [OF assms(2) newClient_inv [OF assms(1)]] by (simp add: transportInv_def)
  then show ?thesis
    by (cases "sr_ready (tr_client t)")
      (auto simp: clientInv_def routesOk_def pendingOk_def maxLiveTargetRoutes_def defaultMaxPendingEnvelopes_def mapHas_mapGet wfMap_def)
qed

lemma transport_invariant_witness:
  "\<exists>c t out. newClient (\<lambda>_. Some exampleEndpoint) exampleRoute exampleIdentity 49152 32 [] = Inr c
    \<and> relayRun exampleEnv (newTransport c) out t \<and> tr_stage t = Opening \<and> length (sr_targetRoutes (tr_client t)) \<le> 64
    \<and> length (sr_pending (tr_client t)) \<le> 32"
proof -
  obtain c t out where run: "newClient (\<lambda>_. Some exampleEndpoint) exampleRoute exampleIdentity 49152 32 [] = Inr c"
    "relayRun exampleEnv (newTransport c) out t" "tr_stage t = Opening"
    using example_run by blast
  show ?thesis using run transport_invariant [OF run(1,2)] by blast
qed

text \<open>
  C5. Along every run: a session exists only after the relay proved a transcript under the pinned key, and no
  frame other than a HELLO is handed to the socket before that.
\<close>

theorem relay_proved_before_traffic:
  assumes "newClient parseUrl route identity maxFrame maxPending ps = Inr c" "relayRun env (newTransport c) out t"
  shows "(sr_ready (tr_client t) = None
      \<and> {f. \<exists>out' t'. relayStep env t out' t' \<and> Transmit f \<in> set out'} \<subseteq> {f. \<exists>c n now. encodeFrame (helloFrame c n now) = Inr f})
    \<or> (\<exists>h clientNonce helloRaw now challenge selected. tr_proved t = Some h
      \<and> checkChallenge (env_sha256 env) (env_verify env) route clientNonce helloRaw now challenge = Inr (selected, h))"
proof -
  have inv: "transportInv env route t" by (rule transportInv_run [OF assms(2) newClient_inv [OF assms(1)]])
  show ?thesis
  proof (cases "\<exists>h. tr_proved t = Some h \<and> provedBy env route h")
    case True
    then show ?thesis unfolding provedBy_def by blast
  next
    case False
    then have "sr_ready (tr_client t) = None" using inv unfolding transportInv_def by blast
    moreover have "{f. \<exists>out' t'. relayStep env t out' t' \<and> Transmit f \<in> set out'} \<subseteq> {f. \<exists>c n now. encodeFrame (helloFrame c n now) = Inr f}"
      using transmit_proved [OF inv] False by blast
    ultimately show ?thesis by blast
  qed
qed

lemma relay_proved_before_traffic_witness:
  "\<exists>c t out. newClient (\<lambda>_. Some exampleEndpoint) exampleRoute exampleIdentity 49152 32 [] = Inr c
    \<and> relayRun exampleEnv (newTransport c) out t \<and> tr_stage t = Opening
    \<and> ((sr_ready (tr_client t) = None
        \<and> {f. \<exists>out' t'. relayStep exampleEnv t out' t' \<and> Transmit f \<in> set out'} \<subseteq> {f. \<exists>c n now. encodeFrame (helloFrame c n now) = Inr f})
      \<or> (\<exists>h clientNonce helloRaw now challenge selected. tr_proved t = Some h
        \<and> checkChallenge (env_sha256 exampleEnv) (env_verify exampleEnv) exampleRoute clientNonce helloRaw now challenge = Inr (selected, h)))"
proof -
  obtain c t out where run: "newClient (\<lambda>_. Some exampleEndpoint) exampleRoute exampleIdentity 49152 32 [] = Inr c"
    "relayRun exampleEnv (newTransport c) out t" "tr_stage t = Opening"
    using example_run by blast
  show ?thesis using run relay_proved_before_traffic [OF run(1,2)] by blast
qed

text \<open>
  C13. An envelope that is pending stays pending through any run, across disconnects and new attaches, until a
  peer receipt, a forwarded acknowledgement or an abandonment of that delivery is announced to the listeners.
\<close>

theorem pending_envelopes_accounted:
  assumes "relayRun env t out t'" "mapHas (sr_pending (tr_client t)) d"
  shows "mapHas (sr_pending (tr_client t')) d \<or> Emit (PeerReceipt d) \<in> set out \<or> Emit (PendingAbandoned d) \<in> set out
    \<or> Emit (RelayAck d (lit ''relay.forwarded'')) \<in> set out"
  using pending_run [OF assms] by (simp add: settled_def)

lemma pending_envelopes_accounted_witness:
  "\<exists>t out t'. relayRun exampleEnv t out t' \<and> mapHas (sr_pending (tr_client t)) (lit ''d1'') \<and> \<not> mapHas (sr_pending (tr_client t')) (lit ''d1'')
     \<and> (Emit (PeerReceipt (lit ''d1'')) \<in> set out \<or> Emit (PendingAbandoned (lit ''d1'')) \<in> set out
       \<or> Emit (RelayAck (lit ''d1'') (lit ''relay.forwarded'')) \<in> set out)"
proof -
  define c where "c = projr (newClient (\<lambda>_. Some exampleEndpoint) exampleRoute exampleIdentity 49152 32 [examplePending])"
  have "mapHas (sr_pending (projr (newClient (\<lambda>_. Some exampleEndpoint) exampleRoute exampleIdentity 49152 32 [examplePending]))) (lit ''d1'')"
    by code_simp
  then have pending: "mapHas (sr_pending c) (lit ''d1'')" by (simp add: c_def)
  obtain r out c' where call: "runCall exampleEnv (AbandonPending (lit ''d1'')) c = (r, out, c')"
    by (cases "runCall exampleEnv (AbandonPending (lit ''d1'')) c")
  then have gone: "\<not> mapHas (sr_pending c') (lit ''d1'')"
    using pending by (auto simp: voidAct_def abandonPendingEnvelope_def dropPending_def act_defs)
  let ?t = "newTransport c"
  let ?t' = "?t\<lparr>tr_client := c', tr_stage := (if AbandonPending (lit ''d1'') = Disconnect then rejectWaiters (tr_stage ?t) else tr_stage ?t)\<rparr>"
  have run: "relayRun exampleEnv ?t ([] @ out) ?t'"
    by (rule relayRun.Step [OF relayRun.Done relayStep.Call]) (use call in \<open>simp add: newTransport_def\<close>)
  have "mapHas (sr_pending (tr_client ?t)) (lit ''d1'')" "\<not> mapHas (sr_pending (tr_client ?t')) (lit ''d1'')"
    using pending gone by (simp_all add: newTransport_def)
  with run pending_envelopes_accounted [OF run] show ?thesis by blast
qed


section \<open>Findings\<close>

text \<open>
  A frame that resolves no waiting read is processed whatever the state of the attachment: an ACK that arrives while the
  CHALLENGE is still being checked removes a pending envelope, although no relay has been authenticated, and its
  session id is never compared.
\<close>

theorem ack_before_authentication:
  assumes "tr_stage t = Checking clientNonce helloRaw challenge" "sr_socket (tr_client t) = Some True"
    and "length (textEncode s) \<le> maxDraftRelayAttachmentFrameBytes" "decodeRelayRecord (env_parseUrl env) s = Inr r"
    and "readStringValue r (lit ''type'') = Inr (lit ''ACK'')" "readStringValue r (lit ''ack_type'') = Inr (lit ''relay.forwarded'')"
    and "readStringValue r (lit ''delivery_id'') = Inr d"
  shows "relayStep env t [Emit (RelayAck d (lit ''relay.forwarded''))]
    (t\<lparr>tr_client := (tr_client t)\<lparr>sr_pending := mapDelete (sr_pending (tr_client t)) d\<rparr>\<rparr>)"
proof (rule relayStep.Frame)
  show "handleSocketMessage (env_parseUrl env) False now (Some s) (tr_client t)
      = (Inr None, [Emit (RelayAck d (lit ''relay.forwarded''))], (tr_client t)\<lparr>sr_pending := mapDelete (sr_pending (tr_client t)) d\<rparr>)" for now
    using assms(3-7) by (simp add: handleSocketMessage_def processReadyFrame_def processAck_def dropPending_def act_defs)
qed (use assms(1,2) in simp_all)

end
