(* ===== verification/DirectFrames.thy ===== *)
theory DirectFrames
  imports WebRtc SameRelay
begin

text \<open>
  Two small codecs over the CBOR layer: the frames of a direct data channel (\<^verbatim>\<open>connectivity/rtc-data.ts\<close>) and the
  contact card (\<^verbatim>\<open>application-control/contact-card.ts\<close>), with the derivation of a Branch identifier from a public key
  (\<^verbatim>\<open>protocol/v0/identity-contact.ts\<close>). The token helpers are those of \<open>WebRtc\<close>, whose source has the same text.
\<close>

section \<open>Data channel frames\<close>

definition rtcDataVersion :: js_string where "rtcDataVersion = lit ''branch.rtc.data/0.draft''"
definition maxRtcDataCiphertextBytes :: nat where "maxRtcDataCiphertextBytes = 6 * 1024"
definition maxRtcDataFrameBytes :: nat where "maxRtcDataFrameBytes = 8 * 1024"
definition maxRtcAdmitFrameBytes :: nat where "maxRtcAdmitFrameBytes = 256"

record RtcData =
  data_kind :: js_string
  data_version :: js_string
  data_rtcSessionId :: js_string
  data_originRouteId :: js_string
  data_pathEpoch :: int
  data_streamId :: int
  data_deliveryId :: js_string
  data_ackRequested :: bool
  data_ciphertext :: js_string

record RtcAdmit =
  admit_kind :: js_string
  admit_version :: js_string
  admit_rtcSessionId :: js_string
  admit_deliveryId :: js_string

datatype RtcDataFrame = DataFrame RtcData | AdmitFrame RtcAdmit

definition validSequence :: "int \<Rightarrow> bool" where
  "validSequence n \<longleftrightarrow> isSafeInteger n \<and> n \<ge> 0"

definition validCiphertext :: "js_string \<Rightarrow> bool" where
  "validCiphertext s =
     (case decodeBase64URL s of Inl _ \<Rightarrow> False | Inr bs \<Rightarrow> length bs > 0 \<and> length bs \<le> maxRtcDataCiphertextBytes)"

definition decodeCiphertext :: "js_string \<Rightarrow> bytes res" where
  "decodeCiphertext s =
     (case decodeBase64URL s of
        Inl _ \<Rightarrow> throw ''invalid ciphertext''
      | Inr bs \<Rightarrow> if length bs > maxRtcDataCiphertextBytes then throw ''invalid ciphertext'' else Inr bs)"

definition validateRtcData :: "RtcData \<Rightarrow> unit res" where
  "validateRtcData v = throwIf
     (data_kind v \<noteq> lit ''data'' \<or> data_version v \<noteq> rtcDataVersion \<or> \<not> rtcValidToken (data_rtcSessionId v) 16
      \<or> \<not> rtcValidToken (data_originRouteId v) 16 \<or> \<not> validSequence (data_pathEpoch v) \<or> \<not> validSequence (data_streamId v)
      \<or> \<not> rtcValidToken (data_deliveryId v) 16 \<or> \<not> validCiphertext (data_ciphertext v))
     (PlainError (lit ''invalid rtc data''))"

definition validateRtcAdmit :: "RtcAdmit \<Rightarrow> unit res" where
  "validateRtcAdmit v = throwIf
     (admit_kind v \<noteq> lit ''admit'' \<or> admit_version v \<noteq> rtcDataVersion \<or> \<not> rtcValidToken (admit_rtcSessionId v) 16
      \<or> \<not> rtcValidToken (admit_deliveryId v) 16) (PlainError (lit ''invalid rtc admit''))"

definition dataMap :: "RtcData \<Rightarrow> cborMap res" where
  "dataMap v =
     andThen (decodeToken (data_rtcSessionId v) 16 (lit ''rtc session id'')) (\<lambda>session.
     andThen (decodeToken (data_originRouteId v) 16 (lit ''origin route id'')) (\<lambda>origin.
     andThen (decodeToken (data_deliveryId v) 16 (lit ''delivery id'')) (\<lambda>delivery.
     andThen (decodeCiphertext (data_ciphertext v)) (\<lambda>ciphertext.
       Inr [(lit ''kind'', CText (data_kind v)), (lit ''version'', CText (data_version v)), (lit ''rtc_session_id'', CBytes session),
            (lit ''origin_route_id'', CBytes origin), (lit ''path_epoch'', CNum (data_pathEpoch v)),
            (lit ''stream_id'', CNum (data_streamId v)), (lit ''delivery_id'', CBytes delivery),
            (lit ''ack_requested'', CBool (data_ackRequested v)), (lit ''ciphertext'', CBytes ciphertext)]))))"

definition encodeBounded :: "cborMap \<Rightarrow> nat \<Rightarrow> string \<Rightarrow> bytes res" where
  "encodeBounded m maximumBytes label =
     andThen (encodeDeterministicCbor (CMap m)) (\<lambda>bs.
       if length bs > maximumBytes then Inl (PlainError (lit (label @ '' too large''))) else Inr bs)"

definition encodeRtcData :: "RtcData \<Rightarrow> bytes res" where
  "encodeRtcData v =
     andThen (validateRtcData v) (\<lambda>_. andThen (dataMap v) (\<lambda>m. encodeBounded m maxRtcDataFrameBytes ''rtc data''))"

definition encodeRtcAdmit :: "RtcAdmit \<Rightarrow> bytes res" where
  "encodeRtcAdmit v =
     andThen (validateRtcAdmit v) (\<lambda>_.
     andThen (decodeToken (admit_rtcSessionId v) 16 (lit ''rtc session id'')) (\<lambda>session.
     andThen (decodeToken (admit_deliveryId v) 16 (lit ''delivery id'')) (\<lambda>delivery.
       encodeBounded [(lit ''kind'', CText (admit_kind v)), (lit ''version'', CText (admit_version v)),
         (lit ''rtc_session_id'', CBytes session), (lit ''delivery_id'', CBytes delivery)] maxRtcAdmitFrameBytes ''rtc admit'')))"

definition frameStrictMap :: "bytes \<Rightarrow> string \<Rightarrow> string \<Rightarrow> nat \<Rightarrow> js_string list \<Rightarrow> js_string list option \<Rightarrow> cborMap res" where
  "frameStrictMap bs label mapLabel maximumBytes dataKeys admitKeys =
     (if length bs = 0 \<or> length bs > maximumBytes then Inl (PlainError (lit (''invalid '' @ label @ '' size'')))
      else andThen (decodeDeterministicCbor bs maximumBytes) (\<lambda>v.
        andThen (readCborMap v (lit mapLabel)) (\<lambda>m.
        andThen (getRequiredEntry m (lit ''kind'')) (\<lambda>k.
        andThen (readText k (lit ''kind'')) (\<lambda>kind.
          if kind = lit ''data'' then andThen (rejectUnknownEntries m dataKeys) (\<lambda>_. Inr m)
          else if kind = lit ''admit'' then
            (case admitKeys of
               Some keys \<Rightarrow> andThen (rejectUnknownEntries m keys) (\<lambda>_. Inr m)
             | None \<Rightarrow> throw ''invalid rtc data kind'')
          else throw ''unknown rtc data kind'')))))"

definition readKind :: "cborMap \<Rightarrow> string \<Rightarrow> js_string res" where
  "readKind m expected =
     andThen (getRequiredEntry m (lit ''kind'')) (\<lambda>v. andThen (readText v (lit ''kind'')) (\<lambda>kind.
       if kind \<noteq> lit expected then throw ''invalid rtc data kind'' else Inr (lit expected)))"

definition readDataVersion :: "cborMap \<Rightarrow> js_string res" where
  "readDataVersion m =
     andThen (getRequiredEntry m (lit ''version'')) (\<lambda>v. andThen (readText v (lit ''version'')) (\<lambda>version.
       if version \<noteq> rtcDataVersion then throw ''unsupported rtc data version'' else Inr rtcDataVersion))"

definition boundedCiphertextFromMap :: "cborMap \<Rightarrow> js_string res" where
  "boundedCiphertextFromMap m =
     andThen (getRequiredEntry m (lit ''ciphertext'')) (\<lambda>v. andThen (readBytes v (lit ''ciphertext'') None) (\<lambda>ciphertext.
       if length ciphertext > maxRtcDataCiphertextBytes then throw ''invalid ciphertext'' else Inr (encodeBase64URL ciphertext)))"

definition readSequence :: "cborMap \<Rightarrow> string \<Rightarrow> int res" where
  "readSequence m key =
     andThen (getRequiredEntry m (lit key)) (\<lambda>v. andThen (readUint v (lit key)) (\<lambda>n.
       if \<not> validSequence n then Inl (PlainError (lit (''invalid '' @ key))) else Inr n))"

definition dataKeys :: "js_string list" where
  "dataKeys = map lit [''kind'', ''version'', ''rtc_session_id'', ''origin_route_id'', ''path_epoch'', ''stream_id'', ''delivery_id'',
     ''ack_requested'', ''ciphertext'']"

definition admitKeys :: "js_string list" where
  "admitKeys = map lit [''kind'', ''version'', ''rtc_session_id'', ''delivery_id'']"

definition decodeRtcData :: "bytes \<Rightarrow> RtcData res" where
  "decodeRtcData bs =
     andThen (frameStrictMap bs ''rtc data'' ''rtc_data'' maxRtcDataFrameBytes dataKeys None) (\<lambda>m.
     andThen (readKind m ''data'') (\<lambda>kind.
     andThen (readDataVersion m) (\<lambda>version.
     andThen (tokenFromMap m (lit ''rtc_session_id'') 16) (\<lambda>session.
     andThen (tokenFromMap m (lit ''origin_route_id'') 16) (\<lambda>origin.
     andThen (readSequence m ''path_epoch'') (\<lambda>epoch.
     andThen (readSequence m ''stream_id'') (\<lambda>stream.
     andThen (tokenFromMap m (lit ''delivery_id'') 16) (\<lambda>delivery.
     andThen (getRequiredEntry m (lit ''ack_requested'')) (\<lambda>a.
     andThen (readBoolean a (lit ''ack_requested'')) (\<lambda>ackRequested.
     andThen (boundedCiphertextFromMap m) (\<lambda>ciphertext.
       let v = \<lparr>data_kind = kind, data_version = version, data_rtcSessionId = session, data_originRouteId = origin,
         data_pathEpoch = epoch, data_streamId = stream, data_deliveryId = delivery, data_ackRequested = ackRequested,
         data_ciphertext = ciphertext\<rparr>
       in andThen (validateRtcData v) (\<lambda>_. Inr v))))))))))))"

definition decodeRtcAdmit :: "bytes \<Rightarrow> RtcAdmit res" where
  "decodeRtcAdmit bs =
     andThen (frameStrictMap bs ''rtc admit'' ''rtc_admit'' maxRtcAdmitFrameBytes admitKeys (Some admitKeys)) (\<lambda>m.
     andThen (readKind m ''admit'') (\<lambda>kind.
     andThen (readDataVersion m) (\<lambda>version.
     andThen (tokenFromMap m (lit ''rtc_session_id'') 16) (\<lambda>session.
     andThen (tokenFromMap m (lit ''delivery_id'') 16) (\<lambda>delivery.
       let v = \<lparr>admit_kind = kind, admit_version = version, admit_rtcSessionId = session, admit_deliveryId = delivery\<rparr>
       in andThen (validateRtcAdmit v) (\<lambda>_. Inr v))))))"

definition decodeRtcDataFrame :: "bytes \<Rightarrow> RtcDataFrame res" where
  "decodeRtcDataFrame bs =
     andThen (frameStrictMap bs ''rtc data frame'' ''rtc_data_frame'' maxRtcDataFrameBytes dataKeys (Some admitKeys)) (\<lambda>m.
     andThen (getRequiredEntry m (lit ''kind'')) (\<lambda>v.
     andThen (readText v (lit ''kind'')) (\<lambda>kind.
       if kind = lit ''data'' then andThen (decodeRtcData bs) (\<lambda>d. Inr (DataFrame d))
       else if kind = lit ''admit'' then andThen (decodeRtcAdmit bs) (\<lambda>a. Inr (AdmitFrame a))
       else throw ''unknown rtc data kind'')))"

section \<open>Contact cards\<close>

definition maxContactCardBytes :: nat where "maxContactCardBytes = 512"
definition maxContactCardNameBytes :: nat where "maxContactCardNameBytes = 96"

record ContactCard =
  card_requestId :: js_string
  card_branchId :: js_string
  card_peerId :: js_string
  card_hpkePublicKey :: js_string
  card_displayName :: js_string

definition validateContactCard :: "ContactCard \<Rightarrow> unit res" where
  "validateContactCard c =
     andThen (decodeBase64URL (card_requestId c)) (\<lambda>request.
     if length request \<noteq> 16 then throw ''invalid contact card''
     else andThen (decodeBase64URL (card_peerId c)) (\<lambda>peer.
     if length peer \<noteq> 32 then throw ''invalid contact card''
     else andThen (decodeBase64URL (card_hpkePublicKey c)) (\<lambda>key.
     if length key \<noteq> 32 \<or> length (textEncode (card_displayName c)) = 0
       \<or> length (textEncode (card_displayName c)) > maxContactCardNameBytes then throw ''invalid contact card''
     else andThen (parseBranchID (card_branchId c)) (\<lambda>_. Inr ()))))"

definition contactCardMap :: "ContactCard \<Rightarrow> cborMap res" where
  "contactCardMap c =
     andThen (decodeBase64URL (card_requestId c)) (\<lambda>request.
     andThen (decodeBase64URL (card_peerId c)) (\<lambda>peer.
     andThen (decodeBase64URL (card_hpkePublicKey c)) (\<lambda>key.
       Inr [(lit ''request_id'', CBytes request), (lit ''branch_id'', CText (card_branchId c)), (lit ''peer_id'', CBytes peer),
            (lit ''hpke_public_key'', CBytes key), (lit ''display_name'', CText (card_displayName c))])))"

definition encodeContactCard :: "ContactCard \<Rightarrow> bytes res" where
  "encodeContactCard c =
     andThen (validateContactCard c) (\<lambda>_.
     andThen (contactCardMap c) (\<lambda>m.
     andThen (encodeDeterministicCbor (CMap m)) (\<lambda>bs.
       if length bs > maxContactCardBytes then throw ''contact card body too large'' else Inr bs)))"

definition cardKeys :: "js_string list" where
  "cardKeys = map lit [''request_id'', ''branch_id'', ''peer_id'', ''hpke_public_key'', ''display_name'']"

definition decodeContactCard :: "bytes \<Rightarrow> ContactCard res" where
  "decodeContactCard bs =
     (if bs = [] \<or> maxContactCardBytes < length bs then throw ''invalid contact card body size''
      else andThen (decodeDeterministicCbor bs maxContactCardBytes) (\<lambda>v. andThen (readCborMap v (lit ''contact_card'')) (\<lambda>m.
        andThen (rejectUnknownEntries m cardKeys) (\<lambda>_.
        andThen (getRequiredEntry m (lit ''request_id'')) (\<lambda>r. andThen (readBytes r (lit ''request_id'') (Some 16)) (\<lambda>request.
        andThen (getRequiredEntry m (lit ''branch_id'')) (\<lambda>b. andThen (readText b (lit ''branch_id'')) (\<lambda>branch.
        andThen (getRequiredEntry m (lit ''peer_id'')) (\<lambda>p. andThen (readBytes p (lit ''peer_id'') (Some 32)) (\<lambda>peer.
        andThen (getRequiredEntry m (lit ''hpke_public_key'')) (\<lambda>h. andThen (readBytes h (lit ''hpke_public_key'') (Some 32)) (\<lambda>key.
        andThen (getRequiredEntry m (lit ''display_name'')) (\<lambda>d. andThen (readText d (lit ''display_name'')) (\<lambda>name.
          let c = \<lparr>card_requestId = encodeBase64URL request, card_branchId = branch, card_peerId = encodeBase64URL peer,
            card_hpkePublicKey = encodeBase64URL key, card_displayName = name\<rparr>
          in andThen (validateContactCard c) (\<lambda>_. Inr c)))))))))))))))"

definition branchIDFromPublicKey :: "(bytes \<Rightarrow> bytes) \<Rightarrow> bytes \<Rightarrow> js_string res" where
  "branchIDFromPublicKey sha256 publicKey =
     (if length publicKey \<noteq> 32 then throw ''invalid_branch_id''
      else Inr (lit ''br1.'' @ encodeBase64URL ([0x12, 0x20] @ sha256 (textEncode (lit (''BRANCH identity id v0'' @ [CHR 0x0A])) @ publicKey))))"

definition assertContactCardBranchIDBinding :: "(bytes \<Rightarrow> bytes) \<Rightarrow> ContactCard \<Rightarrow> unit res" where
  "assertContactCardBranchIDBinding sha256 c =
     andThen (validateContactCard c) (\<lambda>_.
     andThen (decodeBase64URL (card_peerId c)) (\<lambda>peer.
     andThen (branchIDFromPublicKey sha256 peer) (\<lambda>branchId.
       if branchId \<noteq> card_branchId c then throw ''contact card branch id mismatch'' else Inr ())))"

section \<open>Lemmas\<close>

lemma kindText_Inr:
  "andThen (getRequiredEntry m (lit ''kind'')) (\<lambda>k. andThen (readText k (lit ''kind'')) f) = Inr y \<longleftrightarrow>
     (\<exists>kind. map_of m (lit ''kind'') = Some (CText kind) \<and> kind \<noteq> [] \<and> length (textEncode kind) \<le> 1024 \<and> f kind = Inr y)"
  by (auto simp: res_simps maxCborTextBytes_def)

lemma frameStrictMap_Inr:
  "frameStrictMap bs label mapLabel n keys admit = Inr m \<longleftrightarrow> decodeDeterministicCbor bs n = Inr (CMap m)
     \<and> (map_of m (lit ''kind'') = Some (CText (lit ''data'')) \<and> fst ` set m \<subseteq> set keys
       \<or> map_of m (lit ''kind'') = Some (CText (lit ''admit'')) \<and> (\<exists>ks. admit = Some ks \<and> fst ` set m \<subseteq> set ks))"
  (is "_ \<longleftrightarrow> ?accepted")
proof
  assume "frameStrictMap bs label mapLabel n keys admit = Inr m"
  then show ?accepted
    by (auto simp: frameStrictMap_def andThen_Inr readCborMap_Inr getRequiredEntry_Inr readText_Inr rejectUnknownEntries_Inr
        split: option.splits if_splits)
next
  assume ?accepted
  moreover from this have "bs \<noteq> []" "length bs \<le> n" using decode_size [of bs n] by auto
  ultimately show "frameStrictMap bs label mapLabel n keys admit = Inr m"
    using rejectUnknownEntries_Inr [of m keys "()"] rejectUnknownEntries_Inr [of m "the admit" "()"]
    by (auto simp: frameStrictMap_def readCborMap_def getRequiredEntry_def readText_def maxCborTextBytes_def)
qed

lemma readKind_Inr: "length s \<le> 1024 \<Longrightarrow> s \<noteq> [] \<Longrightarrow> asciiString s \<Longrightarrow>
    readKind m s = Inr k \<longleftrightarrow> k = lit s \<and> map_of m (lit ''kind'') = Some (CText k)"
  by (auto simp: readKind_def kindText_Inr)

lemma readDataVersion_Inr: "readDataVersion m = Inr v \<longleftrightarrow> v = rtcDataVersion \<and> map_of m (lit ''version'') = Some (CText v)"
  by (auto simp: readDataVersion_def res_simps rtcDataVersion_def maxCborTextBytes_def)

lemma validSequence_iff: "validSequence n \<longleftrightarrow> 0 \<le> n \<and> n \<le> maxSafeInteger"
  by (auto simp: validSequence_def isSafeInteger_def)

lemma readSequence_Inr: "readSequence m key = Inr n \<longleftrightarrow> map_of m (lit key) = Some (CNum n) \<and> validSequence n"
  by (auto simp: readSequence_def res_simps validSequence_iff)

definition goodCiphertext :: "js_string \<Rightarrow> bool" where
  "goodCiphertext s \<longleftrightarrow> (\<exists>n. 0 < n \<and> n \<le> 6144 \<and> goodToken s n)"

lemma goodCiphertext_facts:
  assumes "goodCiphertext s"
  shows "decodeBase64URL s = Inr (tokenBytes s)" "encodeBase64URL (tokenBytes s) = s" "tokenBytes s \<noteq> []" "length (tokenBytes s) \<le> 6144"
  using assms by (auto simp: goodCiphertext_def dest: goodToken_facts)

lemma ciphertext_Inr:
  "boundedCiphertextFromMap m = Inr s \<longleftrightarrow> map_of m (lit ''ciphertext'') = Some (CBytes (tokenBytes s)) \<and> goodCiphertext s"
proof
  assume "boundedCiphertextFromMap m = Inr s"
  then show "map_of m (lit ''ciphertext'') = Some (CBytes (tokenBytes s)) \<and> goodCiphertext s"
    by (auto simp: boundedCiphertextFromMap_def res_simps goodCiphertext_def maxRtcDataCiphertextBytes_def split: if_splits)
next
  assume "map_of m (lit ''ciphertext'') = Some (CBytes (tokenBytes s)) \<and> goodCiphertext s"
  then show "boundedCiphertextFromMap m = Inr s"
    using goodCiphertext_facts [of s]
    by (simp add: boundedCiphertextFromMap_def getRequiredEntry_def readBytes_def maxCborBytes_def maxRtcDataCiphertextBytes_def)
qed

lemma goodCiphertext_valid:
  "goodCiphertext s \<Longrightarrow> validCiphertext s \<and> decodeCiphertext s = Inr (tokenBytes s)"
  using goodCiphertext_facts [of s] by (simp add: validCiphertext_def decodeCiphertext_def maxRtcDataCiphertextBytes_def)

lemma encodeBounded_wf:
  "wfCbor (CMap m) \<Longrightarrow> length (encoded (CMap m)) \<le> n \<Longrightarrow> encodeBounded m n label = encodeDeterministicCbor (CMap m)"
  unfolding encodeBounded_def by (rule bounded_encoding)

subsection \<open>Data\<close>

definition coreData :: "RtcData \<Rightarrow> bool" where
  "coreData v \<longleftrightarrow> data_kind v = lit ''data'' \<and> data_version v = rtcDataVersion \<and> goodToken (data_rtcSessionId v) 16
     \<and> goodToken (data_originRouteId v) 16 \<and> validSequence (data_pathEpoch v) \<and> validSequence (data_streamId v)
     \<and> goodToken (data_deliveryId v) 16 \<and> goodCiphertext (data_ciphertext v)"

definition dataEntries :: "RtcData \<Rightarrow> cborMap" where
  "dataEntries v =
     [(lit ''kind'', CText (data_kind v)), (lit ''version'', CText (data_version v)),
      (lit ''rtc_session_id'', CBytes (tokenBytes (data_rtcSessionId v))),
      (lit ''origin_route_id'', CBytes (tokenBytes (data_originRouteId v))), (lit ''path_epoch'', CNum (data_pathEpoch v)),
      (lit ''stream_id'', CNum (data_streamId v)), (lit ''delivery_id'', CBytes (tokenBytes (data_deliveryId v))),
      (lit ''ack_requested'', CBool (data_ackRequested v)), (lit ''ciphertext'', CBytes (tokenBytes (data_ciphertext v)))]"

lemma validateRtcData_core: "coreData v \<Longrightarrow> validateRtcData v = Inr ()"
  by (simp add: coreData_def validateRtcData_def goodToken_validToken goodCiphertext_valid)

lemma coreData_wf: "coreData v \<Longrightarrow> wfCbor (CMap (dataEntries v))"
  using goodCiphertext_facts [of "data_ciphertext v"]
  by (simp add: coreData_def dataEntries_def rtcDataVersion_def maxCborCollectionEntries_def validSequence_iff maxCborBytes_def)

interpretation rtc_data: field_codec encodeRtcData decodeRtcData coreData dataEntries dataKeys 8192
proof
  fix v assume v: "coreData v" "length (encoded (CMap (dataEntries v))) \<le> 8192"
  have "dataMap v = Inr (dataEntries v)"
    using v(1) by (simp add: dataMap_def coreData_def dataEntries_def goodCiphertext_valid)
  with v show "encodeRtcData v = encodeDeterministicCbor (CMap (dataEntries v))"
    using encodeBounded_wf [OF coreData_wf [OF v(1)] v(2)]
    by (simp add: encodeRtcData_def validateRtcData_core maxRtcDataFrameBytes_def)
next
  fix e v
  have "decodeRtcData e = Inr v \<longleftrightarrow> (\<exists>k. decodeDeterministicCbor e 8192 = Inr (CMap k) \<and> fst ` set k \<subseteq> set dataKeys
      \<and> (\<forall>key \<in> set dataKeys. map_of k key = map_of (dataEntries v) key)) \<and> coreData v"
    using validateRtcData_core [of v]
    by (cases v) (auto simp: decodeRtcData_def andThen_Inr frameStrictMap_Inr readKind_Inr readDataVersion_Inr token_good readSequence_Inr
        getRequiredEntry_Inr readBoolean_Inr ciphertext_Inr Let_def dataEntries_def coreData_def dataKeys_def maxRtcDataFrameBytes_def)
  then show "decodeRtcData e = Inr v \<longleftrightarrow> coreData v \<and> (\<exists>k. decodeDeterministicCbor e 8192 = Inr (CMap k)
      \<and> fst ` set k \<subseteq> set dataKeys \<and> (\<forall>key \<in> set dataKeys. map_of k key = map_of (dataEntries v) key))" by blast
qed (simp_all add: coreData_wf del: wfCbor.simps, simp_all add: dataEntries_def dataKeys_def)

lemma coreData_size: "coreData v \<Longrightarrow> length (encoded (CMap (dataEntries v))) \<le> 8192"
  using goodCiphertext_facts [of "data_ciphertext v"]
  by (intro length_encoded_bound coreData_wf) (auto simp: dataEntries_def coreData_def rtcDataVersion_def)

subsection \<open>Admissions\<close>

definition coreAdmit :: "RtcAdmit \<Rightarrow> bool" where
  "coreAdmit v \<longleftrightarrow> admit_kind v = lit ''admit'' \<and> admit_version v = rtcDataVersion \<and> goodToken (admit_rtcSessionId v) 16
     \<and> goodToken (admit_deliveryId v) 16"

definition admitEntries :: "RtcAdmit \<Rightarrow> cborMap" where
  "admitEntries v =
     [(lit ''kind'', CText (admit_kind v)), (lit ''version'', CText (admit_version v)),
      (lit ''rtc_session_id'', CBytes (tokenBytes (admit_rtcSessionId v))),
      (lit ''delivery_id'', CBytes (tokenBytes (admit_deliveryId v)))]"

lemma validateRtcAdmit_core: "coreAdmit v \<Longrightarrow> validateRtcAdmit v = Inr ()"
  by (simp add: coreAdmit_def validateRtcAdmit_def goodToken_validToken)

lemma coreAdmit_wf: "coreAdmit v \<Longrightarrow> wfCbor (CMap (admitEntries v))"
  by (simp add: coreAdmit_def admitEntries_def rtcDataVersion_def maxCborCollectionEntries_def maxCborBytes_def)

lemma coreAdmit_size: "coreAdmit v \<Longrightarrow> length (encoded (CMap (admitEntries v))) \<le> 256"
  by (intro length_encoded_bound coreAdmit_wf) (auto simp: admitEntries_def coreAdmit_def rtcDataVersion_def)

interpretation rtc_admit: field_codec encodeRtcAdmit decodeRtcAdmit coreAdmit admitEntries admitKeys 256
proof
  fix v assume v: "coreAdmit v" "length (encoded (CMap (admitEntries v))) \<le> 256"
  then show "encodeRtcAdmit v = encodeDeterministicCbor (CMap (admitEntries v))"
    using encodeBounded_wf [OF coreAdmit_wf [OF v(1)] v(2)] validateRtcAdmit_core [OF v(1)]
    by (simp add: encodeRtcAdmit_def coreAdmit_def admitEntries_def maxRtcAdmitFrameBytes_def)
next
  fix e v
  have "decodeRtcAdmit e = Inr v \<longleftrightarrow> (\<exists>k. decodeDeterministicCbor e 256 = Inr (CMap k) \<and> fst ` set k \<subseteq> set admitKeys
      \<and> (\<forall>key \<in> set admitKeys. map_of k key = map_of (admitEntries v) key)) \<and> coreAdmit v"
    using validateRtcAdmit_core [of v]
    by (cases v) (auto simp: decodeRtcAdmit_def andThen_Inr frameStrictMap_Inr readKind_Inr readDataVersion_Inr token_good
        Let_def admitEntries_def coreAdmit_def admitKeys_def maxRtcAdmitFrameBytes_def)
  then show "decodeRtcAdmit e = Inr v \<longleftrightarrow> coreAdmit v \<and> (\<exists>k. decodeDeterministicCbor e 256 = Inr (CMap k)
      \<and> fst ` set k \<subseteq> set admitKeys \<and> (\<forall>key \<in> set admitKeys. map_of k key = map_of (admitEntries v) key))" by blast
qed (simp_all add: coreAdmit_wf del: wfCbor.simps, simp_all add: admitEntries_def admitKeys_def)

subsection \<open>Contact cards\<close>

lemma base64url_ascii:
  assumes "decodeBase64URL s = Inr bs"
  shows "\<forall>u \<in> set s. unat u < 128"
proof -
  have "base64URLPattern s"
    using assms by (simp add: decodeBase64URL_def validBase64URL_def split: if_splits)
  then show ?thesis unfolding base64URLPattern_def Let_def by fastforce
qed

lemma goodText_ascii:
  assumes "\<forall>u \<in> set s. unat u < 128" "s \<noteq> []" "length s \<le> n"
  shows "goodText s n"
proof -
  have "\<not> startsWithBOM s" using assms(1,2) by (cases s) (auto simp: startsWithBOM_def)
  then show ?thesis using assms wellFormed_ascii [OF assms(1)] textEncode_ascii [OF assms(1)] by (simp add: goodText_def)
qed

lemma parseBranchID_text:
  assumes "parseBranchID s = Inr b"
  shows "goodText s 50" "length b = 34"
proof -
  from assms have s: "startsWith s (lit ''br1.'')" and d: "decodeBase64URL (drop 4 s) = Inr b" "length b = 34"
    by (auto simp: parseBranchID_def res_simps split: if_splits)
  have "take 4 s = lit ''br1.''" using s by (simp add: startsWith_def eval_nat_numeral)
  then have "s = lit ''br1.'' @ drop 4 s" by (metis append_take_drop_id)
  then have "\<forall>u \<in> set s. unat u < 128"
    using base64url_ascii [OF d(1)] lit_ascii [of "''br1.''"] set_append [of "lit ''br1.''" "drop 4 s"] by auto
  moreover have "length s \<le> 50"
    using decodeBase64URL_length [OF d(1)] d(2) unfolding length_drop by presburger
  moreover have "s \<noteq> []" using s by (auto simp: startsWith_def lit_def)
  ultimately show "goodText s 50" by (intro goodText_ascii) auto
  show "length b = 34" by (rule d)
qed

definition coreCard :: "ContactCard \<Rightarrow> bool" where
  "coreCard c \<longleftrightarrow> goodToken (card_requestId c) 16 \<and> succeeds (parseBranchID (card_branchId c)) \<and> goodToken (card_peerId c) 32
     \<and> goodToken (card_hpkePublicKey c) 32 \<and> goodText (card_displayName c) 96"

definition cardEntries :: "ContactCard \<Rightarrow> cborMap" where
  "cardEntries c =
     [(lit ''request_id'', CBytes (tokenBytes (card_requestId c))), (lit ''branch_id'', CText (card_branchId c)),
      (lit ''peer_id'', CBytes (tokenBytes (card_peerId c))), (lit ''hpke_public_key'', CBytes (tokenBytes (card_hpkePublicKey c))),
      (lit ''display_name'', CText (card_displayName c))]"

lemma coreCard_branch: "coreCard c \<Longrightarrow> goodText (card_branchId c) 50 \<and> (\<exists>b. parseBranchID (card_branchId c) = Inr b)"
  by (auto simp: coreCard_def succeeds_iff dest: parseBranchID_text)

lemma validateContactCard_core: "coreCard c \<Longrightarrow> validateContactCard c = Inr ()"
  using coreCard_branch [of c] goodToken_facts [of "card_requestId c" 16] goodToken_facts [of "card_peerId c" 32]
    goodToken_facts [of "card_hpkePublicKey c" 32]
  by (auto simp: coreCard_def validateContactCard_def goodText_def maxContactCardNameBytes_def)

lemma coreCard_wf: "coreCard c \<Longrightarrow> wfCbor (CMap (cardEntries c))"
  using coreCard_branch [of c] goodText_decodable [of "card_branchId c" 50] goodText_decodable [of "card_displayName c" 96]
  by (simp add: coreCard_def cardEntries_def maxCborCollectionEntries_def maxCborBytes_def)

lemma coreCard_size: "coreCard c \<Longrightarrow> length (encoded (CMap (cardEntries c))) \<le> 512"
  using coreCard_branch [of c]
  by (intro length_encoded_bound coreCard_wf) (auto simp: cardEntries_def coreCard_def goodText_def)

lemma validateContactCard_Inr:
  assumes "validateContactCard c = Inr ()" "decodableText (card_displayName c)"
    "card_requestId c = encodeBase64URL r" "card_peerId c = encodeBase64URL p" "card_hpkePublicKey c = encodeBase64URL h"
    "r \<noteq> []" "p \<noteq> []" "h \<noteq> []"
  shows "coreCard c"
  using assms
  by (auto simp: validateContactCard_def coreCard_def res_simps decode_encodeBase64URL succeeds_iff goodText_def decodableText_def
      maxContactCardNameBytes_def split: if_splits)

interpretation contact_card: field_codec encodeContactCard decodeContactCard coreCard cardEntries cardKeys 512
proof
  fix c assume c: "coreCard c" "length (encoded (CMap (cardEntries c))) \<le> 512"
  have "contactCardMap c = Inr (cardEntries c)"
    using c(1) by (auto simp: contactCardMap_def cardEntries_def coreCard_def dest!: goodToken_facts(1))
  with c show "encodeContactCard c = encodeDeterministicCbor (CMap (cardEntries c))"
    using bounded_encoding [OF coreCard_wf [OF c(1)] c(2)]
    by (simp add: encodeContactCard_def validateContactCard_core maxContactCardBytes_def)
next
  fix e c
  show "decodeContactCard e = Inr c \<longleftrightarrow> coreCard c \<and> (\<exists>k. decodeDeterministicCbor e 512 = Inr (CMap k)
      \<and> fst ` set k \<subseteq> set cardKeys \<and> (\<forall>key \<in> set cardKeys. map_of k key = map_of (cardEntries c) key))"
  proof
    assume d: "decodeContactCard e = Inr c"
    from d [unfolded decodeContactCard_def maxContactCardBytes_def sizedMap_Inr]
    obtain m r b p h n where m: "decodeDeterministicCbor e 512 = Inr (CMap m)" "fst ` set m \<subseteq> set cardKeys"
      "map_of m (lit ''request_id'') = Some (CBytes r)" "map_of m (lit ''branch_id'') = Some (CText b)"
      "map_of m (lit ''peer_id'') = Some (CBytes p)" "map_of m (lit ''hpke_public_key'') = Some (CBytes h)"
      "map_of m (lit ''display_name'') = Some (CText n)" "r \<noteq> []" "p \<noteq> []" "h \<noteq> []"
      and c: "c = \<lparr>card_requestId = encodeBase64URL r, card_branchId = b, card_peerId = encodeBase64URL p,
        card_hpkePublicKey = encodeBase64URL h, card_displayName = n\<rparr>" "validateContactCard c = Inr ()"
      by (auto simp: andThen_Inr getRequiredEntry_Inr readBytes_Inr readText_Inr Let_def)
    have "decodableText n" using decoded_entry [OF m(1) m(7)] by simp
    then have "coreCard c" using validateContactCard_Inr [OF c(2), of r p h] m(8-10) by (simp add: c(1))
    then show "coreCard c \<and> (\<exists>k. decodeDeterministicCbor e 512 = Inr (CMap k)
        \<and> fst ` set k \<subseteq> set cardKeys \<and> (\<forall>key \<in> set cardKeys. map_of k key = map_of (cardEntries c) key))"
      using m c by (auto simp: cardEntries_def cardKeys_def)
  next
    assume "coreCard c \<and> (\<exists>k. decodeDeterministicCbor e 512 = Inr (CMap k)
        \<and> fst ` set k \<subseteq> set cardKeys \<and> (\<forall>key \<in> set cardKeys. map_of k key = map_of (cardEntries c) key))"
    then obtain k where core: "coreCard c" and k: "decodeDeterministicCbor e 512 = Inr (CMap k)" "fst ` set k \<subseteq> set cardKeys"
      "\<forall>key \<in> set cardKeys. map_of k key = map_of (cardEntries c) key" by blast
    have "e \<noteq> []" "length e \<le> 512" using decode_size [OF k(1)] by auto
    moreover have "rejectUnknownEntries k cardKeys = Inr ()" using k(2) by (simp add: rejectUnknownEntries_Inr)
    moreover have "goodText (card_branchId c) 50" using coreCard_branch [OF core] by blast
    ultimately show "decodeContactCard e = Inr c"
      using core k(1,3) validateContactCard_core [OF core] goodToken_facts [of "card_requestId c" 16]
        goodToken_facts [of "card_peerId c" 32] goodToken_facts [of "card_hpkePublicKey c" 32]
      by (cases c) (simp add: decodeContactCard_def maxContactCardBytes_def cardEntries_def cardKeys_def readCborMap_def
        getRequiredEntry_def readBytes_def readText_def coreCard_def goodText_def maxCborBytes_def maxCborTextBytes_def Let_def)
  qed
qed (simp_all add: coreCard_wf del: wfCbor.simps, simp_all add: cardEntries_def cardKeys_def)

subsection \<open>The frame decoder\<close>

lemma decode_limit_mono:
  "decodeDeterministicCbor e n = Inr v \<Longrightarrow> n \<le> n' \<Longrightarrow> decodeDeterministicCbor e n' = Inr v"
  by (auto simp: decodeDeterministicCbor_def split: if_splits)

lemma decodeRtcDataFrame_data: "decodeRtcDataFrame e = Inr (DataFrame v) \<longleftrightarrow> decodeRtcData e = Inr v"
proof
  assume "decodeRtcDataFrame e = Inr (DataFrame v)"
  then show "decodeRtcData e = Inr v"
    by (auto simp: decodeRtcDataFrame_def andThen_Inr split: if_splits)
next
  assume d: "decodeRtcData e = Inr v"
  then obtain m where m: "frameStrictMap e ''rtc data'' ''rtc_data'' maxRtcDataFrameBytes dataKeys None = Inr m"
    by (auto simp: decodeRtcData_def andThen_Inr)
  then have "map_of m (lit ''kind'') = Some (CText (lit ''data''))"
    "frameStrictMap e ''rtc data frame'' ''rtc_data_frame'' maxRtcDataFrameBytes dataKeys (Some admitKeys) = Inr m"
    by (simp_all add: frameStrictMap_Inr)
  then show "decodeRtcDataFrame e = Inr (DataFrame v)"
    using d by (simp add: decodeRtcDataFrame_def getRequiredEntry_def readText_def maxCborTextBytes_def)
qed

lemma decodeRtcDataFrame_admit: "decodeRtcDataFrame e = Inr (AdmitFrame a) \<longleftrightarrow> decodeRtcAdmit e = Inr a"
proof
  assume "decodeRtcDataFrame e = Inr (AdmitFrame a)"
  then show "decodeRtcAdmit e = Inr a"
    by (auto simp: decodeRtcDataFrame_def andThen_Inr split: if_splits)
next
  assume d: "decodeRtcAdmit e = Inr a"
  then obtain m where "frameStrictMap e ''rtc admit'' ''rtc_admit'' maxRtcAdmitFrameBytes admitKeys (Some admitKeys) = Inr m"
    "map_of m (lit ''kind'') = Some (CText (lit ''admit''))"
    by (auto simp: decodeRtcAdmit_def andThen_Inr readKind_Inr)
  then have "map_of m (lit ''kind'') = Some (CText (lit ''admit''))"
    "frameStrictMap e ''rtc data frame'' ''rtc_data_frame'' maxRtcDataFrameBytes dataKeys (Some admitKeys) = Inr m"
    using decode_limit_mono [of e maxRtcAdmitFrameBytes "CMap m" maxRtcDataFrameBytes]
    by (simp_all add: frameStrictMap_Inr maxRtcAdmitFrameBytes_def maxRtcDataFrameBytes_def)
  then show "decodeRtcDataFrame e = Inr (AdmitFrame a)"
    using d by (simp add: decodeRtcDataFrame_def getRequiredEntry_def readText_def maxCborTextBytes_def)
qed

section \<open>Properties\<close>


end
