(* ===== verification/TextCarrier.thy ===== *)
theory TextCarrier
  imports RelayFrames
begin

text \<open>
  \<^verbatim>\<open>protocol/v0/text-carrier.ts\<close>: public records are carried in plain text as words that start with \<^verbatim>\<open>BRANCH0.\<close>.
  The regular expression of the source is matched by hand. \<open>occursAt\<close> is what it means for it to match at a
  position, \<open>matchAll\<close> the search the source runs; the lemmas show that the two agree and what the extraction keeps.
\<close>

section \<open>Wrappers and their extraction\<close>

definition maxTextCarrierRecordBytes :: nat where
  "maxTextCarrierRecordBytes = 64 * 1024"

definition isBranchTextWrapper :: "js_string \<Rightarrow> bool" where
  "isBranchTextWrapper s =
     (if \<not> startsWith s branchTextWrapperPrefix then False
      else validBase64URL (drop (length branchTextWrapperPrefix) s) \<and> length (textEncode s) \<le> maxTextCarrierRecordBytes)"

definition wordUnit :: "16 word \<Rightarrow> bool" where
  "wordUnit u \<longleftrightarrow> (let c = unat u in 65 \<le> c \<and> c \<le> 90 \<or> 97 \<le> c \<and> c \<le> 122 \<or> 48 \<le> c \<and> c \<le> 57 \<or> c = 95)"

definition tokenUnit :: "16 word \<Rightarrow> bool" where
  "tokenUnit u \<longleftrightarrow> wordUnit u \<or> unat u = 45"

definition closingUnit :: "16 word \<Rightarrow> bool" where
  "closingUnit u \<longleftrightarrow> jsWhitespace u \<or> u \<in> set (lit [CHR 0x22, CHR 0x27, CHR ''<'', CHR ''>'', CHR '')'', CHR '','', CHR '';''])"

text \<open>
  One attempt of \<^verbatim>\<open>wrapperPattern\<close> at a position, given the unit before it. The run of token units is greedy; no
  token unit closes a match, so giving units back never helps and the pattern does not backtrack.
\<close>

definition matchWrapper :: "16 word option \<Rightarrow> js_string \<Rightarrow> js_string option" where
  "matchWrapper prev s =
     (let n = length branchTextWrapperPrefix; run = takeWhile tokenUnit (drop n s); rest = dropWhile tokenUnit (drop n s) in
      if (case prev of None \<Rightarrow> True | Some u \<Rightarrow> \<not> wordUnit u) \<and> startsWith s branchTextWrapperPrefix \<and> run \<noteq> []
        \<and> (case rest of [] \<Rightarrow> True | u # _ \<Rightarrow> closingUnit u)
      then Some (branchTextWrapperPrefix @ run) else None)"

lemma matchWrapper_length: "matchWrapper prev s = Some w \<Longrightarrow> w \<noteq> []"
  by (auto simp: matchWrapper_def Let_def split: if_splits)

text \<open>\<^verbatim>\<open>source.matchAll(wrapperPattern)\<close>: the matches from left to right, each search starting where the last match ended.\<close>

function matchAll :: "16 word option \<Rightarrow> nat \<Rightarrow> js_string \<Rightarrow> (js_string \<times> nat) list" where
  "matchAll prev offset [] = []"
| "matchAll prev offset (u # s) =
     (case matchWrapper prev (u # s) of
        None \<Rightarrow> matchAll (Some u) (offset + 1) s
      | Some w \<Rightarrow> (w, offset) # matchAll (Some (last w)) (offset + length w) (drop (length w) (u # s)))"
  by pat_completeness auto
termination
proof (relation "measure (\<lambda>(prev, offset, s). length s)")
  fix prev :: "16 word option" and offset :: nat and u s w
  assume "matchWrapper prev (u # s) = Some w"
  then have "w \<noteq> []" by (rule matchWrapper_length)
  then show "((Some (last w), offset + length w, drop (length w) (u # s)), (prev, offset, u # s)) \<in> measure (\<lambda>(prev, offset, s). length s)"
    by (cases w) auto
qed auto

fun collectWrappers :: "nat \<Rightarrow> (js_string \<times> nat) list \<Rightarrow> (js_string \<times> nat) list \<Rightarrow> (js_string \<times> nat) list" where
  "collectWrappers maxWrappers found [] = found"
| "collectWrappers maxWrappers found ((w, offset) # matches) =
     (if \<not> isBranchTextWrapper w \<or> w \<in> fst ` set found then collectWrappers maxWrappers found matches
      else if length (found @ [(w, offset)]) \<ge> maxWrappers then found @ [(w, offset)]
      else collectWrappers maxWrappers (found @ [(w, offset)]) matches)"

definition extractBranchTextWrappers :: "js_string \<Rightarrow> int \<Rightarrow> (js_string \<times> nat) list" where
  "extractBranchTextWrappers source maxWrappers =
     (if maxWrappers \<le> 0 then [] else collectWrappers (nat maxWrappers) [] (matchAll None 0 source))"

section \<open>Lemmas on wrappers\<close>

lemma isBranchTextWrapper_iff:
  "isBranchTextWrapper w \<longleftrightarrow> (\<exists>s. w = branchTextWrapperPrefix @ s \<and> validBase64URL s \<and> length s \<le> 65528)"
proof -
  have prefix: "length branchTextWrapperPrefix = 8" "\<forall>u \<in> set branchTextWrapperPrefix. unat u < 128"
    using lit_ascii [of "''BRANCH0.''"] by (simp_all add: branchTextWrapperPrefix_def asciiString_def)
  have ascii: "length (textEncode (branchTextWrapperPrefix @ s)) = 8 + length s" if "validBase64URL s" for s
  proof -
    have "\<forall>u \<in> set (branchTextWrapperPrefix @ s). unat u < 128"
      using prefix(2) that by (auto simp: validBase64URL_def base64URLPattern_def Let_def)
    then show ?thesis using textEncode_ascii prefix(1) by simp
  qed
  show ?thesis
  proof
    assume w: "isBranchTextWrapper w"
    then have "w = branchTextWrapperPrefix @ drop (length branchTextWrapperPrefix) w"
      by (simp add: isBranchTextWrapper_def startsWith_def split: if_splits) (metis append_take_drop_id)
    moreover from w have "validBase64URL (drop (length branchTextWrapperPrefix) w)" "length (textEncode w) \<le> 65536"
      by (auto simp: isBranchTextWrapper_def maxTextCarrierRecordBytes_def split: if_splits)
    ultimately obtain s where "w = branchTextWrapperPrefix @ s" "validBase64URL s" "length (textEncode w) \<le> 65536" by metis
    then show "\<exists>s. w = branchTextWrapperPrefix @ s \<and> validBase64URL s \<and> length s \<le> 65528" using ascii [of s] by auto
  next
    assume "\<exists>s. w = branchTextWrapperPrefix @ s \<and> validBase64URL s \<and> length s \<le> 65528"
    then show "isBranchTextWrapper w"
      using ascii by (auto simp: isBranchTextWrapper_def startsWith_def maxTextCarrierRecordBytes_def)
  qed
qed

section \<open>Lemmas on matches\<close>

definition prevAt :: "16 word option \<Rightarrow> js_string \<Rightarrow> nat \<Rightarrow> 16 word option" where
  "prevAt prev s i = (if i = 0 then prev else Some (s ! (i - 1)))"

definition occursAt :: "16 word option \<Rightarrow> js_string \<Rightarrow> nat \<Rightarrow> js_string \<Rightarrow> bool" where
  "occursAt prev s i w \<longleftrightarrow> i < length s \<and> matchWrapper (prevAt prev s i) (drop i s) = Some w"

lemma matchWrapper_Some:
  "matchWrapper prev s = Some w \<longleftrightarrow> (\<exists>run rest. s = branchTextWrapperPrefix @ run @ rest \<and> w = branchTextWrapperPrefix @ run \<and> run \<noteq> []
     \<and> (\<forall>u \<in> set run. tokenUnit u) \<and> (case rest of [] \<Rightarrow> True | u # _ \<Rightarrow> closingUnit u)
     \<and> (case prev of None \<Rightarrow> True | Some u \<Rightarrow> \<not> wordUnit u))"
proof -
  have token_closing: "\<not> tokenUnit u" if "closingUnit u" for u
    using that by (auto simp: closingUnit_def tokenUnit_def wordUnit_def jsWhitespace_def lit_def unitOf_def Let_def)
  show ?thesis (is "?L \<longleftrightarrow> ?R")
  proof
    assume ?L
    then have s: "startsWith s branchTextWrapperPrefix" and w: "w = branchTextWrapperPrefix @ takeWhile tokenUnit (drop (length branchTextWrapperPrefix) s)"
      "takeWhile tokenUnit (drop (length branchTextWrapperPrefix) s) \<noteq> []"
      "case dropWhile tokenUnit (drop (length branchTextWrapperPrefix) s) of [] \<Rightarrow> True | u # _ \<Rightarrow> closingUnit u"
      "case prev of None \<Rightarrow> True | Some u \<Rightarrow> \<not> wordUnit u"
      by (auto simp: matchWrapper_def Let_def split: if_splits)
    have "s = branchTextWrapperPrefix @ takeWhile tokenUnit (drop (length branchTextWrapperPrefix) s)
        @ dropWhile tokenUnit (drop (length branchTextWrapperPrefix) s)"
      using s by (simp add: startsWith_def) (metis append_take_drop_id)
    then show ?R using w set_takeWhileD by metis
  next
    assume ?R
    then obtain run rest where s: "s = branchTextWrapperPrefix @ run @ rest" "w = branchTextWrapperPrefix @ run" "run \<noteq> []"
      "\<forall>u \<in> set run. tokenUnit u" and rest: "case rest of [] \<Rightarrow> True | u # _ \<Rightarrow> closingUnit u"
      and prev: "case prev of None \<Rightarrow> True | Some u \<Rightarrow> \<not> wordUnit u" by blast
    have "takeWhile tokenUnit (run @ rest) = run" "dropWhile tokenUnit (run @ rest) = rest"
      using s(4) rest token_closing by (cases rest; auto)+
    then show ?L using s prev rest by (simp add: matchWrapper_def startsWith_def Let_def)
  qed
qed

lemma prefix_units: "branchTextWrapperPrefix = map unitOf [66, 82, 65, 78, 67, 72, 48, 46]"
  by (simp add: branchTextWrapperPrefix_def lit_def)

lemma prefix_nth:
  assumes "i < 8"
  shows "branchTextWrapperPrefix ! i = unitOf 46 \<longleftrightarrow> i = 7" "branchTextWrapperPrefix ! i = unitOf 66 \<longleftrightarrow> i = 0"
    "0 < i \<Longrightarrow> \<not> closingUnit (branchTextWrapperPrefix ! i)"
proof -
  have "i \<in> {0, 1, 2, 3, 4, 5, 6, 7}" using assms by auto
  then show "branchTextWrapperPrefix ! i = unitOf 46 \<longleftrightarrow> i = 7" "branchTextWrapperPrefix ! i = unitOf 66 \<longleftrightarrow> i = 0"
    "0 < i \<Longrightarrow> \<not> closingUnit (branchTextWrapperPrefix ! i)"
    by (elim insertE emptyE; simp add: prefix_units unitOf_def closingUnit_def jsWhitespace_def lit_def)+
qed

lemma length_prefix [simp]: "length branchTextWrapperPrefix = 8"
  by (simp add: prefix_units)

lemma no_overlap:
  assumes "matchWrapper prev s = Some w" "0 < i" "i < length w"
  shows "\<not> occursAt prev s i w'"
proof
  let ?p = branchTextWrapperPrefix
  assume "occursAt prev s i w'"
  then obtain tail where tail: "drop i s = ?p @ tail" "i < length s" by (auto simp: occursAt_def matchWrapper_Some)
  have at: "s ! (i + j) = ?p ! j \<and> i + j < length s" if "j < 8" for j
    using that arg_cong [OF tail(1), of "\<lambda>xs. xs ! j"] arg_cong [OF tail(1), of length] tail(2) by (auto simp: nth_append)
  obtain run rest where s: "s = ?p @ run @ rest" "w = ?p @ run" "\<forall>u \<in> set run. tokenUnit u"
    and rest: "case rest of [] \<Rightarrow> True | u # _ \<Rightarrow> closingUnit u"
    using assms(1) unfolding matchWrapper_Some by blast
  show False
  proof (cases "i < 8")
    case True
    then have "?p ! i = ?p ! 0" using at [of 0] by (simp add: s(1) nth_append)
    then show False using prefix_nth(2) [OF True] assms(2) by (simp add: prefix_units)
  next
    case False
    have "\<not> i + 7 < length w"
    proof
      assume "i + 7 < length w"
      then have "s ! (i + 7) = run ! (i - 1)" "i - 1 < length run" using False s(2) by (auto simp: s(1) nth_append)
      then have "tokenUnit (?p ! 7)" using at [of 7] s(3) by auto
      then show False by (simp add: prefix_units tokenUnit_def wordUnit_def unitOf_def)
    qed
    then have j: "0 < length w - i" "length w - i < 8" using assms(3) by auto
    then have "s ! length w = ?p ! (length w - i)" "length w < length s" using at [of "length w - i"] assms(3) by auto
    then have "rest \<noteq> []" "hd rest = ?p ! (length w - i)" using s by (auto simp: nth_append hd_conv_nth)
    then show False using rest prefix_nth(3) [OF j(2,1)] by (cases rest) auto
  qed
qed

lemma occursAt_drop:
  assumes "0 < n" "n \<le> length s"
  shows "occursAt prev s (n + j) w \<longleftrightarrow> occursAt (Some (s ! (n - 1))) (drop n s) j w"
  using assms by (cases j) (auto simp: occursAt_def prevAt_def add.commute)

lemma matchAll_iff: "(w, k) \<in> set (matchAll prev offset s) \<longleftrightarrow> offset \<le> k \<and> occursAt prev s (k - offset) w"
proof (induction prev offset s rule: matchAll.induct)
  case (2 prev offset u s)
  show ?case
  proof (cases "matchWrapper prev (u # s)")
    case None
    show ?thesis
    proof -
      consider "k < offset" | "k = offset" | j where "k = offset + Suc j" by (metis less_iff_Suc_add linorder_neqE_nat add_Suc_right)
      then show ?thesis
      proof cases
        case 2
        then show ?thesis using None 2 "2.IH"(1) [OF None] by (simp add: occursAt_def prevAt_def)
      next
        case 3
        then show ?thesis using None "2.IH"(1) [OF None] occursAt_drop [of 1 "u # s" prev j w] by simp
      qed (use None "2.IH"(1) [OF None] in auto)
    qed
  next
    case (Some m)
    have m: "m \<noteq> []" "length m \<le> length (u # s)" "take (length m) (u # s) = m"
      using Some unfolding matchWrapper_Some by (auto simp: prefix_units)
    then have last: "(u # s) ! (length m - 1) = last m" by (metis diff_less last_conv_nth length_greater_0_conv nth_take zero_less_one)
    consider "k < offset" | "k = offset" | "offset < k" "k < offset + length m" | "offset + length m \<le> k" by linarith
    then show ?thesis
    proof cases
      case 2
      then show ?thesis using Some m(1) "2.IH"(2) [OF Some] by (auto simp: occursAt_def prevAt_def)
    next
      case 3
      then show ?thesis using Some "2.IH"(2) [OF Some] no_overlap [OF Some, of "k - offset" w] by auto
    next
      case 4
      then show ?thesis
        using Some m "2.IH"(2) [OF Some] occursAt_drop [of "length m" "u # s" prev "k - (offset + length m)" w] last by auto
    qed (use Some "2.IH"(2) [OF Some] in auto)
  qed
qed (simp add: occursAt_def)

lemma matchAll_sorted: "sorted_wrt (<) (map snd (matchAll prev offset s))"
proof (induction prev offset s rule: matchAll.induct)
  case (2 prev offset u s)
  show ?case
  proof (cases "matchWrapper prev (u # s)")
    case None
    then show ?thesis using "2.IH"(1) by simp
  next
    case (Some w)
    have "offset < k" if "(v, k) \<in> set (matchAll (Some (last w)) (offset + length w) (drop (length w) (u # s)))" for v k
      using that matchWrapper_length [OF Some] by (cases w) (auto simp: matchAll_iff)
    then show ?thesis using Some "2.IH"(2) [OF Some] by auto
  qed
qed simp

section \<open>Lemmas on the extraction\<close>

fun firstOccurrences :: "js_string set \<Rightarrow> (js_string \<times> nat) list \<Rightarrow> (js_string \<times> nat) list" where
  "firstOccurrences seen [] = []"
| "firstOccurrences seen ((w, k) # matches) =
     (if isBranchTextWrapper w \<and> w \<notin> seen then (w, k) # firstOccurrences (insert w seen) matches else firstOccurrences seen matches)"

lemma collectWrappers_take:
  "length found < n \<Longrightarrow> collectWrappers n found matches = take n (found @ firstOccurrences (fst ` set found) matches)"
proof (induction n found matches rule: collectWrappers.induct)
  case (2 n found w k matches)
  show ?case
  proof (cases "Suc (length found) < n")
    case False
    with 2(3) have "n = Suc (length found)" by simp
    then show ?thesis using 2 by simp
  qed (use 2 in simp)
qed simp

lemma firstOccurrences_iff:
  "sorted_wrt (<) (map snd matches) \<Longrightarrow>
     (w, k) \<in> set (firstOccurrences seen matches) \<longleftrightarrow> isBranchTextWrapper w \<and> w \<notin> seen \<and> (w, k) \<in> set matches
       \<and> \<not> (\<exists>k'. k' < k \<and> (w, k') \<in> set matches)"
  by (induction seen matches rule: firstOccurrences.induct) (auto 0 3)

lemma firstOccurrences_sorted:
  "sorted_wrt (<) (map snd matches) \<Longrightarrow> sorted_wrt (<) (map snd (firstOccurrences seen matches))"
proof (induction seen matches rule: firstOccurrences.induct)
  case (2 seen w k matches)
  then have "\<forall>x \<in> set (firstOccurrences (insert w seen) matches). k < snd x" by (auto simp: firstOccurrences_iff)
  with 2 show ?case by auto
qed simp

section \<open>Properties\<close>

text \<open>
  C32. Extraction returns the first \<open>maxWrappers\<close> of a fixed list: every valid wrapper that stands in the text as a word of its
  own, once, at the offset of its first occurrence, in the order of the offsets. The search misses no occurrence.
\<close>

theorem text_carrier_extraction:
  "\<exists>found. (\<forall>n. extractBranchTextWrappers source n = take (nat n) found) \<and> sorted_wrt (<) (map snd found) \<and> distinct (map fst found)
     \<and> (\<forall>w k. (w, k) \<in> set found \<longleftrightarrow> isBranchTextWrapper w \<and> occursAt None source k w \<and> \<not> (\<exists>k'. k' < k \<and> occursAt None source k' w))"
proof (intro exI conjI allI)
  let ?found = "firstOccurrences {} (matchAll None 0 source)"
  show "extractBranchTextWrappers source n = take (nat n) ?found" for n
    by (simp add: extractBranchTextWrappers_def collectWrappers_take)
  show sorted: "sorted_wrt (<) (map snd ?found)" by (intro firstOccurrences_sorted matchAll_sorted)
  show iff: "(w, k) \<in> set ?found \<longleftrightarrow> isBranchTextWrapper w \<and> occursAt None source k w \<and> \<not> (\<exists>k'. k' < k \<and> occursAt None source k' w)" for w k
    using firstOccurrences_iff [OF matchAll_sorted] by (auto simp: matchAll_iff)
  have "distinct ?found" using sorted unfolding strict_sorted_iff distinct_map by blast
  moreover have "inj_on fst (set ?found)" by (rule inj_onI) (use iff in \<open>metis nat_neq_iff prod.collapse\<close>)
  ultimately show "distinct (map fst ?found)" by (simp add: distinct_map)
qed

end
