(* ===== verification/SignedEvents.thy ===== *)
theory SignedEvents
  imports DirectFrames TextCarrier
begin

text \<open>
  The signed public records of the discovery layer.
  \<^verbatim>\<open>protocol/v0/identity-contact.ts\<close> and \<^verbatim>\<open>protocol/v0/bootstrap-beacon.ts\<close> read and write them. The two files share,
  word for word, the signed envelope, its checks and the helpers on ordered texts and endpoints; these are modelled
  once here, with the event type as an argument. The payloads are in \<open>IdentityContact\<close> and \<open>BootstrapBeacon\<close>.

  SHA-256, Ed25519, the URL parser, \<^verbatim>\<open>localeCompare\<close>, random bytes and the clock are arguments. \<open>lowerUnit\<close> is
  \<^verbatim>\<open>toLowerCase\<close> as far as a pattern of ASCII letters can tell: besides the capital letters only the Kelvin sign
  is lowered to an ASCII letter, and a string with any other non-ASCII unit fails the pattern either way.
\<close>

section \<open>The signed envelope\<close>

record SignedEnvelope =
  ev_protocol :: js_string
  ev_eventId :: bytes
  ev_type :: js_string
  ev_keyAlg :: js_string
  ev_publicKey :: bytes
  ev_createdAt :: int
  ev_expiresAt :: int
  ev_payloadMode :: js_string
  ev_payloadBytes :: bytes
  ev_signatureAlg :: js_string
  ev_signature :: bytes

definition signatureDomainBytes :: bytes where
  "signatureDomainBytes = textEncode (lit (''BRANCH signed event v0'' @ [CHR 0x0A]))"

definition defaultMaxFutureSkewSeconds :: int where
  "defaultMaxFutureSkewSeconds = 300"

definition defaultLifetimeSeconds :: int where
  "defaultLifetimeSeconds = 7 * 24 * 60 * 60"

definition envelopeKeys :: "js_string list" where
  "envelopeKeys = map lit [''protocol'', ''event_id'', ''type'', ''sender'', ''recipient_tag'', ''created_at'', ''expires_at'',
     ''payload_mode'', ''payload'', ''signature_alg'', ''signature'']"

definition readTimestamp :: "cbor \<Rightarrow> string \<Rightarrow> int res" where
  "readTimestamp v key =
     andThen (readUint v (lit key)) (\<lambda>n. if n > maxDraftTimestamp then Inl (PlainError (lit (''invalid_'' @ key))) else Inr n)"

definition readField :: "cborMap \<Rightarrow> string \<Rightarrow> (cbor \<Rightarrow> 'a res) \<Rightarrow> 'a res" where
  "readField m key f = andThen (getRequiredEntry m (lit key)) f"

definition readSender :: "cborMap \<Rightarrow> (js_string \<times> bytes) res" where
  "readSender m =
     andThen (rejectUnknownEntries m (map lit [''key_alg'', ''public_key''])) (\<lambda>_.
     andThen (readField m ''key_alg'' (\<lambda>v. readText v (lit ''key_alg''))) (\<lambda>keyAlg.
     if keyAlg \<noteq> lit ''ed25519'' then throw ''invalid_sender''
     else andThen (readField m ''public_key'' (\<lambda>v. readBytes v (lit ''public_key'') (Some 32))) (\<lambda>publicKey.
       Inr (keyAlg, publicKey))))"

definition readEnvelope :: "js_string \<Rightarrow> cborMap \<Rightarrow> SignedEnvelope res" where
  "readEnvelope eventType m =
     andThen (rejectUnknownEntries m envelopeKeys) (\<lambda>_.
     if hasEntry m (lit ''recipient_tag'') then throw ''recipient_tag_present''
     else andThen (readField m ''protocol'' (\<lambda>v. readText v (lit ''protocol''))) (\<lambda>protocol.
     if protocol \<noteq> protocolID then throw ''unsupported_protocol''
     else andThen (readField m ''type'' (\<lambda>v. readText v (lit ''type''))) (\<lambda>type'.
     if type' \<noteq> eventType then throw ''unsupported_event_type''
     else andThen (readField m ''payload_mode'' (\<lambda>v. readText v (lit ''payload_mode''))) (\<lambda>payloadMode.
     if payloadMode \<noteq> lit ''public'' then throw ''invalid_payload_mode''
     else andThen (readField m ''signature_alg'' (\<lambda>v. readText v (lit ''signature_alg''))) (\<lambda>signatureAlg.
     if signatureAlg \<noteq> lit ''ed25519'' then throw ''invalid_signature_alg''
     else andThen (readField m ''sender'' (\<lambda>v. andThen (readCborMap v (lit ''sender'')) readSender)) (\<lambda>(keyAlg, publicKey).
     andThen (readField m ''created_at'' (\<lambda>v. readTimestamp v ''created_at'')) (\<lambda>createdAt.
     andThen (readField m ''expires_at'' (\<lambda>v. readTimestamp v ''expires_at'')) (\<lambda>expiresAt.
     if expiresAt \<le> createdAt then throw ''expired''
     else andThen (readField m ''event_id'' (\<lambda>v. readBytes v (lit ''event_id'') (Some 32))) (\<lambda>eventId.
     andThen (readField m ''payload'' (\<lambda>v. readBytes v (lit ''payload'') None)) (\<lambda>payloadBytes.
     andThen (readField m ''signature'' (\<lambda>v. readBytes v (lit ''signature'') (Some 64))) (\<lambda>signature.
       Inr \<lparr>ev_protocol = protocol, ev_eventId = eventId, ev_type = type', ev_keyAlg = keyAlg, ev_publicKey = publicKey,
            ev_createdAt = createdAt, ev_expiresAt = expiresAt, ev_payloadMode = payloadMode, ev_payloadBytes = payloadBytes,
            ev_signatureAlg = signatureAlg, ev_signature = signature\<rparr>)))))))))))"

definition unsignedEnvelopeEntries :: "SignedEnvelope \<Rightarrow> cborMap" where
  "unsignedEnvelopeEntries e =
     [(lit ''protocol'', CText (ev_protocol e)), (lit ''event_id'', CBytes (ev_eventId e)), (lit ''type'', CText (ev_type e)),
      (lit ''sender'', CMap [(lit ''key_alg'', CText (ev_keyAlg e)), (lit ''public_key'', CBytes (ev_publicKey e))]),
      (lit ''created_at'', CNum (ev_createdAt e)), (lit ''expires_at'', CNum (ev_expiresAt e)),
      (lit ''payload_mode'', CText (ev_payloadMode e)), (lit ''payload'', CBytes (ev_payloadBytes e)),
      (lit ''signature_alg'', CText (ev_signatureAlg e))]"

definition signedEnvelopeEntries :: "SignedEnvelope \<Rightarrow> cborMap" where
  "signedEnvelopeEntries e = unsignedEnvelopeEntries e @ [(lit ''signature'', CBytes (ev_signature e))]"

definition decodeCborForValidation :: "bytes \<Rightarrow> cbor res" where
  "decodeCborForValidation bs =
     (case decodeDeterministicCbor bs maxDraftEnvelopeBytes of
        Inr v \<Rightarrow> Inr v
      | Inl e \<Rightarrow> if errorMessage e = lit ''non_canonical_cbor'' then throw ''non_canonical_cbor'' else throw ''invalid_cbor'')"

section \<open>Rejections\<close>

text \<open>The reasons the two validators name themselves; the identity contact has three more.\<close>

definition commonReasons :: "js_string list" where
  "commonReasons = map lit
     [''malformed_wrapper'', ''envelope_oversized'', ''invalid_base64url'', ''invalid_cbor'', ''non_canonical_cbor'',
      ''unsupported_protocol'', ''unsupported_event_type'', ''recipient_tag_present'', ''invalid_payload_mode'', ''invalid_sender'',
      ''invalid_signature_alg'', ''signature_invalid'', ''expired'', ''created_in_future'', ''payload_oversized'', ''payload_invalid'',
      ''payload_expiry_mismatch'', ''payload_issued_after_created'']"

definition reasonFromError :: "js_string list \<Rightarrow> js_error \<Rightarrow> js_string" where
  "reasonFromError reasons e =
     (let message = errorMessage e in
      if message = lit ''invalid base64url'' then lit ''invalid_base64url''
      else if message \<in> set reasons then message
      else if startsWith message (lit ''unknown_'') then lit ''unknown_field''
      else if startsWith message (lit ''invalid_payload'') \<or> startsWith message (lit ''missing_'') then lit ''payload_invalid''
      else lit ''invalid_cbor'')"

section \<open>Ordered texts\<close>

fun orderedTexts :: "nat \<Rightarrow> js_string list \<Rightarrow> js_string \<Rightarrow> js_string list \<Rightarrow> unit res" where
  "orderedTexts maxBytes seen previous [] = Inr ()"
| "orderedTexts maxBytes seen previous (item # items) =
     (if length (textEncode item) > maxBytes then throw ''payload_invalid''
      else if item \<in> set seen \<or> item < previous then throw ''payload_invalid''
      else orderedTexts maxBytes (item # seen) item items)"

definition readOrderedUniqueTextArray :: "nat \<Rightarrow> cbor \<Rightarrow> string \<Rightarrow> nat \<Rightarrow> js_string list res" where
  "readOrderedUniqueTextArray maxBytes v key maxItems =
     andThen (readTextArray v (lit key) maxItems) (\<lambda>items.
     andThen (orderedTexts maxBytes [] [] items) (\<lambda>_. Inr items))"

fun uniqueTexts :: "nat \<Rightarrow> string \<Rightarrow> js_string list \<Rightarrow> js_string list \<Rightarrow> unit res" where
  "uniqueTexts maxBytes key seen [] = Inr ()"
| "uniqueTexts maxBytes key seen (item # items) =
     (if length item = 0 \<or> length (textEncode item) > maxBytes \<or> item \<in> set seen then Inl (PlainError (lit (''invalid_'' @ key)))
      else uniqueTexts maxBytes key (item # seen) items)"

text \<open>The order \<^verbatim>\<open>Array.prototype.sort\<close> uses without a comparator is that of the code units.\<close>

definition normalizeOrderedTextSet :: "nat \<Rightarrow> js_string list \<Rightarrow> string \<Rightarrow> js_string list res" where
  "normalizeOrderedTextSet maxBytes items key =
     (let normalized = sort items in andThen (uniqueTexts maxBytes key [] normalized) (\<lambda>_. Inr normalized))"

definition hasSupportedProfile :: "js_string list \<Rightarrow> js_string list \<Rightarrow> bool" where
  "hasSupportedProfile profiles supported \<longleftrightarrow> (\<exists>p \<in> set profiles. p \<in> set supported)"

section \<open>Endpoints\<close>

definition transportPattern :: "js_string \<Rightarrow> bool" where
  "transportPattern s =
     (case s of
        [] \<Rightarrow> False
      | u # us \<Rightarrow> 97 \<le> unat u \<and> unat u \<le> 122
          \<and> (\<forall>v \<in> set us. 97 \<le> unat v \<and> unat v \<le> 122 \<or> 48 \<le> unat v \<and> unat v \<le> 57 \<or> v \<in> set (lit ''.+-'')))"

definition readTransport :: "cbor \<Rightarrow> js_string res" where
  "readTransport v =
     andThen (readText v (lit ''transport'')) (\<lambda>transport.
       if length (textEncode transport) > 32 \<or> \<not> transportPattern transport then throw ''payload_invalid'' else Inr transport)"

definition readRouteUri :: "cbor \<Rightarrow> js_string res" where
  "readRouteUri v =
     andThen (readText v (lit ''uri'')) (\<lambda>uri. if length (textEncode uri) > 512 then throw ''payload_invalid'' else Inr uri)"

definition digitUnit :: "16 word \<Rightarrow> bool" where
  "digitUnit u \<longleftrightarrow> 48 \<le> unat u \<and> unat u \<le> 57"

definition portDecimal :: "js_string \<Rightarrow> int" where
  "portDecimal s = foldl (\<lambda>n u. 10 * n + int (unat u - 48)) 0 s"

definition readExplicitPort :: "js_string \<Rightarrow> int option" where
  "readExplicitPort uri =
     (if \<not> startsWith uri (lit ''wss://'') then None
      else
        let authority = takeWhile (\<lambda>u. u \<notin> set (lit ''/?#'')) (drop 6 uri) in
        if hd (lit ''@'') \<in> set authority then None
        else
          let bracket = startsWith authority (lit ''['');
              host = (if bracket then takeWhile (\<lambda>u. u \<noteq> hd (lit '']'')) (drop 1 authority)
                      else takeWhile (\<lambda>u. u \<noteq> hd (lit '':'')) authority);
              rest = (if bracket then dropWhile (\<lambda>u. u \<noteq> hd (lit '']'')) (drop 1 authority)
                      else dropWhile (\<lambda>u. u \<noteq> hd (lit '':'')) authority);
              separator = (if bracket then lit '']:'' else lit '':'');
              digits = drop (length separator) rest in
          if host = [] \<or> \<not> startsWith rest separator \<or> digits = [] \<or> (\<exists>u \<in> set digits. \<not> digitUnit u) then None
          else if portDecimal digits \<le> maxSafeInteger then Some (portDecimal digits) else None)"

definition validateWssEndpointUri :: "(js_string \<Rightarrow> URL option) \<Rightarrow> js_string \<Rightarrow> unit res" where
  "validateWssEndpointUri parseUrl uri =
     (case readExplicitPort uri of
        None \<Rightarrow> throw ''payload_invalid''
      | Some port \<Rightarrow>
          if port < 1 \<or> port > 65535 then throw ''payload_invalid''
          else case parseUrl uri of
              None \<Rightarrow> throw ''payload_invalid''
            | Some parsed \<Rightarrow>
                if url_protocol parsed \<noteq> lit ''wss:'' \<or> url_hostname parsed = [] \<or> url_username parsed \<noteq> []
                  \<or> url_password parsed \<noteq> [] \<or> url_hash parsed \<noteq> []
                then throw ''payload_invalid'' else Inr ())"

section \<open>Opening a signed event\<close>

definition verifyEd25519 :: "(bytes \<Rightarrow> bytes \<Rightarrow> bytes \<Rightarrow> bool res) \<Rightarrow> bytes \<Rightarrow> bytes \<Rightarrow> bytes \<Rightarrow> bool" where
  "verifyEd25519 ed25519Verify publicKey signature input =
     (case ed25519Verify publicKey signature input of Inl _ \<Rightarrow> False | Inr b \<Rightarrow> b)"

text \<open>\<^verbatim>\<open>return reject(reason)\<close> is the value \<open>Inr (Inl reason)\<close>, a throw \<open>Inl error\<close>.\<close>

abbreviation rejectWith :: "string \<Rightarrow> (js_string + 'a) res" where
  "rejectWith reason \<equiv> Inr (Inl (lit reason))"

definition openSignedEvent ::
  "(bytes \<Rightarrow> bytes \<Rightarrow> bytes \<Rightarrow> bool res) \<Rightarrow> js_string \<Rightarrow> int \<Rightarrow> int \<Rightarrow> js_string
     \<Rightarrow> (js_string + bytes \<times> bytes \<times> SignedEnvelope) res" where
  "openSignedEvent ed25519Verify eventType now maxFutureSkewSeconds wrapper =
     (if \<not> isBranchTextWrapper wrapper then rejectWith ''malformed_wrapper''
      else andThen (decodeBase64URL (drop (length branchTextWrapperPrefix) wrapper)) (\<lambda>signedEventBytes.
        if length signedEventBytes > maxDraftEnvelopeBytes then rejectWith ''envelope_oversized''
        else andThen (decodeCborForValidation signedEventBytes) (\<lambda>v.
        andThen (readCborMap v (lit ''signed_event'')) (\<lambda>m.
        andThen (readEnvelope eventType m) (\<lambda>envelope.
        andThen (encodeDeterministicCbor (CMap (signedEnvelopeEntries envelope))) (\<lambda>canonicalSignedEventBytes.
        if \<not> sameBytes canonicalSignedEventBytes signedEventBytes then rejectWith ''non_canonical_cbor''
        else andThen (encodeDeterministicCbor (CMap (unsignedEnvelopeEntries envelope))) (\<lambda>unsignedBytes.
          let signatureInputBytes = signatureDomainBytes @ unsignedBytes in
          if \<not> verifyEd25519 ed25519Verify (ev_publicKey envelope) (ev_signature envelope) signatureInputBytes
          then rejectWith ''signature_invalid''
          else if ev_expiresAt envelope \<le> now then rejectWith ''expired''
          else if ev_createdAt envelope > now + maxFutureSkewSeconds then rejectWith ''created_in_future''
          else Inr (Inr (signedEventBytes, signatureInputBytes, envelope)))))))))"

text \<open>The unsigned envelope both creating functions build; the signature field is empty until it is signed.\<close>

definition newEnvelope :: "js_string \<Rightarrow> bytes \<Rightarrow> bytes \<Rightarrow> int \<Rightarrow> int \<Rightarrow> bytes \<Rightarrow> SignedEnvelope" where
  "newEnvelope eventType eventId publicKey createdAt expiresAt payloadBytes =
     \<lparr>ev_protocol = protocolID, ev_eventId = eventId, ev_type = eventType, ev_keyAlg = lit ''ed25519'', ev_publicKey = publicKey,
      ev_createdAt = createdAt, ev_expiresAt = expiresAt, ev_payloadMode = lit ''public'', ev_payloadBytes = payloadBytes,
      ev_signatureAlg = lit ''ed25519'', ev_signature = []\<rparr>"

text \<open>The end of both creating functions: sign the unsigned envelope, then encode and wrap the signed one.\<close>

definition sealEvent :: "(bytes \<Rightarrow> bytes) \<Rightarrow> SignedEnvelope \<Rightarrow> js_string res" where
  "sealEvent ed25519Sign unsignedEnvelope =
     andThen (encodeDeterministicCbor (CMap (unsignedEnvelopeEntries unsignedEnvelope))) (\<lambda>unsignedBytes.
     let signature = ed25519Sign (signatureDomainBytes @ unsignedBytes) in
     andThen (encodeDeterministicCbor (CMap (signedEnvelopeEntries (unsignedEnvelope\<lparr>ev_signature := signature\<rparr>)))) (\<lambda>bs.
       Inr (branchTextWrapperPrefix @ encodeBase64URL bs)))"

section \<open>Lemmas on envelopes\<close>

definition validEnvelope :: "js_string \<Rightarrow> SignedEnvelope \<Rightarrow> bool" where
  "validEnvelope eventType e \<longleftrightarrow> ev_protocol e = protocolID \<and> ev_type e = eventType \<and> ev_payloadMode e = lit ''public''
     \<and> ev_signatureAlg e = lit ''ed25519'' \<and> ev_keyAlg e = lit ''ed25519'' \<and> length (ev_publicKey e) = 32 \<and> length (ev_eventId e) = 32
     \<and> length (ev_signature e) = 64 \<and> ev_payloadBytes e \<noteq> [] \<and> length (ev_payloadBytes e) \<le> maxCborBytes
     \<and> 0 \<le> ev_createdAt e \<and> ev_createdAt e < ev_expiresAt e \<and> ev_expiresAt e \<le> maxSafeInteger"

lemma readField_Inr: "readField m key f = Inr y \<longleftrightarrow> (\<exists>v. map_of m (lit key) = Some v \<and> f v = Inr y)"
  by (auto simp: readField_def res_simps)

lemma readField_Some: "map_of m (lit key) = Some v \<Longrightarrow> readField m key f = f v"
  by (simp add: readField_def getRequiredEntry_def)

lemma readTimestamp_Inr: "readTimestamp v key = Inr n \<longleftrightarrow> v = CNum n \<and> 0 \<le> n \<and> n \<le> maxSafeInteger"
  by (cases v) (auto simp: readTimestamp_def readUint_def invalidEntry_def isSafeInteger_def maxDraftTimestamp_def maxSafeInteger_def)

lemma guard_Inr: "(if c then Inl x else m) = Inr y \<longleftrightarrow> \<not> c \<and> m = Inr y"
  by simp

lemma readEnvelope_valid:
  assumes "readEnvelope eventType m = Inr e"
  shows "validEnvelope eventType e"
  using assms
  unfolding readEnvelope_def
  by (auto simp: andThen_Inr guard_Inr readField_Inr readTimestamp_Inr readSender_def readBytes_Inr validEnvelope_def)

lemma protocolID_text: "decodableText protocolID" "length (textEncode protocolID) = 21" "protocolID \<noteq> []"
  by (simp_all add: protocolID_def)

lemma validEnvelope_wf:
  assumes "validEnvelope eventType e" "decodableText eventType"
  shows "wfCbor (CMap (signedEnvelopeEntries e))" "wfCbor (CMap (unsignedEnvelopeEntries e))"
  using assms protocolID_text
  by (auto simp: validEnvelope_def signedEnvelopeEntries_def unsignedEnvelopeEntries_def maxCborCollectionEntries_def maxCborBytes_def)

lemma readEnvelope_canonical:
  assumes e: "validEnvelope eventType e" and t: "decodableText eventType" "eventType \<noteq> []"
  shows "readEnvelope eventType (canonicalEntries (signedEnvelopeEntries e)) = Inr e"
proof -
  let ?es = "signedEnvelopeEntries e" and ?m = "canonicalEntries (signedEnvelopeEntries e)"
  let ?sender = "[(lit ''key_alg'', CText (ev_keyAlg e)), (lit ''public_key'', CBytes (ev_publicKey e))]"
  have "distinct (map fst ?es)" by (simp add: signedEnvelopeEntries_def unsignedEnvelopeEntries_def)
  then have get: "map_of ?m k = map_option canonical (map_of ?es k)" for k by simp
  have keys: "fst ` set ?m \<subseteq> set envelopeKeys"
    by (simp add: signedEnvelopeEntries_def unsignedEnvelopeEntries_def envelopeKeys_def)
  have sender: "canonical (CMap ?sender) = CMap (canonicalEntries ?sender)"
    by (simp add: canonical_CMap canonicalEntries_def del: canonical.simps(2))
  have "rejectUnknownEntries (canonicalEntries ?sender) (map lit [''key_alg'', ''public_key'']) = Inr ()"
    by (simp add: rejectUnknownEntries_Inr)
  then have read: "readSender (canonicalEntries ?sender) = Inr (ev_keyAlg e, ev_publicKey e)"
    using e by (auto simp: readSender_def readField_def getRequiredEntry_canonicalEntries readText_def readBytes_def validEnvelope_def
        maxCborTextBytes_def maxCborBytes_def)
  have "rejectUnknownEntries ?m envelopeKeys = Inr ()" using keys by (simp add: rejectUnknownEntries_Inr)
  moreover have "\<not> hasEntry ?m (lit ''recipient_tag'')"
    by (simp add: hasEntry_map_of get) (simp add: signedEnvelopeEntries_def unsignedEnvelopeEntries_def)
  moreover have "map_of ?m (lit ''sender'') = Some (CMap (canonicalEntries ?sender))"
    using sender by (simp add: get signedEnvelopeEntries_def unsignedEnvelopeEntries_def del: canonical.simps(2))
  moreover have "map_of ?m (lit ''protocol'') = Some (CText (ev_protocol e))" "map_of ?m (lit ''event_id'') = Some (CBytes (ev_eventId e))"
    "map_of ?m (lit ''type'') = Some (CText (ev_type e))" "map_of ?m (lit ''created_at'') = Some (CNum (ev_createdAt e))"
    "map_of ?m (lit ''expires_at'') = Some (CNum (ev_expiresAt e))" "map_of ?m (lit ''payload_mode'') = Some (CText (ev_payloadMode e))"
    "map_of ?m (lit ''payload'') = Some (CBytes (ev_payloadBytes e))"
    "map_of ?m (lit ''signature_alg'') = Some (CText (ev_signatureAlg e))" "map_of ?m (lit ''signature'') = Some (CBytes (ev_signature e))"
    by (simp_all add: get signedEnvelopeEntries_def unsignedEnvelopeEntries_def)
  ultimately show ?thesis
    using e t protocolID_text read
    by (simp add: readEnvelope_def readField_Some readCborMap_def validEnvelope_def readText_def readBytes_def readTimestamp_def readUint_def
      isSafeInteger_def maxDraftTimestamp_def maxSafeInteger_def maxCborTextBytes_def maxCborBytes_def decodableText_def)
qed

lemma decodeCborForValidation_Inr:
  "decodeCborForValidation bs = Inr v \<longleftrightarrow> decodeDeterministicCbor bs maxDraftEnvelopeBytes = Inr v"
  by (auto simp: decodeCborForValidation_def split: sum.splits if_splits)

lemma rejectWith_Inr: "(if c then rejectWith reason else m) = Inr (Inr y) \<longleftrightarrow> \<not> c \<and> m = Inr (Inr y)"
  by simp

lemma verifyEd25519_iff: "verifyEd25519 f k s i \<longleftrightarrow> f k s i = Inr True"
  by (auto simp: verifyEd25519_def split: sum.splits)

definition genuine :: "(bytes \<Rightarrow> bytes \<Rightarrow> bytes \<Rightarrow> bool res) \<Rightarrow> js_string \<Rightarrow> js_string \<Rightarrow> bytes \<Rightarrow> bytes \<Rightarrow> SignedEnvelope \<Rightarrow> bool" where
  "genuine ed25519Verify eventType w bs input e \<longleftrightarrow> validEnvelope eventType e
     \<and> (\<exists>s. w = branchTextWrapperPrefix @ s \<and> length s \<le> 65528 \<and> decodeBase64URL s = Inr bs)
     \<and> encodeDeterministicCbor (CMap (signedEnvelopeEntries e)) = Inr bs
     \<and> (\<exists>unsigned. encodeDeterministicCbor (CMap (unsignedEnvelopeEntries e)) = Inr unsigned \<and> input = signatureDomainBytes @ unsigned)
     \<and> ed25519Verify (ev_publicKey e) (ev_signature e) input = Inr True"

lemma decode_valid64: "decodeBase64URL s = Inr bs \<Longrightarrow> validBase64URL s"
  by (simp add: decodeBase64URL_def split: if_splits)

lemma openSignedEvent_iff:
  assumes t: "decodableText eventType" "eventType \<noteq> []"
  shows "openSignedEvent verify eventType now skew w = Inr (Inr (bs, input, e)) \<longleftrightarrow>
    genuine verify eventType w bs input e \<and> now < ev_expiresAt e \<and> ev_createdAt e \<le> now + skew"
proof
  assume "openSignedEvent verify eventType now skew w = Inr (Inr (bs, input, e))"
  then obtain m unsigned where w: "isBranchTextWrapper w" "decodeBase64URL (drop (length branchTextWrapperPrefix) w) = Inr bs"
    and m: "readEnvelope eventType m = Inr e" "encodeDeterministicCbor (CMap (signedEnvelopeEntries e)) = Inr bs"
    and input: "encodeDeterministicCbor (CMap (unsignedEnvelopeEntries e)) = Inr unsigned" "input = signatureDomainBytes @ unsigned"
    and checks: "verifyEd25519 verify (ev_publicKey e) (ev_signature e) input" "now < ev_expiresAt e" "ev_createdAt e \<le> now + skew"
    unfolding openSignedEvent_def Let_def rejectWith_Inr by (auto simp: andThen_Inr rejectWith_Inr)
  obtain s where "w = branchTextWrapperPrefix @ s" "length s \<le> 65528" using w(1) by (auto simp: isBranchTextWrapper_iff)
  then show "genuine verify eventType w bs input e \<and> now < ev_expiresAt e \<and> ev_createdAt e \<le> now + skew"
    using w(2) m input checks readEnvelope_valid [OF m(1)] by (auto simp: genuine_def verifyEd25519_iff)
next
  assume g: "genuine verify eventType w bs input e \<and> now < ev_expiresAt e \<and> ev_createdAt e \<le> now + skew"
  then obtain s unsigned where s: "w = branchTextWrapperPrefix @ s" "length s \<le> 65528" "decodeBase64URL s = Inr bs"
    and enc: "encodeDeterministicCbor (CMap (signedEnvelopeEntries e)) = Inr bs"
      "encodeDeterministicCbor (CMap (unsignedEnvelopeEntries e)) = Inr unsigned" "input = signatureDomainBytes @ unsigned"
    and e: "validEnvelope eventType e" "verifyEd25519 verify (ev_publicKey e) (ev_signature e) input"
    by (auto simp: genuine_def verifyEd25519_iff)
  have "isBranchTextWrapper w" using s decode_valid64 [OF s(3)] by (auto simp: isBranchTextWrapper_iff)
  moreover have size: "length bs \<le> maxDraftEnvelopeBytes"
    using decodeBase64URL_length [OF s(3)] s(2) by (simp add: maxDraftEnvelopeBytes_def)
  moreover have "decodeCborForValidation bs = Inr (CMap (canonicalEntries (signedEnvelopeEntries e)))"
    using decode_encode_map [OF validEnvelope_wf(1) [OF e(1) t(1)] enc(1) size] by (simp add: decodeCborForValidation_def)
  ultimately show "openSignedEvent verify eventType now skew w = Inr (Inr (bs, input, e))"
    using s(1,3) enc e(2) g readEnvelope_canonical [OF e(1) t]
    by (simp add: openSignedEvent_def readCborMap_def Let_def)
qed

text \<open>The signing bytes and the event bytes determine the envelope, so one wrapper has one event type.\<close>

lemma genuine_unique:
  assumes "genuine verify t w bs input e" "genuine verify' t' w bs' input' e'" "decodableText t" "decodableText t'" "t \<noteq> []" "t' \<noteq> []"
  shows "e = e' \<and> t = t'"
proof -
  have "bs = bs'" using assms(1,2) by (auto simp: genuine_def)
  then have "encodeDeterministicCbor (CMap (signedEnvelopeEntries e)) = encodeDeterministicCbor (CMap (signedEnvelopeEntries e'))"
    using assms(1,2) by (auto simp: genuine_def)
  moreover have wf: "wfCbor (CMap (signedEnvelopeEntries e))" "wfCbor (CMap (signedEnvelopeEntries e'))"
    using assms validEnvelope_wf(1) by (auto simp: genuine_def simp del: wfCbor.simps)
  ultimately have "canonical (CMap (signedEnvelopeEntries e)) = canonical (CMap (signedEnvelopeEntries e'))"
    using encode_inject_canonical by blast
  then have same: "canonicalEntries (signedEnvelopeEntries e) = canonicalEntries (signedEnvelopeEntries e')"
    by (simp add: canonical_CMap canonicalEntries_def del: canonical.simps(2))
  have e: "validEnvelope t e" "validEnvelope t' e'" using assms(1,2) by (auto simp: genuine_def)
  have "map_of (canonicalEntries (signedEnvelopeEntries x)) (lit ''type'') = Some (CText (ev_type x))" for x
    by (simp add: signedEnvelopeEntries_def unsignedEnvelopeEntries_def)
  from this [of e] this [of e'] have "ev_type e = ev_type e'" by (simp add: same)
  then have "t = t'" using e by (simp add: validEnvelope_def)
  moreover have "readEnvelope t (canonicalEntries (signedEnvelopeEntries e')) = Inr e"
    using readEnvelope_canonical [OF e(1) assms(3,5)] unfolding same .
  ultimately show ?thesis using readEnvelope_canonical [OF e(2) assms(4,6)] by (metis sum.inject(2))
qed

lemma unsigned_signature [simp]: "unsignedEnvelopeEntries (e\<lparr>ev_signature := s\<rparr>) = unsignedEnvelopeEntries e"
  by (simp add: unsignedEnvelopeEntries_def)

lemma sealEvent_genuine:
  assumes e: "validEnvelope eventType (e\<lparr>ev_signature := replicate 64 0\<rparr>)" and t: "decodableText eventType" "length (textEncode eventType) \<le> 64"
    and payload: "length (ev_payloadBytes e) \<le> 48000"
    and sign: "\<And>i. length (sign i) = 64" "\<And>i. verify (ev_publicKey e) (sign i) i = Inr True"
  shows "\<exists>w bs input s. sealEvent sign e = Inr w \<and> genuine verify eventType w bs input (e\<lparr>ev_signature := s\<rparr>)"
proof -
  obtain unsigned where unsigned: "encodeDeterministicCbor (CMap (unsignedEnvelopeEntries e)) = Inr unsigned"
    using encode_wf_Inr [OF validEnvelope_wf(2) [OF e t(1)]] by auto
  define s where "s = sign (signatureDomainBytes @ unsigned)"
  let ?e = "e\<lparr>ev_signature := s\<rparr>"
  have valid: "validEnvelope eventType ?e"
    using e sign(1) by (simp add: validEnvelope_def s_def)
  have wf: "wfCbor (CMap (signedEnvelopeEntries ?e))" by (rule validEnvelope_wf(1) [OF valid t(1)])
  have "cborBound (CMap (signedEnvelopeEntries ?e)) \<le> 49000"
    using valid payload t(2) protocolID_text(2)
    by (auto simp: signedEnvelopeEntries_def unsignedEnvelopeEntries_def validEnvelope_def)
  then have size: "length (encoded (CMap (signedEnvelopeEntries ?e))) \<le> 49000" by (rule length_encoded_bound [OF wf])
  obtain bs where enc: "encodeDeterministicCbor (CMap (signedEnvelopeEntries ?e)) = Inr bs" and bs: "length bs \<le> 49000"
    using encode_wf_Inr [OF wf] size by blast
  have nonempty: "bs \<noteq> []" using decode_size [OF decode_encode_map [OF wf enc order.refl]] by auto
  have "sealEvent sign e = Inr (branchTextWrapperPrefix @ encodeBase64URL bs)"
    unfolding sealEvent_def unsigned andThen_simps Let_def s_def [symmetric] enc ..
  moreover have "genuine verify eventType (branchTextWrapperPrefix @ encodeBase64URL bs) bs (signatureDomainBytes @ unsigned) ?e"
    using valid unsigned enc sign(2) [of "signatureDomainBytes @ unsigned"] bs decode_encodeBase64URL [OF nonempty]
      length_encodeBase64URL [of bs]
    by (auto simp: genuine_def s_def simp del: encodeDeterministicCbor.simps)
  ultimately show ?thesis by blast
qed

section \<open>Lemmas on ordered texts and endpoints\<close>

definition orderedSet :: "nat \<Rightarrow> nat \<Rightarrow> js_string list \<Rightarrow> bool" where
  "orderedSet maxBytes maxItems items \<longleftrightarrow> items \<noteq> [] \<and> length items \<le> maxItems \<and> sorted items \<and> distinct items
     \<and> (\<forall>item \<in> set items. goodText item maxBytes)"

lemma orderedTexts_Inr:
  "orderedTexts n seen previous items = Inr u \<longleftrightarrow> sorted (previous # items) \<and> distinct items \<and> set items \<inter> set seen = {}
     \<and> (\<forall>item \<in> set items. length (textEncode item) \<le> n)"
proof (induction n seen previous items rule: orderedTexts.induct)
  case (2 n seen previous item items)
  then show ?case by (auto simp: not_less intro: order.trans)
qed simp

lemma sorted_Nil_Cons: "sorted ([] # items) \<longleftrightarrow> sorted (items :: js_string list)"
  by simp

lemma readText_map:
  "mapRes (\<lambda>entry. readText entry key) vs = Inr items \<longleftrightarrow> vs = map CText items
     \<and> (\<forall>item \<in> set items. item \<noteq> [] \<and> length (textEncode item) \<le> maxCborTextBytes)"
proof (induction vs arbitrary: items)
  case (Cons v vs)
  then show ?case by (cases items) (auto simp: res_simps)
qed auto

lemma readOrdered_Inr:
  assumes "wfCbor v" "maxBytes \<le> 1024"
  shows "readOrderedUniqueTextArray maxBytes v key maxItems = Inr items \<longleftrightarrow> v = CArray (map CText items) \<and> orderedSet maxBytes maxItems items"
proof (cases v)
  case (CArray vs)
  have "readOrderedUniqueTextArray maxBytes v key maxItems = Inr items \<longleftrightarrow> vs \<noteq> [] \<and> length vs \<le> maxItems \<and> vs = map CText items
      \<and> (\<forall>item \<in> set items. item \<noteq> [] \<and> length (textEncode item) \<le> maxCborTextBytes) \<and> sorted items \<and> distinct items
      \<and> (\<forall>item \<in> set items. length (textEncode item) \<le> maxBytes)"
    by (auto simp: CArray readOrderedUniqueTextArray_def readTextArray_def invalidEntry_def andThen_Inr guard_Inr readText_map orderedTexts_Inr)
  also have "\<dots> \<longleftrightarrow> v = CArray (map CText items) \<and> orderedSet maxBytes maxItems items"
    using assms by (fastforce simp: CArray orderedSet_def goodText_def decodableText_def maxCborTextBytes_def)
  finally show ?thesis .
qed (auto simp: readOrderedUniqueTextArray_def readTextArray_def invalidEntry_def)

lemma orderedSet_wf: "orderedSet maxBytes maxItems items \<Longrightarrow> maxBytes \<le> 1024 \<Longrightarrow> maxItems \<le> 64 \<Longrightarrow> wfCbor (CArray (map CText items))"
  by (auto simp: orderedSet_def maxCborCollectionEntries_def dest: goodText_decodable)

lemma uniqueTexts_Inr:
  "uniqueTexts n key seen items = Inr u \<longleftrightarrow> distinct items \<and> set items \<inter> set seen = {}
     \<and> (\<forall>item \<in> set items. item \<noteq> [] \<and> length (textEncode item) \<le> n)"
  by (induction n key seen items rule: uniqueTexts.induct) auto

lemma normalizeOrderedTextSet_ordered:
  assumes "normalizeOrderedTextSet n items key = Inr ordered" "items \<noteq> []" "length items \<le> maxItems"
    "\<forall>item \<in> set items. wellFormed item \<and> \<not> startsWithBOM item"
  shows "orderedSet n maxItems ordered" "set ordered = set items"
proof -
  have ordered: "ordered = sort items" and ok: "uniqueTexts n key [] (sort items) = Inr ()"
    using assms(1) by (auto simp: normalizeOrderedTextSet_def Let_def andThen_Inr)
  show "set ordered = set items" unfolding ordered by simp
  have "sort items \<noteq> []" using assms(2) by (metis length_0_conv length_sort)
  then show "orderedSet n maxItems ordered"
    using ok assms(3,4) unfolding ordered uniqueTexts_Inr by (auto simp: orderedSet_def goodText_def)
qed

lemma transport_ascii: "transportPattern s \<Longrightarrow> \<forall>u \<in> set s. unat u < 128"
  by (auto simp: transportPattern_def lit_def split: list.splits)

lemma transport_goodText:
  assumes "transportPattern s" "length (textEncode s) \<le> 32"
  shows "goodText s 32"
proof -
  have "s \<noteq> []" using assms(1) by (auto simp: transportPattern_def)
  then show ?thesis
    using assms goodText_ascii [OF transport_ascii [OF assms(1)]] textEncode_ascii [OF transport_ascii [OF assms(1)]] by simp
qed

lemma readTransport_Inr: "readTransport v = Inr t \<longleftrightarrow> v = CText t \<and> transportPattern t \<and> length (textEncode t) \<le> 32"
  by (auto simp: readTransport_def andThen_Inr guard_Inr readText_Inr transportPattern_def maxCborTextBytes_def)

lemma readRouteUri_Inr: "readRouteUri v = Inr uri \<longleftrightarrow> v = CText uri \<and> uri \<noteq> [] \<and> length (textEncode uri) \<le> 512"
  by (auto simp: readRouteUri_def andThen_Inr guard_Inr readText_Inr maxCborTextBytes_def)

section \<open>The contract of a signed record\<close>

text \<open>
  What a kind of signed record provides: an event type, a reader of payloads and an encoder of the payloads that are valid.
  The client is the pair of creation and validation: a sealed record opens during its lifetime and its payload reads back.
\<close>

locale signed_record =
  fixes eventType :: js_string and readPayload :: "bytes \<Rightarrow> 'p res" and encodePayload :: "'p \<Rightarrow> bytes res" and valid :: "'p \<Rightarrow> bool"
  assumes type_text: "decodableText eventType" "eventType \<noteq> []" "length (textEncode eventType) \<le> 64"
    and encode_valid: "valid p \<Longrightarrow> \<exists>bs. encodePayload p = Inr bs \<and> bs \<noteq> [] \<and> length bs \<le> 20000 \<and> readPayload bs = Inr p"
    and read_valid: "readPayload bs = Inr p \<Longrightarrow> valid p"
begin

lemma readable_iff:
  "(\<exists>bs. readPayload bs = Inr p) \<longleftrightarrow> valid p \<and> (\<exists>bs. encodePayload p = Inr bs \<and> length bs \<le> 20000 \<and> readPayload bs = Inr p)"
  using encode_valid read_valid by blast

lemma encode_valid_inject: "valid p \<Longrightarrow> valid q \<Longrightarrow> encodePayload p = encodePayload q \<Longrightarrow> p = q"
  by (metis encode_valid sum.inject(2))

lemma sealed_opens:
  assumes "valid p" and lengths: "length publicKey = 32" "length eventId = 32"
    and sign: "\<And>i. length (sign i) = 64" "\<And>i. verify publicKey (sign i) i = Inr True"
    and times: "0 \<le> createdAt" "createdAt < expiresAt" "expiresAt \<le> maxSafeInteger"
  obtains payload w bs input e where "encodePayload p = Inr payload"
    "sealEvent sign (newEnvelope eventType eventId publicKey createdAt expiresAt payload) = Inr w"
    "genuine verify eventType w bs input e" "readPayload (ev_payloadBytes e) = Inr p"
    "ev_publicKey e = publicKey" "ev_createdAt e = createdAt" "ev_expiresAt e = expiresAt"
proof -
  obtain payload where payload: "encodePayload p = Inr payload" "payload \<noteq> []" "length payload \<le> 20000" "readPayload payload = Inr p"
    using encode_valid [OF assms(1)] by blast
  let ?e = "newEnvelope eventType eventId publicKey createdAt expiresAt payload"
  have "validEnvelope eventType (?e\<lparr>ev_signature := replicate 64 0\<rparr>)"
    using lengths payload times by (simp add: validEnvelope_def newEnvelope_def maxCborBytes_def)
  then obtain w bs input s where "sealEvent sign ?e = Inr w" "genuine verify eventType w bs input (?e\<lparr>ev_signature := s\<rparr>)"
    using sealEvent_genuine [of eventType ?e sign verify] type_text payload(3) sign by (auto simp: newEnvelope_def)
  then show thesis using that [OF payload(1)] payload(4) by (simp add: newEnvelope_def)
qed

lemma opened_valid:
  assumes "openSignedEvent verify eventType now skew w = Inr (Inr (bs, input, e))" "readPayload (ev_payloadBytes e) = Inr p"
  shows "genuine verify eventType w bs input e \<and> now < ev_expiresAt e \<and> ev_createdAt e \<le> now + skew \<and> valid p"
  using assms openSignedEvent_iff [OF type_text(1,2)] read_valid by blast

end

end
