(* ===== verification/IdentityContact.thy ===== *)
theory IdentityContact
  imports SignedEvents
begin

text \<open>
  \<^verbatim>\<open>protocol/v0/identity-contact.ts\<close>: the signed announcement of an identity, its validation and its creation, on top of
  the signed envelope of \<open>SignedEvents\<close>. Creation takes what the source draws at random as arguments, next to the
  options, and the key pair as a public key and a signing function.
\<close>

section \<open>Payload\<close>

definition identityContactEventType :: js_string where
  "identityContactEventType = lit ''identity.announce''"

definition maxIdentityAliasBytes :: nat where "maxIdentityAliasBytes = 64"
definition maxIdentityAliases :: nat where "maxIdentityAliases = 8"
definition maxIdentityDisplayNameBytes :: nat where "maxIdentityDisplayNameBytes = 96"
definition maxIdentityRouteHints :: nat where "maxIdentityRouteHints = 8"

record IdentityContactRouteHint =
  ih_transport :: js_string
  ih_uri :: js_string
  ih_relayPublicKey :: js_string
  ih_profileMultihash :: js_string
  ih_priority :: int

record IdentityContactPayload =
  ic_contactId :: bytes
  ic_branchId :: js_string
  ic_sequence :: int
  ic_issuedAt :: int
  ic_expiresAt :: int
  ic_displayName :: "js_string option"
  ic_aliases :: "js_string list"
  ic_protocolVersions :: "js_string list"
  ic_profileMultihashes :: "js_string list"
  ic_routeHints :: "IdentityContactRouteHint list"

definition lowerUnit :: "16 word \<Rightarrow> 16 word" where
  "lowerUnit u = (if 65 \<le> unat u \<and> unat u \<le> 90 then unitOf (unat u + 32) else if unat u = 0x212A then unitOf 107 else u)"

definition aliasFirst :: "16 word \<Rightarrow> bool" where
  "aliasFirst u \<longleftrightarrow> 97 \<le> unat u \<and> unat u \<le> 122 \<or> 48 \<le> unat u \<and> unat u \<le> 57"

definition aliasPattern :: "js_string \<Rightarrow> bool" where
  "aliasPattern s =
     (case s of
        [] \<Rightarrow> False
      | u # us \<Rightarrow> aliasFirst u \<and> 1 \<le> length us \<and> length us \<le> 63 \<and> (\<forall>v \<in> set us. aliasFirst v \<or> v \<in> set (lit ''._-'')))"

definition readAlias :: "js_string \<Rightarrow> js_string res" where
  "readAlias s =
     (let normalized = map lowerUnit (trim s) in
      if length (textEncode normalized) > maxIdentityAliasBytes \<or> \<not> aliasPattern normalized then throw ''payload_invalid''
      else Inr normalized)"

definition normalizeAliases :: "js_string list \<Rightarrow> js_string list res" where
  "normalizeAliases items =
     andThen (mapRes readAlias items) (\<lambda>aliases.
       let normalized = sort aliases in
       if distinct normalized then Inr normalized else throw ''payload_invalid'')"

definition readAliases :: "cbor \<Rightarrow> js_string list res" where
  "readAliases v =
     (case v of
        CArray vs \<Rightarrow>
          if length vs > maxIdentityAliases then throw ''payload_invalid''
          else andThen (mapRes (\<lambda>entry. andThen (readText entry (lit ''alias'')) readAlias) vs) normalizeAliases
      | _ \<Rightarrow> throw ''payload_invalid'')"

definition readDisplayName :: "cbor \<Rightarrow> js_string res" where
  "readDisplayName v =
     andThen (readText v (lit ''display_name'')) (\<lambda>displayName.
       if length (textEncode displayName) > maxIdentityDisplayNameBytes then throw ''payload_invalid'' else Inr displayName)"

definition readRelayPublicKey :: "cbor \<Rightarrow> js_string res" where
  "readRelayPublicKey v =
     andThen (readText v (lit ''relay_public_key'')) (\<lambda>relayPublicKey.
     andThen (decodeBase64URL relayPublicKey) (\<lambda>decoded.
       if length decoded \<noteq> 32 then throw ''payload_invalid'' else Inr relayPublicKey))"

definition hintKeys :: "js_string list" where
  "hintKeys = map lit [''transport'', ''uri'', ''relay_public_key'', ''profile_multihash'', ''priority'']"

definition hintDuplicateKey :: "IdentityContactRouteHint \<Rightarrow> js_string" where
  "hintDuplicateKey h = ih_transport h @ [0] @ ih_uri h @ [0] @ ih_relayPublicKey h"

definition readRouteHint :: "cbor \<Rightarrow> IdentityContactRouteHint res" where
  "readRouteHint entry =
     andThen (readCborMap entry (lit ''route_hint'')) (\<lambda>m.
     andThen (rejectUnknownEntries m hintKeys) (\<lambda>_.
     andThen (readField m ''transport'' readTransport) (\<lambda>transport.
     andThen (readField m ''uri'' readRouteUri) (\<lambda>uri.
     andThen (readField m ''relay_public_key'' readRelayPublicKey) (\<lambda>relayPublicKey.
     andThen (readField m ''profile_multihash'' (\<lambda>v. readText v (lit ''profile_multihash''))) (\<lambda>profileMultihash.
     andThen (readField m ''priority'' (\<lambda>v. readUint v (lit ''priority''))) (\<lambda>priority.
       Inr \<lparr>ih_transport = transport, ih_uri = uri, ih_relayPublicKey = relayPublicKey, ih_profileMultihash = profileMultihash,
            ih_priority = priority\<rparr>)))))))"

text \<open>The callback of \<^verbatim>\<open>map\<close> over the hints, which shares the last priority and the keys seen between its calls.\<close>

fun readHintEntries ::
  "(js_string \<Rightarrow> URL option) \<Rightarrow> int \<Rightarrow> js_string list \<Rightarrow> cbor list \<Rightarrow> IdentityContactRouteHint list res" where
  "readHintEntries parseUrl previousPriority seen [] = Inr []"
| "readHintEntries parseUrl previousPriority seen (entry # entries) =
     andThen (readRouteHint entry) (\<lambda>h.
       if ih_priority h < previousPriority then throw ''payload_invalid''
       else if hintDuplicateKey h \<in> set seen then throw ''payload_invalid''
       else andThen (if ih_transport h = lit ''wss'' then validateWssEndpointUri parseUrl (ih_uri h) else Inr ()) (\<lambda>_.
         andThen (readHintEntries parseUrl (ih_priority h) (hintDuplicateKey h # seen) entries) (\<lambda>hs. Inr (h # hs))))"

definition readRouteHints :: "(js_string \<Rightarrow> URL option) \<Rightarrow> cbor \<Rightarrow> IdentityContactRouteHint list res" where
  "readRouteHints parseUrl v =
     (case v of
        CArray vs \<Rightarrow> if length vs > maxIdentityRouteHints then throw ''payload_invalid'' else readHintEntries parseUrl (-1) [] vs
      | _ \<Rightarrow> throw ''payload_invalid'')"

definition hintEntries :: "IdentityContactRouteHint \<Rightarrow> cborMap" where
  "hintEntries h =
     [(lit ''transport'', CText (ih_transport h)), (lit ''uri'', CText (ih_uri h)),
      (lit ''relay_public_key'', CText (ih_relayPublicKey h)), (lit ''profile_multihash'', CText (ih_profileMultihash h)),
      (lit ''priority'', CNum (ih_priority h))]"

definition hintMap :: "IdentityContactRouteHint \<Rightarrow> cbor" where
  "hintMap h = CMap (hintEntries h)"

definition normalizeRouteHints ::
  "(js_string \<Rightarrow> URL option) \<Rightarrow> (js_string \<Rightarrow> js_string \<Rightarrow> int) \<Rightarrow> IdentityContactRouteHint list \<Rightarrow> IdentityContactRouteHint list res" where
  "normalizeRouteHints parseUrl localeCompare hints =
     readRouteHints parseUrl (CArray (map hintMap (js_sort (\<lambda>left right.
       if ih_priority left - ih_priority right \<noteq> 0 then ih_priority left - ih_priority right
       else if localeCompare (ih_transport left) (ih_transport right) \<noteq> 0 then localeCompare (ih_transport left) (ih_transport right)
       else localeCompare (ih_uri left) (ih_uri right)) hints)))"

definition payloadKeys :: "js_string list" where
  "payloadKeys = map lit [''contact_id'', ''branch_id'', ''sequence'', ''issued_at'', ''expires_at'', ''display_name'', ''aliases'',
     ''protocol_versions'', ''profile_multihashes'', ''route_hints'']"

definition identityPayloadEntries :: "IdentityContactPayload \<Rightarrow> cborMap" where
  "identityPayloadEntries p =
     [(lit ''contact_id'', CBytes (ic_contactId p)), (lit ''branch_id'', CText (ic_branchId p)), (lit ''sequence'', CNum (ic_sequence p)),
      (lit ''issued_at'', CNum (ic_issuedAt p)), (lit ''expires_at'', CNum (ic_expiresAt p)),
      (lit ''aliases'', CArray (map CText (ic_aliases p))), (lit ''protocol_versions'', CArray (map CText (ic_protocolVersions p))),
      (lit ''profile_multihashes'', CArray (map CText (ic_profileMultihashes p))),
      (lit ''route_hints'', CArray (map hintMap (ic_routeHints p)))]
     @ (case ic_displayName p of None \<Rightarrow> [] | Some displayName \<Rightarrow> [(lit ''display_name'', CText displayName)])"

definition encodeIdentityContactPayload :: "IdentityContactPayload \<Rightarrow> bytes res" where
  "encodeIdentityContactPayload p = encodeDeterministicCbor (CMap (identityPayloadEntries p))"

definition readIdentityPayload :: "(js_string \<Rightarrow> URL option) \<Rightarrow> js_string list \<Rightarrow> bytes \<Rightarrow> IdentityContactPayload res" where
  "readIdentityPayload parseUrl supported bs =
     (if length bs > maxCborBytes then throw ''payload_oversized''
      else andThen (decodeCborForValidation bs) (\<lambda>v. andThen (readCborMap v (lit ''identity_contact_payload'')) (\<lambda>m.
        andThen (rejectUnknownEntries m payloadKeys) (\<lambda>_.
        andThen (readField m ''branch_id'' (\<lambda>v. readText v (lit ''branch_id''))) (\<lambda>branchId.
        andThen (parseBranchID branchId) (\<lambda>_.
        andThen (readField m ''protocol_versions'' (\<lambda>v. readOrderedUniqueTextArray maxIdentityAliasBytes v ''protocol_versions'' 8))
          (\<lambda>protocolVersions.
        andThen (readField m ''profile_multihashes'' (\<lambda>v. readOrderedUniqueTextArray maxIdentityAliasBytes v ''profile_multihashes'' 8))
          (\<lambda>profileMultihashes.
        if protocolID \<notin> set protocolVersions \<or> \<not> hasSupportedProfile profileMultihashes supported then throw ''payload_invalid''
        else andThen (readField m ''contact_id'' (\<lambda>v. readBytes v (lit ''contact_id'') (Some 32))) (\<lambda>contactId.
        andThen (readField m ''sequence'' (\<lambda>v. readUint v (lit ''sequence''))) (\<lambda>sequence.
        andThen (readField m ''issued_at'' (\<lambda>v. readTimestamp v ''issued_at'')) (\<lambda>issuedAt.
        andThen (readField m ''expires_at'' (\<lambda>v. readTimestamp v ''expires_at'')) (\<lambda>expiresAt.
        andThen (if hasEntry m (lit ''display_name'')
                 then andThen (readField m ''display_name'' readDisplayName) (\<lambda>n. Inr (Some n)) else Inr None) (\<lambda>displayName.
        andThen (readField m ''aliases'' readAliases) (\<lambda>aliases.
        andThen (readField m ''route_hints'' (readRouteHints parseUrl)) (\<lambda>routeHints.
          Inr \<lparr>ic_contactId = contactId, ic_branchId = branchId, ic_sequence = sequence, ic_issuedAt = issuedAt,
            ic_expiresAt = expiresAt, ic_displayName = displayName, ic_aliases = aliases, ic_protocolVersions = protocolVersions,
            ic_profileMultihashes = profileMultihashes, ic_routeHints = routeHints\<rparr>)))))))))))))))"

section \<open>Validation\<close>

record SignedIdentityContact =
  sc_wrapper :: js_string
  sc_signedEventBytes :: bytes
  sc_signatureInputBytes :: bytes
  sc_envelope :: SignedEnvelope
  sc_payload :: IdentityContactPayload

definition readIdentityEnvelope :: "cborMap \<Rightarrow> SignedEnvelope res" where
  "readIdentityEnvelope = readEnvelope identityContactEventType"

definition identityReasons :: "js_string list" where
  "identityReasons = commonReasons @ map lit [''invalid_branch_id'', ''branch_id_mismatch'', ''lower_sequence'']"

text \<open>
  \<^verbatim>\<open>validateBranchTextIdentityContact\<close> with its options resolved. The result is the rejection reason or the contact.
\<close>

definition validateBranchTextIdentityContact ::
  "(bytes \<Rightarrow> bytes) \<Rightarrow> (bytes \<Rightarrow> bytes \<Rightarrow> bytes \<Rightarrow> bool res) \<Rightarrow> (js_string \<Rightarrow> URL option) \<Rightarrow> int \<Rightarrow> int \<Rightarrow> js_string list \<Rightarrow> int option
     \<Rightarrow> js_string \<Rightarrow> js_string + SignedIdentityContact" where
  "validateBranchTextIdentityContact sha256 ed25519Verify parseUrl now maxFutureSkewSeconds supported minimumSequence wrapper =
     (case
        andThen (openSignedEvent ed25519Verify identityContactEventType now maxFutureSkewSeconds wrapper) (\<lambda>opened.
          case opened of
            Inl reason \<Rightarrow> Inr (Inl reason)
          | Inr (signedEventBytes, signatureInputBytes, envelope) \<Rightarrow>
              andThen (readIdentityPayload parseUrl supported (ev_payloadBytes envelope)) (\<lambda>payload.
              if ic_expiresAt payload \<noteq> ev_expiresAt envelope then rejectWith ''payload_expiry_mismatch''
              else if ic_issuedAt payload > ev_createdAt envelope then rejectWith ''payload_issued_after_created''
              else if (case minimumSequence of None \<Rightarrow> False | Some n \<Rightarrow> ic_sequence payload < n) then rejectWith ''lower_sequence''
              else andThen (branchIDFromPublicKey sha256 (ev_publicKey envelope)) (\<lambda>expectedBranchID.
                if ic_branchId payload \<noteq> expectedBranchID then rejectWith ''branch_id_mismatch''
                else Inr (Inr \<lparr>sc_wrapper = wrapper, sc_signedEventBytes = signedEventBytes,
                  sc_signatureInputBytes = signatureInputBytes, sc_envelope = envelope, sc_payload = payload\<rparr>))))
      of Inl e \<Rightarrow> Inl (reasonFromError identityReasons e) | Inr outcome \<Rightarrow> outcome)"

definition assertValidBranchTextIdentityContact :: "js_string + SignedIdentityContact \<Rightarrow> SignedIdentityContact res" where
  "assertValidBranchTextIdentityContact outcome =
     (case outcome of
        Inl reason \<Rightarrow> Inl (PlainError (lit ''BRANCH0 identity.announce rejected: '' @ reason))
      | Inr contact \<Rightarrow> Inr contact)"

section \<open>Creation\<close>

record CreateIdentityContactOptions =
  co_expiresAt :: "int option"
  co_sequence :: "int option"
  co_contactId :: "bytes option"
  co_eventId :: "bytes option"
  co_displayName :: "js_string option"
  co_aliases :: "js_string list option"
  co_protocolVersions :: "js_string list option"
  co_profileMultihashes :: "js_string list option"
  co_routeHints :: "IdentityContactRouteHint list option"

definition orElse :: "'a option \<Rightarrow> 'a \<Rightarrow> 'a" where
  "orElse v d = (case v of None \<Rightarrow> d | Some x \<Rightarrow> x)"

text \<open>
  \<open>randomContact\<close> and \<open>randomEvent\<close> are what \<^verbatim>\<open>randomBytes(32)\<close> returns where the option is absent;
  \<open>createdPayload\<close> is the argument the function passes to \<^verbatim>\<open>encodeIdentityContactPayload\<close>.
\<close>

definition createdPayload ::
  "(bytes \<Rightarrow> bytes) \<Rightarrow> (js_string \<Rightarrow> URL option) \<Rightarrow> (js_string \<Rightarrow> js_string \<Rightarrow> int) \<Rightarrow> bytes \<Rightarrow> int \<Rightarrow> int \<Rightarrow> bytes
     \<Rightarrow> CreateIdentityContactOptions \<Rightarrow> IdentityContactPayload res" where
  "createdPayload sha256 parseUrl localeCompare publicKey now expiresAt randomContact options =
     andThen (normalizeOrderedTextSet maxIdentityAliasBytes (orElse (co_protocolVersions options) [protocolID]) ''protocol_versions'')
       (\<lambda>protocolVersions.
     andThen (normalizeOrderedTextSet maxIdentityAliasBytes (orElse (co_profileMultihashes options) [developmentProfileMultihash])
         ''profile_multihashes'') (\<lambda>profileMultihashes.
     andThen (normalizeRouteHints parseUrl localeCompare (orElse (co_routeHints options) [])) (\<lambda>routeHints.
     andThen (branchIDFromPublicKey sha256 publicKey) (\<lambda>branchId.
     andThen (normalizeAliases (orElse (co_aliases options) [])) (\<lambda>aliases.
       Inr \<lparr>ic_contactId = orElse (co_contactId options) randomContact, ic_branchId = branchId,
            ic_sequence = orElse (co_sequence options) 1, ic_issuedAt = now, ic_expiresAt = expiresAt,
            ic_displayName = co_displayName options, ic_aliases = aliases, ic_protocolVersions = protocolVersions,
            ic_profileMultihashes = profileMultihashes, ic_routeHints = routeHints\<rparr>)))))"

definition createIdentityContactWrapper ::
  "(bytes \<Rightarrow> bytes) \<Rightarrow> (bytes \<Rightarrow> bytes) \<Rightarrow> (js_string \<Rightarrow> URL option) \<Rightarrow> (js_string \<Rightarrow> js_string \<Rightarrow> int) \<Rightarrow> bytes \<Rightarrow> int \<Rightarrow> bytes \<Rightarrow> bytes
     \<Rightarrow> CreateIdentityContactOptions \<Rightarrow> js_string res" where
  "createIdentityContactWrapper sha256 ed25519Sign parseUrl localeCompare publicKey now randomContact randomEvent options =
     (let expiresAt = orElse (co_expiresAt options) (now + defaultLifetimeSeconds) in
      andThen (createdPayload sha256 parseUrl localeCompare publicKey now expiresAt randomContact options) (\<lambda>payload.
      andThen (encodeIdentityContactPayload payload) (\<lambda>payloadBytes.
        sealEvent ed25519Sign
          (newEnvelope identityContactEventType (orElse (co_eventId options) randomEvent) publicKey now expiresAt payloadBytes))))"

section \<open>Lemmas on aliases\<close>

lemma trim_id:
  assumes "s \<noteq> []" "\<not> jsWhitespace (hd s)" "\<not> jsWhitespace (last s)"
  shows "trim s = s"
proof -
  have "dropWhile jsWhitespace s = s" using assms by (simp add: dropWhile_eq_self_iff)
  moreover have "dropWhile jsWhitespace (rev s) = rev s" using assms by (simp add: dropWhile_eq_self_iff hd_rev)
  ultimately show ?thesis by (simp add: trim_def)
qed

lemma alias_units:
  assumes "aliasFirst u \<or> u \<in> set (lit ''._-'')"
  shows "\<not> jsWhitespace u" "lowerUnit u = u" "unat u < 128"
  using assms by (auto simp: aliasFirst_def jsWhitespace_def lowerUnit_def lit_def unitOf_def)

lemma aliasPattern_units: "aliasPattern s \<Longrightarrow> s \<noteq> [] \<and> length s \<le> 64 \<and> (\<forall>u \<in> set s. aliasFirst u \<or> u \<in> set (lit ''._-''))"
  by (auto simp: aliasPattern_def split: list.splits)

lemma alias_good:
  assumes "aliasPattern s"
  shows "goodText s 64" "length (textEncode s) \<le> 64"
proof -
  have "\<forall>u \<in> set s. unat u < 128" using aliasPattern_units [OF assms] alias_units(3) by blast
  then show "goodText s 64" "length (textEncode s) \<le> 64"
    using aliasPattern_units [OF assms] goodText_ascii textEncode_ascii by auto
qed

lemma readAlias_id:
  assumes "aliasPattern s"
  shows "readAlias s = Inr s"
proof -
  have s: "s \<noteq> []" "\<forall>u \<in> set s. \<not> jsWhitespace u \<and> lowerUnit u = u"
    using aliasPattern_units [OF assms] alias_units by blast+
  then have "trim s = s" by (intro trim_id) auto
  moreover have "map lowerUnit s = s" using s(2) by (simp add: map_idI)
  ultimately show ?thesis using assms alias_good(2) [OF assms] by (simp add: readAlias_def maxIdentityAliasBytes_def)
qed

lemma readAlias_pattern: "readAlias s = Inr a \<Longrightarrow> aliasPattern a"
  by (auto simp: readAlias_def Let_def split: if_splits)

definition goodAliases :: "js_string list \<Rightarrow> bool" where
  "goodAliases as \<longleftrightarrow> length as \<le> 8 \<and> sorted as \<and> distinct as \<and> (\<forall>a \<in> set as. aliasPattern a)"

lemma mapRes_all: "mapRes f xs = Inr ys \<Longrightarrow> (\<And>x y. f x = Inr y \<Longrightarrow> P y) \<Longrightarrow> \<forall>y \<in> set ys. P y"
  by (induction xs arbitrary: ys) (auto simp: andThen_Inr)

lemma mapRes_id: "(\<And>x. x \<in> set xs \<Longrightarrow> f x = Inr x) \<Longrightarrow> mapRes f xs = Inr xs"
  using mapRes_Inr_map [of xs f id] by simp

lemma normalizeAliases_good:
  assumes "normalizeAliases items = Inr as" "length items \<le> 8"
  shows "goodAliases as"
proof -
  obtain names where n: "mapRes readAlias items = Inr names" "as = sort names" "distinct (sort names)"
    using assms(1) by (auto simp: normalizeAliases_def andThen_Inr Let_def split: if_splits)
  show ?thesis
    using n mapRes_Inr_length [OF n(1)] mapRes_all [OF n(1), of aliasPattern] readAlias_pattern assms(2)
    by (auto simp: goodAliases_def)
qed

lemma normalizeAliases_id:
  assumes "goodAliases as"
  shows "normalizeAliases as = Inr as"
proof -
  have "mapRes readAlias as = Inr as" using assms by (intro mapRes_id readAlias_id) (simp add: goodAliases_def)
  moreover have "sort as = as" "distinct as" using assms by (simp_all add: goodAliases_def sorted_sort_id)
  ultimately show ?thesis by (simp add: normalizeAliases_def)
qed

lemma readAliases_good: "readAliases v = Inr as \<Longrightarrow> goodAliases as"
  by (auto simp: readAliases_def andThen_Inr maxIdentityAliases_def dest!: mapRes_Inr_length intro: normalizeAliases_good split: cbor.splits if_splits)

lemma readAliases_id:
  assumes "goodAliases as"
  shows "readAliases (CArray (map CText as)) = Inr as"
proof -
  have a: "\<forall>a \<in> set as. aliasPattern a" "length as \<le> 8" using assms by (simp_all add: goodAliases_def)
  have "andThen (readText (CText a) key) readAlias = Inr a" if "a \<in> set as" for a key
    using a(1) that alias_good [of a] by (simp add: readText_def goodText_def maxCborTextBytes_def readAlias_id)
  then have "mapRes (\<lambda>entry. andThen (readText entry (lit ''alias'')) readAlias) (map CText as) = Inr as"
    unfolding mapRes_map by (intro mapRes_id) simp
  then show ?thesis using a(2) normalizeAliases_id [OF assms] by (simp add: readAliases_def maxIdentityAliases_def)
qed

lemma aliases_wf: "goodAliases as \<Longrightarrow> wfCbor (CArray (map CText as))"
  using goodText_decodable alias_good(1) by (fastforce simp: goodAliases_def maxCborCollectionEntries_def)

section \<open>Lemmas on route hints\<close>

definition coreHint :: "IdentityContactRouteHint \<Rightarrow> bool" where
  "coreHint h \<longleftrightarrow> transportPattern (ih_transport h) \<and> length (textEncode (ih_transport h)) \<le> 32 \<and> goodText (ih_uri h) 512
     \<and> (\<exists>b. decodeBase64URL (ih_relayPublicKey h) = Inr b \<and> length b = 32) \<and> goodText (ih_profileMultihash h) 1024
     \<and> 0 \<le> ih_priority h \<and> ih_priority h \<le> maxSafeInteger"

definition secureHint :: "(js_string \<Rightarrow> URL option) \<Rightarrow> IdentityContactRouteHint \<Rightarrow> bool" where
  "secureHint parseUrl h \<longleftrightarrow> ih_transport h \<noteq> lit ''wss'' \<or> validateWssEndpointUri parseUrl (ih_uri h) = Inr ()"

definition goodHints :: "(js_string \<Rightarrow> URL option) \<Rightarrow> IdentityContactRouteHint list \<Rightarrow> bool" where
  "goodHints parseUrl hs \<longleftrightarrow> length hs \<le> 8 \<and> sorted (map ih_priority hs) \<and> distinct (map hintDuplicateKey hs)
     \<and> (\<forall>h \<in> set hs. coreHint h \<and> secureHint parseUrl h)"

lemma relayKey_good:
  assumes "decodeBase64URL s = Inr b" "length b = 32"
  shows "goodText s 48"
proof -
  have "s \<noteq> []" using assms by (auto simp: decodeBase64URL_def validBase64URL_def)
  moreover have "length s \<le> 48" using decodeBase64URL_length [OF assms(1)] assms(2) by presburger
  ultimately show ?thesis using base64url_ascii [OF assms(1)] by (intro goodText_ascii)
qed

lemma coreHint_texts:
  assumes "coreHint h"
  shows "goodText (ih_transport h) 32" "goodText (ih_uri h) 512" "goodText (ih_relayPublicKey h) 48" "goodText (ih_profileMultihash h) 1024"
  using assms transport_goodText relayKey_good by (auto simp: coreHint_def)

lemma readRelayPublicKey_Inr: "readRelayPublicKey v = Inr k \<longleftrightarrow> v = CText k \<and> (\<exists>b. decodeBase64URL k = Inr b \<and> length b = 32)"
  using relayKey_good [of k]
  by (auto simp: readRelayPublicKey_def andThen_Inr guard_Inr readText_Inr maxCborTextBytes_def goodText_def)

lemma readRouteHint_Inr:
  "readRouteHint v = Inr h \<longleftrightarrow> (\<exists>m. v = CMap m \<and> fst ` set m \<subseteq> set hintKeys \<and> (\<forall>k \<in> set hintKeys. map_of m k = map_of (hintEntries h) k)
     \<and> transportPattern (ih_transport h) \<and> length (textEncode (ih_transport h)) \<le> 32 \<and> ih_uri h \<noteq> [] \<and> length (textEncode (ih_uri h)) \<le> 512
     \<and> (\<exists>b. decodeBase64URL (ih_relayPublicKey h) = Inr b \<and> length b = 32) \<and> ih_profileMultihash h \<noteq> []
     \<and> length (textEncode (ih_profileMultihash h)) \<le> 1024 \<and> 0 \<le> ih_priority h \<and> ih_priority h \<le> maxSafeInteger)"
  by (cases h) (auto simp: readRouteHint_def andThen_Inr readCborMap_Inr rejectUnknownEntries_Inr readField_Inr readTransport_Inr readRouteUri_Inr
      readRelayPublicKey_Inr readText_Inr readUint_Inr hintKeys_def hintEntries_def maxCborTextBytes_def)

lemma readHintEntries_Inr:
  "readHintEntries parseUrl previous seen vs = Inr hs \<longleftrightarrow> mapRes readRouteHint vs = Inr hs \<and> sorted (previous # map ih_priority hs)
     \<and> distinct (map hintDuplicateKey hs) \<and> hintDuplicateKey ` set hs \<inter> set seen = {} \<and> (\<forall>h \<in> set hs. secureHint parseUrl h)"
proof (induction vs arbitrary: previous seen hs)
  case (Cons v vs)
  show ?case
    by (cases hs) (auto simp: andThen_Inr guard_Inr Cons secureHint_def)
qed auto

lemma readRouteHints_Inr:
  "readRouteHints parseUrl v = Inr hs \<longleftrightarrow> (\<exists>vs. v = CArray vs \<and> length vs \<le> 8 \<and> mapRes readRouteHint vs = Inr hs)
     \<and> sorted (map ih_priority hs) \<and> distinct (map hintDuplicateKey hs) \<and> (\<forall>h \<in> set hs. secureHint parseUrl h)"
proof (cases v)
  case (CArray vs)
  have "sorted (-1 # map ih_priority hs) \<longleftrightarrow> sorted (map ih_priority hs)" if "mapRes readRouteHint vs = Inr hs"
  proof -
    have "\<forall>h \<in> set hs. 0 \<le> ih_priority h" using that by (rule mapRes_all) (unfold readRouteHint_Inr, blast)
    then show ?thesis by fastforce
  qed
  then show ?thesis by (auto simp: CArray readRouteHints_def readHintEntries_Inr maxIdentityRouteHints_def)
qed (auto simp: readRouteHints_def)

lemma hint_wf: "coreHint h \<Longrightarrow> wfCbor (hintMap h)"
  using coreHint_texts [of h] goodText_decodable
  by (simp add: hintMap_def hintEntries_def maxCborCollectionEntries_def) (simp add: coreHint_def)

lemma readRouteHint_wf:
  assumes "readRouteHint v = Inr h" "wfCbor v"
  shows "coreHint h"
proof -
  obtain m where m: "v = CMap m" "\<forall>k \<in> set hintKeys. map_of m k = map_of (hintEntries h) k" and h: "readRouteHint v = Inr h"
    using assms(1) unfolding readRouteHint_Inr by blast
  have "map_of m (lit ''uri'') = Some (CText (ih_uri h))" "map_of m (lit ''profile_multihash'') = Some (CText (ih_profileMultihash h))"
    using m(2) by (simp_all add: hintKeys_def hintEntries_def)
  then have "wfCbor (CText (ih_uri h))" "wfCbor (CText (ih_profileMultihash h))" using assms(2) m(1) by (auto dest!: map_of_SomeD)
  then show ?thesis using h unfolding readRouteHint_Inr by (auto simp: coreHint_def goodText_def decodableText_def)
qed

lemma readRouteHint_canonical:
  assumes "coreHint h"
  shows "readRouteHint (canonical (hintMap h)) = Inr h"
proof -
  have "map_of (canonicalEntries (hintEntries h)) = map_of (hintEntries h)"
    by (rule map_of_flat) (simp_all add: hintEntries_def)
  moreover have "canonical (hintMap h) = CMap (canonicalEntries (hintEntries h))"
    by (simp add: hintMap_def canonical_CMap canonicalEntries_def del: canonical.simps(2))
  moreover have "fst ` set (canonicalEntries (hintEntries h)) \<subseteq> set hintKeys" by (simp add: hintEntries_def hintKeys_def)
  ultimately show ?thesis
    using assms coreHint_texts [OF assms] unfolding readRouteHint_Inr by (auto simp: coreHint_def goodText_def)
qed

lemma readRouteHint_plain: "readRouteHint (hintMap h) = Inr h' \<Longrightarrow> h' = h"
  by (cases h; cases h') (auto simp: readRouteHint_Inr hintMap_def hintEntries_def hintKeys_def)

lemma mapRes_hints: "mapRes readRouteHint (map hintMap hs) = Inr hs' \<Longrightarrow> hs' = hs"
  by (induction hs arbitrary: hs') (auto simp: andThen_Inr dest: readRouteHint_plain)

lemma readRouteHints_good:
  assumes "readRouteHints parseUrl v = Inr hs" "wfCbor v"
  shows "goodHints parseUrl hs"
proof -
  from assms(1) obtain vs where v: "v = CArray vs" "length vs \<le> 8" "mapRes readRouteHint vs = Inr hs"
    unfolding readRouteHints_Inr by blast
  have "\<forall>w \<in> set vs. wfCbor w" using assms(2) v(1) by simp
  with v(3) have "\<forall>h \<in> set hs. coreHint h"
    by (induction vs arbitrary: hs) (auto simp: andThen_Inr readRouteHint_wf simp del: wfCbor.simps)
  then show ?thesis using assms(1) v mapRes_Inr_length [OF v(3)] unfolding readRouteHints_Inr by (auto simp: goodHints_def)
qed

lemma readRouteHints_canonical:
  assumes "goodHints parseUrl hs"
  shows "readRouteHints parseUrl (canonical (CArray (map hintMap hs))) = Inr hs"
proof -
  have "mapRes readRouteHint (map (canonical \<circ> hintMap) hs) = Inr hs"
    using assms readRouteHint_canonical unfolding mapRes_map by (intro mapRes_id) (simp add: goodHints_def)
  then show ?thesis using assms unfolding readRouteHints_Inr by (auto simp: goodHints_def simp del: canonical.simps(2))
qed

lemma hints_wf: "goodHints parseUrl hs \<Longrightarrow> wfCbor (CArray (map hintMap hs))"
  by (auto simp: goodHints_def maxCborCollectionEntries_def hint_wf)

section \<open>Lemmas on payloads\<close>

definition validIdentityPayload :: "(js_string \<Rightarrow> URL option) \<Rightarrow> js_string list \<Rightarrow> IdentityContactPayload \<Rightarrow> bool" where
  "validIdentityPayload parseUrl supported p \<longleftrightarrow> length (ic_contactId p) = 32 \<and> succeeds (parseBranchID (ic_branchId p))
     \<and> goodTime (ic_sequence p) \<and> goodTime (ic_issuedAt p) \<and> goodTime (ic_expiresAt p)
     \<and> (case ic_displayName p of None \<Rightarrow> True | Some n \<Rightarrow> goodText n 96) \<and> goodAliases (ic_aliases p)
     \<and> orderedSet 64 8 (ic_protocolVersions p) \<and> protocolID \<in> set (ic_protocolVersions p)
     \<and> orderedSet 64 8 (ic_profileMultihashes p) \<and> hasSupportedProfile (ic_profileMultihashes p) supported
     \<and> goodHints parseUrl (ic_routeHints p)"

lemma branch_text: "succeeds (parseBranchID b) \<Longrightarrow> goodText b 50"
  by (auto simp: succeeds_iff dest: parseBranchID_text)

lemma validIdentityPayload_wf:
  assumes "validIdentityPayload parseUrl supported p"
  shows "wfCbor (CMap (identityPayloadEntries p))"
proof -
  have "wfCbor (CArray (map CText (ic_aliases p)))" "wfCbor (CArray (map hintMap (ic_routeHints p)))"
    "wfCbor (CArray (map CText (ic_protocolVersions p)))" "wfCbor (CArray (map CText (ic_profileMultihashes p)))"
    using assms by (auto simp: validIdentityPayload_def simp del: wfCbor.simps intro: aliases_wf hints_wf orderedSet_wf)
  moreover have "decodableText (ic_branchId p)"
    using assms branch_text goodText_decodable [of "ic_branchId p" 50] by (simp add: validIdentityPayload_def)
  moreover have "decodableText n" if "ic_displayName p = Some n" for n
    using assms that goodText_decodable [of n 96] by (simp add: validIdentityPayload_def)
  ultimately show ?thesis
    using assms by (auto simp: identityPayloadEntries_def validIdentityPayload_def goodTime_def maxCborCollectionEntries_def maxCborBytes_def
      split: option.splits)
qed

lemma sum_list_bound: "(\<And>x. x \<in> set xs \<Longrightarrow> f x \<le> (k :: nat)) \<Longrightarrow> length xs \<le> n \<Longrightarrow> sum_list (map f xs) \<le> n * k"
proof (induction xs arbitrary: n)
  case (Cons x xs)
  from Cons.prems have "sum_list (map f xs) \<le> (n - 1) * k" "f x \<le> k" "n = Suc (n - 1)" by (auto intro: Cons.IH)
  then show ?case by (metis add_mono list.simps(9) mult_Suc sum_list.Cons)
qed simp

lemma validIdentityPayload_size:
  assumes "validIdentityPayload parseUrl supported p"
  shows "length (encoded (CMap (identityPayloadEntries p))) \<le> 20000"
proof (rule length_encoded_bound [OF validIdentityPayload_wf [OF assms]])
  have texts: "cborBound (CArray (map CText items)) \<le> 593" if "orderedSet 64 8 items" for items
    using that sum_list_bound [of items "cborBound \<circ> CText" 73 8] by (auto simp: orderedSet_def goodText_def o_def)
  have aliases: "cborBound (CArray (map CText (ic_aliases p))) \<le> 593"
    using assms sum_list_bound [of "ic_aliases p" "cborBound \<circ> CText" 73 8] alias_good(2)
    by (auto simp: validIdentityPayload_def goodAliases_def o_def)
  have "cborBound (hintMap h) \<le> 2000" if "coreHint h" for h
    using coreHint_texts [OF that] by (simp add: hintMap_def hintEntries_def goodText_def)
  then have hints: "cborBound (CArray (map hintMap (ic_routeHints p))) \<le> 16009"
    using assms sum_list_bound [of "ic_routeHints p" "cborBound \<circ> hintMap" 2000 8]
    by (auto simp: validIdentityPayload_def goodHints_def o_def)
  have "length (textEncode (ic_branchId p)) \<le> 50"
    using assms branch_text by (auto simp: validIdentityPayload_def goodText_def)
  then show "cborBound (CMap (identityPayloadEntries p)) \<le> 20000"
    using assms texts [of "ic_protocolVersions p"] texts [of "ic_profileMultihashes p"] aliases hints
    by (auto simp: identityPayloadEntries_def validIdentityPayload_def goodText_def split: option.splits)
qed

lemma readIdentityPayload_valid:
  assumes "readIdentityPayload parseUrl supported bs = Inr p"
  shows "validIdentityPayload parseUrl supported p"
proof -
  from assms obtain m aliases versions profiles hints where m: "decodeDeterministicCbor bs maxDraftEnvelopeBytes = Inr (CMap m)"
    and get: "map_of m (lit ''protocol_versions'') = Some versions" "map_of m (lit ''profile_multihashes'') = Some profiles"
      "map_of m (lit ''route_hints'') = Some hints" "readAliases aliases = Inr (ic_aliases p)"
    and read: "readOrderedUniqueTextArray maxIdentityAliasBytes versions ''protocol_versions'' 8 = Inr (ic_protocolVersions p)"
      "readOrderedUniqueTextArray maxIdentityAliasBytes profiles ''profile_multihashes'' 8 = Inr (ic_profileMultihashes p)"
      "readRouteHints parseUrl hints = Inr (ic_routeHints p)"
    and name: "ic_displayName p = None \<or> (\<exists>n. ic_displayName p = Some n \<and> map_of m (lit ''display_name'') = Some (CText n) \<and> n \<noteq> []
      \<and> length (textEncode n) \<le> 96)"
    and rest: "length (ic_contactId p) = 32" "succeeds (parseBranchID (ic_branchId p))" "goodTime (ic_sequence p)" "goodTime (ic_issuedAt p)"
      "goodTime (ic_expiresAt p)" "protocolID \<in> set (ic_protocolVersions p)" "hasSupportedProfile (ic_profileMultihashes p) supported"
    unfolding readIdentityPayload_def guard_Inr andThen_Inr decodeCborForValidation_Inr
    by (auto simp: andThen_Inr guard_Inr readCborMap_Inr readField_Inr readTimestamp_Inr readBytes_Inr readUint_Inr readText_Inr succeeds_iff
        goodTime_def readDisplayName_def maxIdentityDisplayNameBytes_def split: if_splits)
  have wf: "wfCbor versions" "wfCbor profiles" "wfCbor hints" using decoded_entry [OF m] get by blast+
  have "orderedSet 64 8 (ic_protocolVersions p)" "orderedSet 64 8 (ic_profileMultihashes p)"
    using read(1,2) wf by (simp_all add: readOrdered_Inr maxIdentityAliasBytes_def)
  moreover have "goodText n 96" if "ic_displayName p = Some n" for n
    using name that decoded_entry [OF m, of "lit ''display_name''" "CText n"] by (auto simp: goodText_def decodableText_def)
  ultimately show ?thesis
    using rest get(4) readAliases_good readRouteHints_good [OF read(3) wf(3)] by (auto simp: validIdentityPayload_def split: option.splits)
qed

lemma readIdentityPayload_encode:
  assumes p: "validIdentityPayload parseUrl supported p" and enc: "encodeIdentityContactPayload p = Inr bs"
  shows "readIdentityPayload parseUrl supported bs = Inr p"
proof -
  let ?es = "identityPayloadEntries p" and ?m = "canonicalEntries (identityPayloadEntries p)"
  note wf = validIdentityPayload_wf [OF p]
  have enc: "encodeDeterministicCbor (CMap ?es) = Inr bs" using enc by (simp only: encodeIdentityContactPayload_def)
  then have "length bs \<le> 20000" using validIdentityPayload_size [OF p] by (simp del: encodeDeterministicCbor.simps)
  then have size: "length bs \<le> maxCborBytes" "length bs \<le> maxDraftEnvelopeBytes" by (simp_all add: maxCborBytes_def maxDraftEnvelopeBytes_def)
  have d: "decodeCborForValidation bs = Inr (CMap ?m)"
    unfolding decodeCborForValidation_Inr by (rule decode_encode_map [OF wf enc size(2)])
  have "distinct (map fst ?es)" by (auto simp: identityPayloadEntries_def split: option.splits)
  then have get: "map_of ?m k = map_option canonical (map_of ?es k)" for k by simp
  have keys: "rejectUnknownEntries ?m payloadKeys = Inr ()"
    by (auto simp: rejectUnknownEntries_Inr identityPayloadEntries_def payloadKeys_def split: option.splits)
  have texts: "canonical (CArray (map CText items)) = CArray (map CText items)" for items by simp
  have arrays: "map_of ?m (lit ''aliases'') = Some (CArray (map CText (ic_aliases p)))"
    "map_of ?m (lit ''protocol_versions'') = Some (CArray (map CText (ic_protocolVersions p)))"
    "map_of ?m (lit ''profile_multihashes'') = Some (CArray (map CText (ic_profileMultihashes p)))"
    "map_of ?m (lit ''route_hints'') = Some (canonical (CArray (map hintMap (ic_routeHints p))))"
    by (auto simp: get identityPayloadEntries_def map_add_def split: option.splits)
  have scalars: "map_of ?m (lit ''contact_id'') = Some (CBytes (ic_contactId p))" "map_of ?m (lit ''branch_id'') = Some (CText (ic_branchId p))"
    "map_of ?m (lit ''sequence'') = Some (CNum (ic_sequence p))" "map_of ?m (lit ''issued_at'') = Some (CNum (ic_issuedAt p))"
    "map_of ?m (lit ''expires_at'') = Some (CNum (ic_expiresAt p))" "map_of ?m (lit ''display_name'') = map_option CText (ic_displayName p)"
    by (auto simp: get identityPayloadEntries_def map_add_def split: option.splits)
  have "readOrderedUniqueTextArray 64 (CArray (map CText items)) key 8 = Inr items" if "orderedSet 64 8 items" for items key
    using that orderedSet_wf [OF that] by (subst readOrdered_Inr) (simp_all del: wfCbor.simps)
  then have ordered: "readOrderedUniqueTextArray maxIdentityAliasBytes (CArray (map CText (ic_protocolVersions p))) key 8 = Inr (ic_protocolVersions p)"
    "readOrderedUniqueTextArray maxIdentityAliasBytes (CArray (map CText (ic_profileMultihashes p))) key 8 = Inr (ic_profileMultihashes p)" for key
    using p by (simp_all add: validIdentityPayload_def maxIdentityAliasBytes_def)
  have read: "readAliases (CArray (map CText (ic_aliases p))) = Inr (ic_aliases p)"
    "readRouteHints parseUrl (canonical (CArray (map hintMap (ic_routeHints p)))) = Inr (ic_routeHints p)"
    using p by (simp_all add: validIdentityPayload_def readAliases_id readRouteHints_canonical del: canonical.simps)
  have "goodText (ic_branchId p) 50" "\<exists>b. parseBranchID (ic_branchId p) = Inr b"
    using p branch_text by (auto simp: validIdentityPayload_def succeeds_iff)
  moreover have "goodText n 96" if "ic_displayName p = Some n" for n
    using p that by (simp add: validIdentityPayload_def)
  ultimately show ?thesis
    using p size(1)
    by (cases "ic_displayName p")
      (auto simp: readIdentityPayload_def d keys readCborMap_def readField_Some [OF arrays(1)] readField_Some [OF arrays(2)]
        readField_Some [OF arrays(3)] readField_Some [OF arrays(4)] readField_Some [OF scalars(1)] readField_Some [OF scalars(2)]
        readField_Some [OF scalars(3)] readField_Some [OF scalars(4)] readField_Some [OF scalars(5)] scalars(6) hasEntry_map_of
        ordered read readText_def readBytes_def readTimestamp_def readUint_def isSafeInteger_def validIdentityPayload_def goodTime_def goodText_def
        maxCborTextBytes_def maxCborBytes_def maxDraftTimestamp_def maxSafeInteger_def readDisplayName_def maxIdentityDisplayNameBytes_def
        readField_Some simp del: canonical.simps)
qed

section \<open>Lemmas on validation\<close>

lemma identityContactEventType_text: "decodableText identityContactEventType" "identityContactEventType \<noteq> []"
  "length (textEncode identityContactEventType) \<le> 64"
  by (simp_all add: identityContactEventType_def)

lemma outcome_Inr: "(case M of Inl e \<Rightarrow> Inl (f e) | Inr outcome \<Rightarrow> outcome) = Inr c \<longleftrightarrow> M = Inr (Inr c)"
  by (cases M) auto

lemma opened_Inr:
  "andThen M (\<lambda>opened. case opened of Inl reason \<Rightarrow> Inr (Inl reason) | Inr (bs, input, e) \<Rightarrow> F bs input e) = Inr (Inr c)
     \<longleftrightarrow> (\<exists>bs input e. M = Inr (Inr (bs, input, e)) \<and> F bs input e = Inr (Inr c))"
  unfolding andThen_Inr by (auto split: sum.splits prod.splits) (metis obj_sumE surj_pair)

lemma validateBranchTextIdentityContact_Inr:
  "validateBranchTextIdentityContact sha256 verify parseUrl now skew supported minimumSequence w = Inr c \<longleftrightarrow>
     sc_wrapper c = w
     \<and> genuine verify identityContactEventType w (sc_signedEventBytes c) (sc_signatureInputBytes c) (sc_envelope c)
     \<and> now < ev_expiresAt (sc_envelope c) \<and> ev_createdAt (sc_envelope c) \<le> now + skew
     \<and> readIdentityPayload parseUrl supported (ev_payloadBytes (sc_envelope c)) = Inr (sc_payload c)
     \<and> ic_expiresAt (sc_payload c) = ev_expiresAt (sc_envelope c) \<and> ic_issuedAt (sc_payload c) \<le> ev_createdAt (sc_envelope c)
     \<and> (case minimumSequence of None \<Rightarrow> True | Some n \<Rightarrow> n \<le> ic_sequence (sc_payload c))
     \<and> branchIDFromPublicKey sha256 (ev_publicKey (sc_envelope c)) = Inr (ic_branchId (sc_payload c))"
  unfolding validateBranchTextIdentityContact_def outcome_Inr
  unfolding opened_Inr openSignedEvent_iff [OF identityContactEventType_text(1,2)]
  unfolding andThen_Inr rejectWith_Inr
  by (cases c) (auto split: option.splits)

section \<open>Lemmas on creation\<close>

lemma branchIDFromPublicKey_valid:
  assumes "length publicKey = 32" "\<And>i. length (sha256 i) = 32"
  shows "\<exists>b. branchIDFromPublicKey sha256 publicKey = Inr b \<and> succeeds (parseBranchID b)"
proof -
  have four: "length (lit ''br1.'') = 4" by simp
  show ?thesis
    using assms by (auto simp: branchIDFromPublicKey_def parseBranchID_def startsWith_def decode_encodeBase64URL four simp flip: lit_append)
qed

text \<open>What a caller has to pass for the record to be readable: the function does not check it.\<close>

definition readableTexts :: "nat \<Rightarrow> js_string list \<Rightarrow> bool" where
  "readableTexts maxItems items \<longleftrightarrow> items \<noteq> [] \<and> length items \<le> maxItems \<and> (\<forall>item \<in> set items. wellFormed item \<and> \<not> startsWithBOM item)"

definition readableOptions :: "js_string list \<Rightarrow> CreateIdentityContactOptions \<Rightarrow> bool" where
  "readableOptions supported options \<longleftrightarrow> length (orElse (co_contactId options) (replicate 32 0)) = 32
     \<and> length (orElse (co_eventId options) (replicate 32 0)) = 32 \<and> goodTime (orElse (co_sequence options) 1)
     \<and> (case co_displayName options of None \<Rightarrow> True | Some n \<Rightarrow> goodText n 96) \<and> length (orElse (co_aliases options) []) \<le> 8
     \<and> readableTexts 8 (orElse (co_protocolVersions options) [protocolID])
     \<and> protocolID \<in> set (orElse (co_protocolVersions options) [protocolID])
     \<and> readableTexts 8 (orElse (co_profileMultihashes options) [developmentProfileMultihash])
     \<and> hasSupportedProfile (orElse (co_profileMultihashes options) [developmentProfileMultihash]) supported
     \<and> (\<forall>h \<in> set (orElse (co_routeHints options) []). goodText (ih_uri h) 512 \<and> goodText (ih_profileMultihash h) 1024)"

lemma normalizeRouteHints_good:
  assumes "normalizeRouteHints parseUrl localeCompare hints = Inr hs" "\<forall>h \<in> set hints. goodText (ih_uri h) 512 \<and> goodText (ih_profileMultihash h) 1024"
  shows "goodHints parseUrl hs" "set hs = set hints"
proof -
  obtain cmp where r: "readRouteHints parseUrl (CArray (map hintMap (js_sort cmp hints))) = Inr hs"
    using assms(1) unfolding normalizeRouteHints_def by blast
  then have m: "mapRes readRouteHint (map hintMap (js_sort cmp hints)) = Inr hs" unfolding readRouteHints_Inr by blast
  then have hs: "hs = js_sort cmp hints" by (rule mapRes_hints)
  then show "set hs = set hints" by simp
  have "coreHint h" if "h \<in> set hints" for h
  proof -
    have "readRouteHint (hintMap h) = Inr h"
      using mapRes_Inr_elem [OF m, of "hintMap h"] readRouteHint_plain that by auto
    then show ?thesis using assms(2) that unfolding readRouteHint_Inr by (auto simp: coreHint_def)
  qed
  then have "\<forall>h \<in> set (js_sort cmp hints). wfCbor (hintMap h)" by (simp add: hint_wf del: wfCbor.simps)
  moreover have "length (js_sort cmp hints) \<le> 8" using r hs unfolding readRouteHints_Inr by auto
  ultimately have "wfCbor (CArray (map hintMap (js_sort cmp hints)))" by (simp add: maxCborCollectionEntries_def)
  then show "goodHints parseUrl hs" using readRouteHints_good r by blast
qed

lemma normalized_ordered:
  assumes "normalizeOrderedTextSet n items key = Inr ordered" "readableTexts k items"
  shows "orderedSet n k ordered" "set ordered = set items"
  using normalizeOrderedTextSet_ordered [OF assms(1), of k] assms(2) by (auto simp: readableTexts_def)

lemma hasSupportedProfile_set: "set a = set b \<Longrightarrow> hasSupportedProfile a supported = hasSupportedProfile b supported"
  by (simp add: hasSupportedProfile_def)

lemma createdPayload_valid:
  assumes created: "createdPayload sha256 parseUrl localeCompare publicKey now expiresAt randomContact options = Inr p"
    and readable: "readableOptions supported options" and lengths: "length publicKey = 32" "length randomContact = 32"
    and sha: "\<And>i. length (sha256 i) = 32" and times: "goodTime now" "goodTime expiresAt"
  shows "validIdentityPayload parseUrl supported p" "branchIDFromPublicKey sha256 publicKey = Inr (ic_branchId p)"
    "ic_issuedAt p = now" "ic_expiresAt p = expiresAt" "ic_sequence p = orElse (co_sequence options) 1"
    "set (ic_routeHints p) = set (orElse (co_routeHints options) [])"
proof -
  let ?versions = "orElse (co_protocolVersions options) [protocolID]"
    and ?profiles = "orElse (co_profileMultihashes options) [developmentProfileMultihash]"
  from created have versions: "normalizeOrderedTextSet 64 ?versions ''protocol_versions'' = Inr (ic_protocolVersions p)"
    and profiles: "normalizeOrderedTextSet 64 ?profiles ''profile_multihashes'' = Inr (ic_profileMultihashes p)"
    and hints: "normalizeRouteHints parseUrl localeCompare (orElse (co_routeHints options) []) = Inr (ic_routeHints p)"
    and aliases: "normalizeAliases (orElse (co_aliases options) []) = Inr (ic_aliases p)"
    and branch: "branchIDFromPublicKey sha256 publicKey = Inr (ic_branchId p)"
    and rest: "ic_contactId p = orElse (co_contactId options) randomContact" "ic_sequence p = orElse (co_sequence options) 1"
      "ic_issuedAt p = now" "ic_expiresAt p = expiresAt" "ic_displayName p = co_displayName options"
    by (auto simp: createdPayload_def andThen_Inr maxIdentityAliasBytes_def)
  have r: "readableTexts 8 ?versions" "protocolID \<in> set ?versions" "readableTexts 8 ?profiles" "hasSupportedProfile ?profiles supported"
    "length (orElse (co_aliases options) []) \<le> 8"
    "\<forall>h \<in> set (orElse (co_routeHints options) []). goodText (ih_uri h) 512 \<and> goodText (ih_profileMultihash h) 1024"
    using readable unfolding readableOptions_def by blast+
  note hints = normalizeRouteHints_good [OF hints r(6)]
  obtain b where "branchIDFromPublicKey sha256 publicKey = Inr b" "succeeds (parseBranchID b)"
    using branchIDFromPublicKey_valid [OF lengths(1), of sha256] sha by blast
  moreover have "length (orElse (co_contactId options) randomContact) = 32"
    using readable lengths(2) by (auto simp: readableOptions_def orElse_def split: option.splits)
  moreover have "hasSupportedProfile (ic_profileMultihashes p) supported"
    using hasSupportedProfile_set normalized_ordered(2) [OF profiles r(3)] r(4) by blast
  ultimately show "validIdentityPayload parseUrl supported p"
    using readable rest branch times normalized_ordered [OF versions r(1)] normalized_ordered [OF profiles r(3)] r hints
      normalizeAliases_good [OF aliases r(5)]
    by (simp add: validIdentityPayload_def readableOptions_def)
  show "branchIDFromPublicKey sha256 publicKey = Inr (ic_branchId p)" "ic_issuedAt p = now" "ic_expiresAt p = expiresAt"
    "ic_sequence p = orElse (co_sequence options) 1" "set (ic_routeHints p) = set (orElse (co_routeHints options) [])"
    using branch rest hints by simp_all
qed

interpretation identity_record: signed_record identityContactEventType "readIdentityPayload parseUrl supported"
  encodeIdentityContactPayload "validIdentityPayload parseUrl supported" for parseUrl supported
proof
  fix p assume p: "validIdentityPayload parseUrl supported p"
  note wf = validIdentityPayload_wf [OF p]
  obtain bs where enc: "encodeDeterministicCbor (CMap (identityPayloadEntries p)) = Inr bs" and size: "length bs \<le> 20000"
    using encode_wf_Inr [OF wf] validIdentityPayload_size [OF p] by blast
  have "bs \<noteq> []" using decode_size [OF decode_encode_map [OF wf enc order.refl]] by auto
  moreover have enc: "encodeIdentityContactPayload p = Inr bs" using enc by (simp only: encodeIdentityContactPayload_def)
  ultimately show "\<exists>bs. encodeIdentityContactPayload p = Inr bs \<and> bs \<noteq> [] \<and> length bs \<le> 20000 \<and> readIdentityPayload parseUrl supported bs = Inr p"
    using size readIdentityPayload_encode [OF p enc] by blast
qed (use identityContactEventType_text readIdentityPayload_valid in blast)+

section \<open>Properties\<close>

text \<open>
  C28. A wrapper is accepted as an identity contact exactly when it is the base64url text of the canonical bytes of a well
  formed envelope of type identity.announce that its sender signed, the clock lies inside its lifetime up to the allowed skew,
  its payload reads, expires with the envelope, was issued no later than it, has a sequence number that is not below the
  minimum, and claims the Branch identifier of the signing key. The payload of an accepted contact is valid.
\<close>

theorem identity_contact_accepted:
  "validateBranchTextIdentityContact sha256 verify parseUrl now skew supported minimumSequence w = Inr c \<longleftrightarrow>
     sc_wrapper c = w
     \<and> genuine verify identityContactEventType w (sc_signedEventBytes c) (sc_signatureInputBytes c) (sc_envelope c)
     \<and> now < ev_expiresAt (sc_envelope c) \<and> ev_createdAt (sc_envelope c) \<le> now + skew
     \<and> readIdentityPayload parseUrl supported (ev_payloadBytes (sc_envelope c)) = Inr (sc_payload c)
     \<and> ic_expiresAt (sc_payload c) = ev_expiresAt (sc_envelope c) \<and> ic_issuedAt (sc_payload c) \<le> ev_createdAt (sc_envelope c)
     \<and> (case minimumSequence of None \<Rightarrow> True | Some n \<Rightarrow> n \<le> ic_sequence (sc_payload c))
     \<and> branchIDFromPublicKey sha256 (ev_publicKey (sc_envelope c)) = Inr (ic_branchId (sc_payload c))
     \<and> validIdentityPayload parseUrl supported (sc_payload c)"
  unfolding validateBranchTextIdentityContact_Inr using readIdentityPayload_valid by blast

text \<open>
  C97. The payloads of identity contacts that some byte string reads as are exactly the valid ones: identifiers of the right
  length, aliases and route hints normalised, ordered, free of duplicates and at most eight, the protocol and a supported
  profile among the announced ones, and every secure hint with an explicit port. The encoding of a valid payload exists, stays below
  20000 bytes and reads back as the payload.
\<close>

theorem identity_payload_valid:
  "(\<exists>bs. readIdentityPayload parseUrl supported bs = Inr p) \<longleftrightarrow> validIdentityPayload parseUrl supported p
     \<and> (\<exists>bs. encodeIdentityContactPayload p = Inr bs \<and> length bs \<le> 20000 \<and> readIdentityPayload parseUrl supported bs = Inr p)"
  by (rule identity_record.readable_iff)

text \<open>
  C29. A contact created from readable options, with a signature the receiver's verification accepts, is accepted by the
  validation at every moment of its lifetime and yields the payload that was built, under the key it was signed with.
\<close>

theorem identity_contact_end_to_end:
  assumes created: "createdPayload sha256 parseUrl localeCompare publicKey now (orElse (co_expiresAt options) (now + defaultLifetimeSeconds))
      randomContact options = Inr p"
    and readable: "readableOptions supported options"
    and lengths: "length publicKey = 32" "length randomContact = 32" "length randomEvent = 32"
    and sha: "\<And>i. length (sha256 i) = 32"
    and sign: "\<And>i. length (sign i) = 64" "\<And>i. verify publicKey (sign i) i = Inr True"
    and times: "0 \<le> now" "now < ic_expiresAt p" "ic_expiresAt p \<le> maxSafeInteger"
    and clock: "now \<le> clock + skew" "clock < ic_expiresAt p" and minimum: "n \<le> ic_sequence p"
  shows "\<exists>w c. createIdentityContactWrapper sha256 sign parseUrl localeCompare publicKey now randomContact randomEvent options = Inr w
     \<and> validateBranchTextIdentityContact sha256 verify parseUrl clock skew supported (Some n) w = Inr c
     \<and> sc_payload c = p \<and> ev_publicKey (sc_envelope c) = publicKey
     \<and> set (ic_routeHints p) = set (orElse (co_routeHints options) [])"
proof -
  let ?expiresAt = "orElse (co_expiresAt options) (now + defaultLifetimeSeconds)"
  have "ic_expiresAt p = ?expiresAt" using created by (auto simp: createdPayload_def andThen_Inr)
  with times have "goodTime now" "goodTime ?expiresAt" by (simp_all add: goodTime_def)
  note p = createdPayload_valid [OF created readable lengths(1,2) sha this]
  have eventId: "length (orElse (co_eventId options) randomEvent) = 32"
    using readable lengths(3) by (auto simp: readableOptions_def orElse_def split: option.splits)
  have expires: "now < ?expiresAt" "?expiresAt \<le> maxSafeInteger" using times p(4) by simp_all
  obtain payload w bs input e where w: "encodeIdentityContactPayload p = Inr payload"
    "sealEvent sign (newEnvelope identityContactEventType (orElse (co_eventId options) randomEvent) publicKey now ?expiresAt payload) = Inr w"
    and e: "genuine verify identityContactEventType w bs input e" "readIdentityPayload parseUrl supported (ev_payloadBytes e) = Inr p"
      "ev_publicKey e = publicKey" "ev_createdAt e = now" "ev_expiresAt e = ?expiresAt"
    by (rule identity_record.sealed_opens [where sign = sign and verify = verify and publicKey = publicKey,
          OF p(1) lengths(1) eventId sign times(1) expires])
  define c where "c = \<lparr>sc_wrapper = w, sc_signedEventBytes = bs, sc_signatureInputBytes = input, sc_envelope = e, sc_payload = p\<rparr>"
  have "createIdentityContactWrapper sha256 sign parseUrl localeCompare publicKey now randomContact randomEvent options = Inr w"
    using created w by (simp add: createIdentityContactWrapper_def)
  moreover have "validateBranchTextIdentityContact sha256 verify parseUrl clock skew supported (Some n) w = Inr c"
    unfolding validateBranchTextIdentityContact_Inr using e p clock minimum by (simp add: c_def)
  ultimately show ?thesis using p(6) e(3) by (auto simp: c_def)
qed

text \<open>The witness: a contact with a display name, an alias that has to be normalised and one secure route hint.\<close>

definition exampleHint :: IdentityContactRouteHint where
  "exampleHint = \<lparr>ih_transport = lit ''wss'', ih_uri = lit ''wss://r:443/v0'', ih_relayPublicKey = encodeBase64URL (replicate 32 0),
     ih_profileMultihash = developmentProfileMultihash, ih_priority = 0\<rparr>"

definition exampleUrl :: "js_string \<Rightarrow> URL option" where
  "exampleUrl s = Some \<lparr>url_protocol = lit ''wss:'', url_host = lit ''r:443'', url_hostname = lit ''r'', url_username = [],
     url_password = [], url_pathname = lit ''/v0'', url_hash = []\<rparr>"

definition exampleOptions :: CreateIdentityContactOptions where
  "exampleOptions = \<lparr>co_expiresAt = None, co_sequence = None, co_contactId = None, co_eventId = None, co_displayName = Some (lit ''Bob''),
     co_aliases = Some [lit '' Bob''], co_protocolVersions = None, co_profileMultihashes = None, co_routeHints = Some [exampleHint]\<rparr>"

definition examplePayload :: IdentityContactPayload where
  "examplePayload = \<lparr>ic_contactId = replicate 32 1,
     ic_branchId = lit ''br1.'' @ encodeBase64URL ([0x12, 0x20] @ replicate 32 0), ic_sequence = 1, ic_issuedAt = 1700000000,
     ic_expiresAt = 1700604800, ic_displayName = Some (lit ''Bob''), ic_aliases = [lit ''bob''], ic_protocolVersions = [protocolID],
     ic_profileMultihashes = [developmentProfileMultihash], ic_routeHints = [exampleHint]\<rparr>"

lemma exampleHint_good: "goodHints exampleUrl [exampleHint]"
proof -
  have "readExplicitPort (lit ''wss://r:443/v0'') = Some 443"
    by (simp add: readExplicitPort_def lit_def unitOf_def startsWith_def digitUnit_def portDecimal_def maxSafeInteger_def Let_def)
  then have "validateWssEndpointUri exampleUrl (lit ''wss://r:443/v0'') = Inr ()"
    by (simp add: validateWssEndpointUri_def exampleUrl_def)
  moreover have "transportPattern (lit ''wss'')" by (simp add: transportPattern_def lit_def unitOf_def)
  ultimately show ?thesis
    using goodText_lit [of "''wss://r:443/v0''" 512] goodText_lit [of "''uEiCaVLmVxHgth49YdSwXKM201oM4W6PHc61z_1rz-J_xVw''" 1024]
    by (simp add: goodHints_def coreHint_def secureHint_def exampleHint_def decode_encodeBase64URL developmentProfileMultihash_def
        maxSafeInteger_def)
qed

lemma readRouteHint_hintMap: "coreHint h \<Longrightarrow> readRouteHint (hintMap h) = Inr h"
  using coreHint_texts [of h] unfolding readRouteHint_Inr
  by (auto simp: coreHint_def goodText_def hintMap_def hintEntries_def hintKeys_def)

lemma exampleHint_normalized: "normalizeRouteHints exampleUrl (\<lambda>_ _. 0) [exampleHint] = Inr [exampleHint]"
  using exampleHint_good readRouteHint_hintMap [of exampleHint]
  by (simp add: normalizeRouteHints_def readRouteHints_Inr js_sort_def goodHints_def)

lemma exampleAlias_normalized: "normalizeAliases [lit '' Bob''] = Inr [lit ''bob'']"
proof -
  have "aliasPattern (lit ''bob'')" by (simp add: aliasPattern_def lit_def unitOf_def aliasFirst_def)
  moreover have "map lowerUnit (trim (lit '' Bob'')) = lit ''bob''"
    by (simp add: lit_def unitOf_def trim_def jsWhitespace_def lowerUnit_def)
  ultimately have "readAlias (lit '' Bob'') = Inr (lit ''bob'')"
    using alias_good(2) [of "lit ''bob''"] by (simp only: readAlias_def Let_def maxIdentityAliasBytes_def) simp
  then show ?thesis by (simp add: normalizeAliases_def)
qed

lemma examplePayload_created:
  "createdPayload (\<lambda>_. replicate 32 0) exampleUrl (\<lambda>_ _. 0) (replicate 32 7) 1700000000
     (orElse (co_expiresAt exampleOptions) (1700000000 + defaultLifetimeSeconds)) (replicate 32 1) exampleOptions = Inr examplePayload"
  using exampleHint_normalized exampleAlias_normalized protocolID_text
  by (simp add: createdPayload_def exampleOptions_def orElse_def normalizeOrderedTextSet_def maxIdentityAliasBytes_def
      developmentProfileMultihash_def branchIDFromPublicKey_def examplePayload_def defaultLifetimeSeconds_def)

lemma exampleOptions_readable: "readableOptions [developmentProfileMultihash] exampleOptions"
  using exampleHint_good goodText_lit [of "''Bob''" 96] protocolID_text wellFormed_lit startsWithBOM_lit
  by (simp add: readableOptions_def exampleOptions_def orElse_def goodTime_def maxSafeInteger_def readableTexts_def decodableText_def
      hasSupportedProfile_def goodHints_def coreHint_def developmentProfileMultihash_def)

theorem identity_contact_end_to_end_witness:
  "\<exists>w c. createIdentityContactWrapper (\<lambda>_. replicate 32 0) (\<lambda>_. replicate 64 5) exampleUrl (\<lambda>_ _. 0) (replicate 32 7) 1700000000
       (replicate 32 1) (replicate 32 2) exampleOptions = Inr w
     \<and> validateBranchTextIdentityContact (\<lambda>_. replicate 32 0) (\<lambda>k s i. Inr (s = replicate 64 5)) exampleUrl 1700000100 300
         [developmentProfileMultihash] (Some 1) w = Inr c
     \<and> sc_payload c = examplePayload \<and> ev_publicKey (sc_envelope c) = replicate 32 7
     \<and> set (ic_routeHints examplePayload) = set (orElse (co_routeHints exampleOptions) [])"
  by (rule identity_contact_end_to_end [OF examplePayload_created exampleOptions_readable])
    (simp_all add: examplePayload_def maxSafeInteger_def)

end
