(* ===== verification/BootstrapBeacon.thy ===== *)
theory BootstrapBeacon
  imports IdentityContact
begin

text \<open>
  \<^verbatim>\<open>protocol/v0/bootstrap-beacon.ts\<close>: the signed announcement of relay endpoints, on top of the signed envelope of
  \<open>SignedEvents\<close>. The key pair the creating function generates is a public key and a signing function, what it
  draws at random are arguments.
\<close>

section \<open>Payload\<close>

definition bootstrapEventType :: js_string where
  "bootstrapEventType = lit ''bootstrap.beacon''"

definition maxRelayEndpoints :: nat where "maxRelayEndpoints = 8"
definition maxBootstrapNameBytes :: nat where "maxBootstrapNameBytes = 128"

definition defaultBootstrapRelayEndpointUri :: js_string where
  "defaultBootstrapRelayEndpointUri = lit ''wss://branch.undoo.ru:443/relay/v0''"

definition defaultBootstrapProfileMultihashes :: "js_string list" where
  "defaultBootstrapProfileMultihashes = [developmentProfileMultihash]"

definition defaultBootstrapRelayCapabilities :: "js_string list" where
  "defaultBootstrapRelayCapabilities = map lit [''relay.forward.live/0'', ''route.relay.wss/0'']"

record BootstrapRelayEndpoint =
  re_transport :: js_string
  re_uri :: js_string
  re_priority :: int

record BootstrapBeaconPayload =
  bp_beaconId :: bytes
  bp_sequence :: int
  bp_issuedAt :: int
  bp_expiresAt :: int
  bp_previousBeaconId :: "bytes option"
  bp_protocolVersions :: "js_string list"
  bp_profileMultihashes :: "js_string list"
  bp_relayCapabilities :: "js_string list"
  bp_relayEndpoints :: "BootstrapRelayEndpoint list"

definition endpointKeys :: "js_string list" where
  "endpointKeys = map lit [''transport'', ''uri'', ''priority'']"

definition endpointDuplicateKey :: "BootstrapRelayEndpoint \<Rightarrow> js_string" where
  "endpointDuplicateKey r = re_transport r @ [0] @ re_uri r"

definition readBoundedEndpointTransport :: "cbor \<Rightarrow> js_string res" where
  "readBoundedEndpointTransport = readTransport"

definition readBoundedEndpointUri :: "cbor \<Rightarrow> js_string res" where
  "readBoundedEndpointUri = readRouteUri"

definition readEndpoint :: "cbor \<Rightarrow> BootstrapRelayEndpoint res" where
  "readEndpoint entry =
     andThen (readCborMap entry (lit ''relay_endpoint'')) (\<lambda>m.
     andThen (rejectUnknownEntries m endpointKeys) (\<lambda>_.
     andThen (readField m ''transport'' readBoundedEndpointTransport) (\<lambda>transport.
     andThen (readField m ''uri'' readBoundedEndpointUri) (\<lambda>uri.
     andThen (readField m ''priority'' (\<lambda>v. readUint v (lit ''priority''))) (\<lambda>priority.
       Inr \<lparr>re_transport = transport, re_uri = uri, re_priority = priority\<rparr>)))))"

text \<open>
  The callback of \<^verbatim>\<open>map\<close> over the endpoints, which shares the last priority, the keys seen and the number of supported
  endpoints between its calls. The result has the endpoints and the final number.
\<close>

fun readEndpointEntries ::
  "(js_string \<Rightarrow> URL option) \<Rightarrow> int \<Rightarrow> js_string list \<Rightarrow> nat \<Rightarrow> cbor list \<Rightarrow> (BootstrapRelayEndpoint list \<times> nat) res" where
  "readEndpointEntries parseUrl previousPriority seen supportedEndpointCount [] = Inr ([], supportedEndpointCount)"
| "readEndpointEntries parseUrl previousPriority seen supportedEndpointCount (entry # entries) =
     andThen (readEndpoint entry) (\<lambda>r.
       if re_priority r < previousPriority then throw ''payload_invalid''
       else if endpointDuplicateKey r \<in> set seen then throw ''payload_invalid''
       else andThen (if re_transport r = lit ''wss''
                     then andThen (validateWssEndpointUri parseUrl (re_uri r)) (\<lambda>_. Inr (supportedEndpointCount + 1))
                     else Inr supportedEndpointCount) (\<lambda>count.
         andThen (readEndpointEntries parseUrl (re_priority r) (endpointDuplicateKey r # seen) count entries) (\<lambda>(rs, n).
           Inr (r # rs, n))))"

definition readRelayEndpoints :: "(js_string \<Rightarrow> URL option) \<Rightarrow> cbor \<Rightarrow> BootstrapRelayEndpoint list res" where
  "readRelayEndpoints parseUrl v =
     (case v of
        CArray vs \<Rightarrow>
          if length vs = 0 \<or> length vs > maxRelayEndpoints then throw ''payload_invalid''
          else andThen (readEndpointEntries parseUrl (-1) [] 0 vs) (\<lambda>(endpoints, supportedEndpointCount).
            if supportedEndpointCount = 0 then throw ''payload_invalid'' else Inr endpoints)
      | _ \<Rightarrow> throw ''payload_invalid'')"

definition endpointEntries :: "BootstrapRelayEndpoint \<Rightarrow> cborMap" where
  "endpointEntries r =
     [(lit ''transport'', CText (re_transport r)), (lit ''uri'', CText (re_uri r)), (lit ''priority'', CNum (re_priority r))]"

definition endpointMap :: "BootstrapRelayEndpoint \<Rightarrow> cbor" where
  "endpointMap r = CMap (endpointEntries r)"

definition normalizeRelayEndpoints ::
  "(js_string \<Rightarrow> URL option) \<Rightarrow> (js_string \<Rightarrow> js_string \<Rightarrow> int) \<Rightarrow> BootstrapRelayEndpoint list \<Rightarrow> BootstrapRelayEndpoint list res" where
  "normalizeRelayEndpoints parseUrl localeCompare endpoints =
     (if length endpoints = 0 \<or> length endpoints > maxRelayEndpoints then throw ''invalid_relay_endpoints''
      else readRelayEndpoints parseUrl (CArray (map endpointMap (js_sort (\<lambda>left right.
        if re_priority left - re_priority right \<noteq> 0 then re_priority left - re_priority right
        else if localeCompare (re_transport left) (re_transport right) \<noteq> 0 then localeCompare (re_transport left) (re_transport right)
        else localeCompare (re_uri left) (re_uri right)) endpoints))))"

text \<open>The value of an optional public field is only bounded: its depth, the sizes of its collections and its scalars.\<close>

fun validateBoundedPublicValue :: "nat \<Rightarrow> cbor \<Rightarrow> unit res"
  and validateBoundedItems :: "nat \<Rightarrow> cbor list \<Rightarrow> unit res"
  and validateBoundedEntries :: "nat \<Rightarrow> cborMap \<Rightarrow> unit res" where
  "validateBoundedPublicValue depth v =
     (if depth > 3 then throw ''payload_invalid''
      else case v of
          CNum _ \<Rightarrow> andThen (readUint v (lit ''public_value'')) (\<lambda>_. Inr ())
        | CText _ \<Rightarrow> andThen (readText v (lit ''public_value'')) (\<lambda>_. Inr ())
        | CBytes _ \<Rightarrow> andThen (readBytes v (lit ''public_value'') None) (\<lambda>_. Inr ())
        | CArray vs \<Rightarrow> if length vs > 16 then throw ''payload_invalid'' else validateBoundedItems (depth + 1) vs
        | CMap es \<Rightarrow> if length es > 16 then throw ''payload_invalid'' else validateBoundedEntries (depth + 1) es
        | CBool _ \<Rightarrow> Inr ())"
| "validateBoundedItems depth [] = Inr ()"
| "validateBoundedItems depth (v # vs) = andThen (validateBoundedPublicValue depth v) (\<lambda>_. validateBoundedItems depth vs)"
| "validateBoundedEntries depth [] = Inr ()"
| "validateBoundedEntries depth ((k, v) # es) =
     andThen (readText (CText k) (lit ''public_key'')) (\<lambda>_.
     andThen (validateBoundedPublicValue depth v) (\<lambda>_. validateBoundedEntries depth es))"

fun validateOptionalKeys :: "cborMap \<Rightarrow> string list \<Rightarrow> unit res" where
  "validateOptionalKeys m [] = Inr ()"
| "validateOptionalKeys m (key # keys) =
     andThen (if hasEntry m (lit key) then readField m key (validateBoundedPublicValue 0) else Inr ()) (\<lambda>_. validateOptionalKeys m keys)"

definition validateOptionalPublicValues :: "cborMap \<Rightarrow> unit res" where
  "validateOptionalPublicValues m = validateOptionalKeys m [''revokes'', ''rendezvous_boards'', ''mirror_hints'', ''proofs'']"

definition beaconKeys :: "js_string list" where
  "beaconKeys = map lit [''beacon_id'', ''sequence'', ''issued_at'', ''expires_at'', ''previous_beacon_id'', ''revokes'',
     ''protocol_versions'', ''profile_multihashes'', ''relay_capabilities'', ''relay_endpoints'', ''rendezvous_boards'', ''mirror_hints'',
     ''proofs'']"

definition beaconPayloadEntries :: "BootstrapBeaconPayload \<Rightarrow> cborMap" where
  "beaconPayloadEntries p =
     [(lit ''beacon_id'', CBytes (bp_beaconId p)), (lit ''sequence'', CNum (bp_sequence p)), (lit ''issued_at'', CNum (bp_issuedAt p)),
      (lit ''expires_at'', CNum (bp_expiresAt p)), (lit ''protocol_versions'', CArray (map CText (bp_protocolVersions p))),
      (lit ''profile_multihashes'', CArray (map CText (bp_profileMultihashes p))),
      (lit ''relay_capabilities'', CArray (map CText (bp_relayCapabilities p))),
      (lit ''relay_endpoints'', CArray (map endpointMap (bp_relayEndpoints p)))]
     @ (case bp_previousBeaconId p of None \<Rightarrow> [] | Some previous \<Rightarrow> [(lit ''previous_beacon_id'', CBytes previous)])"

definition encodeBootstrapPayload :: "BootstrapBeaconPayload \<Rightarrow> bytes res" where
  "encodeBootstrapPayload p = encodeDeterministicCbor (CMap (beaconPayloadEntries p))"

definition readBootstrapPayload :: "(js_string \<Rightarrow> URL option) \<Rightarrow> js_string list \<Rightarrow> bytes \<Rightarrow> BootstrapBeaconPayload res" where
  "readBootstrapPayload parseUrl supported bs =
     (if length bs > maxCborBytes then throw ''payload_oversized''
      else andThen (decodeCborForValidation bs) (\<lambda>v. andThen (readCborMap v (lit ''bootstrap_payload'')) (\<lambda>m.
        andThen (rejectUnknownEntries m beaconKeys) (\<lambda>_.
        andThen (readField m ''protocol_versions'' (\<lambda>v. readOrderedUniqueTextArray maxBootstrapNameBytes v ''protocol_versions'' 8))
          (\<lambda>protocolVersions.
        andThen (readField m ''profile_multihashes'' (\<lambda>v. readOrderedUniqueTextArray maxBootstrapNameBytes v ''profile_multihashes'' 8))
          (\<lambda>profileMultihashes.
        andThen (readField m ''relay_capabilities'' (\<lambda>v. readOrderedUniqueTextArray maxBootstrapNameBytes v ''relay_capabilities'' 32))
          (\<lambda>relayCapabilities.
        andThen (readField m ''relay_endpoints'' (readRelayEndpoints parseUrl)) (\<lambda>relayEndpoints.
        if protocolID \<notin> set protocolVersions then throw ''payload_invalid''
        else if \<not> hasSupportedProfile profileMultihashes supported then throw ''payload_invalid''
        else andThen (validateOptionalPublicValues m) (\<lambda>_.
        andThen (readField m ''beacon_id'' (\<lambda>v. readBytes v (lit ''beacon_id'') (Some 32))) (\<lambda>beaconId.
        andThen (readField m ''sequence'' (\<lambda>v. readUint v (lit ''sequence''))) (\<lambda>sequence.
        andThen (readField m ''issued_at'' (\<lambda>v. readTimestamp v ''issued_at'')) (\<lambda>issuedAt.
        andThen (readField m ''expires_at'' (\<lambda>v. readTimestamp v ''expires_at'')) (\<lambda>expiresAt.
        andThen (if hasEntry m (lit ''previous_beacon_id'')
                 then andThen (readField m ''previous_beacon_id'' (\<lambda>v. readBytes v (lit ''previous_beacon_id'') (Some 32))) (\<lambda>n. Inr (Some n))
                 else Inr None) (\<lambda>previousBeaconId.
          Inr \<lparr>bp_beaconId = beaconId, bp_sequence = sequence, bp_issuedAt = issuedAt, bp_expiresAt = expiresAt,
            bp_previousBeaconId = previousBeaconId, bp_protocolVersions = protocolVersions,
            bp_profileMultihashes = profileMultihashes, bp_relayCapabilities = relayCapabilities,
            bp_relayEndpoints = relayEndpoints\<rparr>))))))))))))))"

section \<open>Validation\<close>

record SignedBootstrapBeacon =
  sb_wrapper :: js_string
  sb_signedEventBytes :: bytes
  sb_signatureInputBytes :: bytes
  sb_envelope :: SignedEnvelope
  sb_payload :: BootstrapBeaconPayload

definition readBootstrapEnvelope :: "cborMap \<Rightarrow> SignedEnvelope res" where
  "readBootstrapEnvelope = readEnvelope bootstrapEventType"

definition validateBranchTextBootstrapBeacon ::
  "(bytes \<Rightarrow> bytes \<Rightarrow> bytes \<Rightarrow> bool res) \<Rightarrow> (js_string \<Rightarrow> URL option) \<Rightarrow> int \<Rightarrow> int \<Rightarrow> js_string list \<Rightarrow> js_string
     \<Rightarrow> js_string + SignedBootstrapBeacon" where
  "validateBranchTextBootstrapBeacon ed25519Verify parseUrl now maxFutureSkewSeconds supported wrapper =
     (case
        andThen (openSignedEvent ed25519Verify bootstrapEventType now maxFutureSkewSeconds wrapper) (\<lambda>opened.
          case opened of
            Inl reason \<Rightarrow> Inr (Inl reason)
          | Inr (signedEventBytes, signatureInputBytes, envelope) \<Rightarrow>
              andThen (readBootstrapPayload parseUrl supported (ev_payloadBytes envelope)) (\<lambda>payload.
              if bp_expiresAt payload \<noteq> ev_expiresAt envelope then rejectWith ''payload_expiry_mismatch''
              else if bp_issuedAt payload > ev_createdAt envelope then rejectWith ''payload_issued_after_created''
              else Inr (Inr \<lparr>sb_wrapper = wrapper, sb_signedEventBytes = signedEventBytes,
                sb_signatureInputBytes = signatureInputBytes, sb_envelope = envelope, sb_payload = payload\<rparr>)))
      of Inl e \<Rightarrow> Inl (reasonFromError commonReasons e) | Inr outcome \<Rightarrow> outcome)"

definition assertValidBranchTextBootstrapBeacon :: "js_string + SignedBootstrapBeacon \<Rightarrow> SignedBootstrapBeacon res" where
  "assertValidBranchTextBootstrapBeacon outcome =
     (case outcome of
        Inl reason \<Rightarrow> Inl (PlainError (lit ''BRANCH0 bootstrap.beacon rejected: '' @ reason))
      | Inr beacon \<Rightarrow> Inr beacon)"

section \<open>Creation\<close>

record CreateBootstrapBeaconOptions =
  cb_expiresAt :: "int option"
  cb_sequence :: "int option"
  cb_beaconId :: "bytes option"
  cb_eventId :: "bytes option"
  cb_protocolVersions :: "js_string list option"
  cb_profileMultihashes :: "js_string list option"
  cb_relayCapabilities :: "js_string list option"
  cb_relayEndpoints :: "BootstrapRelayEndpoint list option"

definition defaultRelayEndpoints :: "BootstrapRelayEndpoint list" where
  "defaultRelayEndpoints = [\<lparr>re_transport = lit ''wss'', re_uri = defaultBootstrapRelayEndpointUri, re_priority = 0\<rparr>]"

text \<open>\<open>createdBeaconPayload\<close> is the argument the function passes to \<^verbatim>\<open>encodeBootstrapPayload\<close>.\<close>

definition createdBeaconPayload ::
  "(js_string \<Rightarrow> URL option) \<Rightarrow> (js_string \<Rightarrow> js_string \<Rightarrow> int) \<Rightarrow> int \<Rightarrow> int \<Rightarrow> bytes \<Rightarrow> CreateBootstrapBeaconOptions
     \<Rightarrow> BootstrapBeaconPayload res" where
  "createdBeaconPayload parseUrl localeCompare now expiresAt randomBeacon options =
     andThen (normalizeOrderedTextSet maxBootstrapNameBytes (orElse (cb_protocolVersions options) [protocolID]) ''protocol_versions'')
       (\<lambda>protocolVersions.
     andThen (normalizeOrderedTextSet maxBootstrapNameBytes (orElse (cb_profileMultihashes options) defaultBootstrapProfileMultihashes)
         ''profile_multihashes'') (\<lambda>profileMultihashes.
     andThen (normalizeOrderedTextSet maxBootstrapNameBytes (orElse (cb_relayCapabilities options) defaultBootstrapRelayCapabilities)
         ''relay_capabilities'') (\<lambda>relayCapabilities.
     andThen (normalizeRelayEndpoints parseUrl localeCompare (orElse (cb_relayEndpoints options) defaultRelayEndpoints)) (\<lambda>relayEndpoints.
       Inr \<lparr>bp_beaconId = orElse (cb_beaconId options) randomBeacon, bp_sequence = orElse (cb_sequence options) 1,
            bp_issuedAt = now, bp_expiresAt = expiresAt, bp_previousBeaconId = None, bp_protocolVersions = protocolVersions,
            bp_profileMultihashes = profileMultihashes, bp_relayCapabilities = relayCapabilities,
            bp_relayEndpoints = relayEndpoints\<rparr>))))"

definition createBootstrapBeaconWrapper ::
  "(bytes \<Rightarrow> bytes) \<Rightarrow> (js_string \<Rightarrow> URL option) \<Rightarrow> (js_string \<Rightarrow> js_string \<Rightarrow> int) \<Rightarrow> bytes \<Rightarrow> int \<Rightarrow> bytes \<Rightarrow> bytes
     \<Rightarrow> CreateBootstrapBeaconOptions \<Rightarrow> js_string res" where
  "createBootstrapBeaconWrapper ed25519Sign parseUrl localeCompare publicKey now randomBeacon randomEvent options =
     (let expiresAt = orElse (cb_expiresAt options) (now + defaultLifetimeSeconds) in
      andThen (createdBeaconPayload parseUrl localeCompare now expiresAt randomBeacon options) (\<lambda>payload.
      andThen (encodeBootstrapPayload payload) (\<lambda>payloadBytes.
        sealEvent ed25519Sign
          (newEnvelope bootstrapEventType (orElse (cb_eventId options) randomEvent) publicKey now expiresAt payloadBytes))))"

section \<open>Lemmas on endpoints\<close>

definition coreEndpoint :: "BootstrapRelayEndpoint \<Rightarrow> bool" where
  "coreEndpoint r \<longleftrightarrow> transportPattern (re_transport r) \<and> length (textEncode (re_transport r)) \<le> 32 \<and> goodText (re_uri r) 512
     \<and> 0 \<le> re_priority r \<and> re_priority r \<le> maxSafeInteger"

definition secureEndpoint :: "(js_string \<Rightarrow> URL option) \<Rightarrow> BootstrapRelayEndpoint \<Rightarrow> bool" where
  "secureEndpoint parseUrl r \<longleftrightarrow> re_transport r \<noteq> lit ''wss'' \<or> validateWssEndpointUri parseUrl (re_uri r) = Inr ()"

definition goodEndpoints :: "(js_string \<Rightarrow> URL option) \<Rightarrow> BootstrapRelayEndpoint list \<Rightarrow> bool" where
  "goodEndpoints parseUrl rs \<longleftrightarrow> length rs \<le> 8 \<and> sorted (map re_priority rs) \<and> distinct (map endpointDuplicateKey rs)
     \<and> (\<forall>r \<in> set rs. coreEndpoint r \<and> secureEndpoint parseUrl r) \<and> (\<exists>r \<in> set rs. re_transport r = lit ''wss'')"

lemma coreEndpoint_texts:
  assumes "coreEndpoint r"
  shows "goodText (re_transport r) 32" "goodText (re_uri r) 512"
  using assms transport_goodText by (auto simp: coreEndpoint_def)

lemma readEndpoint_Inr:
  "readEndpoint v = Inr r \<longleftrightarrow> (\<exists>m. v = CMap m \<and> fst ` set m \<subseteq> set endpointKeys \<and> (\<forall>k \<in> set endpointKeys. map_of m k = map_of (endpointEntries r) k)
     \<and> transportPattern (re_transport r) \<and> length (textEncode (re_transport r)) \<le> 32 \<and> re_uri r \<noteq> [] \<and> length (textEncode (re_uri r)) \<le> 512
     \<and> 0 \<le> re_priority r \<and> re_priority r \<le> maxSafeInteger)"
  by (cases r) (auto simp: readEndpoint_def andThen_Inr readCborMap_Inr rejectUnknownEntries_Inr readField_Inr readTransport_Inr readRouteUri_Inr
      readBoundedEndpointTransport_def readBoundedEndpointUri_def readUint_Inr endpointKeys_def endpointEntries_def)

lemma readEndpointEntries_Inr:
  "readEndpointEntries parseUrl previous seen n vs = Inr (rs, n') \<longleftrightarrow> mapRes readEndpoint vs = Inr rs \<and> sorted (previous # map re_priority rs)
     \<and> distinct (map endpointDuplicateKey rs) \<and> endpointDuplicateKey ` set rs \<inter> set seen = {} \<and> (\<forall>r \<in> set rs. secureEndpoint parseUrl r)
     \<and> n' = n + length (filter (\<lambda>r. re_transport r = lit ''wss'') rs)"
proof (induction vs arbitrary: previous seen n rs)
  case (Cons v vs)
  show ?case
    by (cases rs) (auto simp: andThen_Inr guard_Inr Cons secureEndpoint_def split: prod.splits)
qed auto

lemma readRelayEndpoints_Inr:
  "readRelayEndpoints parseUrl v = Inr rs \<longleftrightarrow> (\<exists>vs. v = CArray vs \<and> length vs \<le> 8 \<and> mapRes readEndpoint vs = Inr rs)
     \<and> sorted (map re_priority rs) \<and> distinct (map endpointDuplicateKey rs) \<and> (\<forall>r \<in> set rs. secureEndpoint parseUrl r)
     \<and> (\<exists>r \<in> set rs. re_transport r = lit ''wss'')"
proof (cases v)
  case (CArray vs)
  have order: "sorted (-1 # map re_priority rs) \<longleftrightarrow> sorted (map re_priority rs)" if "mapRes readEndpoint vs = Inr rs"
  proof -
    have "\<forall>r \<in> set rs. 0 \<le> re_priority r" using that by (rule mapRes_all) (unfold readEndpoint_Inr, blast)
    then show ?thesis by fastforce
  qed
  have "readRelayEndpoints parseUrl v = Inr rs \<longleftrightarrow> vs \<noteq> [] \<and> length vs \<le> 8
      \<and> (\<exists>n. readEndpointEntries parseUrl (-1) [] 0 vs = Inr (rs, n) \<and> n \<noteq> 0)"
    by (auto simp: CArray readRelayEndpoints_def andThen_Inr maxRelayEndpoints_def)
  also have "\<dots> \<longleftrightarrow> vs \<noteq> [] \<and> length vs \<le> 8 \<and> mapRes readEndpoint vs = Inr rs \<and> sorted (map re_priority rs)
      \<and> distinct (map endpointDuplicateKey rs) \<and> (\<forall>r \<in> set rs. secureEndpoint parseUrl r) \<and> (\<exists>r \<in> set rs. re_transport r = lit ''wss'')"
    unfolding readEndpointEntries_Inr using order by (auto simp: filter_empty_conv)
  finally show ?thesis using mapRes_Inr_length [of readEndpoint vs rs] by (auto simp: CArray)
qed (auto simp: readRelayEndpoints_def)

lemma endpoint_wf: "coreEndpoint r \<Longrightarrow> wfCbor (endpointMap r)"
  using coreEndpoint_texts [of r] goodText_decodable
  by (simp add: endpointMap_def endpointEntries_def maxCborCollectionEntries_def) (simp add: coreEndpoint_def)

lemma readEndpoint_wf:
  assumes "readEndpoint v = Inr r" "wfCbor v"
  shows "coreEndpoint r"
proof -
  obtain m where m: "v = CMap m" "\<forall>k \<in> set endpointKeys. map_of m k = map_of (endpointEntries r) k"
    using assms(1) unfolding readEndpoint_Inr by blast
  have "map_of m (lit ''uri'') = Some (CText (re_uri r))"
    using m(2) by (simp_all add: endpointKeys_def endpointEntries_def)
  then have "wfCbor (CText (re_uri r))" using assms(2) m(1) by (auto dest!: map_of_SomeD)
  then show ?thesis using assms(1) unfolding readEndpoint_Inr by (auto simp: coreEndpoint_def goodText_def decodableText_def)
qed

lemma readEndpoint_canonical:
  assumes "coreEndpoint r"
  shows "readEndpoint (canonical (endpointMap r)) = Inr r"
proof -
  have "map_of (canonicalEntries (endpointEntries r)) = map_of (endpointEntries r)"
    by (rule map_of_flat) (simp_all add: endpointEntries_def)
  moreover have "canonical (endpointMap r) = CMap (canonicalEntries (endpointEntries r))"
    by (simp add: endpointMap_def canonical_CMap canonicalEntries_def del: canonical.simps(2))
  moreover have "fst ` set (canonicalEntries (endpointEntries r)) \<subseteq> set endpointKeys" by (simp add: endpointEntries_def endpointKeys_def)
  ultimately show ?thesis
    using assms coreEndpoint_texts [OF assms] unfolding readEndpoint_Inr by (auto simp: coreEndpoint_def goodText_def)
qed

lemma readEndpoint_plain: "readEndpoint (endpointMap r) = Inr r' \<Longrightarrow> r' = r"
  by (cases r; cases r') (auto simp: readEndpoint_Inr endpointMap_def endpointEntries_def endpointKeys_def)

lemma readEndpoint_endpointMap: "coreEndpoint r \<Longrightarrow> readEndpoint (endpointMap r) = Inr r"
  using coreEndpoint_texts [of r] unfolding readEndpoint_Inr
  by (auto simp: coreEndpoint_def goodText_def endpointMap_def endpointEntries_def endpointKeys_def)

lemma mapRes_endpoints: "mapRes readEndpoint (map endpointMap rs) = Inr rs' \<Longrightarrow> rs' = rs"
  by (induction rs arbitrary: rs') (auto simp: andThen_Inr dest: readEndpoint_plain)

lemma readRelayEndpoints_good:
  assumes "readRelayEndpoints parseUrl v = Inr rs" "wfCbor v"
  shows "goodEndpoints parseUrl rs"
proof -
  from assms(1) obtain vs where v: "v = CArray vs" "length vs \<le> 8" "mapRes readEndpoint vs = Inr rs"
    unfolding readRelayEndpoints_Inr by blast
  have "\<forall>w \<in> set vs. wfCbor w" using assms(2) v(1) by simp
  with v(3) have "\<forall>r \<in> set rs. coreEndpoint r"
    by (induction vs arbitrary: rs) (auto simp: andThen_Inr readEndpoint_wf simp del: wfCbor.simps)
  then show ?thesis using assms(1) v mapRes_Inr_length [OF v(3)] unfolding readRelayEndpoints_Inr by (auto simp: goodEndpoints_def)
qed

lemma readRelayEndpoints_canonical:
  assumes "goodEndpoints parseUrl rs"
  shows "readRelayEndpoints parseUrl (canonical (CArray (map endpointMap rs))) = Inr rs"
proof -
  have "mapRes readEndpoint (map (canonical \<circ> endpointMap) rs) = Inr rs"
    using assms readEndpoint_canonical unfolding mapRes_map by (intro mapRes_id) (simp add: goodEndpoints_def)
  then show ?thesis using assms unfolding readRelayEndpoints_Inr by (auto simp: goodEndpoints_def simp del: canonical.simps(2))
qed

lemma endpoints_wf: "goodEndpoints parseUrl rs \<Longrightarrow> wfCbor (CArray (map endpointMap rs))"
  by (auto simp: goodEndpoints_def maxCborCollectionEntries_def endpoint_wf)

lemma normalizeRelayEndpoints_good:
  assumes "normalizeRelayEndpoints parseUrl localeCompare endpoints = Inr rs" "\<forall>r \<in> set endpoints. goodText (re_uri r) 512"
  shows "goodEndpoints parseUrl rs" "set rs = set endpoints"
proof -
  obtain cmp where r: "readRelayEndpoints parseUrl (CArray (map endpointMap (js_sort cmp endpoints))) = Inr rs"
    using assms(1) unfolding normalizeRelayEndpoints_def guard_Inr by blast
  then have m: "mapRes readEndpoint (map endpointMap (js_sort cmp endpoints)) = Inr rs" unfolding readRelayEndpoints_Inr by blast
  then have rs: "rs = js_sort cmp endpoints" by (rule mapRes_endpoints)
  then show "set rs = set endpoints" by simp
  have "coreEndpoint x" if "x \<in> set endpoints" for x
  proof -
    have "readEndpoint (endpointMap x) = Inr x"
      using mapRes_Inr_elem [OF m, of "endpointMap x"] readEndpoint_plain that by auto
    then show ?thesis using assms(2) that unfolding readEndpoint_Inr by (auto simp: coreEndpoint_def)
  qed
  then have "\<forall>x \<in> set (js_sort cmp endpoints). wfCbor (endpointMap x)" by (simp add: endpoint_wf del: wfCbor.simps)
  moreover have "length (js_sort cmp endpoints) \<le> 8" using r rs unfolding readRelayEndpoints_Inr by auto
  ultimately have "wfCbor (CArray (map endpointMap (js_sort cmp endpoints)))" by (simp add: maxCborCollectionEntries_def)
  then show "goodEndpoints parseUrl rs" using readRelayEndpoints_good r by blast
qed

section \<open>Lemmas on payloads\<close>

definition validBeaconPayload :: "(js_string \<Rightarrow> URL option) \<Rightarrow> js_string list \<Rightarrow> BootstrapBeaconPayload \<Rightarrow> bool" where
  "validBeaconPayload parseUrl supported p \<longleftrightarrow> length (bp_beaconId p) = 32 \<and> goodTime (bp_sequence p) \<and> goodTime (bp_issuedAt p)
     \<and> goodTime (bp_expiresAt p) \<and> (case bp_previousBeaconId p of None \<Rightarrow> True | Some b \<Rightarrow> length b = 32)
     \<and> orderedSet 128 8 (bp_protocolVersions p) \<and> protocolID \<in> set (bp_protocolVersions p)
     \<and> orderedSet 128 8 (bp_profileMultihashes p) \<and> hasSupportedProfile (bp_profileMultihashes p) supported
     \<and> orderedSet 128 32 (bp_relayCapabilities p) \<and> goodEndpoints parseUrl (bp_relayEndpoints p)"

lemma validBeaconPayload_wf:
  assumes "validBeaconPayload parseUrl supported p"
  shows "wfCbor (CMap (beaconPayloadEntries p))"
proof -
  have "wfCbor (CArray (map endpointMap (bp_relayEndpoints p)))" "wfCbor (CArray (map CText (bp_protocolVersions p)))"
    "wfCbor (CArray (map CText (bp_profileMultihashes p)))" "wfCbor (CArray (map CText (bp_relayCapabilities p)))"
    using assms by (auto simp: validBeaconPayload_def simp del: wfCbor.simps intro: endpoints_wf orderedSet_wf)
  then show ?thesis
    using assms by (auto simp: beaconPayloadEntries_def validBeaconPayload_def goodTime_def maxCborCollectionEntries_def maxCborBytes_def
      split: option.splits)
qed

lemma orderedSet_bound:
  assumes "orderedSet n k items"
  shows "cborBound (CArray (map CText items)) \<le> 9 + k * (9 + n)"
  using assms sum_list_bound [of items "cborBound \<circ> CText" "9 + n" k] by (auto simp: orderedSet_def goodText_def o_def)

lemma validBeaconPayload_size:
  assumes "validBeaconPayload parseUrl supported p"
  shows "length (encoded (CMap (beaconPayloadEntries p))) \<le> 20000"
proof (rule length_encoded_bound [OF validBeaconPayload_wf [OF assms]])
  have "cborBound (endpointMap r) \<le> 1000" if "coreEndpoint r" for r
    using coreEndpoint_texts [OF that] by (simp add: endpointMap_def endpointEntries_def goodText_def)
  then have "cborBound (CArray (map endpointMap (bp_relayEndpoints p))) \<le> 8009"
    using assms sum_list_bound [of "bp_relayEndpoints p" "cborBound \<circ> endpointMap" 1000 8]
    by (auto simp: validBeaconPayload_def goodEndpoints_def o_def)
  then show "cborBound (CMap (beaconPayloadEntries p)) \<le> 20000"
    using assms orderedSet_bound [of 128 8 "bp_protocolVersions p"] orderedSet_bound [of 128 8 "bp_profileMultihashes p"]
      orderedSet_bound [of 128 32 "bp_relayCapabilities p"]
    by (auto simp: beaconPayloadEntries_def validBeaconPayload_def split: option.splits)
qed

lemma readBootstrapPayload_valid:
  assumes "readBootstrapPayload parseUrl supported bs = Inr p"
  shows "validBeaconPayload parseUrl supported p"
proof -
  from assms obtain m versions profiles capabilities endpoints where m: "decodeDeterministicCbor bs maxDraftEnvelopeBytes = Inr (CMap m)"
    and get: "map_of m (lit ''protocol_versions'') = Some versions" "map_of m (lit ''profile_multihashes'') = Some profiles"
      "map_of m (lit ''relay_capabilities'') = Some capabilities" "map_of m (lit ''relay_endpoints'') = Some endpoints"
    and read: "readOrderedUniqueTextArray maxBootstrapNameBytes versions ''protocol_versions'' 8 = Inr (bp_protocolVersions p)"
      "readOrderedUniqueTextArray maxBootstrapNameBytes profiles ''profile_multihashes'' 8 = Inr (bp_profileMultihashes p)"
      "readOrderedUniqueTextArray maxBootstrapNameBytes capabilities ''relay_capabilities'' 32 = Inr (bp_relayCapabilities p)"
      "readRelayEndpoints parseUrl endpoints = Inr (bp_relayEndpoints p)"
    and rest: "length (bp_beaconId p) = 32" "goodTime (bp_sequence p)" "goodTime (bp_issuedAt p)" "goodTime (bp_expiresAt p)"
      "bp_previousBeaconId p = None \<or> (\<exists>b. bp_previousBeaconId p = Some b \<and> length b = 32)"
      "protocolID \<in> set (bp_protocolVersions p)" "hasSupportedProfile (bp_profileMultihashes p) supported"
    unfolding readBootstrapPayload_def guard_Inr andThen_Inr decodeCborForValidation_Inr
    by (auto simp: andThen_Inr guard_Inr readCborMap_Inr readField_Inr readTimestamp_Inr readBytes_Inr readUint_Inr goodTime_def split: if_splits)
  have "wfCbor versions" "wfCbor profiles" "wfCbor capabilities" "wfCbor endpoints" using decoded_entry [OF m] get by blast+
  then have "orderedSet 128 8 (bp_protocolVersions p)" "orderedSet 128 8 (bp_profileMultihashes p)" "orderedSet 128 32 (bp_relayCapabilities p)"
    "goodEndpoints parseUrl (bp_relayEndpoints p)"
    using read readRelayEndpoints_good by (simp_all add: readOrdered_Inr maxBootstrapNameBytes_def)
  then show ?thesis
    using rest by (auto simp: validBeaconPayload_def split: option.splits)
qed

lemma readOrdered_id: "orderedSet n k items \<Longrightarrow> n \<le> 1024 \<Longrightarrow> k \<le> 64 \<Longrightarrow>
    readOrderedUniqueTextArray n (CArray (map CText items)) key k = Inr items"
  using orderedSet_wf [of n k items] by (subst readOrdered_Inr) (simp_all del: wfCbor.simps)

lemma readBootstrapPayload_encode:
  assumes p: "validBeaconPayload parseUrl supported p" and enc: "encodeBootstrapPayload p = Inr bs"
  shows "readBootstrapPayload parseUrl supported bs = Inr p"
proof -
  let ?es = "beaconPayloadEntries p" and ?m = "canonicalEntries (beaconPayloadEntries p)"
  note wf = validBeaconPayload_wf [OF p]
  have enc: "encodeDeterministicCbor (CMap ?es) = Inr bs" using enc by (simp only: encodeBootstrapPayload_def)
  then have "length bs \<le> 20000" using validBeaconPayload_size [OF p] by (simp del: encodeDeterministicCbor.simps)
  then have size: "length bs \<le> maxCborBytes" "length bs \<le> maxDraftEnvelopeBytes" by (simp_all add: maxCborBytes_def maxDraftEnvelopeBytes_def)
  have d: "decodeCborForValidation bs = Inr (CMap ?m)"
    unfolding decodeCborForValidation_Inr by (rule decode_encode_map [OF wf enc size(2)])
  have "distinct (map fst ?es)" by (auto simp: beaconPayloadEntries_def split: option.splits)
  then have get: "map_of ?m k = map_option canonical (map_of ?es k)" for k by simp
  have keys: "rejectUnknownEntries ?m beaconKeys = Inr ()"
    by (auto simp: rejectUnknownEntries_Inr beaconPayloadEntries_def beaconKeys_def split: option.splits)
  have arrays: "map_of ?m (lit ''relay_capabilities'') = Some (CArray (map CText (bp_relayCapabilities p)))"
    "map_of ?m (lit ''protocol_versions'') = Some (CArray (map CText (bp_protocolVersions p)))"
    "map_of ?m (lit ''profile_multihashes'') = Some (CArray (map CText (bp_profileMultihashes p)))"
    "map_of ?m (lit ''relay_endpoints'') = Some (canonical (CArray (map endpointMap (bp_relayEndpoints p))))"
    by (auto simp: get beaconPayloadEntries_def map_add_def split: option.splits)
  have scalars: "map_of ?m (lit ''beacon_id'') = Some (CBytes (bp_beaconId p))"
    "map_of ?m (lit ''sequence'') = Some (CNum (bp_sequence p))" "map_of ?m (lit ''issued_at'') = Some (CNum (bp_issuedAt p))"
    "map_of ?m (lit ''expires_at'') = Some (CNum (bp_expiresAt p))"
    "map_of ?m (lit ''previous_beacon_id'') = map_option CBytes (bp_previousBeaconId p)"
    by (auto simp: get beaconPayloadEntries_def map_add_def split: option.splits)
  have "\<forall>key \<in> {''revokes'', ''rendezvous_boards'', ''mirror_hints'', ''proofs''}. map_of ?m (lit key) = None"
    by (auto simp: get beaconPayloadEntries_def map_add_def split: option.splits)
  then have optional: "validateOptionalPublicValues ?m = Inr ()"
    by (simp add: validateOptionalPublicValues_def hasEntry_map_of)
  have ordered: "readOrderedUniqueTextArray maxBootstrapNameBytes (CArray (map CText (bp_protocolVersions p))) key 8 = Inr (bp_protocolVersions p)"
    "readOrderedUniqueTextArray maxBootstrapNameBytes (CArray (map CText (bp_profileMultihashes p))) key 8 = Inr (bp_profileMultihashes p)"
    "readOrderedUniqueTextArray maxBootstrapNameBytes (CArray (map CText (bp_relayCapabilities p))) key 32 = Inr (bp_relayCapabilities p)" for key
    using p by (simp_all add: validBeaconPayload_def maxBootstrapNameBytes_def readOrdered_id)
  have read: "readRelayEndpoints parseUrl (canonical (CArray (map endpointMap (bp_relayEndpoints p)))) = Inr (bp_relayEndpoints p)"
    using p by (simp add: validBeaconPayload_def readRelayEndpoints_canonical del: canonical.simps)
  show ?thesis
    using p size(1)
    by (cases "bp_previousBeaconId p")
      (auto simp: readBootstrapPayload_def d keys readCborMap_def readField_Some [OF arrays(1)] readField_Some [OF arrays(2)]
        readField_Some [OF arrays(3)] readField_Some [OF arrays(4)] readField_Some [OF scalars(1)] readField_Some [OF scalars(2)]
        readField_Some [OF scalars(3)] readField_Some [OF scalars(4)] scalars(5) hasEntry_map_of optional
        ordered read readBytes_def readTimestamp_def readUint_def isSafeInteger_def validBeaconPayload_def goodTime_def
        maxCborBytes_def maxDraftTimestamp_def maxSafeInteger_def readField_Some simp del: canonical.simps)
qed

section \<open>Lemmas on validation and creation\<close>

lemma bootstrapEventType_text: "decodableText bootstrapEventType" "bootstrapEventType \<noteq> []" "length (textEncode bootstrapEventType) \<le> 64"
  by (simp_all add: bootstrapEventType_def)

interpretation beacon_record: signed_record bootstrapEventType "readBootstrapPayload parseUrl supported"
  encodeBootstrapPayload "validBeaconPayload parseUrl supported" for parseUrl supported
proof
  fix p assume p: "validBeaconPayload parseUrl supported p"
  note wf = validBeaconPayload_wf [OF p]
  obtain bs where enc: "encodeDeterministicCbor (CMap (beaconPayloadEntries p)) = Inr bs" and size: "length bs \<le> 20000"
    using encode_wf_Inr [OF wf] validBeaconPayload_size [OF p] by blast
  have "bs \<noteq> []" using decode_size [OF decode_encode_map [OF wf enc order.refl]] by auto
  moreover have enc: "encodeBootstrapPayload p = Inr bs" using enc by (simp only: encodeBootstrapPayload_def)
  ultimately show "\<exists>bs. encodeBootstrapPayload p = Inr bs \<and> bs \<noteq> [] \<and> length bs \<le> 20000 \<and> readBootstrapPayload parseUrl supported bs = Inr p"
    using size readBootstrapPayload_encode [OF p enc] by blast
qed (use bootstrapEventType_text readBootstrapPayload_valid in blast)+

lemma validateBranchTextBootstrapBeacon_Inr:
  "validateBranchTextBootstrapBeacon verify parseUrl now skew supported w = Inr b \<longleftrightarrow>
     sb_wrapper b = w
     \<and> genuine verify bootstrapEventType w (sb_signedEventBytes b) (sb_signatureInputBytes b) (sb_envelope b)
     \<and> now < ev_expiresAt (sb_envelope b) \<and> ev_createdAt (sb_envelope b) \<le> now + skew
     \<and> readBootstrapPayload parseUrl supported (ev_payloadBytes (sb_envelope b)) = Inr (sb_payload b)
     \<and> bp_expiresAt (sb_payload b) = ev_expiresAt (sb_envelope b) \<and> bp_issuedAt (sb_payload b) \<le> ev_createdAt (sb_envelope b)"
  unfolding validateBranchTextBootstrapBeacon_def outcome_Inr
  unfolding opened_Inr openSignedEvent_iff [OF bootstrapEventType_text(1,2)]
  unfolding andThen_Inr rejectWith_Inr
  by (cases b) auto

definition readableBeaconOptions :: "js_string list \<Rightarrow> CreateBootstrapBeaconOptions \<Rightarrow> bool" where
  "readableBeaconOptions supported options \<longleftrightarrow> length (orElse (cb_beaconId options) (replicate 32 0)) = 32
     \<and> length (orElse (cb_eventId options) (replicate 32 0)) = 32 \<and> goodTime (orElse (cb_sequence options) 1)
     \<and> readableTexts 8 (orElse (cb_protocolVersions options) [protocolID])
     \<and> protocolID \<in> set (orElse (cb_protocolVersions options) [protocolID])
     \<and> readableTexts 8 (orElse (cb_profileMultihashes options) defaultBootstrapProfileMultihashes)
     \<and> hasSupportedProfile (orElse (cb_profileMultihashes options) defaultBootstrapProfileMultihashes) supported
     \<and> readableTexts 32 (orElse (cb_relayCapabilities options) defaultBootstrapRelayCapabilities)
     \<and> (\<forall>r \<in> set (orElse (cb_relayEndpoints options) defaultRelayEndpoints). goodText (re_uri r) 512)"

lemma createdBeaconPayload_valid:
  assumes created: "createdBeaconPayload parseUrl localeCompare now expiresAt randomBeacon options = Inr p"
    and readable: "readableBeaconOptions supported options" and "length randomBeacon = 32"
    and times: "goodTime now" "goodTime expiresAt"
  shows "validBeaconPayload parseUrl supported p" "bp_issuedAt p = now" "bp_expiresAt p = expiresAt"
    "set (bp_relayEndpoints p) = set (orElse (cb_relayEndpoints options) defaultRelayEndpoints)"
proof -
  let ?versions = "orElse (cb_protocolVersions options) [protocolID]"
    and ?profiles = "orElse (cb_profileMultihashes options) defaultBootstrapProfileMultihashes"
    and ?capabilities = "orElse (cb_relayCapabilities options) defaultBootstrapRelayCapabilities"
  from created have versions: "normalizeOrderedTextSet 128 ?versions ''protocol_versions'' = Inr (bp_protocolVersions p)"
    and profiles: "normalizeOrderedTextSet 128 ?profiles ''profile_multihashes'' = Inr (bp_profileMultihashes p)"
    and capabilities: "normalizeOrderedTextSet 128 ?capabilities ''relay_capabilities'' = Inr (bp_relayCapabilities p)"
    and endpoints: "normalizeRelayEndpoints parseUrl localeCompare (orElse (cb_relayEndpoints options) defaultRelayEndpoints)
      = Inr (bp_relayEndpoints p)"
    and rest: "bp_beaconId p = orElse (cb_beaconId options) randomBeacon" "bp_sequence p = orElse (cb_sequence options) 1"
      "bp_issuedAt p = now" "bp_expiresAt p = expiresAt" "bp_previousBeaconId p = None"
    by (auto simp: createdBeaconPayload_def andThen_Inr maxBootstrapNameBytes_def)
  have r: "readableTexts 8 ?versions" "protocolID \<in> set ?versions" "readableTexts 8 ?profiles" "hasSupportedProfile ?profiles supported"
    "readableTexts 32 ?capabilities" "\<forall>r \<in> set (orElse (cb_relayEndpoints options) defaultRelayEndpoints). goodText (re_uri r) 512"
    using readable unfolding readableBeaconOptions_def by blast+
  note endpoints = normalizeRelayEndpoints_good [OF endpoints r(6)]
  have "length (orElse (cb_beaconId options) randomBeacon) = 32"
    using readable assms(3) by (auto simp: readableBeaconOptions_def orElse_def split: option.splits)
  moreover have "hasSupportedProfile (bp_profileMultihashes p) supported"
    using hasSupportedProfile_set normalized_ordered(2) [OF profiles r(3)] r(4) by blast
  ultimately show "validBeaconPayload parseUrl supported p"
    using readable rest times normalized_ordered [OF versions r(1)] normalized_ordered [OF profiles r(3)] r(2)
      normalized_ordered [OF capabilities r(5)] endpoints
    by (simp add: validBeaconPayload_def readableBeaconOptions_def)
  show "bp_issuedAt p = now" "bp_expiresAt p = expiresAt"
    "set (bp_relayEndpoints p) = set (orElse (cb_relayEndpoints options) defaultRelayEndpoints)"
    using rest endpoints by simp_all
qed

section \<open>Properties\<close>

text \<open>
  C95. A wrapper is accepted as a bootstrap beacon exactly when it carries the canonical bytes of a well formed envelope of type
  bootstrap.beacon that its sender signed, the clock lies inside its lifetime up to the allowed skew, and its payload reads,
  expires with the envelope and was issued no later than it. The payload of an accepted beacon is valid: its endpoints are ordered,
  distinct and at most eight, every secure one names its port, and there is a secure one.
\<close>

theorem bootstrap_beacon_accepted:
  "validateBranchTextBootstrapBeacon verify parseUrl now skew supported w = Inr b \<longleftrightarrow>
     sb_wrapper b = w
     \<and> genuine verify bootstrapEventType w (sb_signedEventBytes b) (sb_signatureInputBytes b) (sb_envelope b)
     \<and> now < ev_expiresAt (sb_envelope b) \<and> ev_createdAt (sb_envelope b) \<le> now + skew
     \<and> readBootstrapPayload parseUrl supported (ev_payloadBytes (sb_envelope b)) = Inr (sb_payload b)
     \<and> bp_expiresAt (sb_payload b) = ev_expiresAt (sb_envelope b) \<and> bp_issuedAt (sb_payload b) \<le> ev_createdAt (sb_envelope b)
     \<and> validBeaconPayload parseUrl supported (sb_payload b)"
  unfolding validateBranchTextBootstrapBeacon_Inr using readBootstrapPayload_valid by blast


text \<open>The witness: a beacon created with the default options, at a receiver that knows the URL of the default endpoint.\<close>

definition defaultOptions :: CreateBootstrapBeaconOptions where
  "defaultOptions = \<lparr>cb_expiresAt = None, cb_sequence = None, cb_beaconId = None, cb_eventId = None, cb_protocolVersions = None,
     cb_profileMultihashes = None, cb_relayCapabilities = None, cb_relayEndpoints = None\<rparr>"

definition defaultPayload :: BootstrapBeaconPayload where
  "defaultPayload = \<lparr>bp_beaconId = replicate 32 1, bp_sequence = 1, bp_issuedAt = 1700000000, bp_expiresAt = 1700604800,
     bp_previousBeaconId = None, bp_protocolVersions = [protocolID], bp_profileMultihashes = [developmentProfileMultihash],
     bp_relayCapabilities = defaultBootstrapRelayCapabilities, bp_relayEndpoints = defaultRelayEndpoints\<rparr>"

definition defaultUrl :: "js_string \<Rightarrow> URL option" where
  "defaultUrl s = Some \<lparr>url_protocol = lit ''wss:'', url_host = lit ''branch.undoo.ru'', url_hostname = lit ''branch.undoo.ru'',
     url_username = [], url_password = [], url_pathname = lit ''/relay/v0'', url_hash = []\<rparr>"

lemma defaultEndpoints_good: "goodEndpoints defaultUrl defaultRelayEndpoints"
proof -
  have "readExplicitPort defaultBootstrapRelayEndpointUri = Some 443"
    by (simp add: defaultBootstrapRelayEndpointUri_def readExplicitPort_def lit_def unitOf_def startsWith_def digitUnit_def portDecimal_def
        maxSafeInteger_def Let_def)
  then have "validateWssEndpointUri defaultUrl defaultBootstrapRelayEndpointUri = Inr ()"
    by (simp add: validateWssEndpointUri_def defaultUrl_def)
  moreover have "transportPattern (lit ''wss'')" by (simp add: transportPattern_def lit_def unitOf_def)
  ultimately show ?thesis
    using goodText_lit [of "''wss://branch.undoo.ru:443/relay/v0''" 512]
    by (simp add: goodEndpoints_def coreEndpoint_def secureEndpoint_def defaultRelayEndpoints_def maxSafeInteger_def)
      (simp add: defaultBootstrapRelayEndpointUri_def)
qed

lemma defaultCapabilities_sorted: "sort defaultBootstrapRelayCapabilities = defaultBootstrapRelayCapabilities"
  by (simp add: defaultBootstrapRelayCapabilities_def lit_def unitOf_def)

lemma defaultPayload_created:
  "createdBeaconPayload defaultUrl (\<lambda>_ _. 0) 1700000000 (orElse (cb_expiresAt defaultOptions) (1700000000 + defaultLifetimeSeconds))
     (replicate 32 1) defaultOptions = Inr defaultPayload"
proof -
  have "normalizeRelayEndpoints defaultUrl (\<lambda>_ _. 0) defaultRelayEndpoints = Inr defaultRelayEndpoints"
    using defaultEndpoints_good readEndpoint_endpointMap
    by (simp add: normalizeRelayEndpoints_def readRelayEndpoints_Inr js_sort_def goodEndpoints_def defaultRelayEndpoints_def maxRelayEndpoints_def)
  moreover have "normalizeOrderedTextSet 128 defaultBootstrapRelayCapabilities key = Inr defaultBootstrapRelayCapabilities" for key
    unfolding normalizeOrderedTextSet_def defaultCapabilities_sorted by (simp add: defaultBootstrapRelayCapabilities_def)
  ultimately show ?thesis
    using protocolID_text
    by (simp add: createdBeaconPayload_def defaultOptions_def orElse_def maxBootstrapNameBytes_def defaultPayload_def defaultLifetimeSeconds_def
        normalizeOrderedTextSet_def [of _ "[_]"] defaultBootstrapProfileMultihashes_def developmentProfileMultihash_def)
qed

lemma defaultOptions_readable: "readableBeaconOptions [developmentProfileMultihash] defaultOptions"
  using defaultEndpoints_good protocolID_text wellFormed_lit startsWithBOM_lit
  by (simp add: readableBeaconOptions_def defaultOptions_def orElse_def goodTime_def maxSafeInteger_def readableTexts_def decodableText_def
      hasSupportedProfile_def goodEndpoints_def coreEndpoint_def developmentProfileMultihash_def defaultBootstrapProfileMultihashes_def
      defaultBootstrapRelayCapabilities_def)


text \<open>
  C31. One wrapper has one meaning: it is never accepted both as an identity contact and as a beacon, whatever the two receivers'
  clocks, profiles, URL parsers and signature checks are, and two receivers that accept it as a contact read the same signed bytes,
  the same bytes under the signature and the same envelope.
\<close>

theorem signed_records_unambiguous:
  "\<not> (validateBranchTextIdentityContact sha256 verify parseUrl now skew supported minimumSequence w = Inr c
      \<and> validateBranchTextBootstrapBeacon verify' parseUrl' now' skew' supported' w = Inr b)
   \<and> \<not> (validateBranchTextIdentityContact sha256 verify parseUrl now skew supported minimumSequence w = Inr c
      \<and> validateBranchTextIdentityContact sha256' verify' parseUrl' now' skew' supported' minimumSequence' w = Inr c'
      \<and> (sc_signedEventBytes c, sc_signatureInputBytes c, sc_envelope c) \<noteq> (sc_signedEventBytes c', sc_signatureInputBytes c', sc_envelope c'))"
proof (intro conjI notI; elim conjE)
  assume "validateBranchTextIdentityContact sha256 verify parseUrl now skew supported minimumSequence w = Inr c"
    "validateBranchTextBootstrapBeacon verify' parseUrl' now' skew' supported' w = Inr b"
  then have "identityContactEventType = bootstrapEventType"
    unfolding validateBranchTextIdentityContact_Inr validateBranchTextBootstrapBeacon_Inr
    using genuine_unique [of verify identityContactEventType w _ _ _ verify' bootstrapEventType] identityContactEventType_text
      bootstrapEventType_text by metis
  then show False by (simp add: identityContactEventType_def bootstrapEventType_def)
next
  assume c: "validateBranchTextIdentityContact sha256 verify parseUrl now skew supported minimumSequence w = Inr c"
    "validateBranchTextIdentityContact sha256' verify' parseUrl' now' skew' supported' minimumSequence' w = Inr c'"
    and differ: "(sc_signedEventBytes c, sc_signatureInputBytes c, sc_envelope c) \<noteq> (sc_signedEventBytes c', sc_signatureInputBytes c', sc_envelope c')"
  have g: "genuine verify identityContactEventType w (sc_signedEventBytes c) (sc_signatureInputBytes c) (sc_envelope c)"
    "genuine verify' identityContactEventType w (sc_signedEventBytes c') (sc_signatureInputBytes c') (sc_envelope c')"
    using c unfolding validateBranchTextIdentityContact_Inr by blast+
  then have "sc_envelope c = sc_envelope c'" using genuine_unique identityContactEventType_text by blast
  with g differ show False by (auto simp: genuine_def)
qed

end
