(* ===== verification/RibbonFrame.thy ===== *)
theory RibbonFrame
  imports RelayFrames
begin

text \<open>
  The packets of the visual ribbon: the frame around a wrapper (\<^verbatim>\<open>visual/ribbon-image.ts\<close>) and the packet that is
  written into an image (part of \<^verbatim>\<open>visual/ribbon-block.ts\<close>). Both end in a CRC-32C, whose functions on 32-bit words are
  the same in the two files and modelled once; the block packet reads with a default where the frame throws, but only after
  its length has been checked. The lemmas show that the table of the source computes the bitwise CRC, that a change within
  four consecutive bytes is always noticed, and which frames and packets are accepted.
\<close>

unbundle bit_operations_syntax

section \<open>CRC-32C\<close>

definition crcShift :: "32 word \<Rightarrow> 32 word" where
  "crcShift crc = (if crc AND 1 = 1 then drop_bit 1 crc XOR 0x82f63b78 else drop_bit 1 crc)"

definition makeCRC32CTable :: "32 word list" where
  "makeCRC32CTable = map (\<lambda>index. (crcShift ^^ 8) (of_nat index)) [0..<256]"

definition readCRC32CTable :: "nat \<Rightarrow> 32 word res" where
  "readCRC32CTable index =
     (if index < length makeCRC32CTable then Inr (makeCRC32CTable ! index) else throw ''crc32c table index outside range'')"

fun crc32cFrom :: "32 word \<Rightarrow> bytes \<Rightarrow> 32 word res" where
  "crc32cFrom crc [] = Inr crc"
| "crc32cFrom crc (b # bs) =
     andThen (readCRC32CTable (unat ((crc XOR ucast b) AND 0xff))) (\<lambda>entry. crc32cFrom (drop_bit 8 crc XOR entry) bs)"

definition crc32c :: "bytes \<Rightarrow> 32 word res" where
  "crc32c bs = andThen (crc32cFrom 0xffffffff bs) (\<lambda>crc. Inr (crc XOR 0xffffffff))"

definition uint32Bytes :: "32 word \<Rightarrow> bytes" where
  "uint32Bytes v = [ucast (drop_bit 24 v), ucast (drop_bit 16 v), ucast (drop_bit 8 v), ucast v]"

definition readByteAt :: "bytes \<Rightarrow> nat \<Rightarrow> byte res" where
  "readByteAt source offset = (if offset < length source then Inr (source ! offset) else throw ''offset outside byte array'')"

definition readUint32BE :: "bytes \<Rightarrow> nat \<Rightarrow> 32 word res" where
  "readUint32BE source offset =
     andThen (readByteAt source offset) (\<lambda>a. andThen (readByteAt source (offset + 1)) (\<lambda>b.
     andThen (readByteAt source (offset + 2)) (\<lambda>c. andThen (readByteAt source (offset + 3)) (\<lambda>d.
       Inr (push_bit 24 (ucast a) OR push_bit 16 (ucast b) OR push_bit 8 (ucast c) OR ucast d)))))"

definition uint16Bytes :: "nat \<Rightarrow> bytes" where
  "uint16Bytes n = [byteOf (n div 256 mod 256), byteOf (n mod 256)]"

section \<open>Frames\<close>

definition frameMagic :: bytes where
  "frameMagic = [0x42, 0x52, 0x49, 0x4d, 0x47, 0x30]"

definition ribbonBlockProfile :: js_string where
  "ribbonBlockProfile = lit ''ribbon-block/0.draft''"

definition ribbonPayloadKindBranchWrapper :: byte where "ribbonPayloadKindBranchWrapper = 1"
definition maxRibbonPayloadBytes :: nat where "maxRibbonPayloadBytes = 768"

datatype RibbonDecodeResult = RibbonFailure js_string | RibbonAccepted byte bytes

definition branchWrapperBytes :: "js_string \<Rightarrow> bytes res" where
  "branchWrapperBytes wrapper =
     (if \<not> startsWith wrapper branchTextWrapperPrefix then throw ''payload must be a BRANCH0. wrapper'' else Inr (textEncode wrapper))"

definition encodeRibbonFrame :: "bytes \<Rightarrow> bytes res" where
  "encodeRibbonFrame payload =
     (if length payload > maxRibbonPayloadBytes then throw ''payload too large''
      else
        let profile = textEncode ribbonBlockProfile in
        if length profile > 255 then throw ''profile id too large''
        else andThen (crc32c payload) (\<lambda>crc.
          Inr (frameMagic @ [byteOf (length profile)] @ profile @ [ribbonPayloadKindBranchWrapper] @ uint16Bytes (length payload)
            @ payload @ uint32Bytes crc)))"

definition decodeUTF8 :: "bytes \<Rightarrow> js_string" where
  "decodeUTF8 bs = (case textDecode bs of None \<Rightarrow> [] | Some s \<Rightarrow> s)"

definition decodeRibbonFrame :: "bytes \<Rightarrow> RibbonDecodeResult res" where
  "decodeRibbonFrame frame =
     (if length frame < length frameMagic + 1 + 1 + 2 + 4 then Inr (RibbonFailure (lit ''visual_sync_failed''))
      else if take (length frameMagic) frame \<noteq> frameMagic then Inr (RibbonFailure (lit ''visual_sync_failed''))
      else
        let offset = length frameMagic + 1; profileLength = unat (frame ! length frameMagic) in
        if profileLength = 0 then Inr (RibbonFailure (lit ''visual_sync_failed''))
        else if offset + profileLength + 1 + 2 + 4 > length frame then Inr (RibbonFailure (lit ''visual_sync_failed''))
        else if decodeUTF8 (take profileLength (drop offset frame)) \<noteq> ribbonBlockProfile
        then Inr (RibbonFailure (lit ''payload_kind_unsupported''))
        else
          let offset = offset + profileLength; flags = frame ! offset in
          if flags \<noteq> ribbonPayloadKindBranchWrapper then Inr (RibbonFailure (lit ''payload_kind_unsupported''))
          else
            let offset = offset + 1 in
            andThen (readByteAt frame offset) (\<lambda>high. andThen (readByteAt frame (offset + 1)) (\<lambda>low.
            let payloadLength = unat high * 256 + unat low; offset = offset + 2 in
            if payloadLength > maxRibbonPayloadBytes then Inr (RibbonFailure (lit ''payload_too_large''))
            else if offset + payloadLength + 4 \<noteq> length frame then Inr (RibbonFailure (lit ''visual_sync_failed''))
            else
              let payload = take payloadLength (drop offset frame) in
              andThen (readUint32BE frame (offset + payloadLength)) (\<lambda>stored. andThen (crc32c payload) (\<lambda>crc.
              if stored \<noteq> crc then Inr (RibbonFailure (lit ''visual_crc_failed''))
              else if \<not> startsWith (decodeUTF8 payload) branchTextWrapperPrefix
              then Inr (RibbonFailure (lit ''payload_not_branch_wrapper''))
              else Inr (RibbonAccepted flags payload))))))"

section \<open>Block packets\<close>

definition blockMagic :: bytes where
  "blockMagic = textEncode (lit ''BRBLK0'')"

definition blockVersion :: byte where "blockVersion = 0"
definition blockHeaderBytes :: nat where "blockHeaderBytes = length blockMagic + 1 + 2"
definition blockTrailerBytes :: nat where "blockTrailerBytes = 4"

definition encodeBlockPacket :: "bytes \<Rightarrow> bytes res" where
  "encodeBlockPacket frame =
     (if length frame > 0xffff then throw ''block payload frame too large''
      else andThen (crc32c frame) (\<lambda>crc.
        Inr (blockMagic @ [blockVersion] @ uint16Bytes (length frame) @ frame @ uint32Bytes crc)))"

definition decodeBlockPacket :: "bytes \<Rightarrow> bytes option res" where
  "decodeBlockPacket packet =
     (if length packet < blockHeaderBytes + blockTrailerBytes then Inr None
      else if take (length blockMagic) packet \<noteq> blockMagic then Inr None
      else if packet ! length blockMagic \<noteq> blockVersion then Inr None
      else
        let frameLength = unat (packet ! (length blockMagic + 1)) * 256 + unat (packet ! (length blockMagic + 2));
            packetLength = blockHeaderBytes + frameLength + blockTrailerBytes in
        if frameLength = 0 \<or> packetLength > length packet then Inr None
        else
          let frame = take frameLength (drop blockHeaderBytes packet) in
          andThen (readUint32BE packet (blockHeaderBytes + frameLength)) (\<lambda>stored. andThen (crc32c frame) (\<lambda>crc.
            if stored \<noteq> crc then Inr None else Inr (Some frame))))"

section \<open>Lemmas on the CRC\<close>

text \<open>The bitwise CRC: shift the register eight times per byte.\<close>

definition crcState :: "32 word \<Rightarrow> bytes \<Rightarrow> 32 word" where
  "crcState = foldl (\<lambda>crc b. (crcShift ^^ 8) (crc XOR ucast b))"

lemma crcShift_bit:
  "bit (crcShift w) n \<longleftrightarrow> bit w (Suc n) \<noteq> (bit w 0 \<and> bit (0x82f63b78 :: 32 word) n)"
proof -
  have "w AND 1 = 1 \<longleftrightarrow> bit w 0" by (simp add: and_one_eq bit_0 odd_iff_mod_2_eq_one)
  then show ?thesis by (auto simp: crcShift_def bit_xor_iff bit_drop_bit_eq)
qed

lemma crcShift_xor: "crcShift (v XOR w) = crcShift v XOR crcShift w"
  by (rule bit_eqI) (auto simp: crcShift_bit bit_xor_iff)

lemma crcShifts_xor: "(crcShift ^^ k) (v XOR w) = (crcShift ^^ k) v XOR (crcShift ^^ k) w"
  by (induction k) (simp_all add: crcShift_xor)

lemma crcShift_inject: "crcShift v = crcShift w \<longleftrightarrow> v = w"
proof
  assume eq: "crcShift v = crcShift w"
  have top: "bit (crcShift x) 31 \<longleftrightarrow> bit x 0" for x
  proof -
    have "\<not> bit x (Suc 31)" using bit_imp_le_length [of x "Suc 31"] by auto
    moreover have "bit (0x82f63b78 :: 32 word) 31" by simp
    ultimately show ?thesis by (simp add: crcShift_bit)
  qed
  show "v = w"
  proof (rule bit_eqI)
    fix n
    have "bit v 0 \<longleftrightarrow> bit w 0" using top [of v] top [of w] eq by simp
    moreover have "bit (crcShift v) m \<longleftrightarrow> bit (crcShift w) m" for m using eq by simp
    ultimately show "bit v n \<longleftrightarrow> bit w n" by (cases n) (auto simp: crcShift_bit)
  qed
qed simp

lemma crcShifts_inject: "(crcShift ^^ k) v = (crcShift ^^ k) w \<longleftrightarrow> v = w"
  by (induction k) (simp_all add: crcShift_inject)

lemma crcShift_drop: "\<not> bit w 0 \<Longrightarrow> crcShift w = drop_bit 1 w"
  by (rule bit_eqI) (simp add: crcShift_bit bit_drop_bit_eq)

lemma crcShifts_drop: "(\<forall>n < k. \<not> bit w n) \<Longrightarrow> (crcShift ^^ k) w = drop_bit k w"
proof (induction k)
  case (Suc k)
  then have "(crcShift ^^ k) w = drop_bit k w" by simp
  moreover have "\<not> bit (drop_bit k w) 0" using Suc.prems by (simp add: bit_drop_bit_eq)
  ultimately show ?case by (simp add: crcShift_drop)
qed simp

text \<open>One step of the table is eight steps of the register.\<close>

lemma table_step:
  "readCRC32CTable (unat ((crc XOR ucast b) AND 0xff)) = Inr ((crcShift ^^ 8) ((crc XOR ucast b) AND 0xff))"
proof -
  let ?low = "(crc XOR ucast b) AND 0xff"
  have "?low = take_bit 8 (crc XOR ucast b)" by (simp add: take_bit_eq_mask mask_eq_decr_exp)
  then have "unat ?low < 256" by (simp add: take_bit_eq_mod unat_mod) 
  then show ?thesis by (simp add: readCRC32CTable_def makeCRC32CTable_def)
qed

lemma crc_step: "drop_bit 8 crc XOR (crcShift ^^ 8) ((crc XOR ucast b) AND 0xff) = (crcShift ^^ 8) (crc XOR ucast (b :: byte))"
proof -
  let ?x = "crc XOR ucast b"
  have full: "(0xff :: 32 word) = mask 8" by (simp add: mask_eq_decr_exp)
  have "?x = (?x AND NOT (mask 8)) XOR (?x AND mask 8)" by (rule bit_eqI) (auto simp: bit_simps)
  then have "(crcShift ^^ 8) ?x = (crcShift ^^ 8) (?x AND NOT (mask 8)) XOR (crcShift ^^ 8) (?x AND mask 8)"
    using crcShifts_xor by metis
  also have "(crcShift ^^ 8) (?x AND NOT (mask 8)) = drop_bit 8 (?x AND NOT (mask 8))"
    by (intro crcShifts_drop allI impI) (simp add: bit_simps)
  also have "drop_bit 8 (?x AND NOT (mask 8)) = drop_bit 8 crc"
    by (rule bit_eqI) (auto simp: bit_simps dest: bit_imp_le_length)
  finally show ?thesis unfolding full by simp
qed

lemma xor_inject_left: "u XOR v = u XOR w \<longleftrightarrow> v = (w :: 32 word)"
  by (metis xor.assoc xor.left_neutral xor_self_eq)

lemma crcState_Cons: "crcState crc (b # bs) = crcState ((crcShift ^^ 8) (crc XOR ucast b)) bs"
  by (simp only: crcState_def foldl_Cons)

lemma crc32cFrom_state: "crc32cFrom crc bs = Inr (crcState crc bs)"
  by (induction bs arbitrary: crc) (simp_all add: table_step crc_step crcState_def)

definition crcValue :: "bytes \<Rightarrow> 32 word" where
  "crcValue bs = crcState 0xffffffff bs XOR 0xffffffff"

lemma crc32c_value [simp]: "crc32c bs = Inr (crcValue bs)"
  by (simp add: crc32c_def crc32cFrom_state crcValue_def)

text \<open>
  Up to four bytes enter the register as one little-endian word, so two different blocks of that length leave different registers.
\<close>

primrec littleEndian :: "bytes \<Rightarrow> 32 word" where
  "littleEndian [] = 0"
| "littleEndian (b # bs) = ucast b XOR push_bit 8 (littleEndian bs)"

lemma littleEndian_bit: "length bs \<le> 4 \<Longrightarrow> bit (littleEndian bs) n \<longleftrightarrow> n < 8 * length bs \<and> bit (bs ! (n div 8)) (n mod 8)"
proof (induction bs arbitrary: n)
  case (Cons b bs)
  show ?case
  proof (cases "n < 8")
    case True
    then show ?thesis using Cons.prems by (auto simp: bit_simps)
  next
    case False
    have "\<not> bit b n" using False by (auto dest: bit_imp_le_length)
    moreover have "n < 8 + 8 * length bs \<Longrightarrow> n < 32" using Cons.prems by auto
    moreover have "n div 8 = Suc ((n - 8) div 8)" "(n - 8) mod 8 = n mod 8" using False by (auto simp: le_div_geq le_mod_geq)
    ultimately show ?thesis
      using False Cons.IH [of "n - 8"] Cons.prems by (auto simp: bit_simps)
  qed
qed simp

lemma littleEndian_inject:
  assumes "length bs = length cs" "length bs \<le> 4" "littleEndian bs = littleEndian cs"
  shows "bs = cs"
proof (rule nth_equalityI)
  fix i assume i: "i < length bs"
  show "bs ! i = cs ! i"
  proof (rule bit_word_eqI)
    fix n assume n: "n < LENGTH(8)"
    have "bit (littleEndian bs) (8 * i + n) \<longleftrightarrow> bit (littleEndian cs) (8 * i + n)" using assms(3) by simp
    then show "bit (bs ! i) n \<longleftrightarrow> bit (cs ! i) n" using assms(1,2) i n by (simp add: littleEndian_bit)
  qed
qed (rule assms(1))

lemma crcState_word: "length bs \<le> 4 \<Longrightarrow> crcState crc bs = (crcShift ^^ (8 * length bs)) (crc XOR littleEndian bs)"
proof (induction bs arbitrary: crc)
  case (Cons b bs)
  have "(crcShift ^^ 8) (push_bit 8 (littleEndian bs)) = drop_bit 8 (push_bit 8 (littleEndian bs))"
    by (rule crcShifts_drop) (simp add: bit_simps)
  also have "\<dots> = littleEndian bs"
    using Cons.prems by (intro bit_eqI) (auto simp: bit_simps littleEndian_bit)
  finally have "(crcShift ^^ 8) (crc XOR ucast b) XOR littleEndian bs = (crcShift ^^ 8) (crc XOR littleEndian (b # bs))"
    by (simp add: crcShifts_xor xor.assoc)
  moreover have "crcState ((crcShift ^^ 8) (crc XOR ucast b)) bs
      = (crcShift ^^ (8 * length bs)) ((crcShift ^^ 8) (crc XOR ucast b) XOR littleEndian bs)"
    using Cons.prems by (intro Cons.IH) simp
  ultimately have "crcState crc (b # bs) = (crcShift ^^ (8 * length bs)) ((crcShift ^^ 8) (crc XOR littleEndian (b # bs)))"
    by (simp only: crcState_Cons)
  moreover have "8 * length (b # bs) = 8 * length bs + 8" by simp
  ultimately show ?case by (simp only: funpow_add o_apply)
qed (simp add: crcState_def)

lemma crcState_append: "crcState crc (bs @ cs) = crcState (crcState crc bs) cs"
  by (simp add: crcState_def)

lemma crcState_inject_state: "crcState v bs = crcState w bs \<longleftrightarrow> v = w"
proof (induction bs arbitrary: v w)
  case (Cons b bs)
  have "v XOR ucast b = w XOR ucast b \<longleftrightarrow> v = w" using xor_inject_left [of "ucast b" v w] by (simp only: xor.commute)
  then show ?case by (simp only: crcState_Cons Cons.IH crcShifts_inject)
qed (simp add: crcState_def)

lemma crcValue_burst:
  assumes "length bs = length cs" "length bs \<le> 4" "bs \<noteq> cs"
  shows "crcValue (pre @ bs @ post) \<noteq> crcValue (pre @ cs @ post)"
proof
  assume "crcValue (pre @ bs @ post) = crcValue (pre @ cs @ post)"
  then have "crcState (crcState 0xffffffff pre) bs = crcState (crcState 0xffffffff pre) cs"
    unfolding crcValue_def by (metis crcState_append crcState_inject_state xor.commute xor_inject_left)
  then have "littleEndian bs = littleEndian cs"
    using assms by (simp add: crcState_word crcShifts_inject xor_inject_left)
  then show False using littleEndian_inject [OF assms(1,2)] assms(3) by blast
qed

section \<open>Lemmas on numbers in packets\<close>

lemma uint32Bytes_length [simp]: "length (uint32Bytes w) = 4"
  by (simp add: uint32Bytes_def)

lemma uint16Bytes_length [simp]: "length (uint16Bytes n) = 2"
  by (simp add: uint16Bytes_def)

lemma readUint32BE_bytes: "readUint32BE (pre @ uint32Bytes w @ post) (length pre) = Inr w"
proof -
  have "push_bit 24 (ucast (ucast (drop_bit 24 w) :: byte)) OR push_bit 16 (ucast (ucast (drop_bit 16 w) :: byte))
      OR push_bit 8 (ucast (ucast (drop_bit 8 w) :: byte)) OR ucast (ucast w :: byte) = w"
  proof (rule bit_word_eqI)
    fix n assume "n < LENGTH(32)"
    then consider "n < 8" | "8 \<le> n" "n < 16" | "16 \<le> n" "n < 24" | "24 \<le> n" "n < 32" by fastforce
    then show "bit (push_bit 24 (ucast (ucast (drop_bit 24 w) :: byte)) OR push_bit 16 (ucast (ucast (drop_bit 16 w) :: byte))
      OR push_bit 8 (ucast (ucast (drop_bit 8 w) :: byte)) OR ucast (ucast w :: byte) :: 32 word) n = bit w n"
      by cases (auto simp: bit_simps)
  qed
  then show ?thesis by (simp add: readUint32BE_def readByteAt_def uint32Bytes_def nth_append)
qed

lemma readUint32BE_Inr:
  assumes "readUint32BE source offset = Inr w"
  shows "offset + 4 \<le> length source \<and> take 4 (drop offset source) = uint32Bytes w"
proof -
  from assms have len: "offset + 4 \<le> length source"
    by (auto simp: readUint32BE_def readByteAt_def andThen_Inr split: if_splits)
  then have drop: "take 4 (drop offset source) = [source ! offset, source ! (offset + 1), source ! (offset + 2), source ! (offset + 3)]"
    by (intro nth_equalityI) (auto simp: nth_Cons split: nat.splits simp: less_Suc_eq numeral_eq_Suc)
  moreover have "uint32Bytes w = [source ! offset, source ! (offset + 1), source ! (offset + 2), source ! (offset + 3)]"
    using assms len unfolding uint32Bytes_def
    by (auto simp: readUint32BE_def readByteAt_def andThen_Inr split: if_splits intro!: bit_word_eqI) (auto simp: bit_simps dest: bit_imp_le_length)
  ultimately show ?thesis using len by simp
qed

lemma uint16_value: "n < 65536 \<Longrightarrow> unat (byteOf (n div 256 mod 256)) * 256 + unat (byteOf (n mod 256)) = n"
  by (simp add: byteOf_def unat_of_nat)

lemma uint16_bytes: "uint16Bytes (unat a * 256 + unat b) = [a, b]"
proof -
  have "unat a < 256" "unat b < 256" using unsigned_less [of a] unsigned_less [of b] by auto
  then show ?thesis by (simp add: uint16Bytes_def byteOf_def)
qed

section \<open>Lemmas on frames\<close>

definition framed :: "bytes \<Rightarrow> bytes \<Rightarrow> bytes" where
  "framed mark payload = frameMagic @ [byteOf (length (mark @ textEncode ribbonBlockProfile))] @ (mark @ textEncode ribbonBlockProfile)
     @ [1] @ uint16Bytes (length payload) @ payload @ uint32Bytes (crcValue payload)"

lemma profile_facts: "length (textEncode ribbonBlockProfile) = 20" "ribbonBlockProfile \<noteq> []" "wellFormed ribbonBlockProfile"
    "\<not> startsWithBOM ribbonBlockProfile"
  by (simp_all add: ribbonBlockProfile_def asciiString_def textEncode_lit wellFormed_lit startsWithBOM_lit)

lemma encodeRibbonFrame_framed: "encodeRibbonFrame payload = (if length payload > 768 then throw ''payload too large'' else Inr (framed [] payload))"
  by (simp add: encodeRibbonFrame_def maxRibbonPayloadBytes_def profile_facts framed_def ribbonPayloadKindBranchWrapper_def)

lemma decodeUTF8_iff:
  assumes "wellFormed s" "\<not> startsWithBOM s" "s \<noteq> []"
  shows "decodeUTF8 bs = s \<longleftrightarrow> bs = textEncode s \<or> bs = byteOrderMark @ textEncode s"
proof
  assume "decodeUTF8 bs = s"
  then have "textDecode bs = Some s" using assms(3) by (auto simp: decodeUTF8_def split: option.splits)
  then have "textEncode s = stripBOM bs" using textDecode_inverse by blast
  then show "bs = textEncode s \<or> bs = byteOrderMark @ textEncode s"
    by (auto simp: stripBOM_def split: if_splits) (metis append_take_drop_id)
next
  have same: "textDecode (byteOrderMark @ textEncode s) = textDecode (textEncode s)"
    using assms(2) textEncode_BOM [of s] by (simp add: textDecode_def stripBOM_def byteOrderMark_def)
  have "textDecode (textEncode s) = Some s" using assms(1,2) textDecode_textEncode toWellFormed_id by auto
  moreover assume "bs = textEncode s \<or> bs = byteOrderMark @ textEncode s"
  ultimately show "decodeUTF8 bs = s" using same by (auto simp: decodeUTF8_def)
qed

lemma split_frame:
  assumes "6 + 1 + n + 1 + 2 + 4 \<le> length frame"
  obtains magic c profile flags high low tail where "frame = magic @ [c] @ profile @ [flags, high, low] @ tail"
    "length magic = 6" "length profile = n" "4 \<le> length tail"
proof -
  let ?rest = "drop (7 + n) frame"
  have "frame = take 6 frame @ [frame ! 6] @ drop 7 frame"
    using assms id_take_nth_drop [of 6 frame] by simp
  also have "drop 7 frame = take n (drop 7 frame) @ ?rest" by (metis append_take_drop_id drop_drop add.commute)
  also have "?rest = [?rest ! 0, ?rest ! 1, ?rest ! 2] @ drop 3 ?rest"
    using assms by (intro nth_equalityI) (auto simp: nth_append nth_Cons numeral_eq_Suc split: nat.splits)
  finally show thesis using assms by (intro that) auto
qed

lemma decodeRibbonFrame_parts:
  assumes "length magic = 6" "length profile < 256" "4 \<le> length tail"
  shows "decodeRibbonFrame (magic @ [c] @ profile @ [flags, high, low] @ tail) = Inr (RibbonAccepted fl payload) \<and> unat c = length profile
    \<longleftrightarrow> magic = frameMagic \<and> unat c = length profile \<and> decodeUTF8 profile = ribbonBlockProfile \<and> flags = 1 \<and> fl = 1
      \<and> length payload \<le> 768 \<and> [high, low] = uint16Bytes (length payload) \<and> tail = payload @ uint32Bytes (crcValue payload)
      \<and> startsWith (decodeUTF8 payload) branchTextWrapperPrefix"
  (is "?L \<longleftrightarrow> ?R")
proof
  let ?frame = "magic @ [c] @ profile @ [flags, high, low] @ tail"
  assume L: ?L
  define n where "n = unat high * 256 + unat low"
  from L assms obtain stored where parts: "magic = frameMagic" "decodeUTF8 profile = ribbonBlockProfile" "flags = 1" "fl = 1" "n \<le> 768"
    "length tail = n + 4" "payload = take n tail" "readUint32BE ?frame (Suc (Suc (Suc (Suc (Suc (Suc (Suc (Suc (Suc (Suc (length profile + n))))))))))) = Inr stored" "stored = crcValue payload"
    "startsWith (decodeUTF8 payload) branchTextWrapperPrefix"
    by (auto simp: decodeRibbonFrame_def frameMagic_def n_def Let_def nth_append readByteAt_def andThen_Inr maxRibbonPayloadBytes_def
        ribbonPayloadKindBranchWrapper_def split: if_splits)
  have k: "Suc (Suc (Suc (Suc (Suc (Suc (Suc (Suc (Suc (Suc (length profile + n)))))))))) = 10 + length profile + n" by simp
  have "take 4 (drop (10 + length profile + n) ?frame) = uint32Bytes stored"
    using readUint32BE_Inr [OF parts(8)] unfolding k by blast
  moreover have "drop (10 + length profile + n) ?frame = drop n tail"
  proof -
    have "?frame = (magic @ [c] @ profile @ [flags, high, low]) @ tail" by simp
    moreover have "drop (length pre + n) (pre @ tail) = drop n tail" for pre by simp
    moreover have "10 + length profile + n = length (magic @ [c] @ profile @ [flags, high, low]) + n" using assms(1) by simp
    ultimately show ?thesis by metis
  qed
  ultimately have "drop n tail = uint32Bytes stored" using parts(6) by (metis order.refl add_diff_cancel_left' length_drop take_all)
  then have "tail = payload @ uint32Bytes (crcValue payload)" using parts(7,9) by (metis append_take_drop_id)
  moreover have "length payload = n" using parts(6,7) by simp
  ultimately show ?R using L parts uint16_bytes [of high low] by (simp add: n_def)
next
  assume R: ?R
  have "unat high * 256 + unat low = length payload"
    using R uint16_value [of "length payload"] by (simp add: uint16Bytes_def)
  moreover have "readUint32BE (magic @ [c] @ profile @ [flags, high, low] @ tail) (Suc (Suc (Suc (Suc (Suc (Suc (Suc (Suc (Suc (Suc (length profile + length payload))))))))))) = Inr (crcValue payload)"
  proof -
    have "Suc (Suc (Suc (Suc (Suc (Suc (Suc (Suc (Suc (Suc (length profile + length payload)))))))))) = 10 + length profile + length payload" by simp
    moreover have "readUint32BE (magic @ [c] @ profile @ [flags, high, low] @ tail) (10 + length profile + length payload) = Inr (crcValue payload)"
      using readUint32BE_bytes [of "magic @ [c] @ profile @ [flags, high, low] @ payload" "crcValue payload" "[]"] R assms(1)
      by (simp add: ac_simps)
    ultimately show ?thesis by metis
  qed
  moreover have "profile \<noteq> []"
    using R decodeUTF8_iff [OF profile_facts(3,4,2), of profile] profile_facts(1) by (auto simp: byteOrderMark_def)
  moreover have "magic = frameMagic" "unat c = length profile" "decodeUTF8 profile = ribbonBlockProfile" "flags = 1" "fl = 1"
    "length payload \<le> 768" "tail = payload @ uint32Bytes (crcValue payload)" "startsWith (decodeUTF8 payload) branchTextWrapperPrefix"
    using R by blast+
  ultimately show ?L
    using assms(2)
    by (simp add: decodeRibbonFrame_def frameMagic_def Let_def nth_append readByteAt_def maxRibbonPayloadBytes_def
        ribbonPayloadKindBranchWrapper_def)
qed

lemma frameMagic_length: "length frameMagic = 6"
  by (simp add: frameMagic_def)

lemma framed_parts:
  "framed mark payload = frameMagic @ [byteOf (length mark + 20)] @ (mark @ textEncode ribbonBlockProfile)
     @ [1, hd (uint16Bytes (length payload)), last (uint16Bytes (length payload))] @ payload @ uint32Bytes (crcValue payload)"
  by (simp add: framed_def profile_facts uint16Bytes_def)

lemma unat_byteOf_small: "n < 256 \<Longrightarrow> unat (byteOf n) = n"
  by (simp add: byteOf_def unat_of_nat)

lemma decodeRibbonFrame_framed:
  "decodeRibbonFrame frame = Inr (RibbonAccepted flags payload) \<longleftrightarrow>
     flags = 1 \<and> length payload \<le> 768 \<and> startsWith (decodeUTF8 payload) branchTextWrapperPrefix
     \<and> (frame = framed [] payload \<or> frame = framed byteOrderMark payload)"
  (is "?L \<longleftrightarrow> ?R")
proof
  assume L: ?L
  define n where "n = unat (frame ! 6)"
  have long: "6 + 1 + n + 1 + 2 + 4 \<le> length frame"
    using L by (auto simp: decodeRibbonFrame_def frameMagic_length n_def Let_def split: if_splits)
  obtain magic c profile fl high low tail where frame: "frame = magic @ [c] @ profile @ [fl, high, low] @ tail"
    and len: "length magic = 6" "length profile = n" "4 \<le> length tail" by (rule split_frame [OF long])
  have c: "unat c = n" unfolding n_def frame using len(1) by (simp add: nth_append)
  have "n < 256" using unsigned_less [of c, where ?'a = nat] c by simp
  then have parts: "magic = frameMagic" "decodeUTF8 profile = ribbonBlockProfile" "fl = 1" "flags = 1" "length payload \<le> 768"
    "[high, low] = uint16Bytes (length payload)" "tail = payload @ uint32Bytes (crcValue payload)"
    "startsWith (decodeUTF8 payload) branchTextWrapperPrefix"
    using decodeRibbonFrame_parts [OF len(1) _ len(3), of profile c fl high low flags payload] L c len(2) unfolding frame by auto
  have "c = byteOf n" using c by (simp add: byteOf_def flip: c)
  then have "frame = frameMagic @ [byteOf (length profile)] @ profile @ [1] @ uint16Bytes (length payload) @ payload @ uint32Bytes (crcValue payload)"
    using frame parts(1,3,7) len(2) by (simp flip: parts(6))
  moreover have "profile = textEncode ribbonBlockProfile \<or> profile = byteOrderMark @ textEncode ribbonBlockProfile"
    using parts(2) decodeUTF8_iff [OF profile_facts(3,4,2)] by blast
  ultimately show ?R using parts by (auto simp: framed_def)
next
  assume R: ?R
  then obtain mark where mark: "mark = [] \<or> mark = byteOrderMark" "frame = framed mark payload" by blast
  then have small: "length mark \<le> 3" by (auto simp: byteOrderMark_def)
  have "decodeUTF8 (mark @ textEncode ribbonBlockProfile) = ribbonBlockProfile"
    using decodeUTF8_iff [OF profile_facts(3,4,2)] mark(1) by auto
  moreover have "[hd (uint16Bytes (length payload)), last (uint16Bytes (length payload))] = uint16Bytes (length payload)"
    by (simp add: uint16Bytes_def)
  ultimately show ?L
    using decodeRibbonFrame_parts [of frameMagic "mark @ textEncode ribbonBlockProfile" "payload @ uint32Bytes (crcValue payload)"
        "byteOf (length mark + 20)" 1 "hd (uint16Bytes (length payload))" "last (uint16Bytes (length payload))" flags payload] R small
    unfolding mark(2) framed_parts by (simp add: frameMagic_def profile_facts unat_byteOf_small)
qed

section \<open>Lemmas on block packets\<close>

definition packed :: "bytes \<Rightarrow> bytes" where
  "packed frame = blockMagic @ [0] @ uint16Bytes (length frame) @ frame @ uint32Bytes (crcValue frame)"

lemma blockMagic_bytes: "blockMagic = [0x42, 0x52, 0x42, 0x4c, 0x4b, 0x30]"
  by (simp add: blockMagic_def asciiString_def textEncode_lit byteOf_def)

lemma encodeBlockPacket_packed:
  "encodeBlockPacket frame = (if length frame > 65535 then throw ''block payload frame too large'' else Inr (packed frame))"
  by (simp add: encodeBlockPacket_def packed_def blockVersion_def)

lemma decodeBlockPacket_packed:
  assumes "frame \<noteq> []" "length frame \<le> 65535"
  shows "decodeBlockPacket (packed frame @ rest) = Inr (Some frame)"
proof -
  let ?packet = "packed frame @ rest"
  have packet: "?packet = blockMagic @ [0, byteOf (length frame div 256 mod 256), byteOf (length frame mod 256)] @ frame
      @ uint32Bytes (crcValue frame) @ rest"
    by (simp add: packed_def uint16Bytes_def)
  have six: "length blockMagic = 6" by (simp add: blockMagic_bytes)
  have at: "take 6 ?packet = blockMagic" "?packet ! 6 = 0" "?packet ! (6 + 1) = byteOf (length frame div 256 mod 256)"
    "?packet ! (6 + 2) = byteOf (length frame mod 256)" "take (length frame) (drop 9 ?packet) = frame" "9 + length frame + 4 \<le> length ?packet"
    unfolding packet using six by (simp_all add: nth_append)
  have number: "unat (byteOf (length frame div 256 mod 256)) * 256 + unat (byteOf (length frame mod 256)) = length frame"
    using uint16_value assms(2) by simp
  have "readUint32BE ?packet (length (blockMagic @ [0] @ uint16Bytes (length frame) @ frame)) = Inr (crcValue frame)"
    using readUint32BE_bytes [of "blockMagic @ [0] @ uint16Bytes (length frame) @ frame" "crcValue frame" rest]
    by (simp add: packed_def)
  moreover have "length (blockMagic @ [0] @ uint16Bytes (length frame) @ frame) = 9 + length frame" using six by simp
  ultimately have "readUint32BE ?packet (9 + length frame) = Inr (crcValue frame)" by (simp only:)
  then show ?thesis
    using assms(1) at number six
    by (simp only: decodeBlockPacket_def blockHeaderBytes_def blockTrailerBytes_def blockVersion_def Let_def) (simp add: linorder_not_less)
qed

section \<open>Properties\<close>

text \<open>
  C34. A frame is accepted with a payload exactly when the payload begins, as text, with the wrapper prefix and the frame is the
  encoding of the payload, or the same with a byte order mark before the profile name, which the text decoder drops.
\<close>

theorem ribbon_frame_exact:
  "decodeRibbonFrame frame = Inr (RibbonAccepted flags payload) \<longleftrightarrow>
     flags = ribbonPayloadKindBranchWrapper \<and> startsWith (decodeUTF8 payload) branchTextWrapperPrefix
     \<and> (encodeRibbonFrame payload = Inr frame \<or> length payload \<le> maxRibbonPayloadBytes \<and> frame = framed byteOrderMark payload)"
  unfolding decodeRibbonFrame_framed
  by (auto simp: encodeRibbonFrame_framed ribbonPayloadKindBranchWrapper_def maxRibbonPayloadBytes_def not_less)

text \<open>
  C35. A change of an encoded frame that is confined to four consecutive bytes of its payload is never accepted.
\<close>

theorem ribbon_burst_detected:
  "\<not> (encodeRibbonFrame (pre @ bs @ post) = Inr (front @ (pre @ bs @ post) @ trailer) \<and> length trailer = 4
      \<and> length cs = length bs \<and> length bs \<le> 4 \<and> cs \<noteq> bs
      \<and> decodeRibbonFrame (front @ (pre @ cs @ post) @ trailer) = Inr (RibbonAccepted flags payload))"
proof (rule notI, elim conjE)
  assume enc: "encodeRibbonFrame (pre @ bs @ post) = Inr (front @ (pre @ bs @ post) @ trailer)" "length trailer = 4"
    and burst: "length cs = length bs" "length bs \<le> 4" "cs \<noteq> bs"
    and dec: "decodeRibbonFrame (front @ (pre @ cs @ post) @ trailer) = Inr (RibbonAccepted flags payload)"
  let ?sent = "pre @ bs @ post" and ?got = "pre @ cs @ post"
  define head where "head mark n = frameMagic @ [byteOf (length (mark @ textEncode ribbonBlockProfile))] @ (mark @ textEncode ribbonBlockProfile)
     @ [1] @ uint16Bytes n" for mark n
  have framed: "framed mark p = head mark (length p) @ p @ uint32Bytes (crcValue p)" for mark p
    by (simp add: framed_def head_def)
  have "front @ ?sent @ trailer = head [] (length ?sent) @ ?sent @ uint32Bytes (crcValue ?sent)"
    using enc(1) framed by (simp add: encodeRibbonFrame_framed split: if_splits)
  moreover from this have "length front = length (head [] (length ?sent))" using arg_cong [where f = length] enc(2) by fastforce
  ultimately have front: "front = head [] (length ?sent)" "trailer = uint32Bytes (crcValue ?sent)" by auto
  obtain mark where mark: "mark = [] \<or> mark = byteOrderMark" "front @ ?got @ trailer = framed mark payload"
    using dec unfolding decodeRibbonFrame_framed by blast
  have "(front @ ?got @ trailer) ! 6 = byteOf 20" by (simp add: front(1) head_def nth_append frameMagic_length profile_facts)
  moreover have "framed mark payload ! 6 = byteOf (length mark + 20)" by (simp add: framed_def nth_append frameMagic_length profile_facts)
  ultimately have "mark = []" using mark by (auto simp: byteOrderMark_def byteOf_def)
  then have eq: "front @ ?got @ trailer = head [] (length payload) @ payload @ uint32Bytes (crcValue payload)" using mark(2) framed by simp
  have "length front = length (head [] (length payload))" by (simp add: front(1) head_def)
  moreover from this have "length ?got = length payload" using arg_cong [OF eq, of length] enc(2) by simp
  ultimately have "?got @ trailer = payload @ uint32Bytes (crcValue payload) \<and> length ?got = length payload" using eq by simp
  then have "payload = ?got" "uint32Bytes (crcValue payload) = trailer" by (metis append_eq_append_conv)+
  moreover have "uint32Bytes v = uint32Bytes w \<Longrightarrow> v = w" for v w
    using readUint32BE_bytes [of "[]" v "[]"] readUint32BE_bytes [of "[]" w "[]"] by simp
  ultimately have "crcValue ?got = crcValue ?sent" using front(2) by metis
  then show False using crcValue_burst [of cs bs pre post] burst by auto
qed

end
