(* ===== verification/Spec2Isabelle.thy ===== *)
theory Spec2Isabelle
  imports AttachmentTransfer ImageTransfer AppStore_Invariant PeerControls SameRelay_Run BootstrapBeacon RibbonFrame
begin

text \<open>
  A verification library of Branch, a messenger whose browser application (\<^verbatim>\<open>src/pwa\<close>) talks to its
  peers through untrusted live relays, on top of a TypeScript core (\<^verbatim>\<open>src/packages/branch-core\<close>).

  \<^bold>\<open>How the parts interact.\<close> The relay client attaches to a relay over a WebSocket, authenticates it against
  a pinned key, binds a route per peer and sends sealed envelopes over it, each pending until an
  acknowledgement. What an envelope carries is a deterministic CBOR value: an application payload (a message, an
  attachment or image manifest, a chunk) or a signed application control (capabilities, receipts, typing, RTC
  signalling). Transfer machines put chunks together and hand out a file only when its digest is right; adapters
  check and remember controls; the application store keeps conversations, contacts, folders, outbox and receipts.

  \<^bold>\<open>Shared layers.\<close>
  \<^item> \<open>Branch_Prelude\<close>: bytes, UTF-16 strings, results, sorting with a comparator, the locale of components with an
    invariant. \<open>JsMap\<close>: \<^verbatim>\<open>Map\<close> with insertion order, expiry and eviction. \<open>Utf8\<close>: \<^verbatim>\<open>TextEncoder\<close> and
    \<^verbatim>\<open>TextDecoder\<close>. \<open>Json\<close>: \<^verbatim>\<open>JSON.parse\<close> and \<^verbatim>\<open>JSON.stringify\<close> with the round trip.
  \<^item> \<open>Base64Url\<close> (\<^verbatim>\<open>protocol/v0/base64url.ts\<close>); \<open>Cbor\<close>, \<open>Cbor_Roundtrip\<close>, \<open>Cbor_Fields\<close> (\<^verbatim>\<open>protocol/v0/cbor.ts\<close>): the encoder,
    the strict decoder, the readers of map fields; that decoding inverts encoding, accepts nothing but canonical
    encodings and needs a bounded stack. \<open>Codec_Tools\<close>, \<open>Field_Codec\<close>: the locale of codecs built from fields,
    interpreted on every message codec.

  \<^bold>\<open>Payloads and transfers\<close> (\<^verbatim>\<open>application-payload/\<close>).
  \<^item> \<open>ApplicationPayload\<close> (\<^verbatim>\<open>runtime.ts\<close>, \<^verbatim>\<open>capabilities.ts\<close>), \<open>Attachment\<close> (\<^verbatim>\<open>attachment.ts\<close>), \<open>Image\<close> (\<^verbatim>\<open>image.ts\<close>): every codec, with
    exact round trips and that the signing bytes cover every signed field.
  \<^item> \<open>ChunkStore\<close>, \<open>AttachmentTransfer\<close> (\<^verbatim>\<open>transfer-state.ts\<close>), \<open>ImageTransfer\<close> (\<^verbatim>\<open>image-transfer-state.ts\<close>): the transfer machines with
    their registries, \<^verbatim>\<open>receiveChunk\<close> cut at the awaited digest, so that what happens during the await is a step of
    its own: delivery of exactly the file, integrity, bounded buffers, refusal of replays, interleavings.

  \<^bold>\<open>Controls\<close> (\<^verbatim>\<open>application-control/\<close> and \<^verbatim>\<open>pwa/src/connectivity/\<close>).
  \<^item> \<open>ApplicationControl\<close> (\<^verbatim>\<open>runtime.ts\<close>): the signed envelope and its processing. \<open>WebRtc\<close> (\<^verbatim>\<open>webrtc.ts\<close>): the six signalling bodies.
  \<^item> \<open>ControlAdapters\<close>, \<open>PeerControls\<close>: receipts, typing, capabilities, image capabilities and RTC signalling as the
    application runs them: authenticity, acceptance at most once, delivery end to end, bounded memories.
  \<^item> \<open>ReplayWindow\<close>: the delivery window and the RTC admission ledger.

  \<^bold>\<open>The relay\<close> (\<^verbatim>\<open>protocol/v0/relay-attachment.ts\<close>, \<^verbatim>\<open>connectivity/same-relay.ts\<close>).
  \<^item> \<open>RelayFrames\<close>: the sixteen frame validators and, beside them, a declarative table of the frames; a frame is accepted
    exactly when it conforms to the table.
  \<^item> \<open>SameRelay\<close>: the client as a record of its fields and one action per method; an action returns its result or
    error, what it emitted and sent, and the new client. \<open>SameRelay_Machine\<close>: the step relation over calls, frames, closes,
    errors, timeouts and the pieces of \<^verbatim>\<open>attach\<close>. \<open>SameRelay_Effects\<close>: the locale in which every call is shown to
    consist of elementary effects. \<open>SameRelay_Run\<close>: its three interpretations and the properties of every run.

  \<^bold>\<open>Public records and direct frames.\<close>
  \<^item> \<open>TextCarrier\<close> (\<^verbatim>\<open>protocol/v0/text-carrier.ts\<close>): the words of a text that carry a record, and that the search finds all.
  \<^item> \<open>SignedEvents\<close>: the signed envelope that \<^verbatim>\<open>protocol/v0/identity-contact.ts\<close> and \<^verbatim>\<open>bootstrap-beacon.ts\<close> share, the
    helpers on ordered texts and endpoints, and the locale of a signed record; \<open>IdentityContact\<close> and \<open>BootstrapBeacon\<close>: their
    payloads, validation and creation, both interpretations of the locale: when a record is accepted, that a created record
    is, and that one wrapper has one meaning.
  \<^item> \<open>DirectFrames\<close>: the frames of a direct data channel (\<^verbatim>\<open>connectivity/rtc-data.ts\<close>) and the contact card
    (\<^verbatim>\<open>application-control/contact-card.ts\<close>), with exact round trips.
  \<^item> \<open>RibbonFrame\<close> (\<^verbatim>\<open>visual/ribbon-image.ts\<close>, \<^verbatim>\<open>ribbon-block.ts\<close>): the frames and packets in which a wrapper is hidden in an
    image, and what their CRC-32C notices.

  \<^bold>\<open>The store\<close> (\<^verbatim>\<open>pwa/src/state/\<close>).
  \<^item> \<open>AppStore\<close>: the slices of conversations, contacts, requests, folders, outbox, receipts, image projections and read
    state. \<open>AppStore_Invariant\<close>: the invariant of every reachable store, the refinement of conversations to one
    delivery machine per message, and what forgetting, accepting and reading do.

  \<^bold>\<open>Bounds and fuel.\<close> The CBOR decoder takes the depth of the call stack as an argument and reports its exhaustion as
    an error of its own; a depth of the input's length plus one always suffices. The JSON parser takes twice the
    length of the text as fuel, which is shown to be enough. Numbers are integers guarded by
    \<^verbatim>\<open>Number.isSafeInteger\<close>, JSON numbers rationals rounded to doubles. Every other loop is structural or has a
    termination proof.

  \<^bold>\<open>Parameters.\<close> SHA-256, Ed25519, random bytes, clocks, the URL parser and \<^verbatim>\<open>localeCompare\<close> are arguments; a
    property that needs a law of them has it as a hypothesis with a witness.

  \<^bold>\<open>Not modelled.\<close> Payload encryption (HPKE of a package and of the platform); the HTTP discovery clients;
    the images of the visual ribbon; diagnostics; echo and hopping programs; the React hooks of the connectivity runtimes, IndexedDB
    storage and every user interface, which are effects around the modelled parts. Of the relay client, key
    generation and two \<^verbatim>\<open>attach\<close> calls at the same time are not modelled.
\<close>

end
